(* ===== verification/Prelude.thy ===== *)
theory Prelude
  imports Main "HOL-Library.AList" "HOL-Library.Char_ord" "HOL-Library.Word"
begin

text \<open>
  Shared vocabulary of the development.

  \<^item> Rust's \<^verbatim>\<open>Result\<close> is a sum, errors on the left (\<open>Err\<close>, \<open>Ok\<close>).
  \<^item> A Rust \<^verbatim>\<open>HashMap\<close> is an association list without duplicate keys, so that
    iteration over its keys stays executable.  Nothing that is proved depends on the
    order of the list: the lemmas speak of \<open>hm_get\<close>, of the key set and of counts.
  \<^item> A Rust \<^verbatim>\<open>String\<close> is the list of its UTF-8 bytes, a \<^typ>\<open>char\<close> being one byte.
    \<open>str_chars\<close> selects the first byte of every character, which is what iteration
    by \<^verbatim>\<open>chars()\<close> sees when only ASCII characters are treated individually.
\<close>

section \<open>Collections of facts\<close>

named_theorems hm_simps "lookup after update laws of hash maps"
named_theorems invar_intros "operations preserve their component's invariant"

section \<open>Results\<close>

type_synonym ('e, 'a) result = "'e + 'a"

abbreviation Ok :: "'a \<Rightarrow> ('e, 'a) result" where
  "Ok \<equiv> Inr"

abbreviation Err :: "'e \<Rightarrow> ('e, 'a) result" where
  "Err \<equiv> Inl"

text \<open>A Rust function that can panic.\<close>

datatype 'a run = Returns 'a | Panics

text \<open>\<^verbatim>\<open>?\<close> on the result of an operation on the outside world.\<close>

definition and_then ::
  "'w \<times> ('e, 'a) result \<Rightarrow> ('a \<Rightarrow> 'w \<Rightarrow> 'w \<times> ('e, 'b) result) \<Rightarrow> 'w \<times> ('e, 'b) result" where
  "and_then m k = (case m of (w, Inr a) \<Rightarrow> k a w | (w, Inl e) \<Rightarrow> (w, Inl e))"

lemma and_then_Err [simp]: "and_then (w, Inl e) k = (w, Inl e)"
  by (simp add: and_then_def)

lemma and_then_Ok [simp]: "and_then (w, Inr a) k = k a w"
  by (simp add: and_then_def)

lemma and_then_eq_Ok:
  "and_then m k = (w', Inr b) \<longleftrightarrow> (\<exists>w a. m = (w, Inr a) \<and> k a w = (w', Inr b))"
  by (cases m) (auto simp: and_then_def split: sum.splits)

lemma and_then_keeps:
  "P (fst m) \<Longrightarrow> (\<And>a w. m = (w, Inr a) \<Longrightarrow> P w \<Longrightarrow> P (fst (k a w))) \<Longrightarrow> P (fst (and_then m k))"
  by (cases m) (auto simp: and_then_def split: sum.splits)

section \<open>64-bit signed integers\<close>

text \<open>\<^verbatim>\<open>i64\<close> arithmetic of a release build: results are reduced modulo
  \<open>2^64\<close> into the signed range.\<close>

definition wrap64 :: "int \<Rightarrow> int" where
  "wrap64 i = (i + 2 ^ 63) mod 2 ^ 64 - 2 ^ 63"

definition is_i64 :: "int \<Rightarrow> bool" where
  "is_i64 i \<longleftrightarrow> - (2 ^ 63) \<le> i \<and> i < 2 ^ 63"

definition i64_sub :: "int \<Rightarrow> int \<Rightarrow> int" where
  "i64_sub a b = wrap64 (a - b)"

definition i64_abs :: "int \<Rightarrow> int" where
  "i64_abs a = wrap64 (abs a)"

lemma wrap64_id: "is_i64 i \<Longrightarrow> wrap64 i = i"
  by (simp add: is_i64_def wrap64_def)

lemma wrap64_over: "2 ^ 63 \<le> i \<Longrightarrow> i < 2 ^ 63 + 2 ^ 64 \<Longrightarrow> wrap64 i = i - 2 ^ 64"
proof -
  assume "2 ^ 63 \<le> i" "i < 2 ^ 63 + 2 ^ 64"
  then have "(i + 2 ^ 63) mod 2 ^ 64 = (i + 2 ^ 63 - 2 ^ 64) mod 2 ^ 64"
    by (metis diff_add_cancel mod_add_self2)
  also have "\<dots> = i + 2 ^ 63 - 2 ^ 64"
    using \<open>2 ^ 63 \<le> i\<close> \<open>i < 2 ^ 63 + 2 ^ 64\<close> by (intro mod_pos_pos_trivial) auto
  finally show ?thesis by (simp add: wrap64_def)
qed

lemma wrap64_range: "is_i64 (wrap64 i)"
  by (simp add: is_i64_def wrap64_def)

section \<open>Hash maps\<close>

type_synonym ('k, 'v) hashmap = "('k \<times> 'v) list"

definition hm_get :: "('k, 'v) hashmap \<Rightarrow> 'k \<Rightarrow> 'v option" where
  "hm_get m k = map_of m k"

definition hm_insert :: "'k \<Rightarrow> 'v \<Rightarrow> ('k, 'v) hashmap \<Rightarrow> ('k, 'v) hashmap" where
  "hm_insert k v m = AList.update k v m"

definition hm_remove :: "'k \<Rightarrow> ('k, 'v) hashmap \<Rightarrow> ('k, 'v) hashmap" where
  "hm_remove k m = AList.delete k m"

definition hm_keys :: "('k, 'v) hashmap \<Rightarrow> 'k list" where
  "hm_keys m = map fst m"

definition hm_wf :: "('k, 'v) hashmap \<Rightarrow> bool" where
  "hm_wf m \<longleftrightarrow> distinct (hm_keys m)"

definition hm_retain :: "('k \<Rightarrow> 'v \<Rightarrow> bool) \<Rightarrow> ('k, 'v) hashmap \<Rightarrow> ('k, 'v) hashmap" where
  "hm_retain p m = filter (\<lambda>(k, v). p k v) m"

lemma hm_get_empty [simp, hm_simps]: "hm_get [] k = None"
  by (simp add: hm_get_def)

lemma hm_get_insert [simp, hm_simps]:
  "hm_get (hm_insert k v m) k' = (if k' = k then Some v else hm_get m k')"
  by (simp add: hm_get_def hm_insert_def update_conv)

lemma hm_get_remove [simp, hm_simps]:
  "hm_get (hm_remove k m) k' = (if k' = k then None else hm_get m k')"
  by (simp add: hm_get_def hm_remove_def delete_conv)

lemma hm_get_Some_iff_key: "(\<exists>v. hm_get m k = Some v) \<longleftrightarrow> k \<in> set (hm_keys m)"
  using dom_map_of_conv_image_fst [of m] by (auto simp: hm_get_def hm_keys_def dom_def)

lemma hm_get_None_iff: "hm_get m k = None \<longleftrightarrow> k \<notin> set (hm_keys m)"
  using hm_get_Some_iff_key [of m k] by (cases "hm_get m k") auto

lemma hm_get_key: "hm_get m k = Some v \<Longrightarrow> k \<in> set (hm_keys m)"
  using hm_get_Some_iff_key [of m k] by blast

lemma hm_get_entry: "hm_get m k = Some v \<Longrightarrow> (k, v) \<in> set m"
  by (simp add: hm_get_def map_of_SomeD)

lemma hm_entry_get: "\<lbrakk>hm_wf m; (k, v) \<in> set m\<rbrakk> \<Longrightarrow> hm_get m k = Some v"
  by (simp add: hm_get_def hm_wf_def hm_keys_def)

lemma hm_get_retain:
  "hm_wf m \<Longrightarrow> hm_get (hm_retain p m) k =
     (case hm_get m k of None \<Rightarrow> None | Some v \<Rightarrow> if p k v then Some v else None)"
proof (induction m)
  case Nil
  then show ?case by (simp add: hm_retain_def)
next
  case (Cons a m)
  obtain k0 v0 where a: "a = (k0, v0)" by force
  have wf: "hm_wf m" and fresh: "hm_get m k0 = None"
    using Cons.prems by (auto simp: a hm_wf_def hm_keys_def hm_get_def map_of_eq_None_iff)
  show ?case
    using Cons.IH [OF wf] fresh by (cases "k = k0") (auto simp: a hm_retain_def hm_get_def)
qed

lemma hm_wf_empty [simp, invar_intros]: "hm_wf []"
  by (simp add: hm_wf_def hm_keys_def)

lemma hm_wf_insert [simp, invar_intros]: "hm_wf m \<Longrightarrow> hm_wf (hm_insert k v m)"
  by (simp add: hm_wf_def hm_keys_def hm_insert_def distinct_update)

lemma hm_wf_remove [simp, invar_intros]: "hm_wf m \<Longrightarrow> hm_wf (hm_remove k m)"
  by (simp add: hm_wf_def hm_keys_def hm_remove_def distinct_delete)

lemma hm_wf_retain [simp, invar_intros]: "hm_wf m \<Longrightarrow> hm_wf (hm_retain p m)"
  by (induction m) (auto simp: hm_wf_def hm_keys_def hm_retain_def)

lemma hm_remove_keys: "set (hm_keys (hm_remove k m)) = set (hm_keys m) - {k}"
  by (auto simp: hm_keys_def hm_remove_def delete_keys)

lemma hm_insert_keys: "set (hm_keys (hm_insert k v m)) = insert k (set (hm_keys m))"
  by (auto simp: hm_keys_def hm_insert_def dom_update)

lemma hm_keys_insert_new:
  "k \<notin> set (hm_keys m) \<Longrightarrow> hm_keys (hm_insert k v m) = hm_keys m @ [k]"
  by (induction m) (auto simp: hm_keys_def hm_insert_def)

lemma hm_keys_remove: "hm_keys (hm_remove k m) = filter (\<lambda>x. x \<noteq> k) (hm_keys m)"
  by (induction m) (auto simp: hm_keys_def hm_remove_def)

text \<open>Removal of a list of keys, the shape of every clean-up loop.\<close>

lemma hm_get_foldl_remove:
  "hm_get (foldl (\<lambda>m k. hm_remove k m) m ks) k' =
     (if k' \<in> set ks then None else hm_get m k')"
  by (induction ks arbitrary: m) auto

section \<open>Strings\<close>

definition is_utf8_continuation :: "char \<Rightarrow> bool" where
  "is_utf8_continuation c \<longleftrightarrow> 128 \<le> (of_char c :: nat) \<and> (of_char c :: nat) < 192"

definition str_chars :: "string \<Rightarrow> string" where
  "str_chars s = filter (\<lambda>c. \<not> is_utf8_continuation c) s"

definition is_ascii_digit :: "char \<Rightarrow> bool" where
  "is_ascii_digit c \<longleftrightarrow> 48 \<le> (of_char c :: nat) \<and> (of_char c :: nat) \<le> 57"

definition is_ascii_alphabetic :: "char \<Rightarrow> bool" where
  "is_ascii_alphabetic c \<longleftrightarrow>
     65 \<le> (of_char c :: nat) \<and> (of_char c :: nat) \<le> 90 \<or>
     97 \<le> (of_char c :: nat) \<and> (of_char c :: nat) \<le> 122"

definition is_ascii_alphanumeric :: "char \<Rightarrow> bool" where
  "is_ascii_alphanumeric c \<longleftrightarrow> is_ascii_digit c \<or> is_ascii_alphabetic c"

text \<open>Names derived from user input keep letters, digits and \<^verbatim>\<open>_ . -\<close>; every other
  character becomes an underscore.\<close>

definition name_char_ok :: "char \<Rightarrow> bool" where
  "name_char_ok c \<longleftrightarrow>
     is_ascii_alphanumeric c \<or> c = CHR ''_'' \<or> c = CHR ''.'' \<or> c = CHR ''-''"

definition sanitize_name :: "string \<Rightarrow> string" where
  "sanitize_name s = map (\<lambda>c. if name_char_ok c then c else CHR ''_'') (str_chars s)"

lemma sanitize_name_ok: "c \<in> set (sanitize_name s) \<Longrightarrow> name_char_ok c"
  by (auto simp: sanitize_name_def name_char_ok_def)

lemma name_char_ok_ascii: "name_char_ok c \<Longrightarrow> (of_char c :: nat) < 128"
  by (auto simp: name_char_ok_def is_ascii_alphanumeric_def is_ascii_digit_def is_ascii_alphabetic_def)

lemma sanitize_name_id: "(\<And>c. c \<in> set s \<Longrightarrow> name_char_ok c) \<Longrightarrow> sanitize_name s = s"
proof -
  assume ok: "\<And>c. c \<in> set s \<Longrightarrow> name_char_ok c"
  have "str_chars s = s"
    using ok name_char_ok_ascii unfolding str_chars_def is_utf8_continuation_def
    by (intro filter_True ballI) fastforce
  then show ?thesis using ok by (simp add: sanitize_name_def map_idI)
qed

lemma sanitize_name_idem: "sanitize_name (sanitize_name s) = sanitize_name s"
  using sanitize_name_ok by (rule sanitize_name_id)

definition trim_end_matches :: "char \<Rightarrow> string \<Rightarrow> string" where
  "trim_end_matches c s = rev (dropWhile (\<lambda>x. x = c) (rev s))"

lemma trim_end_matches_end: "trim_end_matches c s \<noteq> [] \<Longrightarrow> last (trim_end_matches c s) \<noteq> c"
proof -
  assume "trim_end_matches c s \<noteq> []"
  then have "dropWhile (\<lambda>x. x = c) (rev s) \<noteq> []" by (simp add: trim_end_matches_def)
  from hd_dropWhile [OF this] show ?thesis
    by (simp add: trim_end_matches_def last_rev)
qed

lemma trim_end_matches_prefix: "\<exists>k. s = trim_end_matches c s @ replicate k c"
proof -
  let ?t = "takeWhile (\<lambda>x. x = c) (rev s)"
  have t: "replicate (length ?t) c = ?t"
    by (rule replicate_length_same) (auto dest: set_takeWhileD)
  have "s = rev (?t @ dropWhile (\<lambda>x. x = c) (rev s))" by simp
  also have "\<dots> = trim_end_matches c s @ rev ?t" by (simp only: rev_append trim_end_matches_def)
  also have "rev ?t = replicate (length ?t) c" using t by (metis rev_replicate)
  finally show ?thesis by blast
qed

text \<open>Decimal rendering of a natural number, as \<^verbatim>\<open>format!\<close> prints it.\<close>

fun dec :: "nat \<Rightarrow> string" where
  "dec n = (if n < 10 then [char_of (48 + n)] else dec (n div 10) @ [char_of (48 + n mod 10)])"

declare dec.simps [simp del]

definition dec_int :: "int \<Rightarrow> string" where
  "dec_int i = (if i < 0 then CHR ''-'' # dec (nat (- i)) else dec (nat i))"

lemma dec_0: "dec 0 = ''0''"
  by code_simp

definition undec :: "string \<Rightarrow> nat" where
  "undec s = foldl (\<lambda>a c. 10 * a + (of_char c - 48)) 0 s"

lemma undec_dec: "undec (dec n) = n"
proof (induction n rule: dec.induct)
  case (1 n)
  have digit: "of_char (char_of (48 + d) :: char) = (48 + d :: nat)" if "d < 10" for d :: nat
    using that by simp
  show ?case
  proof (cases "n < 10")
    case True
    then show ?thesis using digit [of n] by (subst dec.simps) (simp add: undec_def)
  next
    case False
    then show ?thesis
      using 1 digit [of "n mod 10"] by (subst dec.simps) (simp add: undec_def)
  qed
qed

lemma dec_inject [simp]: "dec m = dec n \<longleftrightarrow> m = n"
  by (metis undec_dec)

end
