(* ===== verification/Values.thy ===== *)
theory Values
  imports Prelude
begin

text \<open>
  MessagePack values as \<^verbatim>\<open>rmpv::Value\<close> presents them to the code, with the accessors
  the sources use, and the map helpers that the gateway (\<^verbatim>\<open>agent_conn.rs\<close>), the agent
  (\<^verbatim>\<open>dispatch.rs\<close>) and the transport crate (\<^verbatim>\<open>lib.rs\<close>) each define
  for themselves: they are the same function.  Integers are those of MessagePack, from
  \<open>-2^63\<close> to \<open>2^64 - 1\<close>; floats are kept as their bit patterns because the code
  never computes with them; strings are valid UTF-8.
\<close>

type_synonym byte = "8 word"

datatype "value" =
    VNil
  | VBoolean bool
  | VInteger int
  | VF32 "32 word"
  | VF64 "64 word"
  | VString string
  | VBinary "byte list"
  | VArray "value list"
  | VMap "(value \<times> value) list"
  | VExt int "byte list"

definition as_str :: "value \<Rightarrow> string option" where
  "as_str v = (case v of VString s \<Rightarrow> Some s | _ \<Rightarrow> None)"

definition as_u64 :: "value \<Rightarrow> nat option" where
  "as_u64 v = (case v of VInteger i \<Rightarrow> if 0 \<le> i \<and> i < 2 ^ 64 then Some (nat i) else None | _ \<Rightarrow> None)"

definition as_i64 :: "value \<Rightarrow> int option" where
  "as_i64 v =
     (case v of VInteger i \<Rightarrow> if - (2 ^ 63) \<le> i \<and> i < 2 ^ 63 then Some i else None | _ \<Rightarrow> None)"

definition as_map :: "value \<Rightarrow> (value \<times> value) list option" where
  "as_map v = (case v of VMap m \<Rightarrow> Some m | _ \<Rightarrow> None)"

definition map_get :: "value \<Rightarrow> string \<Rightarrow> value option" where
  "map_get v key =
     (case as_map v of
        None \<Rightarrow> None
      | Some m \<Rightarrow> map_option snd (find (\<lambda>(k, _). as_str k = Some key) m))"

definition map_str :: "value \<Rightarrow> string \<Rightarrow> string option" where
  "map_str v key =
     (case as_map v of
        None \<Rightarrow> None
      | Some m \<Rightarrow>
          (case find (\<lambda>(k, _). as_str k = Some key) m of
             None \<Rightarrow> None
           | Some kv \<Rightarrow> as_str (snd kv)))"

definition mp_map :: "(string \<times> value) list \<Rightarrow> value" where
  "mp_map pairs = VMap (map (\<lambda>(k, v). (VString k, v)) pairs)"

lemma byte_less: "unat (b :: byte) < 256"
  using unsigned_less [of b] by simp

lemma as_str_VString [simp]: "as_str (VString s) = Some s"
  by (simp add: as_str_def)

lemma as_str_eq_Some [simp]: "as_str v = Some s \<longleftrightarrow> v = VString s"
  by (cases v) (auto simp: as_str_def)

lemma as_u64_VInteger: "n < 2 ^ 64 \<Longrightarrow> as_u64 (VInteger (int n)) = Some n"
proof -
  assume "n < 2 ^ 64"
  then have "int n < int (2 ^ 64)" by (simp only: of_nat_less_iff)
  then show ?thesis by (simp add: as_u64_def)
qed

lemma map_get_mp_map [simp]: "map_get (mp_map kvs) key = map_of kvs key"
  by (induction kvs) (auto simp: map_get_def mp_map_def as_map_def)

lemma map_str_mp_map [simp]:
  "map_str (mp_map kvs) key = (case map_of kvs key of None \<Rightarrow> None | Some v \<Rightarrow> as_str v)"
  by (induction kvs) (auto simp: map_str_def mp_map_def as_map_def)

lemma map_str_map_get:
  "map_str v key = (case map_get v key of None \<Rightarrow> None | Some x \<Rightarrow> as_str x)"
  by (auto simp: map_str_def map_get_def split: option.splits)

end
