(* ===== verification/Gateway_Protocol.thy ===== *)
theory Gateway_Protocol
  imports Values
begin

text \<open>
  The frontend-facing protocol of the gateway: \<^verbatim>\<open>nexal-gateway/src/protocol.rs\<close>
  (envelope, error codes, parameter and response structures) and the gateway half of the method
  table, \<^verbatim>\<open>utils/transport/src/gateway/methods.rs\<close>.  Error codes and the other signed
  integers are HOL integers; \<^verbatim>\<open>u16\<close> ports are natural numbers.
\<close>

section \<open>Envelope\<close>

record JsonRpcRequest =
  rq_id :: "value option"
  rq_method :: string
  rq_params :: "value option"

record JsonRpcError =
  je_code :: int
  je_message :: string
  je_data :: "value option"

record JsonRpcResponse =
  rs_id :: "value"
  rs_result :: "value option"
  rs_error :: "JsonRpcError option"

definition response_ok :: "value \<Rightarrow> value \<Rightarrow> JsonRpcResponse" where
  "response_ok i result = \<lparr>rs_id = i, rs_result = Some result, rs_error = None\<rparr>"

definition response_err :: "value \<Rightarrow> int \<Rightarrow> string \<Rightarrow> JsonRpcResponse" where
  "response_err i code message =
     \<lparr>rs_id = i, rs_result = None,
      rs_error = Some \<lparr>je_code = code, je_message = message, je_data = None\<rparr>\<rparr>"

definition notification :: "string \<Rightarrow> value \<Rightarrow> JsonRpcRequest" where
  "notification method params = \<lparr>rq_id = None, rq_method = method, rq_params = Some params\<rparr>"

definition NOTIFY_AGENT :: string where "NOTIFY_AGENT = ''agent/notify''"

section \<open>Error codes\<close>

definition PARSE_ERROR :: int where "PARSE_ERROR = - 32700"
definition INVALID_REQUEST :: int where "INVALID_REQUEST = - 32600"
definition METHOD_NOT_FOUND :: int where "METHOD_NOT_FOUND = - 32601"
definition INVALID_PARAMS :: int where "INVALID_PARAMS = - 32602"
definition INTERNAL_ERROR :: int where "INTERNAL_ERROR = - 32603"
definition NOT_AUTHENTICATED :: int where "NOT_AUTHENTICATED = - 32000"
definition AUTH_REJECTED :: int where "AUTH_REJECTED = - 32001"
definition UNKNOWN_AGENT :: int where "UNKNOWN_AGENT = - 32010"
definition BACKEND_ERROR :: int where "BACKEND_ERROR = - 32020"

lemmas error_codes =
  PARSE_ERROR_def INVALID_REQUEST_def METHOD_NOT_FOUND_def INVALID_PARAMS_def INTERNAL_ERROR_def
  NOT_AUTHENTICATED_def AUTH_REJECTED_def UNKNOWN_AGENT_def BACKEND_ERROR_def

section \<open>Methods\<close>

datatype GatewayMethod =
    Hello | SpawnAgent | KillAgent | DetachAgent | AttachAgent | ListAgents | AgentInvoke
  | RegisterProxy | UnregisterProxy | RegisterStreamProxy | UnregisterStreamProxy

definition gateway_as_str :: "GatewayMethod \<Rightarrow> string" where
  "gateway_as_str m =
     (case m of
        Hello \<Rightarrow> ''gateway/hello''
      | SpawnAgent \<Rightarrow> ''gateway/spawn_agent''
      | KillAgent \<Rightarrow> ''gateway/kill_agent''
      | DetachAgent \<Rightarrow> ''gateway/detach_agent''
      | AttachAgent \<Rightarrow> ''gateway/attach_agent''
      | ListAgents \<Rightarrow> ''gateway/list_agents''
      | AgentInvoke \<Rightarrow> ''agent/invoke''
      | RegisterProxy \<Rightarrow> ''gateway/register_proxy''
      | UnregisterProxy \<Rightarrow> ''gateway/unregister_proxy''
      | RegisterStreamProxy \<Rightarrow> ''gateway/register_stream_proxy''
      | UnregisterStreamProxy \<Rightarrow> ''gateway/unregister_stream_proxy'')"

definition gateway_parse :: "string \<Rightarrow> GatewayMethod option" where
  "gateway_parse s =
     (if s = ''gateway/hello'' then Some Hello
      else if s = ''gateway/spawn_agent'' then Some SpawnAgent
      else if s = ''gateway/kill_agent'' then Some KillAgent
      else if s = ''gateway/detach_agent'' then Some DetachAgent
      else if s = ''gateway/attach_agent'' then Some AttachAgent
      else if s = ''gateway/list_agents'' then Some ListAgents
      else if s = ''agent/invoke'' then Some AgentInvoke
      else if s = ''gateway/register_proxy'' then Some RegisterProxy
      else if s = ''gateway/unregister_proxy'' then Some UnregisterProxy
      else if s = ''gateway/register_stream_proxy'' then Some RegisterStreamProxy
      else if s = ''gateway/unregister_stream_proxy'' then Some UnregisterStreamProxy
      else None)"

lemma gateway_parse_as_str [simp]: "gateway_parse (gateway_as_str m) = Some m"
  by (cases m) (simp_all add: gateway_parse_def gateway_as_str_def)

lemma gateway_parse_Some: "gateway_parse s = Some m \<Longrightarrow> s = gateway_as_str m"
  by (auto simp: gateway_parse_def gateway_as_str_def split: if_splits)

section \<open>Parameters and responses\<close>

record HelloParams =
  hp_access_key :: string
  hp_client_name :: string
  hp_ts :: int
  hp_nonce :: string
  hp_signature :: string

record SpawnAgentParams =
  sp_name :: string
  sp_image :: "string option"
  sp_env :: "(string, string) hashmap"
  sp_labels :: "(string, string) hashmap"
  sp_workspace :: "string option"
  sp_extra_ports :: "nat list"

record AgentSummary =
  as_agent_id :: string
  as_container_name :: string
  as_created_at_unix_ms :: nat

record AgentInvokeParams =
  ai_agent_id :: string
  ai_method :: string
  ai_params :: "value option"

record AgentNotifyParams =
  an_agent_id :: string
  an_method :: string
  an_params :: "value option"

record RegisterProxyParams =
  px_agent_id :: string
  px_name :: string
  px_upstream_url :: string
  px_headers :: "(string, string) hashmap"

record UnregisterProxyParams =
  ux_agent_id :: string
  ux_name :: string

record RegisterStreamProxyParams =
  rsp_agent_id :: string
  rsp_name :: string
  rsp_container_port :: nat

text \<open>The results of the methods, before they are encoded.\<close>

datatype gateway_result =
    RHello bool string
  | RAgent string string
  | ROk bool
  | RAgents "AgentSummary list"
  | RProxy string string
  | RStreamProxy string

end
