(* ===== verification/Hello.thy ===== *)
theory Hello
  imports Gateway_Protocol
begin

text \<open>
  Authentication of a frontend session: \<^verbatim>\<open>hex_decode\<close> and
  \<^verbatim>\<open>verify_hello\<close> of \<^verbatim>\<open>nexal-gateway/src/server/session.rs\<close>.  The
  HMAC-SHA256 verification belongs to the \<^verbatim>\<open>ring\<close> crate and is an argument (secret,
  message, signature); the clock is an argument.  Time stamps are \<^verbatim>\<open>i64\<close> with the
  wrap-around of a release build.  Slicing a string off a character boundary panics.
\<close>

section \<open>Definitions\<close>

definition HELLO_MAX_SKEW_SECS :: int where
  "HELLO_MAX_SKEW_SECS = 300"

definition hex_digit :: "char \<Rightarrow> nat option" where
  "hex_digit c =
     (let n = (of_char c :: nat) in
      if 48 \<le> n \<and> n \<le> 57 then Some (n - 48)
      else if 65 \<le> n \<and> n \<le> 70 then Some (n - 55)
      else if 97 \<le> n \<and> n \<le> 102 then Some (n - 87)
      else None)"

text \<open>\<^verbatim>\<open>u8::from_str_radix(s, 16)\<close> on two characters: a leading plus sign is
  accepted.\<close>

definition from_str_radix16 :: "char \<Rightarrow> char \<Rightarrow> byte option" where
  "from_str_radix16 a b =
     (if a = CHR ''+'' then map_option of_nat (hex_digit b)
      else
        (case (hex_digit a, hex_digit b) of
           (Some x, Some y) \<Rightarrow> Some (of_nat (16 * x + y))
         | _ \<Rightarrow> None))"

fun hex_decode_pairs :: "string \<Rightarrow> byte list option run" where
  "hex_decode_pairs [] = Returns (Some [])"
| "hex_decode_pairs [a] = Returns None"
| "hex_decode_pairs (a # b # rest) =
     (if is_utf8_continuation a \<or> (rest \<noteq> [] \<and> is_utf8_continuation (hd rest)) then Panics
      else
        (case from_str_radix16 a b of
           None \<Rightarrow> Returns None
         | Some v \<Rightarrow>
             (case hex_decode_pairs rest of
                Panics \<Rightarrow> Panics
              | Returns None \<Rightarrow> Returns None
              | Returns (Some vs) \<Rightarrow> Returns (Some (v # vs)))))"

definition hex_decode :: "string \<Rightarrow> byte list option run" where
  "hex_decode s = (if length s mod 2 \<noteq> 0 then Returns None else hex_decode_pairs s)"

definition reject :: "string \<Rightarrow> JsonRpcError" where
  "reject msg = \<lparr>je_code = AUTH_REJECTED, je_message = msg, je_data = None\<rparr>"

definition ts_stale :: "int \<Rightarrow> int \<Rightarrow> bool" where
  "ts_stale now ts \<longleftrightarrow> i64_abs (i64_sub now ts) > HELLO_MAX_SKEW_SECS"

definition canonical :: "HelloParams \<Rightarrow> string" where
  "canonical p =
     hp_access_key p @ [CHR 0x0A] @ dec_int (hp_ts p) @ [CHR 0x0A] @ hp_nonce p @ [CHR 0x0A] @ hp_client_name p"

type_synonym nonce_cache = "(string, int) hashmap"

definition prune_nonces :: "int \<Rightarrow> nonce_cache \<Rightarrow> nonce_cache" where
  "prune_nonces now cache = hm_retain (\<lambda>_ seen. i64_sub now seen \<le> HELLO_MAX_SKEW_SECS * 2) cache"

definition verify_hello ::
  "(string \<Rightarrow> string \<Rightarrow> byte list \<Rightarrow> bool) \<Rightarrow> (string, string) hashmap \<Rightarrow> int \<Rightarrow> HelloParams \<Rightarrow>
     nonce_cache \<Rightarrow> (nonce_cache \<times> (JsonRpcError, unit) result) run" where
  "verify_hello hmac_verify credentials now p cache =
     (case hm_get credentials (hp_access_key p) of
        None \<Rightarrow> Returns (cache, Err (reject ''unknown access key''))
      | Some secret \<Rightarrow>
          if ts_stale now (hp_ts p)
          then Returns (cache, Err (reject ''stale request (ts outside allowed window)''))
          else
            let cache = prune_nonces now cache
            in case hm_get cache (hp_nonce p) of
                 Some _ \<Rightarrow> Returns (cache, Err (reject ''replayed nonce''))
               | None \<Rightarrow>
                   let cache = hm_insert (hp_nonce p) now cache
                   in (case hex_decode (hp_signature p) of
                         Panics \<Rightarrow> Panics
                       | Returns None \<Rightarrow> Returns (cache, Err (reject ''malformed signature''))
                       | Returns (Some sig) \<Rightarrow>
                           if hmac_verify secret (canonical p) sig then Returns (cache, Ok ())
                           else Returns (cache, Err (reject ''signature mismatch''))))"

section \<open>Hex decoding\<close>

definition hex_char :: "nat \<Rightarrow> char" where
  "hex_char n = char_of (if n < 10 then 48 + n else 87 + n)"

definition hex_encode :: "byte list \<Rightarrow> string" where
  "hex_encode bs = concat (map (\<lambda>b. [hex_char (unat b div 16), hex_char (unat b mod 16)]) bs)"

lemma hex_digit_char [simp]: "n < 16 \<Longrightarrow> hex_digit (hex_char n) = Some n"
  by (auto simp: hex_digit_def hex_char_def Let_def)

lemma hex_char_ascii: "n < 16 \<Longrightarrow> \<not> is_utf8_continuation (hex_char n) \<and> hex_char n \<noteq> CHR ''+''"
proof -
  assume "n < 16"
  then have "of_char (hex_char n) < (128 :: nat)" "of_char (hex_char n) \<ge> (48 :: nat)"
    by (auto simp: hex_char_def)
  then show ?thesis by (auto simp: is_utf8_continuation_def)
qed

lemma from_str_radix16_byte:
  "from_str_radix16 (hex_char (unat b div 16)) (hex_char (unat b mod 16)) = Some (b :: byte)"
proof -
  have "unat b < 256" by (rule byte_less)
  then have "unat b div 16 < 16" "unat b mod 16 < 16" by auto
  then show ?thesis using hex_char_ascii [of "unat b div 16"] by (simp add: from_str_radix16_def)
qed

lemma hex_decode_pairs_encode: "hex_decode_pairs (hex_encode bs) = Returns (Some bs)"
proof (induction bs)
  case (Cons b bs)
  have n: "unat b div 16 < 16" "unat b mod 16 < 16" using byte_less [of b] by auto
  have hd: "hex_encode bs \<noteq> [] \<longrightarrow> \<not> is_utf8_continuation (hd (hex_encode bs))"
  proof (cases bs)
    case (Cons b' bs')
    have "unat b' div 16 < 16" using byte_less [of b'] by auto
    then show ?thesis using Cons hex_char_ascii by (simp add: hex_encode_def)
  qed (simp add: hex_encode_def)
  have "hex_encode (b # bs) = hex_char (unat b div 16) # hex_char (unat b mod 16) # hex_encode bs"
    by (simp add: hex_encode_def)
  then show ?case
    using Cons.IH hex_char_ascii [OF n(1)] hd by (auto simp: from_str_radix16_byte)
qed (simp add: hex_encode_def)

lemma length_hex_encode: "length (hex_encode bs) = 2 * length bs"
  by (induction bs) (simp_all add: hex_encode_def)

section \<open>Replay protection\<close>

lemma ts_window:
  assumes "0 \<le> n1" "n1 \<le> n2" "n2 < 2 ^ 62" "is_i64 ts" "\<not> ts_stale n1 ts" "\<not> ts_stale n2 ts"
  shows "n2 - n1 \<le> 600"
proof (cases "n1 - ts < 2 ^ 63 \<and> n2 - ts < 2 ^ 63")
  case True
  then have "i64_sub n1 ts = n1 - ts" "i64_sub n2 ts = n2 - ts"
    using assms(1-4) by (auto simp: i64_sub_def is_i64_def intro!: wrap64_id)
  moreover have "i64_abs (n1 - ts) = abs (n1 - ts)" "i64_abs (n2 - ts) = abs (n2 - ts)"
    using assms(1-4) True by (auto simp: i64_abs_def is_i64_def intro!: wrap64_id)
  ultimately show ?thesis
    using assms(5,6) by (auto simp: ts_stale_def HELLO_MAX_SKEW_SECS_def)
next
  case False
  then have big: "2 ^ 63 \<le> n2 - ts" "n2 - ts < 2 ^ 63 + 2 ^ 62" using assms(1-4) by (auto simp: is_i64_def)
  then have d2: "i64_sub n2 ts = n2 - ts - 2 ^ 64"
    by (simp add: i64_sub_def wrap64_over)
  have "n2 - ts = 2 ^ 63"
  proof (rule ccontr)
    assume "n2 - ts \<noteq> 2 ^ 63"
    then have "abs (n2 - ts - 2 ^ 64) < 2 ^ 63" "abs (n2 - ts - 2 ^ 64) > 300" using big by auto
    then have "ts_stale n2 ts"
      by (auto simp: ts_stale_def d2 i64_abs_def wrap64_id is_i64_def HELLO_MAX_SKEW_SECS_def)
    then show False using assms by simp
  qed
  moreover have "n1 = n2"
  proof (rule ccontr)
    assume "n1 \<noteq> n2"
    then have n: "n1 - ts < 2 ^ 63" "n1 - ts > 300" using assms \<open>n2 - ts = 2 ^ 63\<close> by auto
    then have "i64_sub n1 ts = n1 - ts" by (auto simp: i64_sub_def is_i64_def intro!: wrap64_id)
    then have "ts_stale n1 ts"
      using n by (auto simp: ts_stale_def i64_abs_def wrap64_id is_i64_def HELLO_MAX_SKEW_SECS_def)
    then show False using assms by simp
  qed
  ultimately show ?thesis by simp
qed

text \<open>A sequence of hellos against the shared nonce cache, each at its own time.  A panic ends
  the gateway.\<close>

fun run_hellos ::
  "(string \<Rightarrow> string \<Rightarrow> byte list \<Rightarrow> bool) \<Rightarrow> (string, string) hashmap \<Rightarrow> (int \<times> HelloParams) list \<Rightarrow>
     nonce_cache \<Rightarrow> bool list" where
  "run_hellos hmac creds [] cache = []"
| "run_hellos hmac creds ((now, p) # hellos) cache =
     (case verify_hello hmac creds now p cache of
        Panics \<Rightarrow> []
      | Returns (cache, r) \<Rightarrow> (r = Ok ()) # run_hellos hmac creds hellos cache)"

definition nonce_burnt :: "string \<Rightarrow> int \<Rightarrow> nonce_cache \<Rightarrow> bool" where
  "nonce_burnt nonce t cache \<longleftrightarrow> hm_wf cache \<and> hm_get cache nonce = Some t"

lemma prune_get:
  assumes "hm_wf cache" "hm_get cache k = Some t" "0 \<le> t" "t \<le> now" "now < 2 ^ 62" "now - t \<le> 600"
  shows "hm_get (prune_nonces now cache) k = Some t"
proof -
  have "i64_sub now t = now - t" using assms by (auto simp: i64_sub_def is_i64_def intro!: wrap64_id)
  then show ?thesis
    using assms by (simp add: prune_nonces_def hm_get_retain HELLO_MAX_SKEW_SECS_def)
qed

lemma verify_hello_wf:
  "\<lbrakk>verify_hello hmac creds now p cache = Returns (cache', r); hm_wf cache\<rbrakk> \<Longrightarrow> hm_wf cache'"
  by (auto simp: verify_hello_def Let_def prune_nonces_def
      split: option.splits if_splits run.splits)

lemma verify_hello_accepts:
  assumes "verify_hello hmac creds now p cache = Returns (cache', Ok ())"
  shows "\<not> ts_stale now (hp_ts p) \<and> hm_get (prune_nonces now cache) (hp_nonce p) = None \<and>
     hm_get cache' (hp_nonce p) = Some now \<and>
     (\<exists>secret sig. hm_get creds (hp_access_key p) = Some secret \<and>
        hex_decode (hp_signature p) = Returns (Some sig) \<and> hmac secret (canonical p) sig)"
  using assms by (auto simp: verify_hello_def Let_def split: option.splits if_splits run.splits)

lemma verify_hello_keeps_nonce:
  assumes "verify_hello hmac creds now p cache = Returns (cache', r)"
    and "nonce_burnt n t cache" "0 \<le> t" "t \<le> now" "now < 2 ^ 62" "now - t \<le> 600"
  shows "nonce_burnt n t cache'"
proof -
  have wf: "hm_wf cache" "hm_get cache n = Some t" using assms(2) by (auto simp: nonce_burnt_def)
  note pr = prune_get [OF wf assms(3-6)]
  have "hm_get cache' n = Some t"
    using assms(1) wf pr
    by (auto simp: verify_hello_def Let_def split: option.splits if_splits run.splits)
  then show ?thesis using verify_hello_wf [OF assms(1)] wf by (simp add: nonce_burnt_def)
qed

text \<open>Once accepted, the same nonce and time stamp are not accepted again, as long as the clock
  does not run backwards.\<close>

lemma burnt_nonce_rejected:
  assumes "nonce_burnt (hp_nonce p) t cache" "is_i64 (hp_ts p)" "\<not> ts_stale t (hp_ts p)"
    and "sorted (map fst hellos)" and "\<forall>(now, q) \<in> set hellos. 0 \<le> t \<and> t \<le> now \<and> now < 2 ^ 62"
    and "j < length (run_hellos hmac creds hellos cache)"
    and "snd (hellos ! j) = p"
  shows "\<not> run_hellos hmac creds hellos cache ! j"
  using assms
proof (induction hellos arbitrary: cache j)
  case (Cons h hellos)
  obtain now q where h: "h = (now, q)" by (cases h)
  have t: "0 \<le> t" "t \<le> now" "now < 2 ^ 62" using Cons.prems(5) h by auto
  obtain cache' r where v: "verify_hello hmac creds now q cache = Returns (cache', r)"
    using Cons.prems(6) h by (cases "verify_hello hmac creds now q cache") auto
  show ?case
  proof (cases j)
    case 0
    then have q: "q = p" using Cons.prems(7) h by simp
    have "r \<noteq> Ok ()"
    proof
      assume "r = Ok ()"
      with v have acc: "\<not> ts_stale now (hp_ts p)" "hm_get (prune_nonces now cache) (hp_nonce p) = None"
        using verify_hello_accepts [of hmac creds now q cache cache'] q by auto
      have "now - t \<le> 600" using ts_window [OF t(1,2,3) Cons.prems(2,3) acc(1)] .
      then show False
        using prune_get [of cache "hp_nonce p" t now] Cons.prems(1) t acc by (auto simp: nonce_burnt_def)
    qed
    then show ?thesis using 0 h v by simp
  next
    case (Suc k)
    have len: "k < length (run_hellos hmac creds hellos cache')" using Cons.prems(6) Suc h v by simp
    show ?thesis
    proof (cases "now - t \<le> 600")
      case True
      have "nonce_burnt (hp_nonce p) t cache'"
        by (rule verify_hello_keeps_nonce [OF v Cons.prems(1) t True])
      from Cons.IH [OF this Cons.prems(2,3) _ _ len] show ?thesis
        using Cons.prems(4,5,7) Suc h v by simp
    next
      case False
      have "run_hellos hmac creds hellos cache' ! k \<Longrightarrow> False"
      proof -
        assume acc: "run_hellos hmac creds hellos cache' ! k"
        obtain now' where now': "hellos ! k = (now', p)" using Cons.prems(7) Suc h by (cases "hellos ! k") auto
        have "length (run_hellos hmac creds hs c) \<le> length hs" for hs c
          by (induction hmac creds hs c rule: run_hellos.induct) (auto split: run.splits)
        then have k: "k < length hellos" using len by (meson less_le_trans)
        have "(now', p) \<in> set hellos" using now' k by (metis nth_mem)
        then have n': "now \<le> now'" "now' < 2 ^ 62" using Cons.prems(4,5) h by (auto simp: sorted_wrt_append)
        have "run_hellos hmac creds hs c ! i \<Longrightarrow> i < length (run_hellos hmac creds hs c) \<Longrightarrow>
            \<not> ts_stale (fst (hs ! i)) (hp_ts (snd (hs ! i)))" for hs c i
          by (induction hmac creds hs c arbitrary: i rule: run_hellos.induct)
             (auto split: run.splits simp: nth_Cons dest: verify_hello_accepts split: nat.splits)
        then have "\<not> ts_stale now' (hp_ts p)" using acc len now' by (metis fst_conv snd_conv)
        then have "now' - t \<le> 600" using ts_window [OF t(1) _ n'(2) Cons.prems(2,3)] t n' by auto
        then show False using False n' by simp
      qed
      then show ?thesis using Suc h v by auto
    qed
  qed
qed simp

lemma hex_decode_pairs_ascii:
  "\<forall>c \<in> set s. \<not> is_utf8_continuation c \<Longrightarrow> hex_decode_pairs s \<noteq> Panics"
proof (induction s rule: hex_decode_pairs.induct)
  case (3 a b rest)
  have "\<not> (rest \<noteq> [] \<and> is_utf8_continuation (hd rest))" using 3(2) by (cases rest) auto
  then show ?case
    using 3 by (cases "from_str_radix16 a b") (auto split: option.splits run.splits)
qed simp_all

section \<open>Properties\<close>

text \<open>No replay: as long as the clock does not run backwards, a hello message (same nonce,
  same time stamp) that was accepted once is never accepted again, whatever other hellos arrive in
  between and although the nonce cache forgets nonces after ten minutes.\<close>

theorem hello_not_replayable:
  assumes "hm_wf cache"
    and "sorted (map fst ((now, p) # hellos))"
    and "\<forall>(t, q) \<in> set ((now, p) # hellos). 0 \<le> t \<and> t < 2 ^ 62"
    and "is_i64 (hp_ts p)"
    and "verify_hello hmac creds now p cache = Returns (cache', Ok ())"
    and "j < length (run_hellos hmac creds hellos cache')"
    and "snd (hellos ! j) = p"
  shows "\<not> run_hellos hmac creds hellos cache' ! j"
proof (rule burnt_nonce_rejected [of p now cache' hellos])
  note acc = verify_hello_accepts [OF assms(5)]
  show "nonce_burnt (hp_nonce p) now cache'"
    using acc verify_hello_wf [OF assms(5,1)] by (simp add: nonce_burnt_def)
  show "\<not> ts_stale now (hp_ts p)" using acc by simp
  show "\<forall>(t, q) \<in> set hellos. 0 \<le> now \<and> now \<le> t \<and> t < 2 ^ 62"
    using assms(2,3) by auto
  show "sorted (map fst hellos)" using assms(2) by simp
qed (use assms in auto)

definition sample_hello :: HelloParams where
  "sample_hello = \<lparr>hp_access_key = ''k'', hp_client_name = ''c'', hp_ts = 1000, hp_nonce = ''n'',
                   hp_signature = ''0a''\<rparr>"

lemmas sample_hello_defs = sample_hello_def verify_hello_def hm_get_def hm_insert_def hm_retain_def prune_nonces_def
  ts_stale_def i64_sub_def i64_abs_def wrap64_def HELLO_MAX_SKEW_SECS_def hex_decode_def
  is_utf8_continuation_def from_str_radix16_def hex_digit_def Let_def

lemma sample_hello_accepted:
  "verify_hello (\<lambda>_ _ _. True) [(''k'', ''s'')] 1000 sample_hello [] = Returns ([(''n'', 1000)], Ok ())"
  by (simp add: sample_hello_defs)

theorem hello_not_replayable_witness:
  "\<not> run_hellos (\<lambda>_ _ _. True) [(''k'', ''s'')] [(1010, sample_hello)] [(''n'', 1000)] ! 0"
  by (rule hello_not_replayable [OF _ _ _ _ sample_hello_accepted])
     (simp_all add: is_i64_def sample_hello_defs)

text \<open>A hello is accepted exactly when the access key is known, the time stamp passes the
  skew check, the nonce was not seen within the last ten minutes and the decoded signature
  verifies for the canonical message under that key's secret; every refusal carries the code
  \<^verbatim>\<open>AUTH_REJECTED\<close>, and a refused hello never removes a nonce that is still inside
  its retention time.\<close>

theorem hello_accepted_iff:
  "((\<exists>cache'. verify_hello hmac creds now p cache = Returns (cache', Ok ())) \<longleftrightarrow>
      (\<exists>secret sig. hm_get creds (hp_access_key p) = Some secret \<and> \<not> ts_stale now (hp_ts p) \<and>
         hm_get (prune_nonces now cache) (hp_nonce p) = None \<and>
         hex_decode (hp_signature p) = Returns (Some sig) \<and> hmac secret (canonical p) sig)) \<and>
   (\<forall>cache' e. verify_hello hmac creds now p cache = Returns (cache', Inl e) \<longrightarrow>
      je_code e = AUTH_REJECTED \<and>
      (\<forall>n t. hm_get (prune_nonces now cache) n = Some t \<and> hm_wf cache \<longrightarrow> hm_get cache' n = Some t))"
proof (intro conjI allI impI)
  show "(\<exists>cache'. verify_hello hmac creds now p cache = Returns (cache', Ok ())) \<longleftrightarrow>
      (\<exists>secret sig. hm_get creds (hp_access_key p) = Some secret \<and> \<not> ts_stale now (hp_ts p) \<and>
         hm_get (prune_nonces now cache) (hp_nonce p) = None \<and>
         hex_decode (hp_signature p) = Returns (Some sig) \<and> hmac secret (canonical p) sig)"
    by (auto simp: verify_hello_def Let_def split: option.splits run.splits)
next
  fix cache' e assume v: "verify_hello hmac creds now p cache = Returns (cache', Inl e)"
  show "je_code e = AUTH_REJECTED"
    using v by (auto simp: verify_hello_def Let_def reject_def split: option.splits if_splits run.splits)
  fix n t assume nt: "hm_get (prune_nonces now cache) n = Some t \<and> hm_wf cache"
  then have "hm_get cache n = Some t"
    by (auto simp: prune_nonces_def hm_get_retain split: option.splits if_splits)
  then show "hm_get cache' n = Some t"
    using v nt by (auto simp: verify_hello_def Let_def split: option.splits if_splits run.splits)
qed

theorem hello_accepted_iff_witness:
  "\<exists>cache'. verify_hello (\<lambda>_ _ _. True) [(''k'', ''s'')] 1000 sample_hello [] = Returns (cache', Ok ())"
  unfolding hello_accepted_iff [THEN conjunct1]
  by (simp add: sample_hello_defs)

text \<open>Signature decoding inverts lower-case hex encoding, yields one byte per two
  characters, and does not panic on ASCII input.\<close>

theorem hex_decode_roundtrip:
  "hex_decode (hex_encode bs) = Returns (Some bs) \<and>
   ((\<forall>c. c \<in> set s \<longrightarrow> \<not> is_utf8_continuation c) \<longrightarrow> hex_decode s \<noteq> Panics)"
  using hex_decode_pairs_encode [of bs] length_hex_encode [of bs] hex_decode_pairs_ascii [of s]
  by (auto simp: hex_decode_def)

theorem hex_decode_roundtrip_witness:
  "hex_decode ''00ff'' \<noteq> Panics \<and> hex_decode (hex_encode [0, 255]) = Returns (Some [0, 255])"
  using hex_decode_roundtrip [of "[0, 255]" "''00ff''"] by (simp add: is_utf8_continuation_def)

section \<open>Observations\<close>

text \<open>The skew check is an \<^verbatim>\<open>i64\<close> subtraction and \<^verbatim>\<open>abs\<close>: a time stamp
  exactly \<open>2^63\<close> seconds before now wraps to the most negative value and passes.\<close>

lemma skew_check_overflow:
  assumes "0 \<le> now" "now < 2 ^ 63"
  shows "is_i64 (now - 2 ^ 63) \<and> \<not> ts_stale now (now - 2 ^ 63)"
  using assms by (simp add: is_i64_def ts_stale_def i64_sub_def i64_abs_def wrap64_def HELLO_MAX_SKEW_SECS_def)

text \<open>A signature with a multi-byte character across an even byte offset panics, before any
  signature has been checked.\<close>

lemma hello_signature_panics:
  "verify_hello hmac [(''k'', ''s'')] 1000
     (sample_hello\<lparr>hp_signature := [CHR ''a'', CHR 0xC3, CHR 0xA9, CHR ''0'']\<rparr>) [] = Panics"
  by (simp add: sample_hello_defs)

end
