(* ===== verification/Backend.thy ===== *)
theory Backend
  imports Prelude
begin

text \<open>
  The container backend interface, \<^verbatim>\<open>nexal-gateway/src/backend.rs\<close>, and the warm
  pool built on it, \<^verbatim>\<open>pool.rs\<close>.  A backend acts on the outside world, whose type is
  left open: an operation takes the world and returns the new one with its result.  The pool and
  the registry are defined for every such backend.
\<close>

section \<open>Interface\<close>

datatype BackendError = Cli string | PortDiscovery string | Io string

record ContainerSpec =
  cs_name :: string
  cs_image :: string
  cs_env :: "(string, string) hashmap"
  cs_labels :: "(string, string) hashmap"
  cs_agent_bin :: string
  cs_memory :: "string option"
  cs_cpus :: "string option"
  cs_pids_limit :: "nat option"
  cs_network :: bool
  cs_workspace_volume :: "string option"
  cs_extra_ports :: "nat list"
  cs_fuse :: bool

record ContainerHandle =
  ch_name :: string
  ch_url :: string
  ch_port_map :: "(nat, string) hashmap"

record 'w ContainerBackend =
  be_ensure :: "ContainerSpec \<Rightarrow> 'w \<Rightarrow> 'w \<times> (BackendError, ContainerHandle) result"
  be_destroy :: "string \<Rightarrow> 'w \<Rightarrow> 'w \<times> (BackendError, unit) result"
  be_exists :: "string \<Rightarrow> 'w \<Rightarrow> 'w \<times> (BackendError, bool) result"
  be_url :: "string \<Rightarrow> 'w \<Rightarrow> 'w \<times> (BackendError, string) result"

text \<open>A loop of at most \<open>n\<close> turns that returns when a turn yields a result, the shape of
  every wait of the backends.\<close>

fun poll :: "nat \<Rightarrow> ('w \<Rightarrow> 'w \<times> 'r option) \<Rightarrow> 'w \<Rightarrow> 'w \<times> 'r option" where
  "poll 0 turn w = (w, None)"
| "poll (Suc n) turn w =
     (case turn w of (w, Some r) \<Rightarrow> (w, Some r) | (w, None) \<Rightarrow> poll n turn w)"

section \<open>Warm pool\<close>

record WarmPool =
  wp_image :: string
  wp_agent_bin :: string
  wp_memory :: "string option"
  wp_cpus :: "string option"
  wp_pids_limit :: "nat option"
  wp_network :: bool
  wp_name_prefix :: string
  wp_target_size :: nat
  wp_counter :: nat
  wp_available :: "ContainerHandle list"

definition pool_new ::
  "nat \<Rightarrow> string \<Rightarrow> string \<Rightarrow> string \<Rightarrow> string option \<Rightarrow> string option \<Rightarrow> nat option \<Rightarrow> bool \<Rightarrow> WarmPool" where
  "pool_new pool_size img name_prefix agent_bin memory cpus pids_limit network =
     \<lparr>wp_image = img, wp_agent_bin = agent_bin, wp_memory = memory, wp_cpus = cpus,
      wp_pids_limit = pids_limit, wp_network = network, wp_name_prefix = name_prefix,
      wp_target_size = pool_size, wp_counter = 0, wp_available = []\<rparr>"

definition pool_take :: "WarmPool \<Rightarrow> WarmPool \<times> ContainerHandle option" where
  "pool_take pool =
     (case wp_available pool of
        [] \<Rightarrow> (pool, None)
      | hs \<Rightarrow> (pool\<lparr>wp_available := butlast hs\<rparr>, Some (last hs)))"

definition pool_spec :: "nat \<Rightarrow> WarmPool \<Rightarrow> ContainerSpec" where
  "pool_spec seq pool =
     \<lparr>cs_name = wp_name_prefix pool @ ''pool-'' @ dec seq, cs_image = wp_image pool, cs_env = [],
      cs_labels = [(''nexal.pool'', ''warm'')], cs_agent_bin = wp_agent_bin pool,
      cs_memory = wp_memory pool, cs_cpus = wp_cpus pool, cs_pids_limit = wp_pids_limit pool,
      cs_network = wp_network pool, cs_workspace_volume = None, cs_extra_ports = [], cs_fuse = True\<rparr>"

definition pool_create_one :: "'w ContainerBackend \<Rightarrow> WarmPool \<Rightarrow> 'w \<Rightarrow> WarmPool \<times> 'w \<times> bool" where
  "pool_create_one be pool w =
     (let seq = wp_counter pool;
          pool = pool\<lparr>wp_counter := seq + 1\<rparr>
      in case be_ensure be (pool_spec seq pool) w of
           (w, Inr handle) \<Rightarrow> (pool\<lparr>wp_available := wp_available pool @ [handle]\<rparr>, w, True)
         | (w, Inl e) \<Rightarrow> (pool, w, False))"

text \<open>\<^verbatim>\<open>replenish\<close> loops until the pool is full, for ever if creation keeps failing;
  the first argument bounds the iterations, and the flag says whether the loop ended.\<close>

fun pool_replenish :: "nat \<Rightarrow> 'w ContainerBackend \<Rightarrow> WarmPool \<Rightarrow> 'w \<Rightarrow> WarmPool \<times> 'w \<times> bool" where
  "pool_replenish 0 be pool w = (pool, w, length (wp_available pool) \<ge> wp_target_size pool)"
| "pool_replenish (Suc fuel) be pool w =
     (if length (wp_available pool) \<ge> wp_target_size pool then (pool, w, True)
      else case pool_create_one be pool w of
             (pool, w, _) \<Rightarrow> pool_replenish fuel be pool w)"

fun destroy_all :: "'w ContainerBackend \<Rightarrow> ContainerHandle list \<Rightarrow> 'w \<Rightarrow> 'w" where
  "destroy_all be [] w = w"
| "destroy_all be (h # hs) w = destroy_all be hs (fst (be_destroy be (ch_name h) w))"

definition pool_drain :: "'w ContainerBackend \<Rightarrow> WarmPool \<Rightarrow> 'w \<Rightarrow> WarmPool \<times> 'w" where
  "pool_drain be pool w = (pool\<lparr>wp_available := []\<rparr>, destroy_all be (wp_available pool) w)"

section \<open>Lemmas\<close>

text \<open>What every turn of a loop keeps, the loop keeps; a result of the loop is a result of a turn.\<close>

lemma poll_keeps: "(\<And>w. P w \<Longrightarrow> P (fst (turn w))) \<Longrightarrow> P w \<Longrightarrow> P (fst (poll n turn w))"
proof (induction n arbitrary: w)
  case (Suc n)
  obtain w1 r where t: "turn w = (w1, r)" by force
  then have "P w1" using Suc.prems by (metis fst_conv)
  then show ?case using Suc.IH Suc.prems(1) t by (cases r) auto
qed simp

lemma poll_result: "poll n turn w = (w', Some r) \<Longrightarrow> \<exists>w. turn w = (w', Some r)"
  by (induction n arbitrary: w) (auto split: prod.splits option.splits)

definition pool_name :: "WarmPool \<Rightarrow> nat \<Rightarrow> string" where
  "pool_name pool k = wp_name_prefix pool @ ''pool-'' @ dec k"

lemma pool_name_inj: "pool_name pool j = pool_name pool k \<longleftrightarrow> j = k"
  by (simp add: pool_name_def)

lemma pool_take_Nil: "wp_available pool = [] \<Longrightarrow> pool_take pool = (pool, None)"
  by (simp add: pool_take_def)

lemma pool_take_snoc:
  "wp_available pool = hs @ [h] \<Longrightarrow> pool_take pool = (pool\<lparr>wp_available := hs\<rparr>, Some h)"
  by (cases hs) (auto simp: pool_take_def)

lemma pool_create_one_size:
  "pool_create_one be pool w = (pool', w', ok) \<Longrightarrow>
     wp_target_size pool' = wp_target_size pool \<and>
     length (wp_available pool') = length (wp_available pool) + (if ok then 1 else 0)"
  by (auto simp: pool_create_one_def Let_def split: prod.splits sum.splits)

lemma pool_replenish_size:
  "pool_replenish fuel be pool w = (pool', w', finished) \<Longrightarrow>
     wp_target_size pool' = wp_target_size pool \<and>
     length (wp_available pool') \<le> max (length (wp_available pool)) (wp_target_size pool) \<and>
     (finished \<longrightarrow>
        length (wp_available pool') = max (length (wp_available pool)) (wp_target_size pool))"
proof (induction fuel be pool w rule: pool_replenish.induct)
  case (2 fuel be pool w)
  show ?case
  proof (cases "length (wp_available pool) \<ge> wp_target_size pool")
    case True
    then show ?thesis using 2 by auto
  next
    case False
    obtain pool1 w1 ok where c: "pool_create_one be pool w = (pool1, w1, ok)" by (cases "pool_create_one be pool w") auto
    have r: "pool_replenish fuel be pool1 w1 = (pool', w', finished)"
      using 2(2) False c by simp
    from 2(1) [OF False c [symmetric] refl r] pool_create_one_size [OF c] False
    show ?thesis by (auto split: if_splits)
  qed
qed auto

lemma pool_replenish_finishes:
  assumes ok: "\<And>spec w. \<exists>w' h. be_ensure be spec w = (w', Inr h)"
  shows "wp_target_size pool - length (wp_available pool) \<le> fuel \<Longrightarrow>
     snd (snd (pool_replenish fuel be pool w))"
proof (induction fuel arbitrary: pool w)
  case (Suc fuel)
  show ?case
  proof (cases "length (wp_available pool) \<ge> wp_target_size pool")
    case False
    obtain pool1 w1 b where c: "pool_create_one be pool w = (pool1, w1, b)" by (cases "pool_create_one be pool w") auto
    have b using c ok by (auto simp: pool_create_one_def Let_def split: prod.splits sum.splits) (metis Inl_Inr_False prod.inject)
    then have "wp_target_size pool1 - length (wp_available pool1) \<le> fuel"
      using pool_create_one_size [OF c] Suc.prems by simp
    then show ?thesis using Suc.IH False c by simp
  qed simp
qed simp

section \<open>The contract of a backend\<close>

text \<open>Histories of a pool: containers are created and taken in any order; the names handed out are
  recorded.\<close>

datatype pool_op = PoolCreate | PoolTake

fun pool_history :: "'w ContainerBackend \<Rightarrow> pool_op list \<Rightarrow> WarmPool \<Rightarrow> 'w \<Rightarrow> string list \<Rightarrow> WarmPool \<times> 'w \<times> string list" where
  "pool_history be [] pool w taken = (pool, w, taken)"
| "pool_history be (PoolCreate # ops) pool w taken =
     (case pool_create_one be pool w of (pool, w, _) \<Rightarrow> pool_history be ops pool w taken)"
| "pool_history be (PoolTake # ops) pool w taken =
     (case pool_take pool of
        (pool, None) \<Rightarrow> pool_history be ops pool w taken
      | (pool, Some h) \<Rightarrow> pool_history be ops pool w (ch_name h # taken))"

text \<open>The names that a pool has handed out or holds after a history.\<close>

definition pool_names :: "'w ContainerBackend \<Rightarrow> pool_op list \<Rightarrow> WarmPool \<Rightarrow> 'w \<Rightarrow> string list" where
  "pool_names be ops pool w =
     (case pool_history be ops pool w [] of (pool', w', taken) \<Rightarrow> taken @ map ch_name (wp_available pool'))"

text \<open>The names handed out and the names of idle containers are those of the creations so far, each once.\<close>

definition owned :: "(string \<Rightarrow> string) \<Rightarrow> WarmPool \<Rightarrow> string list \<Rightarrow> bool" where
  "owned named pool taken \<longleftrightarrow> distinct (taken @ map ch_name (wp_available pool)) \<and>
     (\<forall>n \<in> set (taken @ map ch_name (wp_available pool)). \<exists>k < wp_counter pool. n = named (pool_name pool k))"

text \<open>What a backend promises its clients: the container it returns for a specification has a name
  that the requested name determines, and different names stay different.\<close>

locale container_backend =
  fixes be :: "'w ContainerBackend" and named :: "string \<Rightarrow> string"
  assumes ensure_names: "be_ensure be spec w = (w', Inr h) \<Longrightarrow> ch_name h = named (cs_name spec)"
    and named_inj: "inj named"
begin

lemma owned_create:
  assumes "owned named pool taken"
  shows "owned named (fst (pool_create_one be pool w)) taken"
proof (cases "be_ensure be (pool_spec (wp_counter pool) (pool\<lparr>wp_counter := wp_counter pool + 1\<rparr>)) w")
  case (Pair w' r)
  let ?n = "named (pool_name pool (wp_counter pool))"
  have new: "?n \<notin> set (taken @ map ch_name (wp_available pool))"
  proof
    assume "?n \<in> set (taken @ map ch_name (wp_available pool))"
    then obtain k where k: "k < wp_counter pool" "?n = named (pool_name pool k)"
      using assms unfolding owned_def by blast
    then show False using injD [OF named_inj k(2)] pool_name_inj by simp
  qed
  have mono: "\<exists>k < Suc (wp_counter pool). n = named (pool_name pool k)"
    if "n \<in> set (taken @ map ch_name (wp_available pool)) \<or> n = ?n" for n
    using that assms unfolding owned_def by (metis less_Suc_eq)
  show ?thesis
  proof (cases r)
    case (Inl e)
    then show ?thesis using Pair assms mono by (auto simp: pool_create_one_def Let_def owned_def pool_name_def)
  next
    case (Inr h)
    have "ch_name h = ?n" using ensure_names Pair Inr by (auto simp: pool_spec_def pool_name_def)
    then show ?thesis using Pair Inr assms new mono
      by (auto simp: pool_create_one_def Let_def owned_def pool_name_def)
  qed
qed

lemma owned_take: "owned named pool taken \<Longrightarrow> pool_take pool = (pool', Some h) \<Longrightarrow> owned named pool' (ch_name h # taken)"
proof (cases "wp_available pool" rule: rev_cases)
  case (snoc hs x)
  assume "owned named pool taken" "pool_take pool = (pool', Some h)"
  then show ?thesis using snoc by (auto simp: pool_take_snoc owned_def pool_name_def)
qed (simp add: pool_take_Nil)

lemma pool_history_owned:
  "owned named pool taken \<Longrightarrow> pool_history be ops pool w taken = (pool', w', taken') \<Longrightarrow> owned named pool' taken'"
proof (induction ops arbitrary: pool w taken)
  case (Cons op ops)
  show ?case
  proof (cases op)
    case PoolCreate
    obtain pool1 w1 ok where c: "pool_create_one be pool w = (pool1, w1, ok)" by (cases "pool_create_one be pool w") auto
    then have "owned named pool1 taken" using owned_create [OF Cons.prems(1), of w] by simp
    then show ?thesis using Cons.IH Cons.prems(2) PoolCreate c by simp
  next
    case PoolTake
    obtain pool1 r where t: "pool_take pool = (pool1, r)" by force
    show ?thesis
    proof (cases r)
      case None
      then have "pool1 = pool" using t by (auto simp: pool_take_def split: list.splits)
      then show ?thesis using Cons PoolTake t None by simp
    next
      case (Some h)
      then show ?thesis using Cons.IH [OF owned_take [OF Cons.prems(1)]] Cons.prems(2) PoolTake t by simp
    qed
  qed
qed simp

text \<open>No container is handed out twice, whatever is created and taken in whatever order.\<close>

lemma pool_names_distinct: "distinct (pool_names be ops (pool_new n img pre bin mem cpus pids net) w)"
proof (cases "pool_history be ops (pool_new n img pre bin mem cpus pids net) w []")
  case (fields pool' w' taken)
  have "owned named (pool_new n img pre bin mem cpus pids net) []" by (simp add: owned_def pool_new_def)
  from pool_history_owned [OF this fields] show ?thesis by (simp add: owned_def pool_names_def fields)
qed

end

section \<open>Properties\<close>

text \<open>Replenishing the warm pool never overfills it, leaves it exactly full when it ends,
  and ends after at most as many creations as containers are missing when the backend succeeds.\<close>

theorem warm_pool_replenish_fills:
  "(case pool_replenish fuel be pool w of (pool', w', finished) \<Rightarrow>
      length (wp_available pool') \<le> max (length (wp_available pool)) (wp_target_size pool) \<and>
      (finished \<longrightarrow>
         length (wp_available pool') = max (length (wp_available pool)) (wp_target_size pool))) \<and>
   ((\<forall>spec w. \<exists>w' h. be_ensure be spec w = (w', Inr h)) \<and>
     wp_target_size pool - length (wp_available pool) \<le> fuel \<longrightarrow>
      snd (snd (pool_replenish fuel be pool w)))"
proof (intro conjI impI)
  show "case pool_replenish fuel be pool w of (pool', w', finished) \<Rightarrow>
      length (wp_available pool') \<le> max (length (wp_available pool)) (wp_target_size pool) \<and>
      (finished \<longrightarrow>
         length (wp_available pool') = max (length (wp_available pool)) (wp_target_size pool))"
    using pool_replenish_size [of fuel be pool w] by (auto split: prod.splits)
  assume "(\<forall>spec w. \<exists>w' h. be_ensure be spec w = (w', Inr h)) \<and>
     wp_target_size pool - length (wp_available pool) \<le> fuel"
  then show "snd (snd (pool_replenish fuel be pool w))"
    by (intro pool_replenish_finishes) auto
qed

definition sample_backend :: "string list ContainerBackend" where
  "sample_backend =
     \<lparr>be_ensure = (\<lambda>spec w. (cs_name spec # w,
        Ok \<lparr>ch_name = cs_name spec, ch_url = ''ws://'' @ cs_name spec, ch_port_map = []\<rparr>)),
      be_destroy = (\<lambda>n w. (removeAll n w, Ok ())),
      be_exists = (\<lambda>n w. (w, Ok (n \<in> set w))),
      be_url = (\<lambda>n w. (w, Ok (''ws://'' @ n)))\<rparr>"

definition sample_pool :: WarmPool where
  "sample_pool = pool_new 2 ''img'' ''nexal-'' ''/bin/agent'' None None None True"

theorem warm_pool_replenish_fills_witness:
  "snd (snd (pool_replenish 2 sample_backend sample_pool [])) \<and>
   length (wp_available (fst (pool_replenish 2 sample_backend sample_pool []))) = 2"
proof -
  have "(\<forall>spec w. \<exists>w' h. be_ensure sample_backend spec w = (w', Inr h)) \<and>
     wp_target_size sample_pool - length (wp_available sample_pool) \<le> 2"
    by (simp add: sample_backend_def sample_pool_def pool_new_def)
  with warm_pool_replenish_fills [where fuel = 2 and be = sample_backend and pool = sample_pool and
      w = "[]"] show ?thesis
    by (auto simp: sample_pool_def pool_new_def split: prod.splits)
qed

end
