(* ===== verification/Agent_Protocol.thy ===== *)
theory Agent_Protocol
  imports Values
begin

text \<open>
  The agent's wire types: \<^verbatim>\<open>nexal-agent/src/protocol\<close> (errors, channel helpers,
  method names, request, response and notification structures) and the agent half of the method
  table in \<^verbatim>\<open>utils/transport/src/agent\<close>.  Field names carry the name of their
  structure, since record fields of HOL are global.  Counters (\<^verbatim>\<open>seq\<close>, byte counts)
  are natural numbers.
\<close>

section \<open>Errors\<close>

datatype RequestId = IdString string | IdInteger int | IdNull

datatype ChannelErrorKind =
  KParse | KInvalidRequest | KMethodNotFound | KInvalidParams | KInternal

definition kind_to_string :: "ChannelErrorKind \<Rightarrow> string" where
  "kind_to_string k =
     (case k of
        KParse \<Rightarrow> ''parse''
      | KInvalidRequest \<Rightarrow> ''invalid_request''
      | KMethodNotFound \<Rightarrow> ''method_not_found''
      | KInvalidParams \<Rightarrow> ''invalid_params''
      | KInternal \<Rightarrow> ''internal'')"

record ChannelError =
  ce_kind :: ChannelErrorKind
  ce_data :: "value option"
  ce_message :: string

definition invalid_request :: "string \<Rightarrow> ChannelError" where
  "invalid_request message = \<lparr>ce_kind = KInvalidRequest, ce_data = None, ce_message = message\<rparr>"

definition invalid_params :: "string \<Rightarrow> ChannelError" where
  "invalid_params message = \<lparr>ce_kind = KInvalidParams, ce_data = None, ce_message = message\<rparr>"

definition internal_error :: "string \<Rightarrow> ChannelError" where
  "internal_error message = \<lparr>ce_kind = KInternal, ce_data = None, ce_message = message\<rparr>"

datatype ExecServerError = Protocol string | Server string string

section \<open>Methods\<close>

datatype AgentMethod =
    Initialize | Initialized
  | ProcessStart | ProcessRead | ProcessWrite | ProcessTerminate
  | FsReadFile | FsWriteFile | FsCreateDirectory | FsGetMetadata | FsReadDirectory | FsRemove | FsCopy
  | ProxyRegister | ProxyUnregister

definition agent_as_str :: "AgentMethod \<Rightarrow> string" where
  "agent_as_str m =
     (case m of
        Initialize \<Rightarrow> ''initialize''
      | Initialized \<Rightarrow> ''initialized''
      | ProcessStart \<Rightarrow> ''process/start''
      | ProcessRead \<Rightarrow> ''process/read''
      | ProcessWrite \<Rightarrow> ''process/write''
      | ProcessTerminate \<Rightarrow> ''process/terminate''
      | FsReadFile \<Rightarrow> ''fs/read_file''
      | FsWriteFile \<Rightarrow> ''fs/write_file''
      | FsCreateDirectory \<Rightarrow> ''fs/create_directory''
      | FsGetMetadata \<Rightarrow> ''fs/get_metadata''
      | FsReadDirectory \<Rightarrow> ''fs/read_directory''
      | FsRemove \<Rightarrow> ''fs/remove''
      | FsCopy \<Rightarrow> ''fs/copy''
      | ProxyRegister \<Rightarrow> ''proxy/register''
      | ProxyUnregister \<Rightarrow> ''proxy/unregister'')"

definition agent_all :: "AgentMethod list" where
  "agent_all =
     [Initialize, Initialized, ProcessStart, ProcessRead, ProcessWrite, ProcessTerminate,
      FsReadFile, FsWriteFile, FsCreateDirectory, FsGetMetadata, FsReadDirectory, FsRemove, FsCopy,
      ProxyRegister, ProxyUnregister]"

text \<open>\<^verbatim>\<open>parse\<close> is the match the macro generates, one arm per table row.\<close>

definition agent_parse :: "string \<Rightarrow> AgentMethod option" where
  "agent_parse s =
     (if s = ''initialize'' then Some Initialize
      else if s = ''initialized'' then Some Initialized
      else if s = ''process/start'' then Some ProcessStart
      else if s = ''process/read'' then Some ProcessRead
      else if s = ''process/write'' then Some ProcessWrite
      else if s = ''process/terminate'' then Some ProcessTerminate
      else if s = ''fs/read_file'' then Some FsReadFile
      else if s = ''fs/write_file'' then Some FsWriteFile
      else if s = ''fs/create_directory'' then Some FsCreateDirectory
      else if s = ''fs/get_metadata'' then Some FsGetMetadata
      else if s = ''fs/read_directory'' then Some FsReadDirectory
      else if s = ''fs/remove'' then Some FsRemove
      else if s = ''fs/copy'' then Some FsCopy
      else if s = ''proxy/register'' then Some ProxyRegister
      else if s = ''proxy/unregister'' then Some ProxyUnregister
      else None)"

text \<open>The agent crate's own grouping of the same names, \<^verbatim>\<open>protocol/methods.rs\<close>.\<close>

datatype LifecycleMethod = LInitialize | LInitialized
datatype ProcessMethod = PStart | PRead | PWrite | PTerminate
datatype FsMethod =
  FReadFile | FWriteFile | FCreateDirectory | FGetMetadata | FReadDirectory | FRemove | FCopy
datatype ProxyMethod = PxRegister | PxUnregister
datatype Method =
  Lifecycle LifecycleMethod | Process ProcessMethod | FileSystem FsMethod | Proxy ProxyMethod

definition parse_method :: "string \<Rightarrow> Method option" where
  "parse_method s =
     (if s = ''initialize'' then Some (Lifecycle LInitialize)
      else if s = ''initialized'' then Some (Lifecycle LInitialized)
      else if s = ''process/start'' then Some (Process PStart)
      else if s = ''process/read'' then Some (Process PRead)
      else if s = ''process/write'' then Some (Process PWrite)
      else if s = ''process/terminate'' then Some (Process PTerminate)
      else if s = ''fs/read_file'' then Some (FileSystem FReadFile)
      else if s = ''fs/write_file'' then Some (FileSystem FWriteFile)
      else if s = ''fs/create_directory'' then Some (FileSystem FCreateDirectory)
      else if s = ''fs/get_metadata'' then Some (FileSystem FGetMetadata)
      else if s = ''fs/read_directory'' then Some (FileSystem FReadDirectory)
      else if s = ''fs/remove'' then Some (FileSystem FRemove)
      else if s = ''fs/copy'' then Some (FileSystem FCopy)
      else if s = ''proxy/register'' then Some (Proxy PxRegister)
      else if s = ''proxy/unregister'' then Some (Proxy PxUnregister)
      else None)"

definition method_group :: "AgentMethod \<Rightarrow> Method" where
  "method_group m =
     (case m of
        Initialize \<Rightarrow> Lifecycle LInitialize
      | Initialized \<Rightarrow> Lifecycle LInitialized
      | ProcessStart \<Rightarrow> Process PStart
      | ProcessRead \<Rightarrow> Process PRead
      | ProcessWrite \<Rightarrow> Process PWrite
      | ProcessTerminate \<Rightarrow> Process PTerminate
      | FsReadFile \<Rightarrow> FileSystem FReadFile
      | FsWriteFile \<Rightarrow> FileSystem FWriteFile
      | FsCreateDirectory \<Rightarrow> FileSystem FCreateDirectory
      | FsGetMetadata \<Rightarrow> FileSystem FGetMetadata
      | FsReadDirectory \<Rightarrow> FileSystem FReadDirectory
      | FsRemove \<Rightarrow> FileSystem FRemove
      | FsCopy \<Rightarrow> FileSystem FCopy
      | ProxyRegister \<Rightarrow> Proxy PxRegister
      | ProxyUnregister \<Rightarrow> Proxy PxUnregister)"

definition PROCESS_OUTPUT :: string where "PROCESS_OUTPUT = ''process/output''"
definition PROCESS_EXITED :: string where "PROCESS_EXITED = ''process/exited''"
definition PROCESS_CLOSED :: string where "PROCESS_CLOSED = ''process/closed''"

section \<open>Requests, responses and notifications\<close>

datatype ExecOutputStream = Stdout | Stderr | Pty

datatype WriteStatus = StatusAccepted | StatusUnknownProcess | StatusStdinClosed | StatusStarting

type_synonym ProcessId = string

record InitializeResponse =
  ir_default_shell :: "string option"
  ir_cwd :: "string option"

record ExecParams =
  xp_process_id :: ProcessId
  xp_argv :: "string list"
  xp_cwd :: string
  xp_env :: "(string, string) hashmap"
  xp_tty :: bool
  xp_arg0 :: "string option"

record ReadParams =
  rd_process_id :: ProcessId
  rd_after_seq :: "nat option"
  rd_max_bytes :: "nat option"
  rd_wait_ms :: "nat option"

record ProcessOutputChunk =
  oc_seq :: nat
  oc_stream :: ExecOutputStream
  oc_chunk :: "byte list"

record ReadResponse =
  rr_chunks :: "ProcessOutputChunk list"
  rr_next_seq :: nat
  rr_exited :: bool
  rr_exit_code :: "int option"
  rr_closed :: bool
  rr_failure :: "string option"

record WriteParams =
  wp_process_id :: ProcessId
  wp_chunk :: "byte list"

record ExecOutputDeltaNotification =
  od_process_id :: ProcessId
  od_seq :: nat
  od_stream :: ExecOutputStream
  od_chunk :: "byte list"

record ExecExitedNotification =
  ex_process_id :: ProcessId
  ex_seq :: nat
  ex_exit_code :: int

record ExecClosedNotification =
  cl_process_id :: ProcessId
  cl_seq :: nat

datatype ProcessEvent =
    OutputDelta ExecOutputDeltaNotification
  | Exited ExecExitedNotification
  | Closed ExecClosedNotification

primrec event_seq :: "ProcessEvent \<Rightarrow> nat" where
  "event_seq (OutputDelta n) = od_seq n"
| "event_seq (Exited n) = ex_seq n"
| "event_seq (Closed n) = cl_seq n"

section \<open>Properties\<close>

lemma agent_parse_as_str [simp]: "agent_parse (agent_as_str m) = Some m"
  by (cases m) (simp_all add: agent_parse_def agent_as_str_def)

lemma agent_parse_Some: "agent_parse s = Some m \<Longrightarrow> agent_as_str m = s"
  by (auto simp: agent_parse_def agent_as_str_def split: if_splits)

lemma agent_all_complete: "m \<in> set agent_all"
  by (cases m) (simp_all add: agent_all_def)

text \<open>The agent's method table is a bijection between its methods and their wire names,
  \<^verbatim>\<open>all()\<close> lists every method once, and the agent crate's own parser recognises
  exactly the same names and groups them consistently.\<close>

theorem agent_method_table:
  "(agent_parse s = Some m \<longleftrightarrow> s = agent_as_str m) \<and>
   set agent_all = UNIV \<and> distinct agent_all \<and>
   parse_method s = map_option method_group (agent_parse s)"
proof (intro conjI)
  show "agent_parse s = Some m \<longleftrightarrow> s = agent_as_str m"
    using agent_parse_Some by auto
  show "set agent_all = UNIV" using agent_all_complete by blast
  show "distinct agent_all" by (simp add: agent_all_def)
  show "parse_method s = map_option method_group (agent_parse s)"
    by (simp add: parse_method_def agent_parse_def method_group_def)
qed

end
