(* ===== verification/Message_Channel.thy ===== *)
theory Message_Channel
  imports Values
begin

text \<open>
  The message channel of \<^verbatim>\<open>utils/transport/src/message_channel.rs\<close>, over a WebSocket
  (one message per binary frame) and over a byte stream (a four-byte big-endian length before
  every payload).  The MessagePack codec of \<^verbatim>\<open>rmp_serde\<close> is an argument.  A reader is a
  function from everything the peer sends to the events it delivers; a writer from messages to
  what is written.
\<close>

section \<open>Events\<close>

datatype 't MessageChannelEvent =
    Message 't
  | MalformedMessage string
  | Disconnected "string option"

section \<open>WebSocket\<close>

datatype ws_message = WsBinary "byte list" | WsText string | WsClose | WsPing | WsPong | WsFrame

text \<open>What \<^verbatim>\<open>next()\<close> yields: a message, an error, or the end of the stream (the end
  of the list).\<close>

type_synonym ws_item = "(string, ws_message) result"

fun websocket_reader ::
  "(byte list \<Rightarrow> (string, 't) result) \<Rightarrow> string \<Rightarrow> ws_item list \<Rightarrow> 't MessageChannelEvent list" where
  "websocket_reader decode label [] = [Disconnected None]"
| "websocket_reader decode label (Inl err # items) =
     [Disconnected (Some (''failed to read websocket msgpack from '' @ label @ '': '' @ err))]"
| "websocket_reader decode label (Inr msg # items) =
     (case msg of
        WsBinary bytes \<Rightarrow>
          (case decode bytes of
             Inr m \<Rightarrow> Message m
           | Inl err \<Rightarrow> MalformedMessage
               (''failed to parse websocket msgpack from '' @ label @ '': '' @ err))
          # websocket_reader decode label items
      | WsText text \<Rightarrow>
          MalformedMessage (''unexpected text frame from '' @ label @ '': '' @ text)
          # websocket_reader decode label items
      | WsClose \<Rightarrow> [Disconnected None]
      | WsPing \<Rightarrow> websocket_reader decode label items
      | WsPong \<Rightarrow> websocket_reader decode label items
      | WsFrame \<Rightarrow> websocket_reader decode label items)"

text \<open>The writer stops at the first message that cannot be serialised; the writes themselves are
  assumed to succeed.\<close>

fun websocket_writer ::
  "('t \<Rightarrow> (string, byte list) result) \<Rightarrow> string \<Rightarrow> 't list \<Rightarrow> ws_message list \<times> 't MessageChannelEvent option" where
  "websocket_writer encode label [] = ([], None)"
| "websocket_writer encode label (m # ms) =
     (case encode m of
        Inr encoded \<Rightarrow>
          (case websocket_writer encode label ms of (out, ev) \<Rightarrow> (WsBinary encoded # out, ev))
      | Inl err \<Rightarrow>
          ([], Some (Disconnected (Some (''failed to serialize msgpack for '' @ label @ '': '' @ err)))))"

section \<open>Length-prefixed frames\<close>

definition u32_to_be_bytes :: "nat \<Rightarrow> byte list" where
  "u32_to_be_bytes n =
     [of_nat (n div 2 ^ 24 mod 256), of_nat (n div 2 ^ 16 mod 256), of_nat (n div 2 ^ 8 mod 256),
      of_nat (n mod 256)]"

definition u32_from_be_bytes :: "byte list \<Rightarrow> nat" where
  "u32_from_be_bytes bs = foldl (\<lambda>a b. 256 * a + unat b) 0 bs"

text \<open>\<^verbatim>\<open>payload.len() as u32\<close> keeps the length modulo \<open>2^32\<close>.\<close>

definition stdio_frame :: "byte list \<Rightarrow> byte list" where
  "stdio_frame payload = u32_to_be_bytes (length payload mod 2 ^ 32) @ payload"

fun stdio_writer ::
  "('t \<Rightarrow> (string, byte list) result) \<Rightarrow> string \<Rightarrow> 't list \<Rightarrow> byte list \<times> 't MessageChannelEvent option" where
  "stdio_writer encode label [] = ([], None)"
| "stdio_writer encode label (m # ms) =
     (case encode m of
        Inr payload \<Rightarrow>
          (case stdio_writer encode label ms of (out, ev) \<Rightarrow> (stdio_frame payload @ out, ev))
      | Inl _ \<Rightarrow> ([], Some (Disconnected (Some (''failed to serialize msgpack for '' @ label)))))"

text \<open>The reader, on everything the peer will ever send followed by the end of the stream.
  \<^verbatim>\<open>read_exact\<close> fails with \<^verbatim>\<open>UnexpectedEof\<close> when fewer bytes are left.\<close>

function stdio_reader ::
  "(byte list \<Rightarrow> (string, 't) result) \<Rightarrow> string \<Rightarrow> byte list \<Rightarrow> 't MessageChannelEvent list" where
  "stdio_reader decode label bytes =
     (if length bytes < 4 then [Disconnected None]
      else
        let len = u32_from_be_bytes (take 4 bytes);
            rest = drop 4 bytes
        in if length rest < len
           then [Disconnected (Some (''failed to read msgpack payload from '' @ label @ '': early eof''))]
           else
             (case decode (take len rest) of
                Inr m \<Rightarrow> Message m
              | Inl err \<Rightarrow> MalformedMessage (''failed to parse msgpack from '' @ label @ '': '' @ err))
             # stdio_reader decode label (drop len rest))"
  by pat_completeness auto
termination
  by (relation "measure (\<lambda>(_, _, bytes). length bytes)") auto

declare stdio_reader.simps [simp del]

section \<open>The two tasks of a channel\<close>

text \<open>One turn of either reader task: what the awaited read gave, as the loop body classifies it.\<close>

datatype 't read_outcome =
    Deliver 't
  | Malformed "string option"
  | Skip
  | Stop "string option"

fun ws_outcome :: "(byte list \<Rightarrow> (string, 't) result) \<Rightarrow> string \<Rightarrow> ws_item option \<Rightarrow> 't read_outcome" where
  "ws_outcome decode label None = Stop None"
| "ws_outcome decode label (Some (Inl err)) = Stop (Some (''failed to read websocket msgpack from '' @ label @ '': '' @ err))"
| "ws_outcome decode label (Some (Inr msg)) =
     (case msg of
        WsBinary bytes \<Rightarrow>
          (case decode bytes of
             Inr m \<Rightarrow> Deliver m
           | Inl err \<Rightarrow> Malformed (Some (''failed to parse websocket msgpack from '' @ label @ '': '' @ err)))
      | WsText t \<Rightarrow> Malformed (Some (''unexpected text frame from '' @ label @ '': '' @ t))
      | WsClose \<Rightarrow> Stop None
      | _ \<Rightarrow> Skip)"

text \<open>The two calls of \<^verbatim>\<open>read_exact\<close> for one frame: no length (at the end of the stream, or
  with another error), no payload, or both.\<close>

datatype stdio_read = LengthEof | LengthFailed string | PayloadFailed string | FrameRead "byte list"

fun stdio_outcome :: "(byte list \<Rightarrow> (string, 't) result) \<Rightarrow> string \<Rightarrow> stdio_read \<Rightarrow> 't read_outcome" where
  "stdio_outcome decode label LengthEof = Stop None"
| "stdio_outcome decode label (LengthFailed err) = Stop (Some (''failed to read frame length from '' @ label @ '': '' @ err))"
| "stdio_outcome decode label (PayloadFailed err) = Stop (Some (''failed to read msgpack payload from '' @ label @ '': '' @ err))"
| "stdio_outcome decode label (FrameRead payload) =
     (case decode payload of
        Inr m \<Rightarrow> Deliver m
      | Inl err \<Rightarrow> Malformed (Some (''failed to parse msgpack from '' @ label @ '': '' @ err)))"

text \<open>The reads that a stream of bytes with an end gives.\<close>

function stdio_reads :: "byte list \<Rightarrow> stdio_read list" where
  "stdio_reads bytes =
     (if length bytes < 4 then [LengthEof]
      else
        let len = u32_from_be_bytes (take 4 bytes);
            rest = drop 4 bytes
        in if length rest < len then [PayloadFailed ''early eof'']
           else FrameRead (take len rest) # stdio_reads (drop len rest))"
  by pat_completeness auto
termination
  by (relation "measure length") auto

declare stdio_reads.simps [simp del]

text \<open>A channel: the queue of events (all that was ever put in), whether the application still
  holds the receiver, whether the two tasks run, and the payloads written.\<close>

record 't MessageChannel =
  ch_incoming :: "'t MessageChannelEvent list"
  ch_receiver :: bool
  ch_reader :: bool
  ch_writer :: bool
  ch_written :: "byte list list"

definition open_channel :: "'t MessageChannel" where
  "open_channel = \<lparr>ch_incoming = [], ch_receiver = True, ch_reader = True, ch_writer = True, ch_written = []\<rparr>"

definition put_event :: "'t MessageChannelEvent \<Rightarrow> 't MessageChannel \<Rightarrow> 't MessageChannel" where
  "put_event ev ch = (if ch_receiver ch then ch\<lparr>ch_incoming := ch_incoming ch @ [ev]\<rparr> else ch)"

definition send_disconnected :: "string option \<Rightarrow> 't MessageChannel \<Rightarrow> 't MessageChannel" where
  "send_disconnected reason ch = put_event (Disconnected reason) ch"

definition send_malformed_message :: "string option \<Rightarrow> 't MessageChannel \<Rightarrow> 't MessageChannel" where
  "send_malformed_message reason ch =
     put_event (MalformedMessage (case reason of None \<Rightarrow> ''malformed message'' | Some r \<Rightarrow> r)) ch"

text \<open>A turn of the reader.  It notices that the receiver is gone only when it has a message.\<close>

definition incoming_turn :: "'t read_outcome \<Rightarrow> 't MessageChannel \<Rightarrow> 't MessageChannel" where
  "incoming_turn outcome ch =
     (if \<not> ch_reader ch then ch
      else case outcome of
        Deliver m \<Rightarrow> if ch_receiver ch then put_event (Message m) ch else ch\<lparr>ch_reader := False\<rparr>
      | Malformed reason \<Rightarrow> send_malformed_message reason ch
      | Skip \<Rightarrow> ch
      | Stop reason \<Rightarrow> (send_disconnected reason ch)\<lparr>ch_reader := False\<rparr>)"

text \<open>A turn of the writer, on a message and the outcome of writing it.  The two transports word
  their failures differently: \<open>failed\<close> and \<open>unwritten\<close> give the reasons.\<close>

definition outgoing_turn ::
  "('t \<Rightarrow> (string, byte list) result) \<Rightarrow> (string \<Rightarrow> string) \<Rightarrow> (string \<Rightarrow> string) \<Rightarrow> 't \<Rightarrow> (string, unit) result \<Rightarrow>
     't MessageChannel \<Rightarrow> 't MessageChannel" where
  "outgoing_turn encode failed unwritten m written ch =
     (if \<not> ch_writer ch then ch
      else case encode m of
        Inl err \<Rightarrow> (send_disconnected (Some (failed err)) ch)\<lparr>ch_writer := False\<rparr>
      | Inr payload \<Rightarrow>
          (case written of
             Inl err \<Rightarrow> (send_disconnected (Some (unwritten err)) ch)\<lparr>ch_writer := False\<rparr>
           | Inr _ \<Rightarrow> ch\<lparr>ch_written := ch_written ch @ [payload]\<rparr>))"

definition ws_writer_turn where
  "ws_writer_turn encode label =
     outgoing_turn encode (\<lambda>err. ''failed to serialize msgpack for '' @ label @ '': '' @ err)
       (\<lambda>err. ''failed to write websocket msgpack to '' @ label @ '': '' @ err)"

definition stdio_writer_turn where
  "stdio_writer_turn encode label =
     outgoing_turn encode (\<lambda>_. ''failed to serialize msgpack for '' @ label)
       (\<lambda>_. ''msgpack write to '' @ label @ '' failed'')"

datatype 't channel_step =
    Reads "'t read_outcome"
  | Writes 't "(string, unit) result"
  | DropsReceiver

fun channel_apply :: "('t \<Rightarrow> (string, unit) result \<Rightarrow> 't MessageChannel \<Rightarrow> 't MessageChannel) \<Rightarrow> 't channel_step \<Rightarrow>
    't MessageChannel \<Rightarrow> 't MessageChannel" where
  "channel_apply wr (Reads outcome) ch = incoming_turn outcome ch"
| "channel_apply wr (Writes m written) ch = wr m written ch"
| "channel_apply wr DropsReceiver ch = ch\<lparr>ch_receiver := False\<rparr>"

definition channel_run where
  "channel_run wr steps = foldl (\<lambda>ch step. channel_apply wr step ch) open_channel steps"

section \<open>Lemmas\<close>

lemma byte_of_nat: "m < 256 \<Longrightarrow> unat (of_nat m :: byte) = m"
  by (simp add: unat_of_nat)

lemma be_bytes_roundtrip: "n < 2 ^ 32 \<Longrightarrow> u32_from_be_bytes (u32_to_be_bytes n) = n"
proof -
  assume n: "n < 2 ^ 32"
  have "n div 2 ^ 24 < 256" using n by (simp add: less_mult_imp_div_less)
  then have "n div 2 ^ 24 mod 256 = n div 2 ^ 24" by simp
  then have "u32_from_be_bytes (u32_to_be_bytes n) =
      256 * (256 * (256 * (n div 2 ^ 24) + n div 2 ^ 16 mod 256) + n div 2 ^ 8 mod 256) + n mod 256"
    by (simp add: u32_from_be_bytes_def u32_to_be_bytes_def byte_of_nat)
  also have "\<dots> = n"
  proof -
    have "256 * (n div 2 ^ 24) + n div 2 ^ 16 mod 256 = n div 2 ^ 16"
      using div_mult_mod_eq [of "n div 2 ^ 16" 256] by (simp add: div_mult2_eq [symmetric] mult.commute)
    moreover have "256 * (n div 2 ^ 16) + n div 2 ^ 8 mod 256 = n div 2 ^ 8"
      using div_mult_mod_eq [of "n div 2 ^ 8" 256] by (simp add: div_mult2_eq [symmetric] mult.commute)
    moreover have "256 * (n div 2 ^ 8) + n mod 256 = n"
      using div_mult_mod_eq [of n 256] by (simp add: mult.commute)
    ultimately show ?thesis by simp
  qed
  finally show ?thesis .
qed

lemma length_be_bytes [simp]: "length (u32_to_be_bytes n) = 4"
  by (simp add: u32_to_be_bytes_def)

lemma stdio_reader_frame:
  assumes "length payload < 2 ^ 32"
  shows "stdio_reader decode label (stdio_frame payload @ rest) =
     (case decode payload of
        Inr m \<Rightarrow> Message m
      | Inl err \<Rightarrow> MalformedMessage (''failed to parse msgpack from '' @ label @ '': '' @ err))
     # stdio_reader decode label rest"
  using assms
  by (subst stdio_reader.simps) (simp add: stdio_frame_def be_bytes_roundtrip Let_def)

lemma stdio_reader_partial:
  assumes "length payload < 2 ^ 32" and "k < length (stdio_frame payload)"
  shows "\<exists>reason. stdio_reader decode label (take k (stdio_frame payload)) = [Disconnected reason]"
proof (cases "k < 4")
  case True
  then have "length (take k (stdio_frame payload)) < 4" by simp
  then show ?thesis by (subst stdio_reader.simps) simp
next
  case False
  then obtain j where k: "k = 4 + j" by (metis le_add_diff_inverse not_less)
  have "take k (stdio_frame payload) = u32_to_be_bytes (length payload) @ take j payload"
    using assms(1) by (simp add: stdio_frame_def k)
  then show ?thesis
    using assms by (subst stdio_reader.simps) (auto simp: be_bytes_roundtrip k stdio_frame_def Let_def)
qed

definition codec_ok :: "('t \<Rightarrow> (string, byte list) result) \<Rightarrow> (byte list \<Rightarrow> (string, 't) result) \<Rightarrow> 't \<Rightarrow> bool" where
  "codec_ok encode decode m \<longleftrightarrow>
     (case encode m of Inl _ \<Rightarrow> False | Inr bytes \<Rightarrow> decode bytes = Inr m \<and> length bytes < 2 ^ 32)"

lemma stdio_reader_writer:
  "\<forall>m \<in> set ms. codec_ok encode decode m \<Longrightarrow>
     stdio_reader decode label (fst (stdio_writer encode wlabel ms) @ rest) =
       map Message ms @ stdio_reader decode label rest \<and> snd (stdio_writer encode wlabel ms) = None"
proof (induction ms)
  case (Cons m ms)
  then obtain bytes where b: "encode m = Inr bytes" "decode bytes = Inr m" "length bytes < 2 ^ 32"
    by (auto simp: codec_ok_def split: sum.splits)
  have "fst (stdio_writer encode wlabel (m # ms)) = stdio_frame bytes @ fst (stdio_writer encode wlabel ms)"
    using b by (simp add: case_prod_unfold)
  then show ?case
    using Cons b by (simp add: stdio_reader_frame case_prod_unfold)
qed simp

lemma websocket_reader_writer:
  "\<forall>m \<in> set ms. codec_ok encode decode m \<Longrightarrow>
     websocket_reader decode label (map Inr (fst (websocket_writer encode wlabel ms)) @ items) =
       map Message ms @ websocket_reader decode label items"
  by (induction ms) (auto simp: codec_ok_def case_prod_unfold split: sum.splits)

section \<open>Properties\<close>

text \<open>The length-prefixed channel delivers messages intact, in order and without loss: what
  the writer produces is read back as the same messages, a stream that breaks off inside the next
  frame still yields every complete message before the disconnect, and the same holds over a
  WebSocket whatever pings and pongs follow.\<close>

theorem message_channel_roundtrip:
  assumes "\<forall>m. m \<in> set ms \<longrightarrow> codec_ok encode decode m"
    and "codec_ok encode decode m'" and "encode m' = Inr payload" and "k < length (stdio_frame payload)"
  shows "(\<exists>reason. stdio_reader decode label (fst (stdio_writer encode wlabel ms) @ take k (stdio_frame payload)) =
            map Message ms @ [Disconnected reason]) \<and>
     stdio_reader decode label (fst (stdio_writer encode wlabel ms)) = map Message ms @ [Disconnected None] \<and>
     websocket_reader decode label (map Inr (fst (websocket_writer encode wlabel ms)) @ [Inr WsPing, Inr WsPong, Inr WsClose]) =
       map Message ms @ [Disconnected None]"
proof (intro conjI)
  have ok: "\<forall>m \<in> set ms. codec_ok encode decode m" using assms(1) by blast
  have len: "length payload < 2 ^ 32" using assms(2,3) by (simp add: codec_ok_def)
  obtain reason where "stdio_reader decode label (take k (stdio_frame payload)) = [Disconnected reason]"
    using stdio_reader_partial [OF len assms(4)] by blast
  then show "\<exists>reason. stdio_reader decode label (fst (stdio_writer encode wlabel ms) @ take k (stdio_frame payload)) =
            map Message ms @ [Disconnected reason]"
    using stdio_reader_writer [OF ok, of label wlabel] by auto
  have "stdio_reader decode label [] = [Disconnected None]" by (subst stdio_reader.simps) simp
  then show "stdio_reader decode label (fst (stdio_writer encode wlabel ms)) = map Message ms @ [Disconnected None]"
    using stdio_reader_writer [OF ok, of label wlabel "[]"] by simp
  show "websocket_reader decode label (map Inr (fst (websocket_writer encode wlabel ms)) @ [Inr WsPing, Inr WsPong, Inr WsClose]) =
       map Message ms @ [Disconnected None]"
    using websocket_reader_writer [OF ok] by simp
qed

theorem message_channel_roundtrip_witness:
  "stdio_reader Ok [] (fst (stdio_writer (Ok :: byte list \<Rightarrow> (string, byte list) result) [] [[1, 2], []])) =
     [Message [1, 2], Message [], Disconnected None]"
proof -
  have ok: "codec_ok Ok Ok ([] :: byte list)" "codec_ok Ok Ok ([1, 2] :: byte list)"
    by (simp_all add: codec_ok_def)
  show ?thesis
    using message_channel_roundtrip [of "[[1, 2], []]" Ok Ok "[]" "[]" 0 "[]" "[]"] ok
    by (simp add: stdio_frame_def)
qed

section \<open>The tasks against the streams\<close>

text \<open>The reader task alone delivers what the stream functions say.\<close>

fun outcome_events :: "'t read_outcome list \<Rightarrow> 't MessageChannelEvent list" where
  "outcome_events [] = []"
| "outcome_events (Deliver m # os) = Message m # outcome_events os"
| "outcome_events (Malformed reason # os) =
     MalformedMessage (case reason of None \<Rightarrow> ''malformed message'' | Some r \<Rightarrow> r) # outcome_events os"
| "outcome_events (Skip # os) = outcome_events os"
| "outcome_events (Stop reason # os) = [Disconnected reason]"

lemma websocket_reader_outcomes:
  "websocket_reader decode label items = outcome_events (map (ws_outcome decode label) (map Some items @ [None]))"
proof (induction items)
  case (Cons item items)
  then show ?case by (cases item) (auto split: ws_message.splits sum.splits)
qed simp

lemma stdio_reader_outcomes:
  "stdio_reader decode label bytes = outcome_events (map (stdio_outcome decode label) (stdio_reads bytes))"
proof (induction decode label bytes rule: stdio_reader.induct)
  case (1 decode label bytes)
  let ?len = "u32_from_be_bytes (take 4 bytes)" and ?rest = "drop 4 bytes"
  consider (short) "length bytes < 4" | (early) "\<not> length bytes < 4" "length ?rest < ?len"
    | (frame) "\<not> length bytes < 4" "\<not> length ?rest < ?len" by blast
  then show ?case
  proof cases
    case frame
    then have "stdio_reader decode label (drop ?len ?rest) =
        outcome_events (map (stdio_outcome decode label) (stdio_reads (drop ?len ?rest)))"
      using 1 by simp
    then show ?thesis using frame
      by (subst stdio_reader.simps, subst stdio_reads.simps) (auto simp: Let_def split: sum.splits)
  qed (subst stdio_reader.simps, subst stdio_reads.simps, simp add: Let_def)+
qed

lemma put_event_fields [simp]:
  "ch_receiver (put_event ev ch) = ch_receiver ch" "ch_reader (put_event ev ch) = ch_reader ch"
  "ch_writer (put_event ev ch) = ch_writer ch" "ch_written (put_event ev ch) = ch_written ch"
  "ch_incoming (put_event ev ch) = ch_incoming ch @ (if ch_receiver ch then [ev] else [])"
  by (simp_all add: put_event_def)

text \<open>What the tasks have done, from the steps alone: the messages that the reader had before it
  stopped, and the payloads of the messages before the first that could not be written.\<close>

fun received :: "'t read_outcome list \<Rightarrow> 't list" where
  "received [] = []"
| "received (Deliver m # os) = m # received os"
| "received (Stop _ # os) = []"
| "received (_ # os) = received os"

fun written_payloads :: "('t \<Rightarrow> (string, byte list) result) \<Rightarrow> ('t \<times> (string, unit) result) list \<Rightarrow> byte list list" where
  "written_payloads encode [] = []"
| "written_payloads encode ((m, w) # ws) =
     (case encode m of
        Inl _ \<Rightarrow> []
      | Inr payload \<Rightarrow> (case w of Inl _ \<Rightarrow> [] | Inr _ \<Rightarrow> payload # written_payloads encode ws))"

fun step_reads :: "'t channel_step list \<Rightarrow> 't read_outcome list" where
  "step_reads [] = []"
| "step_reads (Reads r # steps) = r # step_reads steps"
| "step_reads (_ # steps) = step_reads steps"

fun step_writes :: "'t channel_step list \<Rightarrow> ('t \<times> (string, unit) result) list" where
  "step_writes [] = []"
| "step_writes (Writes m w # steps) = (m, w) # step_writes steps"
| "step_writes (_ # steps) = step_writes steps"

definition event_messages :: "'t MessageChannelEvent list \<Rightarrow> 't list" where
  "event_messages evs = concat (map (\<lambda>ev. case ev of Message m \<Rightarrow> [m] | _ \<Rightarrow> []) evs)"

lemma event_messages_simps [simp]:
  "event_messages [] = []" "event_messages (a @ b) = event_messages a @ event_messages b"
  "event_messages [Message m] = [m]" "event_messages [MalformedMessage r] = []" "event_messages [Disconnected d] = []"
  by (simp_all add: event_messages_def)

lemma channel_run_from:
  fixes encode :: "'t \<Rightarrow> (string, byte list) result" and failed unwritten :: "string \<Rightarrow> string"
  defines "wr \<equiv> outgoing_turn encode failed unwritten"
  assumes "ch' = foldl (\<lambda>ch step. channel_apply wr step ch) ch steps" "DropsReceiver \<notin> set steps" "ch_receiver ch"
  shows "event_messages (ch_incoming ch') =
      event_messages (ch_incoming ch) @ (if ch_reader ch then received (step_reads steps) else []) \<and>
    ch_written ch' = ch_written ch @ (if ch_writer ch then written_payloads encode (step_writes steps) else []) \<and> ch_receiver ch'"
  using assms(2-)
proof (induction steps arbitrary: ch)
  case (Cons step steps)
  let ?ch = "channel_apply wr step ch"
  have r: "ch_receiver ?ch"
    using Cons.prems(2,3) by (cases step) (auto simp: wr_def incoming_turn_def outgoing_turn_def send_disconnected_def
        send_malformed_message_def split: read_outcome.split sum.split)
  have IH: "event_messages (ch_incoming ch') =
      event_messages (ch_incoming ?ch) @ (if ch_reader ?ch then received (step_reads steps) else []) \<and>
    ch_written ch' = ch_written ?ch @ (if ch_writer ?ch then written_payloads encode (step_writes steps) else []) \<and> ch_receiver ch'"
    using Cons.IH [of ?ch] Cons.prems(1,2) r by simp
  show ?case
  proof (cases step)
    case (Reads outcome)
    then show ?thesis using IH Cons.prems(3)
      by (cases outcome) (auto simp: incoming_turn_def send_disconnected_def send_malformed_message_def split: if_splits)
  next
    case (Writes m w)
    then show ?thesis using IH
      by (auto simp: wr_def outgoing_turn_def send_disconnected_def split: sum.splits if_splits)
  next
    case DropsReceiver
    then show ?thesis using Cons.prems(2) by simp
  qed
qed simp

text \<open>However the turns of the two tasks interleave, while the application holds the receiver it
  gets exactly the messages read before the reader stopped, in order, and exactly the payloads of
  the messages sent before the first failed one are written, in order: neither task's failure
  costs the other anything.\<close>

lemma channel_tasks_independent:
  "DropsReceiver \<notin> set steps \<Longrightarrow>
   event_messages (ch_incoming (channel_run (outgoing_turn encode failed unwritten) steps)) = received (step_reads steps) \<and>
   ch_written (channel_run (outgoing_turn encode failed unwritten) steps) = written_payloads encode (step_writes steps)"
  using channel_run_from [OF refl, of steps open_channel encode failed unwritten]
  by (simp add: channel_run_def open_channel_def)

section \<open>Observations\<close>

text \<open>The length of a payload of \<open>2^32\<close> bytes or more is truncated: the reader takes its
  bytes for further frames.\<close>

lemma stdio_length_truncated:
  "length payload = 2 ^ 32 \<Longrightarrow> take 4 (stdio_frame payload) = [0, 0, 0, 0]"
  by (simp add: stdio_frame_def u32_to_be_bytes_def)

end
