(* ===== verification/Call_Table.thy ===== *)
theory Call_Table
  imports Prelude
begin

text \<open>
  The contract of a table of outstanding calls, which the gateway keeps per agent
  (\<^verbatim>\<open>agent_conn.rs\<close>) and the agent per connection (\<^verbatim>\<open>dispatch.rs\<close>): a step either
  issues the next id, or issues it and fails at once, or gives a result to some of the pending ids, or leaves the table alone.
  It follows that no id is ever used twice and that no call gets two results.
\<close>

locale call_table =
  fixes pending :: "'s \<Rightarrow> nat list"
    and resolved :: "'s \<Rightarrow> nat list"
    and next_call :: "'s \<Rightarrow> nat"
    and start :: 's
    and step :: "'s \<Rightarrow> 's \<Rightarrow> bool"
  assumes start_empty: "pending start = []" "resolved start = []"
    and step_cases: "step s s' \<Longrightarrow> distinct (pending s) \<Longrightarrow> next_call s \<notin> set (pending s) \<Longrightarrow>
        (next_call s' = Suc (next_call s) \<and> pending s' = pending s @ [next_call s] \<and> resolved s' = resolved s) \<or>
        (next_call s' = Suc (next_call s) \<and> pending s' = pending s \<and> resolved s' = resolved s @ [next_call s]) \<or>
        (next_call s' = next_call s \<and>
         (\<exists>ids. distinct ids \<and> set ids \<subseteq> set (pending s) \<and>
            pending s' = filter (\<lambda>i. i \<notin> set ids) (pending s) \<and> resolved s' = resolved s @ ids))"
begin

inductive calls_reach :: "'s \<Rightarrow> bool" where
  start: "calls_reach start"
| step: "calls_reach s \<Longrightarrow> step s s' \<Longrightarrow> calls_reach s'"

lemma calls_accounted:
  "calls_reach s \<Longrightarrow> distinct (pending s @ resolved s) \<and>
     set (pending s @ resolved s) = {next_call start..<next_call s} \<and> next_call start \<le> next_call s"
proof (induction rule: calls_reach.induct)
  case start
  then show ?case by (simp add: start_empty)
next
  case (step s s')
  have d: "distinct (pending s)" and n: "next_call s \<notin> set (pending s)" using step.IH by auto
  have r: "next_call s \<notin> set (resolved s)" using step.IH by auto
  have range: "{next_call start..<Suc (next_call s)} = insert (next_call s) {next_call start..<next_call s}"
    using step.IH by auto
  from step_cases [OF step.hyps(2) d n] show ?case
  proof (elim disjE conjE exE)
    assume "next_call s' = Suc (next_call s)" "pending s' = pending s @ [next_call s]" "resolved s' = resolved s"
    then show ?thesis using n r range step.IH by auto
  next
    assume "next_call s' = Suc (next_call s)" "pending s' = pending s" "resolved s' = resolved s @ [next_call s]"
    then show ?thesis using n r range step.IH by auto
  next
    fix ids assume "next_call s' = next_call s" "distinct ids" "set ids \<subseteq> set (pending s)"
      "pending s' = filter (\<lambda>i. i \<notin> set ids) (pending s)" "resolved s' = resolved s @ ids"
    then show ?thesis using step.IH by auto
  qed
qed

lemma resolved_once: "calls_reach s \<Longrightarrow> distinct (resolved s)"
  using calls_accounted by simp

lemma pending_or_resolved:
  "\<lbrakk>calls_reach s; next_call start \<le> i; i < next_call s\<rbrakk> \<Longrightarrow> (i \<in> set (pending s)) \<noteq> (i \<in> set (resolved s))"
proof -
  assume r: "calls_reach s" and i: "next_call start \<le> i" "i < next_call s"
  have "i \<in> set (pending s @ resolved s)" using calls_accounted [OF r] i by simp
  then show ?thesis using calls_accounted [OF r] by auto
qed

lemma all_resolved:
  "\<lbrakk>calls_reach s; pending s = []\<rbrakk> \<Longrightarrow> set (resolved s) = {next_call start..<next_call s}"
  using calls_accounted [of s] by simp

lemma next_call_unused:
  "calls_reach s \<Longrightarrow> next_call s \<notin> set (pending s) \<and> next_call s \<notin> set (resolved s)"
  using calls_accounted [of s] by auto

end

end
