(* ===== verification/Agent_Conn.thy ===== *)
theory Agent_Conn
  imports Gateway_Protocol Agent_Protocol Message_Channel Call_Table
begin

text \<open>
  The gateway's connection to one agent, \<^verbatim>\<open>nexal-gateway/src/agent_conn.rs\<close>.
  A pending call is an entry of \<open>ac_pending\<close>; the value its one-shot channel receives is
  recorded in \<open>ac_results\<close>, frames handed to the writer in \<open>ac_sent\<close> and
  notifications forwarded to the frontend in \<open>ac_notified\<close>.  Whether a channel still
  accepts a message is an argument.
\<close>

section \<open>State and operations\<close>

datatype AgentConnError =
    Connect string | Send string | ConnClosed | AgentError int string | BadFrame string

record AgentNotification =
  nt_method :: string
  nt_params :: "value option"

record AgentConn =
  ac_pending :: "(nat, unit) hashmap"
  ac_next_id :: nat
  ac_closed :: bool
  ac_sent :: "value list"
  ac_notified :: "AgentNotification list"
  ac_results :: "(nat \<times> (AgentConnError, value) result) list"

definition conn_new :: AgentConn where
  "conn_new = \<lparr>ac_pending = [], ac_next_id = 1, ac_closed = False, ac_sent = [], ac_notified = [],
               ac_results = []\<rparr>"

definition msgpack_map_str :: "(string \<times> string) list \<Rightarrow> value" where
  "msgpack_map_str pairs = VMap (map (\<lambda>(k, v). (VString k, VString v)) pairs)"

definition build_rpc_request :: "nat \<Rightarrow> string \<Rightarrow> value \<Rightarrow> value" where
  "build_rpc_request i method params =
     VMap [(VString ''id'', VInteger (int i)), (VString ''method'', VString method),
           (VString ''params'', params)]"

definition build_rpc_notification :: "string \<Rightarrow> value \<Rightarrow> value" where
  "build_rpc_notification method params =
     VMap [(VString ''method'', VString method), (VString ''params'', params)]"

text \<open>\<^verbatim>\<open>code as i32\<close> keeps the low 32 bits.\<close>

definition as_i32 :: "int \<Rightarrow> int" where
  "as_i32 i = sint (word_of_int i :: 32 word)"

definition agent_error_code :: "value \<Rightarrow> int" where
  "agent_error_code err =
     (case Option.bind (map_get err ''code'') as_i64 of
        Some code \<Rightarrow> as_i32 code
      | None \<Rightarrow>
          (case Option.bind (map_get err ''kind'') as_str of
             None \<Rightarrow> INTERNAL_ERROR
           | Some k \<Rightarrow>
               if k = ''parse'' then PARSE_ERROR
               else if k = ''invalid_request'' then INVALID_REQUEST
               else if k = ''method_not_found'' then METHOD_NOT_FOUND
               else if k = ''invalid_params'' then INVALID_PARAMS
               else INTERNAL_ERROR))"

text \<open>\<^verbatim>\<open>invoke\<close> up to the point where it awaits the answer: it fails when the
  connection is closed, otherwise it takes the next id, becomes pending and writes the request.
  When the writer is gone the call fails and its pending entry stays behind.  The check and the
  rest hold different locks, so other tasks can run in between.\<close>

definition invoke_send ::
  "bool \<Rightarrow> string \<Rightarrow> value option \<Rightarrow> AgentConn \<Rightarrow> AgentConn \<times> (AgentConnError, nat) result" where
  "invoke_send write_ok method params c =
     (let i = ac_next_id c;
          c = c\<lparr>ac_next_id := i + 1, ac_pending := hm_insert i () (ac_pending c)\<rparr>
      in if write_ok
         then (c\<lparr>ac_sent := ac_sent c @ [build_rpc_request i method
                   (case params of None \<Rightarrow> VNil | Some v \<Rightarrow> v)]\<rparr>, Ok i)
         else (c, Err ConnClosed))"

definition invoke ::
  "bool \<Rightarrow> string \<Rightarrow> value option \<Rightarrow> AgentConn \<Rightarrow> AgentConn \<times> (AgentConnError, nat) result" where
  "invoke write_ok method params c =
     (if ac_closed c then (c, Err ConnClosed) else invoke_send write_ok method params c)"

definition notify :: "bool \<Rightarrow> string \<Rightarrow> value \<Rightarrow> AgentConn \<Rightarrow> AgentConn \<times> (AgentConnError, unit) result" where
  "notify write_ok method params c =
     (if write_ok then (c\<lparr>ac_sent := ac_sent c @ [build_rpc_notification method params]\<rparr>, Ok ())
      else (c, Err ConnClosed))"

text \<open>The two frames of the handshake in \<^verbatim>\<open>connect\<close>.\<close>

definition connect ::
  "(string, unit) result \<Rightarrow> (AgentConnError, value) result \<Rightarrow> (AgentConnError, value) result \<Rightarrow>
     string \<Rightarrow> string \<Rightarrow> (AgentConnError, AgentConn) result" where
  "connect ws init_answer initialized_answer url client_name =
     (case ws of
        Inl e \<Rightarrow> Err (Connect (''connect '' @ url @ '': '' @ e))
      | Inr _ \<Rightarrow>
          let (c, r) = invoke True (agent_as_str Initialize)
                 (Some (msgpack_map_str [(''client_name'', client_name)])) conn_new
          in case init_answer of
               Inl e \<Rightarrow> Err e
             | Inr _ \<Rightarrow>
                 let c = c\<lparr>ac_pending := hm_remove 1 (ac_pending c),
                            ac_results := ac_results c @ [(1, init_answer)]\<rparr>;
                     (c, r) = invoke True (agent_as_str Initialized) None c
                 in case initialized_answer of
                      Inl e \<Rightarrow> Err e
                    | Inr _ \<Rightarrow>
                        Ok (c\<lparr>ac_pending := hm_remove 2 (ac_pending c),
                               ac_results := ac_results c @ [(2, initialized_answer)]\<rparr>))"

text \<open>A frame from the agent.  The request handler runs in a task of its own, whose only effect
  on the connection is the response it writes.\<close>

definition response_result :: "value \<Rightarrow> (AgentConnError, value) result" where
  "response_result v =
     (case map_get v ''error'' of
        Some err \<Rightarrow>
          Err (AgentError (agent_error_code err)
            (case Option.bind (map_get err ''message'') as_str of
               None \<Rightarrow> ''agent error'' | Some m \<Rightarrow> m))
      | None \<Rightarrow> Ok (case map_get v ''result'' of None \<Rightarrow> VNil | Some r \<Rightarrow> r))"

definition handler_response :: "value \<Rightarrow> (string, value) result \<Rightarrow> value" where
  "handler_response i result =
     (case result of
        Inr val \<Rightarrow> VMap [(VString ''id'', i), (VString ''result'', val)]
      | Inl msg \<Rightarrow>
          VMap [(VString ''id'', i),
                (VString ''error'', VMap [(VString ''code'', VInteger (- 32603)),
                                         (VString ''message'', VString msg)])])"

definition response_id :: "value \<Rightarrow> nat option" where
  "response_id v =
     (case map_get v ''method'' of
        Some _ \<Rightarrow> None
      | None \<Rightarrow> Option.bind (map_get v ''id'') as_u64)"

definition matched_id :: "AgentConn \<Rightarrow> value \<Rightarrow> nat option" where
  "matched_id c v =
     (case response_id v of
        None \<Rightarrow> None
      | Some i \<Rightarrow> (case hm_get (ac_pending c) i of None \<Rightarrow> None | Some _ \<Rightarrow> Some i))"

definition dispatch_frame ::
  "(string \<Rightarrow> value option \<Rightarrow> (string, value) result) option \<Rightarrow> value \<Rightarrow> AgentConn \<Rightarrow>
     AgentConn \<times> (AgentConnError, unit) result" where
  "dispatch_frame request_handler v c =
     (case matched_id c v of
        Some i \<Rightarrow>
          (c\<lparr>ac_pending := hm_remove i (ac_pending c),
             ac_results := ac_results c @ [(i, response_result v)]\<rparr>, Ok ())
      | None \<Rightarrow>
          (case (map_get v ''id'', request_handler) of
             (Some i, Some handler) \<Rightarrow>
               let method = (case Option.bind (map_get v ''method'') as_str of None \<Rightarrow> [] | Some m \<Rightarrow> m);
                   params = map_get v ''params''
               in (c\<lparr>ac_sent := ac_sent c @ [handler_response i (handler method params)]\<rparr>, Ok ())
           | _ \<Rightarrow>
               (case Option.bind (map_get v ''method'') as_str of
                  None \<Rightarrow> (c, Err (BadFrame ''notification missing method''))
                | Some method \<Rightarrow>
                    (c\<lparr>ac_notified := ac_notified c @
                         [\<lparr>nt_method = method, nt_params = map_get v ''params''\<rparr>]\<rparr>, Ok ()))))"

definition drain_pending :: "AgentConn \<Rightarrow> AgentConn" where
  "drain_pending c =
     c\<lparr>ac_pending := [],
       ac_results := ac_results c @ map (\<lambda>i. (i, Err ConnClosed)) (hm_keys (ac_pending c))\<rparr>"

definition close :: "AgentConn \<Rightarrow> AgentConn" where
  "close c = drain_pending (c\<lparr>ac_closed := True\<rparr>)"

type_synonym channel_event = "value MessageChannelEvent"

fun run_reader ::
  "(string \<Rightarrow> value option \<Rightarrow> (string, value) result) option \<Rightarrow> channel_event list \<Rightarrow> AgentConn \<Rightarrow>
     AgentConn" where
  "run_reader h [] c = c"
| "run_reader h (Message v # events) c = run_reader h events (fst (dispatch_frame h v c))"
| "run_reader h (MalformedMessage reason # events) c = run_reader h events c"
| "run_reader h (Disconnected reason # events) c = c"

text \<open>The reader task: the loop, then \<^verbatim>\<open>closed = true\<close> and the drain.\<close>

definition reader_task ::
  "(string \<Rightarrow> value option \<Rightarrow> (string, value) result) option \<Rightarrow> channel_event list \<Rightarrow> AgentConn \<Rightarrow>
     AgentConn" where
  "reader_task h events c = drain_pending ((run_reader h events c)\<lparr>ac_closed := True\<rparr>)"

definition conn_error_to_json :: "AgentConnError \<Rightarrow> JsonRpcError" where
  "conn_error_to_json e =
     (case e of
        AgentError code message \<Rightarrow> \<lparr>je_code = code, je_message = message, je_data = None\<rparr>
      | ConnClosed \<Rightarrow> \<lparr>je_code = - 32000, je_message = ''agent connection closed'', je_data = None\<rparr>
      | Connect m \<Rightarrow> \<lparr>je_code = - 32020, je_message = ''agent connect: '' @ m, je_data = None\<rparr>
      | Send m \<Rightarrow> \<lparr>je_code = - 32020, je_message = ''agent send: '' @ m, je_data = None\<rparr>
      | BadFrame m \<Rightarrow> \<lparr>je_code = - 32603, je_message = ''agent frame: '' @ m, je_data = None\<rparr>)"

section \<open>Every call is answered once\<close>

definition pending_ids :: "AgentConn \<Rightarrow> nat list" where
  "pending_ids c = hm_keys (ac_pending c)"

definition resolved_ids :: "AgentConn \<Rightarrow> nat list" where
  "resolved_ids c = map fst (ac_results c)"

inductive conn_step :: "AgentConn \<Rightarrow> AgentConn \<Rightarrow> bool" where
  invoke: "conn_step c (fst (invoke ok method params c))"
| invoke_send: "conn_step c (fst (invoke_send ok method params c))"
| notify: "conn_step c (fst (notify ok method v c))"
| frame: "conn_step c (fst (dispatch_frame h v c))"
| drain: "conn_step c (drain_pending (c\<lparr>ac_closed := True\<rparr>))"

lemmas conn_id_defs = pending_ids_def resolved_ids_def

lemma matched_id_pending: "matched_id c v = Some i \<Longrightarrow> i \<in> set (hm_keys (ac_pending c))"
  by (auto simp: matched_id_def dest: hm_get_key split: option.splits)

lemma dispatch_frame_unmatched:
  assumes "matched_id c v = None"
  shows "ac_pending (fst (dispatch_frame h v c)) = ac_pending c \<and>
     ac_results (fst (dispatch_frame h v c)) = ac_results c \<and>
     ac_next_id (fst (dispatch_frame h v c)) = ac_next_id c \<and>
     ac_closed (fst (dispatch_frame h v c)) = ac_closed c"
  using assms by (auto simp: dispatch_frame_def Let_def split: option.splits prod.splits)

lemma invoke_send_ids:
  assumes "ac_next_id c \<notin> set (pending_ids c)"
  shows "ac_next_id (fst (invoke_send ok m params c)) = Suc (ac_next_id c) \<and>
      pending_ids (fst (invoke_send ok m params c)) = pending_ids c @ [ac_next_id c] \<and>
      resolved_ids (fst (invoke_send ok m params c)) = resolved_ids c"
  using assms by (auto simp: invoke_send_def Let_def conn_id_defs hm_keys_insert_new)

lemma invoke_fst: "fst (invoke ok m params c) = (if ac_closed c then c else fst (invoke_send ok m params c))"
  by (simp add: invoke_def)

lemma dispatch_frame_ids:
  "ac_next_id (fst (dispatch_frame h v c)) = ac_next_id c \<and>
   (\<exists>ids. distinct ids \<and> set ids \<subseteq> set (pending_ids c) \<and>
      pending_ids (fst (dispatch_frame h v c)) = filter (\<lambda>i. i \<notin> set ids) (pending_ids c) \<and>
      resolved_ids (fst (dispatch_frame h v c)) = resolved_ids c @ ids)"
proof (cases "matched_id c v")
  case None
  then show ?thesis
    using dispatch_frame_unmatched [OF None, of h] by (intro conjI exI [of _ "[]"]) (simp_all add: conn_id_defs)
next
  case (Some i)
  then show ?thesis
    using matched_id_pending [OF Some]
    by (intro conjI exI [of _ "[i]"]) (simp_all add: dispatch_frame_def conn_id_defs hm_keys_remove)
qed

lemma drain_ids:
  "ac_next_id (drain_pending c) = ac_next_id c" "pending_ids (drain_pending c) = []"
  "resolved_ids (drain_pending c) = resolved_ids c @ pending_ids c"
  by (simp_all add: drain_pending_def conn_id_defs comp_def hm_keys_def)

interpretation conn_calls: call_table pending_ids resolved_ids ac_next_id conn_new conn_step
proof
  show "pending_ids conn_new = []" "resolved_ids conn_new = []"
    by (simp_all add: conn_id_defs conn_new_def hm_keys_def)
  fix c c' assume step: "conn_step c c'" and d: "distinct (pending_ids c)" "ac_next_id c \<notin> set (pending_ids c)"
  from step show "(ac_next_id c' = Suc (ac_next_id c) \<and> pending_ids c' = pending_ids c @ [ac_next_id c] \<and>
        resolved_ids c' = resolved_ids c) \<or>
      (ac_next_id c' = Suc (ac_next_id c) \<and> pending_ids c' = pending_ids c \<and>
        resolved_ids c' = resolved_ids c @ [ac_next_id c]) \<or>
      (ac_next_id c' = ac_next_id c \<and>
       (\<exists>ids. distinct ids \<and> set ids \<subseteq> set (pending_ids c) \<and>
          pending_ids c' = filter (\<lambda>i. i \<notin> set ids) (pending_ids c) \<and> resolved_ids c' = resolved_ids c @ ids))"
  proof cases
    case (invoke ok m params)
    show ?thesis
    proof (cases "ac_closed c")
      case True
      then show ?thesis using invoke by (intro disjI2 [OF disjI2] conjI exI [of _ "[]"]) (simp_all add: invoke_fst)
    next
      case False
      then show ?thesis using invoke invoke_send_ids [OF d(2)] by (simp add: invoke_fst)
    qed
  next
    case (invoke_send ok m params)
    then show ?thesis using invoke_send_ids [OF d(2)] by simp
  next
    case (notify ok m v)
    then show ?thesis by (intro disjI2 [OF disjI2] conjI exI [of _ "[]"]) (simp_all add: notify_def conn_id_defs)
  next
    case (frame h v)
    then show ?thesis using dispatch_frame_ids [of h v c] by (intro disjI2 [OF disjI2]) simp
  next
    case drain
    then show ?thesis
      using d(1) by (intro disjI2 [OF disjI2] conjI exI [of _ "pending_ids c"]) (simp_all add: drain_ids, simp_all add: conn_id_defs)
  qed
qed

abbreviation conn_reach :: "AgentConn \<Rightarrow> bool" where
  "conn_reach \<equiv> conn_calls.calls_reach"

lemma conn_next_new: "ac_next_id conn_new = 1"
  by (simp add: conn_new_def)

lemma run_reader_reach: "conn_reach c \<Longrightarrow> conn_reach (run_reader h events c)"
  by (induction h events c rule: run_reader.induct) (auto intro: conn_calls.calls_reach.step conn_step.frame)

section \<open>Properties\<close>

text \<open>C7. Every call on an agent connection is accounted for: in every reachable state each id
  handed out so far is either still pending or has received exactly one result, never both, and
  an incoming frame adds a result only for the pending call whose id it carries and only if the
  frame is not itself a request or notification.\<close>

theorem agent_calls_answered_once:
  assumes "conn_reach c"
  shows "distinct (resolved_ids c) \<and>
     (\<forall>i. 1 \<le> i \<and> i < ac_next_id c \<longrightarrow>
        (i \<in> set (hm_keys (ac_pending c))) \<noteq> (i \<in> set (resolved_ids c))) \<and>
     (ac_results (fst (dispatch_frame h v c)) \<noteq> ac_results c \<longrightarrow>
        map_get v ''method'' = None \<and>
        (\<exists>i. Option.bind (map_get v ''id'') as_u64 = Some i \<and> i \<in> set (hm_keys (ac_pending c)) \<and>
             ac_results (fst (dispatch_frame h v c)) = ac_results c @ [(i, response_result v)]))"
proof (intro conjI)
  show "distinct (resolved_ids c)" by (rule conn_calls.resolved_once [OF assms])
  show "\<forall>i. 1 \<le> i \<and> i < ac_next_id c \<longrightarrow>
        (i \<in> set (hm_keys (ac_pending c))) \<noteq> (i \<in> set (resolved_ids c))"
    using conn_calls.pending_or_resolved [OF assms] by (simp add: conn_next_new pending_ids_def)
  show "ac_results (fst (dispatch_frame h v c)) \<noteq> ac_results c \<longrightarrow>
        map_get v ''method'' = None \<and>
        (\<exists>i. Option.bind (map_get v ''id'') as_u64 = Some i \<and> i \<in> set (hm_keys (ac_pending c)) \<and>
             ac_results (fst (dispatch_frame h v c)) = ac_results c @ [(i, response_result v)])"
  proof (cases "matched_id c v")
    case None
    then show ?thesis using dispatch_frame_unmatched [OF None] by simp
  next
    case (Some i)
    then have "map_get v ''method'' = None" "Option.bind (map_get v ''id'') as_u64 = Some i"
      by (auto simp: matched_id_def response_id_def split: option.splits)
    then show ?thesis using matched_id_pending [OF Some] by (simp add: dispatch_frame_def Some)
  qed
qed

definition sample_call :: AgentConn where
  "sample_call = fst (invoke True ''process/read'' None conn_new)"

definition sample_answer :: "value" where
  "sample_answer = mp_map [(''id'', VInteger 1), (''result'', VBoolean True)]"

lemmas sample_conn_defs = sample_call_def sample_answer_def invoke_def invoke_send_def conn_new_def hm_insert_def hm_get_def
  hm_remove_def hm_keys_def resolved_ids_def dispatch_frame_def matched_id_def response_id_def
  response_result_def as_u64_def Let_def

theorem agent_calls_answered_once_witness:
  "ac_results (fst (dispatch_frame None sample_answer sample_call)) = [(1, Ok (VBoolean True))]"
proof -
  have r: "conn_reach sample_call" unfolding sample_call_def by (rule conn_calls.calls_reach.step [OF conn_calls.calls_reach.start conn_step.invoke])
  have "ac_results (fst (dispatch_frame None sample_answer sample_call)) \<noteq> ac_results sample_call"
    by (simp add: sample_conn_defs)
  then obtain i where "Option.bind (map_get sample_answer ''id'') as_u64 = Some i"
    "ac_results (fst (dispatch_frame None sample_answer sample_call)) =
       ac_results sample_call @ [(i, response_result sample_answer)]"
    using agent_calls_answered_once [OF r, of None sample_answer] by blast
  then show ?thesis by (simp add: sample_conn_defs)
qed

text \<open>When the connection to an agent ends, nobody is left waiting: whatever frames the
  reader saw before, after it has stopped every call made so far has a result (calls that were
  still pending get \<^verbatim>\<open>Closed\<close>), and a later call fails immediately without being
  written.\<close>

theorem agent_disconnect_resolves_all:
  assumes "conn_reach c"
  shows "ac_pending (reader_task h events c) = [] \<and>
     set (resolved_ids (reader_task h events c)) = {1..<ac_next_id (run_reader h events c)} \<and>
     (\<forall>i. i \<in> set (hm_keys (ac_pending (run_reader h events c))) \<longrightarrow>
        (i, Err ConnClosed) \<in> set (ac_results (reader_task h events c))) \<and>
     invoke ok method params (reader_task h events c) = (reader_task h events c, Err ConnClosed)"
proof -
  let ?c = "run_reader h events c"
  have "conn_reach (reader_task h events c)"
    unfolding reader_task_def by (rule conn_calls.calls_reach.step [OF run_reader_reach [OF assms] conn_step.drain])
  then have "set (resolved_ids (reader_task h events c)) = {1..<ac_next_id ?c}"
    using conn_calls.all_resolved [of "reader_task h events c"] by (simp add: reader_task_def drain_ids conn_next_new)
  then show ?thesis
    by (auto simp: reader_task_def drain_pending_def invoke_def)
qed

theorem agent_disconnect_resolves_all_witness:
  "ac_results (reader_task None [Disconnected None] sample_call) = [(1, Err ConnClosed)] \<and>
   set (resolved_ids (reader_task None [Disconnected None] sample_call)) = {1}"
proof -
  have r: "conn_reach sample_call" unfolding sample_call_def by (rule conn_calls.calls_reach.step [OF conn_calls.calls_reach.start conn_step.invoke])
  have "{1..<(2::nat)} = {1}" by auto
  then show ?thesis
    using agent_disconnect_resolves_all [OF r, of None "[Disconnected None]"]
    by (simp add: reader_task_def drain_pending_def sample_conn_defs)
qed

text \<open>A call that passed the check before the connection closed and sends after the drain waits
  for ever: it is pending on a closed connection whose reader has stopped.\<close>

lemma invoke_race_never_answered:
  assumes "conn_reach c" "\<not> ac_closed c"
    and c1_def: "c1 = fst (invoke_send True m params (reader_task h events c))"
  shows "conn_reach c1 \<and> ac_closed c1 \<and> pending_ids c1 = [ac_next_id (run_reader h events c)] \<and>
     snd (invoke_send True m params (reader_task h events c)) = Ok (ac_next_id (run_reader h events c))"
proof -
  have r: "conn_reach (reader_task h events c)"
    unfolding reader_task_def
    by (rule conn_calls.calls_reach.step [OF run_reader_reach [OF assms(1)] conn_step.drain])
  have "ac_next_id (reader_task h events c) = ac_next_id (run_reader h events c)"
    "pending_ids (reader_task h events c) = []" "ac_closed (reader_task h events c)"
    by (simp_all add: reader_task_def drain_ids) (simp add: drain_pending_def)
  then show ?thesis
    using conn_calls.calls_reach.step [OF r conn_step.invoke_send [of _ True m params]]
      invoke_send_ids [of "reader_task h events c" True m params]
    by (simp add: c1_def) (simp add: invoke_send_def Let_def)
qed

end
