(* ===== verification/Registry_Spec.thy ===== *)
theory Registry_Spec
  imports Prelude
begin

text \<open>
  The contract that the gateway's two per-agent registries share.  A registry stores
  entries under a pair (agent id, name); it can drop one entry and it can drop every entry
  of an agent.  \<open>AgentRegistry::kill\<close> relies on exactly this contract, so the
  consequences are proved once here and obtained for the HTTP proxy registry and for the
  TCP proxy registry by interpretation.
\<close>

locale agent_name_registry =
  fixes find_entry :: "'s \<Rightarrow> 'a \<times> 'n \<Rightarrow> 'e option"
    and drop_entry :: "'a \<Rightarrow> 'n \<Rightarrow> 's \<Rightarrow> 's \<times> bool"
    and drop_agent :: "'a \<Rightarrow> 's \<Rightarrow> 's \<times> nat"
    and reg_invar :: "'s \<Rightarrow> bool"
  assumes finite_entries: "reg_invar s \<Longrightarrow> finite {k. find_entry s k \<noteq> None}"
    and drop_entry_invar: "reg_invar s \<Longrightarrow> reg_invar (fst (drop_entry a n s))"
    and drop_agent_invar: "reg_invar s \<Longrightarrow> reg_invar (fst (drop_agent a s))"
    and drop_entry_find: "reg_invar s \<Longrightarrow>
          find_entry (fst (drop_entry a n s)) k = (if k = (a, n) then None else find_entry s k)"
    and drop_entry_result: "reg_invar s \<Longrightarrow>
          snd (drop_entry a n s) \<longleftrightarrow> find_entry s (a, n) \<noteq> None"
    and drop_agent_find: "reg_invar s \<Longrightarrow>
          find_entry (fst (drop_agent a s)) k = (if fst k = a then None else find_entry s k)"
    and drop_agent_count: "reg_invar s \<Longrightarrow>
          snd (drop_agent a s) = card {k. fst k = a \<and> find_entry s k \<noteq> None}"
begin

lemma drop_entry_twice:
  "reg_invar s \<Longrightarrow> \<not> snd (drop_entry a n (fst (drop_entry a n s)))"
  by (simp add: drop_entry_result drop_entry_invar drop_entry_find)

lemma drop_agent_twice:
  assumes "reg_invar s"
  shows "snd (drop_agent a (fst (drop_agent a s))) = 0"
proof -
  have "{k. fst k = a \<and> find_entry (fst (drop_agent a s)) k \<noteq> None} = {}"
    using assms by (auto simp: drop_agent_find)
  then show ?thesis
    unfolding drop_agent_count [OF drop_agent_invar [OF assms]] by (simp only: card.empty)
qed

lemma drop_entry_after_drop_agent:
  "reg_invar s \<Longrightarrow> \<not> snd (drop_entry a n (fst (drop_agent a s)))"
  by (simp add: drop_entry_result drop_agent_invar drop_agent_find)

lemma drop_agent_zero_iff:
  assumes "reg_invar s"
  shows "snd (drop_agent a s) = 0 \<longleftrightarrow> (\<forall>n. find_entry s (a, n) = None)"
proof -
  have "finite {k. fst k = a \<and> find_entry s k \<noteq> None}"
    by (rule finite_subset [OF _ finite_entries [OF assms]]) blast
  then show ?thesis
    by (auto simp: drop_agent_count [OF assms] simp del: not_None_eq)
qed

lemma drop_agents_commute:
  "reg_invar s \<Longrightarrow>
     find_entry (fst (drop_agent a (fst (drop_agent b s)))) k =
     find_entry (fst (drop_agent b (fst (drop_agent a s)))) k"
  by (simp add: drop_agent_find drop_agent_invar)

lemma drop_agent_other_count:
  assumes "reg_invar s" and "a \<noteq> b"
  shows "snd (drop_agent b (fst (drop_agent a s))) = snd (drop_agent b s)"
proof -
  have "{k. fst k = b \<and> find_entry (fst (drop_agent a s)) k \<noteq> None} =
        {k. fst k = b \<and> find_entry s k \<noteq> None}"
    using assms by (auto simp: drop_agent_find)
  then show ?thesis
    using assms by (simp add: drop_agent_count drop_agent_invar)
qed

end

text \<open>
  A registry that can also store: \<open>put_entry x a n\<close> is the state change of a successful
  registration with the further arguments \<open>x\<close>, \<open>put_ok x s\<close> what it needs of the
  state (a token or listener that is not in use), \<open>put_value\<close> the stored entry.
\<close>

locale agent_name_store = agent_name_registry find_entry drop_entry drop_agent reg_invar
  for find_entry :: "'s \<Rightarrow> 'a \<times> 'n \<Rightarrow> 'e option"
    and drop_entry :: "'a \<Rightarrow> 'n \<Rightarrow> 's \<Rightarrow> 's \<times> bool"
    and drop_agent :: "'a \<Rightarrow> 's \<Rightarrow> 's \<times> nat"
    and reg_invar :: "'s \<Rightarrow> bool" +
  fixes put_entry :: "'x \<Rightarrow> 'a \<Rightarrow> 'n \<Rightarrow> 's \<Rightarrow> 's"
    and put_ok :: "'x \<Rightarrow> 's \<Rightarrow> bool"
    and put_value :: "'x \<Rightarrow> 'a \<Rightarrow> 'n \<Rightarrow> 's \<Rightarrow> 'e"
  assumes put_invar: "\<lbrakk>reg_invar s; put_ok x s\<rbrakk> \<Longrightarrow> reg_invar (put_entry x a n s)"
    and put_find: "\<lbrakk>reg_invar s; put_ok x s\<rbrakk> \<Longrightarrow>
          find_entry (put_entry x a n s) k =
            (if k = (a, n) then Some (put_value x a n s) else find_entry s k)"
begin

lemma put_then_drop:
  "\<lbrakk>reg_invar s; put_ok x s\<rbrakk> \<Longrightarrow>
     snd (drop_entry a n (put_entry x a n s)) \<and>
     find_entry (fst (drop_entry a n (put_entry x a n s))) k =
       find_entry (fst (drop_entry a n s)) k"
  by (simp add: drop_entry_result drop_entry_find put_invar put_find)

lemma put_then_drop_agent:
  "\<lbrakk>reg_invar s; put_ok x s\<rbrakk> \<Longrightarrow>
     find_entry (fst (drop_agent a (put_entry x a n s))) k = find_entry (fst (drop_agent a s)) k"
  by (simp add: drop_agent_find put_invar put_find)

lemma put_other_agent_survives:
  "\<lbrakk>reg_invar s; put_ok x s; a \<noteq> b\<rbrakk> \<Longrightarrow>
     find_entry (fst (drop_agent b (put_entry x a n s))) (a, n) = Some (put_value x a n s)"
  by (simp add: drop_agent_find put_invar put_find)

end

end
