(* ===== verification/Proxy_Registry.thy ===== *)
theory Proxy_Registry
  imports Registry_Spec
begin

text \<open>
  The gateway's HTTP proxy registry
  (\<^verbatim>\<open>src/crates/nexal-gateway/src/proxy/registry.rs\<close>): two hash maps under one lock,
  token to entry and (agent id, name) to token.  Every public operation holds the write lock
  for its whole body and is one function on the pair of maps.  The UUID returned by
  \<^verbatim>\<open>generate_token\<close> comes from a third-party crate and is an argument of
  \<open>register\<close>; what the code relies on is that it is not in use.
\<close>

section \<open>State and operations\<close>

record ProxyEntry =
  pe_agent_id :: string
  pe_name :: string
  pe_upstream_url :: string
  pe_headers :: "(string, string) hashmap"
  pe_token :: string

record ProxyInner =
  by_token :: "(string, ProxyEntry) hashmap"
  index :: "(string \<times> string, string) hashmap"

definition proxy_new :: ProxyInner where
  "proxy_new = \<lparr>by_token = [], index = []\<rparr>"

text \<open>\<^verbatim>\<open>if let Some(t) = index.remove(key) { by_token.remove(t) }\<close>, the
  step that register, unregister and cleanup share; the flag says whether the key was there.\<close>

definition proxy_drop_key :: "string \<times> string \<Rightarrow> ProxyInner \<Rightarrow> ProxyInner \<times> bool" where
  "proxy_drop_key key inner =
     (case hm_get (index inner) key of
        None \<Rightarrow> (inner, False)
      | Some token \<Rightarrow>
          (inner\<lparr>index := hm_remove key (index inner),
                 by_token := hm_remove token (by_token inner)\<rparr>, True))"

definition proxy_register ::
  "string \<Rightarrow> string \<Rightarrow> string \<Rightarrow> string \<Rightarrow> (string, string) hashmap \<Rightarrow> ProxyInner \<Rightarrow>
     ProxyInner \<times> ProxyEntry" where
  "proxy_register token agent_id name upstream_url headers inner =
     (let key = (agent_id, name);
          inner = fst (proxy_drop_key key inner);
          entry = \<lparr>pe_agent_id = agent_id, pe_name = name, pe_upstream_url = upstream_url,
                   pe_headers = headers, pe_token = token\<rparr>;
          inner = inner\<lparr>index := hm_insert key token (index inner)\<rparr>;
          inner = inner\<lparr>by_token := hm_insert token entry (by_token inner)\<rparr>
      in (inner, entry))"

definition proxy_unregister :: "string \<Rightarrow> string \<Rightarrow> ProxyInner \<Rightarrow> ProxyInner \<times> bool" where
  "proxy_unregister agent_id name inner = proxy_drop_key (agent_id, name) inner"

definition proxy_cleanup_for_agent :: "string \<Rightarrow> ProxyInner \<Rightarrow> ProxyInner \<times> nat" where
  "proxy_cleanup_for_agent agent_id inner =
     (let to_remove = filter (\<lambda>(a, _). a = agent_id) (hm_keys (index inner))
      in (foldl (\<lambda>i key. fst (proxy_drop_key key i)) inner to_remove, length to_remove))"

definition proxy_lookup :: "string \<Rightarrow> ProxyInner \<Rightarrow> ProxyEntry option" where
  "proxy_lookup token inner = hm_get (by_token inner) token"

section \<open>Invariant and abstraction\<close>

definition entry_key :: "ProxyEntry \<Rightarrow> string \<times> string" where
  "entry_key e = (pe_agent_id e, pe_name e)"

definition proxy_inv :: "ProxyInner \<Rightarrow> bool" where
  "proxy_inv r \<longleftrightarrow> hm_wf (index r) \<and> hm_wf (by_token r) \<and>
     (\<forall>(k, t) \<in> set (index r).
        case hm_get (by_token r) t of None \<Rightarrow> False | Some e \<Rightarrow> entry_key e = k) \<and>
     (\<forall>(t, e) \<in> set (by_token r). pe_token e = t \<and> hm_get (index r) (entry_key e) = Some t)"

text \<open>The abstract state: what is registered under (agent id, name).\<close>

definition proxy_find :: "ProxyInner \<Rightarrow> string \<times> string \<Rightarrow> ProxyEntry option" where
  "proxy_find r k =
     (case hm_get (index r) k of None \<Rightarrow> None | Some t \<Rightarrow> hm_get (by_token r) t)"

lemma proxy_invD_index:
  "\<lbrakk>proxy_inv r; hm_get (index r) k = Some t\<rbrakk> \<Longrightarrow>
     \<exists>e. hm_get (by_token r) t = Some e \<and> entry_key e = k \<and> pe_token e = t"
  unfolding proxy_inv_def by (fastforce dest: hm_get_entry split: option.splits)

lemma proxy_invD_token:
  "\<lbrakk>proxy_inv r; hm_get (by_token r) t = Some e\<rbrakk> \<Longrightarrow>
     pe_token e = t \<and> hm_get (index r) (entry_key e) = Some t"
  unfolding proxy_inv_def by (fastforce dest: hm_get_entry)

lemma proxy_invI:
  assumes "hm_wf (index r)" and "hm_wf (by_token r)"
    and "\<And>k t. hm_get (index r) k = Some t \<Longrightarrow>
           \<exists>e. hm_get (by_token r) t = Some e \<and> entry_key e = k"
    and "\<And>t e. hm_get (by_token r) t = Some e \<Longrightarrow>
           pe_token e = t \<and> hm_get (index r) (entry_key e) = Some t"
  shows "proxy_inv r"
  using assms unfolding proxy_inv_def by (fastforce dest: hm_entry_get)

lemma proxy_inv_new [simp, invar_intros]: "proxy_inv proxy_new"
  by (simp add: proxy_inv_def proxy_new_def)

lemma proxy_find_lookup:
  assumes inv: "proxy_inv r"
  shows "proxy_lookup t r = Some e \<longleftrightarrow> proxy_find r (entry_key e) = Some e \<and> pe_token e = t"
    (is "?L \<longleftrightarrow> ?R")
proof
  assume ?L
  then show ?R
    using proxy_invD_token [OF inv, of t e] by (simp add: proxy_lookup_def proxy_find_def)
next
  assume R: ?R
  then obtain t' where "hm_get (index r) (entry_key e) = Some t'" "hm_get (by_token r) t' = Some e"
    by (auto simp: proxy_find_def split: option.splits)
  then show ?L
    using proxy_invD_token [OF inv, of t' e] R by (simp add: proxy_lookup_def)
qed

lemma proxy_drop_key_inv [simp, invar_intros]:
  assumes "proxy_inv r"
  shows "proxy_inv (fst (proxy_drop_key k r))"
proof (cases "hm_get (index r) k")
  case None
  with assms show ?thesis by (simp add: proxy_drop_key_def)
next
  case (Some t)
  obtain e where e: "hm_get (by_token r) t = Some e" "entry_key e = k"
    using proxy_invD_index [OF assms Some] by blast
  show ?thesis
  proof (rule proxy_invI)
    show "hm_wf (index (fst (proxy_drop_key k r)))" "hm_wf (by_token (fst (proxy_drop_key k r)))"
      using assms by (auto simp: proxy_drop_key_def Some proxy_inv_def)
  next
    fix k' t' assume "hm_get (index (fst (proxy_drop_key k r))) k' = Some t'"
    then have k': "k' \<noteq> k" "hm_get (index r) k' = Some t'"
      by (auto simp: proxy_drop_key_def Some split: if_splits)
    then have "t' \<noteq> t" using proxy_invD_index [OF assms k'(2)] e by auto
    then show "\<exists>e. hm_get (by_token (fst (proxy_drop_key k r))) t' = Some e \<and> entry_key e = k'"
      using proxy_invD_index [OF assms k'(2)] by (auto simp: proxy_drop_key_def Some)
  next
    fix t' e' assume "hm_get (by_token (fst (proxy_drop_key k r))) t' = Some e'"
    then have t': "t' \<noteq> t" "hm_get (by_token r) t' = Some e'"
      by (auto simp: proxy_drop_key_def Some split: if_splits)
    then show "pe_token e' = t' \<and>
        hm_get (index (fst (proxy_drop_key k r))) (entry_key e') = Some t'"
      using proxy_invD_token [OF assms t'(2)] Some by (auto simp: proxy_drop_key_def)
  qed
qed

lemma proxy_drop_key_find:
  assumes "proxy_inv r"
  shows "proxy_find (fst (proxy_drop_key k r)) k' = (if k' = k then None else proxy_find r k')"
proof (cases "hm_get (index r) k")
  case None
  then show ?thesis by (simp add: proxy_drop_key_def proxy_find_def)
next
  case (Some t)
  have "hm_get (index r) k' = Some t \<Longrightarrow> k' = k"
    using proxy_invD_index [OF assms Some] proxy_invD_index [OF assms, of k' t] by auto
  then show ?thesis
    by (cases "hm_get (index r) k'") (auto simp: proxy_drop_key_def proxy_find_def Some)
qed

lemma proxy_drop_key_result:
  "proxy_inv r \<Longrightarrow> snd (proxy_drop_key k r) \<longleftrightarrow> proxy_find r k \<noteq> None"
  using proxy_invD_index [of r k]
  by (cases "hm_get (index r) k") (auto simp: proxy_drop_key_def proxy_find_def)

lemma proxy_drop_keys:
  "proxy_inv r \<Longrightarrow>
     proxy_inv (foldl (\<lambda>i key. fst (proxy_drop_key key i)) r ks) \<and>
     proxy_find (foldl (\<lambda>i key. fst (proxy_drop_key key i)) r ks) k =
       (if k \<in> set ks then None else proxy_find r k)"
  by (induction ks arbitrary: r) (auto simp: proxy_drop_key_find)

lemma proxy_find_key:
  "proxy_inv r \<Longrightarrow> proxy_find r k \<noteq> None \<longleftrightarrow> k \<in> set (hm_keys (index r))"
  using hm_get_None_iff [of "index r" k] proxy_invD_index [of r k]
  by (cases "hm_get (index r) k") (auto simp: proxy_find_def)

lemma proxy_find_entry_key: "\<lbrakk>proxy_inv r; proxy_find r k = Some e\<rbrakk> \<Longrightarrow> entry_key e = k"
  using proxy_invD_index [of r k] by (cases "hm_get (index r) k") (auto simp: proxy_find_def)

text \<open>What registration relies on of the generated token.\<close>

definition token_fresh :: "string \<Rightarrow> ProxyInner \<Rightarrow> bool" where
  "token_fresh token r \<longleftrightarrow> token \<notin> set (hm_keys (by_token r))"

lemma proxy_insert_inv:
  assumes inv: "proxy_inv r" and idx: "hm_get (index r) (entry_key e) = None"
    and tok: "hm_get (by_token r) (pe_token e) = None"
  shows "proxy_inv (r\<lparr>index := hm_insert (entry_key e) (pe_token e) (index r),
                      by_token := hm_insert (pe_token e) e (by_token r)\<rparr>)" (is "proxy_inv ?r")
proof (rule proxy_invI)
  show "hm_wf (index ?r)" "hm_wf (by_token ?r)" using inv by (auto simp: proxy_inv_def)
next
  fix k t assume "hm_get (index ?r) k = Some t"
  then show "\<exists>e. hm_get (by_token ?r) t = Some e \<and> entry_key e = k"
    using tok by (auto dest!: proxy_invD_index [OF inv] split: if_splits)
next
  fix t e' assume "hm_get (by_token ?r) t = Some e'"
  then show "pe_token e' = t \<and> hm_get (index ?r) (entry_key e') = Some t"
    using idx by (auto dest!: proxy_invD_token [OF inv] split: if_splits)
qed

lemma proxy_drop_key_fresh:
  "token_fresh t r \<Longrightarrow> hm_get (by_token (fst (proxy_drop_key k r))) t = None"
  by (auto simp: token_fresh_def proxy_drop_key_def hm_get_None_iff hm_remove_keys
      split: option.splits)

lemma proxy_drop_key_index:
  "hm_get (index (fst (proxy_drop_key k r))) k = None"
  by (auto simp: proxy_drop_key_def split: option.splits)

lemma proxy_register_inv [invar_intros]:
  assumes "proxy_inv r" and "token_fresh t r"
  shows "proxy_inv (fst (proxy_register t a n u h r))"
  using proxy_insert_inv [where r = "fst (proxy_drop_key (a, n) r)" and
      e = "\<lparr>pe_agent_id = a, pe_name = n, pe_upstream_url = u, pe_headers = h, pe_token = t\<rparr>"]
    assms proxy_drop_key_fresh [OF assms(2), of "(a, n)"] proxy_drop_key_index [of "(a, n)" r]
  by (simp add: proxy_register_def Let_def entry_key_def)

lemma proxy_register_find:
  assumes "proxy_inv r" and "token_fresh t r"
  shows "proxy_find (fst (proxy_register t a n u h r)) k =
           (if k = (a, n) then Some (snd (proxy_register t a n u h r)) else proxy_find r k)"
proof -
  let ?r = "fst (proxy_drop_key (a, n) r)"
  have inv: "proxy_inv ?r" using assms by simp
  have "hm_get (index ?r) k \<noteq> Some t"
    using proxy_drop_key_fresh [OF assms(2)] proxy_invD_index [OF inv, of k t] by auto
  then have "k \<noteq> (a, n) \<Longrightarrow> proxy_find (fst (proxy_register t a n u h r)) k = proxy_find ?r k"
    by (auto simp: proxy_register_def Let_def proxy_find_def split: option.splits)
  moreover have "k \<noteq> (a, n) \<Longrightarrow> proxy_find ?r k = proxy_find r k"
    using proxy_drop_key_find [OF assms(1)] by simp
  ultimately show ?thesis
    by (auto simp: proxy_register_def Let_def proxy_find_def)
qed

interpretation http_reg: agent_name_store proxy_find proxy_unregister proxy_cleanup_for_agent
  proxy_inv
  "\<lambda>(t, u, h) a n r. fst (proxy_register t a n u h r)"
  "\<lambda>(t, u, h) r. token_fresh t r"
  "\<lambda>(t, u, h) a n r. snd (proxy_register t a n u h r)"
proof (unfold_locales, goal_cases)
  case (1 s)
  then show ?case using proxy_find_key by auto
next
  case (7 s a)
  let ?ks = "filter (\<lambda>(x, _). x = a) (hm_keys (index s))"
  have "distinct ?ks" using 7 by (simp add: proxy_inv_def hm_wf_def)
  moreover have "set ?ks = {k. fst k = a \<and> proxy_find s k \<noteq> None}"
    using proxy_find_key [OF 7] by auto
  ultimately show ?case
    by (simp add: proxy_cleanup_for_agent_def distinct_card flip: distinct_card)
next
  case (6 s a k)
  let ?ks = "filter (\<lambda>(x, _). x = a) (hm_keys (index s))"
  have "k \<in> set ?ks \<longleftrightarrow> fst k = a \<and> proxy_find s k \<noteq> None"
    unfolding proxy_find_key [OF 6] by auto
  then show ?case
    using proxy_drop_keys [OF 6, of ?ks k] by (auto simp: proxy_cleanup_for_agent_def Let_def)
qed (auto simp: proxy_unregister_def proxy_cleanup_for_agent_def proxy_drop_key_find
      proxy_drop_key_result proxy_drop_keys proxy_register_inv proxy_register_find Let_def
      split: prod.splits)

section \<open>Reachable registries\<close>

inductive proxy_reach :: "ProxyInner \<Rightarrow> bool" where
  new: "proxy_reach proxy_new"
| register: "\<lbrakk>proxy_reach r; token_fresh t r\<rbrakk> \<Longrightarrow> proxy_reach (fst (proxy_register t a n u h r))"
| unregister: "proxy_reach r \<Longrightarrow> proxy_reach (fst (proxy_unregister a n r))"
| cleanup: "proxy_reach r \<Longrightarrow> proxy_reach (fst (proxy_cleanup_for_agent a r))"

lemma proxy_reach_inv: "proxy_reach r \<Longrightarrow> proxy_inv r"
  by (induction rule: proxy_reach.induct)
     (simp_all add: proxy_register_inv http_reg.drop_entry_invar http_reg.drop_agent_invar)

lemma entry_key_register [simp]: "entry_key (snd (proxy_register t a n u h r)) = (a, n)"
  by (simp add: proxy_register_def Let_def entry_key_def)

lemma token_register [simp]: "pe_token (snd (proxy_register t a n u h r)) = t"
  by (simp add: proxy_register_def Let_def)

lemma proxy_index_find:
  assumes "proxy_inv r"
  shows "hm_get (index r) k = Some t \<longleftrightarrow> (\<exists>e. proxy_find r k = Some e \<and> pe_token e = t)"
proof (cases "hm_get (index r) k")
  case (Some t')
  then show ?thesis using proxy_invD_index [OF assms Some] by (auto simp: proxy_find_def)
qed (simp add: proxy_find_def)

lemma proxy_lookup_drop_key:
  "proxy_lookup t (fst (proxy_drop_key k r)) =
     (if hm_get (index r) k = Some t then None else proxy_lookup t r)"
  by (cases "hm_get (index r) k") (simp_all add: proxy_drop_key_def proxy_lookup_def)

lemma proxy_lookup_register:
  assumes "proxy_inv r"
  shows "proxy_lookup t' (fst (proxy_register t a n u h r)) =
     (if t' = t then Some (snd (proxy_register t a n u h r))
      else if \<exists>old. proxy_find r (a, n) = Some old \<and> pe_token old = t' then None
      else proxy_lookup t' r)"
  unfolding proxy_index_find [OF assms, symmetric]
  using proxy_lookup_drop_key [of t' "(a, n)" r]
  by (simp add: proxy_register_def Let_def proxy_lookup_def)

lemma proxy_lookup_drop_agent:
  assumes inv: "proxy_inv r"
  shows "proxy_lookup t (fst (proxy_cleanup_for_agent a r)) =
     (case proxy_lookup t r of None \<Rightarrow> None | Some e \<Rightarrow> if pe_agent_id e = a then None else Some e)"
    (is "?L = ?R")
proof -
  note lk' = proxy_find_lookup [OF http_reg.drop_agent_invar [OF inv]]
  note lk = proxy_find_lookup [OF inv]
  have "?L = Some e \<longleftrightarrow> ?R = Some e" for e
    unfolding lk' http_reg.drop_agent_find [OF inv] using lk [of t e]
    by (auto simp: entry_key_def split: option.splits)
  then show ?thesis by (cases ?R; cases ?L) auto
qed

section \<open>Properties\<close>

text \<open>In every reachable registry a token of a proxy URL resolves to an entry exactly
  when that entry is the current registration of its (agent id, name) and carries this token:
  the two maps never disagree, and no stale or foreign token resolves.\<close>

theorem proxy_token_resolution:
  assumes "proxy_reach r"
  shows "proxy_lookup t r = Some e \<longleftrightarrow> proxy_find r (entry_key e) = Some e \<and> pe_token e = t"
  using proxy_find_lookup [OF proxy_reach_inv [OF assms]] .

theorem proxy_token_resolution_witness:
  "proxy_lookup ''t1'' (fst (proxy_register ''t1'' ''a'' ''n'' ''u'' [] proxy_new)) =
     Some \<lparr>pe_agent_id = ''a'', pe_name = ''n'', pe_upstream_url = ''u'', pe_headers = [],
           pe_token = ''t1''\<rparr>"
proof -
  have "token_fresh ''t1'' proxy_new" by (simp add: token_fresh_def proxy_new_def hm_keys_def)
  from proxy_token_resolution [OF proxy_reach.register [OF proxy_reach.new this]] show ?thesis
    by (simp add: proxy_register_def proxy_drop_key_def proxy_new_def proxy_find_def entry_key_def
        Let_def)
qed

text \<open>Registering makes the new token resolve to the new entry, makes the
  token of a previous registration of the same (agent id, name) unknown, and leaves the
  resolution of every other token unchanged.\<close>

theorem proxy_register_rotates_token:
  assumes "proxy_reach r"
  shows "proxy_lookup t' (fst (proxy_register t a n u h r)) =
     (if t' = t then Some \<lparr>pe_agent_id = a, pe_name = n, pe_upstream_url = u, pe_headers = h,
                          pe_token = t\<rparr>
      else if \<exists>old. proxy_find r (a, n) = Some old \<and> pe_token old = t' then None
      else proxy_lookup t' r)"
  unfolding proxy_lookup_register [OF proxy_reach_inv [OF assms]]
  by (simp add: proxy_register_def Let_def)

theorem proxy_register_rotates_token_witness:
  "proxy_lookup ''t1'' (fst (proxy_register ''t2'' ''a'' ''n'' ''v'' []
     (fst (proxy_register ''t1'' ''a'' ''n'' ''u'' [] proxy_new)))) = None"
proof -
  have f1: "token_fresh ''t1'' proxy_new" by (simp add: token_fresh_def proxy_new_def hm_keys_def)
  show ?thesis
    unfolding proxy_register_rotates_token [OF proxy_reach.register [OF proxy_reach.new f1]]
    by (simp add: proxy_find_def proxy_register_def proxy_drop_key_def proxy_new_def Let_def)
qed

text \<open>Cleaning up an agent (what killing it does) makes exactly that agent's tokens
  unresolvable, keeps every other agent's tokens, returns the number of registrations removed,
  and a second clean-up removes nothing.\<close>

theorem proxy_cleanup_exact:
  assumes "proxy_reach r"
  shows "proxy_lookup t (fst (proxy_cleanup_for_agent a r)) =
           (case proxy_lookup t r of None \<Rightarrow> None
            | Some e \<Rightarrow> if pe_agent_id e = a then None else Some e) \<and>
         snd (proxy_cleanup_for_agent a r) = card {k. fst k = a \<and> proxy_find r k \<noteq> None} \<and>
         snd (proxy_cleanup_for_agent a (fst (proxy_cleanup_for_agent a r))) = 0"
  using proxy_reach_inv [OF assms]
  by (simp only: proxy_lookup_drop_agent http_reg.drop_agent_count http_reg.drop_agent_twice simp_thms)

theorem proxy_cleanup_exact_witness:
  "snd (proxy_cleanup_for_agent ''a'' (fst (proxy_cleanup_for_agent ''a''
     (fst (proxy_register ''t1'' ''a'' ''n'' ''u'' [] proxy_new))))) = 0 \<and>
   snd (proxy_cleanup_for_agent ''a'' (fst (proxy_register ''t1'' ''a'' ''n'' ''u'' [] proxy_new))) = 1"
proof -
  have f1: "token_fresh ''t1'' proxy_new" by (simp add: token_fresh_def proxy_new_def hm_keys_def)
  show ?thesis
    using proxy_cleanup_exact [of _ "''t1''" "''a''",
        OF proxy_reach.register [OF proxy_reach.new f1, of "''a''" "''n''" "''u''" "[]"]]
    by (simp add: proxy_cleanup_for_agent_def proxy_register_def proxy_drop_key_def proxy_new_def
        hm_keys_def hm_insert_def Let_def)
qed

end
