(* ===== verification/Tcp_Proxy.thy ===== *)
theory Tcp_Proxy
  imports Registry_Spec
begin

text \<open>
  The gateway's TCP stream proxies (\<^verbatim>\<open>src/crates/nexal-gateway/src/proxy/tcp.rs\<close>).
  The state is the registry map together with the listener tasks it has spawned: a
  \<^verbatim>\<open>CancellationToken\<close> is shared between an entry and its task, so it is modelled by
  the position of the task in the list of all tasks ever spawned.  Binding a socket and asking
  for its address are operating-system calls and enter as their results.
\<close>

section \<open>State and operations\<close>

record TcpProxyEntry =
  te_listen_addr :: string
  te_cancel :: nat

record TcpTask =
  tk_listen :: string
  tk_upstream :: string
  tk_name :: string
  tk_cancelled :: bool
  tk_stopped :: bool
  tk_relays :: "string list"

record TcpProxyRegistry =
  tcp_inner :: "(string \<times> string, TcpProxyEntry) hashmap"
  tcp_tasks :: "TcpTask list"

definition tcp_new :: TcpProxyRegistry where
  "tcp_new = \<lparr>tcp_inner = [], tcp_tasks = []\<rparr>"

definition cancel_token :: "nat \<Rightarrow> TcpProxyRegistry \<Rightarrow> TcpProxyRegistry" where
  "cancel_token i s =
     (if i < length (tcp_tasks s)
      then s\<lparr>tcp_tasks := (tcp_tasks s)[i := (tcp_tasks s ! i)\<lparr>tk_cancelled := True\<rparr>]\<rparr>
      else s)"

text \<open>Removing a key cancels the listener that was stored under it.\<close>

definition tcp_drop_key :: "string \<times> string \<Rightarrow> TcpProxyRegistry \<Rightarrow> TcpProxyRegistry \<times> bool" where
  "tcp_drop_key key s =
     (case hm_get (tcp_inner s) key of
        None \<Rightarrow> (s, False)
      | Some e \<Rightarrow> (cancel_token (te_cancel e) (s\<lparr>tcp_inner := hm_remove key (tcp_inner s)\<rparr>), True))"

definition tcp_spawn :: "string \<Rightarrow> string \<Rightarrow> string \<Rightarrow> TcpProxyRegistry \<Rightarrow> TcpProxyRegistry \<times> nat" where
  "tcp_spawn listen_addr upstream proxy_name s =
     (s\<lparr>tcp_tasks := tcp_tasks s @ [\<lparr>tk_listen = listen_addr, tk_upstream = upstream,
          tk_name = proxy_name, tk_cancelled = False, tk_stopped = False, tk_relays = []\<rparr>]\<rparr>,
      length (tcp_tasks s))"

definition tcp_register ::
  "(string, unit) result \<Rightarrow> (string, string) result \<Rightarrow> string \<Rightarrow> string \<Rightarrow> string \<Rightarrow>
     TcpProxyRegistry \<Rightarrow> TcpProxyRegistry \<times> (string, string) result" where
  "tcp_register bind local_addr agent_id name upstream_addr s =
     (case bind of
        Inl e \<Rightarrow> (s, Err (''bind tcp proxy: '' @ e))
      | Inr _ \<Rightarrow>
          (case local_addr of
             Inl e \<Rightarrow> (s, Err (''local_addr: '' @ e))
           | Inr listen_addr \<Rightarrow>
               let (s, cancel) = tcp_spawn listen_addr upstream_addr (agent_id @ ''/'' @ name) s;
                   key = (agent_id, name);
                   s = fst (tcp_drop_key key s);
                   entry = \<lparr>te_listen_addr = listen_addr, te_cancel = cancel\<rparr>
               in (s\<lparr>tcp_inner := hm_insert key entry (tcp_inner s)\<rparr>, Ok listen_addr)))"

definition tcp_unregister :: "string \<Rightarrow> string \<Rightarrow> TcpProxyRegistry \<Rightarrow> TcpProxyRegistry \<times> bool" where
  "tcp_unregister agent_id name s = tcp_drop_key (agent_id, name) s"

definition tcp_cleanup_for_agent :: "string \<Rightarrow> TcpProxyRegistry \<Rightarrow> TcpProxyRegistry \<times> nat" where
  "tcp_cleanup_for_agent agent_id s =
     (let to_remove = filter (\<lambda>(a, _). a = agent_id) (hm_keys (tcp_inner s))
      in (foldl (\<lambda>r key. fst (tcp_drop_key key r)) s to_remove, length to_remove))"

definition get_listen_addr :: "string \<Rightarrow> string \<Rightarrow> TcpProxyRegistry \<Rightarrow> string option" where
  "get_listen_addr agent_id name s =
     map_option te_listen_addr (hm_get (tcp_inner s) (agent_id, name))"

text \<open>The listener loop \<^verbatim>\<open>run_tcp_proxy\<close>: one iteration per event of its
  \<^verbatim>\<open>select!\<close>.  An accepted client starts a relay to the upstream; an accept error or
  the cancelled token ends the loop.\<close>

datatype accept_event = Accepted string | AcceptError | Cancelled

definition run_tcp_proxy_step :: "accept_event \<Rightarrow> TcpTask \<Rightarrow> TcpTask" where
  "run_tcp_proxy_step ev task =
     (if tk_stopped task then task
      else case ev of
        Accepted peer \<Rightarrow> task\<lparr>tk_relays := tk_relays task @ [peer]\<rparr>
      | AcceptError \<Rightarrow> task\<lparr>tk_stopped := True\<rparr>
      | Cancelled \<Rightarrow> if tk_cancelled task then task\<lparr>tk_stopped := True\<rparr> else task)"

definition tcp_task_event :: "nat \<Rightarrow> accept_event \<Rightarrow> TcpProxyRegistry \<Rightarrow> TcpProxyRegistry" where
  "tcp_task_event i ev s =
     (if i < length (tcp_tasks s)
      then s\<lparr>tcp_tasks := (tcp_tasks s)[i := run_tcp_proxy_step ev (tcp_tasks s ! i)]\<rparr>
      else s)"

section \<open>Invariant\<close>

definition live_task :: "TcpProxyRegistry \<Rightarrow> nat \<Rightarrow> bool" where
  "live_task s i \<longleftrightarrow> i < length (tcp_tasks s) \<and> \<not> tk_cancelled (tcp_tasks s ! i)"

definition tcp_find :: "TcpProxyRegistry \<Rightarrow> string \<times> string \<Rightarrow> TcpProxyEntry option" where
  "tcp_find s k = hm_get (tcp_inner s) k"

definition tcp_inv :: "TcpProxyRegistry \<Rightarrow> bool" where
  "tcp_inv s \<longleftrightarrow> hm_wf (tcp_inner s) \<and>
     (\<forall>(k, e) \<in> set (tcp_inner s). live_task s (te_cancel e) \<and>
        tk_listen (tcp_tasks s ! te_cancel e) = te_listen_addr e) \<and>
     (\<forall>(k, e) \<in> set (tcp_inner s). \<forall>(k', e') \<in> set (tcp_inner s).
        te_cancel e = te_cancel e' \<longrightarrow> k = k') \<and>
     (\<forall>i < length (tcp_tasks s). \<not> tk_cancelled (tcp_tasks s ! i) \<longrightarrow>
        (\<exists>(k, e) \<in> set (tcp_inner s). te_cancel e = i))"

lemma tcp_inv_iff:
  "tcp_inv s \<longleftrightarrow> hm_wf (tcp_inner s) \<and>
     (\<forall>k e. tcp_find s k = Some e \<longrightarrow> live_task s (te_cancel e) \<and>
        tk_listen (tcp_tasks s ! te_cancel e) = te_listen_addr e) \<and>
     (\<forall>k e k' e'. tcp_find s k = Some e \<and> tcp_find s k' = Some e' \<and> te_cancel e = te_cancel e' \<longrightarrow>
        k = k') \<and>
     (\<forall>i. live_task s i \<longrightarrow> (\<exists>k e. tcp_find s k = Some e \<and> te_cancel e = i))"
proof (cases "hm_wf (tcp_inner s)")
  case True
  have "(k, e) \<in> set (tcp_inner s) \<longleftrightarrow> tcp_find s k = Some e" for k e
    using hm_entry_get [OF True] hm_get_entry by (fastforce simp: tcp_find_def)
  with True show ?thesis unfolding tcp_inv_def live_task_def by (simp add: Ball_def Bex_def) blast
qed (simp add: tcp_inv_def)

lemma tcp_invD:
  assumes "tcp_inv s"
  shows "hm_wf (tcp_inner s)"
    and "tcp_find s k = Some e \<Longrightarrow> live_task s (te_cancel e)"
    and "tcp_find s k = Some e \<Longrightarrow> tk_listen (tcp_tasks s ! te_cancel e) = te_listen_addr e"
    and "\<lbrakk>tcp_find s k = Some e; tcp_find s k' = Some e'; te_cancel e = te_cancel e'\<rbrakk> \<Longrightarrow> k = k'"
    and "live_task s i \<Longrightarrow> \<exists>k e. tcp_find s k = Some e \<and> te_cancel e = i"
  using assms unfolding tcp_inv_iff by blast+

lemma tcp_invI:
  assumes "hm_wf (tcp_inner s)"
    and "\<And>k e. tcp_find s k = Some e \<Longrightarrow>
           live_task s (te_cancel e) \<and> tk_listen (tcp_tasks s ! te_cancel e) = te_listen_addr e"
    and "\<And>k e k' e'. \<lbrakk>tcp_find s k = Some e; tcp_find s k' = Some e'; te_cancel e = te_cancel e'\<rbrakk>
           \<Longrightarrow> k = k'"
    and "\<And>i. live_task s i \<Longrightarrow> \<exists>k e. tcp_find s k = Some e \<and> te_cancel e = i"
  shows "tcp_inv s"
  using assms unfolding tcp_inv_iff by blast

lemma tcp_inv_new [simp, invar_intros]: "tcp_inv tcp_new"
  by (simp add: tcp_inv_def tcp_new_def)

lemma live_cancel [simp]: "live_task (cancel_token j s) i \<longleftrightarrow> live_task s i \<and> i \<noteq> j"
  by (auto simp: live_task_def cancel_token_def nth_list_update)

lemma listen_cancel [simp]:
  "tk_listen (tcp_tasks (cancel_token j s) ! i) = tk_listen (tcp_tasks s ! i)"
  by (cases "i = j") (auto simp: cancel_token_def)

lemma inner_cancel [simp]: "tcp_inner (cancel_token j s) = tcp_inner s"
  by (simp add: cancel_token_def)

lemma tcp_drop_key_find [simp]:
  "tcp_find (fst (tcp_drop_key k s)) k' = (if k' = k then None else tcp_find s k')"
  by (auto simp: tcp_drop_key_def tcp_find_def split: option.splits)

lemma tcp_drop_key_live:
  "live_task (fst (tcp_drop_key k s)) i \<longleftrightarrow>
     live_task s i \<and> (\<forall>e. tcp_find s k = Some e \<longrightarrow> te_cancel e \<noteq> i)"
  by (auto simp: tcp_drop_key_def tcp_find_def live_task_def [of "tcp_inner_update _ _"]
      live_task_def [of s] split: option.splits)

lemma tcp_drop_key_listen [simp]:
  "tk_listen (tcp_tasks (fst (tcp_drop_key k s)) ! i) = tk_listen (tcp_tasks s ! i)"
  by (auto simp: tcp_drop_key_def split: option.splits)

lemma tcp_drop_key_wf: "hm_wf (tcp_inner s) \<Longrightarrow> hm_wf (tcp_inner (fst (tcp_drop_key k s)))"
  by (auto simp: tcp_drop_key_def split: option.splits)

lemma tcp_drop_key_inv [simp, invar_intros]:
  assumes "tcp_inv s"
  shows "tcp_inv (fst (tcp_drop_key k s))"
proof (rule tcp_invI, goal_cases)
  case 1
  show ?case using tcp_drop_key_wf [OF tcp_invD(1) [OF assms]] .
next
  case (2 k' e)
  then have "k' \<noteq> k" and e: "tcp_find s k' = Some e" by (auto split: if_splits)
  moreover have "te_cancel e0 \<noteq> te_cancel e" if "tcp_find s k = Some e0" for e0
    using tcp_invD(4) [OF assms that e] \<open>k' \<noteq> k\<close> by blast
  ultimately show ?case
    using tcp_invD(2,3) [OF assms e] by (simp add: tcp_drop_key_live)
next
  case (3 k1 e1 k2 e2)
  then show ?case using tcp_invD(4) [OF assms] by (simp split: if_splits)
next
  case (4 i)
  then obtain k' e where e: "tcp_find s k' = Some e" "te_cancel e = i"
    and "\<forall>e. tcp_find s k = Some e \<longrightarrow> te_cancel e \<noteq> i"
    using tcp_invD(5) [OF assms] unfolding tcp_drop_key_live by blast
  then have "k' \<noteq> k" by blast
  with e show ?case by (intro exI [of _ k'] exI [of _ e]) simp
qed

lemma tcp_drop_key_result: "snd (tcp_drop_key k s) \<longleftrightarrow> tcp_find s k \<noteq> None"
  by (auto simp: tcp_drop_key_def tcp_find_def split: option.splits)

lemma tcp_drop_keys:
  "tcp_inv s \<Longrightarrow>
     tcp_inv (foldl (\<lambda>r key. fst (tcp_drop_key key r)) s ks) \<and>
     tcp_find (foldl (\<lambda>r key. fst (tcp_drop_key key r)) s ks) k =
       (if k \<in> set ks then None else tcp_find s k)"
  by (induction ks arbitrary: s) auto

lemma tcp_find_key: "tcp_find s k \<noteq> None \<longleftrightarrow> k \<in> set (hm_keys (tcp_inner s))"
  by (simp add: tcp_find_def hm_get_None_iff)

text \<open>A successful registration, as a state change.\<close>

lemma tcp_register_ok:
  "tcp_register (Ok ()) (Ok addr) a n u s =
     (let s1 = fst (tcp_drop_key (a, n) (fst (tcp_spawn addr u (a @ ''/'' @ n) s)))
      in (s1\<lparr>tcp_inner := hm_insert (a, n) \<lparr>te_listen_addr = addr, te_cancel = length (tcp_tasks s)\<rparr>
              (tcp_inner s1)\<rparr>, Ok addr))"
  by (simp add: tcp_register_def tcp_spawn_def Let_def)

lemma tcp_register_find:
  "tcp_find (fst (tcp_register (Ok ()) (Ok addr) a n u s)) k =
     (if k = (a, n) then Some \<lparr>te_listen_addr = addr, te_cancel = length (tcp_tasks s)\<rparr>
      else tcp_find s k)"
proof -
  let ?s = "fst (tcp_spawn addr u (a @ ''/'' @ n) s)"
  have "tcp_find ?s k = tcp_find s k" by (simp add: tcp_find_def tcp_spawn_def)
  moreover have "k \<noteq> (a, n) \<Longrightarrow> tcp_find (fst (tcp_drop_key (a, n) ?s)) k = tcp_find ?s k" by simp
  ultimately show ?thesis unfolding tcp_register_ok by (simp add: tcp_find_def Let_def)
qed

lemma tcp_spawn_live:
  "live_task (fst (tcp_spawn addr u p s)) i \<longleftrightarrow> live_task s i \<or> i = length (tcp_tasks s)"
  by (auto simp: live_task_def tcp_spawn_def nth_append)

lemma tcp_register_live:
  "live_task (fst (tcp_register (Ok ()) (Ok addr) a n u s)) i \<longleftrightarrow>
     (live_task s i \<or> i = length (tcp_tasks s)) \<and> (\<forall>e. tcp_find s (a, n) = Some e \<longrightarrow> te_cancel e \<noteq> i)"
proof -
  let ?s = "fst (tcp_spawn addr u (a @ ''/'' @ n) s)"
  have "live_task (fst (tcp_register (Ok ()) (Ok addr) a n u s)) i \<longleftrightarrow>
        live_task (fst (tcp_drop_key (a, n) ?s)) i"
    unfolding tcp_register_ok by (simp add: live_task_def Let_def)
  moreover have "tcp_find ?s (a, n) = tcp_find s (a, n)" by (simp add: tcp_find_def tcp_spawn_def)
  ultimately show ?thesis by (simp only: tcp_drop_key_live tcp_spawn_live)
qed

lemma tcp_register_listen:
  "tk_listen (tcp_tasks (fst (tcp_register (Ok ()) (Ok addr) a n u s)) ! i) =
     tk_listen (tcp_tasks (fst (tcp_spawn addr u (a @ ''/'' @ n) s)) ! i)"
  unfolding tcp_register_ok by (simp add: Let_def)

lemma tcp_register_inv:
  assumes "tcp_inv s"
  shows "tcp_inv (fst (tcp_register (Ok ()) (Ok addr) a n u s))" (is "tcp_inv ?s")
proof (rule tcp_invI, goal_cases)
  case 1
  have "hm_wf (tcp_inner (fst (tcp_spawn addr u (a @ ''/'' @ n) s)))"
    using tcp_invD(1) [OF assms] by (simp add: tcp_spawn_def)
  then show ?case unfolding tcp_register_ok by (simp add: Let_def tcp_drop_key_wf)
next
  case (2 k e)
  have old: "te_cancel e0 < length (tcp_tasks s)" if "tcp_find s k0 = Some e0" for k0 e0
    using tcp_invD(2) [OF assms that] by (simp add: live_task_def)
  have l: "live_task ?s (te_cancel e)"
  proof (cases "k = (a, n)")
    case True
    then show ?thesis using 2 by (auto simp: tcp_register_find tcp_register_live dest: old)
  next
    case False
    then have e: "tcp_find s k = Some e" using 2 by (simp add: tcp_register_find)
    then show ?thesis
      using tcp_invD(2) [OF assms e] tcp_invD(4) [OF assms _ e] False
      unfolding tcp_register_live by blast
  qed
  moreover have "tk_listen (tcp_tasks ?s ! te_cancel e) = te_listen_addr e"
    using 2 old tcp_invD(3) [OF assms]
    by (auto simp: tcp_register_find tcp_register_listen tcp_spawn_def nth_append split: if_splits)
  ultimately show ?case ..
next
  case (3 k e k' e')
  have old: "te_cancel e0 \<noteq> length (tcp_tasks s)" if "tcp_find s k0 = Some e0" for k0 e0
    using tcp_invD(2) [OF assms that] by (simp add: live_task_def)
  show ?case
    using 3 old [of k e] old [of k' e'] tcp_invD(4) [OF assms, of k e k' e']
    by (auto simp: tcp_register_find split: if_splits)
next
  case (4 i)
  then consider "i = length (tcp_tasks s)" |
    k e where "tcp_find s k = Some e" "te_cancel e = i" "k \<noteq> (a, n)"
    using tcp_invD(5) [OF assms, of i] unfolding tcp_register_live by blast
  then show ?case
  proof cases
    case 1
    then show ?thesis by (intro exI [of _ "(a, n)"]) (simp add: tcp_register_find)
  next
    case (2 k e)
    then show ?thesis by (intro exI [of _ k] exI [of _ e]) (simp add: tcp_register_find)
  qed
qed

interpretation tcp_reg: agent_name_store tcp_find tcp_unregister tcp_cleanup_for_agent tcp_inv
  "\<lambda>(addr, u) a n s. fst (tcp_register (Ok ()) (Ok addr) a n u s)"
  "\<lambda>_ _. True"
  "\<lambda>(addr, u) a n s. \<lparr>te_listen_addr = addr, te_cancel = length (tcp_tasks s)\<rparr>"
proof (unfold_locales, goal_cases)
  case (1 s)
  then show ?case using tcp_find_key by auto
next
  case (7 s a)
  let ?ks = "filter (\<lambda>(x, _). x = a) (hm_keys (tcp_inner s))"
  have "distinct ?ks" using tcp_invD(1) [OF 7] by (simp add: hm_wf_def)
  moreover have "set ?ks = {k. fst k = a \<and> tcp_find s k \<noteq> None}"
    using tcp_find_key by auto
  ultimately show ?case
    by (simp add: tcp_cleanup_for_agent_def distinct_card flip: distinct_card)
next
  case (6 s a k)
  let ?ks = "filter (\<lambda>(x, _). x = a) (hm_keys (tcp_inner s))"
  have "k \<in> set ?ks \<longleftrightarrow> fst k = a \<and> tcp_find s k \<noteq> None"
    unfolding tcp_find_key by auto
  then show ?case
    using tcp_drop_keys [OF 6, of ?ks k] by (auto simp: tcp_cleanup_for_agent_def Let_def)
qed (auto simp: tcp_unregister_def tcp_cleanup_for_agent_def tcp_drop_key_result
      tcp_drop_keys tcp_register_inv tcp_register_find Let_def split: prod.splits)

section \<open>Reachable registries\<close>

inductive tcp_reach :: "TcpProxyRegistry \<Rightarrow> bool" where
  new: "tcp_reach tcp_new"
| register: "tcp_reach s \<Longrightarrow> tcp_reach (fst (tcp_register bind addr a n u s))"
| unregister: "tcp_reach s \<Longrightarrow> tcp_reach (fst (tcp_unregister a n s))"
| cleanup: "tcp_reach s \<Longrightarrow> tcp_reach (fst (tcp_cleanup_for_agent a s))"
| task: "tcp_reach s \<Longrightarrow> tcp_reach (tcp_task_event i ev s)"

lemma run_tcp_proxy_step_keeps [simp]:
  "tk_cancelled (run_tcp_proxy_step ev t) = tk_cancelled t"
  "tk_listen (run_tcp_proxy_step ev t) = tk_listen t"
  by (auto simp: run_tcp_proxy_step_def split: accept_event.splits)

lemma tcp_task_event_inv:
  assumes "tcp_inv s"
  shows "tcp_inv (tcp_task_event i ev s)"
proof -
  have "tcp_find (tcp_task_event i ev s) = tcp_find s"
    by (auto simp: tcp_find_def tcp_task_event_def)
  moreover have "live_task (tcp_task_event i ev s) = live_task s"
    by (rule ext) (auto simp: live_task_def tcp_task_event_def nth_list_update)
  moreover have "tk_listen (tcp_tasks (tcp_task_event i ev s) ! j) = tk_listen (tcp_tasks s ! j)" for j
    by (cases "j = i") (auto simp: tcp_task_event_def)
  moreover have "tcp_inner (tcp_task_event i ev s) = tcp_inner s" by (simp add: tcp_task_event_def)
  ultimately show ?thesis using assms unfolding tcp_inv_iff by simp
qed

lemma tcp_register_cases:
  "fst (tcp_register bind addr a n u s) = s \<or>
   (\<exists>x. bind = Ok () \<and> addr = Ok x)"
  by (auto simp: tcp_register_def split: sum.splits)

lemma tcp_reach_inv: "tcp_reach s \<Longrightarrow> tcp_inv s"
proof (induction rule: tcp_reach.induct)
  case (register s bind addr a n u)
  then show ?case using tcp_register_cases [of bind addr a n u s] by (auto simp: tcp_register_inv)
qed (simp_all add: tcp_reg.drop_entry_invar tcp_reg.drop_agent_invar tcp_task_event_inv)

section \<open>Properties\<close>

text \<open>No listener is leaked or orphaned: in every reachable state the listener tasks whose
  cancellation token is not cancelled are exactly the ones owned by a registered entry, each by
  one (agent id, name), and \<^verbatim>\<open>get_listen_addr\<close> reports the address that task
  listens on.\<close>

theorem tcp_listeners_owned:
  assumes "tcp_reach s"
  shows "(live_task s i \<longleftrightarrow> (\<exists>!k. \<exists>e. tcp_find s k = Some e \<and> te_cancel e = i)) \<and>
    (get_listen_addr a n s = Some addr \<longrightarrow>
      (\<exists>e. tcp_find s (a, n) = Some e \<and> live_task s (te_cancel e) \<and>
           tk_listen (tcp_tasks s ! te_cancel e) = addr))"
proof
  note inv = tcp_invD [OF tcp_reach_inv [OF assms]]
  show "live_task s i \<longleftrightarrow> (\<exists>!k. \<exists>e. tcp_find s k = Some e \<and> te_cancel e = i)"
    using inv(2,4,5) by metis
  show "get_listen_addr a n s = Some addr \<longrightarrow>
      (\<exists>e. tcp_find s (a, n) = Some e \<and> live_task s (te_cancel e) \<and>
           tk_listen (tcp_tasks s ! te_cancel e) = addr)"
    using inv(2,3) [of "(a, n)"] by (auto simp: get_listen_addr_def tcp_find_def)
qed

theorem tcp_listeners_owned_witness:
  "live_task (fst (tcp_register (Ok ()) (Ok ''127.0.0.1:9'') ''a'' ''n'' ''u'' tcp_new)) 0"
proof -
  let ?s = "fst (tcp_register (Ok ()) (Ok ''127.0.0.1:9'') ''a'' ''n'' ''u'' tcp_new)"
  have r: "tcp_reach ?s" by (rule tcp_reach.register [OF tcp_reach.new])
  have "get_listen_addr ''a'' ''n'' ?s = Some ''127.0.0.1:9''"
    by (simp add: get_listen_addr_def tcp_register_find [unfolded tcp_find_def])
  with tcp_listeners_owned [OF r, of 0 "''a''" "''n''" "''127.0.0.1:9''"]
  obtain e where "tcp_find ?s (''a'', ''n'') = Some e" "live_task ?s (te_cancel e)" by blast
  moreover have "tcp_find ?s (''a'', ''n'') = Some \<lparr>te_listen_addr = ''127.0.0.1:9'', te_cancel = 0\<rparr>"
    by (simp add: tcp_register_find) (simp add: tcp_new_def)
  ultimately show ?thesis by auto
qed

text \<open>A listener is cancelled exactly when its entry is replaced, unregistered or cleaned
  up: registering the same (agent id, name) again cancels the previous listener and no other.\<close>

theorem tcp_register_replaces:
  assumes "tcp_reach s"
  shows "live_task (fst (tcp_register (Ok ()) (Ok addr) a n u s)) i \<longleftrightarrow>
     i = length (tcp_tasks s) \<or>
     live_task s i \<and> (\<forall>e. tcp_find s (a, n) = Some e \<longrightarrow> te_cancel e \<noteq> i)"
  using tcp_invD(2) [OF tcp_reach_inv [OF assms], of "(a, n)"]
  unfolding tcp_register_live by (auto simp: live_task_def)

theorem tcp_register_replaces_witness:
  "\<not> live_task (fst (tcp_register (Ok ()) (Ok ''y'') ''a'' ''n'' ''u''
       (fst (tcp_register (Ok ()) (Ok ''x'') ''a'' ''n'' ''u'' tcp_new)))) 0"
  unfolding tcp_register_replaces [OF tcp_reach.register [OF tcp_reach.new]]
  by (simp add: tcp_register_find) (simp add: tcp_register_def tcp_spawn_def tcp_drop_key_def tcp_new_def)

end
