(* ===== verification/Agent_Registry.thy ===== *)
theory Agent_Registry
  imports Backend Agent_Conn Proxy_Registry Tcp_Proxy
begin

text \<open>
  The agent registry, \<^verbatim>\<open>nexal-gateway/src/registry.rs\<close>: the table of running agents
  together with the proxy registries and the warm pool whose life cycle it owns.  UUIDs, the
  clock, the outcome of dialling an agent and the backend are arguments.  The connections that
  were closed are recorded in \<open>ar_closed_conns\<close> in the state \<^verbatim>\<open>close()\<close> leaves
  them.
\<close>

section \<open>State\<close>

datatype RegistryError =
    RegBackend BackendError | RegAgentConn AgentConnError
  | UnknownAgent string | UnknownContainer string

record AgentEntry =
  ae_agent_id :: string
  ae_container_name :: string
  ae_created_at_unix_ms :: nat
  ae_conn :: AgentConn
  ae_port_map :: "(nat, string) hashmap"

record SpawnDefaults =
  sd_image :: string
  sd_agent_bin :: string
  sd_memory :: "string option"
  sd_cpus :: "string option"
  sd_pids_limit :: "nat option"
  sd_network :: bool
  sd_container_name_prefix :: string
  sd_workspace_volume :: "string option"

record TaggedNotification =
  tn_agent_id :: string
  tn_method :: string
  tn_params :: "value option"

record 'w AgentRegistry =
  ar_spawn_defaults :: SpawnDefaults
  ar_inner :: "(string, AgentEntry) hashmap"
  ar_proxies :: ProxyInner
  ar_tcp_proxies :: TcpProxyRegistry
  ar_warm_pool :: "WarmPool option"
  ar_closed_conns :: "AgentConn list"
  ar_world :: 'w

definition registry_new :: "SpawnDefaults \<Rightarrow> WarmPool option \<Rightarrow> 'w \<Rightarrow> 'w AgentRegistry" where
  "registry_new defaults pool w =
     \<lparr>ar_spawn_defaults = defaults, ar_inner = [], ar_proxies = proxy_new, ar_tcp_proxies = tcp_new,
      ar_warm_pool = pool, ar_closed_conns = [], ar_world = w\<rparr>"

section \<open>Operations\<close>

definition derive_container_name :: "SpawnDefaults \<Rightarrow> string \<Rightarrow> string" where
  "derive_container_name defaults name = sd_container_name_prefix defaults @ sanitize_name name"

text \<open>The bridge task tags every notification of an agent with its id.\<close>

definition bridge_notification :: "string \<Rightarrow> AgentNotification \<Rightarrow> TaggedNotification" where
  "bridge_notification agent_id notif =
     \<lparr>tn_agent_id = agent_id, tn_method = nt_method notif, tn_params = nt_params notif\<rparr>"

text \<open>\<open>dial url client_name\<close> is the outcome of \<^verbatim>\<open>AgentConn::connect\<close>.\<close>

definition dial_and_register ::
  "string \<Rightarrow> nat \<Rightarrow> (string \<Rightarrow> string \<Rightarrow> (AgentConnError, AgentConn) result) \<Rightarrow> ContainerHandle \<Rightarrow>
     'w AgentRegistry \<Rightarrow> 'w AgentRegistry \<times> (RegistryError, AgentEntry) result" where
  "dial_and_register agent_id now_ms dial handle r =
     (case dial (ch_url handle) (''nexal-gateway/'' @ agent_id) of
        Inl e \<Rightarrow> (r, Err (RegAgentConn e))
      | Inr conn \<Rightarrow>
          let entry = \<lparr>ae_agent_id = agent_id, ae_container_name = ch_name handle,
                       ae_created_at_unix_ms = now_ms, ae_conn = conn, ae_port_map = ch_port_map handle\<rparr>
          in (r\<lparr>ar_inner := hm_insert agent_id entry (ar_inner r)\<rparr>, Ok entry))"

definition spawn_spec :: "SpawnDefaults \<Rightarrow> SpawnAgentParams \<Rightarrow> ContainerSpec" where
  "spawn_spec d p =
     \<lparr>cs_name = derive_container_name d (sp_name p),
      cs_image = (case sp_image p of None \<Rightarrow> sd_image d | Some img \<Rightarrow> img),
      cs_env = sp_env p, cs_labels = sp_labels p, cs_agent_bin = sd_agent_bin d,
      cs_memory = sd_memory d, cs_cpus = sd_cpus d, cs_pids_limit = sd_pids_limit d,
      cs_network = sd_network d, cs_workspace_volume = sd_workspace_volume d,
      cs_extra_ports = sp_extra_ports p, cs_fuse = True\<rparr>"

definition take_warm :: "SpawnAgentParams \<Rightarrow> 'w AgentRegistry \<Rightarrow> 'w AgentRegistry \<times> ContainerHandle option" where
  "take_warm p r =
     (if sp_image p = None \<and> sp_extra_ports p = [] then
        (case ar_warm_pool r of
           None \<Rightarrow> (r, None)
         | Some pool \<Rightarrow> (case pool_take pool of (pool, h) \<Rightarrow> (r\<lparr>ar_warm_pool := Some pool\<rparr>, h)))
      else (r, None))"

definition spawn ::
  "'w ContainerBackend \<Rightarrow> string \<Rightarrow> nat \<Rightarrow> (string \<Rightarrow> string \<Rightarrow> (AgentConnError, AgentConn) result) \<Rightarrow>
     SpawnAgentParams \<Rightarrow> 'w AgentRegistry \<Rightarrow> 'w AgentRegistry \<times> (RegistryError, AgentEntry) result" where
  "spawn be agent_id now_ms dial p r =
     (case take_warm p r of
        (r, Some handle) \<Rightarrow> dial_and_register agent_id now_ms dial handle r
      | (r, None) \<Rightarrow>
          (case be_ensure be (spawn_spec (ar_spawn_defaults r) p) (ar_world r) of
             (w, Inl e) \<Rightarrow> (r\<lparr>ar_world := w\<rparr>, Err (RegBackend e))
           | (w, Inr handle) \<Rightarrow> dial_and_register agent_id now_ms dial handle (r\<lparr>ar_world := w\<rparr>)))"

definition attach_spec :: "SpawnDefaults \<Rightarrow> string \<Rightarrow> ContainerSpec" where
  "attach_spec d container_name =
     \<lparr>cs_name = container_name, cs_image = sd_image d, cs_env = [], cs_labels = [],
      cs_agent_bin = sd_agent_bin d, cs_memory = sd_memory d, cs_cpus = sd_cpus d,
      cs_pids_limit = sd_pids_limit d, cs_network = sd_network d,
      cs_workspace_volume = sd_workspace_volume d, cs_extra_ports = [], cs_fuse = True\<rparr>"

definition attach ::
  "'w ContainerBackend \<Rightarrow> string \<Rightarrow> nat \<Rightarrow> (string \<Rightarrow> string \<Rightarrow> (AgentConnError, AgentConn) result) \<Rightarrow>
     string \<Rightarrow> 'w AgentRegistry \<Rightarrow> 'w AgentRegistry \<times> (RegistryError, AgentEntry) result" where
  "attach be agent_id now_ms dial container_name r =
     (case be_exists be container_name (ar_world r) of
        (w, Inl e) \<Rightarrow> (r\<lparr>ar_world := w\<rparr>, Err (RegBackend e))
      | (w, Inr False) \<Rightarrow> (r\<lparr>ar_world := w\<rparr>, Err (UnknownContainer container_name))
      | (w, Inr True) \<Rightarrow>
          (case be_ensure be (attach_spec (ar_spawn_defaults r) container_name) w of
             (w, Inl e) \<Rightarrow> (r\<lparr>ar_world := w\<rparr>, Err (RegBackend e))
           | (w, Inr _) \<Rightarrow>
               (case be_url be container_name w of
                  (w, Inl e) \<Rightarrow> (r\<lparr>ar_world := w\<rparr>, Err (RegBackend e))
                | (w, Inr url) \<Rightarrow>
                    dial_and_register agent_id now_ms dial
                      \<lparr>ch_name = container_name, ch_url = url, ch_port_map = []\<rparr> (r\<lparr>ar_world := w\<rparr>))))"

definition detach :: "string \<Rightarrow> 'w AgentRegistry \<Rightarrow> 'w AgentRegistry \<times> (RegistryError, unit) result" where
  "detach agent_id r =
     (case hm_get (ar_inner r) agent_id of
        None \<Rightarrow> (r, Err (UnknownAgent agent_id))
      | Some entry \<Rightarrow>
          (r\<lparr>ar_inner := hm_remove agent_id (ar_inner r),
             ar_closed_conns := ar_closed_conns r @ [close (ae_conn entry)]\<rparr>, Ok ()))"

definition kill ::
  "'w ContainerBackend \<Rightarrow> string \<Rightarrow> 'w AgentRegistry \<Rightarrow> 'w AgentRegistry \<times> (RegistryError, unit) result" where
  "kill be agent_id r =
     (let entry = hm_get (ar_inner r) agent_id;
          r = r\<lparr>ar_inner := hm_remove agent_id (ar_inner r)\<rparr>;
          r = r\<lparr>ar_proxies := fst (proxy_cleanup_for_agent agent_id (ar_proxies r))\<rparr>;
          r = r\<lparr>ar_tcp_proxies := fst (tcp_cleanup_for_agent agent_id (ar_tcp_proxies r))\<rparr>
      in case entry of
           None \<Rightarrow> (r, Err (UnknownAgent agent_id))
         | Some entry \<Rightarrow>
             let r = r\<lparr>ar_closed_conns := ar_closed_conns r @ [close (ae_conn entry)]\<rparr>
             in (case be_destroy be (ae_container_name entry) (ar_world r) of
                   (w, Inl e) \<Rightarrow> (r\<lparr>ar_world := w\<rparr>, Err (RegBackend e))
                 | (w, Inr _) \<Rightarrow> (r\<lparr>ar_world := w\<rparr>, Ok ())))"

definition registry_get :: "string \<Rightarrow> 'w AgentRegistry \<Rightarrow> AgentEntry option" where
  "registry_get agent_id r = hm_get (ar_inner r) agent_id"

definition registry_list :: "'w AgentRegistry \<Rightarrow> AgentEntry list" where
  "registry_list r = map snd (ar_inner r)"

definition detach_all :: "'w ContainerBackend \<Rightarrow> 'w AgentRegistry \<Rightarrow> 'w AgentRegistry" where
  "detach_all be r =
     (let r = r\<lparr>ar_closed_conns := ar_closed_conns r @ map (\<lambda>(_, e). close (ae_conn e)) (ar_inner r),
                ar_inner := []\<rparr>
      in case ar_warm_pool r of
           None \<Rightarrow> r
         | Some pool \<Rightarrow>
             (case pool_drain be pool (ar_world r) of
                (pool, w) \<Rightarrow> r\<lparr>ar_warm_pool := Some pool, ar_world := w\<rparr>))"

text \<open>Requests an agent sends to the gateway.  The skills service and the MessagePack
  conversions are arguments.\<close>

definition handle_agent_request ::
  "(string, 'l) result \<Rightarrow> ('p \<Rightarrow> (string, 'r) result) \<Rightarrow> ('l + 'r \<Rightarrow> (string, value) result) \<Rightarrow>
     (value \<Rightarrow> 'p option) \<Rightarrow> string \<Rightarrow> value option \<Rightarrow> (string, value) result" where
  "handle_agent_request skills_list skills_read to_value from_value method params =
     (if method = ''skills/list'' then
        (case skills_list of
           Inl e \<Rightarrow> Err e
         | Inr resp \<Rightarrow>
             (case to_value (Inl resp) of Inl e \<Rightarrow> Err (''serialize: '' @ e) | Inr v \<Rightarrow> Ok v))
      else if method = ''skills/read'' then
        (case Option.bind params from_value of
           None \<Rightarrow> Err ''invalid params for skills/read''
         | Some p \<Rightarrow>
             (case skills_read p of
                Inl e \<Rightarrow> Err e
              | Inr resp \<Rightarrow>
                  (case to_value (Inr resp) of Inl e \<Rightarrow> Err (''serialize: '' @ e) | Inr v \<Rightarrow> Ok v)))
      else Err (''unknown agent request: '' @ method))"

section \<open>Invariant\<close>

definition registry_inv :: "'w AgentRegistry \<Rightarrow> bool" where
  "registry_inv r \<longleftrightarrow> hm_wf (ar_inner r) \<and>
     (\<forall>(i, e) \<in> set (ar_inner r). ae_agent_id e = i) \<and>
     proxy_inv (ar_proxies r) \<and> tcp_inv (ar_tcp_proxies r)"

lemma registry_inv_new [simp, invar_intros]: "registry_inv (registry_new d pool w)"
  by (simp add: registry_inv_def registry_new_def)

lemma hm_insert_set: "(k', v') \<in> set (hm_insert k v m) \<Longrightarrow> (k' = k \<and> v' = v) \<or> (k', v') \<in> set m"
  by (induction m) (auto simp: hm_insert_def split: if_splits)

lemma hm_remove_set: "(k', v') \<in> set (hm_remove k m) \<Longrightarrow> (k', v') \<in> set m"
  by (induction m) (auto simp: hm_remove_def split: if_splits)

lemma registry_inv_insert:
  "\<lbrakk>registry_inv r; ae_agent_id e = i\<rbrakk> \<Longrightarrow> registry_inv (r\<lparr>ar_inner := hm_insert i e (ar_inner r)\<rparr>)"
  by (fastforce simp: registry_inv_def dest: hm_insert_set)

lemma registry_inv_remove:
  "registry_inv r \<Longrightarrow> registry_inv (r\<lparr>ar_inner := hm_remove i (ar_inner r)\<rparr>)"
  by (fastforce simp: registry_inv_def dest: hm_remove_set)

lemma registry_inv_frame [simp]:
  "registry_inv (r\<lparr>ar_world := w\<rparr>) = registry_inv r"
  "registry_inv (r\<lparr>ar_warm_pool := p\<rparr>) = registry_inv r"
  "registry_inv (r\<lparr>ar_closed_conns := cs\<rparr>) = registry_inv r"
  by (simp_all add: registry_inv_def)

lemma dial_and_register_inv:
  "registry_inv r \<Longrightarrow> registry_inv (fst (dial_and_register i t dial h r))"
  by (auto simp: dial_and_register_def Let_def registry_inv_insert split: sum.splits)

lemma take_warm_frame:
  "take_warm p r = (r', h) \<Longrightarrow>
     r' = r \<or> (\<exists>pool. r' = r\<lparr>ar_warm_pool := Some pool\<rparr>)"
  by (auto simp: take_warm_def split: option.splits if_splits prod.splits)

lemma spawn_inv: "registry_inv r \<Longrightarrow> registry_inv (fst (spawn be i t dial p r))"
  using take_warm_frame [of p r]
  by (auto simp: spawn_def dial_and_register_inv split: prod.splits option.splits sum.splits)

lemma attach_inv: "registry_inv r \<Longrightarrow> registry_inv (fst (attach be i t dial n r))"
  by (auto simp: attach_def dial_and_register_inv split: prod.splits sum.splits bool.splits)

lemma detach_inv: "registry_inv r \<Longrightarrow> registry_inv (fst (detach i r))"
  using registry_inv_remove [of r i] registry_inv_frame(3)
  by (auto simp: detach_def registry_inv_def split: option.splits)

lemma kill_inv:
  assumes "registry_inv r"
  shows "registry_inv (fst (kill be i r))"
proof -
  have "registry_inv (r\<lparr>ar_inner := hm_remove i (ar_inner r)\<rparr>)" by (rule registry_inv_remove [OF assms])
  then show ?thesis
    using http_reg.drop_agent_invar [of "ar_proxies r" i] tcp_reg.drop_agent_invar [of "ar_tcp_proxies r" i]
    by (auto simp: kill_def Let_def registry_inv_def split: option.splits prod.splits sum.splits)
qed

lemma detach_all_inv: "registry_inv r \<Longrightarrow> registry_inv (detach_all be r)"
  by (auto simp: detach_all_def Let_def registry_inv_def split: option.splits prod.splits)

lemma kill_proxies [simp]:
  "ar_proxies (fst (kill be i r)) = fst (proxy_cleanup_for_agent i (ar_proxies r))"
  "ar_tcp_proxies (fst (kill be i r)) = fst (tcp_cleanup_for_agent i (ar_tcp_proxies r))"
  "ar_inner (fst (kill be i r)) = hm_remove i (ar_inner r)"
  by (auto simp: kill_def Let_def split: option.splits prod.splits sum.splits)

lemma dial_and_register_frame:
  "ar_proxies (fst (dial_and_register i t dial h r)) = ar_proxies r"
  "ar_tcp_proxies (fst (dial_and_register i t dial h r)) = ar_tcp_proxies r"
  by (auto simp: dial_and_register_def Let_def split: sum.splits)

lemma dial_and_register_get:
  "hm_get (ar_inner (fst (dial_and_register i t dial h r))) j =
     (case snd (dial_and_register i t dial h r) of
        Inl _ \<Rightarrow> hm_get (ar_inner r) j
      | Inr e \<Rightarrow> if j = i then Some e else hm_get (ar_inner r) j)"
  by (auto simp: dial_and_register_def Let_def split: sum.splits)

lemma take_warm_inner:
  "take_warm p r = (r', h) \<Longrightarrow> ar_inner r' = ar_inner r \<and> ar_world r' = ar_world r"
  using take_warm_frame by fastforce

lemma spawn_get:
  "hm_get (ar_inner (fst (spawn be i t dial p r))) j =
     (case snd (spawn be i t dial p r) of
        Inl _ \<Rightarrow> hm_get (ar_inner r) j
      | Inr e \<Rightarrow> if j = i then Some e else hm_get (ar_inner r) j)"
proof -
  obtain r1 h where t: "take_warm p r = (r1, h)" by force
  note inner = take_warm_inner [OF t]
  show ?thesis
  proof (cases h)
    case (Some handle)
    then show ?thesis using inner by (simp add: spawn_def t dial_and_register_get split: sum.split)
  next
    case None
    obtain w res where e: "be_ensure be (spawn_spec (ar_spawn_defaults r1) p) (ar_world r1) = (w, res)"
      by force
    then show ?thesis
      using inner None by (cases res) (simp_all add: spawn_def t dial_and_register_get split: sum.split)
  qed
qed

lemma close_resolves: "ac_pending (close c) = [] \<and> ac_closed (close c)"
  by (simp add: close_def drain_pending_def)

section \<open>Properties\<close>


definition sample_defaults :: SpawnDefaults where
  "sample_defaults = \<lparr>sd_image = ''img'', sd_agent_bin = ''/bin/agent'', sd_memory = None,
     sd_cpus = None, sd_pids_limit = None, sd_network = True, sd_container_name_prefix = ''nexal-'',
     sd_workspace_volume = None\<rparr>"

definition sample_spawn :: SpawnAgentParams where
  "sample_spawn = \<lparr>sp_name = ''w1'', sp_image = None, sp_env = [], sp_labels = [], sp_workspace = None,
     sp_extra_ports = []\<rparr>"

definition sample_registry :: "string list AgentRegistry" where
  "sample_registry =
     fst (spawn sample_backend ''id1'' 0 (\<lambda>url name. Ok conn_new) sample_spawn
       (registry_new sample_defaults None []))"

lemmas sample_registry_defs = sample_registry_def spawn_def take_warm_def sample_spawn_def
  registry_new_def sample_backend_def spawn_spec_def derive_container_name_def sample_defaults_def
  dial_and_register_def sanitize_name_def str_chars_def is_utf8_continuation_def name_char_ok_def
  is_ascii_alphanumeric_def is_ascii_digit_def is_ascii_alphabetic_def Let_def

lemma sample_registry_inv: "registry_inv sample_registry"
  unfolding sample_registry_def by (rule spawn_inv) simp


text \<open>Spawning: on success the new agent is registered under the freshly minted id and
  nothing else changes in the table of agents; on failure the table is unchanged.  In both cases
  the proxies are untouched and every operation of the registry keeps its invariant: ids index
  their own entries and both proxy registries are consistent.\<close>

theorem spawn_registers_agent:
  assumes inv: "registry_inv r" and s: "spawn be i t dial p r = (r', res)"
  shows "registry_get j r' =
       (case res of Inl _ \<Rightarrow> registry_get j r
        | Inr e \<Rightarrow> if j = i then Some e else registry_get j r) \<and>
     (\<forall>e. res = Inr e \<longrightarrow> ae_agent_id e = i) \<and>
     registry_inv r' \<and> registry_inv (fst (attach be i t dial n r)) \<and> registry_inv (fst (detach i r)) \<and>
     registry_inv (fst (kill be i r)) \<and> registry_inv (detach_all be r)"
proof (intro conjI)
  show "registry_get j r' =
       (case res of Inl _ \<Rightarrow> registry_get j r
        | Inr e \<Rightarrow> if j = i then Some e else registry_get j r)"
    using spawn_get [of be i t dial p r j] s by (simp add: registry_get_def split: sum.splits)
  show "\<forall>e. res = Inr e \<longrightarrow> ae_agent_id e = i"
    using s by (auto simp: spawn_def dial_and_register_def Let_def
        split: prod.splits option.splits sum.splits)
  show "registry_inv r'" using spawn_inv [OF inv, of be i t dial p] s by simp
qed (rule attach_inv [OF inv] detach_inv [OF inv] kill_inv [OF inv] detach_all_inv [OF inv])+

theorem spawn_registers_agent_witness:
  "registry_get ''id1'' sample_registry \<noteq> None \<and> registry_get ''id2'' sample_registry = None"
proof -
  have inv: "registry_inv (registry_new sample_defaults None [] :: string list AgentRegistry)" by simp
  have s: "snd (spawn sample_backend ''id1'' 0 (\<lambda>url name. Ok conn_new) sample_spawn
       (registry_new sample_defaults None [])) = Ok \<lparr>ae_agent_id = ''id1'', ae_container_name = ''nexal-w1'',
      ae_created_at_unix_ms = 0, ae_conn = conn_new, ae_port_map = []\<rparr>"
    by (simp add: sample_registry_defs)
  show ?thesis
    using spawn_registers_agent [OF inv surjective_pairing, of "''id1''" sample_backend "''id1''" 0
        "\<lambda>url name. Ok conn_new" sample_spawn]
      spawn_registers_agent [OF inv surjective_pairing, of "''id2''" sample_backend "''id1''" 0
        "\<lambda>url name. Ok conn_new" sample_spawn]
    by (simp add: s sample_registry_def) (simp add: registry_get_def registry_new_def)
qed

text \<open>Container names derived from user input are safe for the runtime: after the
  configured prefix they contain only letters, digits, underscore, dot and dash, one per input
  character, and an input that is already of this form is kept unchanged.\<close>

theorem derive_container_name_safe:
  "\<exists>suffix. derive_container_name d name = sd_container_name_prefix d @ suffix \<and>
     (\<forall>c. c \<in> set suffix \<longrightarrow> name_char_ok c) \<and>
     length suffix = length (str_chars name) \<and>
     ((\<forall>c. c \<in> set name \<longrightarrow> name_char_ok c) \<longrightarrow> suffix = name)"
  using sanitize_name_ok [of _ name] sanitize_name_id [of name]
  by (auto simp: derive_container_name_def intro!: exI [of _ "sanitize_name name"])
     (simp add: sanitize_name_def)

theorem derive_container_name_safe_witness:
  "derive_container_name sample_defaults ''a/b c'' = ''nexal-a_b_c'' \<and>
   (\<exists>suffix. derive_container_name sample_defaults ''a/b c'' = ''nexal-'' @ suffix)"
  using derive_container_name_safe [of sample_defaults "''a/b c''"]
  by (simp add: sample_registry_defs)

section \<open>Observations\<close>

text \<open>A warm container is handed out whatever name, environment and labels were asked for.\<close>

lemma warm_spawn_ignores_request:
  assumes "ar_warm_pool r = Some pool" and "wp_available pool = hs @ [h]"
    and "sp_image p = None" and "sp_extra_ports p = []"
  shows "spawn be i t dial p r =
     dial_and_register i t dial h (r\<lparr>ar_warm_pool := Some (pool\<lparr>wp_available := hs\<rparr>)\<rparr>)"
  using assms by (simp add: spawn_def take_warm_def pool_take_snoc)

text \<open>Different requested names can give the same container name, and a requested name can
  give the name of a pooled container.\<close>

lemma container_name_collisions:
  "derive_container_name sample_defaults ''a/b'' = derive_container_name sample_defaults ''a b'' \<and>
   derive_container_name sample_defaults ''pool-0'' =
     cs_name (pool_spec 0 (pool_new 1 ''img'' (sd_container_name_prefix sample_defaults) ''/bin/agent'' None None None True))"
  by (simp add: sample_registry_defs pool_spec_def pool_new_def dec_0)

end
