(* ===== verification/Session.thy ===== *)
theory Session
  imports Hello Agent_Registry
begin

text \<open>
  A frontend session, \<^verbatim>\<open>nexal-gateway/src/server/session.rs\<close>, with the helpers of
  \<^verbatim>\<open>server.rs\<close> it calls: the authentication gate, the dispatch of all eleven gateway
  methods on the registry, and the message loop.  Everything outside the repository or outside the
  gateway process enters through \<open>Env\<close>: the serde conversions, the backend, dialling and
  calling an agent, the clock, fresh identifiers and the socket calls.  \<open>gw_calls\<close> records
  the calls made to agents.
\<close>

section \<open>State\<close>

definition GATEWAY_VERSION :: string where "GATEWAY_VERSION = ''0.1.0''"

record ServerConfig =
  sc_credentials :: "(string, string) hashmap"
  sc_proxy_external_base :: string

record 'w Gateway =
  gw_registry :: "'w AgentRegistry"
  gw_nonces :: nonce_cache
  gw_calls :: "(string \<times> string \<times> value option) list"

datatype outgoing = OutResponse JsonRpcResponse | OutNotify JsonRpcRequest

record Session =
  se_authenticated :: bool
  se_sent :: "outgoing list"

definition session_new :: Session where
  "session_new = \<lparr>se_authenticated = False, se_sent = []\<rparr>"

record 'w Env =
  ev_decode_request :: "value \<Rightarrow> (string, JsonRpcRequest) result"
  ev_decode_hello :: "value \<Rightarrow> (string, HelloParams) result"
  ev_decode_spawn :: "value \<Rightarrow> (string, SpawnAgentParams) result"
  ev_decode_agent_id :: "value \<Rightarrow> (string, string) result"
  ev_decode_attach :: "value \<Rightarrow> (string, string) result"
  ev_decode_invoke :: "value \<Rightarrow> (string, AgentInvokeParams) result"
  ev_decode_register_proxy :: "value \<Rightarrow> (string, RegisterProxyParams) result"
  ev_decode_unregister :: "value \<Rightarrow> (string, UnregisterProxyParams) result"
  ev_decode_stream_proxy :: "value \<Rightarrow> (string, RegisterStreamProxyParams) result"
  ev_encode :: "gateway_result \<Rightarrow> value"
  ev_encode_notify :: "AgentNotifyParams \<Rightarrow> value"
  ev_hmac_verify :: "string \<Rightarrow> string \<Rightarrow> byte list \<Rightarrow> bool"
  ev_backend :: "'w ContainerBackend"
  ev_dial :: "string \<Rightarrow> string \<Rightarrow> (AgentConnError, AgentConn) result"
  ev_call :: "string \<Rightarrow> string \<Rightarrow> value option \<Rightarrow> (AgentConnError, value) result"
  ev_bind :: "(string, unit) result"
  ev_local_addr :: "(string, string) result"
  ev_unix_now :: int
  ev_now_ms :: nat
  ev_agent_id :: string
  ev_token :: string

section \<open>Helpers of server.rs\<close>

definition json_error :: "int \<Rightarrow> string \<Rightarrow> JsonRpcError" where
  "json_error code message = \<lparr>je_code = code, je_message = message, je_data = None\<rparr>"

definition parse_params :: "(value \<Rightarrow> (string, 'p) result) \<Rightarrow> value \<Rightarrow> (JsonRpcError, 'p) result" where
  "parse_params decode v =
     (case decode v of Inl err \<Rightarrow> Err (json_error INVALID_PARAMS (''invalid params: '' @ err)) | Inr p \<Rightarrow> Ok p)"

definition backend_error_text :: "BackendError \<Rightarrow> string" where
  "backend_error_text e =
     (case e of
        Cli m \<Rightarrow> ''container backend command failed: '' @ m
      | PortDiscovery m \<Rightarrow> ''could not discover container ws port for '' @ m
      | Io m \<Rightarrow> ''container io error: '' @ m)"

definition conn_error_text :: "AgentConnError \<Rightarrow> string" where
  "conn_error_text e =
     (case e of
        Connect m \<Rightarrow> ''connect to agent failed: '' @ m
      | Send m \<Rightarrow> ''agent send failed: '' @ m
      | ConnClosed \<Rightarrow> ''agent connection closed''
      | AgentError code m \<Rightarrow> ''agent returned error '' @ dec_int code @ '': '' @ m
      | BadFrame m \<Rightarrow> ''invalid agent frame: '' @ m)"

definition registry_err :: "RegistryError \<Rightarrow> JsonRpcError" where
  "registry_err err =
     (case err of
        RegBackend e \<Rightarrow> json_error BACKEND_ERROR (backend_error_text e)
      | RegAgentConn e \<Rightarrow> json_error BACKEND_ERROR (conn_error_text e)
      | UnknownAgent i \<Rightarrow> json_error UNKNOWN_AGENT (''unknown agent '' @ i)
      | UnknownContainer n \<Rightarrow> json_error UNKNOWN_AGENT (''unknown container '' @ n))"

definition container_socket_path :: "string \<Rightarrow> string" where
  "container_socket_path name = ''/run/nexal/proxy/'' @ sanitize_name name @ ''.socket''"

section \<open>Dispatch\<close>

type_synonym 'w outcome = "'w Gateway \<times> (JsonRpcError, value) result"

definition no_agent :: "string \<Rightarrow> JsonRpcError" where
  "no_agent agent_id = json_error UNKNOWN_AGENT (''no agent '' @ agent_id)"

text \<open>A call to an agent: \<^verbatim>\<open>invoke\<close> fails at once on a closed connection.\<close>

definition call_agent ::
  "'w Env \<Rightarrow> AgentEntry \<Rightarrow> string \<Rightarrow> value option \<Rightarrow> 'w Gateway \<Rightarrow>
     'w Gateway \<times> (AgentConnError, value) result" where
  "call_agent env entry method params g =
     (if ac_closed (ae_conn entry) then (g, Err ConnClosed)
      else (g\<lparr>gw_calls := gw_calls g @ [(ae_agent_id entry, method, params)]\<rparr>,
            ev_call env (ae_agent_id entry) method params))"

definition entry_result :: "'w Env \<Rightarrow> (RegistryError, AgentEntry) result \<Rightarrow> (JsonRpcError, value) result" where
  "entry_result env r =
     (case r of
        Inl e \<Rightarrow> Err (registry_err e)
      | Inr entry \<Rightarrow> Ok (ev_encode env (RAgent (ae_agent_id entry) (ae_container_name entry))))"

definition unit_result :: "'w Env \<Rightarrow> (RegistryError, unit) result \<Rightarrow> (JsonRpcError, value) result" where
  "unit_result env r =
     (case r of Inl e \<Rightarrow> Err (registry_err e) | Inr _ \<Rightarrow> Ok (ev_encode env (ROk True)))"

definition do_spawn :: "'w Env \<Rightarrow> SpawnAgentParams \<Rightarrow> 'w Gateway \<Rightarrow> 'w outcome" where
  "do_spawn env p g =
     (case spawn (ev_backend env) (ev_agent_id env) (ev_now_ms env) (ev_dial env) p (gw_registry g) of
        (r, res) \<Rightarrow> (g\<lparr>gw_registry := r\<rparr>, entry_result env res))"

definition do_kill :: "'w Env \<Rightarrow> string \<Rightarrow> 'w Gateway \<Rightarrow> 'w outcome" where
  "do_kill env agent_id g =
     (case kill (ev_backend env) agent_id (gw_registry g) of
        (r, res) \<Rightarrow> (g\<lparr>gw_registry := r\<rparr>, unit_result env res))"

definition do_detach :: "'w Env \<Rightarrow> string \<Rightarrow> 'w Gateway \<Rightarrow> 'w outcome" where
  "do_detach env agent_id g =
     (case detach agent_id (gw_registry g) of
        (r, res) \<Rightarrow> (g\<lparr>gw_registry := r\<rparr>, unit_result env res))"

definition do_attach :: "'w Env \<Rightarrow> string \<Rightarrow> 'w Gateway \<Rightarrow> 'w outcome" where
  "do_attach env container_name g =
     (case attach (ev_backend env) (ev_agent_id env) (ev_now_ms env) (ev_dial env) container_name (gw_registry g) of
        (r, res) \<Rightarrow> (g\<lparr>gw_registry := r\<rparr>, entry_result env res))"

definition do_list :: "'w Env \<Rightarrow> 'w Gateway \<Rightarrow> 'w outcome" where
  "do_list env g =
     (g, Ok (ev_encode env (RAgents (map (\<lambda>e. \<lparr>as_agent_id = ae_agent_id e,
            as_container_name = ae_container_name e, as_created_at_unix_ms = ae_created_at_unix_ms e\<rparr>)
          (registry_list (gw_registry g))))))"

definition do_invoke :: "'w Env \<Rightarrow> AgentInvokeParams \<Rightarrow> 'w Gateway \<Rightarrow> 'w outcome" where
  "do_invoke env p g =
     (case registry_get (ai_agent_id p) (gw_registry g) of
        None \<Rightarrow> (g, Err (no_agent (ai_agent_id p)))
      | Some entry \<Rightarrow>
          (case call_agent env entry (ai_method p) (ai_params p) g of
             (g, Inl e) \<Rightarrow> (g, Err (conn_error_to_json e))
           | (g, Inr v) \<Rightarrow> (g, Ok v)))"

definition with_proxies :: "(ProxyInner \<Rightarrow> ProxyInner) \<Rightarrow> 'w Gateway \<Rightarrow> 'w Gateway" where
  "with_proxies f g = g\<lparr>gw_registry := (gw_registry g)\<lparr>ar_proxies := f (ar_proxies (gw_registry g))\<rparr>\<rparr>"

definition with_tcp :: "(TcpProxyRegistry \<Rightarrow> TcpProxyRegistry) \<Rightarrow> 'w Gateway \<Rightarrow> 'w Gateway" where
  "with_tcp f g = g\<lparr>gw_registry := (gw_registry g)\<lparr>ar_tcp_proxies := f (ar_tcp_proxies (gw_registry g))\<rparr>\<rparr>"

text \<open>What the agent is told: the socket to listen on and the gateway URL to forward to.\<close>

definition proxy_agent_params :: "ServerConfig \<Rightarrow> string \<Rightarrow> string \<Rightarrow> value" where
  "proxy_agent_params cfg name token =
     mp_map [(''headers'', VMap []), (''socket_path'', VString (container_socket_path name)),
             (''upstream_url'', VString (trim_end_matches (CHR ''/'') (sc_proxy_external_base cfg) @ ''/p/'' @ token))]"

definition do_register_proxy :: "'w Env \<Rightarrow> ServerConfig \<Rightarrow> RegisterProxyParams \<Rightarrow> 'w Gateway \<Rightarrow> 'w outcome" where
  "do_register_proxy env cfg p g =
     (case registry_get (px_agent_id p) (gw_registry g) of
        None \<Rightarrow> (g, Err (no_agent (px_agent_id p)))
      | Some agent_entry \<Rightarrow>
          let socket_path = container_socket_path (px_name p);
              reg = proxy_register (ev_token env) (px_agent_id p) (px_name p) (px_upstream_url p) (px_headers p);
              entry = snd (reg (ar_proxies (gw_registry g)));
              g = with_proxies (\<lambda>i. fst (reg i)) g;
              agent_params = proxy_agent_params cfg (px_name p) (pe_token entry)
          in (case call_agent env agent_entry (agent_as_str ProxyRegister) (Some agent_params) g of
                (g, Inl err) \<Rightarrow>
                  (with_proxies (\<lambda>i. fst (proxy_unregister (px_agent_id p) (px_name p) i)) g,
                   Err (conn_error_to_json err))
              | (g, Inr _) \<Rightarrow> (g, Ok (ev_encode env (RProxy (pe_token entry) socket_path)))))"

definition do_unregister_proxy :: "'w Env \<Rightarrow> UnregisterProxyParams \<Rightarrow> 'w Gateway \<Rightarrow> 'w outcome" where
  "do_unregister_proxy env p g =
     (let socket_path = container_socket_path (ux_name p);
          g = (case registry_get (ux_agent_id p) (gw_registry g) of
                 None \<Rightarrow> g
               | Some agent_entry \<Rightarrow>
                   fst (call_agent env agent_entry (agent_as_str ProxyUnregister)
                          (Some (mp_map [(''socket_path'', VString socket_path)])) g));
          removed = snd (proxy_unregister (ux_agent_id p) (ux_name p) (ar_proxies (gw_registry g)))
      in (with_proxies (\<lambda>i. fst (proxy_unregister (ux_agent_id p) (ux_name p) i)) g,
          Ok (ev_encode env (ROk removed))))"

definition do_register_stream_proxy ::
  "'w Env \<Rightarrow> RegisterStreamProxyParams \<Rightarrow> 'w Gateway \<Rightarrow> 'w outcome" where
  "do_register_stream_proxy env p g =
     (case registry_get (rsp_agent_id p) (gw_registry g) of
        None \<Rightarrow> (g, Err (no_agent (rsp_agent_id p)))
      | Some agent_entry \<Rightarrow>
          (case hm_get (ae_port_map agent_entry) (rsp_container_port p) of
             None \<Rightarrow> (g, Err (json_error INVALID_PARAMS
               (''port '' @ dec (rsp_container_port p) @ '' not published for agent '' @ rsp_agent_id p)))
           | Some upstream_addr \<Rightarrow>
               let reg = tcp_register (ev_bind env) (ev_local_addr env) (rsp_agent_id p) (rsp_name p) upstream_addr;
                   res = snd (reg (ar_tcp_proxies (gw_registry g)));
                   g = with_tcp (\<lambda>s. fst (reg s)) g
               in (case res of
                     Inl e \<Rightarrow> (g, Err (json_error BACKEND_ERROR e))
                   | Inr listen_addr \<Rightarrow> (g, Ok (ev_encode env (RStreamProxy listen_addr))))))"

definition do_unregister_stream_proxy :: "'w Env \<Rightarrow> UnregisterProxyParams \<Rightarrow> 'w Gateway \<Rightarrow> 'w outcome" where
  "do_unregister_stream_proxy env p g =
     (let removed = snd (tcp_unregister (ux_agent_id p) (ux_name p) (ar_tcp_proxies (gw_registry g)))
      in (with_tcp (\<lambda>s. fst (tcp_unregister (ux_agent_id p) (ux_name p) s)) g,
          Ok (ev_encode env (ROk removed))))"

definition with_params ::
  "(value \<Rightarrow> (string, 'p) result) \<Rightarrow> value \<Rightarrow> ('p \<Rightarrow> 'w Gateway \<Rightarrow> 'w outcome) \<Rightarrow> 'w Gateway \<Rightarrow> 'w outcome" where
  "with_params decode v f g =
     (case parse_params decode v of Inl e \<Rightarrow> (g, Err e) | Inr p \<Rightarrow> f p g)"

definition do_hello ::
  "'w Env \<Rightarrow> ServerConfig \<Rightarrow> value \<Rightarrow> 'w Gateway \<Rightarrow> Session \<Rightarrow>
     ('w Gateway \<times> Session \<times> (JsonRpcError, value) result) run" where
  "do_hello env cfg params g se =
     (case parse_params (ev_decode_hello env) params of
        Inl e \<Rightarrow> Returns (g, se, Err e)
      | Inr p \<Rightarrow>
          (case verify_hello (ev_hmac_verify env) (sc_credentials cfg) (ev_unix_now env) p (gw_nonces g) of
             Panics \<Rightarrow> Panics
           | Returns (cache, Inl e) \<Rightarrow> Returns (g\<lparr>gw_nonces := cache\<rparr>, se, Err e)
           | Returns (cache, Inr _) \<Rightarrow>
               Returns (g\<lparr>gw_nonces := cache\<rparr>, se\<lparr>se_authenticated := True\<rparr>,
                        Ok (ev_encode env (RHello True GATEWAY_VERSION)))))"

text \<open>The arms that do not touch the session.\<close>

definition registry_arm :: "Session \<Rightarrow> 'w outcome \<Rightarrow> ('w Gateway \<times> Session \<times> (JsonRpcError, value) result) run" where
  "registry_arm se out = (case out of (g, r) \<Rightarrow> Returns (g, se, r))"

definition dispatch ::
  "'w Env \<Rightarrow> ServerConfig \<Rightarrow> JsonRpcRequest \<Rightarrow> 'w Gateway \<Rightarrow> Session \<Rightarrow>
     ('w Gateway \<times> Session \<times> (JsonRpcError, value) result) run" where
  "dispatch env cfg req g se =
     (let params = (case rq_params req of None \<Rightarrow> VNil | Some v \<Rightarrow> v)
      in case gateway_parse (rq_method req) of
           Some Hello \<Rightarrow> do_hello env cfg params g se
         | Some SpawnAgent \<Rightarrow> registry_arm se (with_params (ev_decode_spawn env) params (do_spawn env) g)
         | Some KillAgent \<Rightarrow> registry_arm se (with_params (ev_decode_agent_id env) params (do_kill env) g)
         | Some DetachAgent \<Rightarrow> registry_arm se (with_params (ev_decode_agent_id env) params (do_detach env) g)
         | Some AttachAgent \<Rightarrow> registry_arm se (with_params (ev_decode_attach env) params (do_attach env) g)
         | Some ListAgents \<Rightarrow> registry_arm se (do_list env g)
         | Some AgentInvoke \<Rightarrow> registry_arm se (with_params (ev_decode_invoke env) params (do_invoke env) g)
         | Some RegisterProxy \<Rightarrow>
             registry_arm se (with_params (ev_decode_register_proxy env) params (do_register_proxy env cfg) g)
         | Some UnregisterProxy \<Rightarrow>
             registry_arm se (with_params (ev_decode_unregister env) params (do_unregister_proxy env) g)
         | Some RegisterStreamProxy \<Rightarrow>
             registry_arm se (with_params (ev_decode_stream_proxy env) params (do_register_stream_proxy env) g)
         | Some UnregisterStreamProxy \<Rightarrow>
             registry_arm se (with_params (ev_decode_unregister env) params (do_unregister_stream_proxy env) g)
         | None \<Rightarrow> Returns (g, se, Err (json_error METHOD_NOT_FOUND (''unknown method: '' @ rq_method req))))"

section \<open>Message handling\<close>

definition send_response :: "JsonRpcResponse \<Rightarrow> Session \<Rightarrow> Session" where
  "send_response resp se = se\<lparr>se_sent := se_sent se @ [OutResponse resp]\<rparr>"

definition handle_value ::
  "'w Env \<Rightarrow> ServerConfig \<Rightarrow> value \<Rightarrow> 'w Gateway \<Rightarrow> Session \<Rightarrow> ('w Gateway \<times> Session) run" where
  "handle_value env cfg v g se =
     (case ev_decode_request env v of
        Inl err \<Rightarrow> Returns (g, send_response (response_err VNil PARSE_ERROR (''msgpack: '' @ err)) se)
      | Inr req \<Rightarrow>
          (case rq_id req of
             None \<Rightarrow> Returns (g, se)
           | Some req_id \<Rightarrow>
               if \<not> se_authenticated se \<and> gateway_parse (rq_method req) \<noteq> Some Hello
               then Returns (g, send_response
                      (response_err req_id NOT_AUTHENTICATED ''send gateway/hello first'') se)
               else
                 (case dispatch env cfg req g se of
                    Panics \<Rightarrow> Panics
                  | Returns (g, se, Inr val) \<Rightarrow> Returns (g, send_response (response_ok req_id val) se)
                  | Returns (g, se, Inl err) \<Rightarrow>
                      Returns (g, send_response
                        \<lparr>rs_id = req_id, rs_result = None, rs_error = Some err\<rparr> se))))"

text \<open>The loop of \<^verbatim>\<open>run\<close>; the environment of each message is its own.\<close>

fun session_run ::
  "ServerConfig \<Rightarrow> ('w Env \<times> channel_event) list \<Rightarrow> 'w Gateway \<Rightarrow> Session \<Rightarrow> ('w Gateway \<times> Session) run" where
  "session_run cfg [] g se = Returns (g, se)"
| "session_run cfg ((env, Message v) # events) g se =
     (case handle_value env cfg v g se of
        Panics \<Rightarrow> Panics
      | Returns (g, se) \<Rightarrow> session_run cfg events g se)"
| "session_run cfg ((env, MalformedMessage reason) # events) g se =
     session_run cfg events g (send_response (response_err VNil PARSE_ERROR reason) se)"
| "session_run cfg ((env, Disconnected reason) # events) g se = Returns (g, se)"

text \<open>One notification of an agent, as the notification task of the session forwards it.\<close>

definition forward_notification :: "'w Env \<Rightarrow> TaggedNotification \<Rightarrow> Session \<Rightarrow> Session" where
  "forward_notification env n se =
     (if \<not> se_authenticated se then se
      else se\<lparr>se_sent := se_sent se @ [OutNotify (notification NOTIFY_AGENT
             (ev_encode_notify env \<lparr>an_agent_id = tn_agent_id n, an_method = tn_method n,
                                    an_params = tn_params n\<rparr>))]\<rparr>)"

section \<open>Invariants of dispatch\<close>

lemma dispatch_session:
  assumes "dispatch env cfg req g se = Returns (g', se', r)"
  shows "se_sent se' = se_sent se \<and> (se_authenticated se \<longrightarrow> se_authenticated se')"
  using assms
  by (auto simp: dispatch_def do_hello_def registry_arm_def Let_def
      split: option.splits GatewayMethod.splits sum.splits run.splits prod.splits)

lemma dispatch_hello_auth:
  assumes "dispatch env cfg req g se = Returns (g', se', r)" "gateway_parse (rq_method req) = Some Hello"
  shows "gw_registry g' = gw_registry g \<and> gw_calls g' = gw_calls g \<and>
     (\<not> se_authenticated se \<longrightarrow> se_authenticated se' \<longrightarrow>
        (\<exists>p cache'. verify_hello (ev_hmac_verify env) (sc_credentials cfg) (ev_unix_now env) p (gw_nonces g)
            = Returns (cache', Ok ()))) \<and>
     (\<not> se_authenticated se' \<longrightarrow> (\<exists>e. r = Inl e))"
  using assms
  by (auto simp: dispatch_def do_hello_def Let_def split: option.splits sum.splits run.splits prod.splits)

lemma call_agent_registry [simp]: "gw_registry (fst (call_agent env entry m ps g)) = gw_registry g"
  by (simp add: call_agent_def)

lemma with_proxies_inv:
  "\<lbrakk>registry_inv (gw_registry g); proxy_inv (f (ar_proxies (gw_registry g)))\<rbrakk> \<Longrightarrow>
     registry_inv (gw_registry (with_proxies f g))"
  by (simp add: registry_inv_def with_proxies_def)

lemma with_tcp_inv:
  "\<lbrakk>registry_inv (gw_registry g); tcp_inv (f (ar_tcp_proxies (gw_registry g)))\<rbrakk> \<Longrightarrow>
     registry_inv (gw_registry (with_tcp f g))"
  by (simp add: registry_inv_def with_tcp_def)

lemma registry_inv_parts:
  "registry_inv r \<Longrightarrow> proxy_inv (ar_proxies r)" "registry_inv r \<Longrightarrow> tcp_inv (ar_tcp_proxies r)"
  by (simp_all add: registry_inv_def)

definition proxy_registered :: "'w Env \<Rightarrow> RegisterProxyParams \<Rightarrow> 'w Gateway \<Rightarrow> 'w Gateway" where
  "proxy_registered env p g =
     with_proxies (\<lambda>i. fst (proxy_register (ev_token env) (px_agent_id p) (px_name p) (px_upstream_url p) (px_headers p) i)) g"

definition proxy_withdrawn :: "RegisterProxyParams \<Rightarrow> 'w Gateway \<Rightarrow> 'w Gateway" where
  "proxy_withdrawn p g = with_proxies (\<lambda>i. fst (proxy_unregister (px_agent_id p) (px_name p) i)) g"

lemma do_register_proxy_known:
  assumes "registry_get (px_agent_id p) (gw_registry g) = Some e"
    and "call_agent env e (agent_as_str ProxyRegister)
           (Some (proxy_agent_params cfg (px_name p) (ev_token env))) (proxy_registered env p g) = (g1, res)"
  shows "do_register_proxy env cfg p g =
     (case res of
        Inl err \<Rightarrow> (proxy_withdrawn p g1, Err (conn_error_to_json err))
      | Inr _ \<Rightarrow> (g1, Ok (ev_encode env (RProxy (ev_token env) (container_socket_path (px_name p))))))"
  using assms by (simp add: do_register_proxy_def Let_def proxy_registered_def proxy_withdrawn_def
      split: sum.split)

lemma do_register_proxy_inv:
  assumes inv: "registry_inv (gw_registry g)" and fresh: "token_fresh (ev_token env) (ar_proxies (gw_registry g))"
  shows "registry_inv (gw_registry (fst (do_register_proxy env cfg p g)))"
proof (cases "registry_get (px_agent_id p) (gw_registry g)")
  case None
  then show ?thesis using inv by (simp add: do_register_proxy_def)
next
  case (Some e)
  have g: "registry_inv (gw_registry (proxy_registered env p g))"
    unfolding proxy_registered_def
    by (rule with_proxies_inv [OF inv]) (rule proxy_register_inv [OF registry_inv_parts(1) [OF inv] fresh])
  obtain g1 res where c: "call_agent env e (agent_as_str ProxyRegister)
      (Some (proxy_agent_params cfg (px_name p) (ev_token env))) (proxy_registered env p g) = (g1, res)" by force
  have g1: "registry_inv (gw_registry g1)"
    using call_agent_registry [of env e "agent_as_str ProxyRegister" _ "proxy_registered env p g"] c g
    by (metis fst_conv)
  then have "registry_inv (gw_registry (proxy_withdrawn p g1))"
    unfolding proxy_withdrawn_def
    by (intro with_proxies_inv http_reg.drop_entry_invar registry_inv_parts(1))
  with g1 show ?thesis unfolding do_register_proxy_known [OF Some c] by (cases res) simp_all
qed

lemma do_unregister_proxy_inv:
  assumes inv: "registry_inv (gw_registry g)"
  shows "registry_inv (gw_registry (fst (do_unregister_proxy env p g)))"
  unfolding do_unregister_proxy_def Let_def fst_conv
  using inv by (intro with_proxies_inv http_reg.drop_entry_invar registry_inv_parts(1)) (simp_all split: option.splits)

lemma tcp_register_inv_any: "tcp_inv s \<Longrightarrow> tcp_inv (fst (tcp_register bind addr a n u s))"
  using tcp_register_cases [of bind addr a n u s] by (auto simp: tcp_register_inv)

lemma do_register_stream_proxy_inv:
  assumes inv: "registry_inv (gw_registry g)"
  shows "registry_inv (gw_registry (fst (do_register_stream_proxy env p g)))"
proof -
  have "registry_inv (gw_registry (with_tcp (\<lambda>s. fst (tcp_register (ev_bind env) (ev_local_addr env)
      (rsp_agent_id p) (rsp_name p) u s)) g))" for u
    by (intro with_tcp_inv [OF inv] tcp_register_inv_any registry_inv_parts(2) [OF inv])
  then show ?thesis
    using inv by (simp add: do_register_stream_proxy_def Let_def split: option.splits sum.splits)
qed

lemma do_unregister_stream_proxy_inv:
  assumes inv: "registry_inv (gw_registry g)"
  shows "registry_inv (gw_registry (fst (do_unregister_stream_proxy env p g)))"
  unfolding do_unregister_stream_proxy_def Let_def fst_conv
  using inv by (intro with_tcp_inv tcp_reg.drop_entry_invar registry_inv_parts(2)) simp_all

lemma do_invoke_registry [simp]: "gw_registry (fst (do_invoke env p g)) = gw_registry g"
proof -
  have "gw_registry g' = gw_registry g" if "call_agent env e m ps g = (g', r)" for e m ps g' r
    using call_agent_registry [of env e m ps g] that by simp
  then show ?thesis
    by (auto simp: do_invoke_def split: option.splits prod.splits sum.splits)
qed

lemma simple_arms_inv:
  assumes inv: "registry_inv (gw_registry g)"
  shows "registry_inv (gw_registry (fst (do_spawn env sp g)))"
    "registry_inv (gw_registry (fst (do_kill env i g)))"
    "registry_inv (gw_registry (fst (do_detach env i g)))"
    "registry_inv (gw_registry (fst (do_attach env n g)))"
    "registry_inv (gw_registry (fst (do_list env g)))"
    "registry_inv (gw_registry (fst (do_invoke env p g)))"
  using spawn_inv [OF inv] kill_inv [OF inv] detach_inv [OF inv] attach_inv [OF inv] inv
  by (simp_all add: do_spawn_def do_kill_def do_detach_def do_attach_def do_list_def case_prod_unfold)

lemma registry_arm_with_params:
  assumes "registry_arm se (with_params decode v f g) = Returns (g', se', r)"
    and "registry_inv (gw_registry g)" and "\<And>p. registry_inv (gw_registry (fst (f p g)))"
  shows "registry_inv (gw_registry g')"
  using assms by (auto simp: registry_arm_def with_params_def split: sum.splits prod.splits) (metis fst_conv)

lemma dispatch_inv:
  assumes d: "dispatch env cfg req g se = Returns (g', se', r)"
    and inv: "registry_inv (gw_registry g)" and fresh: "token_fresh (ev_token env) (ar_proxies (gw_registry g))"
  shows "registry_inv (gw_registry g')"
proof (cases "gateway_parse (rq_method req)")
  case None
  then show ?thesis using d inv by (simp add: dispatch_def)
next
  case (Some m)
  note arm = registry_arm_with_params [OF _ inv]
  let ?ps = "case rq_params req of None \<Rightarrow> VNil | Some v \<Rightarrow> v"
  show ?thesis
  proof (cases m)
    case Hello
    then show ?thesis using dispatch_hello_auth [OF d] Some inv by simp
  next
    case ListAgents
    then show ?thesis using d Some inv by (auto simp: dispatch_def Let_def registry_arm_def do_list_def)
  next
    case SpawnAgent
    then have "registry_arm se (with_params (ev_decode_spawn env) ?ps (do_spawn env) g) = Returns (g', se', r)"
      using d Some by (simp add: dispatch_def)
    then show ?thesis by (rule arm) (rule simple_arms_inv(1) [OF inv])
  next
    case KillAgent
    then have "registry_arm se (with_params (ev_decode_agent_id env) ?ps (do_kill env) g) = Returns (g', se', r)"
      using d Some by (simp add: dispatch_def)
    then show ?thesis by (rule arm) (rule simple_arms_inv(2) [OF inv])
  next
    case DetachAgent
    then have "registry_arm se (with_params (ev_decode_agent_id env) ?ps (do_detach env) g) = Returns (g', se', r)"
      using d Some by (simp add: dispatch_def)
    then show ?thesis by (rule arm) (rule simple_arms_inv(3) [OF inv])
  next
    case AttachAgent
    then have "registry_arm se (with_params (ev_decode_attach env) ?ps (do_attach env) g) = Returns (g', se', r)"
      using d Some by (simp add: dispatch_def)
    then show ?thesis by (rule arm) (rule simple_arms_inv(4) [OF inv])
  next
    case AgentInvoke
    then have "registry_arm se (with_params (ev_decode_invoke env) ?ps (do_invoke env) g) = Returns (g', se', r)"
      using d Some by (simp add: dispatch_def)
    then show ?thesis by (rule arm) (rule simple_arms_inv(6) [OF inv])
  next
    case RegisterProxy
    then have "registry_arm se (with_params (ev_decode_register_proxy env) ?ps (do_register_proxy env cfg) g) = Returns (g', se', r)"
      using d Some by (simp add: dispatch_def)
    then show ?thesis by (rule arm) (rule do_register_proxy_inv [OF inv fresh])
  next
    case UnregisterProxy
    then have "registry_arm se (with_params (ev_decode_unregister env) ?ps (do_unregister_proxy env) g) = Returns (g', se', r)"
      using d Some by (simp add: dispatch_def)
    then show ?thesis by (rule arm) (rule do_unregister_proxy_inv [OF inv])
  next
    case RegisterStreamProxy
    then have "registry_arm se (with_params (ev_decode_stream_proxy env) ?ps (do_register_stream_proxy env) g) = Returns (g', se', r)"
      using d Some by (simp add: dispatch_def)
    then show ?thesis by (rule arm) (rule do_register_stream_proxy_inv [OF inv])
  next
    case UnregisterStreamProxy
    then have "registry_arm se (with_params (ev_decode_unregister env) ?ps (do_unregister_stream_proxy env) g) = Returns (g', se', r)"
      using d Some by (simp add: dispatch_def)
    then show ?thesis by (rule arm) (rule do_unregister_stream_proxy_inv [OF inv])
  qed
qed

section \<open>Handling a message\<close>

definition out_id :: "outgoing \<Rightarrow> value" where
  "out_id out = (case out of OutResponse resp \<Rightarrow> rs_id resp | OutNotify _ \<Rightarrow> VNil)"

definition is_error_out :: "outgoing \<Rightarrow> bool" where
  "is_error_out out = (case out of OutResponse resp \<Rightarrow> rs_error resp \<noteq> None | OutNotify _ \<Rightarrow> False)"

text \<open>The ids the session owes a response for: one per message that is not a notification.\<close>

definition owed_id :: "'w Env \<Rightarrow> value \<Rightarrow> value list" where
  "owed_id env v =
     (case ev_decode_request env v of
        Inl _ \<Rightarrow> [VNil]
      | Inr req \<Rightarrow> (case rq_id req of None \<Rightarrow> [] | Some i \<Rightarrow> [i]))"

fun owed_ids :: "('w Env \<times> channel_event) list \<Rightarrow> value list" where
  "owed_ids [] = []"
| "owed_ids ((env, Message v) # events) = owed_id env v @ owed_ids events"
| "owed_ids ((env, MalformedMessage reason) # events) = VNil # owed_ids events"
| "owed_ids ((env, Disconnected reason) # events) = []"

lemma handle_value_sends:
  assumes "handle_value env cfg v g se = Returns (g', se')"
  shows "map out_id (se_sent se') = map out_id (se_sent se) @ owed_id env v"
  using assms dispatch_session
  by (fastforce simp: handle_value_def owed_id_def send_response_def out_id_def response_err_def response_ok_def
      split: sum.splits option.splits run.splits prod.splits if_splits)

text \<open>An unauthenticated session either stays so, with the registry untouched and only error
  responses sent, or becomes authenticated by a hello that verified.\<close>

lemma handle_value_unauthenticated:
  assumes h: "handle_value env cfg v g se = Returns (g', se')" and na: "\<not> se_authenticated se"
  shows "gw_registry g' = gw_registry g \<and> gw_calls g' = gw_calls g \<and>
     (se_authenticated se' \<longrightarrow>
        (\<exists>p cache'. verify_hello (ev_hmac_verify env) (sc_credentials cfg) (ev_unix_now env) p (gw_nonces g)
            = Returns (cache', Ok ()))) \<and>
     (\<not> se_authenticated se' \<longrightarrow> (\<forall>out \<in> set (se_sent se') - set (se_sent se). is_error_out out))"
proof (cases "ev_decode_request env v")
  case (Inl err)
  then show ?thesis
    using h na by (auto simp: handle_value_def send_response_def is_error_out_def response_err_def)
next
  case (Inr req)
  show ?thesis
  proof (cases "rq_id req")
    case None
    then show ?thesis using h na Inr by (simp add: handle_value_def)
  next
    case (Some i)
    show ?thesis
    proof (cases "gateway_parse (rq_method req) = Some Hello")
      case False
      then show ?thesis
        using h na Inr Some
        by (auto simp: handle_value_def send_response_def is_error_out_def response_err_def)
    next
      case True
      obtain g1 se1 r where d: "dispatch env cfg req g se = Returns (g1, se1, r)"
        using h na Inr Some True by (cases "dispatch env cfg req g se") (auto simp: handle_value_def)
      note hello = dispatch_hello_auth [OF d True] and sent = dispatch_session [OF d]
      show ?thesis
        using h na Inr Some True d hello sent
        by (cases r) (auto simp: handle_value_def send_response_def is_error_out_def)
    qed
  qed
qed

lemma handle_value_auth_mono:
  assumes h: "handle_value env cfg v g se = Returns (g', se')" and "se_authenticated se"
  shows "se_authenticated se'"
  using assms dispatch_session
  by (fastforce simp: handle_value_def send_response_def
      split: sum.splits option.splits run.splits prod.splits if_splits)

lemma session_run_auth_mono:
  "\<lbrakk>session_run cfg events g se = Returns (g', se'); se_authenticated se\<rbrakk> \<Longrightarrow> se_authenticated se'"
  by (induction cfg events g se rule: session_run.induct)
     (auto simp: send_response_def split: run.splits dest: handle_value_auth_mono)

lemma session_run_unauthenticated:
  "\<lbrakk>session_run cfg events g se = Returns (g', se'); \<not> se_authenticated se'\<rbrakk> \<Longrightarrow>
     gw_registry g' = gw_registry g \<and> gw_calls g' = gw_calls g \<and>
     (\<forall>out \<in> set (se_sent se') - set (se_sent se). is_error_out out)"
proof (induction cfg events g se rule: session_run.induct)
  case (2 cfg env v events g se)
  obtain g1 se1 where h: "handle_value env cfg v g se = Returns (g1, se1)"
    and r: "session_run cfg events g1 se1 = Returns (g', se')"
    using 2(2) by (auto split: run.splits)
  have na: "\<not> se_authenticated se1" using session_run_auth_mono [OF r] 2(3) by blast
  then have "\<not> se_authenticated se" using handle_value_auth_mono [OF h] by blast
  with 2(1) [OF h refl r 2(3)] handle_value_unauthenticated [OF h] na show ?case by auto
next
  case (3 cfg env reason events g se)
  then show ?case by (fastforce simp: send_response_def is_error_out_def response_err_def)
qed simp_all

lemma session_run_authenticates:
  "\<lbrakk>session_run cfg events g se = Returns (g', se'); se_authenticated se'; \<not> se_authenticated se\<rbrakk> \<Longrightarrow>
     \<exists>env p cache cache'. env \<in> fst ` set events \<and>
       verify_hello (ev_hmac_verify env) (sc_credentials cfg) (ev_unix_now env) p cache = Returns (cache', Ok ())"
proof (induction cfg events g se rule: session_run.induct)
  case (2 cfg env v events g se)
  obtain g1 se1 where h: "handle_value env cfg v g se = Returns (g1, se1)"
    and r: "session_run cfg events g1 se1 = Returns (g', se')"
    using 2(2) by (auto split: run.splits)
  show ?case
  proof (cases "se_authenticated se1")
    case True
    then show ?thesis using handle_value_unauthenticated [OF h 2(4)] by auto
  next
    case False
    then show ?thesis using 2(1) [OF h refl r 2(3)] by auto
  qed
next
  case (3 cfg env reason events g se)
  then have "\<exists>env p cache cache'. env \<in> fst ` set events \<and>
       verify_hello (ev_hmac_verify env) (sc_credentials cfg) (ev_unix_now env) p cache = Returns (cache', Ok ())"
    by (simp add: send_response_def)
  then show ?case by auto
qed simp_all

lemma session_run_sends:
  "session_run cfg events g se = Returns (g', se') \<Longrightarrow>
     map out_id (se_sent se') = map out_id (se_sent se) @ owed_ids events"
  by (induction cfg events g se rule: session_run.induct)
     (auto simp: send_response_def out_id_def response_err_def split: run.splits dest: handle_value_sends)

lemma handle_value_inv:
  assumes h: "handle_value env cfg v g se = Returns (g', se')"
    and inv: "registry_inv (gw_registry g)" and fresh: "token_fresh (ev_token env) (ar_proxies (gw_registry g))"
  shows "registry_inv (gw_registry g')"
proof (cases "ev_decode_request env v")
  case (Inr req)
  show ?thesis
  proof (cases "rq_id req")
    case (Some i)
    show ?thesis
    proof (cases "dispatch env cfg req g se")
      case (Returns out)
      obtain g1 se1 r where "out = (g1, se1, r)" by (cases out) auto
      with Returns have d: "dispatch env cfg req g se = Returns (g1, se1, r)" by simp
      show ?thesis
        using h inv dispatch_inv [OF d inv fresh] Inr Some d
        by (cases r) (auto simp: handle_value_def split: if_splits)
    qed (use h inv Inr Some in \<open>auto simp: handle_value_def split: if_splits\<close>)
  qed (use h inv Inr in \<open>auto simp: handle_value_def\<close>)
qed (use h inv in \<open>auto simp: handle_value_def\<close>)

lemma socket_name_no_slash: "CHR ''/'' \<notin> set (sanitize_name name)"
  using sanitize_name_ok [of "CHR ''/''" name]
  by (auto simp: name_char_ok_def is_ascii_alphanumeric_def is_ascii_digit_def is_ascii_alphabetic_def)

section \<open>Properties\<close>

definition sample_request :: "string \<Rightarrow> JsonRpcRequest" where
  "sample_request method = \<lparr>rq_id = Some (VInteger 7), rq_method = method, rq_params = None\<rparr>"

definition sample_env :: "JsonRpcRequest \<Rightarrow> string list Env" where
  "sample_env req =
     \<lparr>ev_decode_request = (\<lambda>_. Ok req), ev_decode_hello = (\<lambda>_. Ok sample_hello),
      ev_decode_spawn = (\<lambda>_. Ok sample_spawn), ev_decode_agent_id = (\<lambda>_. Ok ''id1''),
      ev_decode_attach = (\<lambda>_. Ok ''nexal-w1''), ev_decode_invoke = (\<lambda>_. Err ''no''),
      ev_decode_register_proxy = (\<lambda>_. Ok \<lparr>px_agent_id = ''id1'', px_name = ''jina'',
          px_upstream_url = ''https://u'', px_headers = []\<rparr>),
      ev_decode_unregister = (\<lambda>_. Err ''no''), ev_decode_stream_proxy = (\<lambda>_. Err ''no''),
      ev_encode = (\<lambda>_. VNil), ev_encode_notify = (\<lambda>_. VNil), ev_hmac_verify = (\<lambda>_ _ _. True),
      ev_backend = sample_backend, ev_dial = (\<lambda>_ _. Ok conn_new), ev_call = (\<lambda>_ _ _. Err ConnClosed),
      ev_bind = Ok (), ev_local_addr = Ok ''127.0.0.1:1'', ev_unix_now = 1000, ev_now_ms = 0,
      ev_agent_id = ''id1'', ev_token = ''t1''\<rparr>"

definition sample_gateway :: "string list Gateway" where
  "sample_gateway = \<lparr>gw_registry = sample_registry, gw_nonces = [], gw_calls = []\<rparr>"

definition sample_config :: ServerConfig where
  "sample_config = \<lparr>sc_credentials = [(''k'', ''s'')], sc_proxy_external_base = ''http://gw/''\<rparr>"

text \<open>Nothing happens before authentication: if a session is not authenticated at its end,
  then whatever it sent, no agent was called, the registry is exactly as it was, and every
  message it received back is an error; and a session that is authenticated at its end has sent a
  hello that verified.\<close>

theorem session_authentication_gate:
  assumes "session_run cfg events g session_new = Returns (g', se')"
  shows "(\<not> se_authenticated se' \<longrightarrow>
       gw_registry g' = gw_registry g \<and> gw_calls g' = gw_calls g \<and>
       (\<forall>out. out \<in> set (se_sent se') \<longrightarrow> is_error_out out)) \<and>
     (se_authenticated se' \<longrightarrow>
       (\<exists>env p cache cache'. env \<in> fst ` set events \<and>
          verify_hello (ev_hmac_verify env) (sc_credentials cfg) (ev_unix_now env) p cache =
            Returns (cache', Ok ())))"
  using session_run_unauthenticated [OF assms] session_run_authenticates [OF assms]
  by (auto simp: session_new_def)

theorem session_authentication_gate_witness:
  "\<exists>g' se'. session_run sample_config [(sample_env (sample_request ''gateway/kill_agent''), Message VNil)]
       sample_gateway session_new = Returns (g', se') \<and> gw_registry g' = gw_registry sample_gateway"
proof -
  let ?run = "session_run sample_config [(sample_env (sample_request ''gateway/kill_agent''), Message VNil)]
       sample_gateway session_new"
  obtain se' where r: "?run = Returns (sample_gateway, se')" "\<not> se_authenticated se'"
    by (simp add: handle_value_def sample_env_def sample_request_def session_new_def gateway_parse_def
        send_response_def)
  show ?thesis using session_authentication_gate [OF r(1)] r by blast
qed

text \<open>Every request is answered exactly once, in order and under its own id: the ids of the
  responses of a session are the ids of the requests it received, with nil for undecodable
  messages, and notifications get no response.\<close>

theorem session_answers_in_order:
  assumes "session_run cfg events g session_new = Returns (g', se')"
  shows "map out_id (se_sent se') = owed_ids events"
  using session_run_sends [OF assms] by (simp add: session_new_def)

theorem session_answers_in_order_witness:
  "\<exists>g' se'. session_run sample_config
       [(sample_env (sample_request ''gateway/kill_agent''), Message VNil), (sample_env (sample_request []), MalformedMessage ''x'')]
       sample_gateway session_new = Returns (g', se') \<and> map out_id (se_sent se') = [VInteger 7, VNil]"
proof -
  let ?evs = "[(sample_env (sample_request ''gateway/kill_agent''), Message VNil),
               (sample_env (sample_request []), MalformedMessage ''x'')]"
  obtain g' se' where r: "session_run sample_config ?evs sample_gateway session_new = Returns (g', se')"
    by (simp add: handle_value_def sample_env_def sample_request_def session_new_def gateway_parse_def
        send_response_def)
  have "owed_ids ?evs = [VInteger 7, VNil]" by (simp add: owed_id_def sample_env_def sample_request_def)
  then show ?thesis using session_answers_in_order [OF r] r by metis
qed

text \<open>C24. Registering a proxy is all or nothing.  If the agent does not confirm, the call
  fails and nothing is left registered under (agent, name); if it confirms, the new token
  resolves to the requested upstream and headers, and the agent was told to listen on a socket
  directly inside \<^verbatim>\<open>/run/nexal/proxy\<close> and to forward to the gateway under that token.\<close>

theorem register_proxy_all_or_nothing:
  assumes inv: "registry_inv (gw_registry g)" and fresh: "token_fresh (ev_token env) (ar_proxies (gw_registry g))"
    and known: "registry_get (px_agent_id p) (gw_registry g) = Some entry"
    and r: "do_register_proxy env cfg p g = (g', res)"
  shows "case res of
       Inl e \<Rightarrow> proxy_find (ar_proxies (gw_registry g')) (px_agent_id p, px_name p) = None
     | Inr v \<Rightarrow>
         proxy_lookup (ev_token env) (ar_proxies (gw_registry g')) =
           Some \<lparr>pe_agent_id = px_agent_id p, pe_name = px_name p, pe_upstream_url = px_upstream_url p,
                 pe_headers = px_headers p, pe_token = ev_token env\<rparr> \<and>
         (\<exists>file. gw_calls g' = gw_calls g @ [(ae_agent_id entry, ''proxy/register'',
              Some (mp_map [(''headers'', VMap []), (''socket_path'', VString (''/run/nexal/proxy/'' @ file)),
                (''upstream_url'', VString (trim_end_matches (CHR ''/'') (sc_proxy_external_base cfg) @ ''/p/'' @ ev_token env))]))] \<and>
              CHR ''/'' \<notin> set file)"
proof -
  let ?ps = "Some (proxy_agent_params cfg (px_name p) (ev_token env))"
  obtain g1 ans where c: "call_agent env entry (agent_as_str ProxyRegister) ?ps (proxy_registered env p g) = (g1, ans)"
    by force
  have reg1: "gw_registry g1 = gw_registry (proxy_registered env p g)"
    using call_agent_registry [of env entry "agent_as_str ProxyRegister" ?ps "proxy_registered env p g"] c
    by (metis fst_conv)
  have inv1: "proxy_inv (ar_proxies (gw_registry (proxy_registered env p g)))"
    using proxy_register_inv [OF registry_inv_parts(1) [OF inv] fresh]
    by (simp add: proxy_registered_def with_proxies_def)
  note out = do_register_proxy_known [OF known c]
  show ?thesis
  proof (cases ans)
    case (Inl err)
    have "proxy_find (ar_proxies (gw_registry (proxy_withdrawn p g1))) (px_agent_id p, px_name p) = None"
      using http_reg.drop_entry_find [OF inv1] by (simp add: proxy_withdrawn_def with_proxies_def reg1)
    then show ?thesis using r out Inl by auto
  next
    case (Inr v)
    have "proxy_lookup (ev_token env) (ar_proxies (gw_registry g1)) = Some \<lparr>pe_agent_id = px_agent_id p,
        pe_name = px_name p, pe_upstream_url = px_upstream_url p, pe_headers = px_headers p,
        pe_token = ev_token env\<rparr>"
      using proxy_lookup_register [OF registry_inv_parts(1) [OF inv]]
      by (simp add: reg1 proxy_registered_def with_proxies_def) (simp add: proxy_register_def Let_def)
    moreover have "gw_calls g1 = gw_calls g @ [(ae_agent_id entry, ''proxy/register'', ?ps)]"
      using c Inr by (auto simp: call_agent_def proxy_registered_def with_proxies_def agent_as_str_def
          split: if_splits)
    moreover have "CHR ''/'' \<notin> set (sanitize_name (px_name p) @ ''.socket'')"
      using socket_name_no_slash by simp
    ultimately show ?thesis
      using r out Inr
      by (auto simp: proxy_agent_params_def container_socket_path_def intro!: exI [of _ "sanitize_name (px_name p) @ ''.socket''"])
  qed
qed

theorem register_proxy_all_or_nothing_witness:
  "proxy_find (ar_proxies (gw_registry (fst (do_register_proxy (sample_env (sample_request [])) sample_config
      \<lparr>px_agent_id = ''id1'', px_name = ''jina'', px_upstream_url = ''https://u'', px_headers = []\<rparr>
      sample_gateway)))) (''id1'', ''jina'') = None"
proof -
  let ?p = "\<lparr>px_agent_id = ''id1'', px_name = ''jina'', px_upstream_url = ''https://u'', px_headers = []\<rparr>"
  let ?env = "sample_env (sample_request [])"
  have inv: "registry_inv (gw_registry sample_gateway)" by (simp add: sample_gateway_def sample_registry_inv)
  have fresh: "token_fresh (ev_token ?env) (ar_proxies (gw_registry sample_gateway))"
    by (simp add: sample_gateway_def sample_registry_defs token_fresh_def proxy_new_def hm_keys_def)
  have known: "registry_get (px_agent_id ?p) (gw_registry sample_gateway) = Some \<lparr>ae_agent_id = ''id1'',
      ae_container_name = ''nexal-w1'', ae_created_at_unix_ms = 0, ae_conn = conn_new, ae_port_map = []\<rparr>"
    by (simp add: registry_get_def sample_gateway_def sample_registry_defs)
  have "\<exists>e. snd (do_register_proxy ?env sample_config ?p sample_gateway) = Inl e"
    using known by (simp add: do_register_proxy_def Let_def call_agent_def sample_env_def conn_new_def)
  then show ?thesis
    using register_proxy_all_or_nothing [OF inv fresh known surjective_pairing, of sample_config] by auto
qed

text \<open>C23. Handling any message keeps the gateway consistent: agents are indexed by their own
  id, the two maps of the HTTP proxy registry agree, and the live TCP listeners are exactly the
  registered ones, provided a newly generated token is not already in use.\<close>

theorem gateway_stays_consistent:
  assumes "handle_value env cfg v g se = Returns (g', se')"
    and "registry_inv (gw_registry g)" and "token_fresh (ev_token env) (ar_proxies (gw_registry g))"
  shows "registry_inv (gw_registry g')"
  by (rule handle_value_inv [OF assms])

theorem gateway_stays_consistent_witness:
  "\<exists>g' se'. handle_value (sample_env (sample_request ''gateway/hello'')) sample_config VNil sample_gateway session_new
      = Returns (g', se') \<and> registry_inv (gw_registry g')"
proof -
  let ?env = "sample_env (sample_request ''gateway/hello'')"
  have inv: "registry_inv (gw_registry sample_gateway)" by (simp add: sample_gateway_def sample_registry_inv)
  have fresh: "token_fresh (ev_token ?env) (ar_proxies (gw_registry sample_gateway))"
    by (simp add: sample_gateway_def sample_registry_defs token_fresh_def proxy_new_def hm_keys_def)
  obtain g' se' where h: "handle_value ?env sample_config VNil sample_gateway session_new = Returns (g', se')"
    using sample_hello_accepted
    by (simp add: handle_value_def sample_env_def sample_request_def session_new_def gateway_parse_def
        dispatch_def do_hello_def parse_params_def sample_config_def sample_gateway_def)
  show ?thesis using gateway_stays_consistent [OF h inv fresh] h by blast
qed

section \<open>Observations\<close>

text \<open>Two proxies of one agent with different names can be given the same socket path.\<close>

lemma socket_path_collision: "container_socket_path ''a/b'' = container_socket_path ''a_b''"
  by (simp add: container_socket_path_def sanitize_name_def str_chars_def is_utf8_continuation_def
      name_char_ok_def is_ascii_alphanumeric_def is_ascii_digit_def is_ascii_alphabetic_def)

end
