(* ===== verification/Text.thy ===== *)
theory Text
  imports Values
begin

text \<open>
  The string operations of \<^verbatim>\<open>std\<close> that several components use, on UTF-8 byte
  strings: splitting, trimming, and the validity of UTF-8.
\<close>

section \<open>Splitting\<close>

fun split_on :: "char \<Rightarrow> string \<Rightarrow> string list" where
  "split_on d [] = [[]]"
| "split_on d (c # cs) =
     (if c = d then [] # split_on d cs
      else (case split_on d cs of seg # segs \<Rightarrow> (c # seg) # segs | [] \<Rightarrow> [[c]]))"

lemma split_on_nonempty [simp]: "split_on d s \<noteq> []"
  by (induction s) (auto split: list.splits)

lemma split_on_sep: "split_on d (a @ d # b) = split_on d a @ split_on d b"
proof (induction a)
  case (Cons c a)
  then show ?case by (cases "split_on d a") auto
qed simp

lemma split_on_plain: "d \<notin> set s \<Longrightarrow> split_on d s = [s]"
  by (induction s) auto

lemma split_on_segments: "seg \<in> set (split_on d s) \<Longrightarrow> d \<notin> set seg"
proof (induction s arbitrary: seg)
  case (Cons c s)
  then show ?case by (cases "split_on d s") (auto split: if_splits)
qed simp

text \<open>Searching: \<open>find_subsequence\<close> is the position of the first window equal to the
  (non-empty) needle, which is also what \<^verbatim>\<open>str::find\<close> returns.\<close>

fun find_subsequence :: "'a list \<Rightarrow> 'a list \<Rightarrow> nat option" where
  "find_subsequence [] needle = (if needle = [] then Some 0 else None)"
| "find_subsequence (x # xs) needle =
     (if take (length needle) (x # xs) = needle then Some 0
      else map_option Suc (find_subsequence xs needle))"

definition split_once :: "string \<Rightarrow> string \<Rightarrow> (string \<times> string) option" where
  "split_once pat s =
     (case find_subsequence s pat of
        None \<Rightarrow> None
      | Some i \<Rightarrow> Some (take i s, drop (i + length pat) s))"

fun splitn :: "nat \<Rightarrow> char \<Rightarrow> string \<Rightarrow> string list" where
  "splitn 0 d s = []"
| "splitn (Suc 0) d s = [s]"
| "splitn (Suc (Suc n)) d s =
     (case split_once [d] s of None \<Rightarrow> [s] | Some (a, b) \<Rightarrow> a # splitn (Suc n) d b)"

lemma find_subsequence_Some:
  "find_subsequence s pat = Some i \<Longrightarrow> s = take i s @ pat @ drop (i + length pat) s \<and> i + length pat \<le> length s"
proof (induction s arbitrary: i)
  case (Cons x s)
  show ?case
  proof (cases "take (length pat) (x # s) = pat")
    case True
    then have "x # s = pat @ drop (length pat) (x # s)" by (metis append_take_drop_id)
    then have "length pat \<le> length (x # s)" by (metis length_append le_add1)
    moreover have "i = 0" using Cons.prems True by simp
    ultimately show ?thesis using \<open>x # s = pat @ drop (length pat) (x # s)\<close> by simp
  next
    case False
    then obtain j where "find_subsequence s pat = Some j" "i = Suc j" using Cons.prems by auto
    then show ?thesis using Cons.IH by simp
  qed
qed (auto split: if_splits)

text \<open>Growing the text keeps a match where it is.\<close>

lemma find_subsequence_extend: "find_subsequence s pat = Some i \<Longrightarrow> find_subsequence (s @ t) pat = Some i"
proof (induction s arbitrary: i)
  case (Cons x s)
  show ?case
  proof (cases "take (length pat) (x # s) = pat")
    case True
    then have "length pat \<le> length (x # s)" by (metis append_take_drop_id length_append le_add1)
    then have "take (length pat) ((x # s) @ t) = pat" using True by (simp only: take_append) simp
    then show ?thesis using Cons.prems True by simp
  next
    case False
    then obtain j where j: "find_subsequence s pat = Some j" "i = Suc j" using Cons.prems by auto
    then have "length pat \<le> length s" using find_subsequence_Some [OF j(1)] by simp
    then have "take (length pat) ((x # s) @ t) \<noteq> pat" using False by (simp only: take_append) simp
    then show ?thesis using Cons.IH [OF j(1)] j(2) by simp
  qed
qed (cases t, auto split: if_splits)

lemma find_subsequence_shrink:
  "\<lbrakk>find_subsequence (s @ t) pat = Some i; i + length pat \<le> length s\<rbrakk> \<Longrightarrow> find_subsequence s pat = Some i"
proof (induction s arbitrary: i)
  case (Cons x s)
  have le: "length pat \<le> length (x # s)" using Cons.prems(2) by simp
  then have same: "take (length pat) ((x # s) @ t) = take (length pat) (x # s)" by (simp only: take_append) simp
  show ?case
  proof (cases "take (length pat) (x # s) = pat")
    case True
    then show ?thesis using Cons.prems(1) same by simp
  next
    case False
    then obtain j where "find_subsequence (s @ t) pat = Some j" "i = Suc j" using Cons.prems(1) same by auto
    then show ?thesis using Cons.IH [of j] Cons.prems(2) False by simp
  qed
qed (cases t, auto split: if_splits)

text \<open>A needle that starts with \<open>c\<close> cannot start inside text without \<open>c\<close>.\<close>

lemma find_subsequence_skip:
  "c \<notin> set l \<Longrightarrow> find_subsequence (l @ s) (c # pat) = map_option (\<lambda>i. length l + i) (find_subsequence s (c # pat))"
  by (cases "find_subsequence s (c # pat)"; induction l) auto

lemma find_subsequence_here: "find_subsequence (pat @ s) pat = Some 0"
proof (cases "pat @ s")
  case (Cons x xs)
  then have "take (length pat) (x # xs) = pat" by (metis append_eq_conv_conj)
  then show ?thesis using Cons by simp
qed simp

lemma split_once_at: "c \<notin> set a \<Longrightarrow> split_once (c # pat) (a @ c # pat @ b) = Some (a, b)"
  using find_subsequence_skip [of c a "c # pat @ b" pat] find_subsequence_here [of "c # pat" b]
  by (simp add: split_once_def)

lemma split_once_None: "c \<notin> set a \<Longrightarrow> split_once (c # pat) a = None"
  using find_subsequence_skip [of c a "[]" pat] by (simp add: split_once_def)

text \<open>\<^verbatim>\<open>str::split\<close> by a non-empty string.\<close>

function split_str :: "string \<Rightarrow> string \<Rightarrow> string list" where
  "split_str pat s =
     (case split_once pat s of
        Some (a, b) \<Rightarrow> if pat = [] then [s] else a # split_str pat b
      | None \<Rightarrow> [s])"
  by pat_completeness auto
termination
proof (relation "measure (length \<circ> snd)")
  fix pat s x a b
  assume "split_once pat s = Some x" "(a, b) = x" "pat \<noteq> []"
  then obtain i where "find_subsequence s pat = Some i" "b = drop (i + length pat) s"
    by (auto simp: split_once_def split: option.splits)
  moreover from this(1) have "i + length pat \<le> length s" using find_subsequence_Some by blast
  moreover have "0 < length pat" using \<open>pat \<noteq> []\<close> by (rule length_greater_0_conv [THEN iffD2])
  ultimately have "length b < length s"
    by (simp only: length_drop)
  then show "((pat, b), pat, s) \<in> measure (length \<circ> snd)" by simp
qed simp

declare split_str.simps [simp del]

text \<open>Decimal numbers as \<^verbatim>\<open>from_str\<close> of the unsigned types reads them: an optional plus
  sign, then digits, with an error on overflow.\<close>

definition parse_uint :: "nat \<Rightarrow> string \<Rightarrow> nat option" where
  "parse_uint limit s =
     (let ds = (case s of c # r \<Rightarrow> if c = CHR ''+'' then r else s | [] \<Rightarrow> s)
      in if ds = [] \<or> \<not> list_all is_ascii_digit ds then None
         else if undec ds \<le> limit then Some (undec ds) else None)"

lemma dec_digits: "list_all is_ascii_digit (dec n) \<and> dec n \<noteq> []"
proof (induction n rule: dec.induct)
  case (1 n)
  have "is_ascii_digit (char_of (48 + d))" if "d < 10" for d :: nat
    using that by (simp add: is_ascii_digit_def)
  then show ?case using 1 by (subst (1 2) dec.simps) simp
qed

lemma parse_uint_dec: "n \<le> limit \<Longrightarrow> parse_uint limit (dec n) = Some n"
proof -
  assume n: "n \<le> limit"
  obtain c cs where d: "dec n = c # cs" using dec_digits [of n] by (cases "dec n") auto
  then have "c \<noteq> CHR ''+''" using dec_digits [of n] by (auto simp: is_ascii_digit_def)
  then have "(case dec n of c # r \<Rightarrow> if c = CHR ''+'' then r else dec n | [] \<Rightarrow> dec n) = dec n" using d by simp
  then show ?thesis using n dec_digits [of n] undec_dec [of n] by (simp add: parse_uint_def Let_def)
qed

definition strip_prefix :: "string \<Rightarrow> string \<Rightarrow> string option" where
  "strip_prefix pat s = (if take (length pat) s = pat then Some (drop (length pat) s) else None)"

lemma strip_prefix_append [simp]: "strip_prefix pat (pat @ s) = Some s"
  by (simp add: strip_prefix_def)

section \<open>ASCII case\<close>

definition to_ascii_lowercase :: "string \<Rightarrow> string" where
  "to_ascii_lowercase s =
     map (\<lambda>c. let n = (of_char c :: nat) in if 65 \<le> n \<and> n \<le> 90 then char_of (n + 32) else c) s"

definition eq_ignore_ascii_case :: "string \<Rightarrow> string \<Rightarrow> bool" where
  "eq_ignore_ascii_case a b \<longleftrightarrow> to_ascii_lowercase a = to_ascii_lowercase b"

section \<open>Trimming\<close>

text \<open>The characters with the White\_Space property, as UTF-8; \<^verbatim>\<open>str::trim\<close> removes them at
  both ends.\<close>

definition whitespace_chars :: "string list" where
  "whitespace_chars =
    [[CHR 0x09], [CHR 0x0A], [CHR 0x0B], [CHR 0x0C], [CHR 0x0D], [CHR 0x20],
     [CHR 0xC2, CHR 0x85], [CHR 0xC2, CHR 0xA0], [CHR 0xE1, CHR 0x9A, CHR 0x80],
     [CHR 0xE2, CHR 0x80, CHR 0x80], [CHR 0xE2, CHR 0x80, CHR 0x81],
     [CHR 0xE2, CHR 0x80, CHR 0x82], [CHR 0xE2, CHR 0x80, CHR 0x83],
     [CHR 0xE2, CHR 0x80, CHR 0x84], [CHR 0xE2, CHR 0x80, CHR 0x85],
     [CHR 0xE2, CHR 0x80, CHR 0x86], [CHR 0xE2, CHR 0x80, CHR 0x87],
     [CHR 0xE2, CHR 0x80, CHR 0x88], [CHR 0xE2, CHR 0x80, CHR 0x89],
     [CHR 0xE2, CHR 0x80, CHR 0x8A], [CHR 0xE2, CHR 0x80, CHR 0xA8],
     [CHR 0xE2, CHR 0x80, CHR 0xA9], [CHR 0xE2, CHR 0x80, CHR 0xAF],
     [CHR 0xE2, CHR 0x81, CHR 0x9F], [CHR 0xE3, CHR 0x80, CHR 0x80]]"

function strip_chars :: "string list \<Rightarrow> string \<Rightarrow> string" where
  "strip_chars pats s =
     (case find (\<lambda>p. p \<noteq> [] \<and> take (length p) s = p) pats of
        None \<Rightarrow> s
      | Some p \<Rightarrow> strip_chars pats (drop (length p) s))"
  by pat_completeness auto
termination
  by (relation "measure (length \<circ> snd)") (auto dest!: find_Some_iff [THEN iffD1] intro!: diff_less)

declare strip_chars.simps [simp del]

definition trim :: "string \<Rightarrow> string" where
  "trim s = rev (strip_chars (map rev whitespace_chars) (rev (strip_chars whitespace_chars s)))"

section \<open>UTF-8\<close>

text \<open>\<^verbatim>\<open>read_to_string\<close> fails on bytes that are not UTF-8.\<close>

definition utf8_tail :: "nat \<Rightarrow> bool" where
  "utf8_tail b \<longleftrightarrow> 128 \<le> b \<and> b < 192"

fun utf8_valid :: "nat list \<Rightarrow> bool" where
  "utf8_valid [] = True"
| "utf8_valid (a # bs) =
     (if a < 128 then utf8_valid bs
      else if 194 \<le> a \<and> a < 224 then
        (case bs of b # r \<Rightarrow> utf8_tail b \<and> utf8_valid r | _ \<Rightarrow> False)
      else if 224 \<le> a \<and> a < 240 then
        (case bs of b # c # r \<Rightarrow>
           utf8_tail b \<and> (a = 224 \<longrightarrow> 160 \<le> b) \<and> (a = 237 \<longrightarrow> b < 160) \<and> utf8_tail c \<and> utf8_valid r
         | _ \<Rightarrow> False)
      else if 240 \<le> a \<and> a < 245 then
        (case bs of b # c # d # r \<Rightarrow>
           utf8_tail b \<and> (a = 240 \<longrightarrow> 144 \<le> b) \<and> (a = 244 \<longrightarrow> b < 144) \<and> utf8_tail c \<and> utf8_tail d \<and> utf8_valid r
         | _ \<Rightarrow> False)
      else False)"

definition read_to_string :: "byte list \<Rightarrow> string option" where
  "read_to_string bs = (if utf8_valid (map unat bs) then Some (map (\<lambda>b. char_of (unat b)) bs) else None)"

end
