(* ===== verification/Gateway_Server.thy ===== *)
theory Gateway_Server
  imports Text
begin

text \<open>
  The accept path of the frontend server, \<^verbatim>\<open>nexal-gateway/src/server.rs\<close>: the header
  lines of a TCP connection are read to decide between a WebSocket upgrade and a health check,
  and are replayed to the WebSocket handshake through \<^verbatim>\<open>PrefixedStream\<close>.  A connection
  is the list of bytes the client sends; how many bytes one read of the socket returns is an
  argument.  \<open>valid\<close> is the UTF-8 check of \<^verbatim>\<open>read_line\<close>.
\<close>

section \<open>Replaying a prefix\<close>

record PrefixedStream =
  ps_prefix :: string
  ps_position :: nat
  ps_inner :: string

text \<open>One \<^verbatim>\<open>poll_read\<close> into a buffer with \<open>room\<close> bytes left; an inner read
  delivers at most \<open>avail\<close> bytes.\<close>

definition poll_read :: "nat \<Rightarrow> nat \<Rightarrow> PrefixedStream \<Rightarrow> string \<times> PrefixedStream" where
  "poll_read room avail s =
     (let pos = ps_position s; data = ps_prefix s
      in if pos < length data then
           let remaining = drop pos data;
               n = min (length remaining) room
           in (take n remaining, s\<lparr>ps_position := pos + n\<rparr>)
         else
           let n = min room avail
           in (take n (ps_inner s), s\<lparr>ps_inner := drop n (ps_inner s)\<rparr>))"

fun poll_reads :: "(nat \<times> nat) list \<Rightarrow> PrefixedStream \<Rightarrow> string \<times> PrefixedStream" where
  "poll_reads [] s = ([], s)"
| "poll_reads ((room, avail) # rs) s =
     (case poll_read room avail s of (out, s) \<Rightarrow>
        (case poll_reads rs s of (outs, s) \<Rightarrow> (out @ outs, s)))"

definition unread :: "PrefixedStream \<Rightarrow> string" where
  "unread s = drop (ps_position s) (ps_prefix s) @ ps_inner s"

section \<open>Reading the request head\<close>

fun split_line :: "string \<Rightarrow> string \<times> string" where
  "split_line [] = ([], [])"
| "split_line (c # cs) =
     (if c = CHR 0x0A then ([c], cs) else (case split_line cs of (l, rest) \<Rightarrow> (c # l, rest)))"

lemma split_line_append: "fst (split_line s) @ snd (split_line s) = s"
  by (induction s) (auto split: prod.splits)

lemma split_line_length: "s \<noteq> [] \<Longrightarrow> length (snd (split_line s)) < length s"
proof (induction s)
  case (Cons c cs)
  then show ?case by (cases "cs = []") (auto split: prod.splits)
qed simp

function all_lines :: "string \<Rightarrow> string list" where
  "all_lines input =
     (if input = [] then [] else fst (split_line input) # all_lines (snd (split_line input)))"
  by pat_completeness auto
termination
  by (relation "measure length") (auto simp: split_line_length)

declare all_lines.simps [simp del]

definition UPGRADE_LINE :: string where
  "UPGRADE_LINE = ''upgrade: websocket'' @ [CHR 0x0D, CHR 0x0A]"

text \<open>The loop over header lines: the bytes read so far, whether an upgrade line was seen, and
  what is left in the reader.\<close>

function read_head :: "(string \<Rightarrow> bool) \<Rightarrow> string \<Rightarrow> bool \<Rightarrow> string \<Rightarrow> string \<times> bool \<times> string" where
  "read_head valid headers is_ws input =
     (if input = [] then (headers, is_ws, [])
      else
        let line = fst (split_line input);
            rest = snd (split_line input)
        in if \<not> valid line then (headers, is_ws, rest)
           else
             let headers = headers @ line;
                 is_ws = (is_ws \<or> eq_ignore_ascii_case line UPGRADE_LINE)
             in if line = [CHR 0x0D, CHR 0x0A] then (headers, is_ws, rest)
                else read_head valid headers is_ws rest)"
  by pat_completeness auto
termination
  by (relation "measure (\<lambda>(_, _, _, input). length input)") (auto simp: split_line_length)

declare read_head.simps [simp del]

definition HEALTH_RESPONSE :: string where
  "HEALTH_RESPONSE = ''HTTP/1.1 200 OK'' @ [CHR 0x0D, CHR 0x0A] @ ''Content-Length: 2'' @
     [CHR 0x0D, CHR 0x0A, CHR 0x0D, CHR 0x0A] @ ''OK''"

datatype accept_outcome = Upgrade PrefixedStream | HealthCheck string

definition accept_tcp :: "(string \<Rightarrow> bool) \<Rightarrow> string \<Rightarrow> accept_outcome" where
  "accept_tcp valid input =
     (case read_head valid [] False input of
        (headers, is_ws, rest) \<Rightarrow>
          if is_ws then Upgrade \<lparr>ps_prefix = headers, ps_position = 0, ps_inner = rest\<rparr>
          else HealthCheck HEALTH_RESPONSE)"

section \<open>Lemmas\<close>

lemma poll_read_unread:
  "poll_read room avail s = (out, s') \<Longrightarrow> out @ unread s' = unread s"
proof (cases "ps_position s < length (ps_prefix s)")
  case True
  assume p: "poll_read room avail s = (out, s')"
  let ?rem = "drop (ps_position s) (ps_prefix s)"
  let ?n = "min (length ?rem) room"
  have "drop (ps_position s + ?n) (ps_prefix s) = drop ?n ?rem" by (simp add: add.commute)
  moreover have "out = take ?n ?rem" "unread s' = drop (ps_position s + ?n) (ps_prefix s) @ ps_inner s"
    using p True by (auto simp: poll_read_def Let_def unread_def)
  ultimately have "out @ unread s' = (take ?n ?rem @ drop ?n ?rem) @ ps_inner s" by simp
  then show ?thesis unfolding append_take_drop_id by (simp add: unread_def)
next
  case False
  assume "poll_read room avail s = (out, s')"
  then show ?thesis using False by (auto simp: poll_read_def Let_def unread_def)
qed

lemma poll_reads_unread: "poll_reads rs s = (out, s') \<Longrightarrow> out @ unread s' = unread s"
proof (induction rs arbitrary: s out)
  case (Cons r rs)
  obtain room avail where r: "r = (room, avail)" by (cases r)
  obtain o1 s1 where 1: "poll_read room avail s = (o1, s1)" by force
  obtain o2 s2 where 2: "poll_reads rs s1 = (o2, s2)" by force
  show ?case using Cons r 1 2 poll_read_unread [OF 1] by auto
qed auto

text \<open>Every read into a buffer with room makes progress while the prefix lasts.\<close>

lemma poll_read_progress:
  "\<lbrakk>0 < room; 0 < avail; unread s \<noteq> []\<rbrakk> \<Longrightarrow> fst (poll_read room avail s) \<noteq> []"
  by (auto simp: poll_read_def Let_def unread_def)

lemma read_head_complete:
  "\<lbrakk>\<forall>l \<in> set (all_lines input). valid l; read_head valid headers is_ws input = (headers', is_ws', rest)\<rbrakk> \<Longrightarrow>
     headers' @ rest = headers @ input"
proof (induction valid headers is_ws input rule: read_head.induct)
  case (1 valid headers is_ws input)
  let ?line = "fst (split_line input)" and ?rest = "snd (split_line input)"
  show ?case
  proof (cases "input = []")
    case True
    then show ?thesis using 1(3) by (simp add: read_head.simps [of valid headers is_ws "[]"])
  next
    case False
    have v: "valid ?line" "\<forall>l \<in> set (all_lines ?rest). valid l"
      using 1(2) False by (simp_all add: all_lines.simps [of input])
    show ?thesis
    proof (cases "?line = [CHR 0x0D, CHR 0x0A]")
      case True
      then show ?thesis
        using 1(3) False v split_line_append [of input]
        by (auto simp: read_head.simps [of valid headers is_ws input] Let_def)
    next
      case nl: False
      have "read_head valid (headers @ ?line) (is_ws \<or> eq_ignore_ascii_case ?line UPGRADE_LINE) ?rest =
          (headers', is_ws', rest)"
        using 1(3) False nl v by (simp add: read_head.simps [of valid headers is_ws input] Let_def)
      from 1(1) [OF False refl refl _ refl refl nl v(2) this] v split_line_append [of input]
      show ?thesis by simp
    qed
  qed
qed

section \<open>Properties\<close>

text \<open>Inspecting the request head of a UTF-8 request loses nothing: when the connection is upgraded, the
  WebSocket handshake reads exactly the bytes the client sent, from the first one, however the
  reads are sized and split, and every read makes progress while bytes are left.\<close>

theorem upgrade_replays_request:
  assumes "\<forall>l. l \<in> set (all_lines input) \<longrightarrow> valid l" and "accept_tcp valid input = Upgrade s"
  shows "poll_reads rs s = (out, s') \<longrightarrow> out @ unread s' = input \<and>
     (0 < room \<and> 0 < avail \<and> unread s' \<noteq> [] \<longrightarrow> fst (poll_read room avail s') \<noteq> [])"
proof (intro impI conjI)
  assume "poll_reads rs s = (out, s')"
  then have "out @ unread s' = unread s" by (rule poll_reads_unread)
  also have "unread s = input"
  proof -
    obtain h rest where h: "read_head valid [] False input = (h, True, rest)"
      and s: "s = \<lparr>ps_prefix = h, ps_position = 0, ps_inner = rest\<rparr>"
      using assms(2) by (auto simp: accept_tcp_def split: prod.splits if_splits)
    have "h @ rest = [] @ input" by (rule read_head_complete [OF _ h]) (use assms(1) in blast)
    then show ?thesis by (simp add: s unread_def)
  qed
  finally show "out @ unread s' = input" .
next
  assume "0 < room \<and> 0 < avail \<and> unread s' \<noteq> []"
  then show "fst (poll_read room avail s') \<noteq> []" by (simp add: poll_read_progress)
qed

theorem upgrade_replays_request_witness:
  "\<exists>s. accept_tcp (\<lambda>_. True) (UPGRADE_LINE @ ''x'') = Upgrade s \<and>
     (\<exists>out s'. poll_reads [(5, 9), (100, 9), (1, 1)] s = (out, s') \<and> out @ unread s' = UPGRADE_LINE @ ''x'')"
proof -
  have line: "split_line (UPGRADE_LINE @ ''x'') = (UPGRADE_LINE, ''x'')" by (simp add: UPGRADE_LINE_def)
  have "accept_tcp (\<lambda>_. True) (UPGRADE_LINE @ ''x'') =
      Upgrade \<lparr>ps_prefix = UPGRADE_LINE @ ''x'', ps_position = 0, ps_inner = []\<rparr>"
    unfolding accept_tcp_def
    by (subst read_head.simps, simp add: line, simp add: Let_def UPGRADE_LINE_def eq_ignore_ascii_case_def)
       (subst read_head.simps, simp, subst read_head.simps, simp)
  moreover obtain out s' where p: "poll_reads [(5, 9), (100, 9), (1, 1)]
      \<lparr>ps_prefix = UPGRADE_LINE @ ''x'', ps_position = 0, ps_inner = []\<rparr> = (out, s')" by force
  ultimately show ?thesis
    using upgrade_replays_request [of "UPGRADE_LINE @ ''x''" "\<lambda>_. True" _ "[(5, 9), (100, 9), (1, 1)]" out s'] by blast
qed

end
