(* ===== verification/Paths.thy ===== *)
theory Paths
  imports Text
begin

text \<open>
  The part of \<^verbatim>\<open>std::path\<close> on Unix that the sources use.  Two paths are equal for
  Rust when their components are.
\<close>

section \<open>Paths\<close>

datatype component = RootDir | CurDir | ParentDir | Normal string

definition segment_component :: "string \<Rightarrow> component" where
  "segment_component seg = (if seg = ''..'' then ParentDir else Normal seg)"

definition body_components :: "string list \<Rightarrow> component list" where
  "body_components segs = map segment_component (filter (\<lambda>s. s \<noteq> [] \<and> s \<noteq> ''.'') segs)"

definition is_absolute :: "string \<Rightarrow> bool" where
  "is_absolute p \<longleftrightarrow> p \<noteq> [] \<and> hd p = CHR ''/''"

definition components :: "string \<Rightarrow> component list" where
  "components p =
     (let segs = split_on (CHR ''/'') p
      in if is_absolute p then RootDir # body_components segs
         else if hd segs = ''.'' then CurDir # body_components (tl segs)
         else body_components segs)"

definition path_join :: "string \<Rightarrow> string \<Rightarrow> string" where
  "path_join base rel =
     (if is_absolute rel then rel
      else if base = [] \<or> last base = CHR ''/'' then base @ rel
      else base @ ''/'' @ rel)"

definition starts_with :: "string \<Rightarrow> string \<Rightarrow> bool" where
  "starts_with p base \<longleftrightarrow> take (length (components base)) (components p) = components base"

section \<open>Lemmas\<close>

lemma body_components_append [simp]: "body_components (a @ b) = body_components a @ body_components b"
  by (simp add: body_components_def)

lemma body_components_Nil [simp]: "body_components [[]] = []" "body_components [] = []"
  by (simp_all add: body_components_def)

lemma components_join:
  assumes "\<not> is_absolute rel" and "components rel = body_components (split_on (CHR ''/'') rel)"
  shows "components (path_join base rel) = components base @ components rel"
proof (cases base rule: rev_cases)
  case Nil
  then show ?thesis
    using assms by (simp add: path_join_def components_def is_absolute_def)
next
  case (snoc b x)
  have segs: "components base @ body_components (split_on (CHR ''/'') rel) = components (b0 @ CHR ''/'' # rel)"
    if "base = b0 \<or> base = b0 @ ''/''" "base \<noteq> []" for b0
  proof (cases "b0 = []")
    case True
    then have "base = ''/''" using that by simp
    then show ?thesis
      using True by (simp add: components_def is_absolute_def Let_def body_components_def)
  next
    case False
    have abs: "is_absolute (b0 @ CHR ''/'' # rel) = is_absolute b0" "is_absolute base = is_absolute b0"
      using False that by (auto simp: is_absolute_def)
    have s: "split_on (CHR ''/'') (b0 @ CHR ''/'' # rel) = split_on (CHR ''/'') b0 @ split_on (CHR ''/'') rel"
      using split_on_sep [of "CHR ''/''" b0 rel] by simp
    have sb: "split_on (CHR ''/'') base = split_on (CHR ''/'') b0 \<or>
        split_on (CHR ''/'') base = split_on (CHR ''/'') b0 @ [[]]"
      using that split_on_sep [of "CHR ''/''" b0 "[]"] by auto
    obtain h t where ht: "split_on (CHR ''/'') b0 = h # t" by (cases "split_on (CHR ''/'') b0") auto
    show ?thesis
      using sb ht by (auto simp: components_def abs s Let_def body_components_def)
  qed
  show ?thesis
  proof (cases "x = CHR ''/''")
    case True
    then show ?thesis using segs [of b] snoc assms by (simp add: path_join_def)
  next
    case False
    then show ?thesis using segs [of base] snoc assms by (simp add: path_join_def)
  qed
qed

lemma starts_with_append: "components p = components base @ cs \<Longrightarrow> starts_with p base"
  by (simp add: starts_with_def)

definition seg_ok :: "string \<Rightarrow> bool" where
  "seg_ok s \<longleftrightarrow> s \<noteq> [] \<and> s \<noteq> ''.'' \<and> s \<noteq> ''..'' \<and> CHR ''/'' \<notin> set s"

lemma normal_body_components:
  "\<forall>c \<in> set (body_components (split_on (CHR ''/'') p)). \<exists>s. c = Normal s \<Longrightarrow>
   \<exists>names. body_components (split_on (CHR ''/'') p) = map Normal names \<and> (\<forall>n \<in> set names. seg_ok n)"
proof -
  let ?names = "filter (\<lambda>s. s \<noteq> [] \<and> s \<noteq> ''.'') (split_on (CHR ''/'') p)"
  assume a: "\<forall>c \<in> set (body_components (split_on (CHR ''/'') p)). \<exists>s. c = Normal s"
  have nd: "n \<noteq> ''..''" if "n \<in> set ?names" for n
    using a that by (auto simp: body_components_def segment_component_def)
  then have "body_components (split_on (CHR ''/'') p) = map Normal ?names"
    by (auto simp: body_components_def segment_component_def)
  moreover have "\<forall>n \<in> set ?names. seg_ok n"
    using nd split_on_segments by (auto simp: seg_ok_def)
  ultimately show ?thesis by blast
qed

lemma path_join_relative: "seg_ok n \<Longrightarrow> \<not> is_absolute p \<Longrightarrow> \<not> is_absolute (path_join p n)"
  by (cases p; cases n) (auto simp: path_join_def is_absolute_def seg_ok_def)

lemma components_plain:
  assumes "seg_ok n" shows "components n = [Normal n]" "\<not> is_absolute n"
    "components n = body_components (split_on (CHR ''/'') n)"
  using assms by (cases n; auto simp: seg_ok_def components_def body_components_def
      segment_component_def is_absolute_def split_on_plain Let_def)+

lemma components_foldl_join:
  assumes "\<forall>n \<in> set names. seg_ok n"
  shows "components (foldl path_join p names) = components p @ map Normal names"
  using assms
proof (induction names arbitrary: p)
  case (Cons n names)
  then have "components (path_join p n) = components p @ [Normal n]"
    using components_join [of n p] components_plain [of n] by simp
  then show ?case using Cons by simp
qed simp

lemma foldl_join_relative:
  "\<lbrakk>\<forall>n \<in> set names. seg_ok n; \<not> is_absolute p\<rbrakk> \<Longrightarrow> \<not> is_absolute (foldl path_join p names)"
  by (induction names arbitrary: p) (simp_all add: path_join_relative)

lemma foldl_path_join_prefix:
  assumes "\<forall>n \<in> set names. seg_ok n" "names \<noteq> []" "seg_ok name"
  shows "name @ ''/'' @ foldl path_join [] names = foldl path_join [] (name # names)"
proof -
  have step: "foldl path_join (q @ CHR ''/'' # p) ns = q @ CHR ''/'' # foldl path_join p ns"
    if "\<forall>n \<in> set ns. seg_ok n" "p \<noteq> []" for q p ns
    using that
  proof (induction ns arbitrary: p)
    case (Cons n ns)
    have "path_join (q @ CHR ''/'' # p) n = q @ CHR ''/'' # path_join p n" and "path_join p n \<noteq> []"
      using Cons.prems components_plain(2) [of n] by (auto simp: path_join_def)
    then show ?case using Cons by simp
  qed simp
  obtain n ns where names: "names = n # ns" using assms(2) by (cases names) auto
  have n: "seg_ok n" using assms(1) names by simp
  have "name \<noteq> []" "n \<noteq> []" and l: "last name \<noteq> CHR ''/''"
    using assms(3) n last_in_set [of name] unfolding seg_ok_def by metis+
  then have "path_join (path_join [] name) n = name @ CHR ''/'' # n" "path_join [] n = n"
    using components_plain(2) [OF n] components_plain(2) [OF assms(3)] by (simp_all add: path_join_def)
  then show ?thesis using step [of ns n name] assms(1) \<open>n \<noteq> []\<close> names by simp
qed

end
