(* ===== verification/Gateway_Listener.thy ===== *)
theory Gateway_Listener
  imports Session Gateway_Server Paths
begin

text \<open>
  The listener of the gateway, \<^verbatim>\<open>serve\<close> and \<^verbatim>\<open>handle_unix_stream\<close> of
  \<^verbatim>\<open>nexal-gateway/src/server.rs\<close>: every accepted connection that speaks WebSocket, and
  every connection to the Unix socket, gets a session of its own; all sessions share the registry
  and the cache of nonces, and the notifications of the agents go to all of them.  What is shown is
  that authentication is per session, whatever the interleaving, and that a hello admits one
  session.
\<close>

section \<open>Starting\<close>

record BindSteps =
  bs_create_parent :: "(string, unit) result"
  bs_unix_bind :: "(string, unit) result"
  bs_tcp_bind :: "string \<Rightarrow> (string, unit) result"
  bs_local_addr :: "(string, string) result"

definition has_parent :: "string \<Rightarrow> bool" where
  "has_parent path \<longleftrightarrow> components path \<noteq> [] \<and> components path \<noteq> [RootDir]"

text \<open>An old socket file is removed first, whether or not it is there.\<close>

definition start_listening :: "BindSteps \<Rightarrow> string option \<Rightarrow> string \<Rightarrow> (string, unit) result" where
  "start_listening steps unix listen =
     (case unix of
        Some path \<Rightarrow>
          (case (if has_parent path then bs_create_parent steps else Ok ()) of
             Inl e \<Rightarrow> Err e
           | Inr _ \<Rightarrow> bs_unix_bind steps)
      | None \<Rightarrow>
          (case bs_tcp_bind steps listen of
             Inl e \<Rightarrow> Err e
           | Inr _ \<Rightarrow> (case bs_local_addr steps of Inl e \<Rightarrow> Err e | Inr _ \<Rightarrow> Ok ())))"

section \<open>Sessions over one gateway\<close>

record FrontendSession =
  fs_label :: string
  fs_session :: Session
  fs_open :: bool
  fs_subscribed :: bool

record 'w GatewayListener =
  gl_gateway :: "'w Gateway"
  gl_sessions :: "FrontendSession list"
  gl_health :: "(string \<times> string) list"

definition gateway_listener_new :: "'w Gateway \<Rightarrow> 'w GatewayListener" where
  "gateway_listener_new g = \<lparr>gl_gateway = g, gl_sessions = [], gl_health = []\<rparr>"

text \<open>Events: an accept fails; a TCP peer connects, with what it sends first and the outcome of the
  WebSocket handshake; a peer connects to the Unix socket; an event in the loop of a session; an agent
  notifies; a session's receiver of notifications lags.\<close>

datatype 'w gateway_event =
    GAcceptFails string
  | GTcp string string "(string, unit) result"
  | GUnix "string option"
  | GSession nat "'w Env" channel_event
  | GNotify "'w Env" TaggedNotification
  | GLagged nat

definition open_session :: "string \<Rightarrow> 'w GatewayListener \<Rightarrow> 'w GatewayListener" where
  "open_session label l =
     l\<lparr>gl_sessions := gl_sessions l @ [\<lparr>fs_label = label, fs_session = session_new, fs_open = True, fs_subscribed = True\<rparr>]\<rparr>"

definition session_event ::
  "'w Env \<Rightarrow> ServerConfig \<Rightarrow> channel_event \<Rightarrow> 'w Gateway \<Rightarrow> FrontendSession \<Rightarrow> ('w Gateway \<times> FrontendSession) run" where
  "session_event env cfg ev g s =
     (if \<not> fs_open s then Returns (g, s)
      else
        (case ev of
           Message v \<Rightarrow>
             (case handle_value env cfg v g (fs_session s) of
                Panics \<Rightarrow> Panics
              | Returns (g, se) \<Rightarrow> Returns (g, s\<lparr>fs_session := se\<rparr>))
         | MalformedMessage reason \<Rightarrow>
             Returns (g, s\<lparr>fs_session := send_response (response_err VNil PARSE_ERROR reason) (fs_session s)\<rparr>)
         | Disconnected reason \<Rightarrow> Returns (g, s\<lparr>fs_open := False\<rparr>)))"

definition notify_session :: "'w Env \<Rightarrow> TaggedNotification \<Rightarrow> FrontendSession \<Rightarrow> FrontendSession" where
  "notify_session env n s = 
     (if fs_open s \<and> fs_subscribed s then s\<lparr>fs_session := forward_notification env n (fs_session s)\<rparr> else s)"

text \<open>The receiver of a session that is too slow reports that it lags; the notification task takes that
  for the end.\<close>

definition lag_session :: "FrontendSession \<Rightarrow> FrontendSession" where
  "lag_session s = s\<lparr>fs_subscribed := False\<rparr>"

definition gateway_step ::
  "ServerConfig \<Rightarrow> (string \<Rightarrow> bool) \<Rightarrow> 'w gateway_event \<Rightarrow> 'w GatewayListener \<Rightarrow> 'w GatewayListener run" where
  "gateway_step cfg valid ev l =
     (case ev of
        GAcceptFails e \<Rightarrow> Returns l
      | GTcp remote_addr input handshake \<Rightarrow>
          (case accept_tcp valid input of
             HealthCheck reply \<Rightarrow> Returns (l\<lparr>gl_health := gl_health l @ [(remote_addr, reply)]\<rparr>)
           | Upgrade stream \<Rightarrow>
               (case handshake of
                  Inl e \<Rightarrow> Returns l
                | Inr _ \<Rightarrow> Returns (open_session (''ws-'' @ remote_addr) l)))
      | GUnix path \<Rightarrow> Returns (open_session (''unix-'' @ (case path of Some p \<Rightarrow> p | None \<Rightarrow> [])) l)
      | GSession i env ev \<Rightarrow>
          if i < length (gl_sessions l) then
            (case session_event env cfg ev (gl_gateway l) (gl_sessions l ! i) of
               Panics \<Rightarrow> Panics
             | Returns (g, s) \<Rightarrow> Returns (l\<lparr>gl_gateway := g, gl_sessions := (gl_sessions l)[i := s]\<rparr>))
          else Returns l
      | GNotify env n \<Rightarrow> Returns (l\<lparr>gl_sessions := map (notify_session env n) (gl_sessions l)\<rparr>)
      | GLagged i \<Rightarrow>
          if i < length (gl_sessions l)
          then Returns (l\<lparr>gl_sessions := (gl_sessions l)[i := lag_session (gl_sessions l ! i)]\<rparr>)
          else Returns l)"

fun gateway_serve ::
  "ServerConfig \<Rightarrow> (string \<Rightarrow> bool) \<Rightarrow> 'w gateway_event list \<Rightarrow> 'w GatewayListener \<Rightarrow> 'w GatewayListener run" where
  "gateway_serve cfg valid [] l = Returns l"
| "gateway_serve cfg valid (ev # events) l =
     (case gateway_step cfg valid ev l of Panics \<Rightarrow> Panics | Returns l \<Rightarrow> gateway_serve cfg valid events l)"

definition authenticated_at :: "'w GatewayListener \<Rightarrow> nat \<Rightarrow> bool" where
  "authenticated_at l i \<longleftrightarrow> i < length (gl_sessions l) \<and> se_authenticated (fs_session (gl_sessions l ! i))"

section \<open>Authentication is per session\<close>

definition hello_of :: "'w Env \<Rightarrow> value \<Rightarrow> HelloParams option" where
  "hello_of env v =
     (case ev_decode_request env v of
        Inr req \<Rightarrow>
          if gateway_parse (rq_method req) = Some Hello
          then (case ev_decode_hello env (case rq_params req of None \<Rightarrow> VNil | Some p \<Rightarrow> p) of Inr p \<Rightarrow> Some p | Inl _ \<Rightarrow> None)
          else None
      | Inl _ \<Rightarrow> None)"

text \<open>What is sent to a session that is not authenticated.\<close>

definition only_errors :: "FrontendSession \<Rightarrow> bool" where
  "only_errors s \<longleftrightarrow> se_authenticated (fs_session s) \<or> list_all is_error_out (se_sent (fs_session s))"

section \<open>Nonces\<close>

lemma call_agent_nonces [simp]: "gw_nonces (fst (call_agent env e m ps g)) = gw_nonces g"
  by (simp add: call_agent_def)

lemma with_nonces [simp]: "gw_nonces (with_proxies f g) = gw_nonces g" "gw_nonces (with_tcp h g) = gw_nonces g"
  by (simp_all add: with_proxies_def with_tcp_def)

lemma call_agent_nonces_eq: "call_agent env e m ps g = (g', r) \<Longrightarrow> gw_nonces g' = gw_nonces g"
  using call_agent_nonces [of env e m ps g] by simp

lemma agent_arms_nonces [simp]:
  "gw_nonces (fst (do_spawn env sp g)) = gw_nonces g"
  "gw_nonces (fst (do_kill env i g)) = gw_nonces g"
  "gw_nonces (fst (do_detach env i g)) = gw_nonces g"
  "gw_nonces (fst (do_attach env i g)) = gw_nonces g"
  "gw_nonces (fst (do_list env g)) = gw_nonces g"
  by (simp_all add: do_spawn_def do_kill_def do_detach_def do_attach_def do_list_def case_prod_unfold)

lemma call_arms_nonces [simp]:
  "gw_nonces (fst (do_invoke env ip g)) = gw_nonces g"
  "gw_nonces (fst (do_register_proxy env cfg rp g)) = gw_nonces g"
  "gw_nonces (fst (do_unregister_proxy env up g)) = gw_nonces g"
  by (auto simp: do_invoke_def do_register_proxy_def do_unregister_proxy_def Let_def
      split: option.splits prod.splits sum.splits dest!: call_agent_nonces_eq)

lemma stream_arms_nonces [simp]:
  "gw_nonces (fst (do_register_stream_proxy env sr g)) = gw_nonces g"
  "gw_nonces (fst (do_unregister_stream_proxy env up g)) = gw_nonces g"
  by (simp_all add: do_register_stream_proxy_def do_unregister_stream_proxy_def Let_def split: option.splits sum.splits)

lemma registry_arm_keeps:
  assumes "registry_arm se (with_params decode v f g) = Returns (g', se', r)" "\<And>p. gw_nonces (fst (f p g)) = gw_nonces g"
  shows "gw_nonces g' = gw_nonces g \<and> se' = se"
  using assms by (auto simp: registry_arm_def with_params_def split: sum.splits prod.splits) (metis fst_conv)

text \<open>Only a decoded hello changes the nonces or authenticates, and only through its verification.\<close>

lemma dispatch_nonces:
  assumes d: "dispatch env cfg req g se = Returns (g', se', r)"
  shows "(gw_nonces g' = gw_nonces g \<and> se' = se) \<or>
    (gateway_parse (rq_method req) = Some Hello \<and>
      (\<exists>p res. ev_decode_hello env (case rq_params req of None \<Rightarrow> VNil | Some v \<Rightarrow> v) = Ok p \<and>
         verify_hello (ev_hmac_verify env) (sc_credentials cfg) (ev_unix_now env) p (gw_nonces g) = Returns (gw_nonces g', res) \<and>
         (se_authenticated se' \<longrightarrow> se_authenticated se \<or> res = Ok ())))"
proof (cases "gateway_parse (rq_method req)")
  case None
  then show ?thesis using d by (auto simp: dispatch_def)
next
  case (Some m)
  show ?thesis
  proof (cases "m = Hello")
    case True
    then show ?thesis
      using d Some by (auto simp: dispatch_def do_hello_def parse_params_def Let_def split: sum.splits run.splits prod.splits)
  next
    case False
    then have "gw_nonces g' = gw_nonces g \<and> se' = se"
      using d Some
      by (cases m) (auto simp: dispatch_def Let_def dest!: registry_arm_keeps, auto simp: registry_arm_def do_list_def)
    then show ?thesis by blast
  qed
qed

lemma handle_value_nonces:
  assumes h: "handle_value env cfg v g se = Returns (g', se')"
  shows "(gw_nonces g' = gw_nonces g \<and> se_authenticated se' = se_authenticated se) \<or>
    (\<exists>p res. hello_of env v = Some p \<and>
       verify_hello (ev_hmac_verify env) (sc_credentials cfg) (ev_unix_now env) p (gw_nonces g) = Returns (gw_nonces g', res) \<and>
       (se_authenticated se' \<longrightarrow> se_authenticated se \<or> res = Ok ()))"
proof -
  have "se_authenticated (send_response x se) = se_authenticated se" for x se by (simp add: send_response_def)
  then show ?thesis
    using h
    by (fastforce simp: handle_value_def hello_of_def split: sum.splits option.splits if_splits run.splits prod.splits
        dest!: dispatch_nonces)
qed

section \<open>Steps of the listener\<close>

lemma session_event_auth:
  assumes "session_event env cfg ev g s = Returns (g', s')"
  shows "(se_authenticated (fs_session s) \<longrightarrow> se_authenticated (fs_session s')) \<and>
    (\<not> se_authenticated (fs_session s) \<longrightarrow> gw_registry g' = gw_registry g \<and> gw_calls g' = gw_calls g) \<and>
    (only_errors s \<longrightarrow> only_errors s')"
proof (cases ev)
  case (Message v)
  show ?thesis
  proof (cases "fs_open s")
    case True
    then obtain se' where h: "handle_value env cfg v g (fs_session s) = Returns (g', se')" "s' = s\<lparr>fs_session := se'\<rparr>"
      using assms Message by (auto simp: session_event_def split: run.splits)
    show ?thesis
      using handle_value_unauthenticated [OF h(1)] handle_value_auth_mono [OF h(1)] h(2)
      by (auto simp: only_errors_def list_all_iff)
  qed (use assms in \<open>simp add: session_event_def\<close>)
next
  case (MalformedMessage reason)
  then show ?thesis
    using assms by (auto simp: session_event_def only_errors_def send_response_def is_error_out_def response_err_def split: if_splits)
next
  case (Disconnected reason)
  then show ?thesis using assms by (auto simp: session_event_def only_errors_def split: if_splits)
qed

lemma session_event_nonces:
  assumes "session_event env cfg ev g s = Returns (g', s')"
  shows "(gw_nonces g' = gw_nonces g \<and> se_authenticated (fs_session s') = se_authenticated (fs_session s)) \<or>
    (\<exists>v p res. ev = Message v \<and> hello_of env v = Some p \<and>
       verify_hello (ev_hmac_verify env) (sc_credentials cfg) (ev_unix_now env) p (gw_nonces g) = Returns (gw_nonces g', res) \<and>
       (se_authenticated (fs_session s') \<longrightarrow> se_authenticated (fs_session s) \<or> res = Ok ()))"
proof (cases "fs_open s \<and> (\<exists>v. ev = Message v)")
  case True
  then obtain v se' where "ev = Message v" "handle_value env cfg v g (fs_session s) = Returns (g', se')" "s' = s\<lparr>fs_session := se'\<rparr>"
    using assms by (auto simp: session_event_def split: run.splits)
  then show ?thesis using handle_value_nonces [of env cfg v g "fs_session s" g' se'] by auto
next
  case False
  then show ?thesis
    using assms by (auto simp: session_event_def send_response_def split: if_splits MessageChannelEvent.splits)
qed

lemma notify_session_auth:
  "se_authenticated (fs_session (notify_session env n s)) = se_authenticated (fs_session s)"
  "only_errors (notify_session env n s) = only_errors s"
  "se_authenticated (fs_session (lag_session s)) = se_authenticated (fs_session s)"
  "only_errors (lag_session s) = only_errors s"
  by (auto simp: notify_session_def lag_session_def forward_notification_def only_errors_def)

lemma gateway_step_session:
  assumes "gateway_step cfg valid (GSession i env ev) l = Returns l'" "i < length (gl_sessions l)"
  obtains g s where "session_event env cfg ev (gl_gateway l) (gl_sessions l ! i) = Returns (g, s)"
    "l' = l\<lparr>gl_gateway := g, gl_sessions := (gl_sessions l)[i := s]\<rparr>"
  using assms by (auto simp: gateway_step_def split: run.splits)

text \<open>The other events leave the gateway alone and authenticate nobody.\<close>

lemma gateway_step_other:
  assumes "gateway_step cfg valid ev l = Returns l'" "\<nexists>i env e. ev = GSession i env e \<and> i < length (gl_sessions l)"
  shows "gl_gateway l' = gl_gateway l \<and> (\<forall>i. authenticated_at l' i = authenticated_at l i) \<and>
    (list_all only_errors (gl_sessions l) \<longrightarrow> list_all only_errors (gl_sessions l'))"
  using assms
  by (cases ev) (auto simp: gateway_step_def open_session_def authenticated_at_def nth_append session_new_def
      notify_session_auth nth_list_update only_errors_def [of "\<lparr>fs_label = _, fs_session = _, fs_open = _, fs_subscribed = _\<rparr>"] list_all_iff
      split: accept_outcome.splits sum.splits if_splits dest!: subsetD [OF set_update_subset_insert])

lemma gateway_step_auth:
  assumes g: "gateway_step cfg valid ev l = Returns l'"
  shows "(authenticated_at l i \<longrightarrow> authenticated_at l' i) \<and>
    (list_all only_errors (gl_sessions l) \<longrightarrow> list_all only_errors (gl_sessions l')) \<and>
    ((\<nexists>j env e. ev = GSession j env e \<and> authenticated_at l j) \<longrightarrow>
       gw_registry (gl_gateway l') = gw_registry (gl_gateway l) \<and> gw_calls (gl_gateway l') = gw_calls (gl_gateway l))"
proof (cases "\<exists>j env e. ev = GSession j env e \<and> j < length (gl_sessions l)")
  case True
  then obtain j env e where ev: "ev = GSession j env e" "j < length (gl_sessions l)" by blast
  then obtain g s where "session_event env cfg e (gl_gateway l) (gl_sessions l ! j) = Returns (g, s)"
    "l' = l\<lparr>gl_gateway := g, gl_sessions := (gl_sessions l)[j := s]\<rparr>"
    using gateway_step_session g by blast
  then show ?thesis
    using session_event_auth [of env cfg e "gl_gateway l" "gl_sessions l ! j" g s] ev
    by (auto simp: authenticated_at_def nth_list_update list_all_length)
next
  case False
  then show ?thesis using gateway_step_other [OF g False] by simp
qed

lemma gateway_step_nonces:
  assumes g: "gateway_step cfg valid ev l = Returns l'"
  shows "(gw_nonces (gl_gateway l') = gw_nonces (gl_gateway l) \<and> (\<forall>i. authenticated_at l' i = authenticated_at l i)) \<or>
    (\<exists>j env v p res. ev = GSession j env (Message v) \<and> hello_of env v = Some p \<and>
       verify_hello (ev_hmac_verify env) (sc_credentials cfg) (ev_unix_now env) p (gw_nonces (gl_gateway l)) =
         Returns (gw_nonces (gl_gateway l'), res) \<and>
       (\<forall>i. authenticated_at l' i \<longrightarrow> authenticated_at l i \<or> i = j \<and> res = Ok ()))"
proof (cases "\<exists>j env e. ev = GSession j env e \<and> j < length (gl_sessions l)")
  case True
  then obtain j env e where ev: "ev = GSession j env e" "j < length (gl_sessions l)" by blast
  then obtain g s where "session_event env cfg e (gl_gateway l) (gl_sessions l ! j) = Returns (g, s)"
    "l' = l\<lparr>gl_gateway := g, gl_sessions := (gl_sessions l)[j := s]\<rparr>"
    using gateway_step_session g by blast
  then show ?thesis
    using session_event_nonces [of env cfg e "gl_gateway l" "gl_sessions l ! j" g s] ev
    by (auto simp: authenticated_at_def nth_list_update)
next
  case False
  then show ?thesis using gateway_step_other [OF g False] by simp
qed

lemma gateway_step_authenticates:
  assumes "gateway_step cfg valid ev l = Returns l'" "authenticated_at l' i" "\<not> authenticated_at l i"
  shows "\<exists>env v p. ev = GSession i env (Message v) \<and> hello_of env v = Some p \<and>
    verify_hello (ev_hmac_verify env) (sc_credentials cfg) (ev_unix_now env) p (gw_nonces (gl_gateway l)) =
      Returns (gw_nonces (gl_gateway l'), Ok ())"
  using gateway_step_nonces [OF assms(1)] assms(2,3) by fastforce

lemma gateway_serve_mono:
  "\<lbrakk>gateway_serve cfg valid events l = Returns l'; authenticated_at l j\<rbrakk> \<Longrightarrow> authenticated_at l' j"
  by (induction events arbitrary: l) (auto split: run.splits dest: gateway_step_auth)

lemma gateway_serve_errors:
  "\<lbrakk>gateway_serve cfg valid events l = Returns l'; list_all only_errors (gl_sessions l)\<rbrakk> \<Longrightarrow>
     list_all only_errors (gl_sessions l')"
  by (induction events arbitrary: l) (auto split: run.splits dest: gateway_step_auth)

lemma gateway_serve_unauthenticated:
  assumes "gateway_serve cfg valid events l = Returns l'" "\<forall>j. \<not> authenticated_at l' j"
  shows "gw_registry (gl_gateway l') = gw_registry (gl_gateway l) \<and> gw_calls (gl_gateway l') = gw_calls (gl_gateway l)"
  using assms
proof (induction events arbitrary: l)
  case (Cons ev events)
  then obtain l1 where l1: "gateway_step cfg valid ev l = Returns l1" "gateway_serve cfg valid events l1 = Returns l'"
    by (auto split: run.splits)
  have "\<not> authenticated_at l j" for j
    using gateway_step_auth [OF l1(1), of j] gateway_serve_mono [OF l1(2), of j] Cons.prems(2) by auto
  then show ?case using gateway_step_auth [OF l1(1)] Cons.IH [OF l1(2) Cons.prems(2)] by simp
qed simp

lemma gateway_serve_authenticates:
  assumes "gateway_serve cfg valid events l = Returns l'" "authenticated_at l' i" "\<not> authenticated_at l i"
  shows "\<exists>env v p cache cache'. GSession i env (Message v) \<in> set events \<and> hello_of env v = Some p \<and>
    verify_hello (ev_hmac_verify env) (sc_credentials cfg) (ev_unix_now env) p cache = Returns (cache', Ok ())"
  using assms
proof (induction events arbitrary: l)
  case (Cons ev events)
  then obtain l1 where l1: "gateway_step cfg valid ev l = Returns l1" "gateway_serve cfg valid events l1 = Returns l'"
    by (auto split: run.splits)
  show ?case
  proof (cases "authenticated_at l1 i")
    case True
    from gateway_step_authenticates [OF l1(1) True Cons.prems(3)] obtain env v p where
      "ev = GSession i env (Message v)" "hello_of env v = Some p"
      "verify_hello (ev_hmac_verify env) (sc_credentials cfg) (ev_unix_now env) p (gw_nonces (gl_gateway l)) =
         Returns (gw_nonces (gl_gateway l1), Ok ())" by blast
    then show ?thesis by (metis list.set_intros(1))
  next
    case False
    from Cons.IH [OF l1(2) Cons.prems(2) False] show ?thesis by (metis list.set_intros(2))
  qed
qed simp

section \<open>Properties\<close>

text \<open>C1. Authentication is per session, however the sessions of a gateway interleave: a session that is
  not authenticated has received nothing but errors, not even a notification of an agent; what it
  sends changes neither the registry nor calls an agent; and every authenticated session has sent a
  hello of its own that verified.  Health checks and failed handshakes open no session.\<close>

theorem gateway_sessions_gate:
  assumes "gateway_serve cfg valid events (gateway_listener_new g) = Returns l"
  shows "(\<forall>i < length (gl_sessions l). \<not> authenticated_at l i \<longrightarrow>
        list_all is_error_out (se_sent (fs_session (gl_sessions l ! i)))) \<and>
    (\<forall>i. authenticated_at l i \<longrightarrow> (\<exists>env v p cache cache'. GSession i env (Message v) \<in> set events \<and> hello_of env v = Some p \<and>
        verify_hello (ev_hmac_verify env) (sc_credentials cfg) (ev_unix_now env) p cache = Returns (cache', Ok ()))) \<and>
    ((\<forall>i. \<not> authenticated_at l i) \<longrightarrow>
        gw_registry (gl_gateway l) = gw_registry g \<and> gw_calls (gl_gateway l) = gw_calls g) \<and>
    (\<forall>i env ev l'. \<not> authenticated_at l i \<and> gateway_step cfg valid (GSession i env ev) l = Returns l' \<longrightarrow>
        gw_registry (gl_gateway l') = gw_registry (gl_gateway l) \<and> gw_calls (gl_gateway l') = gw_calls (gl_gateway l))"
proof (intro conjI allI impI)
  have new: "list_all only_errors (gl_sessions (gateway_listener_new g))" "\<not> authenticated_at (gateway_listener_new g) i" for i
    by (simp_all add: gateway_listener_new_def authenticated_at_def)
  show "list_all is_error_out (se_sent (fs_session (gl_sessions l ! i)))"
    if "i < length (gl_sessions l)" "\<not> authenticated_at l i" for i
    using gateway_serve_errors [OF assms new(1)] that by (auto simp: list_all_length only_errors_def authenticated_at_def)
  show "\<exists>env v p cache cache'. GSession i env (Message v) \<in> set events \<and> hello_of env v = Some p \<and>
      verify_hello (ev_hmac_verify env) (sc_credentials cfg) (ev_unix_now env) p cache = Returns (cache', Ok ())"
    if "authenticated_at l i" for i
    using gateway_serve_authenticates [OF assms that new(2)] .
  show "gw_registry (gl_gateway l) = gw_registry g" "gw_calls (gl_gateway l) = gw_calls g"
    if "\<forall>i. \<not> authenticated_at l i"
    using gateway_serve_unauthenticated [OF assms that] by (simp_all add: gateway_listener_new_def)
  show "gw_registry (gl_gateway l') = gw_registry (gl_gateway l)" "gw_calls (gl_gateway l') = gw_calls (gl_gateway l)"
    if "\<not> authenticated_at l i \<and> gateway_step cfg valid (GSession i env ev) l = Returns l'" for i env ev l'
    using gateway_step_auth [of cfg valid "GSession i env ev" l l'] that by simp_all
qed

text \<open>Two sessions, of which the first says hello and the second does not.\<close>

definition sample_hello_env :: "int \<Rightarrow> string list Env" where
  "sample_hello_env now = (sample_env (sample_request ''gateway/hello''))\<lparr>ev_unix_now := now\<rparr>"

definition sample_serve :: "string list gateway_event list" where
  "sample_serve = [GUnix None, GAcceptFails ''again'', GUnix (Some ''/tmp/b''),
     GSession 1 (sample_env (sample_request ''gateway/kill_agent'')) (Message VNil),
     GSession 0 (sample_hello_env 1000) (Message VNil)]"

lemma sample_serve_result:
  "case gateway_serve sample_config (\<lambda>_. True) sample_serve (gateway_listener_new sample_gateway) of
     Panics \<Rightarrow> False
   | Returns l \<Rightarrow> length (gl_sessions l) = 2 \<and> authenticated_at l 0 \<and> \<not> authenticated_at l 1 \<and>
       se_sent (fs_session (gl_sessions l ! 1)) \<noteq> []"
  by code_simp

theorem gateway_sessions_gate_witness:
  "\<exists>l. gateway_serve sample_config (\<lambda>_. True) sample_serve (gateway_listener_new sample_gateway) = Returns l \<and>
     authenticated_at l 0 \<and> list_all is_error_out (se_sent (fs_session (gl_sessions l ! 1)))"
proof -
  obtain l where l: "gateway_serve sample_config (\<lambda>_. True) sample_serve (gateway_listener_new sample_gateway) = Returns l"
    "length (gl_sessions l) = 2" "authenticated_at l 0" "\<not> authenticated_at l 1"
    using sample_serve_result by (auto split: run.splits)
  then show ?thesis using gateway_sessions_gate [OF l(1)] by auto
qed

section \<open>A hello admits one session\<close>

text \<open>The clock readings of the events between two hellos.\<close>

definition between :: "int \<Rightarrow> int \<Rightarrow> 'w gateway_event \<Rightarrow> bool" where
  "between t1 t2 ev = (case ev of GSession _ env _ \<Rightarrow> t1 \<le> ev_unix_now env \<and> ev_unix_now env \<le> t2 | _ \<Rightarrow> True)"

lemma gateway_step_keeps_nonce:
  assumes g: "gateway_step cfg valid ev l = Returns l'" and b: "between t1 t2 ev"
    and n: "nonce_burnt n t1 (gw_nonces (gl_gateway l))" "0 \<le> t1" "t2 < 2 ^ 62" "t2 - t1 \<le> 600"
  shows "nonce_burnt n t1 (gw_nonces (gl_gateway l'))"
  using gateway_step_nonces [OF g]
proof (elim disjE exE conjE)
  fix j env v p res
  assume ev: "ev = GSession j env (Message v)"
    and h: "verify_hello (ev_hmac_verify env) (sc_credentials cfg) (ev_unix_now env) p (gw_nonces (gl_gateway l)) =
      Returns (gw_nonces (gl_gateway l'), res)"
  have "t1 \<le> ev_unix_now env" "ev_unix_now env < 2 ^ 62" "ev_unix_now env - t1 \<le> 600"
    using b n(3,4) by (auto simp: ev between_def)
  from verify_hello_keeps_nonce [OF h n(1,2) this] show ?thesis .
qed (use n in simp)

lemma gateway_serve_keeps_nonce:
  assumes "gateway_serve cfg valid events l = Returns l'" "list_all (between t1 t2) events"
    and n: "nonce_burnt n t1 (gw_nonces (gl_gateway l))" "0 \<le> t1" "t2 < 2 ^ 62" "t2 - t1 \<le> 600"
  shows "nonce_burnt n t1 (gw_nonces (gl_gateway l'))"
  using assms(1-3)
proof (induction events arbitrary: l)
  case (Cons ev events)
  then obtain l1 where l1: "gateway_step cfg valid ev l = Returns l1" "gateway_serve cfg valid events l1 = Returns l'"
    by (auto split: run.splits)
  have b: "between t1 t2 ev" "list_all (between t1 t2) events" using Cons.prems(2) by simp_all
  show ?case using Cons.IH [OF l1(2) b(2) gateway_step_keeps_nonce [OF l1(1) b(1) Cons.prems(3) n(2-4)]] .
qed simp

text \<open>C3. One hello admits one session: after a hello has authenticated a session, the same hello sent
  again, by whichever session and whatever happens in between, authenticates nobody, as long as the
  gateway's clock does not go back.\<close>

theorem hello_admits_one_session:
  assumes first: "gateway_step cfg valid (GSession i env1 (Message v1)) l0 = Returns l1"
      "\<not> authenticated_at l0 i" "authenticated_at l1 i" "hello_of env1 v1 = Some p"
    and mid: "gateway_serve cfg valid events l1 = Returns l2"
      "list_all (between (ev_unix_now env1) (ev_unix_now env2)) events"
    and again: "gateway_step cfg valid (GSession j env2 (Message v2)) l2 = Returns l3" "hello_of env2 v2 = Some p"
    and wf: "hm_wf (gw_nonces (gl_gateway l0))" "is_i64 (hp_ts p)" "0 \<le> ev_unix_now env1"
      "ev_unix_now env1 \<le> ev_unix_now env2" "ev_unix_now env2 < 2 ^ 62"
  shows "authenticated_at l3 j = authenticated_at l2 j"
proof (rule ccontr)
  assume "authenticated_at l3 j \<noteq> authenticated_at l2 j"
  then have new: "authenticated_at l3 j" "\<not> authenticated_at l2 j"
    using gateway_step_auth [OF again(1), of j] by auto
  have v1: "verify_hello (ev_hmac_verify env1) (sc_credentials cfg) (ev_unix_now env1) p (gw_nonces (gl_gateway l0)) =
      Returns (gw_nonces (gl_gateway l1), Ok ())"
    using gateway_step_authenticates [OF first(1,3,2)] first(4) by auto
  have v2: "verify_hello (ev_hmac_verify env2) (sc_credentials cfg) (ev_unix_now env2) p (gw_nonces (gl_gateway l2)) =
      Returns (gw_nonces (gl_gateway l3), Ok ())"
    using gateway_step_authenticates [OF again(1) new] again(2) by auto
  have w: "ev_unix_now env2 - ev_unix_now env1 \<le> 600"
    using ts_window [OF wf(3-5,2)] verify_hello_accepts [OF v1] verify_hello_accepts [OF v2] by simp
  have "nonce_burnt (hp_nonce p) (ev_unix_now env1) (gw_nonces (gl_gateway l1))"
    using verify_hello_accepts [OF v1] verify_hello_wf [OF v1 wf(1)] by (simp add: nonce_burnt_def)
  from gateway_serve_keeps_nonce [OF mid this wf(3,5) w]
  have "hm_get (prune_nonces (ev_unix_now env2) (gw_nonces (gl_gateway l2))) (hp_nonce p) = Some (ev_unix_now env1)"
    using prune_get [of "gw_nonces (gl_gateway l2)"] wf(3-5) w by (simp add: nonce_burnt_def)
  then show False using verify_hello_accepts [OF v2] by simp
qed

theorem hello_admits_one_session_witness:
  "\<exists>l0 l1 l2. gateway_serve sample_config (\<lambda>_. True) (butlast sample_serve) (gateway_listener_new sample_gateway) = Returns l0 \<and>
     gateway_step sample_config (\<lambda>_. True) (GSession 0 (sample_hello_env 1000) (Message VNil)) l0 = Returns l1 \<and>
     authenticated_at l1 0 \<and>
     gateway_step sample_config (\<lambda>_. True) (GSession 1 (sample_hello_env 1010) (Message VNil)) l1 = Returns l2 \<and>
     \<not> authenticated_at l2 1"
proof -
  let ?step = "gateway_step sample_config (\<lambda>_. True)"
  have "case gateway_serve sample_config (\<lambda>_. True) (butlast sample_serve) (gateway_listener_new sample_gateway) of
      Panics \<Rightarrow> False
    | Returns l0 \<Rightarrow> gw_nonces (gl_gateway l0) = [] \<and> \<not> authenticated_at l0 0 \<and>
        (case ?step (GSession 0 (sample_hello_env 1000) (Message VNil)) l0 of
           Panics \<Rightarrow> False
         | Returns l1 \<Rightarrow> authenticated_at l1 0 \<and> \<not> authenticated_at l1 1 \<and>
             (case ?step (GSession 1 (sample_hello_env 1010) (Message VNil)) l1 of Panics \<Rightarrow> False | Returns _ \<Rightarrow> True))"
    by code_simp
  then obtain l0 l1 l2 where
    l: "gateway_serve sample_config (\<lambda>_. True) (butlast sample_serve) (gateway_listener_new sample_gateway) = Returns l0"
    "gw_nonces (gl_gateway l0) = []" "\<not> authenticated_at l0 0"
    "?step (GSession 0 (sample_hello_env 1000) (Message VNil)) l0 = Returns l1" "authenticated_at l1 0" "\<not> authenticated_at l1 1"
    "?step (GSession 1 (sample_hello_env 1010) (Message VNil)) l1 = Returns l2"
    by (clarsimp split: run.splits)
  have h: "hello_of (sample_hello_env t) VNil = Some sample_hello" for t
    by (simp add: hello_of_def sample_hello_env_def sample_env_def sample_request_def gateway_parse_def)
  have "authenticated_at l2 1 = authenticated_at l1 1"
    using hello_admits_one_session [OF l(4,3,5) h _ _ l(7) h, of "[]"] l(2)
    by (simp add: sample_hello_env_def is_i64_def sample_hello_def)
  then show ?thesis using l by blast
qed

section \<open>Observations\<close>

text \<open>A session that lagged once is deaf from then on: no notification of an agent reaches it any more,
  although it stays open and authenticated.\<close>

lemma lagged_session_is_deaf:
  "notify_session env n (lag_session s) = lag_session s"
  "fs_open (lag_session s) = fs_open s" "fs_session (lag_session s) = fs_session s"
  by (simp_all add: notify_session_def lag_session_def)

end
