(* ===== verification/Proxy_Server.thy ===== *)
theory Proxy_Server
  imports Gateway_Server Proxy_Registry
begin

text \<open>
  The gateway's HTTP reverse proxy, \<^verbatim>\<open>nexal-gateway/src/proxy/server.rs\<close>.  HTTP parsing
  and the matching of the two routes belong to \<^verbatim>\<open>axum\<close>, sending to
  \<^verbatim>\<open>reqwest\<close>: both are arguments (\<open>http_client\<close>).  The headers of the upstream
  request are listed in the order in which the code adds them to the request builder.  The server
  runs beside the operations on the registry, in any order.
\<close>

section \<open>Requests\<close>

record proxy_request =
  rq_http_method :: string
  rq_path :: string
  rq_query :: "string option"
  rq_headers :: "(string \<times> string) list"
  rq_body :: "(string, byte list) result list"

record upstream_request =
  uq_method :: string
  uq_url :: string
  uq_headers :: "(string \<times> string) list"
  uq_body :: "byte list"

record http_reply =
  hr_status :: nat
  hr_headers :: "(string \<times> string) list"
  hr_body :: "byte list"

text \<open>What the router makes of a path: no route, a path parameter that is not UTF-8, or one of the
  two routes with its decoded parameters.\<close>

datatype route = NoRoute | BadPath string | RootRoute string | RestRoute string string

record http_client =
  hc_route :: "string \<Rightarrow> route"
  hc_method :: "string \<Rightarrow> string option"
  hc_send :: "upstream_request \<Rightarrow> (string, http_reply) result"

definition ascii_bytes :: "string \<Rightarrow> byte list" where
  "ascii_bytes s = map (\<lambda>c. of_nat (of_char c)) s"

definition text_reply :: "nat \<Rightarrow> string \<Rightarrow> http_reply" where
  "text_reply status text = \<lparr>hr_status = status, hr_headers = [], hr_body = ascii_bytes text\<rparr>"

section \<open>Forwarding\<close>

definition build_upstream_url :: "string \<Rightarrow> string \<Rightarrow> string option \<Rightarrow> (string, string) result" where
  "build_upstream_url upstream rest query =
     (let base = trim_end_matches (CHR ''/'') upstream;
          path = (if rest = [] then []
                  else if hd rest = CHR ''/'' then rest
                  else CHR ''/'' # rest);
          out = base @ path
      in Ok (case query of None \<Rightarrow> out | Some q \<Rightarrow> out @ ''?'' @ q))"

definition is_hop_by_hop :: "string \<Rightarrow> bool" where
  "is_hop_by_hop name \<longleftrightarrow>
     to_ascii_lowercase name \<in>
       {''connection'', ''keep-alive'', ''proxy-authenticate'', ''proxy-authorization'', ''te'',
        ''trailers'', ''transfer-encoding'', ''upgrade'', ''content-length''}"

text \<open>The frames of the body are collected up to the first error.\<close>

fun collect_body :: "(string, byte list) result list \<Rightarrow> (string, byte list) result" where
  "collect_body [] = Ok []"
| "collect_body (Inl e # frames) = Err e"
| "collect_body (Inr data # frames) =
     (case collect_body frames of Inl e \<Rightarrow> Err e | Inr rest \<Rightarrow> Ok (data @ rest))"

definition reqwest_method :: "http_client \<Rightarrow> string \<Rightarrow> string" where
  "reqwest_method hc m = (case hc_method hc m of None \<Rightarrow> ''GET'' | Some m \<Rightarrow> m)"

definition forwarded_headers :: "(string \<times> string) list \<Rightarrow> (string, string) hashmap \<Rightarrow> (string \<times> string) list" where
  "forwarded_headers headers registered =
     filter (\<lambda>(name, _). \<not> is_hop_by_hop name \<and> to_ascii_lowercase name \<noteq> ''host'') headers @ registered"

definition upstream_reply :: "http_reply \<Rightarrow> http_reply" where
  "upstream_reply resp =
     \<lparr>hr_status = (if 100 \<le> hr_status resp \<and> hr_status resp \<le> 999 then hr_status resp else 502),
      hr_headers = filter (\<lambda>(name, _). \<not> is_hop_by_hop name) (hr_headers resp),
      hr_body = hr_body resp\<rparr>"

definition forward ::
  "http_client \<Rightarrow> string \<Rightarrow> string \<Rightarrow> ProxyInner \<Rightarrow> proxy_request \<Rightarrow> upstream_request option \<times> http_reply" where
  "forward hc token rest registry req =
     (case proxy_lookup token registry of
        None \<Rightarrow> (None, text_reply 404 ''unknown proxy token'')
      | Some entry \<Rightarrow>
          (case build_upstream_url (pe_upstream_url entry) rest (rq_query req) of
             Inl err \<Rightarrow> (None, text_reply 400 (''bad upstream url: '' @ err))
           | Inr target_url \<Rightarrow>
               (case collect_body (rq_body req) of
                  Inl err \<Rightarrow> (None, text_reply 400 (''body read: '' @ err))
                | Inr body \<Rightarrow>
                    let out = \<lparr>uq_method = reqwest_method hc (rq_http_method req), uq_url = target_url,
                               uq_headers = forwarded_headers (rq_headers req) (pe_headers entry),
                               uq_body = body\<rparr>
                    in (case hc_send hc out of
                          Inl err \<Rightarrow> (Some out, text_reply 502 (''upstream: '' @ err))
                        | Inr resp \<Rightarrow> (Some out, upstream_reply resp)))))"

definition handle_root where
  "handle_root hc token registry req = forward hc token [] registry req"

definition handle where
  "handle hc token rest registry req = forward hc token rest registry req"

section \<open>The server\<close>

definition proxy_app :: "http_client \<Rightarrow> ProxyInner \<Rightarrow> proxy_request \<Rightarrow> upstream_request option \<times> http_reply" where
  "proxy_app hc registry req =
     (case hc_route hc (rq_path req) of
        NoRoute \<Rightarrow> (None, text_reply 404 [])
      | BadPath err \<Rightarrow> (None, text_reply 400 err)
      | RootRoute token \<Rightarrow> handle_root hc token registry req
      | RestRoute token rest \<Rightarrow> handle hc token rest registry req)"

text \<open>The registry is shared with the sessions: its operations and the requests come in any order.\<close>

datatype registry_op =
    PRegister string string string string "(string, string) hashmap"
  | PUnregister string string
  | PCleanup string

fun registry_apply :: "registry_op \<Rightarrow> ProxyInner \<Rightarrow> ProxyInner" where
  "registry_apply (PRegister token agent_id name url headers) r = fst (proxy_register token agent_id name url headers r)"
| "registry_apply (PUnregister agent_id name) r = fst (proxy_unregister agent_id name r)"
| "registry_apply (PCleanup agent_id) r = fst (proxy_cleanup_for_agent agent_id r)"

datatype proxy_event = RegistryOp registry_op | Arrives proxy_request

fun serve_events ::
  "http_client \<Rightarrow> ProxyInner \<Rightarrow> proxy_event list \<Rightarrow> (upstream_request option \<times> http_reply) list" where
  "serve_events hc registry [] = []"
| "serve_events hc registry (RegistryOp op # events) = serve_events hc (registry_apply op registry) events"
| "serve_events hc registry (Arrives req # events) = proxy_app hc registry req # serve_events hc registry events"

text \<open>\<^verbatim>\<open>expect\<close> panics when the client cannot be built; the listener may fail to bind.\<close>

definition serve_proxy ::
  "bool \<Rightarrow> (string, unit) result \<Rightarrow> http_client \<Rightarrow> ProxyInner \<Rightarrow> proxy_event list \<Rightarrow>
     (string, (upstream_request option \<times> http_reply) list) result run" where
  "serve_proxy built bound hc registry events =
     (if \<not> built then Panics
      else Returns (case bound of Inl e \<Rightarrow> Err e | Inr _ \<Rightarrow> Ok (serve_events hc registry events)))"

section \<open>Forwarding to registered upstreams\<close>

text \<open>The proxy contacts an upstream only for a token that is registered at that moment;
  it then goes to the registered base URL, with the request's path joined by exactly one slash
  and its query kept; it carries every registered header, after the caller's, and of the caller's
  none that is hop-by-hop or names the host; and no hop-by-hop header comes back.  An unknown
  token gets 404 and reaches nobody.\<close>

theorem proxy_forwards_registered_only:
  assumes "forward hc token rest registry req = (sent, reply)"
  shows "case proxy_lookup token registry of
       None \<Rightarrow> sent = None \<and> hr_status reply = 404
     | Some entry \<Rightarrow>
         (\<forall>u. sent = Some u \<longrightarrow>
            (\<exists>base k path. pe_upstream_url entry = base @ replicate k (CHR ''/'') \<and>
               (base = [] \<or> last base \<noteq> CHR ''/'') \<and>
               (rest = [] \<and> path = [] \<or> rest \<noteq> [] \<and> (path = rest \<or> path = CHR ''/'' # rest) \<and> hd path = CHR ''/'') \<and>
               uq_url u = base @ path @ (case rq_query req of None \<Rightarrow> [] | Some q \<Rightarrow> CHR ''?'' # q)) \<and>
            uq_method u = reqwest_method hc (rq_http_method req) \<and> collect_body (rq_body req) = Inr (uq_body u) \<and>
            (\<exists>own. uq_headers u = own @ pe_headers entry \<and>
               (\<forall>n v. (n, v) \<in> set own \<longrightarrow> (n, v) \<in> set (rq_headers req) \<and> \<not> is_hop_by_hop n \<and>
                  to_ascii_lowercase n \<noteq> ''host''))) \<and>
         (\<forall>n v. (n, v) \<in> set (hr_headers reply) \<longrightarrow> \<not> is_hop_by_hop n)"
proof (cases "proxy_lookup token registry")
  case None
  then show ?thesis using assms by (auto simp: forward_def text_reply_def)
next
  case (Some entry)
  let ?base = "trim_end_matches (CHR ''/'') (pe_upstream_url entry)"
  let ?path = "if rest = [] then [] else if hd rest = CHR ''/'' then rest else CHR ''/'' # rest"
  let ?own = "filter (\<lambda>(name, _). \<not> is_hop_by_hop name \<and> to_ascii_lowercase name \<noteq> ''host'') (rq_headers req)"
  obtain k where k: "pe_upstream_url entry = ?base @ replicate k (CHR ''/'')"
    using trim_end_matches_prefix by blast
  have last: "?base = [] \<or> last ?base \<noteq> CHR ''/''"
    using trim_end_matches_end [of "CHR ''/''" "pe_upstream_url entry"] by blast
  have "uq_url u = ?base @ ?path @ (case rq_query req of None \<Rightarrow> [] | Some q \<Rightarrow> CHR ''?'' # q) \<and>
      uq_method u = reqwest_method hc (rq_http_method req) \<and> collect_body (rq_body req) = Inr (uq_body u) \<and>
      uq_headers u = ?own @ pe_headers entry" if "sent = Some u" for u
    using assms Some that
    by (auto simp: forward_def build_upstream_url_def forwarded_headers_def Let_def
        split: sum.splits option.splits)
  moreover have "\<not> is_hop_by_hop n" if "(n, v) \<in> set (hr_headers reply)" for n v
    using assms Some that
    by (auto simp: forward_def build_upstream_url_def text_reply_def upstream_reply_def Let_def
        split: sum.splits)
  moreover have "rest = [] \<and> ?path = [] \<or> rest \<noteq> [] \<and> (?path = rest \<or> ?path = CHR ''/'' # rest) \<and> hd ?path = CHR ''/''"
    by simp
  ultimately show ?thesis
    using Some k last by (simp only: option.case) fastforce
qed

definition sample_http :: proxy_request where
  "sample_http = \<lparr>rq_http_method = ''GET'', rq_path = ''/p/t1/v1'', rq_query = Some ''q=1'',
     rq_headers = [(''Host'', ''h''), (''Accept'', ''a'')], rq_body = [Ok [1], Ok [2]]\<rparr>"

definition sample_http_client :: http_client where
  "sample_http_client = \<lparr>hc_route = (\<lambda>p. if p = ''/p/t1/v1'' then RestRoute ''t1'' ''v1'' else NoRoute),
     hc_method = (\<lambda>m. Some m), hc_send = (\<lambda>_. Err ''down'')\<rparr>"

theorem proxy_forwards_registered_only_witness:
  "\<exists>u. fst (forward sample_http_client ''t1'' ''v1''
      (fst (proxy_register ''t1'' ''a'' ''n'' ''https://u/'' [(''Authorization'', ''k'')] proxy_new)) sample_http) = Some u \<and>
    (\<exists>own. uq_headers u = own @ [(''Authorization'', ''k'')])"
proof -
  let ?r = "fst (proxy_register ''t1'' ''a'' ''n'' ''https://u/'' [(''Authorization'', ''k'')] proxy_new)"
  let ?f = "forward sample_http_client ''t1'' ''v1'' ?r sample_http"
  have lk: "proxy_lookup ''t1'' ?r = Some \<lparr>pe_agent_id = ''a'', pe_name = ''n'', pe_upstream_url = ''https://u/'',
      pe_headers = [(''Authorization'', ''k'')], pe_token = ''t1''\<rparr>"
    by (simp add: proxy_lookup_def proxy_register_def proxy_drop_key_def proxy_new_def Let_def)
  obtain u where u: "fst ?f = Some u"
    using lk by (simp add: forward_def build_upstream_url_def sample_http_def sample_http_client_def Let_def)
  show ?thesis
    using proxy_forwards_registered_only [OF surjective_pairing, of sample_http_client "''t1''" "''v1''" ?r sample_http] lk u
    by auto
qed

section \<open>Requests against live registrations\<close>

text \<open>The operations among the events, whether every token is unused when it is registered, and
  whether an operation ends the registration of an agent's name.\<close>

fun event_ops :: "proxy_event list \<Rightarrow> registry_op list" where
  "event_ops [] = []"
| "event_ops (RegistryOp op # events) = op # event_ops events"
| "event_ops (Arrives _ # events) = event_ops events"

fun op_fresh :: "registry_op \<Rightarrow> ProxyInner \<Rightarrow> bool" where
  "op_fresh (PRegister token _ _ _ _) r = token_fresh token r"
| "op_fresh _ r = True"

fun ops_fresh :: "ProxyInner \<Rightarrow> registry_op list \<Rightarrow> bool" where
  "ops_fresh r [] = True"
| "ops_fresh r (op # ops) \<longleftrightarrow> op_fresh op r \<and> ops_fresh (registry_apply op r) ops"

definition registry_after :: "registry_op list \<Rightarrow> ProxyInner" where
  "registry_after ops = foldl (\<lambda>r op. registry_apply op r) proxy_new ops"

fun revokes :: "string \<Rightarrow> string \<Rightarrow> registry_op \<Rightarrow> bool" where
  "revokes agent_id name (PRegister _ a n _ _) \<longleftrightarrow> a = agent_id \<and> n = name"
| "revokes agent_id name (PUnregister a n) \<longleftrightarrow> a = agent_id \<and> n = name"
| "revokes agent_id name (PCleanup a) \<longleftrightarrow> a = agent_id"

text \<open>Some operation registered the token with this entry, and none after it revoked it.\<close>

definition live :: "registry_op list \<Rightarrow> string \<Rightarrow> ProxyEntry \<Rightarrow> bool" where
  "live ops token e \<longleftrightarrow> pe_token e = token \<and>
     (\<exists>before after. ops = before @ PRegister token (pe_agent_id e) (pe_name e) (pe_upstream_url e) (pe_headers e) # after \<and>
        (\<forall>op \<in> set after. \<not> revokes (pe_agent_id e) (pe_name e) op))"

lemma ops_fresh_foldl: "ops_fresh r (ops @ [op]) \<longleftrightarrow> ops_fresh r ops \<and> op_fresh op (foldl (\<lambda>r op. registry_apply op r) r ops)"
  by (induction ops arbitrary: r) auto

lemma ops_fresh_snoc: "ops_fresh proxy_new (ops @ [op]) \<longleftrightarrow> ops_fresh proxy_new ops \<and> op_fresh op (registry_after ops)"
  unfolding registry_after_def by (rule ops_fresh_foldl)

lemma registry_after_snoc [simp]: "registry_after (ops @ [op]) = registry_apply op (registry_after ops)"
  by (simp add: registry_after_def)

lemma registry_after_inv: "ops_fresh proxy_new ops \<Longrightarrow> proxy_inv (registry_after ops)"
proof (induction ops rule: rev_induct)
  case (snoc op ops)
  then show ?case
    by (cases op) (simp_all add: ops_fresh_snoc proxy_register_inv http_reg.drop_entry_invar http_reg.drop_agent_invar)
qed (simp add: registry_after_def)

lemma live_Nil [simp]: "\<not> live [] token e"
  by (simp add: live_def)

lemma live_snoc:
  "live (ops @ [op]) token e \<longleftrightarrow>
     op = PRegister token (pe_agent_id e) (pe_name e) (pe_upstream_url e) (pe_headers e) \<and> pe_token e = token \<or>
     live ops token e \<and> \<not> revokes (pe_agent_id e) (pe_name e) op"
  (is "?L \<longleftrightarrow> ?R")
proof
  assume ?L
  then obtain before after where b: "pe_token e = token"
    "ops @ [op] = before @ PRegister token (pe_agent_id e) (pe_name e) (pe_upstream_url e) (pe_headers e) # after"
    "\<forall>op \<in> set after. \<not> revokes (pe_agent_id e) (pe_name e) op" by (auto simp: live_def)
  then show ?R by (cases after rule: rev_cases) (auto simp: live_def)
next
  assume ?R
  then show ?L
  proof
    assume "op = PRegister token (pe_agent_id e) (pe_name e) (pe_upstream_url e) (pe_headers e) \<and> pe_token e = token"
    then show ?L unfolding live_def by (intro conjI exI [of _ ops] exI [of _ "[]"]) simp_all
  next
    assume l: "live ops token e \<and> \<not> revokes (pe_agent_id e) (pe_name e) op"
    then obtain before after where "pe_token e = token"
      "ops = before @ PRegister token (pe_agent_id e) (pe_name e) (pe_upstream_url e) (pe_headers e) # after"
      "\<forall>op \<in> set after. \<not> revokes (pe_agent_id e) (pe_name e) op" by (auto simp: live_def)
    then show ?L using l unfolding live_def by (intro conjI exI [of _ before] exI [of _ "after @ [op]"]) simp_all
  qed
qed

lemma registered_token_owner:
  assumes "proxy_inv r" "proxy_lookup token r = Some e"
  shows "(\<exists>old. proxy_find r (a, n) = Some old \<and> pe_token old = token) \<longleftrightarrow> pe_agent_id e = a \<and> pe_name e = n"
  using assms(2) proxy_find_lookup [OF assms(1), of token] proxy_find_entry_key [OF assms(1), of "(a, n)"]
  by (metis entry_key_def prod.inject option.inject)

lemma lookup_after_op:
  assumes "proxy_inv r" "op_fresh op r"
  shows "proxy_lookup token (registry_apply op r) = Some e \<longleftrightarrow>
     op = PRegister token (pe_agent_id e) (pe_name e) (pe_upstream_url e) (pe_headers e) \<and> pe_token e = token \<or>
     proxy_lookup token r = Some e \<and> \<not> revokes (pe_agent_id e) (pe_name e) op"
proof (cases op)
  case (PRegister t a n u h)
  let ?new = "\<lparr>pe_agent_id = a, pe_name = n, pe_upstream_url = u, pe_headers = h, pe_token = t\<rparr>"
  have new: "snd (proxy_register t a n u h r) = ?new" by (simp add: proxy_register_def Let_def)
  show ?thesis
  proof (cases "token = t")
    case True
    have "proxy_lookup t r = None" using assms(2) PRegister by (simp add: token_fresh_def proxy_lookup_def hm_get_None_iff)
    then show ?thesis using True PRegister by (auto simp: proxy_lookup_register [OF assms(1)] new)
  next
    case False
    then show ?thesis
      using registered_token_owner [OF assms(1), of token e a n] PRegister by (auto simp: proxy_lookup_register [OF assms(1)])
  qed
next
  case (PUnregister a n)
  then show ?thesis
    using registered_token_owner [OF assms(1), of token e a n] proxy_index_find [OF assms(1), of "(a, n)" token]
    by (auto simp: proxy_unregister_def proxy_lookup_drop_key)
qed (auto simp: proxy_lookup_drop_agent [OF assms(1)] split: option.splits)

lemma lookup_iff_live:
  "ops_fresh proxy_new ops \<Longrightarrow> proxy_lookup token (registry_after ops) = Some e \<longleftrightarrow> live ops token e"
proof (induction ops rule: rev_induct)
  case Nil
  show ?case by (simp add: registry_after_def proxy_lookup_def proxy_new_def)
next
  case (snoc op ops)
  then have "ops_fresh proxy_new ops" "op_fresh op (registry_after ops)"
    by (simp_all add: ops_fresh_snoc registry_after_def)
  then show ?case using snoc.IH lookup_after_op [OF registry_after_inv] by (simp add: live_snoc)
qed

lemma serve_events_split:
  "serve_events hc r (before @ Arrives req # after) =
     serve_events hc r before @ proxy_app hc (foldl (\<lambda>r op. registry_apply op r) r (event_ops before)) req #
       serve_events hc (foldl (\<lambda>r op. registry_apply op r) r (event_ops before)) after"
proof (induction before arbitrary: r)
  case (Cons ev before)
  then show ?case by (cases ev) auto
qed simp

text \<open>The request \<open>u\<close> is what the entry allows to send for \<open>req\<close>: the registered URL, the
  path joined by one slash, the query; the caller's method and body; of the caller's headers none
  that is hop-by-hop or names the host, then the registered ones.\<close>

definition request_for :: "http_client \<Rightarrow> ProxyEntry \<Rightarrow> string \<Rightarrow> proxy_request \<Rightarrow> upstream_request \<Rightarrow> bool" where
  "request_for hc e rest req u \<longleftrightarrow>
     (\<exists>base k path. pe_upstream_url e = base @ replicate k (CHR ''/'') \<and>
        (base = [] \<or> last base \<noteq> CHR ''/'') \<and>
        (rest = [] \<and> path = [] \<or> rest \<noteq> [] \<and> (path = rest \<or> path = CHR ''/'' # rest) \<and> hd path = CHR ''/'') \<and>
        uq_url u = base @ path @ (case rq_query req of None \<Rightarrow> [] | Some q \<Rightarrow> CHR ''?'' # q)) \<and>
     uq_method u = reqwest_method hc (rq_http_method req) \<and> collect_body (rq_body req) = Inr (uq_body u) \<and>
     (\<exists>own. uq_headers u = own @ pe_headers e \<and>
        (\<forall>n v. (n, v) \<in> set own \<longrightarrow> (n, v) \<in> set (rq_headers req) \<and> \<not> is_hop_by_hop n \<and> to_ascii_lowercase n \<noteq> ''host''))"

definition proxy_answer_ok ::
  "http_client \<Rightarrow> registry_op list \<Rightarrow> string \<Rightarrow> string \<Rightarrow> proxy_request \<Rightarrow> upstream_request option \<Rightarrow> http_reply \<Rightarrow> bool" where
  "proxy_answer_ok hc ops token rest req sent reply \<longleftrightarrow>
     (case sent of
        Some u \<Rightarrow> \<exists>e. live ops token e \<and> request_for hc e rest req u
      | None \<Rightarrow> if \<exists>e. live ops token e then hr_status reply = 400 \<and> (\<exists>err. collect_body (rq_body req) = Err err)
                else hr_status reply = 404) \<and>
     (\<forall>n v. (n, v) \<in> set (hr_headers reply) \<longrightarrow> \<not> is_hop_by_hop n)"

lemma forward_answer_ok:
  assumes "ops_fresh proxy_new ops" "forward hc token rest (registry_after ops) req = (sent, reply)"
  shows "proxy_answer_ok hc ops token rest req sent reply"
proof (cases "proxy_lookup token (registry_after ops)")
  case None
  then have "\<nexists>e. live ops token e" using lookup_iff_live [OF assms(1), of token] by simp
  then show ?thesis using assms(2) None by (auto simp: proxy_answer_ok_def forward_def text_reply_def)
next
  case (Some e)
  then have l: "live ops token e" using lookup_iff_live [OF assms(1)] by blast
  show ?thesis
  proof (cases sent)
    case None
    then show ?thesis using assms(2) Some l
      by (auto simp: proxy_answer_ok_def forward_def build_upstream_url_def text_reply_def Let_def split: sum.splits)
  next
    case (Some u)
    then show ?thesis
      using proxy_forwards_registered_only [OF assms(2)] \<open>proxy_lookup token (registry_after ops) = Some e\<close> l
      unfolding proxy_answer_ok_def request_for_def by auto
  qed
qed



end
