(* ===== verification/Gateway_Skills.thy ===== *)
theory Gateway_Skills
  imports Paths
begin

text \<open>
  The skills service, \<^verbatim>\<open>nexal-gateway/src/skills.rs\<close>, over the paths
  of \<^verbatim>\<open>Paths\<close>.  The directory of skills is a tree; reading a file
  is an argument that maps the components of a path to its content or an error.  Symbolic links
  are not modelled.
\<close>

section \<open>Reading a skill file\<close>

fun check_components :: "component list \<Rightarrow> string option" where
  "check_components [] = None"
| "check_components (c # cs) =
     (case c of
        ParentDir \<Rightarrow> Some ''path traversal (..)''
      | Normal _ \<Rightarrow> check_components cs
      | _ \<Rightarrow> Some ''invalid path component'')"

definition sanitize_path :: "string \<Rightarrow> (string, string) result" where
  "sanitize_path p =
     (if is_absolute p then Err ''absolute paths not allowed''
      else (case check_components (components p) of Some e \<Rightarrow> Err e | None \<Rightarrow> Ok p))"

definition skills_read ::
  "(component list \<Rightarrow> (string, byte list) result) \<Rightarrow> string \<Rightarrow> string \<Rightarrow> (string, byte list) result" where
  "skills_read fs_read skills_dir path =
     (case sanitize_path path of
        Inl e \<Rightarrow> Err e
      | Inr rel \<Rightarrow>
          let full = path_join skills_dir rel
          in if \<not> starts_with full skills_dir then Err ''path traversal''
             else
               (case fs_read (components full) of
                  Inl e \<Rightarrow> Err (''read '' @ path @ '': '' @ e)
                | Inr data \<Rightarrow> Ok data))"

section \<open>Listing\<close>

text \<open>What a directory entry leads to: a regular file, a directory, a directory whose reading
  fails, or something else (a socket, a dangling link).\<close>

datatype node = File "byte list" | Dir "(string \<times> node) list" | Unreadable string | Special

record SkillFileEntry =
  sf_path :: string
  sf_size :: nat

record SkillInfo =
  si_name :: string
  si_description :: string
  si_files :: "SkillFileEntry list"

fun first_description :: "string list \<Rightarrow> string" where
  "first_description [] = []"
| "first_description (line # lines) =
     (let trimmed = trim line
      in if trimmed \<noteq> [] \<and> hd trimmed \<noteq> CHR ''#'' then trimmed else first_description lines)"

definition read_skill_description :: "(string \<times> node) list \<Rightarrow> string" where
  "read_skill_description entries =
     (case map_of entries ''SKILL.md'' of
        Some (File bs) \<Rightarrow>
          (case read_to_string bs of
             Some t \<Rightarrow> first_description (split_on (CHR 0x0A) t)
           | None \<Rightarrow> [])
      | _ \<Rightarrow> [])"

definition skipped_name :: "string \<Rightarrow> bool" where
  "skipped_name name \<longleftrightarrow> (name \<noteq> [] \<and> hd name = CHR ''.'') \<or> name = ''__pycache__''"

definition append_results ::
  "(string, 'a list) result \<Rightarrow> (string, 'a list) result \<Rightarrow> (string, 'a list) result" where
  "append_results a b =
     (case a of Inl e \<Rightarrow> Err e | Inr xs \<Rightarrow> (case b of Inl e \<Rightarrow> Err e | Inr ys \<Rightarrow> Ok (xs @ ys)))"

text \<open>Paths are relative to the skill's directory; \<open>prefix\<close> is the path of the directory being
  read.\<close>

fun collect_files :: "string \<Rightarrow> (string \<times> node) list \<Rightarrow> (string, SkillFileEntry list) result"
  and collect_node :: "string \<Rightarrow> node \<Rightarrow> (string, SkillFileEntry list) result" where
  "collect_files prefix [] = Ok []"
| "collect_files prefix ((name, n) # entries) =
     (if skipped_name name then collect_files prefix entries
      else append_results (collect_node (path_join prefix name) n) (collect_files prefix entries))"
| "collect_node path (Dir entries) = collect_files path entries"
| "collect_node path (Unreadable e) = Err e"
| "collect_node path (File data) = Ok [\<lparr>sf_path = path, sf_size = length data\<rparr>]"
| "collect_node path Special = Ok []"

fun lex_le :: "string \<Rightarrow> string \<Rightarrow> bool" where
  "lex_le [] ys = True"
| "lex_le (x # xs) [] = False"
| "lex_le (x # xs) (y # ys) =
     ((of_char x :: nat) < of_char y \<or> (x = y \<and> lex_le xs ys))"

fun insert_skill :: "SkillInfo \<Rightarrow> SkillInfo list \<Rightarrow> SkillInfo list" where
  "insert_skill x [] = [x]"
| "insert_skill x (y # ys) = (if lex_le (si_name x) (si_name y) then x # y # ys else y # insert_skill x ys)"

fun sort_skills :: "SkillInfo list \<Rightarrow> SkillInfo list" where
  "sort_skills [] = []"
| "sort_skills (x # xs) = insert_skill x (sort_skills xs)"

definition skill_info :: "string \<Rightarrow> node \<Rightarrow> (string, SkillInfo list) result" where
  "skill_info name n =
     (case n of
        Dir sub \<Rightarrow>
          if skipped_name name then Ok []
          else (case collect_files [] sub of
                  Inl e \<Rightarrow> Err (''collect files for '' @ name @ '': '' @ e)
                | Inr files \<Rightarrow> Ok [\<lparr>si_name = name, si_description = read_skill_description sub, si_files = files\<rparr>])
      | Unreadable e \<Rightarrow>
          if skipped_name name then Ok [] else Err (''collect files for '' @ name @ '': '' @ e)
      | _ \<Rightarrow> Ok [])"

fun skill_infos :: "(string \<times> node) list \<Rightarrow> (string, SkillInfo list) result" where
  "skill_infos [] = Ok []"
| "skill_infos ((name, n) # entries) = append_results (skill_info name n) (skill_infos entries)"

definition skills_list :: "(string, (string \<times> node) list) result \<Rightarrow> (string, SkillInfo list) result" where
  "skills_list root =
     (case root of
        Inl e \<Rightarrow> Err (''read skills dir: '' @ e)
      | Inr entries \<Rightarrow>
          (case skill_infos entries of Inl e \<Rightarrow> Err e | Inr skills \<Rightarrow> Ok (sort_skills skills)))"

section \<open>Containment\<close>

lemma check_components_None: "check_components cs = None \<longleftrightarrow> (\<forall>c \<in> set cs. \<exists>s. c = Normal s)"
  by (induction cs) (auto split: component.splits)

lemma sanitize_path_Ok:
  assumes "sanitize_path p = Inr q"
  shows "q = p" "\<not> is_absolute p" "components p = body_components (split_on (CHR ''/'') p)"
    "\<forall>c \<in> set (components p). \<exists>s. c = Normal s"
proof -
  show "q = p" "\<not> is_absolute p"
    using assms by (auto simp: sanitize_path_def split: if_splits option.splits)
  show all: "\<forall>c \<in> set (components p). \<exists>s. c = Normal s"
    using assms check_components_None by (auto simp: sanitize_path_def split: if_splits option.splits)
  show "components p = body_components (split_on (CHR ''/'') p)"
    using all \<open>\<not> is_absolute p\<close> by (auto simp: components_def Let_def split: if_splits)
qed

text \<open>Reading, in terms of components: the second guard never fires after the first.\<close>

lemma skills_read_eq:
  "skills_read fs_read dir p =
     (case sanitize_path p of
        Inl e \<Rightarrow> Err e
      | Inr rel \<Rightarrow>
          (case fs_read (components dir @ components p) of
             Inl e \<Rightarrow> Err (''read '' @ p @ '': '' @ e)
           | Inr data \<Rightarrow> Ok data))"
proof (cases "sanitize_path p")
  case (Inr q)
  note ok = sanitize_path_Ok [OF Inr]
  have "components (path_join dir p) = components dir @ components p"
    using components_join [OF ok(2,3)] .
  then show ?thesis
    using Inr ok(1) starts_with_append by (simp add: skills_read_def Let_def)
qed (simp add: skills_read_def)

lemma sanitized_components:
  assumes "sanitize_path p = Inr q"
  shows "\<exists>names. components p = map Normal names \<and> (\<forall>n \<in> set names. seg_ok n)"
  using sanitize_path_Ok [OF assms] normal_body_components by metis

lemma skills_read_names:
  assumes "skills_read fs_read dir p = Ok data"
  shows "\<exists>names. (\<forall>n \<in> set names. seg_ok n) \<and> fs_read (components dir @ map Normal names) = Ok data"
proof -
  obtain q where q: "sanitize_path p = Inr q" and "fs_read (components dir @ components p) = Ok data"
    using assms by (auto simp: skills_read_eq split: sum.splits)
  then show ?thesis using sanitized_components [OF q] by metis
qed

text \<open>C27. A read that succeeds read the file at the skills directory followed by plain names, none of
  them \<open>..\<close>, so it cannot leave that directory; and every path that is absolute or has a
  \<open>..\<close> segment is refused without reading anything.\<close>

theorem skills_read_contained:
  assumes "skills_read fs_read dir p = r"
  shows "(\<forall>data. r = Ok data \<longrightarrow>
            (\<exists>names. (\<forall>n \<in> set names. seg_ok n) \<and> fs_read (components dir @ map Normal names) = Ok data)) \<and>
         (is_absolute p \<longrightarrow> r = Err ''absolute paths not allowed'') \<and>
         (\<not> is_absolute p \<and> ''..'' \<in> set (split_on (CHR ''/'') p) \<longrightarrow>
            r \<in> {Err ''path traversal (..)'', Err ''invalid path component''})"
proof (intro conjI impI allI)
  fix data assume "r = Ok data"
  then show "\<exists>names. (\<forall>n \<in> set names. seg_ok n) \<and> fs_read (components dir @ map Normal names) = Ok data"
    using skills_read_names assms by blast
next
  assume "is_absolute p"
  then show "r = Err ''absolute paths not allowed''"
    using assms by (simp add: skills_read_def sanitize_path_def)
next
  assume rel: "\<not> is_absolute p \<and> ''..'' \<in> set (split_on (CHR ''/'') p)"
  have "ParentDir \<in> set (components p)"
    using rel by (cases "split_on (CHR ''/'') p")
      (auto simp: components_def body_components_def segment_component_def Let_def image_iff)
  then obtain e where e: "check_components (components p) = Some e"
    using check_components_None [of "components p"] by (cases "check_components (components p)") auto
  have "e \<in> {''path traversal (..)'', ''invalid path component''}" if "check_components cs = Some e" for cs
    using that by (induction cs) (auto split: component.splits)
  then show "r \<in> {Err ''path traversal (..)'', Err ''invalid path component''}"
    using assms rel e by (auto simp: skills_read_def sanitize_path_def)
qed

section \<open>Listing and reading agree\<close>

fun tree_get :: "(string \<times> node) list \<Rightarrow> string list \<Rightarrow> node option" where
  "tree_get entries [] = None"
| "tree_get entries [n] = map_of entries n"
| "tree_get entries (n # m # ns) =
     (case map_of entries n of Some (Dir sub) \<Rightarrow> tree_get sub (m # ns) | _ \<Rightarrow> None)"

fun tree_ok :: "(string \<times> node) list \<Rightarrow> bool"
  and node_ok :: "node \<Rightarrow> bool" where
  "tree_ok [] = True"
| "tree_ok ((name, n) # entries) = (seg_ok name \<and> name \<notin> fst ` set entries \<and> node_ok n \<and> tree_ok entries)"
| "node_ok (Dir entries) = tree_ok entries"
| "node_ok _ = True"

lemma append_results_Ok:
  "append_results a b = Inr zs \<longleftrightarrow> (\<exists>xs ys. a = Inr xs \<and> b = Inr ys \<and> zs = xs @ ys)"
  by (auto simp: append_results_def split: sum.splits)

text \<open>Every listed entry lies in the tree at the names its path is built from.\<close>

lemma collect_sound:
  "\<lbrakk>tree_ok entries; collect_files prefix entries = Inr fs; f \<in> set fs\<rbrakk> \<Longrightarrow>
     \<exists>names bs. names \<noteq> [] \<and> (\<forall>n \<in> set names. seg_ok n) \<and> sf_path f = foldl path_join prefix names \<and>
       tree_get entries names = Some (File bs) \<and> sf_size f = length bs"
  "\<lbrakk>node_ok n; collect_node path n = Inr fs; f \<in> set fs\<rbrakk> \<Longrightarrow>
     \<exists>names bs. (\<forall>n \<in> set names. seg_ok n) \<and> sf_path f = foldl path_join path names \<and>
       (if names = [] then n = File bs else \<exists>sub. n = Dir sub \<and> tree_get sub names = Some (File bs)) \<and>
       sf_size f = length bs"
proof (induction prefix entries and path n arbitrary: fs and fs rule: collect_files_collect_node.induct)
  case (2 prefix name n entries)
  have keep: "tree_get ((name, n) # entries) names = tree_get entries names"
    if some: "tree_get entries names \<noteq> None" for names
  proof -
    obtain m ms where names: "names = m # ms" using some by (cases names) auto
    moreover have "map_of entries name = None"
      using 2(4) by (simp add: map_of_eq_None_iff)
    ultimately have "m \<noteq> name"
      using some by (cases ms) auto
    then show ?thesis using names by (cases ms) auto
  qed
  show ?case
  proof (cases "skipped_name name")
    case True
    then show ?thesis using 2(1) [OF True] 2(4-6) keep by (simp, metis option.distinct(1))
  next
    case False
    then obtain xs ys where x: "collect_node (path_join prefix name) n = Inr xs"
      and y: "collect_files prefix entries = Inr ys" and fs: "fs = xs @ ys"
      using 2(5) by (auto simp: append_results_Ok)
    show ?thesis
    proof (cases "f \<in> set ys")
      case True
      then show ?thesis using 2(3) [OF False _ y] 2(4) keep by (simp, metis option.distinct(1))
    next
      case no: False
      then obtain names bs where *: "\<forall>n \<in> set names. seg_ok n"
        "sf_path f = foldl path_join (path_join prefix name) names" "sf_size f = length bs"
        "if names = [] then n = File bs else \<exists>sub. n = Dir sub \<and> tree_get sub names = Some (File bs)"
        using 2(2) [OF False _ x] 2(4,6) fs by auto
      have "tree_get ((name, n) # entries) (name # names) = Some (File bs)"
        using *(4) by (cases names) auto
      then show ?thesis
        using * 2(4) by (intro exI [of _ "name # names"] exI [of _ bs]) auto
    qed
  qed
next
  case (3 path entries)
  then have "\<exists>names bs. names \<noteq> [] \<and> (\<forall>n \<in> set names. seg_ok n) \<and> sf_path f = foldl path_join path names \<and>
      tree_get entries names = Some (File bs) \<and> sf_size f = length bs"
    by simp
  then show ?case by (metis (full_types))
next
  case (5 path data)
  then show ?case by (intro exI [of _ "[]"] exI [of _ data]) auto
qed auto

lemma set_sort_skills: "set (sort_skills xs) = set xs"
proof -
  have "set (insert_skill x ys) = insert x (set ys)" for x ys by (induction ys) auto
  then show ?thesis by (induction xs) auto
qed

lemma lex_le_total: "lex_le xs ys \<or> lex_le ys xs"
  by (induction xs ys rule: lex_le.induct) (auto simp: not_less order.order_iff_strict)

lemma lex_le_trans: "lex_le xs ys \<Longrightarrow> lex_le ys zs \<Longrightarrow> lex_le xs zs"
proof (induction xs ys arbitrary: zs rule: lex_le.induct)
  case (3 x xs y ys)
  then show ?case by (cases zs) auto
qed auto

lemma sorted_sort_skills: "sorted_wrt (\<lambda>a b. lex_le (si_name a) (si_name b)) (sort_skills xs)"
proof -
  have set_ins: "set (insert_skill x ys) = insert x (set ys)" for x ys by (induction ys) auto
  have "sorted_wrt (\<lambda>a b. lex_le (si_name a) (si_name b)) (insert_skill x ys)"
    if "sorted_wrt (\<lambda>a b. lex_le (si_name a) (si_name b)) ys" for x ys
    using that
  proof (induction ys)
    case (Cons y ys)
    then show ?case
      using lex_le_total [of "si_name x" "si_name y"] lex_le_trans by (auto simp: set_ins)
  qed simp
  then show ?thesis by (induction xs) auto
qed

lemma skill_infos_sound:
  "\<lbrakk>tree_ok entries; skill_infos entries = Inr infos; info \<in> set infos\<rbrakk> \<Longrightarrow>
     \<exists>sub. map_of entries (si_name info) = Some (Dir sub) \<and> tree_ok sub \<and> seg_ok (si_name info) \<and>
       collect_files [] sub = Inr (si_files info)"
proof (induction entries arbitrary: infos rule: skill_infos.induct)
  case (2 name n entries)
  obtain xs ys where xs: "skill_info name n = Inr xs" and ys: "skill_infos entries = Inr ys" "infos = xs @ ys"
    using 2(3) by (auto simp: append_results_Ok)
  show ?case
  proof (cases "info \<in> set xs")
    case True
    then show ?thesis
      using 2(2) xs by (cases info) (auto simp: skill_info_def split: node.splits if_splits sum.splits)
  next
    case False
    then obtain sub where sub: "map_of entries (si_name info) = Some (Dir sub)" "tree_ok sub"
      "seg_ok (si_name info)" "collect_files [] sub = Inr (si_files info)"
      using 2 ys by auto
    moreover have "map_of entries name = None" using 2(2) by (simp add: map_of_eq_None_iff)
    ultimately show ?thesis by auto
  qed
qed simp

text \<open>Listing and reading agree: the listing is sorted by skill name, and every file it names is
  read by joining the skill's name and the file's path, with a content of the announced
  size.\<close>

theorem listed_skill_files_readable:
  assumes "tree_ok root" "skills_list (Ok root) = Ok infos"
    and "\<And>names bs. tree_get root names = Some (File bs) \<Longrightarrow>
           fs_read (components dir @ map Normal names) = Ok bs"
  shows "sorted_wrt (\<lambda>a b. lex_le (si_name a) (si_name b)) infos \<and>
         (\<forall>info \<in> set infos. \<forall>f \<in> set (si_files info).
            \<exists>bs. skills_read fs_read dir (si_name info @ ''/'' @ sf_path f) = Ok bs \<and> length bs = sf_size f)"
proof (intro conjI ballI)
  obtain raw where raw: "skill_infos root = Inr raw" "infos = sort_skills raw"
    using assms(2) by (auto simp: skills_list_def split: sum.splits)
  show "sorted_wrt (\<lambda>a b. lex_le (si_name a) (si_name b)) infos"
    using raw(2) sorted_sort_skills by simp
  fix info f assume info: "info \<in> set infos" and f: "f \<in> set (si_files info)"
  obtain sub where sub: "map_of root (si_name info) = Some (Dir sub)" "tree_ok sub" "seg_ok (si_name info)"
    "collect_files [] sub = Inr (si_files info)"
    using skill_infos_sound [OF assms(1) raw(1)] info raw(2) set_sort_skills by metis
  obtain names bs where names: "names \<noteq> []" "\<forall>n \<in> set names. seg_ok n"
    "sf_path f = foldl path_join [] names" "tree_get sub names = Some (File bs)" "sf_size f = length bs"
    using collect_sound(1) [OF sub(2,4) f] by blast
  define p where "p = si_name info @ ''/'' @ sf_path f"
  let ?all = "si_name info # names"
  have all: "\<forall>n \<in> set ?all. seg_ok n" using names(2) sub(3) by simp
  have p: "p = foldl path_join [] ?all"
    using foldl_path_join_prefix [OF names(2,1) sub(3)] names(3) by (simp add: p_def)
  have cs: "components p = map Normal ?all" "\<not> is_absolute p"
    using components_foldl_join [OF all, of "[]"] foldl_join_relative [OF all, of "[]"] p
    by (simp_all add: components_def is_absolute_def)
  have "check_components (components p) = None"
    using cs(1) by (auto simp: check_components_None)
  then have "sanitize_path p = Ok p" using cs by (simp add: sanitize_path_def)
  moreover have "tree_get root ?all = Some (File bs)"
    using sub(1) names(1,4) by (cases names) auto
  ultimately have "skills_read fs_read dir p = Ok bs"
    using assms(3) [of ?all bs] cs(1) by (simp add: skills_read_eq)
  then show "\<exists>bs. skills_read fs_read dir (si_name info @ ''/'' @ sf_path f) = Ok bs \<and> length bs = sf_size f"
    using names(5) by (auto simp: p_def)
qed

section \<open>Witnesses\<close>

definition sample_tree :: "(string \<times> node) list" where
  "sample_tree =
     [(''zip'', Dir [(''SKILL.md'', File [35, 32, 90, 10, 122])]),
      (''README'', File [1]),
      (''.git'', Dir []),
      (''jina'', Dir [(''scripts'', Dir [(''read.py'', File [1, 2, 3])]), (''__pycache__'', Dir [(''x'', File [])])])]"

definition sample_fs :: "component list \<Rightarrow> (string, byte list) result" where
  "sample_fs cs =
     (case cs of
        RootDir # Normal d # rest \<Rightarrow>
          (if d = ''skills'' then
             (case tree_get sample_tree (map (\<lambda>c. case c of Normal n \<Rightarrow> n | _ \<Rightarrow> ''..'') rest) of
                Some (File bs) \<Rightarrow> Ok bs
              | _ \<Rightarrow> Err ''not found'')
           else Err ''not found'')
      | _ \<Rightarrow> Err ''not found'')"

lemma sample_skills_dir: "components ''/skills'' = [RootDir, Normal ''skills'']"
  by code_simp

theorem skills_read_contained_witness:
  "(\<exists>names. (\<forall>n \<in> set names. seg_ok n) \<and>
      sample_fs (components ''/skills'' @ map Normal names) = Ok [1, 2, 3]) \<and>
   skills_read sample_fs ''/skills'' ''jina/../../etc/passwd''
     \<in> {Err ''path traversal (..)'', Err ''invalid path component''}"
proof -
  have r: "skills_read sample_fs ''/skills'' ''jina//./scripts/read.py'' = Ok [1, 2, 3]" by code_simp
  have d: "\<not> is_absolute ''jina/../../etc/passwd'' \<and> ''..'' \<in> set (split_on (CHR ''/'') ''jina/../../etc/passwd'')"
    by code_simp
  show ?thesis
    using skills_read_contained [OF r] d skills_read_contained [OF refl, of sample_fs "''/skills''" "''jina/../../etc/passwd''"]
    by blast
qed

theorem listed_skill_files_readable_witness:
  "\<exists>bs. skills_read sample_fs ''/skills'' (''jina'' @ ''/'' @ ''scripts/read.py'') = Ok bs \<and> length bs = 3"
proof -
  have ok: "tree_ok sample_tree" by code_simp
  let ?infos = "[\<lparr>si_name = ''jina'', si_description = [], si_files = [\<lparr>sf_path = ''scripts/read.py'', sf_size = 3\<rparr>]\<rparr>,
     \<lparr>si_name = ''zip'', si_description = ''z'', si_files = [\<lparr>sf_path = ''SKILL.md'', sf_size = 5\<rparr>]\<rparr>]"
  have list: "skills_list (Ok sample_tree) = Ok ?infos" by code_simp
  have fs: "sample_fs (components ''/skills'' @ map Normal names) = Ok bs"
    if "tree_get sample_tree names = Some (File bs)" for names bs
    using that by (simp add: sample_skills_dir sample_fs_def o_def)
  have all: "\<forall>info \<in> set ?infos. \<forall>f \<in> set (si_files info).
      \<exists>bs. skills_read sample_fs ''/skills'' (si_name info @ ''/'' @ sf_path f) = Ok bs \<and> length bs = sf_size f"
    by (rule listed_skill_files_readable [THEN conjunct2]) (use ok list fs in auto)
  show ?thesis
    using all [THEN bspec, of "hd ?infos"] by (simp del: append.simps)
qed

end
