(* ===== verification/Local_Process.thy ===== *)
theory Local_Process
  imports Agent_Protocol
begin

text \<open>
  The agent's process service, \<^verbatim>\<open>nexal-agent/src/process/local.rs\<close>: a table of
  processes under one mutex, a bounded buffer of numbered output chunks per process, and three
  tasks per process (two output readers and an exit watcher) that update it.  Each critical
  section is one function on the state; the functions on a single \<open>RunningProcess\<close> carry
  the logic and the functions on the table look the process up first, as the code does.  Spawning
  a process, the clock and the notification channel are outside the service and enter as results.
  Sequence numbers are natural numbers: a \<^verbatim>\<open>u64\<close> counter that grows by one per
  output chunk does not wrap.
\<close>

section \<open>State\<close>

definition RETAINED_OUTPUT_BYTES_PER_PROCESS :: nat where
  "RETAINED_OUTPUT_BYTES_PER_PROCESS = 1024 * 1024"

definition USIZE_MAX :: nat where
  "USIZE_MAX = 2 ^ 64 - 1"

record RetainedOutputChunk =
  rc_seq :: nat
  rc_stream :: ExecOutputStream
  rc_chunk :: "byte list"

record RunningProcess =
  rp_session :: nat
  rp_tty :: bool
  rp_output :: "RetainedOutputChunk list"
  rp_retained_bytes :: nat
  rp_next_seq :: nat
  rp_exit_code :: "int option"
  rp_wake :: nat
  rp_open_streams :: nat
  rp_closed :: bool

datatype ProcessEntry = Starting | Running RunningProcess

text \<open>\<open>lp_terminated\<close> and \<open>lp_stdin\<close> record the calls made on the session handles:
  the sessions that were told to terminate and the input handed to their writers.\<close>

record LocalProcess =
  lp_processes :: "(ProcessId, ProcessEntry) hashmap"
  lp_initialize_requested :: bool
  lp_initialized :: bool
  lp_terminated :: "nat list"
  lp_stdin :: "(nat \<times> byte list) list"

definition lp_new :: LocalProcess where
  "lp_new = \<lparr>lp_processes = [], lp_initialize_requested = False, lp_initialized = False,
             lp_terminated = [], lp_stdin = []\<rparr>"

section \<open>Initialization handshake\<close>

definition detect_default_shell :: "(string \<Rightarrow> bool) \<Rightarrow> string option \<Rightarrow> string option" where
  "detect_default_shell exists which_bash =
     (case find exists [''/bin/bash'', ''/usr/bin/bash'', ''/bin/sh''] of
        Some candidate \<Rightarrow> Some candidate
      | None \<Rightarrow>
          (case which_bash of
             None \<Rightarrow> None
           | Some path \<Rightarrow> if path = [] then None else Some path))"

definition initialize ::
  "string option \<Rightarrow> string option \<Rightarrow> LocalProcess \<Rightarrow>
     LocalProcess \<times> (ChannelError, InitializeResponse) result" where
  "initialize default_shell cwd s =
     (s\<lparr>lp_initialize_requested := True\<rparr>,
      if lp_initialize_requested s
      then Err (invalid_request ''initialize may only be sent once per connection'')
      else Ok \<lparr>ir_default_shell = default_shell, ir_cwd = cwd\<rparr>)"

definition initialized :: "LocalProcess \<Rightarrow> LocalProcess \<times> (string, unit) result" where
  "initialized s =
     (if \<not> lp_initialize_requested s
      then (s, Err ''received `initialized` notification before `initialize`'')
      else (s\<lparr>lp_initialized := True\<rparr>, Ok ()))"

definition require_initialized_for :: "string \<Rightarrow> LocalProcess \<Rightarrow> (ChannelError, unit) result" where
  "require_initialized_for method_family s =
     (if \<not> lp_initialize_requested s
      then Err (invalid_request (''client must call initialize before using '' @ method_family @ '' methods''))
      else if \<not> lp_initialized s
      then Err (invalid_request (''client must send initialized before using '' @ method_family @ '' methods''))
      else Ok ())"

section \<open>Starting a process\<close>

definition fresh_process :: "nat \<Rightarrow> bool \<Rightarrow> RunningProcess" where
  "fresh_process session tty =
     \<lparr>rp_session = session, rp_tty = tty, rp_output = [], rp_retained_bytes = 0, rp_next_seq = 1,
      rp_exit_code = None, rp_wake = 0, rp_open_streams = 2, rp_closed = False\<rparr>"

text \<open>The table is locked twice around the spawn: once to reserve the id, once to install the
  process or to take the reservation back.\<close>

definition start_reserve :: "ExecParams \<Rightarrow> LocalProcess \<Rightarrow> LocalProcess \<times> (ChannelError, unit) result" where
  "start_reserve params s =
     (case require_initialized_for ''exec'' s of
        Inl e \<Rightarrow> (s, Err e)
      | Inr _ \<Rightarrow>
          (case xp_argv params of
             [] \<Rightarrow> (s, Err (invalid_params ''argv must not be empty''))
           | program # args \<Rightarrow>
               (case hm_get (lp_processes s) (xp_process_id params) of
                  Some _ \<Rightarrow> (s, Err (invalid_request
                    (''process '' @ xp_process_id params @ '' already exists'')))
                | None \<Rightarrow>
                    (s\<lparr>lp_processes := hm_insert (xp_process_id params) Starting (lp_processes s)\<rparr>,
                     Ok ()))))"

definition start_finish ::
  "ExecParams \<Rightarrow> (string, nat) result \<Rightarrow> LocalProcess \<Rightarrow>
     LocalProcess \<times> (ChannelError, ProcessId) result" where
  "start_finish params spawned_result s =
     (case spawned_result of
        Inl err \<Rightarrow>
          (case hm_get (lp_processes s) (xp_process_id params) of
             Some Starting \<Rightarrow>
               s\<lparr>lp_processes := hm_remove (xp_process_id params) (lp_processes s)\<rparr>
           | _ \<Rightarrow> s,
           Err (internal_error err))
      | Inr session \<Rightarrow>
          (s\<lparr>lp_processes := hm_insert (xp_process_id params)
               (Running (fresh_process session (xp_tty params))) (lp_processes s)\<rparr>,
           Ok (xp_process_id params)))"

definition start_process ::
  "ExecParams \<Rightarrow> (string, nat) result \<Rightarrow> LocalProcess \<Rightarrow>
     LocalProcess \<times> (ChannelError, ProcessId) result" where
  "start_process params spawned_result s =
     (case start_reserve params s of
        (s, Inl e) \<Rightarrow> (s, Err e)
      | (s, Inr _) \<Rightarrow> start_finish params spawned_result s)"

section \<open>Reading output\<close>

definition to_output_chunk :: "RetainedOutputChunk \<Rightarrow> ProcessOutputChunk" where
  "to_output_chunk r = \<lparr>oc_seq = rc_seq r, oc_stream = rc_stream r, oc_chunk = rc_chunk r\<rparr>"

fun read_collect ::
  "nat \<Rightarrow> ProcessOutputChunk list \<Rightarrow> nat \<Rightarrow> nat \<Rightarrow> RetainedOutputChunk list \<Rightarrow>
     ProcessOutputChunk list \<times> nat" where
  "read_collect max_bytes chunks total_bytes next_seq [] = (chunks, next_seq)"
| "read_collect max_bytes chunks total_bytes next_seq (retained # rest) =
     (let chunk_len = length (rc_chunk retained)
      in if chunks \<noteq> [] \<and> total_bytes + chunk_len > max_bytes then (chunks, next_seq)
         else
           let total_bytes = total_bytes + chunk_len;
               chunks = chunks @ [to_output_chunk retained];
               next_seq = rc_seq retained + 1
           in if total_bytes \<ge> max_bytes then (chunks, next_seq)
              else read_collect max_bytes chunks total_bytes next_seq rest)"

definition read_snapshot :: "nat \<Rightarrow> nat \<Rightarrow> RunningProcess \<Rightarrow> ReadResponse" where
  "read_snapshot after_seq max_bytes p =
     (let (chunks, next_seq) =
            read_collect max_bytes [] 0 (rp_next_seq p)
              (filter (\<lambda>c. rc_seq c > after_seq) (rp_output p))
      in \<lparr>rr_chunks = chunks, rr_next_seq = next_seq, rr_exited = rp_exit_code p \<noteq> None,
          rr_exit_code = rp_exit_code p, rr_closed = rp_closed p, rr_failure = None\<rparr>)"

definition option_or :: "'a option \<Rightarrow> 'a \<Rightarrow> 'a" where
  "option_or x d = (case x of None \<Rightarrow> d | Some v \<Rightarrow> v)"

definition read_once :: "ReadParams \<Rightarrow> LocalProcess \<Rightarrow> (ChannelError, ReadResponse) result" where
  "read_once params s =
     (case hm_get (lp_processes s) (rd_process_id params) of
        None \<Rightarrow> Err (invalid_request (''unknown process id '' @ rd_process_id params))
      | Some Starting \<Rightarrow>
          Err (invalid_request (''process id '' @ rd_process_id params @ '' is starting''))
      | Some (Running p) \<Rightarrow>
          Ok (read_snapshot (option_or (rd_after_seq params) 0)
                (option_or (rd_max_bytes params) USIZE_MAX) p))"

text \<open>The waiting loop of \<^verbatim>\<open>exec_read\<close>.  Each iteration sees the state under the
  lock and reads the clock twice; the list holds these observations in order, and \<^const>\<open>None\<close>
  means that the loop is still waiting after the last one.\<close>

fun exec_read_loop ::
  "ReadParams \<Rightarrow> nat \<Rightarrow> (LocalProcess \<times> nat \<times> nat) list \<Rightarrow>
     (ChannelError, ReadResponse) result option" where
  "exec_read_loop params deadline [] = None"
| "exec_read_loop params deadline ((s, now1, now2) # rest) =
     (case read_once params s of
        Inl e \<Rightarrow> Some (Err e)
      | Inr response \<Rightarrow>
          if rr_chunks response \<noteq> [] \<or> rr_exited response \<or> now1 \<ge> deadline
          then Some (Ok response)
          else if deadline - now2 = 0 then Some (Ok response)
          else exec_read_loop params deadline rest)"

definition exec_read ::
  "ReadParams \<Rightarrow> nat \<Rightarrow> LocalProcess \<Rightarrow> (LocalProcess \<times> nat \<times> nat) list \<Rightarrow>
     (ChannelError, ReadResponse) result option" where
  "exec_read params now s observations =
     (case require_initialized_for ''exec'' s of
        Inl e \<Rightarrow> Some (Err e)
      | Inr _ \<Rightarrow> exec_read_loop params (now + option_or (rd_wait_ms params) 0) observations)"

section \<open>Writing, terminating, shutting down\<close>

definition exec_write ::
  "WriteParams \<Rightarrow> bool \<Rightarrow> LocalProcess \<Rightarrow> LocalProcess \<times> (ChannelError, WriteStatus) result" where
  "exec_write params send_ok s =
     (case require_initialized_for ''exec'' s of
        Inl e \<Rightarrow> (s, Err e)
      | Inr _ \<Rightarrow>
          (case hm_get (lp_processes s) (wp_process_id params) of
             None \<Rightarrow> (s, Ok StatusUnknownProcess)
           | Some Starting \<Rightarrow> (s, Ok StatusStarting)
           | Some (Running p) \<Rightarrow>
               if \<not> rp_tty p then (s, Ok StatusStdinClosed)
               else if send_ok
               then (s\<lparr>lp_stdin := lp_stdin s @ [(rp_session p, wp_chunk params)]\<rparr>, Ok StatusAccepted)
               else (s, Err (internal_error ''failed to write to process stdin''))))"

definition terminate_process ::
  "ProcessId \<Rightarrow> LocalProcess \<Rightarrow> LocalProcess \<times> (ChannelError, bool) result" where
  "terminate_process pid s =
     (case require_initialized_for ''exec'' s of
        Inl e \<Rightarrow> (s, Err e)
      | Inr _ \<Rightarrow>
          (case hm_get (lp_processes s) pid of
             Some (Running p) \<Rightarrow>
               if rp_exit_code p \<noteq> None then (s, Ok False)
               else (s\<lparr>lp_terminated := lp_terminated s @ [rp_session p]\<rparr>, Ok True)
           | Some Starting \<Rightarrow> (s, Ok False)
           | None \<Rightarrow> (s, Ok False)))"

definition running_session :: "ProcessEntry \<Rightarrow> nat option" where
  "running_session e = (case e of Starting \<Rightarrow> None | Running p \<Rightarrow> Some (rp_session p))"

definition shutdown :: "LocalProcess \<Rightarrow> LocalProcess" where
  "shutdown s =
     s\<lparr>lp_processes := [],
       lp_terminated := lp_terminated s @ List.map_filter (\<lambda>(_, e). running_session e) (lp_processes s)\<rparr>"

definition map_handler_error :: "ChannelError \<Rightarrow> ExecServerError" where
  "map_handler_error error = Server (kind_to_string (ce_kind error)) (ce_message error)"

section \<open>The critical sections of the per-process tasks\<close>

fun evict :: "nat \<Rightarrow> RetainedOutputChunk list \<Rightarrow> nat \<times> RetainedOutputChunk list" where
  "evict retained [] = (retained, [])"
| "evict retained (c # output) =
     (if retained > RETAINED_OUTPUT_BYTES_PER_PROCESS
      then evict (retained - length (rc_chunk c)) output
      else (retained, c # output))"

definition push_chunk :: "ExecOutputStream \<Rightarrow> byte list \<Rightarrow> RunningProcess \<Rightarrow> RunningProcess \<times> nat" where
  "push_chunk stream chunk p =
     (let seq = rp_next_seq p;
          output = rp_output p @ [\<lparr>rc_seq = seq, rc_stream = stream, rc_chunk = chunk\<rparr>];
          (retained, output) = evict (rp_retained_bytes p + length chunk) output
      in (p\<lparr>rp_next_seq := seq + 1, rp_retained_bytes := retained, rp_output := output,
            rp_wake := seq\<rparr>, seq))"

definition record_exit :: "int \<Rightarrow> RunningProcess \<Rightarrow> RunningProcess \<times> nat" where
  "record_exit exit_code p =
     (p\<lparr>rp_next_seq := rp_next_seq p + 1, rp_exit_code := Some exit_code, rp_wake := rp_next_seq p\<rparr>,
      rp_next_seq p)"

definition close_stream :: "RunningProcess \<Rightarrow> RunningProcess" where
  "close_stream p =
     (if rp_open_streams p > 0 then p\<lparr>rp_open_streams := rp_open_streams p - 1\<rparr> else p)"

definition close_if_done :: "RunningProcess \<Rightarrow> RunningProcess \<times> nat option" where
  "close_if_done p =
     (if rp_closed p \<or> rp_open_streams p \<noteq> 0 \<or> rp_exit_code p = None then (p, None)
      else (p\<lparr>rp_closed := True, rp_next_seq := rp_next_seq p + 1, rp_wake := rp_next_seq p\<rparr>,
            Some (rp_next_seq p)))"

definition on_running ::
  "ProcessId \<Rightarrow> (RunningProcess \<Rightarrow> RunningProcess \<times> 'n) \<Rightarrow> LocalProcess \<Rightarrow>
     LocalProcess \<times> 'n option" where
  "on_running pid f s =
     (case hm_get (lp_processes s) pid of
        Some (Running p) \<Rightarrow>
          (case f p of (p, n) \<Rightarrow>
             (s\<lparr>lp_processes := hm_insert pid (Running p) (lp_processes s)\<rparr>, Some n))
      | _ \<Rightarrow> (s, None))"

definition stream_output_section ::
  "ProcessId \<Rightarrow> ExecOutputStream \<Rightarrow> byte list \<Rightarrow> LocalProcess \<Rightarrow>
     LocalProcess \<times> ExecOutputDeltaNotification option" where
  "stream_output_section pid stream chunk s =
     on_running pid (\<lambda>p. case push_chunk stream chunk p of (p, seq) \<Rightarrow>
       (p, \<lparr>od_process_id = pid, od_seq = seq, od_stream = stream, od_chunk = chunk\<rparr>)) s"

definition watch_exit_section ::
  "ProcessId \<Rightarrow> int option \<Rightarrow> LocalProcess \<Rightarrow> LocalProcess \<times> ExecExitedNotification option" where
  "watch_exit_section pid received s =
     (let exit_code = option_or received (- 1)
      in on_running pid (\<lambda>p. case record_exit exit_code p of (p, seq) \<Rightarrow>
           (p, \<lparr>ex_process_id = pid, ex_seq = seq, ex_exit_code = exit_code\<rparr>)) s)"

definition finish_output_stream_section :: "ProcessId \<Rightarrow> LocalProcess \<Rightarrow> LocalProcess \<times> unit option" where
  "finish_output_stream_section pid s = on_running pid (\<lambda>p. (close_stream p, ())) s"

definition maybe_emit_closed_section ::
  "ProcessId \<Rightarrow> LocalProcess \<Rightarrow> LocalProcess \<times> ExecClosedNotification option" where
  "maybe_emit_closed_section pid s =
     (case on_running pid close_if_done s of
        (s, Some (Some seq)) \<Rightarrow> (s, Some \<lparr>cl_process_id = pid, cl_seq = seq\<rparr>)
      | (s, _) \<Rightarrow> (s, None))"

definition reap_exited :: "ProcessId \<Rightarrow> int \<Rightarrow> LocalProcess \<Rightarrow> LocalProcess" where
  "reap_exited pid exit_code s =
     (case hm_get (lp_processes s) pid of
        Some (Running p) \<Rightarrow>
          if rp_exit_code p = Some exit_code
          then s\<lparr>lp_processes := hm_remove pid (lp_processes s)\<rparr> else s
      | _ \<Rightarrow> s)"

section \<open>The retained output\<close>

definition bytes_of :: "RetainedOutputChunk list \<Rightarrow> nat" where
  "bytes_of cs = sum_list (map (\<lambda>c. length (rc_chunk c)) cs)"

lemma bytes_of_simps [simp]:
  "bytes_of [] = 0"
  "bytes_of (c # cs) = length (rc_chunk c) + bytes_of cs"
  "bytes_of (cs @ ds) = bytes_of cs + bytes_of ds"
  by (simp_all add: bytes_of_def)

text \<open>Reference definition of eviction: the longest suffix that fits.\<close>

fun keep :: "RetainedOutputChunk list \<Rightarrow> RetainedOutputChunk list" where
  "keep [] = []"
| "keep (c # cs) =
     (if bytes_of (c # cs) > RETAINED_OUTPUT_BYTES_PER_PROCESS then keep cs else c # cs)"

lemma evict_keep: "evict (bytes_of cs) cs = (bytes_of (keep cs), keep cs)"
  by (induction cs) (auto simp: not_less)

lemma keep_append: "keep (keep xs @ ys) = keep (xs @ ys)"
  by (induction xs) auto

lemma keep_bound: "bytes_of (keep cs) \<le> RETAINED_OUTPUT_BYTES_PER_PROCESS"
  by (induction cs) auto

lemma keep_suffix: "\<exists>ds. cs = ds @ keep cs"
proof (induction cs)
  case (Cons c cs)
  then obtain ds where "cs = ds @ keep cs" by blast
  then show ?case by (cases "bytes_of (c # cs) > RETAINED_OUTPUT_BYTES_PER_PROCESS")
      (auto intro: exI [of _ "c # ds"])
qed simp

lemma keep_longest:
  "\<lbrakk>cs = ds @ es; bytes_of es \<le> RETAINED_OUTPUT_BYTES_PER_PROCESS\<rbrakk> \<Longrightarrow> length es \<le> length (keep cs)"
proof (induction ds arbitrary: cs)
  case Nil
  then show ?case by (cases cs) auto
next
  case (Cons d ds)
  then show ?case by (auto intro: le_SucI)
qed

lemma keep_set: "set (keep cs) \<subseteq> set cs"
  using keep_suffix [of cs] by (metis set_append sup_ge2)

section \<open>Invariant of a process\<close>

definition proc_inv :: "RunningProcess \<Rightarrow> bool" where
  "proc_inv p \<longleftrightarrow>
     sorted_wrt (<) (map rc_seq (rp_output p)) \<and>
     (\<forall>c \<in> set (rp_output p). 0 < rc_seq c \<and> rc_seq c < rp_next_seq p) \<and>
     0 < rp_next_seq p \<and>
     rp_retained_bytes p = bytes_of (rp_output p) \<and>
     rp_retained_bytes p \<le> RETAINED_OUTPUT_BYTES_PER_PROCESS \<and>
     rp_open_streams p \<le> 2 \<and>
     (rp_closed p \<longrightarrow> rp_exit_code p \<noteq> None \<and> rp_open_streams p = 0)"

lemma proc_inv_fresh [simp, invar_intros]: "proc_inv (fresh_process session tty)"
  by (simp add: proc_inv_def fresh_process_def)

lemma push_chunk_keep:
  assumes "rp_retained_bytes p = bytes_of (rp_output p)"
  shows "push_chunk stream chunk p =
    (let out = keep (rp_output p @ [\<lparr>rc_seq = rp_next_seq p, rc_stream = stream, rc_chunk = chunk\<rparr>])
     in (p\<lparr>rp_next_seq := rp_next_seq p + 1, rp_retained_bytes := bytes_of out, rp_output := out,
           rp_wake := rp_next_seq p\<rparr>, rp_next_seq p))"
proof -
  let ?c = "\<lparr>rc_seq = rp_next_seq p, rc_stream = stream, rc_chunk = chunk\<rparr>"
  have "rp_retained_bytes p + length chunk = bytes_of (rp_output p @ [?c])" using assms by simp
  then show ?thesis
    unfolding push_chunk_def Let_def by (simp only: evict_keep prod.case)
qed

lemma sorted_keep: "sorted_wrt P (map f cs) \<Longrightarrow> sorted_wrt P (map f (keep cs))"
  using keep_suffix [of cs] by (metis map_append sorted_wrt_append)

lemma push_chunk_inv [invar_intros]:
  assumes "proc_inv p"
  shows "proc_inv (fst (push_chunk stream chunk p))"
proof -
  let ?c = "\<lparr>rc_seq = rp_next_seq p, rc_stream = stream, rc_chunk = chunk\<rparr>"
  let ?out = "keep (rp_output p @ [?c])"
  have r: "rp_retained_bytes p = bytes_of (rp_output p)" using assms by (simp add: proc_inv_def)
  have "sorted_wrt (<) (map rc_seq ?out)"
    using assms by (intro sorted_keep) (auto simp: proc_inv_def sorted_wrt_append)
  moreover have "0 < rc_seq c \<and> rc_seq c < rp_next_seq p + 1" if "c \<in> set ?out" for c
    using that keep_set assms by (fastforce simp: proc_inv_def)
  ultimately show ?thesis
    using assms keep_bound by (simp add: proc_inv_def push_chunk_keep [OF r] Let_def)
qed

lemma record_exit_inv [invar_intros]: "proc_inv p \<Longrightarrow> proc_inv (fst (record_exit code p))"
  by (auto simp: proc_inv_def record_exit_def less_Suc_eq)

lemma close_stream_inv [invar_intros]: "proc_inv p \<Longrightarrow> proc_inv (close_stream p)"
  by (auto simp: proc_inv_def close_stream_def)

lemma close_if_done_inv [invar_intros]: "proc_inv p \<Longrightarrow> proc_inv (fst (close_if_done p))"
  by (auto simp: proc_inv_def close_if_done_def less_Suc_eq)

section \<open>Invariant of the table\<close>

definition lp_inv :: "LocalProcess \<Rightarrow> bool" where
  "lp_inv s \<longleftrightarrow> (\<forall>pid p. hm_get (lp_processes s) pid = Some (Running p) \<longrightarrow> proc_inv p)"

lemma lp_invD: "\<lbrakk>lp_inv s; hm_get (lp_processes s) pid = Some (Running p)\<rbrakk> \<Longrightarrow> proc_inv p"
  by (auto simp: lp_inv_def)

lemma lp_inv_cong: "lp_processes s' = lp_processes s \<Longrightarrow> lp_inv s \<Longrightarrow> lp_inv s'"
  by (simp add: lp_inv_def)

lemma on_running_inv:
  assumes "lp_inv s" and "\<And>p. proc_inv p \<Longrightarrow> proc_inv (fst (f p))"
  shows "lp_inv (fst (on_running pid f s))"
proof (cases "hm_get (lp_processes s) pid")
  case (Some e)
  then show ?thesis
    using assms lp_invD [OF assms(1), of pid]
    by (cases e) (auto simp: on_running_def lp_inv_def case_prod_unfold)
qed (use assms in \<open>simp add: on_running_def\<close>)

text \<open>What one step of the service can be: an API call (the two halves of
  \<^verbatim>\<open>start_process\<close> separately, since other steps run between them) or a critical
  section of some task, for any process id.\<close>

datatype lp_op =
    OpInitialize "string option" "string option"
  | OpInitialized
  | OpReserve ExecParams
  | OpStartFinish ExecParams "(string, nat) result"
  | OpWrite WriteParams bool
  | OpTerminate ProcessId
  | OpShutdown
  | OpOutput ProcessId ExecOutputStream "byte list"
  | OpExit ProcessId "int option"
  | OpFinishStream ProcessId
  | OpMaybeClosed ProcessId
  | OpReap ProcessId int

fun lp_step :: "lp_op \<Rightarrow> LocalProcess \<Rightarrow> LocalProcess" where
  "lp_step (OpInitialize shell cwd) s = fst (initialize shell cwd s)"
| "lp_step OpInitialized s = fst (initialized s)"
| "lp_step (OpReserve params) s = fst (start_reserve params s)"
| "lp_step (OpStartFinish params spawned) s = fst (start_finish params spawned s)"
| "lp_step (OpWrite params ok) s = fst (exec_write params ok s)"
| "lp_step (OpTerminate pid) s = fst (terminate_process pid s)"
| "lp_step OpShutdown s = shutdown s"
| "lp_step (OpOutput pid stream chunk) s = fst (stream_output_section pid stream chunk s)"
| "lp_step (OpExit pid code) s = fst (watch_exit_section pid code s)"
| "lp_step (OpFinishStream pid) s = fst (finish_output_stream_section pid s)"
| "lp_step (OpMaybeClosed pid) s = fst (maybe_emit_closed_section pid s)"
| "lp_step (OpReap pid code) s = reap_exited pid code s"

definition lp_run :: "lp_op list \<Rightarrow> LocalProcess \<Rightarrow> LocalProcess" where
  "lp_run ops s = foldl (\<lambda>s op. lp_step op s) s ops"

lemma lp_inv_step: "lp_inv s \<Longrightarrow> lp_inv (lp_step op s)"
proof (cases op)
  case (OpStartFinish params spawned)
  moreover assume "lp_inv s"
  ultimately show ?thesis
    by (auto simp: start_finish_def lp_inv_def split: sum.splits option.splits ProcessEntry.splits)
next
  case (OpOutput pid stream chunk)
  moreover assume "lp_inv s"
  ultimately show ?thesis
    using push_chunk_inv
    by (auto simp: stream_output_section_def split: prod.splits intro!: on_running_inv)
       (metis fst_conv)
next
  case (OpExit pid code)
  moreover assume "lp_inv s"
  ultimately show ?thesis
    using record_exit_inv
    by (auto simp: watch_exit_section_def Let_def split: prod.splits intro!: on_running_inv)
       (metis fst_conv)
next
  case (OpFinishStream pid)
  moreover assume "lp_inv s"
  ultimately show ?thesis
    using close_stream_inv
    by (auto simp: finish_output_stream_section_def intro!: on_running_inv)
next
  case (OpMaybeClosed pid)
  assume "lp_inv s"
  then have "lp_inv (fst (on_running pid close_if_done s))"
    by (intro on_running_inv close_if_done_inv)
  moreover have "fst (maybe_emit_closed_section pid s) = fst (on_running pid close_if_done s)"
    by (auto simp: maybe_emit_closed_section_def split: prod.splits option.splits)
  ultimately show ?thesis by (simp add: OpMaybeClosed)
next
  case (OpReap pid code)
  moreover assume "lp_inv s"
  ultimately show ?thesis
    by (auto simp: reap_exited_def lp_inv_def split: option.splits ProcessEntry.splits)
next
  case (OpReserve params)
  moreover assume "lp_inv s"
  ultimately show ?thesis
    by (auto simp: start_reserve_def lp_inv_def split: sum.splits option.splits list.splits)
next
  case OpShutdown
  then show ?thesis by (simp add: shutdown_def lp_inv_def)
qed (auto simp: initialize_def initialized_def exec_write_def terminate_process_def
      intro: lp_inv_cong split: sum.splits option.splits ProcessEntry.splits)

lemma lp_inv_run: "lp_inv s \<Longrightarrow> lp_inv (lp_run ops s)"
  unfolding lp_run_def by (induction ops arbitrary: s) (auto intro: lp_inv_step)

lemma lp_inv_new: "lp_inv lp_new"
  by (simp add: lp_inv_def lp_new_def)

section \<open>Reading resumes without loss\<close>

definition resp_bytes :: "ProcessOutputChunk list \<Rightarrow> nat" where
  "resp_bytes cs = sum_list (map (\<lambda>c. length (oc_chunk c)) cs)"

lemma resp_bytes_simps [simp]:
  "resp_bytes [] = 0" "resp_bytes (c # cs) = length (oc_chunk c) + resp_bytes cs"
  "resp_bytes (cs @ ds) = resp_bytes cs + resp_bytes ds"
  by (simp_all add: resp_bytes_def)

text \<open>The loop delivers a prefix, and \<^verbatim>\<open>next_seq\<close> is one past its last chunk.\<close>

lemma read_collect_prefix:
  "read_collect max_bytes chunks tot next rs = (out, next') \<Longrightarrow>
     \<exists>k \<le> length rs. out = chunks @ map to_output_chunk (take k rs) \<and>
        next' = (if k = 0 then next else rc_seq (rs ! (k - 1)) + 1) \<and>
        (chunks = [] \<and> rs \<noteq> [] \<longrightarrow> 0 < k)"
proof (induction max_bytes chunks tot "next" rs rule: read_collect.induct)
  case (1 max_bytes chunks total_bytes next_seq)
  then show ?case by simp
next
  case (2 max_bytes chunks total_bytes next_seq retained rest)
  let ?total = "total_bytes + length (rc_chunk retained)"
  let ?chunks = "chunks @ [to_output_chunk retained]"
  consider (stop) "chunks \<noteq> []" "?total > max_bytes"
    | (full) "chunks = [] \<or> \<not> ?total > max_bytes" "?total \<ge> max_bytes"
    | (go) "chunks = [] \<or> \<not> ?total > max_bytes" "\<not> ?total \<ge> max_bytes"
    by blast
  then show ?case
  proof cases
    case stop
    then show ?thesis using 2 by (intro exI [of _ 0]) (simp add: Let_def)
  next
    case full
    then show ?thesis using 2 by (intro exI [of _ 1]) (auto simp: Let_def)
  next
    case go
    then have "read_collect max_bytes ?chunks ?total (rc_seq retained + 1) rest = (out, next')"
      using 2(2) by (auto simp: Let_def)
    then obtain k where k: "k \<le> length rest" "out = ?chunks @ map to_output_chunk (take k rest)"
      "next' = (if k = 0 then rc_seq retained + 1 else rc_seq (rest ! (k - 1)) + 1)"
      using 2(1) [OF refl _ refl refl refl] go by (auto simp: Let_def)
    then show ?thesis by (intro exI [of _ "Suc k"]) (auto simp: nth_Cons split: nat.splits)
  qed
qed

lemma read_collect_bound:
  "\<lbrakk>read_collect max_bytes chunks (resp_bytes chunks) next rs = (out, next');
    chunks = [] \<or> length chunks = 1 \<or> resp_bytes chunks \<le> max_bytes\<rbrakk> \<Longrightarrow>
     resp_bytes out \<le> max_bytes \<or> length out \<le> 1"
proof (induction rs arbitrary: chunks "next")
  case (Cons r rs)
  let ?chunks = "chunks @ [to_output_chunk r]"
  have b: "resp_bytes chunks + length (rc_chunk r) = resp_bytes ?chunks"
    by (simp add: to_output_chunk_def)
  show ?case
  proof (cases "chunks \<noteq> [] \<and> resp_bytes ?chunks > max_bytes")
    case True
    then show ?thesis using Cons.prems by (auto simp: Let_def b)
  next
    case False
    then show ?thesis
      using Cons.prems Cons.IH [of ?chunks "rc_seq r + 1"]
      by (auto simp: Let_def b split: if_splits)
  qed
qed auto

lemma sorted_filter_take:
  assumes "sorted_wrt (<) (map rc_seq cs)" and "k < length cs"
  shows "filter (\<lambda>c. rc_seq c > rc_seq (cs ! k)) cs = drop (Suc k) cs"
proof -
  have cs: "cs = take (Suc k) cs @ drop (Suc k) cs" by simp
  have "\<not> rc_seq c > rc_seq (cs ! k)" if c: "c \<in> set (take (Suc k) cs)" for c
  proof -
    obtain i where "i \<le> k" "c = cs ! i" using c assms(2) by (auto simp: in_set_conv_nth less_Suc_eq_le)
    then show ?thesis using assms by (cases "i = k") (auto simp: sorted_wrt_iff_nth_less not_less less_imp_le)
  qed
  moreover have "rc_seq c > rc_seq (cs ! k)" if c: "c \<in> set (drop (Suc k) cs)" for c
  proof -
    obtain i where "i < length (drop (Suc k) cs)" "c = drop (Suc k) cs ! i"
      using c by (metis in_set_conv_nth)
    then have "Suc k + i < length cs" "c = cs ! (Suc k + i)" by auto
    then show ?thesis using assms by (auto simp: sorted_wrt_iff_nth_less)
  qed
  ultimately have "filter (\<lambda>c. rc_seq c > rc_seq (cs ! k)) (take (Suc k) cs @ drop (Suc k) cs) = drop (Suc k) cs"
    unfolding filter_append by (subst filter_False, blast) (subst filter_True, auto)
  then show ?thesis unfolding append_take_drop_id .
qed

lemma sorted_filter_seqs:
  "sorted_wrt (<) (map rc_seq cs) \<Longrightarrow> sorted_wrt (<) (map rc_seq (filter P cs))"
  by (simp add: sorted_wrt_map sorted_wrt_filter)

lemma read_snapshot_split:
  assumes inv: "proc_inv p"
  shows "rr_chunks (read_snapshot after max_bytes p) @
           map to_output_chunk
             (filter (\<lambda>c. rc_seq c > rr_next_seq (read_snapshot after max_bytes p) - 1) (rp_output p)) =
         map to_output_chunk (filter (\<lambda>c. rc_seq c > after) (rp_output p)) \<and>
         (filter (\<lambda>c. rc_seq c > after) (rp_output p) \<noteq> [] \<longrightarrow>
            rr_chunks (read_snapshot after max_bytes p) \<noteq> [])"
proof -
  let ?rs = "filter (\<lambda>c. rc_seq c > after) (rp_output p)"
  obtain out nxt where rc: "read_collect max_bytes [] 0 (rp_next_seq p) ?rs = (out, nxt)" by force
  then obtain k where k: "k \<le> length ?rs" "out = map to_output_chunk (take k ?rs)"
    "nxt = (if k = 0 then rp_next_seq p else rc_seq (?rs ! (k - 1)) + 1)" "?rs \<noteq> [] \<longrightarrow> 0 < k"
    using read_collect_prefix [OF rc] by auto
  have seqs: "\<forall>c \<in> set (rp_output p). rc_seq c < rp_next_seq p"
    and srt: "sorted_wrt (<) (map rc_seq ?rs)"
    using inv by (auto simp: proc_inv_def sorted_filter_seqs)
  have rest: "filter (\<lambda>c. rc_seq c > nxt - 1) (rp_output p) = drop k ?rs"
  proof (cases k)
    case 0
    then have "?rs = []" using k by auto
    moreover have "filter (\<lambda>c. rc_seq c > rp_next_seq p - 1) (rp_output p) = []"
      using seqs by (auto simp: filter_empty_conv)
    ultimately show ?thesis using 0 k by simp
  next
    case (Suc j)
    have "?rs ! j \<in> set ?rs" using k Suc by (intro nth_mem) simp
    then have "after < rc_seq (?rs ! j)" by simp
    then have "filter (\<lambda>c. rc_seq c > nxt - 1) (rp_output p) = filter (\<lambda>c. rc_seq c > rc_seq (?rs ! j)) ?rs"
      using k Suc by (auto intro!: filter_cong)
    then show ?thesis using sorted_filter_take [OF srt, of j] k Suc by simp
  qed
  have "out @ map to_output_chunk (drop k ?rs) = map to_output_chunk ?rs"
    using k(2) by (metis append_take_drop_id map_append)
  then show ?thesis
    using rest k rc by (auto simp: read_snapshot_def)
qed

lemma read_snapshot_bound:
  "resp_bytes (rr_chunks (read_snapshot after max_bytes p)) \<le> max_bytes \<or>
   length (rr_chunks (read_snapshot after max_bytes p)) \<le> 1"
  using read_collect_bound [of max_bytes "[]" "rp_next_seq p"]
  by (auto simp: read_snapshot_def split: prod.splits)

section \<open>The life of one process\<close>

text \<open>
  One process with its own three tasks.  A stream task reads chunks until end of file or until
  a notification cannot be sent, then closes its stream (\<^verbatim>\<open>finish_output_stream\<close>)
  and checks whether the process is closed (\<^verbatim>\<open>maybe_emit_closed\<close>).  The exit task
  records the exit and checks as well, unless its notification cannot be sent: then it returns
  at once.  The log lists the events in the order of their critical sections.
\<close>

datatype stream_pc = SReading | SFinishing | SChecking | SDone
datatype exit_pc = EWaiting | EChecking | EDone | EAborted

record Incarnation =
  in_proc :: RunningProcess
  in_streams :: "bool \<Rightarrow> stream_pc"
  in_exit :: exit_pc
  in_log :: "ProcessEvent list"

definition task_stream :: "bool \<Rightarrow> bool \<Rightarrow> ExecOutputStream" where
  "task_stream tty first = (if tty then Pty else if first then Stdout else Stderr)"

definition inc_start :: "nat \<Rightarrow> bool \<Rightarrow> Incarnation" where
  "inc_start session tty =
     \<lparr>in_proc = fresh_process session tty, in_streams = (\<lambda>_. SReading), in_exit = EWaiting,
      in_log = []\<rparr>"

definition log_closed :: "ProcessId \<Rightarrow> nat option \<Rightarrow> ProcessEvent list" where
  "log_closed pid n =
     (case n of None \<Rightarrow> [] | Some seq \<Rightarrow> [Closed \<lparr>cl_process_id = pid, cl_seq = seq\<rparr>])"

inductive inc_step :: "ProcessId \<Rightarrow> Incarnation \<Rightarrow> Incarnation \<Rightarrow> bool" for pid where
  chunk: "\<lbrakk>in_streams i b = SReading; stream = task_stream (rp_tty (in_proc i)) b;
           push_chunk stream c (in_proc i) = (p, seq)\<rbrakk> \<Longrightarrow>
    inc_step pid i (i\<lparr>in_proc := p,
      in_streams := (in_streams i)(b := if notify_ok then SReading else SFinishing),
      in_log := in_log i @ [OutputDelta \<lparr>od_process_id = pid, od_seq = seq, od_stream = stream,
                              od_chunk = c\<rparr>]\<rparr>)"
| eof: "in_streams i b = SReading \<Longrightarrow>
    inc_step pid i (i\<lparr>in_streams := (in_streams i)(b := SFinishing)\<rparr>)"
| finish: "in_streams i b = SFinishing \<Longrightarrow>
    inc_step pid i (i\<lparr>in_proc := close_stream (in_proc i),
      in_streams := (in_streams i)(b := SChecking)\<rparr>)"
| stream_check: "\<lbrakk>in_streams i b = SChecking; close_if_done (in_proc i) = (p, n)\<rbrakk> \<Longrightarrow>
    inc_step pid i (i\<lparr>in_proc := p, in_streams := (in_streams i)(b := SDone),
      in_log := in_log i @ log_closed pid n\<rparr>)"
| exit: "\<lbrakk>in_exit i = EWaiting; record_exit code (in_proc i) = (p, seq)\<rbrakk> \<Longrightarrow>
    inc_step pid i (i\<lparr>in_proc := p, in_exit := (if notify_ok then EChecking else EAborted),
      in_log := in_log i @ [Exited \<lparr>ex_process_id = pid, ex_seq = seq, ex_exit_code = code\<rparr>]\<rparr>)"
| exit_check: "\<lbrakk>in_exit i = EChecking; close_if_done (in_proc i) = (p, n)\<rbrakk> \<Longrightarrow>
    inc_step pid i (i\<lparr>in_proc := p, in_exit := EDone, in_log := in_log i @ log_closed pid n\<rparr>)"

inductive inc_reach :: "ProcessId \<Rightarrow> Incarnation \<Rightarrow> bool" for pid where
  start: "inc_reach pid (inc_start session tty)"
| step: "\<lbrakk>inc_reach pid i; inc_step pid i i'\<rbrakk> \<Longrightarrow> inc_reach pid i'"

definition is_closed_event :: "ProcessEvent \<Rightarrow> bool" where
  "is_closed_event e = (case e of Closed _ \<Rightarrow> True | _ \<Rightarrow> False)"

definition is_exited_event :: "ProcessEvent \<Rightarrow> bool" where
  "is_exited_event e = (case e of Exited _ \<Rightarrow> True | _ \<Rightarrow> False)"

definition log_chunks :: "ProcessEvent list \<Rightarrow> RetainedOutputChunk list" where
  "log_chunks evs = List.map_filter
     (\<lambda>e. case e of
        OutputDelta n \<Rightarrow> Some \<lparr>rc_seq = od_seq n, rc_stream = od_stream n, rc_chunk = od_chunk n\<rparr>
      | _ \<Rightarrow> None) evs"

definition stream_open :: "stream_pc \<Rightarrow> bool" where
  "stream_open pc \<longleftrightarrow> pc = SReading \<or> pc = SFinishing"

definition open_count :: "(bool \<Rightarrow> stream_pc) \<Rightarrow> nat" where
  "open_count f = (if stream_open (f True) then 1 else 0) + (if stream_open (f False) then 1 else 0)"

definition closed_shape :: "bool \<Rightarrow> ProcessEvent list \<Rightarrow> bool" where
  "closed_shape closed evs \<longleftrightarrow>
     (if closed then \<exists>es e. evs = es @ [e] \<and> is_closed_event e \<and> filter is_closed_event es = []
      else filter is_closed_event evs = [])"

definition inc_inv :: "Incarnation \<Rightarrow> bool" where
  "inc_inv i \<longleftrightarrow> (let p = in_proc i in
     proc_inv p \<and>
     map event_seq (in_log i) = [1..<rp_next_seq p] \<and>
     rp_output p = keep (log_chunks (in_log i)) \<and>
     rp_open_streams p = open_count (in_streams i) \<and>
     (rp_exit_code p = None \<longleftrightarrow> in_exit i = EWaiting) \<and>
     length (filter is_exited_event (in_log i)) = (if rp_exit_code p = None then 0 else 1) \<and>
     closed_shape (rp_closed p) (in_log i) \<and>
     (rp_open_streams p = 0 \<and> rp_exit_code p \<noteq> None \<and> \<not> rp_closed p \<longrightarrow>
        (\<exists>b. in_streams i b = SChecking) \<or> in_exit i = EChecking \<or> in_exit i = EAborted))"

lemma open_count_upd:
  "open_count (f(b := pc)) =
     open_count f - (if stream_open (f b) then 1 else 0) + (if stream_open pc then 1 else 0)"
  by (cases b) (auto simp: open_count_def)

lemma open_count_pos: "stream_open (f b) \<Longrightarrow> 0 < open_count f"
  by (cases b) (auto simp: open_count_def)

lemma stream_open_simps [simp]:
  "stream_open SReading" "stream_open SFinishing" "\<not> stream_open SChecking" "\<not> stream_open SDone"
  by (simp_all add: stream_open_def)

lemma log_chunks_append [simp]: "log_chunks (xs @ ys) = log_chunks xs @ log_chunks ys"
  by (simp add: log_chunks_def map_filter_def)

lemma log_events [simp]:
  "log_chunks [OutputDelta n] = [\<lparr>rc_seq = od_seq n, rc_stream = od_stream n, rc_chunk = od_chunk n\<rparr>]"
  "log_chunks [Exited x] = []" "log_chunks [Closed c] = []" "log_chunks (log_closed pid m) = []"
  "\<not> is_closed_event (OutputDelta n)" "\<not> is_closed_event (Exited x)" "is_closed_event (Closed c)"
  "\<not> is_exited_event (OutputDelta n)" "is_exited_event (Exited x)" "\<not> is_exited_event (Closed c)"
  by (auto simp: log_chunks_def map_filter_def log_closed_def is_closed_event_def
      is_exited_event_def split: option.splits)

lemma closed_shape_snoc:
  "\<lbrakk>closed_shape False evs; \<not> is_closed_event e\<rbrakk> \<Longrightarrow> closed_shape False (evs @ [e])"
  by (simp add: closed_shape_def)

lemma inc_inv_start: "inc_inv (inc_start session tty)"
  by (simp add: inc_inv_def inc_start_def fresh_process_def open_count_def closed_shape_def
      proc_inv_def log_chunks_def map_filter_def Let_def)

text \<open>The check section keeps the invariant, whichever task runs it.\<close>

lemma inc_inv_check:
  assumes inv: "inc_inv i" and c: "close_if_done (in_proc i) = (p, n)"
    and i': "i' = i\<lparr>in_proc := p, in_streams := f, in_exit := x, in_log := in_log i @ log_closed pid n\<rparr>"
    and f: "open_count f = open_count (in_streams i)"
    and x: "x = EWaiting \<longleftrightarrow> in_exit i = EWaiting"
  shows "inc_inv i'"
proof (cases "rp_closed (in_proc i) \<or> rp_open_streams (in_proc i) \<noteq> 0 \<or> rp_exit_code (in_proc i) = None")
  case True
  then have "p = in_proc i" "n = None" using c by (auto simp: close_if_done_def)
  with True inv f x show ?thesis
    by (auto simp: inc_inv_def i' log_closed_def Let_def)
next
  case False
  let ?p = "in_proc i"
  have p: "p = ?p\<lparr>rp_closed := True, rp_next_seq := rp_next_seq ?p + 1, rp_wake := rp_next_seq ?p\<rparr>"
    and n: "n = Some (rp_next_seq ?p)"
    using False c by (auto simp: close_if_done_def)
  have "proc_inv p" using close_if_done_inv [of ?p] inv c by (simp add: inc_inv_def Let_def)
  moreover have "0 < rp_next_seq ?p" using inv by (simp add: inc_inv_def Let_def proc_inv_def)
  ultimately show ?thesis
    using False inv f x
    by (auto simp: inc_inv_def i' n Let_def p log_closed_def closed_shape_def)
qed

lemma inc_inv_step:
  assumes "inc_step pid i i'" and inv: "inc_inv i"
  shows "inc_inv i'"
  using assms(1)
proof cases
  case (chunk b stream c p seq notify_ok)
  let ?p = "in_proc i"
  let ?c = "\<lparr>rc_seq = rp_next_seq ?p, rc_stream = stream, rc_chunk = c\<rparr>"
  have pi: "proc_inv ?p" using inv by (simp add: inc_inv_def Let_def)
  then have r: "rp_retained_bytes ?p = bytes_of (rp_output ?p)" by (simp add: proc_inv_def)
  have pos: "open_count (in_streams i) > 0" using open_count_pos [of "in_streams i" b] chunk by simp
  then have open_p: "rp_open_streams ?p > 0" and nc: "\<not> rp_closed ?p"
    using inv by (auto simp: inc_inv_def Let_def proc_inv_def)
  have p: "p = ?p\<lparr>rp_next_seq := rp_next_seq ?p + 1, rp_retained_bytes := bytes_of (keep (rp_output ?p @ [?c])),
                  rp_output := keep (rp_output ?p @ [?c]), rp_wake := rp_next_seq ?p\<rparr>"
    and seq: "seq = rp_next_seq ?p"
    using chunk(4) by (auto simp: push_chunk_keep [OF r] Let_def)
  have "proc_inv p" using push_chunk_inv [OF pi, of stream c] chunk by simp
  moreover have "open_count ((in_streams i)(b := if notify_ok then SReading else SFinishing)) = rp_open_streams p"
    using inv pos chunk by (simp add: inc_inv_def Let_def open_count_upd p)
  moreover have "0 < rp_next_seq ?p" using pi by (simp add: proc_inv_def)
  moreover have "keep (rp_output ?p @ [?c]) = keep (log_chunks (in_log i) @ [?c])"
    using inv by (simp add: inc_inv_def Let_def keep_append)
  ultimately show ?thesis
    using inv nc open_p unfolding inc_inv_def Let_def chunk(1) seq
    by (simp add: p closed_shape_snoc)
next
  case (eof b)
  have "open_count (in_streams i) > 0" using open_count_pos [of "in_streams i" b] eof by simp
  then show ?thesis using eof inv by (auto simp: inc_inv_def Let_def open_count_upd)
next
  case (finish b)
  have "open_count (in_streams i) > 0" using open_count_pos [of "in_streams i" b] finish by simp
  then show ?thesis
    using finish inv close_stream_inv [of "in_proc i"]
    by (auto simp: inc_inv_def Let_def open_count_upd close_stream_def)
next
  case (stream_check b p n)
  show ?thesis
    by (rule inc_inv_check [OF inv stream_check(3), where f = "(in_streams i)(b := SDone)" and
          x = "in_exit i" and pid = pid])
       (use stream_check in \<open>cases i; auto simp: open_count_upd\<close>)+
next
  case (exit code p seq notify_ok)
  let ?p = "in_proc i"
  have "proc_inv p" using record_exit_inv [of ?p code] exit inv by (simp add: inc_inv_def Let_def)
  moreover have "\<not> rp_closed ?p" using inv exit by (auto simp: inc_inv_def Let_def proc_inv_def)
  ultimately show ?thesis
    using exit inv
    by (auto simp: inc_inv_def Let_def record_exit_def closed_shape_snoc proc_inv_def)
next
  case (exit_check p n)
  show ?thesis
    by (rule inc_inv_check [OF inv exit_check(3), where f = "in_streams i" and x = EDone and
          pid = pid])
       (use exit_check in \<open>cases i; auto\<close>)+
qed

lemma inc_reach_inv: "inc_reach pid i \<Longrightarrow> inc_inv i"
  by (induction rule: inc_reach.induct) (auto intro: inc_inv_start inc_inv_step)

section \<open>Waiting reads\<close>

lemma exec_read_loop_result:
  "exec_read_loop params deadline obs = Some r \<Longrightarrow>
     \<exists>s now1 now2. (s, now1, now2) \<in> set obs \<and> r = read_once params s \<and>
       (case r of Inl _ \<Rightarrow> True
        | Inr resp \<Rightarrow> rr_chunks resp \<noteq> [] \<or> rr_exited resp \<or> deadline \<le> now1 \<or> deadline \<le> now2)"
proof (induction params deadline obs rule: exec_read_loop.induct)
  case (2 params deadline s now1 now2 rest)
  show ?case
  proof (cases "read_once params s")
    case (Inl e)
    then have "r = Err e" using 2 by simp
    then show ?thesis using Inl by (intro exI [of _ s] exI [of _ now1] exI [of _ now2]) simp
  next
    case (Inr resp)
    show ?thesis
    proof (cases "rr_chunks resp \<noteq> [] \<or> rr_exited resp \<or> deadline \<le> now1 \<or> deadline \<le> now2")
      case True
      then have "r = Ok resp" using 2(2) Inr by (auto split: if_splits)
      then show ?thesis
        using True Inr by (intro exI [of _ s] exI [of _ now1] exI [of _ now2]) simp
    next
      case False
      then have "exec_read_loop params deadline rest = Some r" using 2(2) Inr by simp
      with 2(1) [OF Inr] False show ?thesis by auto
    qed
  qed
qed simp

lemma exec_read_loop_returns:
  "(s, now1, now2) \<in> set obs \<Longrightarrow>
     deadline \<le> now1 \<or> deadline \<le> now2 \<or>
       (\<exists>e. read_once params s = Inl e) \<or>
       (\<exists>resp. read_once params s = Inr resp \<and> (rr_chunks resp \<noteq> [] \<or> rr_exited resp)) \<Longrightarrow>
     exec_read_loop params deadline obs \<noteq> None"
proof (induction obs)
  case (Cons o' obs)
  obtain s' n1 n2 where "o' = (s', n1, n2)" by (cases o') auto
  with Cons show ?case by (cases "read_once params s'") auto
qed simp

section \<open>Properties\<close>

text \<open>Whatever the order of API calls and of the tasks' critical sections, for whatever
  process ids, every running process keeps a well-formed output buffer: sequence numbers strictly
  increase and lie below \<^verbatim>\<open>next_seq\<close>, the byte counter is exact and within the
  1 MiB bound, and a process marked closed has exited and has no open stream.\<close>

theorem process_buffers_well_formed:
  assumes "hm_get (lp_processes (lp_run ops lp_new)) pid = Some (Running p)"
  shows "sorted_wrt (<) (map rc_seq (rp_output p)) \<and>
     (\<forall>c. c \<in> set (rp_output p) \<longrightarrow> 0 < rc_seq c \<and> rc_seq c < rp_next_seq p) \<and>
     rp_retained_bytes p = bytes_of (rp_output p) \<and>
     rp_retained_bytes p \<le> 1048576 \<and>
     (rp_closed p \<longrightarrow> rp_exit_code p \<noteq> None \<and> rp_open_streams p = 0)"
proof -
  have "proc_inv p" using lp_invD [OF lp_inv_run [OF lp_inv_new] assms] .
  then show ?thesis by (auto simp: proc_inv_def RETAINED_OUTPUT_BYTES_PER_PROCESS_def)
qed

definition sample_exec :: ExecParams where
  "sample_exec = \<lparr>xp_process_id = ''p1'', xp_argv = [''sh''], xp_cwd = ''/'', xp_env = [],
                  xp_tty = False, xp_arg0 = None\<rparr>"

definition sample_ops :: "lp_op list" where
  "sample_ops = [OpInitialize None None, OpInitialized, OpReserve sample_exec,
     OpStartFinish sample_exec (Ok 7), OpOutput ''p1'' Stdout [1, 2], OpOutput ''p1'' Stderr [3]]"

lemmas process_defs =
  lp_run_def sample_ops_def sample_exec_def lp_new_def initialize_def initialized_def
  start_reserve_def start_finish_def require_initialized_for_def hm_insert_def hm_get_def
  stream_output_section_def on_running_def push_chunk_def fresh_process_def
  RETAINED_OUTPUT_BYTES_PER_PROCESS_def Let_def

lemma sample_run:
  "hm_get (lp_processes (lp_run sample_ops lp_new)) ''p1'' =
     Some (Running \<lparr>rp_session = 7, rp_tty = False,
       rp_output = [\<lparr>rc_seq = 1, rc_stream = Stdout, rc_chunk = [1, 2]\<rparr>,
                    \<lparr>rc_seq = 2, rc_stream = Stderr, rc_chunk = [3]\<rparr>],
       rp_retained_bytes = 3, rp_next_seq = 3, rp_exit_code = None, rp_wake = 2,
       rp_open_streams = 2, rp_closed = False\<rparr>)"
  by (simp add: process_defs)

theorem process_buffers_well_formed_witness:
  "rp_retained_bytes (case hm_get (lp_processes (lp_run sample_ops lp_new)) ''p1'' of
     Some (Running p) \<Rightarrow> p | _ \<Rightarrow> fresh_process 0 False) \<le> 1048576"
  using process_buffers_well_formed [OF sample_run] by (simp add: sample_run)

text \<open>C4. Reading resumes without loss or duplication: the chunks returned by one read,
  followed by the retained chunks newer than \<^verbatim>\<open>next_seq - 1\<close> (what the next read
  asks for), are exactly the retained chunks newer than \<^verbatim>\<open>after_seq\<close>, in order; a
  read with something to return returns at least one chunk; and it exceeds
  \<^verbatim>\<open>max_bytes\<close> only when it returns a single chunk.\<close>

theorem read_resumes_without_loss:
  assumes "hm_get (lp_processes (lp_run ops lp_new)) pid = Some (Running p)"
  shows "(let r = read_snapshot after max_bytes p in
     rr_chunks r @ map to_output_chunk (filter (\<lambda>c. rc_seq c > rr_next_seq r - 1) (rp_output p)) =
       map to_output_chunk (filter (\<lambda>c. rc_seq c > after) (rp_output p)) \<and>
     (filter (\<lambda>c. rc_seq c > after) (rp_output p) \<noteq> [] \<longrightarrow> rr_chunks r \<noteq> []) \<and>
     (resp_bytes (rr_chunks r) \<le> max_bytes \<or> length (rr_chunks r) \<le> 1))"
  using read_snapshot_split [OF lp_invD [OF lp_inv_run [OF lp_inv_new] assms], of after max_bytes]
    read_snapshot_bound [of after max_bytes p]
  by (simp add: Let_def)

theorem read_resumes_without_loss_witness:
  "map oc_seq (rr_chunks (read_snapshot 0 2 \<lparr>rp_session = 7, rp_tty = False,
       rp_output = [\<lparr>rc_seq = 1, rc_stream = Stdout, rc_chunk = [1, 2]\<rparr>,
                    \<lparr>rc_seq = 2, rc_stream = Stderr, rc_chunk = [3]\<rparr>],
       rp_retained_bytes = 3, rp_next_seq = 3, rp_exit_code = None, rp_wake = 2,
       rp_open_streams = 2, rp_closed = False\<rparr>)) = [1]"
  using read_resumes_without_loss [OF sample_run, of 0 2]
  by (simp add: read_snapshot_def to_output_chunk_def Let_def)

text \<open>C22. Retention is optimal: over the life of a process, whatever its tasks do, the retained
  output is the longest suffix of everything the process has written that fits in 1 MiB.\<close>

theorem retained_output_is_longest_suffix:
  assumes "inc_reach pid i"
  shows "\<exists>dropped. log_chunks (in_log i) = dropped @ rp_output (in_proc i) \<and>
     bytes_of (rp_output (in_proc i)) \<le> 1048576 \<and>
     (\<forall>pre suf. log_chunks (in_log i) = pre @ suf \<and> bytes_of suf \<le> 1048576 \<longrightarrow>
        length suf \<le> length (rp_output (in_proc i)))"
proof -
  let ?h = "log_chunks (in_log i)"
  have out: "rp_output (in_proc i) = keep ?h"
    using inc_reach_inv [OF assms] by (simp add: inc_inv_def Let_def)
  have cap: "RETAINED_OUTPUT_BYTES_PER_PROCESS = 1048576"
    by (simp add: RETAINED_OUTPUT_BYTES_PER_PROCESS_def)
  obtain ds where "?h = ds @ keep ?h" using keep_suffix by blast
  then show ?thesis
    unfolding out using keep_bound [of ?h] keep_longest [of ?h] by (auto simp: cap)
qed

lemma inc_sample:
  "inc_reach ''p'' ((inc_start 1 False)
     \<lparr>in_proc := (fresh_process 1 False)\<lparr>rp_output := [\<lparr>rc_seq = 1, rc_stream = Stdout, rc_chunk = [5]\<rparr>],
         rp_retained_bytes := 1, rp_next_seq := 2, rp_wake := 1\<rparr>,
      in_log := [OutputDelta \<lparr>od_process_id = ''p'', od_seq = 1, od_stream = Stdout, od_chunk = [5]\<rparr>]\<rparr>)"
proof -
  have "push_chunk Stdout [5] (in_proc (inc_start 1 False)) =
    ((fresh_process 1 False)\<lparr>rp_output := [\<lparr>rc_seq = 1, rc_stream = Stdout, rc_chunk = [5]\<rparr>],
         rp_retained_bytes := 1, rp_next_seq := 2, rp_wake := 1\<rparr>, 1)"
    by (simp add: push_chunk_def inc_start_def fresh_process_def
        RETAINED_OUTPUT_BYTES_PER_PROCESS_def Let_def)
  from inc_step.chunk [OF _ _ this, where b = True and notify_ok = True and pid = "''p''"]
  have "inc_step ''p'' (inc_start 1 False) ((inc_start 1 False)
     \<lparr>in_proc := (fresh_process 1 False)\<lparr>rp_output := [\<lparr>rc_seq = 1, rc_stream = Stdout, rc_chunk = [5]\<rparr>],
         rp_retained_bytes := 1, rp_next_seq := 2, rp_wake := 1\<rparr>,
      in_log := [OutputDelta \<lparr>od_process_id = ''p'', od_seq = 1, od_stream = Stdout, od_chunk = [5]\<rparr>]\<rparr>)"
    by (simp add: inc_start_def task_stream_def fresh_process_def fun_upd_idem)
  then show ?thesis by (rule inc_reach.step [OF inc_reach.start])
qed

theorem retained_output_is_longest_suffix_witness:
  "\<exists>dropped. [\<lparr>rc_seq = 1, rc_stream = Stdout, rc_chunk = [5]\<rparr>] =
     dropped @ [\<lparr>rc_seq = 1, rc_stream = Stdout, rc_chunk = [5 :: byte]\<rparr>]"
  using retained_output_is_longest_suffix [OF inc_sample] by (auto simp: log_chunks_def map_filter_def)





text \<open>Starting a process: on success the id maps to a fresh process and it was not in use
  before; on failure of any kind the table is unchanged (as a map); other ids are never touched.\<close>

theorem start_process_effect:
  assumes "start_process params spawned s = (s', r)"
  shows "(\<forall>other. other \<noteq> xp_process_id params \<longrightarrow>
            hm_get (lp_processes s') other = hm_get (lp_processes s) other) \<and>
     (case r of
        Inr pid \<Rightarrow> pid = xp_process_id params \<and> hm_get (lp_processes s) pid = None \<and>
          xp_argv params \<noteq> [] \<and> lp_initialized s \<and>
          (\<exists>session. spawned = Inr session \<and>
             hm_get (lp_processes s') pid = Some (Running (fresh_process session (xp_tty params))))
      | Inl e \<Rightarrow> hm_get (lp_processes s') = hm_get (lp_processes s))"
  using assms
  by (auto simp: start_process_def start_reserve_def start_finish_def require_initialized_for_def
      fun_eq_iff split: sum.splits option.splits list.splits ProcessEntry.splits if_splits)

theorem start_process_effect_witness:
  "hm_get (lp_processes (fst (start_process sample_exec (Err ''no such file'')
     (lp_run [OpInitialize None None, OpInitialized] lp_new)))) = Map.empty"
  using start_process_effect [OF surjective_pairing, of sample_exec "Err ''no such file''"
      "lp_run [OpInitialize None None, OpInitialized] lp_new"]
  by (simp add: start_process_def process_defs fun_eq_iff)

section \<open>Process ids that are used again\<close>

text \<open>
  The tasks address their process by id and not by session.  A reader task outlives its process
  when a descendant keeps the pipe open; once the exited process has been removed and its id is
  started again, the end of the old stream is counted against the new process.
\<close>

lemma stale_stream_task_hits_successor:
  "map_option (\<lambda>e. case e of Running p \<Rightarrow> (rp_session p, rp_open_streams p) | Starting \<Rightarrow> (0, 0))
     (hm_get (lp_processes (lp_run
        [OpInitialize None None, OpInitialized,
         OpReserve sample_exec, OpStartFinish sample_exec (Ok 1),
         OpExit ''p1'' (Some 0), OpReap ''p1'' 0,
         OpReserve sample_exec, OpStartFinish sample_exec (Ok 2),
         OpFinishStream ''p1''] lp_new)) ''p1'') = Some (2, 1)"
  by (simp add: process_defs watch_exit_section_def record_exit_def reap_exited_def hm_remove_def
      finish_output_stream_section_def close_stream_def option_or_def)

end
