(* ===== verification/Agent_Fs.thy ===== *)
theory Agent_Fs
  imports Agent_Protocol
begin

text \<open>
  The agent's file system service: the wire structures of \<^verbatim>\<open>protocol/wire.rs\<close>, the
  trait \<^verbatim>\<open>ExecutorFileSystem\<close> of \<^verbatim>\<open>fs/mod.rs\<close> as a record of operations on
  an open type of worlds, and \<^verbatim>\<open>FileSystemHandler\<close> of
  \<^verbatim>\<open>server/services/file_system.rs\<close>, which fills in defaults and maps errors.  An
  \<^verbatim>\<open>AbsolutePathBuf\<close> is its string.
\<close>

section \<open>Data\<close>

datatype ErrorKind = InvalidInput | NotFound | OtherKind

record io_error =
  io_kind :: ErrorKind
  io_text :: string

record CreateDirectoryOptions =
  cd_recursive :: bool

record RemoveOptions =
  ro_recursive :: bool
  ro_force :: bool

record CopyOptions =
  co_recursive :: bool

record FileMetadata =
  md_is_directory :: bool
  md_is_file :: bool
  md_created_at_ms :: int
  md_modified_at_ms :: int

record ReadDirectoryEntry =
  de_file_name :: string
  de_is_directory :: bool
  de_is_file :: bool

record FsReadFileParams =
  frf_path :: string

record FsWriteFileParams =
  fwf_path :: string
  fwf_data :: "byte list"

record FsCreateDirectoryParams =
  fcd_path :: string
  fcd_recursive :: "bool option"

record FsGetMetadataParams =
  fgm_path :: string

record FsReadDirectoryParams =
  frd_path :: string

record FsRemoveParams =
  frm_path :: string
  frm_recursive :: "bool option"
  frm_force :: "bool option"

record FsCopyParams =
  fcp_source_path :: string
  fcp_destination_path :: string
  fcp_recursive :: bool

type_synonym ('w, 'a) fs_call = "'w \<Rightarrow> 'w \<times> (io_error, 'a) result"

record 'w ExecutorFileSystem =
  fs_read_file :: "string \<Rightarrow> ('w, byte list) fs_call"
  fs_write_file :: "string \<Rightarrow> byte list \<Rightarrow> ('w, unit) fs_call"
  fs_create_directory :: "string \<Rightarrow> CreateDirectoryOptions \<Rightarrow> ('w, unit) fs_call"
  fs_get_metadata :: "string \<Rightarrow> ('w, FileMetadata) fs_call"
  fs_read_directory :: "string \<Rightarrow> ('w, ReadDirectoryEntry list) fs_call"
  fs_remove :: "string \<Rightarrow> RemoveOptions \<Rightarrow> ('w, unit) fs_call"
  fs_copy :: "string \<Rightarrow> string \<Rightarrow> CopyOptions \<Rightarrow> ('w, unit) fs_call"

section \<open>The handler\<close>

definition map_fs_error :: "io_error \<Rightarrow> ChannelError" where
  "map_fs_error err =
     (if io_kind err = InvalidInput then invalid_request (io_text err) else internal_error (io_text err))"

definition lift_fs :: "'w \<times> (io_error, 'a) result \<Rightarrow> 'w \<times> (ChannelError, 'a) result" where
  "lift_fs r = (fst r, case snd r of Inl e \<Rightarrow> Err (map_fs_error e) | Inr a \<Rightarrow> Ok a)"

definition read_file where
  "read_file fs (params :: FsReadFileParams) w = lift_fs (fs_read_file fs (frf_path params) w)"

definition write_file where
  "write_file fs params w = lift_fs (fs_write_file fs (fwf_path params) (fwf_data params) w)"

definition create_directory where
  "create_directory fs params w =
     lift_fs (fs_create_directory fs (fcd_path params)
       \<lparr>cd_recursive = (case fcd_recursive params of None \<Rightarrow> True | Some b \<Rightarrow> b)\<rparr> w)"

definition get_metadata where
  "get_metadata fs (params :: FsGetMetadataParams) w = lift_fs (fs_get_metadata fs (fgm_path params) w)"

definition read_directory where
  "read_directory fs (params :: FsReadDirectoryParams) w = lift_fs (fs_read_directory fs (frd_path params) w)"

definition remove where
  "remove fs params w =
     lift_fs (fs_remove fs (frm_path params)
       \<lparr>ro_recursive = (case frm_recursive params of None \<Rightarrow> True | Some b \<Rightarrow> b),
        ro_force = (case frm_force params of None \<Rightarrow> True | Some b \<Rightarrow> b)\<rparr> w)"

definition copy where
  "copy fs params w =
     lift_fs (fs_copy fs (fcp_source_path params) (fcp_destination_path params)
       \<lparr>co_recursive = fcp_recursive params\<rparr> w)"

lemma lift_fs_error:
  "lift_fs r = (w, Err e) \<Longrightarrow> ce_kind e = KInvalidRequest \<or> ce_kind e = KInternal"
  by (auto simp: lift_fs_def map_fs_error_def invalid_request_def internal_error_def split: sum.splits if_split_asm if_split)

end
