(* ===== verification/Agent_Proxy.thy ===== *)
theory Agent_Proxy
  imports Paths
begin

text \<open>
  The agent's reverse proxies, \<^verbatim>\<open>nexal-agent/src/proxy.rs\<close>: a table of Unix sockets,
  one listener task each, and the rewriting of the first request of a connection.

  A listener is a number; \<open>pm_listeners\<close> holds the listener tasks that were spawned with
  what they serve and whether they were cancelled, \<open>pm_sockets\<close> the listener that a
  socket file leads to.  The results of the file system calls are arguments.  A
  \<^verbatim>\<open>PathBuf\<close> used as a key is its components.
\<close>

section \<open>Upstream URLs\<close>

record UpstreamInfo =
  ui_host :: string
  ui_port :: nat
  ui_tls :: bool
  ui_path_prefix :: string

definition parse_upstream :: "string \<Rightarrow> (string, UpstreamInfo) result" where
  "parse_upstream url =
     (case split_once ''://'' url of
        None \<Rightarrow> Err ''missing scheme''
      | Some (scheme, rest) \<Rightarrow>
          let tls = (scheme = ''https'');
              port = (if tls then 443 else 80);
              (host_port, path_prefix) =
                (case find_subsequence rest ''/'' of
                   Some i \<Rightarrow> (take i rest, drop i rest)
                 | None \<Rightarrow> (rest, []))
          in case split_once '':'' host_port of
               Some (h, p) \<Rightarrow>
                 (case parse_uint 65535 p of
                    None \<Rightarrow> Err ''invalid port''
                  | Some n \<Rightarrow> Ok \<lparr>ui_host = h, ui_port = n, ui_tls = tls, ui_path_prefix = path_prefix\<rparr>)
             | None \<Rightarrow> Ok \<lparr>ui_host = host_port, ui_port = port, ui_tls = tls, ui_path_prefix = path_prefix\<rparr>)"

section \<open>The table of proxies\<close>

record Listener =
  li_path :: "component list"
  li_upstream :: UpstreamInfo
  li_headers :: "(string, string) hashmap"
  li_cancelled :: bool

record ProxyManager =
  pm_instances :: "(component list, nat) hashmap"
  pm_listeners :: "(nat, Listener) hashmap"
  pm_sockets :: "(component list, nat) hashmap"
  pm_next :: nat

definition pm_new :: ProxyManager where
  "pm_new = \<lparr>pm_instances = [], pm_listeners = [], pm_sockets = [], pm_next = 0\<rparr>"

definition pm_cancel :: "nat \<Rightarrow> ProxyManager \<Rightarrow> ProxyManager" where
  "pm_cancel i m =
     (case hm_get (pm_listeners m) i of
        None \<Rightarrow> m
      | Some l \<Rightarrow> m\<lparr>pm_listeners := hm_insert i (l\<lparr>li_cancelled := True\<rparr>) (pm_listeners m)\<rparr>)"

definition has_parent :: "component list \<Rightarrow> bool" where
  "has_parent path \<longleftrightarrow> path \<noteq> [] \<and> path \<noteq> [RootDir]"

definition pm_unlink :: "bool \<Rightarrow> component list \<Rightarrow> ProxyManager \<Rightarrow> ProxyManager" where
  "pm_unlink removed path m =
     (if removed then m\<lparr>pm_sockets := hm_remove path (pm_sockets m)\<rparr> else m)"

text \<open>The end of \<^verbatim>\<open>register\<close>: the listener task \<open>i\<close> is spawned, the
  instance it replaces is cancelled, and it is entered in the table.\<close>

definition pm_install ::
  "component list \<Rightarrow> nat \<Rightarrow> UpstreamInfo \<Rightarrow> (string, string) hashmap \<Rightarrow> ProxyManager \<Rightarrow> ProxyManager" where
  "pm_install path i info headers m =
     (let m = m\<lparr>pm_listeners := hm_insert i
            \<lparr>li_path = path, li_upstream = info, li_headers = headers, li_cancelled = False\<rparr> (pm_listeners m)\<rparr>;
          m = (case hm_get (pm_instances m) path of
                 None \<Rightarrow> m
               | Some old \<Rightarrow> pm_cancel old (m\<lparr>pm_instances := hm_remove path (pm_instances m)\<rparr>))
      in m\<lparr>pm_instances := hm_insert path i (pm_instances m)\<rparr>)"

definition pm_register ::
  "(string, unit) result \<Rightarrow> bool \<Rightarrow> (string, unit) result \<Rightarrow> string \<Rightarrow> string \<Rightarrow>
     (string, string) hashmap \<Rightarrow> ProxyManager \<Rightarrow> ProxyManager \<times> (string, unit) result" where
  "pm_register mkdir removed bound socket_path upstream_url headers m =
     (let path = components socket_path
      in case (if has_parent path then mkdir else Ok ()) of
           Inl e \<Rightarrow> (m, Err (''create proxy dir: '' @ e))
         | Inr _ \<Rightarrow>
             let m = pm_unlink removed path m
             in case bound of
                  Inl e \<Rightarrow> (m, Err (''bind '' @ socket_path @ '': '' @ e))
                | Inr _ \<Rightarrow>
                    let i = pm_next m;
                        m = m\<lparr>pm_sockets := hm_insert path i (pm_sockets m), pm_next := i + 1\<rparr>
                    in case parse_upstream upstream_url of
                         Inl e \<Rightarrow> (m, Err (''invalid upstream URL: '' @ e))
                       | Inr info \<Rightarrow>
                           (pm_install path i info headers m, Ok ()))"

definition pm_unregister :: "bool \<Rightarrow> string \<Rightarrow> ProxyManager \<Rightarrow> ProxyManager \<times> bool" where
  "pm_unregister removed socket_path m =
     (let path = components socket_path
      in case hm_get (pm_instances m) path of
           Some i \<Rightarrow>
             (pm_unlink removed path (pm_cancel i (m\<lparr>pm_instances := hm_remove path (pm_instances m)\<rparr>)), True)
         | None \<Rightarrow> (m, False))"

fun pm_stop :: "(component list \<Rightarrow> bool) \<Rightarrow> (component list \<times> nat) list \<Rightarrow> ProxyManager \<Rightarrow> ProxyManager" where
  "pm_stop removed [] m = m"
| "pm_stop removed ((path, i) # rest) m =
     pm_stop removed rest (pm_unlink (removed path) path (pm_cancel i m))"

definition pm_shutdown :: "(component list \<Rightarrow> bool) \<Rightarrow> ProxyManager \<Rightarrow> ProxyManager" where
  "pm_shutdown removed m = pm_stop removed (pm_instances m) (m\<lparr>pm_instances := []\<rparr>)"

text \<open>A listener's loop: it takes connections until the token is cancelled or accepting fails.\<close>

datatype 'c accept_event = Accepted 'c | AcceptError string | CancelSeen

fun run_proxy_listener :: "'c accept_event list \<Rightarrow> 'c list" where
  "run_proxy_listener [] = []"
| "run_proxy_listener (Accepted c # es) = c # run_proxy_listener es"
| "run_proxy_listener (AcceptError e # es) = []"
| "run_proxy_listener (CancelSeen # es) = []"

section \<open>A proxied connection\<close>

definition CRLF :: string where "CRLF = [CHR 0x0D, CHR 0x0A]"

datatype head_result =
    ClientClosed
  | ReadFailed string
  | HeadTooLarge
  | HeadAt string nat "(string, string) result list"

fun read_request_head :: "string \<Rightarrow> (string, string) result list \<Rightarrow> head_result" where
  "read_request_head buf [] = ClientClosed"
| "read_request_head buf (r # reads) =
     (case r of
        Inl e \<Rightarrow> ReadFailed e
      | Inr chunk \<Rightarrow>
          if chunk = [] then ClientClosed
          else
            let buf = buf @ chunk
            in case find_subsequence buf (CRLF @ CRLF) of
                 Some pos \<Rightarrow> HeadAt buf pos reads
               | None \<Rightarrow> if length buf > 1024 * 1024 then HeadTooLarge else read_request_head buf reads)"

definition is_host_line :: "string \<Rightarrow> bool" where
  "is_host_line line =
     (case split_once '':'' line of
        None \<Rightarrow> False
      | Some (key, _) \<Rightarrow> eq_ignore_ascii_case (trim key) ''host'')"

definition header_line :: "string \<times> string \<Rightarrow> string" where
  "header_line kv = fst kv @ '': '' @ snd kv"

definition join_lines :: "string list \<Rightarrow> string" where
  "join_lines ls = concat (map (\<lambda>l. l @ CRLF) ls)"

definition new_path :: "UpstreamInfo \<Rightarrow> string \<Rightarrow> string" where
  "new_path upstream path =
     (if ui_path_prefix upstream = [] then path
      else trim_end_matches (CHR ''/'') (ui_path_prefix upstream) @ path)"

definition rewrite_head ::
  "UpstreamInfo \<Rightarrow> (string, string) hashmap \<Rightarrow> string \<Rightarrow> (string, string) result" where
  "rewrite_head upstream inject head =
     (let first_line_end = (case find_subsequence head CRLF of Some i \<Rightarrow> i | None \<Rightarrow> length head);
          request_line = take first_line_end head;
          rest_headers = drop first_line_end head
      in case splitn 3 (CHR '' '') request_line of
           [] \<Rightarrow> Err ''no method''
         | [_] \<Rightarrow> Err ''no path''
         | method # path # others \<Rightarrow>
             let version = (case others of [] \<Rightarrow> ''HTTP/1.1'' | v # _ \<Rightarrow> v)
             in Ok (method @ '' '' @ new_path upstream path @ '' '' @ version @ CRLF @
                    ''Host: '' @ ui_host upstream @ CRLF @
                    join_lines (filter (\<lambda>l. l \<noteq> [] \<and> \<not> is_host_line l) (split_str CRLF rest_headers)) @
                    join_lines (map header_line inject) @ CRLF))"

datatype connection_outcome =
    Dropped
  | ConnectionError string
  | Bridged string bool string "(string, string) result list"

text \<open>\<open>connect\<close> is the TCP connection, with the TLS handshake where asked for.  The last two
  arguments of \<open>Bridged\<close> are what is written before the byte copy starts and the reads of
  the client that the copy forwards.\<close>

definition handle_connection ::
  "(string \<Rightarrow> bool \<Rightarrow> (string, unit) result) \<Rightarrow> UpstreamInfo \<Rightarrow> (string, string) hashmap \<Rightarrow>
     (string, string) result list \<Rightarrow> connection_outcome" where
  "handle_connection connect upstream inject reads =
     (case read_request_head [] reads of
        ClientClosed \<Rightarrow> Dropped
      | ReadFailed e \<Rightarrow> ConnectionError e
      | HeadTooLarge \<Rightarrow> ConnectionError ''request head too large''
      | HeadAt buf headers_end rest \<Rightarrow>
          let head = take headers_end buf
          in if \<not> utf8_valid (map of_char head) then ConnectionError ''invalid utf-8''
             else (case rewrite_head upstream inject head of
                     Inl e \<Rightarrow> ConnectionError e
                   | Inr rewritten \<Rightarrow>
                       let addr = ui_host upstream @ '':'' @ dec (ui_port upstream)
                       in case connect addr (ui_tls upstream) of
                            Inl e \<Rightarrow> ConnectionError e
                          | Inr _ \<Rightarrow>
                              Bridged addr (ui_tls upstream) (rewritten @ drop (headers_end + 4) buf) rest))"

section \<open>Rewriting is independent of how the request arrives\<close>

definition plain_line :: "string \<Rightarrow> bool" where
  "plain_line l \<longleftrightarrow> l \<noteq> [] \<and> CHR 0x0D \<notin> set l"

definition led_lines :: "string list \<Rightarrow> string" where
  "led_lines ls = concat (map (\<lambda>l. CRLF @ l) ls)"

lemma join_lines_simps [simp]: "join_lines [] = []" "join_lines (l # ls) = l @ CRLF @ join_lines ls"
  by (simp_all add: join_lines_def)

lemma led_lines_simps [simp]: "led_lines [] = []" "led_lines (l # ls) = CRLF @ l @ led_lines ls"
  by (simp_all add: led_lines_def)

lemma join_led: "join_lines (l # ls) = l @ led_lines ls @ CRLF"
  by (induction ls arbitrary: l) auto

lemma split_str_lines:
  "CHR 0x0D \<notin> set l \<Longrightarrow> \<forall>x \<in> set ls. plain_line x \<Longrightarrow> split_str CRLF (l @ led_lines ls) = l # ls"
proof (induction ls arbitrary: l)
  case Nil
  then show ?case by (subst split_str.simps) (simp add: CRLF_def split_once_None)
next
  case (Cons x ls)
  have "split_once CRLF (l @ led_lines (x # ls)) = Some (l, x @ led_lines ls)"
    using split_once_at [OF Cons.prems(1), of "[CHR 0x0A]" "x @ led_lines ls"] by (simp add: CRLF_def)
  moreover have "split_str CRLF (x @ led_lines ls) = x # ls"
    using Cons by (simp add: plain_line_def)
  ultimately show ?case by (subst split_str.simps) (simp add: CRLF_def)
qed

lemma find_head_end:
  "CHR 0x0D \<notin> set l \<Longrightarrow> \<forall>x \<in> set ls. plain_line x \<Longrightarrow>
   find_subsequence (l @ led_lines ls @ CRLF @ CRLF @ body) (CRLF @ CRLF) = Some (length (l @ led_lines ls))"
proof (induction ls arbitrary: l)
  case Nil
  then show ?case
    using find_subsequence_skip [of "CHR 0x0D" l _ "[CHR 0x0A, CHR 0x0D, CHR 0x0A]"] by (simp add: CRLF_def)
next
  case (Cons x ls)
  obtain c cs where x: "x = c # cs" "c \<noteq> CHR 0x0D" "CHR 0x0D \<notin> set x"
    using Cons.prems(2) by (cases x) (auto simp: plain_line_def)
  have ih: "find_subsequence (x @ led_lines ls @ CRLF @ CRLF @ body) (CRLF @ CRLF) = Some (length (x @ led_lines ls))"
    using Cons.IH [OF x(3)] Cons.prems(2) by simp
  have "find_subsequence (CRLF @ x @ led_lines ls @ CRLF @ CRLF @ body) (CRLF @ CRLF) =
      Some (2 + length (x @ led_lines ls))"
    using ih x by (simp add: CRLF_def)
  then show ?case
    using find_subsequence_skip [OF Cons.prems(1), of "CRLF @ x @ led_lines ls @ CRLF @ CRLF @ body"
        "[CHR 0x0A, CHR 0x0D, CHR 0x0A]"]
    by (simp add: CRLF_def)
qed

lemma read_request_head_found:
  assumes "find_subsequence (buf @ concat chunks) (CRLF @ CRLF) = Some pos" "pos + 4 \<le> 1024 * 1024"
    and "find_subsequence buf (CRLF @ CRLF) = None" "[] \<notin> set chunks"
  shows "\<exists>buf' rest. read_request_head buf (map Inr chunks) = HeadAt buf' pos (map Inr rest) \<and>
           buf @ concat chunks = buf' @ concat rest \<and> pos + 4 \<le> length buf'"
  using assms
proof (induction chunks arbitrary: buf)
  case (Cons c chunks)
  show ?case
  proof (cases "find_subsequence (buf @ c) (CRLF @ CRLF)")
    case None
    have "length (buf @ c) < pos + 4"
    proof (rule ccontr)
      assume "\<not> length (buf @ c) < pos + 4"
      then have "find_subsequence (buf @ c) (CRLF @ CRLF) = Some pos"
        using find_subsequence_shrink [of "buf @ c" "concat chunks" "CRLF @ CRLF" pos] Cons.prems(1)
        by (simp add: CRLF_def)
      then show False using None by simp
    qed
    moreover have "c \<noteq> []" using Cons.prems(4) by auto
    ultimately show ?thesis using Cons.IH [of "buf @ c"] Cons.prems None by (simp add: Let_def)
  next
    case (Some p)
    then have "p = pos" using find_subsequence_extend [OF Some, of "concat chunks"] Cons.prems(1) by simp
    moreover have "p + 4 \<le> length (buf @ c)" using find_subsequence_Some [OF Some, THEN conjunct2] by (simp add: CRLF_def)
    ultimately show ?thesis using Some Cons.prems(4) by (auto simp: Let_def)
  qed
qed simp

lemma rewrite_head_lines:
  assumes "plain_line rl" "\<forall>x \<in> set hs. plain_line x" "rl = meth @ CHR '' '' # path @ CHR '' '' # version"
    and "CHR '' '' \<notin> set meth" "CHR '' '' \<notin> set path"
  shows "rewrite_head up inject (rl @ led_lines hs) =
     Ok (join_lines ((meth @ '' '' @ new_path up path @ '' '' @ version) # (''Host: '' @ ui_host up) #
           filter (\<lambda>l. \<not> is_host_line l) hs @ map header_line inject) @ CRLF)"
proof -
  have cr: "CHR 0x0D \<notin> set rl" using assms(1) by (simp add: plain_line_def)
  have "(case find_subsequence (rl @ led_lines hs) CRLF of Some i \<Rightarrow> i | None \<Rightarrow> length (rl @ led_lines hs)) = length rl"
    using find_subsequence_skip [OF cr, of "led_lines hs" "[CHR 0x0A]"] by (cases hs) (auto simp: CRLF_def)
  moreover have "splitn 3 (CHR '' '') rl = [meth, path, version]"
    using split_once_at [OF assms(4), of "[]"] split_once_at [OF assms(5), of "[]"]
    by (simp add: assms(3) numeral_3_eq_3)
  moreover have "split_str CRLF (led_lines hs) = [] # hs"
    using split_str_lines [of "[]" hs] assms(2) by simp
  moreover have "filter (\<lambda>l. l \<noteq> [] \<and> \<not> is_host_line l) hs = filter (\<lambda>l. \<not> is_host_line l) hs"
    using assms(2) by (auto simp: plain_line_def intro: filter_cong)
  ultimately show ?thesis
    by (simp add: rewrite_head_def Let_def join_lines_def)
qed

text \<open>C28. However the bytes of a request arrive, the agent's proxy sends upstream exactly: the
  request line with the registered path prefix, one \<^verbatim>\<open>Host\<close> line naming the
  upstream, the client's other header lines in order, the registered headers, the end of the
  head, and then the body unchanged.\<close>

theorem agent_proxy_rewrites_request:
  assumes "concat chunks = join_lines (rl # hs) @ CRLF @ body" "[] \<notin> set chunks"
    and "plain_line rl" "\<forall>x \<in> set hs. plain_line x"
    and "rl = meth @ CHR '' '' # path @ CHR '' '' # version" "CHR '' '' \<notin> set meth" "CHR '' '' \<notin> set path"
    and "utf8_valid (map of_char (rl @ led_lines hs))" "length (join_lines (rl # hs)) + 2 \<le> 1024 * 1024"
    and "connect (ui_host up @ '':'' @ dec (ui_port up)) (ui_tls up) = Ok ()"
  shows "\<exists>sent rest.
     handle_connection connect up inject (map Inr chunks) =
       Bridged (ui_host up @ '':'' @ dec (ui_port up)) (ui_tls up) sent (map Inr rest) \<and>
     sent @ concat rest =
       join_lines ((meth @ '' '' @ new_path up path @ '' '' @ version) # (''Host: '' @ ui_host up) #
         filter (\<lambda>l. \<not> is_host_line l) hs @ map header_line inject) @ CRLF @ body"
proof -
  let ?pos = "length (rl @ led_lines hs)"
  have cr: "CHR 0x0D \<notin> set rl" using assms(3) by (simp add: plain_line_def)
  have stream: "concat chunks = (rl @ led_lines hs) @ (CRLF @ CRLF) @ body"
    using assms(1) by (simp add: join_led del: join_lines_simps)
  have found: "find_subsequence (concat chunks) (CRLF @ CRLF) = Some ?pos"
    using find_head_end [OF cr assms(4), of body] stream by simp
  have "?pos + 4 \<le> 1024 * 1024"
    using assms(9) by (simp add: join_led CRLF_def del: join_lines_simps)
  then obtain buf rest where b: "read_request_head [] (map Inr chunks) = HeadAt buf ?pos (map Inr rest)"
    "concat chunks = buf @ concat rest" "?pos + 4 \<le> length buf"
    using read_request_head_found [of "[]" chunks ?pos] found assms(2) by (auto simp: CRLF_def)
  have head: "take ?pos buf = rl @ led_lines hs"
    using b(2,3) stream by (metis add_leE append_eq_append_conv_if append_take_drop_id append_same_eq length_take min.absorb2 take_append take_all_iff order_refl append_eq_conv_conj)
  have tail: "drop (?pos + 4) buf @ concat rest = body"
  proof -
    have "drop (?pos + 4) (concat chunks) = body" unfolding stream by (simp add: CRLF_def)
    then show ?thesis using b(2,3) by simp
  qed
  show ?thesis
    using b(1) head tail assms(8,10) rewrite_head_lines [OF assms(3,4,5,6,7), of up inject]
    by (auto simp: handle_connection_def Let_def)
qed

definition sample_upstream :: UpstreamInfo where
  "sample_upstream = \<lparr>ui_host = ''api'', ui_port = 80, ui_tls = False, ui_path_prefix = ''/v1/''\<rparr>"

theorem agent_proxy_rewrites_request_witness:
  "\<exists>sent rest.
     handle_connection (\<lambda>_ _. Ok ()) sample_upstream [(''Auth'', ''k'')]
       (map Inr [''GET /x HT'', ''TP/1.1'' @ [CHR 0x0D], [CHR 0x0A] @ ''HOST: me'' @ CRLF @ ''A: b'' @ CRLF @ [CHR 0x0D],
          [CHR 0x0A] @ ''bo'', ''dy'']) =
       Bridged ''api:80'' False sent (map Inr rest) \<and>
     sent @ concat rest =
       join_lines [''GET /v1/x HTTP/1.1'', ''Host: api'', ''A: b'', ''Auth: k''] @ CRLF @ ''body''"
proof -
  let ?rl = "''GET /x HTTP/1.1''"
  let ?hs = "[''HOST: me'', ''A: b'']"
  let ?chunks = "[''GET /x HT'', ''TP/1.1'' @ [CHR 0x0D], [CHR 0x0A] @ ''HOST: me'' @ CRLF @ ''A: b'' @ CRLF @ [CHR 0x0D],
          [CHR 0x0A] @ ''bo'', ''dy'']"
  have c: "concat ?chunks = join_lines (?rl # ?hs) @ CRLF @ ''body''" by (simp add: CRLF_def)
  have ne: "[] \<notin> set ?chunks" by simp
  have pl: "plain_line ?rl" "\<forall>x \<in> set ?hs. plain_line x" by (simp_all add: plain_line_def)
  have parts: "?rl = ''GET'' @ CHR '' '' # ''/x'' @ CHR '' '' # ''HTTP/1.1''" by simp
  have utf: "utf8_valid (map of_char (?rl @ led_lines ?hs))" by code_simp
  have len: "length (join_lines (?rl # ?hs)) + 2 \<le> 1024 * 1024" by (simp add: CRLF_def)
  have addr: "ui_host sample_upstream @ '':'' @ dec (ui_port sample_upstream) = ''api:80''"
    "ui_tls sample_upstream = False" "ui_host sample_upstream = ''api''"
    "new_path sample_upstream ''/x'' = ''/v1/x''"
    by code_simp+
  have host: "is_host_line ''HOST: me''" "\<not> is_host_line ''A: b''" by code_simp+
  have lines: "(''GET'' @ '' '' @ new_path sample_upstream ''/x'' @ '' '' @ ''HTTP/1.1'') #
      (''Host: '' @ ui_host sample_upstream) # filter (\<lambda>l. \<not> is_host_line l) ?hs @ map header_line [(''Auth'', ''k'')] =
      [''GET /v1/x HTTP/1.1'', ''Host: api'', ''A: b'', ''Auth: k'']"
    using host by (simp add: header_line_def addr)
  have sp: "CHR '' '' \<notin> set ''GET''" "CHR '' '' \<notin> set ''/x''" by simp_all
  show ?thesis
    using agent_proxy_rewrites_request [OF c ne pl parts sp utf len,
        where connect = "\<lambda>_ _. Ok ()" and up = sample_upstream and inject = "[(''Auth'', ''k'')]"]
    unfolding lines addr(1,2) by (simp only: simp_thms True_implies_equals)
qed

section \<open>Upstream URLs\<close>

lemma parse_upstream_roundtrip:
  assumes "CHR '':'' \<notin> set scheme" "CHR '':'' \<notin> set host" "CHR ''/'' \<notin> set host" "port \<le> 65535"
    and "prefix = [] \<or> hd prefix = CHR ''/''"
  shows "parse_upstream (scheme @ ''://'' @ host @ '':'' @ dec port @ prefix) =
     Ok \<lparr>ui_host = host, ui_port = port, ui_tls = (scheme = ''https''), ui_path_prefix = prefix\<rparr>"
proof -
  define hp where "hp = host @ '':'' @ dec port"
  have slash: "CHR ''/'' \<notin> set hp"
    using assms(3) dec_digits [of port] by (auto simp: hp_def list_all_iff is_ascii_digit_def)
  have url: "scheme @ ''://'' @ host @ '':'' @ dec port @ prefix = scheme @ CHR '':'' # ''//'' @ hp @ prefix"
    by (simp add: hp_def)
  have scheme: "split_once ''://'' (scheme @ CHR '':'' # ''//'' @ hp @ prefix) = Some (scheme, hp @ prefix)"
    using split_once_at [OF assms(1), of "''//''" "hp @ prefix"] by simp
  have path: "find_subsequence (hp @ prefix) ''/'' = (if prefix = [] then None else Some (length hp))"
    using assms(5) find_subsequence_skip [OF slash, of prefix "[]"] by (cases prefix) auto
  have hostport: "split_once '':'' hp = Some (host, dec port)"
    using split_once_at [OF assms(2), of "[]" "dec port"] by (simp add: hp_def)
  show ?thesis
    unfolding url parse_upstream_def scheme using path hostport parse_uint_dec [OF assms(4)]
    by (simp add: Let_def)
qed

section \<open>Every listener has an owner\<close>

definition pm_inv :: "ProxyManager \<Rightarrow> bool" where
  "pm_inv m \<longleftrightarrow>
     hm_wf (pm_instances m) \<and>
     (\<forall>path i. hm_get (pm_instances m) path = Some i \<longrightarrow>
        (\<exists>l. hm_get (pm_listeners m) i = Some l \<and> li_path l = path \<and> \<not> li_cancelled l)) \<and>
     (\<forall>i l. hm_get (pm_listeners m) i = Some l \<longrightarrow>
        i < pm_next m \<and> (\<not> li_cancelled l \<longrightarrow> hm_get (pm_instances m) (li_path l) = Some i))"

definition pm_serving :: "ProxyManager \<Rightarrow> component list \<Rightarrow> Listener option" where
  "pm_serving m path =
     (case hm_get (pm_sockets m) path of
        None \<Rightarrow> None
      | Some i \<Rightarrow>
          (case hm_get (pm_listeners m) i of
             None \<Rightarrow> None
           | Some l \<Rightarrow> if li_cancelled l then None else Some l))"

lemma pm_cancel_fields [simp]:
  "pm_instances (pm_cancel i m) = pm_instances m" "pm_sockets (pm_cancel i m) = pm_sockets m"
  "pm_next (pm_cancel i m) = pm_next m"
  by (simp_all add: pm_cancel_def split: option.split)

lemma pm_unlink_fields [simp]:
  "pm_instances (pm_unlink r p m) = pm_instances m" "pm_listeners (pm_unlink r p m) = pm_listeners m"
  "pm_next (pm_unlink r p m) = pm_next m"
  by (simp_all add: pm_unlink_def)

lemma pm_cancel_listeners:
  "hm_get (pm_listeners (pm_cancel i m)) j =
     (if j = i then map_option (\<lambda>l. l\<lparr>li_cancelled := True\<rparr>) (hm_get (pm_listeners m) i)
      else hm_get (pm_listeners m) j)"
  by (simp add: pm_cancel_def split: option.split)

text \<open>The state of a path after one cancel-and-remove.\<close>

lemma pm_inv_drop:
  assumes "pm_inv m" "hm_get (pm_instances m) path = Some i"
  shows "pm_inv (pm_cancel i (m\<lparr>pm_instances := hm_remove path (pm_instances m)\<rparr>))"
  using assms unfolding pm_inv_def
  by (auto simp: pm_cancel_listeners split: if_splits) (metis option.inject)+

lemma pm_inv_cong:
  "\<lbrakk>pm_instances m' = pm_instances m; pm_listeners m' = pm_listeners m; pm_next m \<le> pm_next m'; pm_inv m\<rbrakk> \<Longrightarrow> pm_inv m'"
  unfolding pm_inv_def by (metis order_less_le_trans)

lemma pm_install_fields [simp]:
  "pm_sockets (pm_install path i info headers m) = pm_sockets m"
  "pm_next (pm_install path i info headers m) = pm_next m"
  "hm_get (pm_instances (pm_install path i info headers m)) p =
     (if p = path then Some i else hm_get (pm_instances m) p)"
  by (simp_all add: pm_install_def Let_def split: option.split)

lemma pm_install_listeners:
  assumes "hm_get (pm_instances m) path \<noteq> Some i"
  shows "hm_get (pm_listeners (pm_install path i info headers m)) j =
     (if j = i then Some \<lparr>li_path = path, li_upstream = info, li_headers = headers, li_cancelled = False\<rparr>
      else if hm_get (pm_instances m) path = Some j
      then map_option (\<lambda>l. l\<lparr>li_cancelled := True\<rparr>) (hm_get (pm_listeners m) j)
      else hm_get (pm_listeners m) j)"
  using assms by (auto simp: pm_install_def Let_def pm_cancel_listeners split: option.split)

lemma pm_install_wf: "hm_wf (pm_instances m) \<Longrightarrow> hm_wf (pm_instances (pm_install path i info headers m))"
  by (simp add: pm_install_def Let_def split: option.split)

lemma pm_inv_install:
  assumes "pm_inv m" "pm_next m' = Suc (pm_next m)" "pm_listeners m' = pm_listeners m"
    "pm_instances m' = pm_instances m"
  shows "pm_inv (pm_install path (pm_next m) info headers m')"
proof -
  have fresh: "hm_get (pm_instances m') p \<noteq> Some (pm_next m)" for p
    using assms unfolding pm_inv_def by (metis less_irrefl)
  note L = pm_install_listeners [of m' path "pm_next m" info headers, OF fresh]
  have inst: "\<exists>l. hm_get (pm_listeners (pm_install path (pm_next m) info headers m')) i = Some l \<and>
       li_path l = p \<and> \<not> li_cancelled l"
    if "hm_get (pm_instances (pm_install path (pm_next m) info headers m')) p = Some i" for p i
  proof (cases "p = path")
    case False
    then have "hm_get (pm_instances m) p = Some i" using that assms(4) by simp
    then obtain l where "hm_get (pm_listeners m) i = Some l" "li_path l = p" "\<not> li_cancelled l"
      and "i \<noteq> pm_next m" "hm_get (pm_instances m) path \<noteq> Some i"
      using assms(1) False unfolding pm_inv_def by (metis less_irrefl option.inject)
    then show ?thesis using assms by (simp add: L)
  next
    case True
    then have "i = pm_next m" using that by simp
    then show ?thesis using True L [of "pm_next m"] by simp
  qed
  have lis: "i < Suc (pm_next m) \<and> (\<not> li_cancelled l \<longrightarrow>
       hm_get (pm_instances (pm_install path (pm_next m) info headers m')) (li_path l) = Some i)"
    if "hm_get (pm_listeners (pm_install path (pm_next m) info headers m')) i = Some l" for i l
    using that assms unfolding L pm_inv_def by (auto split: if_splits simp: less_SucI)
  show ?thesis
    using inst lis pm_install_wf [of m'] assms unfolding pm_inv_def by simp
qed

lemma pm_inv_unlink: "pm_inv (pm_unlink r p m) = pm_inv m"
  by (simp add: pm_inv_def)

lemma pm_inv_register: "pm_inv m \<Longrightarrow> pm_inv (fst (pm_register mkdir removed bound sp url headers m))"
proof -
  assume inv: "pm_inv m"
  show ?thesis
    using inv pm_inv_cong [OF _ _ _ inv] pm_inv_install [OF inv]
    by (simp add: pm_register_def Let_def pm_inv_unlink split: sum.split)
qed

lemma pm_inv_unregister: "pm_inv m \<Longrightarrow> pm_inv (fst (pm_unregister removed sp m))"
  by (simp add: pm_unregister_def Let_def pm_inv_unlink pm_inv_drop split: option.split)

lemma pm_stop_instances: "pm_instances (pm_stop removed entries m) = pm_instances m"
  "pm_next (pm_stop removed entries m) = pm_next m"
  by (induction removed entries m rule: pm_stop.induct) simp_all

lemma pm_stop_listeners:
  "hm_get (pm_listeners (pm_stop removed entries m)) j =
     (if j \<in> snd ` set entries then map_option (\<lambda>l. l\<lparr>li_cancelled := True\<rparr>) (hm_get (pm_listeners m) j)
      else hm_get (pm_listeners m) j)"
  by (induction removed entries m rule: pm_stop.induct)
    (auto simp: pm_cancel_listeners option.map_comp comp_def)

lemma pm_shutdown_cancels:
  assumes "pm_inv m" "hm_get (pm_listeners (pm_shutdown removed m)) i = Some l"
  shows "li_cancelled l" "i < pm_next m"
proof -
  obtain l0 where l0: "hm_get (pm_listeners m) i = Some l0"
    using assms(2) by (auto simp: pm_shutdown_def pm_stop_listeners split: if_splits)
  then show "i < pm_next m" using assms(1) unfolding pm_inv_def by blast
  show "li_cancelled l"
  proof (cases "i \<in> snd ` set (pm_instances m)")
    case True
    then show ?thesis using assms(2) by (auto simp: pm_shutdown_def pm_stop_listeners)
  next
    case False
    then have "l = l0" using assms(2) l0 by (simp add: pm_shutdown_def pm_stop_listeners)
    moreover have "hm_get (pm_instances m) p \<noteq> Some i" for p
      using False hm_get_entry [of "pm_instances m" p i] by force
    ultimately show ?thesis using assms(1) l0 unfolding pm_inv_def by metis
  qed
qed

lemma pm_inv_shutdown: "pm_inv m \<Longrightarrow> pm_inv (pm_shutdown removed m)"
  using pm_shutdown_cancels [of m removed]
  unfolding pm_inv_def [of "pm_shutdown removed m"] by (auto simp: pm_shutdown_def pm_stop_instances)

inductive pm_reach :: "ProxyManager \<Rightarrow> bool" where
  new: "pm_reach pm_new"
| register: "pm_reach m \<Longrightarrow> pm_reach (fst (pm_register mkdir removed bound sp url headers m))"
| unregister: "pm_reach m \<Longrightarrow> pm_reach (fst (pm_unregister removed sp m))"
| shutdown: "pm_reach m \<Longrightarrow> pm_reach (pm_shutdown removals m)"

lemma pm_reach_inv: "pm_reach m \<Longrightarrow> pm_inv m"
proof (induction rule: pm_reach.induct)
  case new
  show ?case by (simp add: pm_inv_def pm_new_def)
qed (simp_all add: pm_inv_register pm_inv_unregister pm_inv_shutdown)

text \<open>Agent-side proxies never leak listeners: in every reachable state the listeners that
  are not cancelled are exactly those of the registered sockets, one each; a successful
  registration makes its socket lead to a listener with the requested upstream and headers,
  cancels the one it replaces and touches no other socket; shutting down cancels every
  listener.\<close>

theorem agent_proxy_listeners_owned:
  assumes "pm_reach m"
  shows "(\<forall>i l. hm_get (pm_listeners m) i = Some l \<longrightarrow>
            (\<not> li_cancelled l \<longleftrightarrow> hm_get (pm_instances m) (li_path l) = Some i)) \<and>
     (pm_register mkdir removed bound sp url headers m = (m', Ok ()) \<longrightarrow>
        (\<exists>info. parse_upstream url = Ok info \<and>
           pm_serving m' (components sp) =
             Some \<lparr>li_path = components sp, li_upstream = info, li_headers = headers, li_cancelled = False\<rparr>) \<and>
        (\<forall>old l. hm_get (pm_instances m) (components sp) = Some old \<longrightarrow>
           hm_get (pm_listeners m') old = Some l \<longrightarrow> li_cancelled l) \<and>
        (\<forall>p. p \<noteq> components sp \<longrightarrow> hm_get (pm_instances m') p = hm_get (pm_instances m) p)) \<and>
     (\<forall>i l. hm_get (pm_listeners (pm_shutdown removals m)) i = Some l \<longrightarrow> li_cancelled l)"
proof (intro conjI)
  have inv: "pm_inv m" by (rule pm_reach_inv [OF assms])
  show "\<forall>i l. hm_get (pm_listeners m) i = Some l \<longrightarrow>
          (\<not> li_cancelled l \<longleftrightarrow> hm_get (pm_instances m) (li_path l) = Some i)"
    using inv unfolding pm_inv_def by (metis option.inject)
  show "\<forall>i l. hm_get (pm_listeners (pm_shutdown removals m)) i = Some l \<longrightarrow> li_cancelled l"
    using pm_shutdown_cancels [OF inv] by blast
  have fresh: "hm_get (pm_instances m) p \<noteq> Some (pm_next m)" for p
    using inv unfolding pm_inv_def by (metis less_irrefl)
  have split: "\<exists>info m0. parse_upstream url = Ok info \<and> m' = pm_install (components sp) (pm_next m) info headers m0 \<and>
      pm_instances m0 = pm_instances m \<and> pm_listeners m0 = pm_listeners m \<and>
      hm_get (pm_sockets m0) (components sp) = Some (pm_next m)"
    if "pm_register mkdir removed bound sp url headers m = (m', Ok ())"
    using that by (auto simp: pm_register_def Let_def split: sum.splits if_splits)
  show "pm_register mkdir removed bound sp url headers m = (m', Ok ()) \<longrightarrow>
        (\<exists>info. parse_upstream url = Ok info \<and>
           pm_serving m' (components sp) =
             Some \<lparr>li_path = components sp, li_upstream = info, li_headers = headers, li_cancelled = False\<rparr>) \<and>
        (\<forall>old l. hm_get (pm_instances m) (components sp) = Some old \<longrightarrow>
           hm_get (pm_listeners m') old = Some l \<longrightarrow> li_cancelled l) \<and>
        (\<forall>p. p \<noteq> components sp \<longrightarrow> hm_get (pm_instances m') p = hm_get (pm_instances m) p)"
  proof
    assume "pm_register mkdir removed bound sp url headers m = (m', Ok ())"
    from split [OF this] obtain info m0 where s: "parse_upstream url = Ok info"
      "m' = pm_install (components sp) (pm_next m) info headers m0" "pm_instances m0 = pm_instances m"
      "hm_get (pm_sockets m0) (components sp) = Some (pm_next m)" by blast
    have "hm_get (pm_instances m0) (components sp) \<noteq> Some (pm_next m)" using fresh s(3) by simp
    note L = pm_install_listeners [OF this, of info headers]
    have "li_cancelled l"
      if "hm_get (pm_instances m) (components sp) = Some old" "hm_get (pm_listeners m') old = Some l" for old l
      using that fresh [of "components sp"] s(3) unfolding s(2) L by (auto split: if_splits)
    then show "(\<exists>info. parse_upstream url = Ok info \<and>
           pm_serving m' (components sp) =
             Some \<lparr>li_path = components sp, li_upstream = info, li_headers = headers, li_cancelled = False\<rparr>) \<and>
        (\<forall>old l. hm_get (pm_instances m) (components sp) = Some old \<longrightarrow>
           hm_get (pm_listeners m') old = Some l \<longrightarrow> li_cancelled l) \<and>
        (\<forall>p. p \<noteq> components sp \<longrightarrow> hm_get (pm_instances m') p = hm_get (pm_instances m) p)"
      using s L by (simp add: pm_serving_def)
  qed
qed

text \<open>A registration that is refused for its URL has already replaced the socket file: the
  proxy registered before under that path stays in the table but can no longer be reached.\<close>

lemma failed_registration_breaks_socket:
  assumes "pm_inv m" "parse_upstream url = Err e" "mkdir = Ok ()" "bound = Ok ()"
  shows "snd (pm_register mkdir removed bound sp url headers m) = Err (''invalid upstream URL: '' @ e) \<and>
     pm_instances (fst (pm_register mkdir removed bound sp url headers m)) = pm_instances m \<and>
     pm_serving (fst (pm_register mkdir removed bound sp url headers m)) (components sp) = None"
proof -
  have "hm_get (pm_listeners m) (pm_next m) = None"
    using assms(1) unfolding pm_inv_def by (metis less_irrefl not_None_eq)
  then show ?thesis
    using assms(2-4) by (simp add: pm_register_def Let_def pm_serving_def)
qed

definition sample_pm :: ProxyManager where
  "sample_pm = fst (pm_register (Ok ()) False (Ok ()) ''/run/a.sock'' ''http://h'' [] pm_new)"

lemma sample_urls:
  "parse_upstream ''https://h2'' = Ok \<lparr>ui_host = ''h2'', ui_port = 443, ui_tls = True, ui_path_prefix = []\<rparr>"
  "parse_upstream ''http://h'' = Ok \<lparr>ui_host = ''h'', ui_port = 80, ui_tls = False, ui_path_prefix = []\<rparr>"
  by (simp_all add: parse_upstream_def split_once_def)

lemma sample_register_again:
  "\<exists>m'. pm_register (Ok ()) True (Ok ()) ''/run//a.sock'' ''https://h2'' [(''K'', ''v'')] sample_pm = (m', Ok ())"
  by (simp add: pm_register_def sample_urls Let_def)

theorem agent_proxy_listeners_owned_witness:
  "\<exists>info m'. pm_register (Ok ()) True (Ok ()) ''/run//a.sock'' ''https://h2'' [(''K'', ''v'')] sample_pm = (m', Ok ()) \<and>
     pm_serving m' (components ''/run//a.sock'') =
       Some \<lparr>li_path = components ''/run//a.sock'', li_upstream = info, li_headers = [(''K'', ''v'')], li_cancelled = False\<rparr>"
proof -
  have r: "pm_reach sample_pm" unfolding sample_pm_def by (intro pm_reach.intros)
  obtain m' where m': "pm_register (Ok ()) True (Ok ()) ''/run//a.sock'' ''https://h2'' [(''K'', ''v'')] sample_pm = (m', Ok ())"
    using sample_register_again by blast
  show ?thesis
    using agent_proxy_listeners_owned [OF r, THEN conjunct2, THEN conjunct1, THEN mp, OF m'] m' by blast
qed

end
