(* ===== verification/Agent_Dispatch.thy ===== *)
theory Agent_Dispatch
  imports Local_Process Agent_Fs Agent_Proxy Message_Channel Call_Table
begin

text \<open>
  The agent's side of the connection: \<^verbatim>\<open>nexal-agent/src/server/channel/dispatch.rs\<close>
  (requests to the gateway, the dispatch of incoming requests, the message loop) and
  \<^verbatim>\<open>server/services/exec_server.rs\<close> (the handler that owns the process service, the
  file system and the proxies).  serde conversions, the operating system and the clock enter
  through \<open>AgentEnv\<close>; \<open>ar_out\<close> records the frames handed to the writer.
\<close>

section \<open>Requests to the gateway\<close>

record MsgpackChannel =
  mc_pending :: "(nat, unit) hashmap"
  mc_next_id :: nat
  mc_results :: "(nat \<times> (string, value) result) list"

definition channel_new :: MsgpackChannel where
  "channel_new = \<lparr>mc_pending = [], mc_next_id = 1, mc_results = []\<rparr>"

definition mp_error :: "ChannelError \<Rightarrow> value" where
  "mp_error err =
     mp_map ([(''kind'', VString (kind_to_string (ce_kind err))), (''message'', VString (ce_message err))]
       @ (case ce_data err of None \<Rightarrow> [] | Some d \<Rightarrow> [(''data'', d)]))"

definition request_frame :: "nat \<Rightarrow> string \<Rightarrow> value \<Rightarrow> value" where
  "request_frame i method params =
     mp_map [(''id'', VInteger (int i)), (''method'', VString method), (''params'', params)]"

text \<open>Both kinds of request up to the point where they wait for the answer: the frame that is
  sent, or the error when the writer is gone.  The asynchronous one leaves its pending entry
  behind in that case, the blocking one removes it.\<close>

definition request ::
  "bool \<Rightarrow> string \<Rightarrow> value \<Rightarrow> MsgpackChannel \<Rightarrow> MsgpackChannel \<times> (string, nat \<times> value) result" where
  "request send_ok method params ch =
     (let i = mc_next_id ch;
          ch = ch\<lparr>mc_next_id := i + 1, mc_pending := hm_insert i () (mc_pending ch)\<rparr>
      in if send_ok then (ch, Ok (i, request_frame i method params)) else (ch, Err ''connection closed''))"

definition request_blocking ::
  "bool \<Rightarrow> string \<Rightarrow> value \<Rightarrow> MsgpackChannel \<Rightarrow> MsgpackChannel \<times> (string, nat \<times> value) result" where
  "request_blocking send_ok method params ch =
     (let i = mc_next_id ch;
          ch = ch\<lparr>mc_next_id := i + 1, mc_pending := hm_insert i () (mc_pending ch)\<rparr>
      in if send_ok then (ch, Ok (i, request_frame i method params))
         else (ch\<lparr>mc_pending := hm_remove i (mc_pending ch),
                  mc_results := mc_results ch @ [(i, Err ''connection closed'')]\<rparr>, Err ''connection closed''))"

definition pending_response :: "MsgpackChannel \<Rightarrow> value \<Rightarrow> nat option" where
  "pending_response ch v =
     (case map_get v ''method'' of
        Some _ \<Rightarrow> None
      | None \<Rightarrow>
          (case Option.bind (map_get v ''id'') as_u64 of
             None \<Rightarrow> None
           | Some i \<Rightarrow> if hm_get (mc_pending ch) i = None then None else Some i))"

definition gateway_answer :: "value \<Rightarrow> (string, value) result" where
  "gateway_answer v =
     (case map_get v ''error'' of
        Some err \<Rightarrow>
          Err (case Option.bind (map_get err ''message'') as_str of None \<Rightarrow> ''gateway error'' | Some m \<Rightarrow> m)
      | None \<Rightarrow> Ok (case map_get v ''result'' of None \<Rightarrow> VNil | Some r \<Rightarrow> r))"

definition try_resolve_pending :: "value \<Rightarrow> MsgpackChannel \<Rightarrow> MsgpackChannel \<times> bool" where
  "try_resolve_pending v ch =
     (case pending_response ch v of
        None \<Rightarrow> (ch, False)
      | Some i \<Rightarrow>
          (ch\<lparr>mc_pending := hm_remove i (mc_pending ch),
              mc_results := mc_results ch @ [(i, gateway_answer v)]\<rparr>, True))"

section \<open>The handler\<close>

record ProxyRegisterParams =
  pr_socket_path :: string
  pr_upstream_url :: string
  pr_headers :: "(string, string) hashmap"

record ProxyUnregisterParams =
  pu_socket_path :: string

record 'w ExecServerHandler =
  eh_process :: LocalProcess
  eh_proxy :: ProxyManager
  eh_channel :: bool
  eh_mounts :: nat
  eh_world :: 'w

definition handler_new :: "'w \<Rightarrow> 'w ExecServerHandler" where
  "handler_new w = \<lparr>eh_process = lp_new, eh_proxy = pm_new, eh_channel = False, eh_mounts = 0, eh_world = w\<rparr>"

datatype agent_result =
    RInitialize InitializeResponse
  | RExec ProcessId
  | RRead ReadResponse
  | RWrite WriteStatus
  | RTerminate bool
  | RFsData "byte list"
  | RFsDone
  | RFsMetadata FileMetadata
  | RFsEntries "ReadDirectoryEntry list"
  | RProxyOk bool

text \<open>\<open>en_waits\<close> drives a waiting read: the task steps that run before each look at the
  process table, and the two clock readings that follow.\<close>

record 'w AgentEnv =
  en_dec_initialize :: "value \<Rightarrow> (string, string) result"
  en_dec_exec :: "value \<Rightarrow> (string, ExecParams) result"
  en_dec_read :: "value \<Rightarrow> (string, ReadParams) result"
  en_dec_write :: "value \<Rightarrow> (string, WriteParams) result"
  en_dec_terminate :: "value \<Rightarrow> (string, ProcessId) result"
  en_dec_read_file :: "value \<Rightarrow> (string, FsReadFileParams) result"
  en_dec_write_file :: "value \<Rightarrow> (string, FsWriteFileParams) result"
  en_dec_create_directory :: "value \<Rightarrow> (string, FsCreateDirectoryParams) result"
  en_dec_get_metadata :: "value \<Rightarrow> (string, FsGetMetadataParams) result"
  en_dec_read_directory :: "value \<Rightarrow> (string, FsReadDirectoryParams) result"
  en_dec_remove :: "value \<Rightarrow> (string, FsRemoveParams) result"
  en_dec_copy :: "value \<Rightarrow> (string, FsCopyParams) result"
  en_dec_proxy_register :: "value \<Rightarrow> (string, ProxyRegisterParams) result"
  en_dec_proxy_unregister :: "value \<Rightarrow> (string, ProxyUnregisterParams) result"
  en_encode :: "agent_result \<Rightarrow> value option"
  en_fs :: "'w ExecutorFileSystem"
  en_shell :: "string option"
  en_cwd :: "string option"
  en_spawn :: "ExecParams \<Rightarrow> (string, nat) result"
  en_now :: nat
  en_waits :: "(lp_op list \<times> nat \<times> nat) list"
  en_write_ok :: bool
  en_mkdir :: "(string, unit) result"
  en_removed :: bool
  en_bound :: "(string, unit) result"

fun is_task_op :: "lp_op \<Rightarrow> bool" where
  "is_task_op (OpOutput _ _ _) = True"
| "is_task_op (OpExit _ _) = True"
| "is_task_op (OpFinishStream _) = True"
| "is_task_op (OpMaybeClosed _) = True"
| "is_task_op (OpReap _ _) = True"
| "is_task_op _ = False"

fun observe :: "(lp_op list \<times> nat \<times> nat) list \<Rightarrow> LocalProcess \<Rightarrow> (LocalProcess \<times> nat \<times> nat) list" where
  "observe [] s = []"
| "observe ((ops, t1, t2) # rest) s =
     (let s = lp_run (filter is_task_op ops) s in (s, t1, t2) # observe rest s)"

definition handler_shutdown :: "(component list \<Rightarrow> bool) \<Rightarrow> 'w ExecServerHandler \<Rightarrow> 'w ExecServerHandler" where
  "handler_shutdown removals h =
     h\<lparr>eh_proxy := pm_shutdown removals (eh_proxy h), eh_process := shutdown (eh_process h)\<rparr>"

type_synonym ('w, 'a) handled = "'w ExecServerHandler \<times> (ChannelError, 'a) result"

definition on_process ::
  "(LocalProcess \<Rightarrow> LocalProcess \<times> (ChannelError, 'a) result) \<Rightarrow> 'w ExecServerHandler \<Rightarrow> ('w, 'a) handled" where
  "on_process f h = (case f (eh_process h) of (p, r) \<Rightarrow> (h\<lparr>eh_process := p\<rparr>, r))"

definition handle_initialized :: "'w ExecServerHandler \<Rightarrow> 'w ExecServerHandler \<times> (string, unit) result" where
  "handle_initialized h =
     (case initialized (eh_process h) of
        (p, Inl e) \<Rightarrow> (h\<lparr>eh_process := p\<rparr>, Err e)
      | (p, Inr _) \<Rightarrow>
          (h\<lparr>eh_process := p, eh_mounts := (if eh_channel h then eh_mounts h + 1 else eh_mounts h)\<rparr>, Ok ()))"

definition handle_read ::
  "'w AgentEnv \<Rightarrow> ReadParams \<Rightarrow> 'w ExecServerHandler \<Rightarrow> ('w, ReadResponse) handled option" where
  "handle_read env p h =
     (let observations = observe (en_waits env) (eh_process h);
          final = (case require_initialized_for ''exec'' (eh_process h) of
                     Inl _ \<Rightarrow> eh_process h
                   | Inr _ \<Rightarrow> if observations = [] then eh_process h else fst (last observations))
      in case exec_read p (en_now env) (eh_process h) observations of
           None \<Rightarrow> None
         | Some r \<Rightarrow> Some (h\<lparr>eh_process := final\<rparr>, r))"

definition handle_fs ::
  "('w \<Rightarrow> 'w \<times> (ChannelError, 'a) result) \<Rightarrow> 'w ExecServerHandler \<Rightarrow> ('w, 'a) handled" where
  "handle_fs f h =
     (case require_initialized_for ''filesystem'' (eh_process h) of
        Inl e \<Rightarrow> (h, Err e)
      | Inr _ \<Rightarrow> (case f (eh_world h) of (w, r) \<Rightarrow> (h\<lparr>eh_world := w\<rparr>, r)))"

definition handle_proxy_register ::
  "'w AgentEnv \<Rightarrow> ProxyRegisterParams \<Rightarrow> 'w ExecServerHandler \<Rightarrow> ('w, bool) handled" where
  "handle_proxy_register env p h =
     (case require_initialized_for ''proxy'' (eh_process h) of
        Inl e \<Rightarrow> (h, Err e)
      | Inr _ \<Rightarrow>
          (case pm_register (en_mkdir env) (en_removed env) (en_bound env)
                  (pr_socket_path p) (pr_upstream_url p) (pr_headers p) (eh_proxy h) of
             (m, r) \<Rightarrow>
               (h\<lparr>eh_proxy := m\<rparr>, case r of Inl e \<Rightarrow> Err (internal_error e) | Inr _ \<Rightarrow> Ok True)))"

definition handle_proxy_unregister ::
  "'w AgentEnv \<Rightarrow> ProxyUnregisterParams \<Rightarrow> 'w ExecServerHandler \<Rightarrow> ('w, bool) handled" where
  "handle_proxy_unregister env p h =
     (case require_initialized_for ''proxy'' (eh_process h) of
        Inl e \<Rightarrow> (h, Err e)
      | Inr _ \<Rightarrow>
          (case pm_unregister (en_removed env) (pu_socket_path p) (eh_proxy h) of
             (m, ok) \<Rightarrow> (h\<lparr>eh_proxy := m\<rparr>, Ok ok)))"

section \<open>Dispatch\<close>

definition agent_parse_params :: "(value \<Rightarrow> (string, 'p) result) \<Rightarrow> value \<Rightarrow> (ChannelError, 'p) result" where
  "agent_parse_params decode v =
     (case decode v of Inl err \<Rightarrow> Err (invalid_params (''invalid params: '' @ err)) | Inr p \<Rightarrow> Ok p)"

definition unwrap_positional :: "value \<Rightarrow> value" where
  "unwrap_positional params =
     (case params of
        VArray [x] \<Rightarrow> x
      | VArray [] \<Rightarrow> VNil
      | other \<Rightarrow> other)"

definition encode_result :: "'w AgentEnv \<Rightarrow> ('a \<Rightarrow> agent_result) \<Rightarrow> ('w, 'a) handled \<Rightarrow> ('w, value) handled" where
  "encode_result env f hr =
     (case hr of
        (h, Inl e) \<Rightarrow> (h, Err e)
      | (h, Inr r) \<Rightarrow> (h, Ok (case en_encode env (f r) of None \<Rightarrow> VNil | Some v \<Rightarrow> v)))"

text \<open>Decode, call, encode: the shape of almost every arm of the match.\<close>

definition arm ::
  "'w AgentEnv \<Rightarrow> (value \<Rightarrow> (string, 'p) result) \<Rightarrow> ('a \<Rightarrow> agent_result) \<Rightarrow>
     ('p \<Rightarrow> 'w ExecServerHandler \<Rightarrow> ('w, 'a) handled) \<Rightarrow> value \<Rightarrow> 'w ExecServerHandler \<Rightarrow>
     ('w, value) handled option" where
  "arm env decode f run params h =
     (case agent_parse_params decode params of
        Inl e \<Rightarrow> Some (h, Err e)
      | Inr p \<Rightarrow> Some (encode_result env f (run p h)))"

definition agent_dispatch ::
  "'w AgentEnv \<Rightarrow> string \<Rightarrow> value \<Rightarrow> 'w ExecServerHandler \<Rightarrow> ('w, value) handled option" where
  "agent_dispatch env method params h =
     (case agent_parse method of
        None \<Rightarrow>
          Some (h, Err \<lparr>ce_kind = KMethodNotFound, ce_data = None, ce_message = ''method not found: '' @ method\<rparr>)
      | Some m \<Rightarrow>
          (case m of
             Initialize \<Rightarrow>
               arm env (en_dec_initialize env) RInitialize
                 (\<lambda>_. on_process (initialize (en_shell env) (en_cwd env))) params h
           | Initialized \<Rightarrow>
               (case handle_initialized h of
                  (h, Inl e) \<Rightarrow> Some (h, Err (internal_error e))
                | (h, Inr _) \<Rightarrow> Some (h, Ok VNil))
           | ProcessStart \<Rightarrow>
               arm env (en_dec_exec env) RExec (\<lambda>p. on_process (start_process p (en_spawn env p))) params h
           | ProcessRead \<Rightarrow>
               (case agent_parse_params (en_dec_read env) params of
                  Inl e \<Rightarrow> Some (h, Err e)
                | Inr p \<Rightarrow> map_option (encode_result env RRead) (handle_read env p h))
           | ProcessWrite \<Rightarrow>
               arm env (en_dec_write env) RWrite (\<lambda>p. on_process (exec_write p (en_write_ok env))) params h
           | ProcessTerminate \<Rightarrow>
               arm env (en_dec_terminate env) RTerminate (\<lambda>p. on_process (terminate_process p)) params h
           | FsReadFile \<Rightarrow>
               arm env (en_dec_read_file env) RFsData (\<lambda>p. handle_fs (read_file (en_fs env) p)) params h
           | FsWriteFile \<Rightarrow>
               arm env (en_dec_write_file env) (\<lambda>_. RFsDone) (\<lambda>p. handle_fs (write_file (en_fs env) p)) params h
           | FsCreateDirectory \<Rightarrow>
               arm env (en_dec_create_directory env) (\<lambda>_. RFsDone)
                 (\<lambda>p. handle_fs (create_directory (en_fs env) p)) params h
           | FsGetMetadata \<Rightarrow>
               arm env (en_dec_get_metadata env) RFsMetadata (\<lambda>p. handle_fs (get_metadata (en_fs env) p)) params h
           | FsReadDirectory \<Rightarrow>
               arm env (en_dec_read_directory env) RFsEntries (\<lambda>p. handle_fs (read_directory (en_fs env) p)) params h
           | FsRemove \<Rightarrow>
               arm env (en_dec_remove env) (\<lambda>_. RFsDone) (\<lambda>p. handle_fs (remove (en_fs env) p)) params h
           | FsCopy \<Rightarrow>
               arm env (en_dec_copy env) (\<lambda>_. RFsDone) (\<lambda>p. handle_fs (copy (en_fs env) p)) params h
           | ProxyRegister \<Rightarrow>
               arm env (en_dec_proxy_register env) RProxyOk (handle_proxy_register env) params h
           | ProxyUnregister \<Rightarrow>
               arm env (en_dec_proxy_unregister env) RProxyOk (handle_proxy_unregister env) params h))"

section \<open>The message loop\<close>

record 'w AgentRun =
  ar_handler :: "'w ExecServerHandler"
  ar_chan :: MsgpackChannel
  ar_out :: "value list"

definition run_new :: "'w ExecServerHandler \<Rightarrow> 'w AgentRun" where
  "run_new h = \<lparr>ar_handler = h\<lparr>eh_channel := True\<rparr>, ar_chan = channel_new, ar_out = []\<rparr>"

definition reply_frame :: "value \<Rightarrow> (ChannelError, value) result \<Rightarrow> value" where
  "reply_frame req_id r =
     (case r of
        Inr val \<Rightarrow> mp_map [(''id'', req_id), (''result'', val)]
      | Inl err \<Rightarrow> mp_map [(''id'', req_id), (''error'', mp_error err)])"

definition parse_error_frame :: "string \<Rightarrow> value" where
  "parse_error_frame reason =
     mp_map [(''id'', VNil),
       (''error'', mp_error \<lparr>ce_kind = KParse, ce_data = Some (VString reason), ce_message = ''parse error''\<rparr>)]"

definition send_frame :: "bool \<Rightarrow> value \<Rightarrow> 'w AgentRun \<Rightarrow> 'w AgentRun \<times> bool" where
  "send_frame send_ok v a = (if send_ok then (a\<lparr>ar_out := ar_out a @ [v]\<rparr>, True) else (a, False))"

text \<open>One event of the loop.  The flag tells whether the loop goes on; \<^const>\<open>None\<close> means that the
  dispatched call is still waiting.\<close>

definition handle_event ::
  "'w AgentEnv \<Rightarrow> bool \<Rightarrow> value MessageChannelEvent \<Rightarrow> 'w AgentRun \<Rightarrow> ('w AgentRun \<times> bool) option" where
  "handle_event env send_ok event a =
     (case event of
        Message v \<Rightarrow>
          (case try_resolve_pending v (ar_chan a) of
             (ch, True) \<Rightarrow> Some (a\<lparr>ar_chan := ch\<rparr>, True)
           | (ch, False) \<Rightarrow>
               let method = (case map_str v ''method'' of None \<Rightarrow> [] | Some m \<Rightarrow> m);
                   params = unwrap_positional (case map_get v ''params'' of None \<Rightarrow> VNil | Some p \<Rightarrow> p)
               in case agent_dispatch env method params (ar_handler a) of
                    None \<Rightarrow> None
                  | Some (h, result) \<Rightarrow>
                      let a = a\<lparr>ar_handler := h\<rparr>
                      in (case map_get v ''id'' of
                            None \<Rightarrow> Some (a, True)
                          | Some req_id \<Rightarrow> Some (send_frame send_ok (reply_frame req_id result) a)))
      | MalformedMessage reason \<Rightarrow> Some (send_frame send_ok (parse_error_frame reason) a)
      | Disconnected reason \<Rightarrow> Some (a, False))"

datatype 'w run_result = StillWaiting "'w AgentRun" | Finished "'w AgentRun"

fun run_dispatch ::
  "(component list \<Rightarrow> bool) \<Rightarrow> ('w AgentEnv \<times> bool \<times> value MessageChannelEvent) list \<Rightarrow> 'w AgentRun \<Rightarrow>
     'w run_result" where
  "run_dispatch removals [] a = Finished (a\<lparr>ar_handler := handler_shutdown removals (ar_handler a)\<rparr>)"
| "run_dispatch removals ((env, send_ok, event) # events) a =
     (case handle_event env send_ok event a of
        None \<Rightarrow> StillWaiting a
      | Some (a, False) \<Rightarrow> Finished (a\<lparr>ar_handler := handler_shutdown removals (ar_handler a)\<rparr>)
      | Some (a, True) \<Rightarrow> run_dispatch removals events a)"

text \<open>The task that forwards process events.\<close>

definition event_frame :: "(ProcessEvent \<Rightarrow> value option) \<Rightarrow> ProcessEvent \<Rightarrow> value" where
  "event_frame encode ev =
     mp_map [(''method'', VString (case ev of OutputDelta _ \<Rightarrow> PROCESS_OUTPUT | Exited _ \<Rightarrow> PROCESS_EXITED | Closed _ \<Rightarrow> PROCESS_CLOSED)),
       (''params'', case encode ev of None \<Rightarrow> VNil | Some v \<Rightarrow> v)]"

datatype broadcast_recv = Received ProcessEvent | Lagged nat | BroadcastClosed

fun events_task :: "(ProcessEvent \<Rightarrow> value option) \<Rightarrow> (broadcast_recv \<times> bool) list \<Rightarrow> value list" where
  "events_task encode [] = []"
| "events_task encode ((Received ev, send_ok) # rest) =
     (if send_ok then event_frame encode ev # events_task encode rest else [])"
| "events_task encode ((Lagged n, send_ok) # rest) = events_task encode rest"
| "events_task encode ((BroadcastClosed, send_ok) # rest) = []"

section \<open>Requests to the gateway are answered once\<close>

definition chan_pending :: "MsgpackChannel \<Rightarrow> nat list" where
  "chan_pending ch = hm_keys (mc_pending ch)"

definition chan_resolved :: "MsgpackChannel \<Rightarrow> nat list" where
  "chan_resolved ch = map fst (mc_results ch)"

inductive chan_step :: "MsgpackChannel \<Rightarrow> MsgpackChannel \<Rightarrow> bool" where
  request: "chan_step ch (fst (request ok method params ch))"
| request_blocking: "chan_step ch (fst (request_blocking ok method params ch))"
| resolve: "chan_step ch (fst (try_resolve_pending v ch))"

lemmas chan_defs = chan_pending_def chan_resolved_def

lemma pending_response_pending:
  "pending_response ch v = Some i \<Longrightarrow>
     i \<in> set (chan_pending ch) \<and> map_get v ''method'' = None \<and> Option.bind (map_get v ''id'') as_u64 = Some i"
  by (auto simp: pending_response_def chan_pending_def hm_get_None_iff split: option.splits if_splits)

interpretation agent_calls: call_table chan_pending chan_resolved mc_next_id channel_new chan_step
proof
  show "chan_pending channel_new = []" "chan_resolved channel_new = []"
    by (simp_all add: chan_defs channel_new_def hm_keys_def)
  fix ch ch'
  assume step: "chan_step ch ch'" and d: "distinct (chan_pending ch)" "mc_next_id ch \<notin> set (chan_pending ch)"
  have fresh: "hm_keys (hm_insert (mc_next_id ch) () (mc_pending ch)) = hm_keys (mc_pending ch) @ [mc_next_id ch]"
    using d(2) by (simp add: chan_defs hm_keys_insert_new)
  have keep: "filter (\<lambda>x. x \<noteq> mc_next_id ch) (hm_keys (mc_pending ch)) = hm_keys (mc_pending ch)"
    using d(2) by (auto simp: chan_defs intro: filter_True)
  from step show "(mc_next_id ch' = Suc (mc_next_id ch) \<and> chan_pending ch' = chan_pending ch @ [mc_next_id ch] \<and>
        chan_resolved ch' = chan_resolved ch) \<or>
      (mc_next_id ch' = Suc (mc_next_id ch) \<and> chan_pending ch' = chan_pending ch \<and>
        chan_resolved ch' = chan_resolved ch @ [mc_next_id ch]) \<or>
      (mc_next_id ch' = mc_next_id ch \<and>
       (\<exists>ids. distinct ids \<and> set ids \<subseteq> set (chan_pending ch) \<and>
          chan_pending ch' = filter (\<lambda>i. i \<notin> set ids) (chan_pending ch) \<and> chan_resolved ch' = chan_resolved ch @ ids))"
  proof cases
    case (request ok m params)
    then show ?thesis using fresh by (intro disjI1) (simp add: request_def Let_def chan_defs)
  next
    case (request_blocking ok m params)
    then show ?thesis using fresh keep by (cases ok) (simp_all add: request_blocking_def Let_def chan_defs hm_keys_remove)
  next
    case (resolve v)
    show ?thesis
    proof (cases "pending_response ch v")
      case None
      then show ?thesis
        using resolve by (intro disjI2 [OF disjI2] conjI exI [of _ "[]"]) (simp_all add: try_resolve_pending_def)
    next
      case (Some i)
      then show ?thesis
        using resolve pending_response_pending [OF Some]
        by (intro disjI2 [OF disjI2] conjI exI [of _ "[i]"])
          (simp_all add: try_resolve_pending_def chan_defs hm_keys_remove)
    qed
  qed
qed

text \<open>The agent's requests to the gateway are answered once: every id it has used is either
  still pending or has exactly one result, and an incoming frame is taken as an answer only if it
  carries the id of a pending request and is not itself a request.\<close>

theorem agent_requests_answered_once:
  assumes "agent_calls.calls_reach ch"
  shows "distinct (chan_resolved ch) \<and>
     (\<forall>i. 1 \<le> i \<and> i < mc_next_id ch \<longrightarrow> (i \<in> set (chan_pending ch)) \<noteq> (i \<in> set (chan_resolved ch))) \<and>
     (snd (try_resolve_pending v ch) \<longleftrightarrow>
        map_get v ''method'' = None \<and>
        (\<exists>i. Option.bind (map_get v ''id'') as_u64 = Some i \<and> i \<in> set (chan_pending ch) \<and>
           mc_results (fst (try_resolve_pending v ch)) = mc_results ch @ [(i, gateway_answer v)]))"
proof (intro conjI)
  show "distinct (chan_resolved ch)" by (rule agent_calls.resolved_once [OF assms])
  show "\<forall>i. 1 \<le> i \<and> i < mc_next_id ch \<longrightarrow> (i \<in> set (chan_pending ch)) \<noteq> (i \<in> set (chan_resolved ch))"
    using agent_calls.pending_or_resolved [OF assms] by (simp add: channel_new_def)
  show "snd (try_resolve_pending v ch) \<longleftrightarrow>
        map_get v ''method'' = None \<and>
        (\<exists>i. Option.bind (map_get v ''id'') as_u64 = Some i \<and> i \<in> set (chan_pending ch) \<and>
           mc_results (fst (try_resolve_pending v ch)) = mc_results ch @ [(i, gateway_answer v)])"
  proof (cases "pending_response ch v")
    case None
    then show ?thesis by (simp add: try_resolve_pending_def)
  next
    case (Some i)
    then show ?thesis using pending_response_pending [OF Some] by (simp add: try_resolve_pending_def)
  qed
qed

definition sample_request :: MsgpackChannel where
  "sample_request = fst (request True ''skills/list'' VNil channel_new)"

theorem agent_requests_answered_once_witness:
  "snd (try_resolve_pending (mp_map [(''id'', VInteger 1), (''result'', VNil)]) sample_request) \<and>
   (\<exists>i. mc_results (fst (try_resolve_pending (mp_map [(''id'', VInteger 1), (''result'', VNil)]) sample_request)) =
          mc_results sample_request @ [(i, gateway_answer (mp_map [(''id'', VInteger 1), (''result'', VNil)]))])"
proof -
  let ?v = "mp_map [(''id'', VInteger 1), (''result'', VNil)]"
  have r: "agent_calls.calls_reach sample_request"
    unfolding sample_request_def by (rule agent_calls.calls_reach.step [OF agent_calls.calls_reach.start chan_step.request])
  have "snd (try_resolve_pending ?v sample_request)" by code_simp
  then show ?thesis using agent_requests_answered_once [OF r, of ?v] by blast
qed

section \<open>Nothing works before the handshake\<close>

definition unready :: "'w ExecServerHandler \<Rightarrow> 'w ExecServerHandler \<Rightarrow> bool" where
  "unready h h' \<longleftrightarrow> eh_world h' = eh_world h \<and> eh_proxy h' = eh_proxy h \<and> eh_mounts h' = eh_mounts h \<and>
     lp_processes (eh_process h') = lp_processes (eh_process h) \<and>
     lp_stdin (eh_process h') = lp_stdin (eh_process h) \<and>
     lp_terminated (eh_process h') = lp_terminated (eh_process h) \<and>
     \<not> lp_initialized (eh_process h')"

lemma unready_refl: "\<not> lp_initialized (eh_process h) \<Longrightarrow> unready h h"
  by (simp add: unready_def)

lemma unready_gate:
  "\<not> lp_initialized p \<Longrightarrow> \<exists>e. require_initialized_for fam p = Inl e \<and> ce_kind e = KInvalidRequest"
  by (auto simp: require_initialized_for_def invalid_request_def)

lemma unready_arm:
  assumes "\<And>p. \<exists>h' r. run p h = (h', r) \<and> unready h h' \<and> ((\<exists>v. r = Inr v) \<longrightarrow> ok)"
    and "\<not> lp_initialized (eh_process h)"
  shows "\<exists>h' r. arm env dc f run params h = Some (h', r) \<and> unready h h' \<and> ((\<exists>v. r = Inr v) \<longrightarrow> ok)"
proof (cases "agent_parse_params dc params")
  case (Inr p)
  obtain h' r where "run p h = (h', r)" "unready h h'" "(\<exists>v. r = Inr v) \<longrightarrow> ok" using assms(1) by blast
  then show ?thesis using Inr by (cases r) (auto simp: arm_def encode_result_def)
qed (use assms(2) in \<open>simp add: arm_def unready_refl\<close>)

lemma on_process_unready:
  assumes "f (eh_process h) = (eh_process h, Inl e)" "\<not> lp_initialized (eh_process h)"
  shows "\<exists>h' r. on_process f h = (h', r) \<and> unready h h' \<and> ((\<exists>v. r = Inr v) \<longrightarrow> ok)"
  using assms by (simp add: on_process_def unready_refl)

lemma unready_fs_arm:
  assumes "\<not> lp_initialized (eh_process h)"
  shows "\<exists>h' r. arm env dc f (\<lambda>p. handle_fs (g p)) params h = Some (h', r) \<and> unready h h' \<and> ((\<exists>v. r = Inr v) \<longrightarrow> ok)"
proof (rule unready_arm [OF _ assms])
  obtain e where "require_initialized_for ''filesystem'' (eh_process h) = Inl e"
    using unready_gate [OF assms] by blast
  then show "\<exists>h' r. handle_fs (g p) h = (h', r) \<and> unready h h' \<and> ((\<exists>v. r = Inr v) \<longrightarrow> ok)" for p
    using assms by (simp add: handle_fs_def unready_refl)
qed

lemma unready_dispatch:
  assumes "\<not> lp_initialized (eh_process h)" "method \<noteq> ''initialized''"
  shows "\<exists>h' r. agent_dispatch env method params h = Some (h', r) \<and> unready h h' \<and>
     ((\<exists>v. r = Inr v) \<longrightarrow> method = ''initialize'' \<and> \<not> lp_initialize_requested (eh_process h))"
proof (cases "agent_parse method")
  case None
  then show ?thesis using assms by (simp add: agent_dispatch_def unready_refl)
next
  case (Some m)
  obtain e where e: "require_initialized_for ''exec'' (eh_process h) = Inl e"
    using unready_gate [OF assms(1)] by blast
  obtain ep where ep: "require_initialized_for ''proxy'' (eh_process h) = Inl ep"
    using unready_gate [OF assms(1)] by blast
  let ?ok = "method = ''initialize'' \<and> \<not> lp_initialize_requested (eh_process h)"
  have name: "agent_as_str m = method" using agent_parse_Some [OF Some] .
  have refl: "unready h h" using unready_refl [OF assms(1)] .
  show ?thesis
  proof (cases m)
    case Initialize
    have "\<exists>h' r. on_process (initialize (en_shell env) (en_cwd env)) h = (h', r) \<and> unready h h' \<and> ((\<exists>v. r = Inr v) \<longrightarrow> ?ok)"
      using assms(1) name Initialize
      by (auto simp: on_process_def initialize_def unready_def agent_as_str_def)
    from unready_arm [where run = "\<lambda>_. on_process (initialize (en_shell env) (en_cwd env))", OF this assms(1)] show ?thesis using Some Initialize by (simp add: agent_dispatch_def)
  next
    case Initialized
    then show ?thesis using name assms(2) by (simp add: agent_as_str_def)
  next
    case ProcessStart
    have "\<exists>h' r. on_process (start_process p (en_spawn env p)) h = (h', r) \<and> unready h h' \<and> ((\<exists>v. r = Inr v) \<longrightarrow> ?ok)" for p
      by (rule on_process_unready [OF _ assms(1)]) (simp add: start_process_def start_reserve_def e)
    from unready_arm [where run = "\<lambda>p. on_process (start_process p (en_spawn env p))", OF this assms(1)] show ?thesis using Some ProcessStart by (simp add: agent_dispatch_def)
  next
    case ProcessRead
    then show ?thesis
      using Some e refl
      by (auto simp: agent_dispatch_def handle_read_def exec_read_def Let_def encode_result_def split: sum.split)
  next
    case ProcessWrite
    have "\<exists>h' r. on_process (exec_write p (en_write_ok env)) h = (h', r) \<and> unready h h' \<and> ((\<exists>v. r = Inr v) \<longrightarrow> ?ok)" for p
      by (rule on_process_unready [OF _ assms(1)]) (simp add: exec_write_def e)
    from unready_arm [where run = "\<lambda>p. on_process (exec_write p (en_write_ok env))", OF this assms(1)] show ?thesis using Some ProcessWrite by (simp add: agent_dispatch_def)
  next
    case ProcessTerminate
    have "\<exists>h' r. on_process (terminate_process p) h = (h', r) \<and> unready h h' \<and> ((\<exists>v. r = Inr v) \<longrightarrow> ?ok)" for p
      by (rule on_process_unready [OF _ assms(1)]) (simp add: terminate_process_def e)
    from unready_arm [where run = "\<lambda>p. on_process (terminate_process p)", OF this assms(1)] show ?thesis using Some ProcessTerminate by (simp add: agent_dispatch_def)
  next
    case ProxyRegister
    have "\<exists>h' r. handle_proxy_register env p h = (h', r) \<and> unready h h' \<and> ((\<exists>v. r = Inr v) \<longrightarrow> ?ok)" for p
      using ep refl by (simp add: handle_proxy_register_def)
    from unready_arm [where run = "handle_proxy_register env", OF this assms(1)] show ?thesis using Some ProxyRegister by (simp add: agent_dispatch_def)
  next
    case ProxyUnregister
    have "\<exists>h' r. handle_proxy_unregister env p h = (h', r) \<and> unready h h' \<and> ((\<exists>v. r = Inr v) \<longrightarrow> ?ok)" for p
      using ep refl by (simp add: handle_proxy_unregister_def)
    from unready_arm [where run = "handle_proxy_unregister env", OF this assms(1)] show ?thesis using Some ProxyUnregister by (simp add: agent_dispatch_def)
  qed (simp_all add: agent_dispatch_def Some unready_fs_arm [OF assms(1)])
qed

lemma unready_trans: "unready h h' \<Longrightarrow> unready h' h'' \<Longrightarrow> unready h h''"
  by (simp add: unready_def)

lemma send_frame_handler [simp]: "ar_handler (fst (send_frame ok v a)) = ar_handler a"
  by (simp add: send_frame_def)

definition not_initialized_event :: "value MessageChannelEvent \<Rightarrow> bool" where
  "not_initialized_event ev =
     (case ev of Message v \<Rightarrow> map_str v ''method'' \<noteq> Some ''initialized'' | _ \<Rightarrow> True)"

lemma unready_event:
  assumes "\<not> lp_initialized (eh_process (ar_handler a))" "not_initialized_event ev"
  shows "\<exists>a' go. handle_event env ok ev a = Some (a', go) \<and> unready (ar_handler a) (ar_handler a')"
proof (cases ev)
  case (Message v)
  let ?m = "case map_str v ''method'' of None \<Rightarrow> [] | Some m \<Rightarrow> m"
  have "?m \<noteq> ''initialized''" using assms(2) Message by (auto simp: not_initialized_event_def split: option.splits)
  from unready_dispatch [OF assms(1) this] obtain h' r where
    "agent_dispatch env ?m (unwrap_positional (case map_get v ''params'' of None \<Rightarrow> VNil | Some p \<Rightarrow> p)) (ar_handler a) =
       Some (h', r)" "unready (ar_handler a) h'" by blast
  then show ?thesis
    using Message unready_refl [OF assms(1)]
    by (auto simp: handle_event_def Let_def send_frame_def split: prod.split bool.split option.split)
next
  case (MalformedMessage reason)
  then show ?thesis using unready_refl [OF assms(1)] by (auto simp: handle_event_def send_frame_def)
next
  case (Disconnected reason)
  then show ?thesis using unready_refl [OF assms(1)] by (auto simp: handle_event_def)
qed

lemma unready_run:
  assumes "\<not> lp_initialized (eh_process (ar_handler a))" "\<forall>e \<in> set events. not_initialized_event (snd (snd e))"
  shows "\<exists>a' h. run_dispatch removals events a = Finished a' \<and> unready (ar_handler a) h \<and>
     ar_handler a' = handler_shutdown removals h"
  using assms
proof (induction events arbitrary: a)
  case Nil
  then show ?case using unready_refl by auto
next
  case (Cons e events)
  obtain env ok ev where e: "e = (env, ok, ev)" by (cases e) auto
  obtain a1 go where a1: "handle_event env ok ev a = Some (a1, go)" "unready (ar_handler a) (ar_handler a1)"
    using unready_event [OF Cons.prems(1), of ev env ok] Cons.prems(2) e by auto
  show ?case
  proof (cases go)
    case True
    have "\<not> lp_initialized (eh_process (ar_handler a1))" using a1(2) by (simp add: unready_def)
    from Cons.IH [OF this] Cons.prems(2) obtain a' h where
      "run_dispatch removals events a1 = Finished a'" "unready (ar_handler a1) h" "ar_handler a' = handler_shutdown removals h"
      by auto
    then show ?thesis using a1 True e unready_trans by (simp, blast)
  next
    case False
    then show ?thesis using a1 e by auto
  qed
qed


definition sample_files :: "nat ExecutorFileSystem" where
  "sample_files =
     \<lparr>fs_read_file = (\<lambda>p w. (w, Ok [])), fs_write_file = (\<lambda>p d w. (w + 1, Ok ())),
      fs_create_directory = (\<lambda>p opt w. (w + 1, Ok ())),
      fs_get_metadata = (\<lambda>p w. (w, Err \<lparr>io_kind = NotFound, io_text = ''missing''\<rparr>)),
      fs_read_directory = (\<lambda>p w. (w, Ok [])), fs_remove = (\<lambda>p opt w. (w + 1, Ok ())),
      fs_copy = (\<lambda>p q opt w. (w, Err \<lparr>io_kind = InvalidInput, io_text = ''same''\<rparr>))\<rparr>"

definition sample_agent_env :: "nat AgentEnv" where
  "sample_agent_env =
     \<lparr>en_dec_initialize = (\<lambda>_. Ok ''gw''), en_dec_exec = (\<lambda>_. Ok sample_exec),
      en_dec_read = (\<lambda>_. Err ''bad''), en_dec_write = (\<lambda>_. Err ''bad''), en_dec_terminate = (\<lambda>_. Ok ''p''),
      en_dec_read_file = (\<lambda>_. Ok \<lparr>frf_path = ''/f''\<rparr>), en_dec_write_file = (\<lambda>_. Ok \<lparr>fwf_path = ''/f'', fwf_data = [1]\<rparr>),
      en_dec_create_directory = (\<lambda>_. Err ''bad''), en_dec_get_metadata = (\<lambda>_. Ok \<lparr>fgm_path = ''/f''\<rparr>),
      en_dec_read_directory = (\<lambda>_. Err ''bad''), en_dec_remove = (\<lambda>_. Err ''bad''),
      en_dec_copy = (\<lambda>_. Ok \<lparr>fcp_source_path = ''/f'', fcp_destination_path = ''/f'', fcp_recursive = False\<rparr>),
      en_dec_proxy_register = (\<lambda>_. Err ''bad''), en_dec_proxy_unregister = (\<lambda>_. Err ''bad''),
      en_encode = (\<lambda>_. Some (VBoolean True)), en_fs = sample_files, en_shell = None, en_cwd = None,
      en_spawn = (\<lambda>_. Ok 7), en_now = 0, en_waits = [], en_write_ok = True, en_mkdir = Ok (), en_removed = True,
      en_bound = Ok ()\<rparr>"

definition sample_frame :: "string \<Rightarrow> value" where
  "sample_frame m = mp_map [(''id'', VInteger 9), (''method'', VString m)]"

definition sample_events :: "(nat AgentEnv \<times> bool \<times> value MessageChannelEvent) list" where
  "sample_events =
     [(sample_agent_env, True, Message (sample_frame ''process/start'')),
      (sample_agent_env, True, Message (sample_frame ''initialize'')),
      (sample_agent_env, True, Message (sample_frame ''fs/write_file'')),
      (sample_agent_env, True, Disconnected None)]"


section \<open>Requests are answered in order\<close>

fun event_reply_ids :: "value MessageChannelEvent \<Rightarrow> value list" where
  "event_reply_ids (Message v) = (case map_get v ''id'' of None \<Rightarrow> [] | Some i \<Rightarrow> [i])"
| "event_reply_ids (MalformedMessage r) = [VNil]"
| "event_reply_ids (Disconnected r) = []"

fun client_event :: "value MessageChannelEvent \<Rightarrow> bool" where
  "client_event (Message v) \<longleftrightarrow> map_get v ''method'' \<noteq> None"
| "client_event (MalformedMessage r) \<longleftrightarrow> True"
| "client_event (Disconnected r) \<longleftrightarrow> False"

definition is_reply :: "value \<Rightarrow> bool" where
  "is_reply r \<longleftrightarrow> map_get r ''method'' = None \<and> (map_get r ''result'' = None) \<noteq> (map_get r ''error'' = None)"

lemma reply_frame_shape: "map_get (reply_frame i r) ''id'' = Some i \<and> is_reply (reply_frame i r)"
  by (cases r) (simp_all add: reply_frame_def is_reply_def)

lemma parse_error_shape:
  "map_get (parse_error_frame reason) ''id'' = Some VNil \<and> is_reply (parse_error_frame reason)"
  by (simp add: parse_error_frame_def is_reply_def)

lemma client_event_replies:
  assumes "handle_event env True ev a = Some (a', go)" "client_event ev"
  shows "go \<and> (\<exists>rs. ar_out a' = ar_out a @ rs \<and> map (\<lambda>r. map_get r ''id'') rs = map Some (event_reply_ids ev) \<and>
     list_all is_reply rs)"
proof (cases ev)
  case (Message v)
  obtain m where m: "map_get v ''method'' = Some m" using assms(2) Message by auto
  then have "try_resolve_pending v (ar_chan a) = (ar_chan a, False)"
    by (simp add: try_resolve_pending_def pending_response_def)
  then show ?thesis
    using assms(1) Message reply_frame_shape
    by (auto simp: handle_event_def Let_def send_frame_def split: option.splits prod.splits)
next
  case (MalformedMessage reason)
  then show ?thesis using assms(1) parse_error_shape by (auto simp: handle_event_def send_frame_def)
next
  case (Disconnected reason)
  then show ?thesis using assms(2) by simp
qed

text \<open>The agent answers a client in order: while the connection can be written, every request
  frame with an id gets exactly one response under its own id, in the order of arrival, a
  notification gets none, and an undecodable frame gets one error without id.\<close>

theorem agent_answers_in_order:
  assumes "\<forall>e \<in> set events. fst (snd e) \<and> client_event (snd (snd e))"
    and "run_dispatch removals events a = Finished a'"
  shows "\<exists>replies. ar_out a' = ar_out a @ replies \<and>
     map (\<lambda>r. map_get r ''id'') replies = map Some (concat (map (\<lambda>(_, _, ev). event_reply_ids ev) events)) \<and>
     list_all is_reply replies"
  using assms
proof (induction events arbitrary: a)
  case (Cons e events)
  obtain env ev where e: "e = (env, True, ev)" "client_event ev"
    using Cons.prems(1) by (cases e) auto
  obtain a1 go where h: "handle_event env True ev a = Some (a1, go)"
    using Cons.prems(2) e by (cases "handle_event env True ev a") auto
  obtain rs where rs: "go" "ar_out a1 = ar_out a @ rs" "map (\<lambda>r. map_get r ''id'') rs = map Some (event_reply_ids ev)"
    "list_all is_reply rs"
    using client_event_replies [OF h e(2)] by blast
  have "run_dispatch removals events a1 = Finished a'" using Cons.prems(2) e h rs(1) by simp
  from Cons.IH [OF _ this] Cons.prems(1) obtain rest where "ar_out a' = ar_out a1 @ rest"
    "map (\<lambda>r. map_get r ''id'') rest = map Some (concat (map (\<lambda>(_, _, ev). event_reply_ids ev) events))"
    "list_all is_reply rest" by auto
  then show ?case using rs e by (intro exI [of _ "rs @ rest"]) simp
qed auto

theorem agent_answers_in_order_witness:
  "\<exists>a' replies. run_dispatch (\<lambda>_. True) (butlast sample_events) (run_new (handler_new 5)) = Finished a' \<and>
     ar_out a' = replies \<and> map (\<lambda>r. map_get r ''id'') replies = replicate 3 (Some (VInteger 9))"
proof -
  let ?evs = "butlast sample_events"
  have evs: "\<forall>e \<in> set ?evs. fst (snd e) \<and> client_event (snd (snd e))"
    by (auto simp: sample_events_def sample_frame_def)
  have ni: "\<forall>e \<in> set ?evs. not_initialized_event (snd (snd e))"
    by (auto simp: sample_events_def sample_frame_def not_initialized_event_def)
  have "\<not> lp_initialized (eh_process (ar_handler (run_new (handler_new (5::nat)))))"
    by (simp add: run_new_def handler_new_def lp_new_def)
  then obtain a' where a': "run_dispatch (\<lambda>_. True) ?evs (run_new (handler_new 5)) = Finished a'"
    using unready_run ni by blast
  have ids: "concat (map (\<lambda>(_, _, ev). event_reply_ids ev) ?evs) = replicate 3 (VInteger 9)"
    by (simp add: sample_events_def sample_frame_def numeral_3_eq_3)
  have out: "ar_out (run_new (handler_new (5::nat))) = []" by (simp add: run_new_def)
  show ?thesis using agent_answers_in_order [OF evs a'] a' unfolding ids out by simp
qed

end
