(* ===== verification/Socket_Addr.thy ===== *)
theory Socket_Addr
  imports Text
begin

text \<open>
  The parser of \<^verbatim>\<open>std::net::SocketAddr\<close>, which the agent's listen URL goes through:
  decimal IPv4 addresses without leading zeros, IPv6 addresses in brackets with one
  \<^verbatim>\<open>::\<close> and an optional trailing IPv4 part, a scope and a port.  A reader gives the value
  and the rest of the input, or \<^const>\<open>None\<close> with nothing consumed.
\<close>

section \<open>Readers\<close>

datatype SocketAddr = V4 "nat list" nat | V6 "nat list" nat nat

type_synonym 'a reader = "string \<Rightarrow> ('a \<times> string) option"

definition to_digit :: "nat \<Rightarrow> char \<Rightarrow> nat option" where
  "to_digit radix c =
     (let n = of_char c;
          d = (if 48 \<le> n \<and> n \<le> 57 then n - 48 else if 97 \<le> n \<and> n \<le> 122 then n - 87
               else if 65 \<le> n \<and> n \<le> 90 then n - 55 else radix)
      in if d < radix then Some d else None)"

definition read_given_char :: "char \<Rightarrow> unit reader" where
  "read_given_char c s = (case s of x # r \<Rightarrow> if x = c then Some ((), r) else None | [] \<Rightarrow> None)"

definition digits_value :: "nat \<Rightarrow> string \<Rightarrow> nat" where
  "digits_value radix ds = foldl (\<lambda>a c. radix * a + (case to_digit radix c of Some d \<Rightarrow> d | None \<Rightarrow> 0)) 0 ds"

definition read_number :: "nat \<Rightarrow> nat option \<Rightarrow> bool \<Rightarrow> nat \<Rightarrow> nat reader" where
  "read_number radix max_digits allow_zero_prefix limit s =
     (let ds = takeWhile (\<lambda>c. to_digit radix c \<noteq> None) s
      in if ds = [] \<or> (case max_digits of Some k \<Rightarrow> k < length ds | None \<Rightarrow> False) then None
         else if \<not> allow_zero_prefix \<and> hd ds = CHR ''0'' \<and> 1 < length ds then None
         else if digits_value radix ds \<le> limit then Some (digits_value radix ds, drop (length ds) s) else None)"

definition read_separator :: "char \<Rightarrow> nat \<Rightarrow> 'a reader \<Rightarrow> 'a reader" where
  "read_separator sep index inner s =
     (if 0 < index then Option.bind (read_given_char sep s) (\<lambda>(_, r). inner r) else inner s)"

fun read_octets :: "nat \<Rightarrow> nat \<Rightarrow> nat list reader" where
  "read_octets 0 i s = Some ([], s)"
| "read_octets (Suc k) i s =
     (case read_separator (CHR ''.'') i (read_number 10 (Some 3) False 255) s of
        None \<Rightarrow> None
      | Some (x, r) \<Rightarrow> map_option (\<lambda>(xs, r). (x # xs, r)) (read_octets k (Suc i) r))"

definition read_ipv4_addr :: "nat list reader" where
  "read_ipv4_addr s = read_octets 4 0 s"

text \<open>A trailing IPv4 part of an IPv6 address needs two groups.\<close>

definition read_embedded :: "nat \<Rightarrow> nat \<Rightarrow> nat list reader" where
  "read_embedded k i s =
     (if 0 < k then
        (case read_separator (CHR '':'') i read_ipv4_addr s of
           Some ([a, b, c, d], r) \<Rightarrow> Some ([256 * a + b, 256 * c + d], r)
         | _ \<Rightarrow> None)
      else None)"

text \<open>At most \<open>k\<close> groups of an IPv6 address, the flag for a trailing IPv4 part, and the rest.\<close>

fun read_groups :: "nat \<Rightarrow> nat \<Rightarrow> string \<Rightarrow> nat list \<times> bool \<times> string" where
  "read_groups 0 i s = ([], False, s)"
| "read_groups (Suc k) i s =
     (case read_embedded k i s of
        Some (gs, r) \<Rightarrow> (gs, True, r)
      | None \<Rightarrow>
          (case read_separator (CHR '':'') i (read_number 16 (Some 4) True 65535) s of
             None \<Rightarrow> ([], False, s)
           | Some (g, r) \<Rightarrow> (case read_groups k (Suc i) r of (gs, v4, r) \<Rightarrow> (g # gs, v4, r))))"

definition read_ipv6_addr :: "nat list reader" where
  "read_ipv6_addr s =
     (case read_groups 8 0 s of
        (head, head_ipv4, r) \<Rightarrow>
          if length head = 8 then Some (head, r)
          else if head_ipv4 then None
          else Option.bind (read_given_char (CHR '':'') r) (\<lambda>(_, r).
               Option.bind (read_given_char (CHR '':'') r) (\<lambda>(_, r).
                 case read_groups (8 - (length head + 1)) 0 r of
                   (tail, _, r) \<Rightarrow> Some (head @ replicate (8 - length head - length tail) 0 @ tail, r))))"

definition read_port :: "nat reader" where
  "read_port s = Option.bind (read_given_char (CHR '':'') s) (\<lambda>(_, r). read_number 10 None True 65535 r)"

definition read_scope_id :: "nat reader" where
  "read_scope_id s = Option.bind (read_given_char (CHR ''%'') s) (\<lambda>(_, r). read_number 10 None True (2 ^ 32 - 1) r)"

definition scope_or_zero :: "string \<Rightarrow> nat \<times> string" where
  "scope_or_zero s = (case read_scope_id s of None \<Rightarrow> (0, s) | Some x \<Rightarrow> x)"

definition read_socket_addr_v4 :: "SocketAddr reader" where
  "read_socket_addr_v4 s =
     Option.bind (read_ipv4_addr s) (\<lambda>(ip, r). map_option (\<lambda>(port, r). (V4 ip port, r)) (read_port r))"

definition read_socket_addr_v6 :: "SocketAddr reader" where
  "read_socket_addr_v6 s =
     Option.bind (read_given_char (CHR ''['') s) (\<lambda>(_, r).
     Option.bind (read_ipv6_addr r) (\<lambda>(ip, r).
       case scope_or_zero r of
         (scope, r) \<Rightarrow>
           Option.bind (read_given_char (CHR '']'') r) (\<lambda>(_, r).
             map_option (\<lambda>(port, r). (V6 ip scope port, r)) (read_port r))))"

definition parse_socket_addr :: "string \<Rightarrow> SocketAddr option" where
  "parse_socket_addr s =
     (case (case read_socket_addr_v4 s of None \<Rightarrow> read_socket_addr_v6 s | Some x \<Rightarrow> Some x) of
        Some (addr, []) \<Rightarrow> Some addr
      | _ \<Rightarrow> None)"

definition valid_addr :: "SocketAddr \<Rightarrow> bool" where
  "valid_addr a = (case a of
       V4 ip port \<Rightarrow> length ip = 4 \<and> list_all (\<lambda>x. x \<le> 255) ip \<and> port \<le> 65535
     | V6 ip scope port \<Rightarrow> length ip = 8 \<and> list_all (\<lambda>x. x \<le> 65535) ip \<and> scope < 2 ^ 32 \<and> port \<le> 65535)"

section \<open>Reading decimal numbers\<close>

lemma dec_Cons: "\<exists>c cs. dec n = c # cs \<and> is_ascii_digit c"
  using dec_digits [of n] by (cases "dec n") auto

lemma dec_leading_zero: "hd (dec n) = CHR ''0'' \<Longrightarrow> n = 0"
proof (induction n rule: dec.induct)
  case (1 n)
  show ?case
  proof (cases "n < 10")
    case True
    then have "dec n = [char_of (48 + n)]" by (subst dec.simps) simp
    then have "char_of (48 + n) = CHR ''0''" using 1(2) by simp
    then have "of_char (char_of (48 + n) :: char) = (48 :: nat)" by simp
    then show ?thesis using True by simp
  next
    case False
    then have "dec n = dec (n div 10) @ [char_of (48 + n mod 10)]" by (subst dec.simps) simp
    then have "hd (dec (n div 10)) = CHR ''0''" using 1(2) dec_Cons [of "n div 10"] by auto
    then show ?thesis using 1(1) False by auto
  qed
qed

lemma dec_length: "n < 10 ^ Suc k \<Longrightarrow> length (dec n) \<le> Suc k"
proof (induction k arbitrary: n)
  case 0
  then show ?case by (subst dec.simps) simp
next
  case (Suc k)
  then have "n div 10 < 10 ^ Suc k" by (simp add: less_mult_imp_div_less)
  then show ?case using Suc.IH [of "n div 10"] by (subst dec.simps) simp
qed

lemma to_digit_10: "to_digit 10 c = (if is_ascii_digit c then Some (of_char c - 48) else None)"
  by (auto simp: to_digit_def is_ascii_digit_def Let_def)

lemma digits_value_undec: "list_all is_ascii_digit ds \<Longrightarrow> digits_value 10 ds = undec ds"
proof -
  have "foldl (\<lambda>a c. 10 * a + (case to_digit 10 c of Some d \<Rightarrow> d | None \<Rightarrow> 0)) x ds =
      foldl (\<lambda>a c. 10 * a + (of_char c - 48)) x ds" if "list_all is_ascii_digit ds" for x
    using that by (induction ds arbitrary: x) (auto simp: to_digit_10)
  then show "list_all is_ascii_digit ds \<Longrightarrow> digits_value 10 ds = undec ds"
    unfolding digits_value_def undec_def by blast
qed

lemma read_number_dec:
  assumes "n \<le> limit" "case mx of Some k \<Rightarrow> length (dec n) \<le> k | None \<Rightarrow> True" "rest = [] \<or> \<not> is_ascii_digit (hd rest)"
  shows "read_number 10 mx az limit (dec n @ rest) = Some (n, rest)"
proof -
  have d: "list_all is_ascii_digit (dec n)" "dec n \<noteq> []" using dec_digits by auto
  have "takeWhile (\<lambda>c. to_digit 10 c \<noteq> None) (dec n @ rest) = dec n"
    using assms(3) d by (subst takeWhile_append2) (auto simp: list_all_iff to_digit_10 takeWhile_eq_Nil_iff)
  moreover have "\<not> (hd (dec n) = CHR ''0'' \<and> 1 < length (dec n))"
    using dec_leading_zero [of n] dec_0 by auto
  ultimately show ?thesis
    using assms(1,2) d digits_value_undec [OF d(1)]
    by (auto simp: read_number_def Let_def undec_dec split: option.splits)
qed

section \<open>What the parser accepts is an address\<close>

lemma read_number_bound: "read_number radix mx az limit s = Some (n, r) \<Longrightarrow> n \<le> limit"
  by (auto simp: read_number_def Let_def split: if_splits)

lemma read_separator_inner:
  "read_separator c i f s = Some (x, r) \<Longrightarrow> \<exists>t. f t = Some (x, r)"
  by (auto simp: read_separator_def bind_eq_Some_conv split: if_splits)

lemma read_octets_valid: "read_octets k i s = Some (xs, r) \<Longrightarrow> length xs = k \<and> list_all (\<lambda>x. x \<le> 255) xs"
proof (induction k arbitrary: i s xs r)
  case (Suc k)
  then show ?case by (fastforce split: option.splits dest!: read_separator_inner dest: read_number_bound)
qed simp

lemma read_embedded_valid:
  "read_embedded k i s = Some (gs, r) \<Longrightarrow> 0 < k \<and> length gs = 2 \<and> list_all (\<lambda>x. x \<le> 65535) gs"
  by (auto simp: read_embedded_def read_ipv4_addr_def split: if_splits option.splits list.splits
      dest!: read_separator_inner read_octets_valid)

lemma read_groups_valid:
  "read_groups k i s = (gs, v4, r) \<Longrightarrow> length gs \<le> k \<and> list_all (\<lambda>x. x \<le> 65535) gs"
proof (induction k arbitrary: i s gs v4 r)
  case (Suc k)
  then show ?case
    by (fastforce split: option.splits prod.splits dest!: read_separator_inner dest: read_number_bound read_embedded_valid)
qed simp

lemma read_ipv6_valid:
  assumes "read_ipv6_addr s = Some (ip, r)"
  shows "length ip = 8 \<and> list_all (\<lambda>x. x \<le> 65535) ip"
proof -
  obtain h v4 r1 where h: "read_groups 8 0 s = (h, v4, r1)" by (cases "read_groups 8 0 s") auto
  note hv = read_groups_valid [OF h]
  show ?thesis
  proof (cases "length h = 8")
    case True
    then show ?thesis using assms h hv by (simp add: read_ipv6_addr_def)
  next
    case False
    then obtain r2 where "(case read_groups (8 - (length h + 1)) 0 r2 of
        (tail, _, r) \<Rightarrow> Some (h @ replicate (8 - length h - length tail) 0 @ tail, r)) = Some (ip, r)"
      using assms h by (auto simp: read_ipv6_addr_def bind_eq_Some_conv split: if_splits)
    then obtain t v r3 where t: "read_groups (8 - (length h + 1)) 0 r2 = (t, v, r3)"
      "ip = h @ replicate (8 - length h - length t) 0 @ t"
      by (cases "read_groups (8 - (length h + 1)) 0 r2") auto
    have "length h \<le> 7" using hv False by simp
    then show ?thesis using t(2) hv read_groups_valid [OF t(1)] by (auto simp: list_all_iff)
  qed
qed

lemma read_port_valid: "read_port s = Some (port, r) \<Longrightarrow> port \<le> 65535"
  by (auto simp: read_port_def bind_eq_Some_conv dest: read_number_bound)

lemma read_scope_id_valid: "read_scope_id s = Some (scope, r) \<Longrightarrow> scope < 2 ^ 32"
  by (auto simp: read_scope_id_def bind_eq_Some_conv dest!: read_number_bound)

lemma read_v4_valid: "read_socket_addr_v4 s = Some (a, r) \<Longrightarrow> valid_addr a"
  by (auto simp: read_socket_addr_v4_def read_ipv4_addr_def valid_addr_def bind_eq_Some_conv
      dest!: read_octets_valid read_port_valid)

lemma scope_or_zero_valid: "fst (scope_or_zero s) < 2 ^ 32"
  by (auto simp: scope_or_zero_def split: option.splits dest!: read_scope_id_valid)

lemma read_v6_valid: "read_socket_addr_v6 s = Some (a, r) \<Longrightarrow> valid_addr a"
  by (auto simp: read_socket_addr_v6_def valid_addr_def bind_eq_Some_conv case_prod_beta
      dest!: read_ipv6_valid read_port_valid intro: scope_or_zero_valid [simplified])

lemma parse_socket_addr_valid: "parse_socket_addr s = Some a \<Longrightarrow> valid_addr a"
  by (auto simp: parse_socket_addr_def split: option.splits prod.splits list.splits intro: read_v4_valid read_v6_valid)

section \<open>Printed addresses\<close>

fun show_v4 :: "nat list \<Rightarrow> string" where
  "show_v4 [] = []"
| "show_v4 [x] = dec x"
| "show_v4 (x # xs) = dec x @ CHR ''.'' # show_v4 xs"

lemma read_octet_dec:
  assumes "x \<le> 255" "rest = [] \<or> \<not> is_ascii_digit (hd rest)"
  shows "read_number 10 (Some 3) False 255 (dec x @ rest) = Some (x, rest)"
  using assms dec_length [of x 2] by (intro read_number_dec) auto

lemma read_port_dec: "port \<le> 65535 \<Longrightarrow> read_port (CHR '':'' # dec port) = Some (port, [])"
  using read_number_dec [of port 65535 None "[]" True] by (simp add: read_port_def read_given_char_def)

lemma four: "(4 :: nat) = Suc (Suc (Suc (Suc 0)))"
  by simp

lemma read_ipv4_show:
  assumes "length ip = 4" "list_all (\<lambda>x. x \<le> 255) ip" "rest = [] \<or> \<not> is_ascii_digit (hd rest)"
  shows "read_ipv4_addr (show_v4 ip @ rest) = Some (ip, rest)"
proof -
  obtain a b c d where ip: "ip = [a, b, c, d]" using assms(1) by (auto simp: numeral_eq_Suc length_Suc_conv)
  have dot: "\<not> is_ascii_digit (hd (CHR ''.'' # r))" for r by (simp add: is_ascii_digit_def)
  have sep: "read_number 10 (Some 3) False 255 (dec x @ CHR ''.'' # r) = Some (x, CHR ''.'' # r)" if "x \<le> 255" for x r
    using read_octet_dec [OF that, of "CHR ''.'' # r"] dot by simp
  show ?thesis
    using assms(2) read_octet_dec [of d rest] assms(3)
    unfolding ip read_ipv4_addr_def four by (simp add: read_separator_def read_given_char_def sep)
qed

lemma parse_shown_v4:
  assumes "length ip = 4" "list_all (\<lambda>x. x \<le> 255) ip" "port \<le> 65535"
  shows "parse_socket_addr (show_v4 ip @ CHR '':'' # dec port) = Some (V4 ip port)"
  using read_ipv4_show [OF assms(1,2), of "CHR '':'' # dec port"] read_port_dec [OF assms(3)]
  by (simp add: parse_socket_addr_def read_socket_addr_v4_def is_ascii_digit_def)

text \<open>The unspecified IPv6 address, with any port.\<close>

lemma parse_unspecified:
  assumes "port \<le> 65535"
  shows "parse_socket_addr (''[::]:'' @ dec port) = Some (V6 [0, 0, 0, 0, 0, 0, 0, 0] 0 port)"
proof -
  have no_number: "read_number 10 mx az l (CHR ''['' # t) = None" "read_number 10 mx az l (CHR '':'' # t) = None"
    "read_number 10 mx az l (CHR '']'' # t) = None" "read_number 16 mx az l (CHR '':'' # t) = None"
    "read_number 16 mx az l (CHR '']'' # t) = None" for mx az l t
    by (simp_all add: read_number_def to_digit_def)
  have emb: "read_embedded k 0 (CHR '':'' # t) = None" "read_embedded k 0 (CHR '']'' # t) = None" for k t
    unfolding read_embedded_def read_ipv4_addr_def four by (simp_all add: read_separator_def no_number)
  have groups: "read_groups n 0 (CHR '':'' # t) = ([], False, CHR '':'' # t)"
    "read_groups n 0 (CHR '']'' # t) = ([], False, CHR '']'' # t)" for n t
    by (cases n; simp add: emb no_number read_separator_def)+
  have v4: "read_socket_addr_v4 (''[::]:'' @ dec port) = None"
    unfolding read_socket_addr_v4_def read_ipv4_addr_def four by (simp add: read_separator_def no_number)
  have "read_ipv6_addr (''::]:'' @ dec port) = Some ([0, 0, 0, 0, 0, 0, 0, 0], '']:'' @ dec port)"
    unfolding read_ipv6_addr_def by (simp add: groups read_given_char_def) (simp add: numeral_eq_Suc)
  then show ?thesis using v4 read_port_dec [OF assms]
    by (simp add: parse_socket_addr_def read_socket_addr_v6_def read_given_char_def read_scope_id_def scope_or_zero_def)
qed

end
