(* ===== verification/Agent_Listener.thy ===== *)
theory Agent_Listener
  imports Agent_Dispatch Socket_Addr
begin

text \<open>
  The agent's listener: \<^verbatim>\<open>nexal-agent/src/server/transport.rs\<close>,
  \<^verbatim>\<open>server.rs\<close> and \<^verbatim>\<open>environment.rs\<close>.  Every accepted connection gets a
  handler and a message loop of its own; the sessions share the file system, which is the world
  that the listener threads through them.
\<close>

section \<open>Listen URLs\<close>

definition DEFAULT_LISTEN_URL :: string where "DEFAULT_LISTEN_URL = ''ws://127.0.0.1:0''"

datatype ExecServerListenUrlParseError = UnsupportedListenUrl string | InvalidListenUrl string

definition listen_error_text :: "ExecServerListenUrlParseError \<Rightarrow> string" where
  "listen_error_text e =
     (case e of
        UnsupportedListenUrl url \<Rightarrow> ''unsupported --listen URL `'' @ url @ ''`; expected `ws://IP:PORT`''
      | InvalidListenUrl url \<Rightarrow> ''invalid --listen URL `'' @ url @ ''`; expected `ws://IP:PORT`'')"

definition parse_listen_url :: "string \<Rightarrow> (ExecServerListenUrlParseError, SocketAddr) result" where
  "parse_listen_url listen_url =
     (case strip_prefix ''ws://'' listen_url of
        None \<Rightarrow> Err (UnsupportedListenUrl listen_url)
      | Some addr_str \<Rightarrow>
          (case parse_socket_addr addr_str of
             None \<Rightarrow> Err (InvalidListenUrl listen_url)
           | Some addr \<Rightarrow> Ok addr))"

section \<open>The accept loop\<close>

text \<open>A session has its channel label, its run and a flag that its loop goes on.\<close>

record 'w AgentSession =
  as_label :: string
  as_run :: "'w AgentRun"
  as_live :: bool

record 'w AgentListener =
  ln_world :: 'w
  ln_sessions :: "'w AgentSession list"

definition listener_new :: "'w \<Rightarrow> 'w AgentListener" where
  "listener_new w = \<lparr>ln_world = w, ln_sessions = []\<rparr>"

text \<open>What happens at the listener: an accept that fails or gives a peer whose websocket handshake
  succeeds or not, or an event in the loop of a session.\<close>

datatype 'w listener_event =
    AcceptFails string
  | Accepted string "(string, unit) result"
  | SessionEvent nat "component list \<Rightarrow> bool" "'w AgentEnv" bool "value MessageChannelEvent"

definition session_new_at :: "string \<Rightarrow> 'w \<Rightarrow> 'w AgentSession" where
  "session_new_at remote_addr w =
     \<lparr>as_label = ''agent-client-'' @ remote_addr, as_run = run_new (handler_new w), as_live = True\<rparr>"

definition set_world :: "'w \<Rightarrow> 'w AgentRun \<Rightarrow> 'w AgentRun" where
  "set_world w a = a\<lparr>ar_handler := (ar_handler a)\<lparr>eh_world := w\<rparr>\<rparr>"

text \<open>One event of a session's loop; a call that waits leaves everything as it is.\<close>

definition session_turn ::
  "(component list \<Rightarrow> bool) \<Rightarrow> 'w AgentEnv \<Rightarrow> bool \<Rightarrow> value MessageChannelEvent \<Rightarrow> 'w \<Rightarrow> 'w AgentSession \<Rightarrow>
     'w AgentSession \<times> 'w" where
  "session_turn removals env send_ok event w s =
     (if \<not> as_live s then (s, w)
      else
        (case handle_event env send_ok event (set_world w (as_run s)) of
           None \<Rightarrow> (s, w)
         | Some (a, True) \<Rightarrow> (s\<lparr>as_run := a\<rparr>, eh_world (ar_handler a))
         | Some (a, False) \<Rightarrow>
             (s\<lparr>as_run := a\<lparr>ar_handler := handler_shutdown removals (ar_handler a)\<rparr>, as_live := False\<rparr>,
              eh_world (ar_handler a))))"

definition listener_step :: "'w listener_event \<Rightarrow> 'w AgentListener \<Rightarrow> 'w AgentListener" where
  "listener_step ev l =
     (case ev of
        AcceptFails e \<Rightarrow> l
      | Accepted remote_addr (Inl e) \<Rightarrow> l
      | Accepted remote_addr (Inr _) \<Rightarrow>
          l\<lparr>ln_sessions := ln_sessions l @ [session_new_at remote_addr (ln_world l)]\<rparr>
      | SessionEvent i removals env send_ok event \<Rightarrow>
          if i < length (ln_sessions l) then
            (case session_turn removals env send_ok event (ln_world l) (ln_sessions l ! i) of
               (s, w) \<Rightarrow> l\<lparr>ln_world := w, ln_sessions := (ln_sessions l)[i := s]\<rparr>)
          else l)"

definition listen :: "'w listener_event list \<Rightarrow> 'w \<Rightarrow> 'w AgentListener" where
  "listen events w = fold listener_step events (listener_new w)"

text \<open>The loop never ends: an error is one of the start, a result is the line that was printed and the
  state that the events lead to.\<close>

definition run_transport ::
  "(SocketAddr \<Rightarrow> (string, unit) result) \<Rightarrow> (string, string) result \<Rightarrow> 'w listener_event list \<Rightarrow> 'w \<Rightarrow> string \<Rightarrow>
     (string, string \<times> 'w AgentListener) result" where
  "run_transport bind local_addr events w listen_url =
     (case parse_listen_url listen_url of
        Inl e \<Rightarrow> Err (listen_error_text e)
      | Inr bind_address \<Rightarrow>
          (case bind bind_address of
             Inl e \<Rightarrow> Err e
           | Inr _ \<Rightarrow>
               (case local_addr of
                  Inl e \<Rightarrow> Err e
                | Inr addr \<Rightarrow> Ok (''ws://'' @ addr, listen events w))))"

definition run_main ::
  "(SocketAddr \<Rightarrow> (string, unit) result) \<Rightarrow> (string, string) result \<Rightarrow> 'w listener_event list \<Rightarrow> 'w \<Rightarrow>
     (string, string \<times> 'w AgentListener) result" where
  "run_main bind local_addr events w = run_transport bind local_addr events w DEFAULT_LISTEN_URL"

section \<open>Environments\<close>

text \<open>\<^verbatim>\<open>Environment::default\<close> and \<^verbatim>\<open>Environment::create\<close>: the handshake is
  played on a fresh local process.\<close>

definition environment_default :: "string option \<Rightarrow> string option \<Rightarrow> LocalProcess run" where
  "environment_default shell cwd =
     (case initialize shell cwd lp_new of
        (_, Inl e) \<Rightarrow> Panics
      | (p, Inr _) \<Rightarrow> (case initialized p of (_, Inl e) \<Rightarrow> Panics | (p, Inr _) \<Rightarrow> Returns p))"

definition environment_create :: "string option \<Rightarrow> string option \<Rightarrow> (string, LocalProcess) result" where
  "environment_create shell cwd =
     (case initialize shell cwd lp_new of
        (_, Inl e) \<Rightarrow> Err (ce_message e)
      | (p, Inr _) \<Rightarrow> (case initialized p of (_, Inl e) \<Rightarrow> Err e | (p, Inr _) \<Rightarrow> Ok p))"

lemma environment_ready:
  "\<exists>p. environment_default shell cwd = Returns p \<and> environment_create shell cwd = Ok p \<and>
     require_initialized_for fam p = Ok () \<and> lp_processes p = []"
  by (simp add: environment_default_def environment_create_def initialize_def initialized_def lp_new_def
      require_initialized_for_def)

section \<open>Sessions do not interfere\<close>

text \<open>A handler for which nothing has happened.\<close>

definition idle :: "'w ExecServerHandler \<Rightarrow> bool" where
  "idle h \<longleftrightarrow> \<not> lp_initialized (eh_process h) \<and> lp_processes (eh_process h) = [] \<and> lp_stdin (eh_process h) = [] \<and>
     lp_terminated (eh_process h) = [] \<and> eh_proxy h = pm_new \<and> eh_mounts h = 0"

definition on_session :: "nat \<Rightarrow> 'w listener_event \<Rightarrow> bool" where
  "on_session j ev = (case ev of SessionEvent i _ _ _ _ \<Rightarrow> i = j | _ \<Rightarrow> False)"

definition quiet_event :: "nat \<Rightarrow> 'w listener_event \<Rightarrow> bool" where
  "quiet_event j ev = (case ev of SessionEvent i _ _ _ event \<Rightarrow> i = j \<longrightarrow> not_initialized_event event | _ \<Rightarrow> True)"

lemma idle_new: "idle (ar_handler (as_run (session_new_at r w)))"
  by (simp add: idle_def session_new_at_def run_new_def handler_new_def lp_new_def)

lemma idle_world [simp]: "idle (h\<lparr>eh_world := w\<rparr>) = idle h"
  by (simp add: idle_def)

lemma idle_unready: "\<lbrakk>idle h; unready h h'\<rbrakk> \<Longrightarrow> idle h' \<and> eh_world h' = eh_world h"
  by (simp add: idle_def unready_def)

lemma idle_shutdown: "idle h \<Longrightarrow> idle (handler_shutdown removals h)"
  by (simp add: idle_def handler_shutdown_def shutdown_def pm_shutdown_def pm_new_def map_filter_def)

lemma idle_turn:
  assumes "idle (ar_handler (as_run s))" "not_initialized_event event"
    and t: "session_turn removals env ok event w s = (s', w')"
  shows "idle (ar_handler (as_run s')) \<and> w' = w"
proof (cases "as_live s")
  case True
  let ?a = "set_world w (as_run s)"
  have i: "idle (ar_handler ?a)" "eh_world (ar_handler ?a) = w" using assms(1) by (simp_all add: set_world_def)
  then have "\<not> lp_initialized (eh_process (ar_handler ?a))" by (simp add: idle_def)
  from unready_event [OF this assms(2)] obtain a' go where
    "handle_event env ok event ?a = Some (a', go)" "unready (ar_handler ?a) (ar_handler a')" by blast
  then show ?thesis
    using t True idle_unready [OF i(1), of "ar_handler a'"] i(2) idle_shutdown [of "ar_handler a'"]
    by (cases go) (auto simp: session_turn_def)
next
  case False
  then show ?thesis using t assms(1) by (simp add: session_turn_def)
qed

text \<open>Two listeners that differ only in session \<open>j\<close>, for which nothing has happened.\<close>

definition agree_but :: "nat \<Rightarrow> 'w AgentListener \<Rightarrow> 'w AgentListener \<Rightarrow> bool" where
  "agree_but j l l' \<longleftrightarrow> ln_world l = ln_world l' \<and> length (ln_sessions l) = length (ln_sessions l') \<and>
     (\<forall>i < length (ln_sessions l). if i = j then idle (ar_handler (as_run (ln_sessions l ! i)))
        else ln_sessions l ! i = ln_sessions l' ! i)"

lemma agree_own_step:
  assumes "agree_but j l l'" "on_session j ev" "quiet_event j ev"
  shows "agree_but j (listener_step ev l) l'"
proof -
  obtain removals env ok event where ev: "ev = SessionEvent j removals env ok event"
    using assms(2) by (auto simp: on_session_def split: listener_event.splits)
  have q: "not_initialized_event event" using assms(3) ev by (simp add: quiet_event_def)
  show ?thesis
  proof (cases "j < length (ln_sessions l)")
    case True
    obtain s w where t: "session_turn removals env ok event (ln_world l) (ln_sessions l ! j) = (s, w)" by force
    have "idle (ar_handler (as_run (ln_sessions l ! j)))" using assms(1) True by (auto simp: agree_but_def)
    from idle_turn [OF this q t] show ?thesis
      using assms(1) True t by (auto simp: listener_step_def ev agree_but_def nth_list_update)
  next
    case False
    then show ?thesis using assms(1) by (simp add: listener_step_def ev)
  qed
qed

lemma agree_other_step:
  assumes "agree_but j l l'" "\<not> on_session j ev"
  shows "agree_but j (listener_step ev l) (listener_step ev l')"
proof (cases ev)
  case (SessionEvent i removals env ok event)
  then have "i \<noteq> j" using assms(2) by (simp add: on_session_def)
  moreover obtain s w where "i < length (ln_sessions l) \<longrightarrow>
      session_turn removals env ok event (ln_world l) (ln_sessions l ! i) = (s, w)" by force
  ultimately show ?thesis
    using assms(1) by (auto simp: listener_step_def SessionEvent agree_but_def nth_list_update)
next
  case (Accepted r res)
  then show ?thesis
    using assms(1) idle_new
    by (auto simp: listener_step_def agree_but_def nth_append less_Suc_eq split: sum.splits)
next
  case (AcceptFails e)
  then show ?thesis using assms(1) by (simp add: listener_step_def)
qed

lemma agree_run:
  assumes "agree_but j l l'" "list_all (quiet_event j) events"
  shows "agree_but j (fold listener_step events l) (fold listener_step (filter (\<lambda>ev. \<not> on_session j ev) events) l')"
  using assms
proof (induction events arbitrary: l l')
  case (Cons ev events)
  show ?case
  proof (cases "on_session j ev")
    case True
    then show ?thesis using Cons.IH [OF agree_own_step [OF Cons.prems(1) True]] Cons.prems(2) by simp
  next
    case False
    then show ?thesis using Cons.IH [OF agree_other_step [OF Cons.prems(1) False]] Cons.prems(2) by simp
  qed
qed simp

text \<open>C18. A client of the agent that has not completed its handshake cannot be told apart from one that
  sends nothing, whatever other sessions do and however often accepting fails: its own session has
  no process, no proxy and no mount, although other sessions may be initialized, and the file system
  and every other session are as if its messages had not arrived.\<close>

theorem agent_sessions_isolated:
  assumes "list_all (quiet_event j) events"
  shows "let l = listen events w; l' = listen (filter (\<lambda>ev. \<not> on_session j ev) events) w
    in ln_world l = ln_world l' \<and> length (ln_sessions l) = length (ln_sessions l') \<and>
       (j < length (ln_sessions l) \<longrightarrow> idle (ar_handler (as_run (ln_sessions l ! j)))) \<and>
       (\<forall>i < length (ln_sessions l). i \<noteq> j \<longrightarrow> ln_sessions l ! i = ln_sessions l' ! i)"
proof -
  have "agree_but j (listener_new w) (listener_new w)" by (simp add: agree_but_def listener_new_def)
  from agree_run [OF this assms] have "agree_but j (listen events w) (listen (filter (\<lambda>ev. \<not> on_session j ev) events) w)"
    by (simp add: listen_def)
  then show ?thesis by (auto simp: agree_but_def Let_def)
qed

definition sample_listen :: "nat listener_event list" where
  "sample_listen = [Accepted ''a'' (Ok ()), AcceptFails ''too many open files'', Accepted ''b'' (Ok ()),
     SessionEvent 0 (\<lambda>_. True) sample_agent_env True (Message (sample_frame ''initialize'')),
     SessionEvent 0 (\<lambda>_. True) sample_agent_env True (Message (sample_frame ''initialized'')),
     SessionEvent 1 (\<lambda>_. True) sample_agent_env True (Message (sample_frame ''fs/readFile''))]"

theorem agent_sessions_isolated_witness:
  "let l = listen sample_listen 0
   in lp_initialized (eh_process (ar_handler (as_run (ln_sessions l ! 0)))) \<and>
      idle (ar_handler (as_run (ln_sessions l ! 1))) \<and> ln_world l = 0"
proof -
  have q: "list_all (quiet_event 1) sample_listen" by code_simp
  have "length (ln_sessions (listen sample_listen 0)) = 2"
    "lp_initialized (eh_process (ar_handler (as_run (ln_sessions (listen sample_listen 0) ! 0))))"
    "ln_world (listen (filter (\<lambda>ev. \<not> on_session 1 ev) sample_listen) 0) = 0"
    by code_simp+
  then show ?thesis using agent_sessions_isolated [OF q, of 0] by (simp add: Let_def)
qed

end
