(* ===== verification/Calendar.thy ===== *)
theory Calendar
  imports Prelude
begin

text \<open>
  The civil date of a day number, \<^verbatim>\<open>days_to_ymd\<close> and \<^verbatim>\<open>iso_now\<close> of
  \<^verbatim>\<open>nexal-gateway/src/backend/podman.rs\<close>, and the Gregorian calendar it has to agree with:
  a definition of the day after a date, from the lengths of the months and the rule for leap
  years.
\<close>

section \<open>The code\<close>

text \<open>Rust's integer division truncates; the dividend is adjusted for negative numbers, so that
  \<open>div\<close>, which rounds down, is the quotient the code computes.\<close>

definition days_to_ymd :: "int \<Rightarrow> int \<times> int \<times> int" where
  "days_to_ymd days =
     (let z = days + 719468;
          era = z div 146097;
          doe = z - era * 146097;
          yoe = (doe - doe div 1460 + doe div 36524 - doe div 146096) div 365;
          y = yoe + era * 400;
          doy = doe - (365 * yoe + yoe div 4 - yoe div 100);
          mp = (5 * doy + 2) div 153;
          d = doy - (153 * mp + 2) div 5 + 1;
          m = (if mp < 10 then mp + 3 else mp - 9);
          y = (if m \<le> 2 then y + 1 else y)
      in (y, m, d))"

definition pad2 :: "nat \<Rightarrow> string" where
  "pad2 n = (if n < 10 then ''0'' @ dec n else dec n)"

definition pad4 :: "nat \<Rightarrow> string" where
  "pad4 n = replicate (4 - length (dec n)) CHR ''0'' @ dec n"

definition iso_now :: "nat \<Rightarrow> string" where
  "iso_now secs =
     (let days = int (secs div 86400);
          rem = secs mod 86400;
          h = rem div 3600;
          m = rem mod 3600 div 60;
          s = rem mod 60;
          (y, mo, d) = days_to_ymd days
      in pad4 (nat y) @ ''-'' @ pad2 (nat mo) @ ''-'' @ pad2 (nat d) @ ''T'' @ pad2 h @ '':'' @ pad2 m @ '':'' @ pad2 s @ ''Z'')"

section \<open>The calendar\<close>

definition is_leap_year :: "int \<Rightarrow> bool" where
  "is_leap_year y \<longleftrightarrow> y mod 4 = 0 \<and> (y mod 100 \<noteq> 0 \<or> y mod 400 = 0)"

definition days_in_month :: "int \<Rightarrow> int \<Rightarrow> int" where
  "days_in_month y m =
     (if m = 2 then if is_leap_year y then 29 else 28
      else if m = 4 \<or> m = 6 \<or> m = 9 \<or> m = 11 then 30 else 31)"

definition next_day :: "int \<times> int \<times> int \<Rightarrow> int \<times> int \<times> int" where
  "next_day date =
     (case date of (y, m, d) \<Rightarrow>
        if d < days_in_month y m then (y, m, d + 1)
        else if m < 12 then (y, m + 1, 1) else (y + 1, 1, 1))"

section \<open>Years of an era\<close>

text \<open>An era is 400 years from March to February.  The first day of a year of an era and the day after
  its last one; the last year of an era has the leap day that the century rule would take.\<close>

definition year_start :: "int \<Rightarrow> int" where
  "year_start y = 365 * y + y div 4 - y div 100"

definition year_end :: "int \<Rightarrow> int" where
  "year_end y = (if y = 399 then 146097 else year_start (y + 1))"

definition year_guess :: "int \<Rightarrow> int" where
  "year_guess doe = doe - doe div 1460 + doe div 36524 - doe div 146096"

lemma year_guess_step: "year_guess x \<le> year_guess (x + 1)"
proof -
  have q: "z div 146096 = z div 36524 div 4" for z :: int by (simp add: zdiv_zmult2_eq [symmetric])
  have a: "(x + 1) div 1460 \<le> x div 1460 + 1" by linarith
  have b: "x div 36524 \<le> (x + 1) div 36524" by (simp add: zdiv_mono1)
  have c: "y div 4 - x div 4 \<le> y - x" if "x \<le> y" for x y :: int using that by linarith
  show ?thesis unfolding year_guess_def q using a c [OF b] by linarith
qed

lemma year_guess_mono: "x \<le> y \<Longrightarrow> year_guess x \<le> year_guess y"
proof (induction y rule: int_ge_induct)
  case (step i)
  then show ?case using year_guess_step [of i] by linarith
qed simp

lemma year_bounds:
  "list_all (\<lambda>y. 365 * y \<le> year_guess (year_start y) \<and> year_guess (year_end y - 1) < 365 * (y + 1)) [0..399]"
  by code_simp

lemma year_of_day:
  assumes "0 \<le> y" "y < 400" "year_start y \<le> doe" "doe < year_end y"
  shows "year_guess doe div 365 = y"
proof -
  have "y \<in> set [0..399]" using assms(1,2) by simp
  then have "365 * y \<le> year_guess (year_start y)" "year_guess (year_end y - 1) < 365 * (y + 1)"
    using year_bounds by (auto simp: list_all_iff)
  moreover have "year_guess (year_start y) \<le> year_guess doe" "year_guess doe \<le> year_guess (year_end y - 1)"
    using assms(3,4) by (auto intro: year_guess_mono)
  ultimately have "365 * y \<le> year_guess doe" "year_guess doe < 365 * (y + 1)" by linarith+
  then show ?thesis by (intro int_div_pos_eq [of _ _ _ "year_guess doe - 365 * y"]) auto
qed

lemma year_exists:
  "0 \<le> k \<Longrightarrow> k \<le> 399 \<Longrightarrow> 0 \<le> doe \<Longrightarrow> doe < year_end k \<Longrightarrow> \<exists>y. 0 \<le> y \<and> y < 400 \<and> year_start y \<le> doe \<and> doe < year_end y"
proof (induction k rule: int_ge_induct)
  case base
  then show ?case by (intro exI [of _ 0]) (simp add: year_start_def year_end_def)
next
  case (step k)
  have "year_end k = year_start (k + 1)" using step.prems by (simp add: year_end_def)
  then show ?case
    using step by (cases "doe < year_start (k + 1)") (auto intro!: exI [of _ "k + 1"])
qed

lemma leap_year_era: "is_leap_year (y + era * 400) = is_leap_year y"
proof -
  have "(y + era * 400) mod 4 = y mod 4" using mod_mult_self1 [of y "era * 100" 4] by (simp add: mult.commute)
  moreover have "(y + era * 400) mod 100 = y mod 100" using mod_mult_self1 [of y "era * 4" 100] by (simp add: mult.commute)
  ultimately show ?thesis by (simp add: is_leap_year_def)
qed

lemma year_lengths:
  "list_all (\<lambda>y. year_end y - year_start y = (if is_leap_year (y + 1) then 366 else 365)) [0..399]"
  by code_simp

lemma year_length:
  assumes "0 \<le> y" "y < 400"
  shows "year_end y - year_start y = (if is_leap_year (y + 1 + era * 400) then 366 else 365)"
proof -
  have "y \<in> set [0..399]" using assms by simp
  then show ?thesis using year_lengths leap_year_era [of "y + 1" era] by (auto simp: list_all_iff)
qed

section \<open>Days of a year\<close>

definition month_day :: "int \<Rightarrow> int \<times> int" where
  "month_day doy =
     (let mp = (5 * doy + 2) div 153
      in (if mp < 10 then mp + 3 else mp - 9, doy - (153 * mp + 2) div 5 + 1))"

lemma month_table:
  "list_all (\<lambda>doy. case month_day doy of (m, d) \<Rightarrow>
      1 \<le> m \<and> m \<le> 12 \<and> 1 \<le> d \<and> (m = 2 \<longrightarrow> d = doy - 336) \<and> (m \<le> 2 \<longleftrightarrow> 306 \<le> doy) \<and>
      (doy < 365 \<longrightarrow> month_day (doy + 1) =
         (if d < (if m = 2 then 29 else days_in_month 1 m) then (m, d + 1) else if m < 12 then (m + 1, 1) else (1, 1)))) [0..365]"
  by code_simp

lemma month_ends: "month_day 0 = (3, 1)" "month_day 364 = (2, 28)" "month_day 365 = (2, 29)"
  by code_simp+

lemma month_facts:
  assumes "0 \<le> doy" "doy \<le> 365" "month_day doy = (m, d)"
  shows "1 \<le> m" "m \<le> 12" "1 \<le> d" "m = 2 \<Longrightarrow> d = doy - 336" "m \<le> 2 \<longleftrightarrow> 306 \<le> doy"
    and "doy < 365 \<Longrightarrow> month_day (doy + 1) =
      (if d < (if m = 2 then 29 else days_in_month 1 m) then (m, d + 1) else if m < 12 then (m + 1, 1) else (1, 1))"
proof -
  have "doy \<in> set [0..365]" using assms(1,2) by simp
  then have "1 \<le> m \<and> m \<le> 12 \<and> 1 \<le> d \<and> (m = 2 \<longrightarrow> d = doy - 336) \<and> (m \<le> 2 \<longleftrightarrow> 306 \<le> doy) \<and>
      (doy < 365 \<longrightarrow> month_day (doy + 1) =
         (if d < (if m = 2 then 29 else days_in_month 1 m) then (m, d + 1) else if m < 12 then (m + 1, 1) else (1, 1)))"
    using month_table assms(3) unfolding list_all_iff by fastforce
  then show "1 \<le> m" "m \<le> 12" "1 \<le> d" "m = 2 \<Longrightarrow> d = doy - 336" "m \<le> 2 \<longleftrightarrow> 306 \<le> doy"
    and "doy < 365 \<Longrightarrow> month_day (doy + 1) =
      (if d < (if m = 2 then 29 else days_in_month 1 m) then (m, d + 1) else if m < 12 then (m + 1, 1) else (1, 1))"
    by blast+
qed

section \<open>Agreement\<close>

text \<open>The date of a day given by its era, its year of the era and its day of the year.\<close>

definition civil :: "int \<Rightarrow> int \<Rightarrow> int \<Rightarrow> int \<times> int \<times> int" where
  "civil era y doy = (case month_day doy of (m, d) \<Rightarrow> (if m \<le> 2 then y + era * 400 + 1 else y + era * 400, m, d))"

lemma days_to_ymd_civil:
  assumes "0 \<le> y" "y < 400" "0 \<le> doy" "year_start y + doy < year_end y"
  shows "days_to_ymd (era * 146097 + year_start y + doy - 719468) = civil era y doy"
proof -
  let ?z = "era * 146097 + year_start y + doy"
  let ?doe = "year_start y + doy"
  have "0 \<le> year_start y" using assms(1) unfolding year_start_def by linarith
  moreover have "year_end y \<le> 146097"
  proof -
    have "(y + 1) div 4 \<le> 100" "0 \<le> (y + 1) div 100" using assms(1,2) by linarith+
    then show ?thesis using assms(2) by (auto simp: year_end_def year_start_def)
  qed
  ultimately have "0 \<le> ?doe" "?doe < 146097" using assms(3,4) by linarith+
  then have era: "?z div 146097 = era" by (intro int_div_pos_eq [of _ _ _ ?doe]) auto
  have "year_guess ?doe div 365 = y" using assms by (intro year_of_day) auto
  then have yoe: "(?doe - ?doe div 1460 + ?doe div 36524 - ?doe div 146096) div 365 = y" by (simp add: year_guess_def)
  have doe: "?z - era * 146097 = ?doe" by simp
  have doy: "?doe - (365 * y + y div 4 - y div 100) = doy" by (simp add: year_start_def)
  have "days_to_ymd (?z - 719468) = (let mp = (5 * doy + 2) div 153; d = doy - (153 * mp + 2) div 5 + 1;
      m = (if mp < 10 then mp + 3 else mp - 9) in (if m \<le> 2 then y + era * 400 + 1 else y + era * 400, m, d))"
    unfolding days_to_ymd_def diff_add_cancel Let_def era doe yoe doy ..
  then show ?thesis by (simp add: civil_def month_day_def Let_def)
qed

lemma days_to_ymd_cases:
  obtains era y doy where "n = era * 146097 + year_start y + doy - 719468" "0 \<le> y" "y < 400" "0 \<le> doy"
    "year_start y + doy < year_end y"
proof -
  let ?doe = "(n + 719468) mod 146097"
  have "\<exists>y. 0 \<le> y \<and> y < 400 \<and> year_start y \<le> ?doe \<and> ?doe < year_end y"
    by (rule year_exists [of 399]) (simp_all add: year_end_def)
  then obtain y where y: "0 \<le> y" "y < 400" "year_start y \<le> ?doe" "?doe < year_end y" by blast
  have "n = (n + 719468) div 146097 * 146097 + ?doe - 719468" using div_mult_mod_eq [of "n + 719468" 146097] by linarith
  then show ?thesis using y that [of "(n + 719468) div 146097" y "?doe - year_start y"] by simp
qed

lemma next_day_within_year:
  assumes "0 \<le> doy" "doy + 1 < (if is_leap_year (y + era * 400 + 1) then 366 else 365)"
  shows "civil era y (doy + 1) = next_day (civil era y doy)"
proof -
  obtain m d where md: "month_day doy = (m, d)" by force
  have doy: "doy < 365" using assms(2) by (simp split: if_splits)
  then have le: "doy \<le> 365" by simp
  note f = month_facts [OF assms(1) le md]
  let ?yr = "if m \<le> 2 then y + era * 400 + 1 else y + era * 400"
  have "(if m = 2 then 29 else days_in_month 1 m) = days_in_month ?yr m \<or> m = 2 \<and> d < 28"
    using f(4) assms(2) by (auto simp: days_in_month_def split: if_splits)
  moreover have "m = 2 \<Longrightarrow> d < 29" using f(4) doy by simp
  ultimately have "d < (if m = 2 then 29 else days_in_month 1 m) \<longleftrightarrow> d < days_in_month ?yr m"
    by (auto simp: days_in_month_def)
  then show ?thesis
    using f(1,2) f(6) [OF doy] \<open>m = 2 \<Longrightarrow> d < 29\<close>
    by (cases "m = 2") (auto simp: civil_def md next_day_def)
qed

lemma next_day_of_last:
  assumes "doy = (if is_leap_year (y + era * 400 + 1) then 365 else 364)"
  shows "next_day (civil era y doy) = (y + era * 400 + 1, 3, 1)"
  using assms month_ends by (auto simp: civil_def next_day_def days_in_month_def split: if_splits)

lemma days_to_ymd_next: "days_to_ymd (n + 1) = next_day (days_to_ymd n)"
proof (rule days_to_ymd_cases [of n])
  fix era y doy
  assume n: "n = era * 146097 + year_start y + doy - 719468" and y: "0 \<le> y" "y < 400" and doy: "0 \<le> doy" "year_start y + doy < year_end y"
  have len: "year_end y - year_start y = (if is_leap_year (y + era * 400 + 1) then 366 else 365)"
    using year_length [OF y, of era] by (simp add: algebra_simps)
  have today: "days_to_ymd n = civil era y doy" unfolding n by (rule days_to_ymd_civil [OF y doy])
  show ?thesis
  proof (cases "doy + 1 < year_end y - year_start y")
    case True
    have e: "n + 1 = era * 146097 + year_start y + (doy + 1) - 719468" using n by simp
    have "days_to_ymd (n + 1) = civil era y (doy + 1)"
      unfolding e using doy True by (intro days_to_ymd_civil [OF y]) auto
    then show ?thesis using next_day_within_year [OF doy(1)] True today len by simp
  next
    case False
    then have last: "year_start y + doy + 1 = year_end y" using doy by simp
    have "next_day (civil era y doy) = (y + era * 400 + 1, 3, 1)"
      using last len by (intro next_day_of_last) (simp split: if_splits)
    moreover have "days_to_ymd (n + 1) = (y + era * 400 + 1, 3, 1)"
    proof (cases "y = 399")
      case True
      then have e: "n + 1 = (era + 1) * 146097 + year_start 0 + 0 - 719468"
        using n last by (simp add: year_end_def year_start_def)
      have "days_to_ymd (n + 1) = civil (era + 1) 0 0"
        unfolding e by (rule days_to_ymd_civil) (simp_all add: year_start_def year_end_def)
      then show ?thesis using True by (simp add: civil_def month_ends)
    next
      case y': False
      then have e: "n + 1 = era * 146097 + year_start (y + 1) + 0 - 719468" using n last by (simp add: year_end_def)
      have "year_start (y + 1) + 0 < year_end (y + 1)"
        using year_length [of "y + 1" 0] y y' by (simp split: if_splits)
      then have "days_to_ymd (n + 1) = civil era (y + 1) 0"
        unfolding e using y y' by (intro days_to_ymd_civil) auto
      then show ?thesis by (simp add: civil_def month_ends)
    qed
    ultimately show ?thesis using today by simp
  qed
qed

text \<open>The date that labels a container is the right one: for every number of days since the first of
  January 1970, the arithmetic of \<^verbatim>\<open>days_to_ymd\<close> gives the date that the Gregorian calendar
  reaches by counting that many days forward.\<close>

theorem days_to_ymd_counts_days: "days_to_ymd (int n) = (next_day ^^ n) (1970, 1, 1)"
proof (induction n)
  case 0
  show ?case by code_simp
next
  case (Suc n)
  then show ?case using days_to_ymd_next [of "int n"] by (simp add: add.commute)
qed

end
