(* ===== verification/Podman.thy ===== *)
theory Podman
  imports Backend Text Calendar
begin

text \<open>
  The Podman backend, \<^verbatim>\<open>nexal-gateway/src/backend/podman.rs\<close>: the command lines it
  builds, the order in which it runs them, and how it reads their results.  The \<^verbatim>\<open>podman\<close>
  program, the clock and the passing of time are arguments; the output of a command is the text
  that \<^verbatim>\<open>from_utf8_lossy\<close> makes of it.
\<close>

section \<open>The host\<close>

record Output =
  o_success :: bool
  o_status :: string
  o_stdout :: string
  o_stderr :: string

record 'w PodmanHost =
  ph_run :: "string \<Rightarrow> string list \<Rightarrow> 'w \<Rightarrow> 'w \<times> (string, Output) result"
  ph_now :: "'w \<Rightarrow> nat"
  ph_sleep :: "nat \<Rightarrow> 'w \<Rightarrow> 'w"

record PodmanBackend =
  podman_bin :: string
  runtime :: "string option"

definition podman_new :: "string option \<Rightarrow> string option \<Rightarrow> PodmanBackend" where
  "podman_new bin rt =
     \<lparr>podman_bin = (case bin of Some b \<Rightarrow> b | None \<Rightarrow> ''podman''), runtime = rt\<rparr>"

definition CONTAINER_WS_PORT :: nat where
  "CONTAINER_WS_PORT = 9100"

section \<open>Commands\<close>

fun join_args :: "string list \<Rightarrow> string" where
  "join_args [] = []"
| "join_args [a] = a"
| "join_args (a # b # as) = a @ '' '' @ join_args (b # as)"

definition podman ::
  "'w PodmanHost \<Rightarrow> PodmanBackend \<Rightarrow> string list \<Rightarrow> 'w \<Rightarrow> 'w \<times> (BackendError, string) result" where
  "podman host self args w =
     (case ph_run host (podman_bin self) args w of
        (w, Inl e) \<Rightarrow> (w, Err (Io (''spawn podman: '' @ e)))
      | (w, Inr out) \<Rightarrow>
          if \<not> o_success out
          then (w, Err (Cli (''podman '' @ join_args args @ '' '' @ [CHR 0xE2, CHR 0x86, CHR 0x92] @
                  '' exit '' @ o_status out @ '': '' @ trim (o_stderr out))))
          else (w, Ok (o_stdout out)))"

definition container_exists ::
  "'w PodmanHost \<Rightarrow> PodmanBackend \<Rightarrow> string \<Rightarrow> 'w \<Rightarrow> 'w \<times> (BackendError, bool) result" where
  "container_exists host self name w =
     (case ph_run host (podman_bin self) [''container'', ''exists'', name] w of
        (w, Inl e) \<Rightarrow> (w, Err (Io (''spawn podman: '' @ e)))
      | (w, Inr out) \<Rightarrow> (w, Ok (o_success out)))"

text \<open>\<^verbatim>\<open>lines().next()\<close>: the text up to the first line feed, less a carriage return before it.\<close>

definition first_line :: "string \<Rightarrow> string option" where
  "first_line s =
     (if s = [] then None
      else let l = takeWhile (\<lambda>c. c \<noteq> CHR 0x0A) s
           in Some (if l \<noteq> s \<and> l \<noteq> [] \<and> last l = CHR 0x0D then butlast l else l))"

definition port_turn ::
  "'w PodmanHost \<Rightarrow> PodmanBackend \<Rightarrow> string \<Rightarrow> string \<Rightarrow> 'w \<Rightarrow> 'w \<times> string option" where
  "port_turn host self container_name port_arg w =
     (case podman host self [''port'', container_name, port_arg] w of
        (w, Inr out) \<Rightarrow>
          (case first_line out of
             Some line \<Rightarrow>
               let trimmed = trim line
               in if trimmed \<noteq> [] then (w, Some trimmed) else (ph_sleep host 200 w, None)
           | None \<Rightarrow> (ph_sleep host 200 w, None))
      | (w, Inl _) \<Rightarrow> (ph_sleep host 200 w, None))"

definition discover_host_port ::
  "'w PodmanHost \<Rightarrow> PodmanBackend \<Rightarrow> string \<Rightarrow> nat \<Rightarrow> 'w \<Rightarrow> 'w \<times> (BackendError, string) result" where
  "discover_host_port host self container_name port w =
     (case poll 30 (port_turn host self container_name (dec port @ ''/tcp'')) w of
        (w, Some addr) \<Rightarrow> (w, Ok addr)
      | (w, None) \<Rightarrow> (w, Err (PortDiscovery (container_name @ '':'' @ dec port))))"

definition discover_url ::
  "'w PodmanHost \<Rightarrow> PodmanBackend \<Rightarrow> string \<Rightarrow> 'w \<Rightarrow> 'w \<times> (BackendError, string) result" where
  "discover_url host self container_name w =
     and_then (discover_host_port host self container_name CONTAINER_WS_PORT w)
       (\<lambda>addr w. (w, Ok (''ws://'' @ addr)))"

fun discover_extra_ports ::
  "'w PodmanHost \<Rightarrow> PodmanBackend \<Rightarrow> string \<Rightarrow> nat list \<Rightarrow> (nat, string) hashmap \<Rightarrow> 'w \<Rightarrow> 'w \<times> (nat, string) hashmap" where
  "discover_extra_ports host self container_name [] ports w = (w, ports)"
| "discover_extra_ports host self container_name (port # rest) ports w =
     (case discover_host_port host self container_name port w of
        (w, Inr addr) \<Rightarrow> discover_extra_ports host self container_name rest (hm_insert port addr ports) w
      | (w, Inl e) \<Rightarrow> discover_extra_ports host self container_name rest ports w)"

definition copy_agent_binary ::
  "'w PodmanHost \<Rightarrow> PodmanBackend \<Rightarrow> ContainerSpec \<Rightarrow> 'w \<Rightarrow> 'w \<times> (BackendError, unit) result" where
  "copy_agent_binary host self spec w =
     (if \<not> utf8_valid (map of_char (cs_agent_bin spec))
      then (w, Err (Io ''agent_bin path is not utf-8''))
      else and_then
             (podman host self
                [''cp'', cs_agent_bin spec, cs_name spec @ '':/usr/local/bin/nexal-agent''] w)
             (\<lambda>_ w. (w, Ok ())))"

section \<open>The argument vector of a creation\<close>

definition opt_arg :: "string \<Rightarrow> string option \<Rightarrow> string list" where
  "opt_arg flag v = (case v of Some x \<Rightarrow> [flag @ x] | None \<Rightarrow> [])"

definition create_options :: "PodmanBackend \<Rightarrow> ContainerSpec \<Rightarrow> nat \<Rightarrow> string list" where
  "create_options self spec now =
     [''--userns=keep-id'', ''--security-opt=no-new-privileges'', ''--cap-drop=ALL'',
      ''--workdir=/workspace'', ''--label=app=nexal'', ''--label=nexal.kind=worker'',
      ''--label=nexal.session='' @ cs_name spec, ''--label=nexal.created='' @ iso_now now,
      ''--publish=127.0.0.1::'' @ dec CONTAINER_WS_PORT @ ''/tcp''] @
     opt_arg ''--runtime='' (runtime self) @
     opt_arg ''--memory='' (cs_memory spec) @
     opt_arg ''--cpus='' (cs_cpus spec) @
     opt_arg ''--pids-limit='' (map_option dec (cs_pids_limit spec)) @
     map (\<lambda>(k, v). ''--env='' @ k @ ''='' @ v) (cs_env spec) @
     map (\<lambda>(k, v). ''--label='' @ k @ ''='' @ v) (cs_labels spec) @
     [''--network=pasta''] @
     (if cs_network spec then [''--dns=1.1.1.1'', ''--dns=8.8.8.8''] else []) @
     (if cs_fuse spec then [''--device=/dev/fuse'', ''--cap-add=SYS_ADMIN''] else []) @
     map (\<lambda>port. ''--publish=127.0.0.1::'' @ dec port @ ''/tcp'') (cs_extra_ports spec) @
     opt_arg ''--volume='' (map_option (\<lambda>vol. vol @ '':/workspace'') (cs_workspace_volume spec))"

definition create_args :: "PodmanBackend \<Rightarrow> ContainerSpec \<Rightarrow> nat \<Rightarrow> string list" where
  "create_args self spec now =
     [''create'', ''--name'', cs_name spec] @ create_options self spec now @
     [cs_image spec, ''/usr/local/bin/nexal-agent'', ''--listen'',
      ''ws://[::]:'' @ dec CONTAINER_WS_PORT]"

section \<open>The backend\<close>

definition ensure_handle ::
  "'w PodmanHost \<Rightarrow> PodmanBackend \<Rightarrow> ContainerSpec \<Rightarrow> 'w \<Rightarrow> 'w \<times> (BackendError, ContainerHandle) result" where
  "ensure_handle host self spec w =
     and_then (discover_url host self (cs_name spec) w) (\<lambda>url w.
       case discover_extra_ports host self (cs_name spec) (cs_extra_ports spec) [] w of
         (w, port_map) \<Rightarrow>
           (w, Ok \<lparr>ch_name = cs_name spec, ch_url = url, ch_port_map = port_map\<rparr>))"

definition podman_reuse ::
  "'w PodmanHost \<Rightarrow> PodmanBackend \<Rightarrow> ContainerSpec \<Rightarrow> 'w \<Rightarrow> 'w \<times> (BackendError, ContainerHandle) result" where
  "podman_reuse host self spec w =
     (let w = fst (podman host self [''stop'', cs_name spec] w)
      in and_then (copy_agent_binary host self spec w) (\<lambda>_ w.
           let w = fst (podman host self [''start'', cs_name spec] w)
           in ensure_handle host self spec w))"

definition podman_create ::
  "'w PodmanHost \<Rightarrow> PodmanBackend \<Rightarrow> ContainerSpec \<Rightarrow> 'w \<Rightarrow> 'w \<times> (BackendError, ContainerHandle) result" where
  "podman_create host self spec w =
     and_then (podman host self (create_args self spec (ph_now host w)) w) (\<lambda>_ w.
     and_then (copy_agent_binary host self spec w) (\<lambda>_ w.
     and_then (podman host self [''start'', cs_name spec] w) (\<lambda>_ w.
       let w = fst (podman host self
                 [''exec'', cs_name spec, ''/bin/sh'', ''-c'', ''mkdir -p /run/nexal/proxy''] w)
       in ensure_handle host self spec w)))"

definition podman_ensure ::
  "'w PodmanHost \<Rightarrow> PodmanBackend \<Rightarrow> ContainerSpec \<Rightarrow> 'w \<Rightarrow> 'w \<times> (BackendError, ContainerHandle) result" where
  "podman_ensure host self spec w =
     and_then (container_exists host self (cs_name spec) w) (\<lambda>found w.
       if found then podman_reuse host self spec w else podman_create host self spec w)"

definition podman_destroy ::
  "'w PodmanHost \<Rightarrow> PodmanBackend \<Rightarrow> string \<Rightarrow> 'w \<Rightarrow> 'w \<times> (BackendError, unit) result" where
  "podman_destroy host self name w = (fst (podman host self [''rm'', ''-f'', name] w), Ok ())"

definition podman_backend :: "'w PodmanHost \<Rightarrow> PodmanBackend \<Rightarrow> 'w ContainerBackend" where
  "podman_backend host self =
     \<lparr>be_ensure = podman_ensure host self, be_destroy = podman_destroy host self,
      be_exists = container_exists host self, be_url = discover_url host self\<rparr>"

section \<open>Interface\<close>

lemma ensure_handle_name: "ensure_handle host self spec w = (w', Inr h) \<Longrightarrow> ch_name h = cs_name spec"
  by (auto simp: ensure_handle_def and_then_eq_Ok case_prod_beta)

lemma podman_ensure_name: "podman_ensure host self spec w = (w', Inr h) \<Longrightarrow> ch_name h = cs_name spec"
  by (auto simp: podman_ensure_def podman_reuse_def podman_create_def and_then_eq_Ok Let_def
      dest!: ensure_handle_name split: if_splits)

interpretation podman: container_backend "podman_backend host self" "\<lambda>n. n"
  by unfold_locales (auto simp: podman_backend_def podman_ensure_name)

section \<open>The life of a container\<close>

text \<open>What the Podman documentation says of the commands the backend runs, as hypotheses on the
  program: which containers are present (\<open>has\<close>) changes by \<^verbatim>\<open>create\<close> and
  \<^verbatim>\<open>rm\<close> of the named container only, and \<^verbatim>\<open>container exists\<close> reports it.\<close>

definition runs :: "'w PodmanHost \<Rightarrow> PodmanBackend \<Rightarrow> string list \<Rightarrow> 'w \<Rightarrow> 'w" where
  "runs host self args w = fst (ph_run host (podman_bin self) args w)"

definition succeeds :: "'w PodmanHost \<Rightarrow> PodmanBackend \<Rightarrow> string list \<Rightarrow> 'w \<Rightarrow> bool" where
  "succeeds host self args w =
     (case snd (ph_run host (podman_bin self) args w) of Inr out \<Rightarrow> o_success out | Inl _ \<Rightarrow> False)"

definition podman_engine :: "('w \<Rightarrow> string \<Rightarrow> bool) \<Rightarrow> 'w PodmanHost \<Rightarrow> PodmanBackend \<Rightarrow> bool" where
  "podman_engine has host self \<longleftrightarrow>
     (\<forall>n w out. snd (ph_run host (podman_bin self) [''container'', ''exists'', n] w) = Inr out \<longrightarrow>
        o_success out = has w n) \<and>
     (\<forall>args w. hd args \<noteq> ''create'' \<and> hd args \<noteq> ''rm'' \<longrightarrow> has (runs host self args w) = has w) \<and>
     (\<forall>n opts w. has (runs host self (''create'' # ''--name'' # n # opts) w) =
        (if succeeds host self (''create'' # ''--name'' # n # opts) w then (has w)(n := True) else has w)) \<and>
     (\<forall>n w. has (runs host self [''rm'', ''-f'', n] w) =
        (if succeeds host self [''rm'', ''-f'', n] w then (has w)(n := False) else has w)) \<and>
     (\<forall>ms w. has (ph_sleep host ms w) = has w)"

lemma fst_podman: "fst (podman host self args w) = runs host self args w"
  by (simp add: podman_def runs_def split: prod.splits sum.splits)

lemma podman_Ok: "podman host self args w = (w', Inr out) \<Longrightarrow> succeeds host self args w"
  by (auto simp: podman_def succeeds_def split: prod.splits sum.splits if_splits)

lemma engine_keeps:
  "podman_engine has host self \<Longrightarrow> hd args \<noteq> ''create'' \<Longrightarrow> hd args \<noteq> ''rm'' \<Longrightarrow>
     has (runs host self args w) = has w"
  by (simp add: podman_engine_def)

lemma engine_sleep: "podman_engine has host self \<Longrightarrow> has (ph_sleep host ms w) = has w"
  by (simp add: podman_engine_def)

lemma podman_keeps:
  assumes "podman_engine has host self" "hd args \<noteq> ''create''" "hd args \<noteq> ''rm''"
  shows "has (fst (podman host self args w)) = has w"
  using engine_keeps [OF assms] by (simp add: fst_podman)

lemma container_exists_reports:
  assumes "podman_engine has host self"
  shows "has (fst (container_exists host self n w)) = has w"
    and "snd (container_exists host self n w) = Inr b \<Longrightarrow> b = has w n"
proof -
  have "fst (container_exists host self n w) = runs host self [''container'', ''exists'', n] w"
    by (simp add: container_exists_def runs_def split: prod.splits sum.splits)
  then show "has (fst (container_exists host self n w)) = has w" using engine_keeps [OF assms] by simp
  assume "snd (container_exists host self n w) = Inr b"
  then show "b = has w n" using assms
    by (auto simp: container_exists_def podman_engine_def split: prod.splits sum.splits) (metis snd_conv)+
qed

lemma discover_host_port_keeps:
  assumes "podman_engine has host self"
  shows "has (fst (discover_host_port host self n p w)) = has w"
proof -
  have turn: "has (fst (port_turn host self n a v)) = has v" for a v
    using podman_keeps [OF assms, of "[''port'', n, a]" v] engine_sleep [OF assms]
    by (auto simp: port_turn_def Let_def split: prod.splits sum.splits option.splits)
  have "has (fst (poll 30 (port_turn host self n (dec p @ ''/tcp'')) w)) = has w"
    by (rule poll_keeps [where P = "\<lambda>v. has v = has w"]) (simp_all add: turn)
  then show ?thesis by (auto simp: discover_host_port_def split: prod.splits option.splits)
qed

lemma discover_url_keeps:
  assumes "podman_engine has host self"
  shows "has (fst (discover_url host self n w)) = has w"
  unfolding discover_url_def
  by (rule and_then_keeps [where P = "\<lambda>v. has v = has w"]) (simp_all add: discover_host_port_keeps [OF assms])

lemma discover_extra_ports_keeps:
  assumes "podman_engine has host self"
  shows "has (fst (discover_extra_ports host self n ps m w)) = has w"
proof (induction ps arbitrary: m w)
  case (Cons p ps)
  then show ?case using discover_host_port_keeps [OF assms, of n p w] by (auto split: prod.splits sum.splits)
qed simp

lemma ensure_handle_keeps:
  assumes "podman_engine has host self"
  shows "has (fst (ensure_handle host self spec w)) = has w"
  unfolding ensure_handle_def
  by (rule and_then_keeps [where P = "\<lambda>v. has v = has w"])
    (simp_all add: case_prod_beta discover_url_keeps [OF assms] discover_extra_ports_keeps [OF assms])

lemma copy_agent_binary_keeps:
  assumes "podman_engine has host self"
  shows "has (fst (copy_agent_binary host self spec w)) = has w"
proof -
  let ?cp = "[''cp'', cs_agent_bin spec, cs_name spec @ '':/usr/local/bin/nexal-agent'']"
  have "has (fst (and_then (podman host self ?cp w) (\<lambda>_ w. (w, Ok ())))) = has w"
    by (rule and_then_keeps [where P = "\<lambda>v. has v = has w"]) (simp_all add: podman_keeps [OF assms])
  then show ?thesis by (simp add: copy_agent_binary_def)
qed

lemmas podman_keeps_simps =
  podman_keeps ensure_handle_keeps copy_agent_binary_keeps discover_url_keeps

lemma podman_reuse_keeps:
  assumes "podman_engine has host self"
  shows "has (fst (podman_reuse host self spec w)) = has w"
  unfolding podman_reuse_def Let_def
  by (rule and_then_keeps [where P = "\<lambda>v. has v = has w"]) (simp_all add: podman_keeps_simps [OF assms])

lemma podman_create_adds:
  assumes "podman_engine has host self"
  shows "has (fst (podman_create host self spec w)) =
     (if succeeds host self (create_args self spec (ph_now host w)) w then (has w)(cs_name spec := True) else has w)"
proof -
  let ?args = "create_args self spec (ph_now host w)"
  let ?has = "if succeeds host self ?args w then (has w)(cs_name spec := True) else has w"
  have "has (fst (podman host self ?args w)) = ?has"
    using assms by (simp add: fst_podman create_args_def podman_engine_def)
  then show ?thesis unfolding podman_create_def Let_def
    by (intro and_then_keeps [where P = "\<lambda>v. has v = ?has"]) (simp_all add: podman_keeps_simps [OF assms])
qed

lemma podman_create_Ok:
  "podman_create host self spec w = (w', Inr h) \<Longrightarrow> succeeds host self (create_args self spec (ph_now host w)) w"
  by (auto simp: podman_create_def and_then_eq_Ok dest: podman_Ok)

lemma podman_ensure_life:
  assumes engine: "podman_engine has host self" and r: "podman_ensure host self spec w = (w', r)"
  shows "m \<noteq> cs_name spec \<Longrightarrow> has w' m = has w m" "has w (cs_name spec) \<Longrightarrow> has w' (cs_name spec)"
    "r = Ok h \<Longrightarrow> has w' (cs_name spec)"
proof -
  let ?n = "cs_name spec"
  obtain w1 found where e: "container_exists host self ?n w = (w1, found)" by force
  have w1: "has w1 = has w" and found: "found = Inr b \<Longrightarrow> b = has w ?n" for b
    using container_exists_reports [OF engine, of ?n w] e by auto
  have "has w' = has w \<and> (has w ?n \<or> (\<nexists>h. r = Ok h)) \<or> has w' = (has w)(?n := True)"
  proof (cases found)
    case (Inl e')
    then show ?thesis using e w1 r by (auto simp: podman_ensure_def)
  next
    case (Inr b)
    then show ?thesis
      using e r w1 found podman_reuse_keeps [OF engine, of spec w1] podman_create_adds [OF engine, of spec w1]
        podman_create_Ok [of host self spec w1 w'] by (auto simp: podman_ensure_def split: if_splits)
  qed
  then show "m \<noteq> ?n \<Longrightarrow> has w' m = has w m" "has w ?n \<Longrightarrow> has w' ?n" "r = Ok h \<Longrightarrow> has w' ?n" by auto
qed

section \<open>Properties\<close>


text \<open>An engine with these properties, on the list of present containers.\<close>

definition sample_out :: "bool \<Rightarrow> string \<Rightarrow> (string, Output) result" where
  "sample_out b s = Ok \<lparr>o_success = b, o_status = [], o_stdout = s, o_stderr = []\<rparr>"

definition sample_podman :: "string \<Rightarrow> string list \<Rightarrow> string list \<Rightarrow> string list \<times> (string, Output) result" where
  "sample_podman bin args w =
     (if hd args = ''create'' then
        (if length args < 3 \<or> args ! 2 \<in> set w then (w, sample_out False []) else (args ! 2 # w, sample_out True []))
      else if hd args = ''rm'' then
        (if length args < 3 then (w, sample_out False []) else (removeAll (args ! 2) w, sample_out True []))
      else if hd args = ''container'' then (w, sample_out (last args \<in> set w) [])
      else if hd args = ''port'' then (w, sample_out True ''127.0.0.1:4000'')
      else (w, sample_out True []))"

definition sample_host :: "string list PodmanHost" where
  "sample_host = \<lparr>ph_run = sample_podman, ph_now = (\<lambda>w. 0), ph_sleep = (\<lambda>ms w. w)\<rparr>"

definition sample_spec :: ContainerSpec where
  "sample_spec = pool_spec 0 (pool_new 1 ''img'' ''nexal-'' ''/bin/agent'' None None None True)"

lemma sample_engine: "podman_engine (\<lambda>w n. n \<in> set w) sample_host (podman_new None None)"
  unfolding podman_engine_def runs_def succeeds_def sample_host_def sample_podman_def sample_out_def
  by (auto simp: fun_eq_iff)

lemma sample_podman_run [simp]: "ph_run sample_host bin args w = sample_podman bin args w"
  by (simp add: sample_host_def)

lemma sample_port: "discover_host_port sample_host self n p w = (w, Ok ''127.0.0.1:4000'')"
proof -
  have "trim ''127.0.0.1:4000'' = ''127.0.0.1:4000''" by code_simp
  then have "port_turn sample_host self n a w = (w, Some ''127.0.0.1:4000'')" for a
    by (simp add: port_turn_def podman_def sample_podman_def sample_out_def first_line_def)
  then show ?thesis by (simp add: discover_host_port_def numeral_eq_Suc)
qed

lemma sample_ensure:
  "podman_ensure sample_host (podman_new None None) sample_spec [''other''] =
     ([''nexal-pool-0'', ''other''], Ok \<lparr>ch_name = ''nexal-pool-0'', ch_url = ''ws://127.0.0.1:4000'', ch_port_map = []\<rparr>)"
  by (simp add: podman_ensure_def podman_create_def copy_agent_binary_def ensure_handle_def discover_url_def sample_port
      container_exists_def podman_def sample_podman_def sample_out_def create_args_def sample_spec_def pool_spec_def
      pool_new_def podman_new_def dec_0)


text \<open>A removal that fails is not reported: the caller is told that the container is gone.\<close>

lemma podman_destroy_hides_failure: "snd (podman_destroy host self n w) = Ok ()"
  by (simp add: podman_destroy_def)

end
