(* ===== verification/Http_Api.thy ===== *)
theory Http_Api
  imports Backend Values
begin

text \<open>
  The HTTP client that the Fly and Sprites backends share: requests as the code builds them for
  \<^verbatim>\<open>reqwest\<close>, and the three ways an exchange ends.  Sending is an argument, with the text
  of a status and the passing of time; JSON bodies are handed over as values.
\<close>

datatype json =
    JNull
  | JBool bool
  | JNumber nat
  | JString string
  | JArray "json list"
  | JObject "(string \<times> json) list"

datatype http_method = GET | POST | PUT | DELETE

datatype http_body = NoBody | JsonBody json | BytesBody "byte list"

record HttpRequest =
  hr_method :: http_method
  hr_url :: string
  hr_bearer :: string
  hr_query :: "(string \<times> string) list"
  hr_body :: http_body

datatype http_reply = SendFails string | BodyFails string | Reply nat string

record 'w HttpHost =
  hh_send :: "HttpRequest \<Rightarrow> 'w \<Rightarrow> 'w \<times> http_reply"
  hh_status :: "nat \<Rightarrow> string"
  hh_sleep :: "nat \<Rightarrow> 'w \<Rightarrow> 'w"

definition is_success :: "nat \<Rightarrow> bool" where
  "is_success status \<longleftrightarrow> 200 \<le> status \<and> status < 300"

text \<open>Sending a request and reading its body, with the prefix of the two error texts.\<close>

definition exchange ::
  "'w HttpHost \<Rightarrow> string \<Rightarrow> HttpRequest \<Rightarrow> 'w \<Rightarrow> 'w \<times> (BackendError, nat \<times> string) result" where
  "exchange host what req w =
     (case hh_send host req w of
        (w, SendFails e) \<Rightarrow> (w, Err (Io (what @ '': '' @ e)))
      | (w, BodyFails e) \<Rightarrow> (w, Err (Io (what @ '': read body: '' @ e)))
      | (w, Reply status body) \<Rightarrow> (w, Ok (status, body)))"

text \<open>\<^verbatim>\<open>json[key] = v\<close> on an object.\<close>

definition json_set :: "string \<Rightarrow> json \<Rightarrow> json \<Rightarrow> json" where
  "json_set key v j = (case j of JObject kvs \<Rightarrow> JObject (AList.update key v kvs) | _ \<Rightarrow> j)"

lemma exchange_eq_Ok:
  "exchange host what req w = (w', Inr (status, body)) \<longleftrightarrow> hh_send host req w = (w', Reply status body)"
  by (auto simp: exchange_def split: prod.splits http_reply.splits)

end
