(* ===== verification/F64.thy ===== *)
theory F64
  imports Complex_Main Prelude
begin

text \<open>
  The part of Rust's \<^verbatim>\<open>f64\<close> that the sources compute with: IEEE 754 double precision with
  rounding to nearest, ties to even, subnormal numbers and overflow to infinity.  A finite number
  is the rational it denotes; the sign of zero is not kept, no operation here can tell it.
\<close>

section \<open>Definitions\<close>

datatype f64 = Fin rat | Infinite bool | NaN

definition round_half_even :: "rat \<Rightarrow> int" where
  "round_half_even x =
     (let f = \<lfloor>x\<rfloor>; r = x - of_int f
      in if r < 1 / 2 then f else if 1 / 2 < r then f + 1 else if even f then f else f + 1)"

text \<open>The exponent of a magnitude: the greatest \<open>e \<le> 1023\<close> with \<open>2^e \<le> x\<close>, but at
  least \<open>-1022\<close>.\<close>

fun exp_search :: "rat \<Rightarrow> nat \<Rightarrow> int" where
  "exp_search x 0 = - 1022"
| "exp_search x (Suc n) =
     (let e = int n - 1021 in if 2 powi e \<le> x then e else exp_search x n)"

definition f64_exp :: "rat \<Rightarrow> int" where
  "f64_exp x = exp_search x 2045"

definition f64_mag :: "rat \<Rightarrow> rat" where
  "f64_mag x = (let q = 2 powi (f64_exp x - 52) in of_int (round_half_even (x / q)) * q)"

definition f64_round :: "rat \<Rightarrow> f64" where
  "f64_round x =
     (let m = f64_mag \<bar>x\<bar>
      in if 2 ^ 1024 \<le> m then Infinite (x < 0) else Fin (if x < 0 then - m else m))"

definition f64_of_nat :: "nat \<Rightarrow> f64" where
  "f64_of_nat n = f64_round (of_nat n)"

fun f64_mul :: "f64 \<Rightarrow> f64 \<Rightarrow> f64" where
  "f64_mul (Fin a) (Fin b) = f64_round (a * b)"
| "f64_mul (Fin a) (Infinite s) = (if a = 0 then NaN else Infinite (s \<noteq> (a < 0)))"
| "f64_mul (Infinite s) (Fin b) = (if b = 0 then NaN else Infinite (s \<noteq> (b < 0)))"
| "f64_mul (Infinite s) (Infinite t) = Infinite (s \<noteq> t)"
| "f64_mul NaN _ = NaN"
| "f64_mul _ NaN = NaN"

fun f64_add :: "f64 \<Rightarrow> f64 \<Rightarrow> f64" where
  "f64_add (Fin a) (Fin b) = f64_round (a + b)"
| "f64_add (Fin a) (Infinite s) = Infinite s"
| "f64_add (Infinite s) (Fin b) = Infinite s"
| "f64_add (Infinite s) (Infinite t) = (if s = t then Infinite s else NaN)"
| "f64_add NaN _ = NaN"
| "f64_add _ NaN = NaN"

text \<open>Division by a positive finite number.\<close>

fun f64_div_pos :: "f64 \<Rightarrow> rat \<Rightarrow> f64" where
  "f64_div_pos (Fin a) b = f64_round (a / b)"
| "f64_div_pos (Infinite s) b = Infinite s"
| "f64_div_pos NaN b = NaN"

text \<open>\<^verbatim>\<open>f64::min\<close> ignores a NaN.\<close>

fun f64_min :: "f64 \<Rightarrow> f64 \<Rightarrow> f64" where
  "f64_min NaN y = y"
| "f64_min x NaN = x"
| "f64_min (Fin a) (Fin b) = Fin (min a b)"
| "f64_min (Fin a) (Infinite s) = (if s then Infinite s else Fin a)"
| "f64_min (Infinite s) (Fin b) = (if s then Infinite s else Fin b)"
| "f64_min (Infinite s) (Infinite t) = Infinite (s \<or> t)"

text \<open>\<^verbatim>\<open>x.round() as u64\<close>: halves away from zero, then a saturating cast that sends NaN
  to zero.\<close>

definition saturate_u64 :: "int \<Rightarrow> nat" where
  "saturate_u64 i = nat (max 0 (min i (2 ^ 64 - 1)))"

fun f64_round_as_u64 :: "f64 \<Rightarrow> nat" where
  "f64_round_as_u64 (Fin a) = saturate_u64 (if a < 0 then - \<lfloor>- a + 1 / 2\<rfloor> else \<lfloor>a + 1 / 2\<rfloor>)"
| "f64_round_as_u64 (Infinite s) = (if s then 0 else 2 ^ 64 - 1)"
| "f64_round_as_u64 NaN = 0"

text \<open>The truncating cast \<^verbatim>\<open>x as u64\<close>.\<close>

fun f64_as_u64 :: "f64 \<Rightarrow> nat" where
  "f64_as_u64 (Fin a) = saturate_u64 (if a < 0 then - \<lfloor>- a\<rfloor> else \<lfloor>a\<rfloor>)"
| "f64_as_u64 (Infinite s) = (if s then 0 else 2 ^ 64 - 1)"
| "f64_as_u64 NaN = 0"

section \<open>Rounding\<close>

lemma round_half_even_int [simp]: "round_half_even (of_int i) = i"
  by (simp add: round_half_even_def)

lemma round_half_even_bounds: "\<lfloor>x\<rfloor> \<le> round_half_even x" "round_half_even x \<le> \<lfloor>x\<rfloor> + 1"
  by (simp_all add: round_half_even_def Let_def)

lemma round_half_even_mono:
  assumes "x \<le> y"
  shows "round_half_even x \<le> round_half_even y"
proof (cases "\<lfloor>x\<rfloor> = \<lfloor>y\<rfloor>")
  case True
  then show ?thesis using assms by (auto simp: round_half_even_def Let_def)
next
  case False
  then have "\<lfloor>x\<rfloor> + 1 \<le> \<lfloor>y\<rfloor>" using floor_mono [OF assms] by linarith
  then show ?thesis using round_half_even_bounds(2) [of x] round_half_even_bounds(1) [of y] by linarith
qed

lemma exp_search_range: "- 1022 \<le> exp_search x n \<and> exp_search x n \<le> int n - 1022"
  by (induction n) (auto simp: Let_def)

lemma exp_search_le: "exp_search x n \<noteq> - 1022 \<Longrightarrow> 2 powi (exp_search x n) \<le> x"
  by (induction n) (auto simp: Let_def split: if_splits)

lemma exp_search_gt:
  "exp_search x n < e \<Longrightarrow> e \<le> int n - 1022 \<Longrightarrow> x < 2 powi e"
proof (induction n)
  case (Suc n)
  show ?case
  proof (cases "2 powi (int n - 1021) \<le> x")
    case False
    then show ?thesis using Suc by (cases "e = int n - 1021") (auto simp: Let_def)
  qed (use Suc.prems in \<open>auto simp: Let_def\<close>)
qed simp

lemma two_powi_mono: "a \<le> b \<Longrightarrow> (2::rat) powi a \<le> 2 powi b"
  by (rule power_int_increasing) simp_all

lemma two_powi_pos [simp]: "0 < (2::rat) powi a"
  by (simp add: zero_less_power_int)

lemma f64_exp_range: "- 1022 \<le> f64_exp x" "f64_exp x \<le> 1023"
  using exp_search_range [of x 2045] by (simp_all add: f64_exp_def)

lemma f64_exp_gt: "f64_exp x < e \<Longrightarrow> e \<le> 1023 \<Longrightarrow> x < 2 powi e"
  using exp_search_gt [of x 2045 e] by (simp add: f64_exp_def)

lemma f64_exp_le: "f64_exp x \<noteq> - 1022 \<Longrightarrow> 2 powi (f64_exp x) \<le> x"
  unfolding f64_exp_def by (rule exp_search_le)

lemma f64_exp_mono:
  assumes "x \<le> y"
  shows "f64_exp x \<le> f64_exp y"
proof (rule ccontr)
  assume "\<not> f64_exp x \<le> f64_exp y"
  then have lt: "f64_exp y < f64_exp x" by simp
  then have "y < 2 powi (f64_exp x)" using f64_exp_gt [of y "f64_exp x"] f64_exp_range(2) [of x] by simp
  moreover have "f64_exp x \<noteq> - 1022" using lt f64_exp_range(1) [of y] by simp
  ultimately show False using f64_exp_le [of x] assms by simp
qed

text \<open>Multiples of the quantum of an exponent are fixed by rounding.\<close>

lemma f64_mag_at: "x = of_int i * 2 powi (f64_exp x - 52) \<Longrightarrow> f64_mag x = x"
  by (simp add: f64_mag_def Let_def) (metis nonzero_mult_div_cancel_right round_half_even_int two_powi_pos less_irrefl)

lemma f64_mag_below:
  assumes "x \<le> of_int i * 2 powi (f64_exp x - 52)"
  shows "f64_mag x \<le> of_int i * 2 powi (f64_exp x - 52)"
proof -
  let ?q = "(2::rat) powi (f64_exp x - 52)"
  have "x / ?q \<le> of_int i" using assms by (simp add: divide_le_eq)
  then have "round_half_even (x / ?q) \<le> i"
    using round_half_even_mono [of "x / ?q" "of_int i"] by simp
  then have "(of_int (round_half_even (x / ?q)) :: rat) \<le> of_int i" by simp
  then show ?thesis by (simp add: f64_mag_def Let_def mult_right_mono)
qed

lemma f64_mag_above:
  assumes "of_int i * 2 powi (f64_exp x - 52) \<le> x"
  shows "of_int i * 2 powi (f64_exp x - 52) \<le> f64_mag x"
proof -
  let ?q = "(2::rat) powi (f64_exp x - 52)"
  have "of_int i \<le> x / ?q" using assms by (simp add: le_divide_eq)
  then have "i \<le> round_half_even (x / ?q)"
    using round_half_even_mono [of "of_int i" "x / ?q"] by simp
  then have "(of_int i :: rat) \<le> of_int (round_half_even (x / ?q))" by simp
  then show ?thesis by (simp add: f64_mag_def Let_def mult_right_mono)
qed

lemma f64_mag_mono:
  assumes "0 \<le> x" "x \<le> y"
  shows "f64_mag x \<le> f64_mag y"
proof (cases "f64_exp x = f64_exp y")
  case True
  have "x / 2 powi (f64_exp y - 52) \<le> y / 2 powi (f64_exp y - 52)"
    using assms(2) by (simp add: divide_right_mono)
  from round_half_even_mono [OF this] show ?thesis
    by (simp add: f64_mag_def Let_def True mult_right_mono)
next
  case False
  then have lt: "f64_exp x + 1 \<le> f64_exp y" using f64_exp_mono [OF assms(2)] by simp
  let ?b = "(2::rat) powi (f64_exp x + 1)"
  have up: "?b = of_int (2 ^ 53) * 2 powi (f64_exp x - 52)"
    using power_int_add [of "2::rat" 53 "f64_exp x - 52"] by (simp add: algebra_simps)
  have "x < ?b" using f64_exp_gt [of x "f64_exp x + 1"] lt f64_exp_range(2) [of y] by simp
  then have "f64_mag x \<le> ?b" unfolding up by (intro f64_mag_below) simp
  also have "?b \<le> 2 powi (f64_exp y)" by (rule two_powi_mono [OF lt])
  also have "2 powi (f64_exp y) \<le> f64_mag y"
  proof -
    have e: "2 powi (f64_exp y) = of_int (2 ^ 52) * (2::rat) powi (f64_exp y - 52)"
      using power_int_add [of "2::rat" 52 "f64_exp y - 52"] by simp
    have "2 powi (f64_exp y) \<le> y" using f64_exp_le [of y] lt f64_exp_range(1) [of x] by simp
    then show ?thesis unfolding e by (intro f64_mag_above) simp
  qed
  finally show ?thesis .
qed

lemma f64_mag_nat:
  assumes "n \<le> 2 ^ 53"
  shows "f64_mag (of_nat n) = of_nat n"
proof -
  let ?x = "of_nat n :: rat" and ?q = "2 powi (f64_exp (of_nat n) - 52) :: rat"
  have xle: "?x \<le> 2 powi (53::int)"
    using assms by (metis of_nat_le_iff of_nat_numeral of_nat_power power_int_numeral)
  have "f64_exp ?x \<le> 53"
  proof (rule ccontr)
    assume "\<not> f64_exp ?x \<le> 53"
    then have "2 powi 54 \<le> (2::rat) powi (f64_exp ?x)" by (intro two_powi_mono) simp
    also have "\<dots> \<le> ?x" using f64_exp_le [of ?x] \<open>\<not> f64_exp ?x \<le> 53\<close> by simp
    finally show False using xle by simp
  qed
  then consider "f64_exp ?x \<le> 52" | "f64_exp ?x = 53" by linarith
  then show ?thesis
  proof cases
    case 1
    then have "?q * 2 powi (52 - f64_exp ?x) = 1" by (simp add: power_int_add [symmetric])
    moreover have "(2::rat) powi (52 - f64_exp ?x) = of_int (2 ^ nat (52 - f64_exp ?x))"
      using 1 by (simp add: power_int_def)
    ultimately have "?x = of_int (int n * 2 ^ nat (52 - f64_exp ?x)) * ?q"
      by (simp add: mult.commute mult.left_commute)
    then show ?thesis by (rule f64_mag_at)
  next
    case 2
    then have "2 powi 53 \<le> ?x" using f64_exp_le [of ?x] by simp
    then have "?x = 2 powi 53" using xle by simp
    moreover have "?q = 2" by (simp only: 2) simp
    ultimately have "?x = of_int (2 ^ 52) * ?q" by (simp only:) simp
    then show ?thesis by (rule f64_mag_at)
  qed
qed

section \<open>Rounded sums and products in an interval\<close>

text \<open>The two facts on rounding that interval arguments need: it is monotone and fixes natural
  numbers up to \<open>2^53\<close>.\<close>

lemma f64_round_between:
  assumes "of_nat a \<le> x" "x \<le> of_nat b" "b \<le> 2 ^ 53"
  shows "\<exists>r. f64_round x = Fin r \<and> of_nat a \<le> r \<and> r \<le> of_nat b"
proof -
  have x: "0 \<le> x" using assms(1) by (meson of_nat_0_le_iff order_trans)
  have ab: "a \<le> b" using assms(1,2) by (meson of_nat_le_iff order_trans)
  have "f64_mag x \<le> f64_mag (of_nat b)" by (rule f64_mag_mono [OF x assms(2)])
  then have hi: "f64_mag x \<le> of_nat b" by (simp only: f64_mag_nat [OF assms(3)])
  have "f64_mag (of_nat a) \<le> f64_mag x" by (rule f64_mag_mono [OF of_nat_0_le_iff assms(1)])
  then have lo: "of_nat a \<le> f64_mag x" using f64_mag_nat [of a] ab assms(3) by simp
  have "(of_nat b :: rat) \<le> of_nat (2 ^ 53)" using assms(3) by (simp only: of_nat_le_iff)
  then have "f64_mag x < 2 ^ 1024" using hi by simp
  then show ?thesis using x lo hi by (simp add: f64_round_def Let_def)
qed

lemma f64_round_at_least:
  assumes "of_nat a \<le> x" "a \<le> 2 ^ 53"
  shows "f64_round x = Infinite False \<or> (\<exists>r. f64_round x = Fin r \<and> of_nat a \<le> r)"
proof -
  have x: "0 \<le> x" using assms(1) by (meson of_nat_0_le_iff order_trans)
  have "f64_mag (of_nat a) \<le> f64_mag x" by (rule f64_mag_mono [OF of_nat_0_le_iff assms(1)])
  then have "of_nat a \<le> f64_mag x" by (simp only: f64_mag_nat [OF assms(2)])
  then show ?thesis using x by (simp add: f64_round_def Let_def)
qed

lemma f64_of_nat_exact: "n \<le> 2 ^ 53 \<Longrightarrow> f64_of_nat n = Fin (of_nat n)"
  using f64_round_between [of n "of_nat n" n] by (auto simp: f64_of_nat_def)

lemma f64_round_as_u64_between:
  assumes "of_nat a \<le> r" "r \<le> of_nat b" "b < 2 ^ 64"
  shows "a \<le> f64_round_as_u64 (Fin r) \<and> f64_round_as_u64 (Fin r) \<le> b"
proof -
  have r: "0 \<le> r" using assms(1) by (meson of_nat_0_le_iff order_trans)
  have "int a \<le> \<lfloor>r + 1 / 2\<rfloor>" using assms(1) by (simp add: le_floor_iff)
  moreover have "\<lfloor>r + 1 / 2\<rfloor> < int b + 1"
    unfolding floor_less_iff using assms(2) by simp
  moreover have "int b < 2 ^ 64" using assms(3) by (metis of_nat_less_iff of_nat_numeral of_nat_power)
  ultimately show ?thesis using r by (simp add: saturate_u64_def nat_le_iff le_nat_iff)
qed

end
