(* ===== verification/Fly.thy ===== *)
theory Fly
  imports Http_Api Text F64
begin

text \<open>
  The Fly backend, \<^verbatim>\<open>nexal-gateway/src/backend/fly.rs\<close>: machines found, created,
  started and awaited through the Machines API, and the sizes of a machine from the memory and
  CPU settings.  The API and the decoding of its JSON answers are arguments.
\<close>

section \<open>Configuration\<close>

definition AGENT_WS_PORT :: nat where
  "AGENT_WS_PORT = 9100"

record FlyConfig =
  fc_api_token :: string
  fc_app :: string
  fc_region :: "string option"
  fc_api_base :: "string option"
  fc_agent_bin_path :: "string option"

record FlyBackend =
  fly_token :: string
  fly_app :: string
  fly_region :: "string option"
  fly_api_base :: string
  fly_agent_bin :: string

record Machine =
  m_id :: string
  m_name :: "string option"
  m_state :: string
  m_private_ip :: "string option"

record FlyCodec =
  decode_machines :: "string \<Rightarrow> (string, Machine list) result"
  decode_machine :: "string \<Rightarrow> (string, Machine) result"

text \<open>The construction of the HTTP client can fail, with the given text.\<close>

definition fly_new :: "(string, unit) result \<Rightarrow> FlyConfig \<Rightarrow> (BackendError, FlyBackend) result" where
  "fly_new client cfg =
     (if fc_api_token cfg = [] then Err (Io ''fly backend requires backend.fly_api_token'')
      else if fc_app cfg = [] then Err (Io ''fly backend requires backend.fly_app'')
      else case client of
        Inl e \<Rightarrow> Err (Io (''build fly http client: '' @ e))
      | Inr _ \<Rightarrow> Ok
          \<lparr>fly_token = fc_api_token cfg, fly_app = fc_app cfg, fly_region = fc_region cfg,
           fly_api_base = trim_end_matches CHR ''/''
             (case fc_api_base cfg of Some b \<Rightarrow> b | None \<Rightarrow> ''https://api.machines.dev''),
           fly_agent_bin =
             (case fc_agent_bin_path cfg of Some b \<Rightarrow> b | None \<Rightarrow> ''/usr/local/bin/nexal-agent'')\<rparr>)"

section \<open>Sizes\<close>

text \<open>\<^verbatim>\<open>str::parse::<f64>\<close>: an optional sign, then infinity, NaN, or a decimal number with an
  optional exponent, rounded to the nearest double.\<close>

definition split_sign :: "string \<Rightarrow> bool \<times> string" where
  "split_sign s =
     (case s of
        c # r \<Rightarrow> if c = CHR ''-'' then (True, r) else if c = CHR ''+'' then (False, r) else (False, s)
      | [] \<Rightarrow> (False, s))"

definition parse_exponent :: "string \<Rightarrow> int option" where
  "parse_exponent s =
     (case split_sign s of (neg, ds) \<Rightarrow>
        if ds = [] \<or> \<not> list_all is_ascii_digit ds then None
        else Some (if neg then - int (undec ds) else int (undec ds)))"

definition parse_decimal :: "string \<Rightarrow> rat option" where
  "parse_decimal s =
     (let m = takeWhile (\<lambda>c. c \<noteq> CHR ''e'') s;
          i = takeWhile is_ascii_digit m;
          f = (case dropWhile is_ascii_digit m of
                 [] \<Rightarrow> Some []
               | c # ds \<Rightarrow> if c = CHR ''.'' \<and> list_all is_ascii_digit ds then Some ds else None);
          e = (case dropWhile (\<lambda>c. c \<noteq> CHR ''e'') s of [] \<Rightarrow> Some 0 | _ # r \<Rightarrow> parse_exponent r)
      in case (f, e) of
           (Some f, Some e) \<Rightarrow>
             if i = [] \<and> f = [] then None
             else Some (of_nat (undec (i @ f)) * 10 powi (e - int (length f)))
         | _ \<Rightarrow> None)"

definition parse_f64 :: "string \<Rightarrow> f64 option" where
  "parse_f64 s =
     (case split_sign s of (neg, body) \<Rightarrow>
        let body = to_ascii_lowercase body
        in if body = ''inf'' \<or> body = ''infinity'' then Some (Infinite neg)
           else if body = ''nan'' then Some NaN
           else map_option (\<lambda>x. f64_round (if neg then - x else x)) (parse_decimal body))"

text \<open>\<^verbatim>\<open>f64::max\<close> ignores a NaN.\<close>

fun f64_max :: "f64 \<Rightarrow> f64 \<Rightarrow> f64" where
  "f64_max NaN y = y"
| "f64_max x NaN = x"
| "f64_max (Fin a) (Fin b) = Fin (max a b)"
| "f64_max (Fin a) (Infinite s) = (if s then Fin a else Infinite s)"
| "f64_max (Infinite s) (Fin b) = (if s then Fin b else Infinite s)"
| "f64_max (Infinite s) (Infinite t) = Infinite (s \<and> t)"

fun f64_ceil :: "f64 \<Rightarrow> f64" where
  "f64_ceil (Fin a) = Fin (of_int \<lceil>a\<rceil>)"
| "f64_ceil x = x"

text \<open>The megabytes a setting asks for.  Lowercasing matters on ASCII only: the two other letters with an
  ASCII lowercase occur in no number.\<close>

definition requested_mb :: "string \<Rightarrow> f64" where
  "requested_mb s =
     (let s = to_ascii_lowercase (trim s);
          (num, mult) =
            (if s \<noteq> [] \<and> last s = CHR ''g'' then (butlast s, 1024)
             else if s \<noteq> [] \<and> last s = CHR ''m'' then (butlast s, 1)
             else (s, 1))
      in f64_mul (case parse_f64 (trim num) of Some x \<Rightarrow> x | None \<Rightarrow> Fin 512) (Fin mult))"

text \<open>The sum is a \<^verbatim>\<open>u64\<close> and wraps in a release build.\<close>

definition parse_memory_mb :: "string option \<Rightarrow> nat" where
  "parse_memory_mb s =
     (case s of
        None \<Rightarrow> 512
      | Some s \<Rightarrow>
          let mb = f64_as_u64 (f64_max (requested_mb s) (Fin 256))
          in ((mb + 255) mod 2 ^ 64 div 256) * 256)"

definition parse_cpus :: "string option \<Rightarrow> nat" where
  "parse_cpus s =
     max (case s of
            None \<Rightarrow> 1
          | Some s \<Rightarrow> (case parse_f64 (trim s) of None \<Rightarrow> 1 | Some c \<Rightarrow> f64_as_u64 (f64_ceil c))) 1"

section \<open>Machines\<close>

definition fly_api ::
  "'w HttpHost \<Rightarrow> FlyBackend \<Rightarrow> http_method \<Rightarrow> string \<Rightarrow> json option \<Rightarrow> 'w \<Rightarrow> 'w \<times> (BackendError, nat \<times> string) result" where
  "fly_api host self meth path body w =
     exchange host (''fly api '' @ path)
       \<lparr>hr_method = meth, hr_url = fly_api_base self @ ''/v1/apps/'' @ fly_app self @ path,
        hr_bearer = fly_token self, hr_query = [],
        hr_body = (case body of Some b \<Rightarrow> JsonBody b | None \<Rightarrow> NoBody)\<rparr> w"

definition find_by_name ::
  "'w HttpHost \<Rightarrow> FlyCodec \<Rightarrow> FlyBackend \<Rightarrow> string \<Rightarrow> 'w \<Rightarrow> 'w \<times> (BackendError, Machine option) result" where
  "find_by_name host cd self name w =
     and_then (fly_api host self GET ''/machines'' None w) (\<lambda>(status, body) w.
       if \<not> is_success status
       then (w, Err (Cli (''list machines: '' @ hh_status host status @ '' '' @ body)))
       else case decode_machines cd body of
              Inl e \<Rightarrow> (w, Err (Io (''parse machines list: '' @ e)))
            | Inr machines \<Rightarrow> (w, Ok (find (\<lambda>m. m_name m = Some name) machines)))"

definition get_machine ::
  "'w HttpHost \<Rightarrow> FlyCodec \<Rightarrow> FlyBackend \<Rightarrow> string \<Rightarrow> 'w \<Rightarrow> 'w \<times> (BackendError, Machine option) result" where
  "get_machine host cd self mid w =
     and_then (fly_api host self GET (''/machines/'' @ mid) None w) (\<lambda>(status, body) w.
       if status = 404 then (w, Ok None)
       else if \<not> is_success status
       then (w, Err (Cli (''get machine '' @ mid @ '': '' @ hh_status host status @ '' '' @ body)))
       else case decode_machine cd body of
              Inl e \<Rightarrow> (w, Err (Io (''parse machine '' @ mid @ '': '' @ e)))
            | Inr m \<Rightarrow> (w, Ok (Some m)))"

definition started_turn ::
  "'w HttpHost \<Rightarrow> FlyCodec \<Rightarrow> FlyBackend \<Rightarrow> string \<Rightarrow> 'w \<Rightarrow> 'w \<times> (BackendError, string) result option" where
  "started_turn host cd self mid w =
     (case get_machine host cd self mid w of
        (w, Inl e) \<Rightarrow> (w, Some (Err e))
      | (w, Inr (Some m)) \<Rightarrow>
          if m_state m = ''started'' then
            (case m_private_ip m of
               Some ip \<Rightarrow> if ip \<noteq> [] then (w, Some (Ok ip)) else (hh_sleep host 500 w, None)
             | None \<Rightarrow> (hh_sleep host 500 w, None))
          else if m_state m = ''failed'' \<or> m_state m = ''destroyed'' then
            (w, Some (Err (Cli (''machine '' @ mid @ '' in terminal state: '' @ m_state m))))
          else (hh_sleep host 500 w, None)
      | (w, Inr None) \<Rightarrow> (w, Some (Err (Cli (''machine '' @ mid @ '' disappeared'')))))"

definition wait_started ::
  "'w HttpHost \<Rightarrow> FlyCodec \<Rightarrow> FlyBackend \<Rightarrow> string \<Rightarrow> 'w \<Rightarrow> 'w \<times> (BackendError, string) result" where
  "wait_started host cd self mid w =
     (case poll 120 (started_turn host cd self mid) w of
        (w, Some r) \<Rightarrow> (w, r)
      | (w, None) \<Rightarrow>
          (w, Err (PortDiscovery (''machine '' @ mid @ '': timed out waiting for started + private_ip''))))"

definition fly_handle :: "string \<Rightarrow> string \<Rightarrow> nat list \<Rightarrow> ContainerHandle" where
  "fly_handle name ip spec_extra =
     \<lparr>ch_name = name, ch_url = ''ws://['' @ ip @ '']:'' @ dec AGENT_WS_PORT,
      ch_port_map = foldl (\<lambda>m p. hm_insert p (''['' @ ip @ '']:'' @ dec p) m) [] spec_extra\<rparr>"

definition machine_config :: "FlyBackend \<Rightarrow> ContainerSpec \<Rightarrow> json" where
  "machine_config self spec =
     (let guest = JObject
            [(''cpu_kind'', JString ''shared''), (''cpus'', JNumber (parse_cpus (cs_cpus spec))),
             (''memory_mb'', JNumber (parse_memory_mb (cs_memory spec)))];
          guest = (if cs_fuse spec then json_set ''kernel_args'' (JArray []) guest else guest)
      in JObject
           [(''image'', JString (cs_image spec)),
            (''env'', JObject (map (\<lambda>(k, v). (k, JString v)) (cs_env spec))),
            (''auto_destroy'', JBool False),
            (''restart'', JObject [(''policy'', JString ''no'')]),
            (''guest'', guest),
            (''init'', JObject [(''exec'', JArray
               [JString (fly_agent_bin self), JString ''--listen'',
                JString (''ws://[::]:'' @ dec AGENT_WS_PORT)])]),
            (''metadata'', JObject [(''nexal'', JString ''worker''), (''nexal_name'', JString (cs_name spec))])])"

section \<open>The backend\<close>

definition fly_reuse ::
  "'w HttpHost \<Rightarrow> FlyCodec \<Rightarrow> FlyBackend \<Rightarrow> ContainerSpec \<Rightarrow> Machine \<Rightarrow> 'w \<Rightarrow> 'w \<times> (BackendError, ContainerHandle) result" where
  "fly_reuse host cd self spec m w =
     and_then
       (if m_state m \<noteq> ''started'' then
          and_then (fly_api host self POST (''/machines/'' @ m_id m @ ''/start'') None w) (\<lambda>(status, body) w.
            if \<not> is_success status \<and> status \<noteq> 200
            then (w, Err (Cli (''start machine '' @ m_id m @ '': '' @ hh_status host status @ '' '' @ body)))
            else (w, Ok ()))
        else (w, Ok ()))
       (\<lambda>_ w. and_then (wait_started host cd self (m_id m) w) (\<lambda>ip w.
          (w, Ok (fly_handle (cs_name spec) ip (cs_extra_ports spec)))))"

definition fly_create ::
  "'w HttpHost \<Rightarrow> FlyCodec \<Rightarrow> FlyBackend \<Rightarrow> ContainerSpec \<Rightarrow> 'w \<Rightarrow> 'w \<times> (BackendError, ContainerHandle) result" where
  "fly_create host cd self spec w =
     (let body = JObject [(''name'', JString (cs_name spec)), (''config'', machine_config self spec)];
          body = (case fly_region self of Some r \<Rightarrow> json_set ''region'' (JString r) body | None \<Rightarrow> body)
      in and_then (fly_api host self POST ''/machines'' (Some body) w) (\<lambda>(status, resp) w.
           if \<not> is_success status
           then (w, Err (Cli (''create machine '' @ cs_name spec @ '': '' @ hh_status host status @ '' '' @ resp)))
           else case decode_machine cd resp of
                  Inl e \<Rightarrow> (w, Err (Io (''parse create response: '' @ e)))
                | Inr created \<Rightarrow>
                    and_then (wait_started host cd self (m_id created) w) (\<lambda>ip w.
                      (w, Ok (fly_handle (cs_name spec) ip (cs_extra_ports spec))))))"

definition fly_ensure ::
  "'w HttpHost \<Rightarrow> FlyCodec \<Rightarrow> FlyBackend \<Rightarrow> ContainerSpec \<Rightarrow> 'w \<Rightarrow> 'w \<times> (BackendError, ContainerHandle) result" where
  "fly_ensure host cd self spec w =
     and_then (find_by_name host cd self (cs_name spec) w) (\<lambda>found w.
       case found of
         Some m \<Rightarrow> fly_reuse host cd self spec m w
       | None \<Rightarrow> fly_create host cd self spec w)"

definition fly_destroy ::
  "'w HttpHost \<Rightarrow> FlyCodec \<Rightarrow> FlyBackend \<Rightarrow> string \<Rightarrow> 'w \<Rightarrow> 'w \<times> (BackendError, unit) result" where
  "fly_destroy host cd self name w =
     and_then (find_by_name host cd self name w) (\<lambda>found w.
       case found of
         None \<Rightarrow> (w, Ok ())
       | Some m \<Rightarrow>
           let w = fst (fly_api host self POST (''/machines/'' @ m_id m @ ''/stop'') None w)
           in and_then (fly_api host self DELETE (''/machines/'' @ m_id m @ ''?force=true'') None w) (\<lambda>(status, body) w.
                if is_success status \<or> status = 404 then (w, Ok ())
                else (w, Err (Cli (''delete machine '' @ m_id m @ '' ('' @ name @ ''): '' @ hh_status host status @ '' '' @ body)))))"

definition fly_exists ::
  "'w HttpHost \<Rightarrow> FlyCodec \<Rightarrow> FlyBackend \<Rightarrow> string \<Rightarrow> 'w \<Rightarrow> 'w \<times> (BackendError, bool) result" where
  "fly_exists host cd self name w =
     and_then (find_by_name host cd self name w) (\<lambda>found w. (w, Ok (found \<noteq> None)))"

definition fly_url ::
  "'w HttpHost \<Rightarrow> FlyCodec \<Rightarrow> FlyBackend \<Rightarrow> string \<Rightarrow> 'w \<Rightarrow> 'w \<times> (BackendError, string) result" where
  "fly_url host cd self name w =
     and_then (find_by_name host cd self name w) (\<lambda>found w.
       case found of
         None \<Rightarrow> (w, Err (Cli (''machine '' @ name @ '' not found'')))
       | Some m \<Rightarrow>
           let w = (if m_state m \<noteq> ''started''
                    then fst (fly_api host self POST (''/machines/'' @ m_id m @ ''/start'') None w) else w)
           in and_then (wait_started host cd self (m_id m) w) (\<lambda>ip w.
                (w, Ok (''ws://['' @ ip @ '']:'' @ dec AGENT_WS_PORT))))"

definition fly_backend :: "'w HttpHost \<Rightarrow> FlyCodec \<Rightarrow> FlyBackend \<Rightarrow> 'w ContainerBackend" where
  "fly_backend host cd self =
     \<lparr>be_ensure = fly_ensure host cd self, be_destroy = fly_destroy host cd self,
      be_exists = fly_exists host cd self, be_url = fly_url host cd self\<rparr>"

section \<open>Interface\<close>

lemma fly_ensure_name: "fly_ensure host cd self spec w = (w', Inr h) \<Longrightarrow> ch_name h = cs_name spec"
  by (auto simp: fly_ensure_def fly_reuse_def fly_create_def and_then_eq_Ok Let_def fly_handle_def
      split: option.splits if_splits sum.splits)

interpretation fly: container_backend "fly_backend host cd self" "\<lambda>n. n"
  by unfold_locales (auto simp: fly_backend_def fly_ensure_name)

section \<open>Sizes of a machine\<close>

lemma f64_as_u64_Fin: "0 \<le> a \<Longrightarrow> a < 2 ^ 64 \<Longrightarrow> f64_as_u64 (Fin a) = nat \<lfloor>a\<rfloor>"
proof -
  assume a: "0 \<le> a" "a < 2 ^ 64"
  have "a < of_int (2 ^ 64)" using a(2) by simp
  then have "\<lfloor>a\<rfloor> < 2 ^ 64" unfolding floor_less_iff .
  then have "\<lfloor>a\<rfloor> \<le> 2 ^ 64 - 1" by linarith
  then show ?thesis using a(1) by (simp add: saturate_u64_def min_def)
qed

lemma round_up_256:
  fixes n :: nat
  shows "n \<le> (n + 255) div 256 * 256" "(n + 255) div 256 * 256 < n + 256"
  by linarith+

lemma memory_of_finite:
  assumes "requested_mb t = Fin a" "a < 2 ^ 63"
  defines "mb \<equiv> parse_memory_mb (Some t)"
  shows "256 \<le> mb" "\<lfloor>a\<rfloor> \<le> int mb" "of_nat mb < max a 256 + 256"
proof -
  let ?m = "max a 256" and ?n = "nat \<lfloor>max a 256\<rfloor>"
  have m: "256 \<le> ?m" "?m < 2 ^ 63" using assms(2) by auto
  have u: "f64_as_u64 (Fin ?m) = ?n" using m by (intro f64_as_u64_Fin) auto
  have "\<lfloor>?m\<rfloor> < 2 ^ 63" using m(2) by (simp add: floor_less_iff)
  then have "?n < 2 ^ 63" by (simp add: nat_less_iff)
  then have "?n + 255 < 2 ^ 64" by simp
  then have mb: "mb = (?n + 255) div 256 * 256" using assms(1) u by (simp add: mb_def parse_memory_mb_def)
  have "256 \<le> \<lfloor>?m\<rfloor>" using m(1) by (simp add: le_floor_iff)
  moreover have "\<lfloor>a\<rfloor> \<le> \<lfloor>?m\<rfloor>" by (rule floor_mono) simp
  ultimately show "256 \<le> mb" "\<lfloor>a\<rfloor> \<le> int mb" using round_up_256(1) [of ?n] unfolding mb by linarith+
  have "of_nat mb < of_nat ?n + (256 :: rat)" using round_up_256(2) [of ?n] unfolding mb by (metis of_nat_add of_nat_less_iff of_nat_numeral)
  moreover have "(of_nat ?n :: rat) \<le> ?m" using m(1) by (simp add: of_nat_nat)
  ultimately show "of_nat mb < max a 256 + 256" by linarith
qed

lemma cpus_of_finite:
  assumes "parse_f64 (trim t) = Some (Fin c)" "c < 2 ^ 63"
  shows "c \<le> of_nat (parse_cpus (Some t))" "of_nat (parse_cpus (Some t)) < max c 0 + 1 \<or> parse_cpus (Some t) = 1"
proof -
  let ?u = "f64_as_u64 (Fin (of_int \<lceil>c\<rceil>))"
  have p: "parse_cpus (Some t) = max ?u 1" using assms(1) by (simp add: parse_cpus_def)
  have "\<lceil>c\<rceil> \<le> 2 ^ 63" using assms(2) by (simp add: ceiling_le_iff)
  then have u: "?u = nat \<lceil>c\<rceil>" if "0 \<le> c"
    using that f64_as_u64_Fin [of "of_int \<lceil>c\<rceil>"] by (simp add: order_less_imp_le)
  show "c \<le> of_nat (parse_cpus (Some t))"
  proof (cases "0 \<le> c")
    case True
    have "c \<le> of_nat (nat \<lceil>c\<rceil>)" by (simp add: le_of_int_ceiling True)
    then show ?thesis using p u [OF True] by simp
  qed (simp add: order_trans [of c 0])
  show "of_nat (parse_cpus (Some t)) < max c 0 + 1 \<or> parse_cpus (Some t) = 1"
  proof (cases "0 \<le> c")
    case True
    have "of_int \<lceil>c\<rceil> < c + 1" using ceiling_correct [of c] by linarith
    then show ?thesis using p u [OF True] True by (auto simp: max_def of_nat_nat)
  next
    case False
    then have "\<lceil>c\<rceil> \<le> 0" by (simp add: ceiling_le_iff)
    then show ?thesis using p by (auto simp: saturate_u64_def)
  qed
qed

lemma fly_api_eq_Ok: "fly_api host self meth path body w = (w', Inr (status, text)) \<Longrightarrow> \<exists>req. hr_method req = meth \<and>
    hr_url req = fly_api_base self @ ''/v1/apps/'' @ fly_app self @ path \<and> hh_send host req w = (w', Reply status text)"
  by (force simp: fly_api_def exchange_eq_Ok)

text \<open>The answer of the API that ends a wait.\<close>

definition reported_started :: "'w HttpHost \<Rightarrow> FlyCodec \<Rightarrow> FlyBackend \<Rightarrow> string \<Rightarrow> string \<Rightarrow> 'w \<Rightarrow> bool" where
  "reported_started host cd self mid ip w' \<longleftrightarrow>
     (\<exists>req w status text m. hr_method req = GET \<and>
        hr_url req = fly_api_base self @ ''/v1/apps/'' @ fly_app self @ ''/machines/'' @ mid \<and>
        hh_send host req w = (w', Reply status text) \<and> is_success status \<and> decode_machine cd text = Ok m \<and>
        m_state m = ''started'' \<and> m_private_ip m = Some ip \<and> ip \<noteq> [])"

lemma get_machine_Some:
  "get_machine host cd self mid w = (w', Inr (Some m)) \<Longrightarrow>
     \<exists>req status text. hr_method req = GET \<and>
        hr_url req = fly_api_base self @ ''/v1/apps/'' @ fly_app self @ ''/machines/'' @ mid \<and>
        hh_send host req w = (w', Reply status text) \<and> is_success status \<and> decode_machine cd text = Ok m"
  by (auto simp: get_machine_def and_then_eq_Ok split: if_splits sum.splits dest!: fly_api_eq_Ok)

lemma wait_started_Ok:
  assumes "wait_started host cd self mid w = (w', Inr ip)"
  shows "reported_started host cd self mid ip w'"
proof -
  have "poll 120 (started_turn host cd self mid) w = (w', Some (Inr ip))"
    using assms by (auto simp: wait_started_def split: prod.splits option.splits)
  then obtain w0 where "started_turn host cd self mid w0 = (w', Some (Inr ip))" using poll_result by metis
  then obtain m where "get_machine host cd self mid w0 = (w', Inr (Some m))"
    and m: "m_state m = ''started''" "m_private_ip m = Some ip" "ip \<noteq> []"
    by (auto simp: started_turn_def split: prod.splits sum.splits option.splits if_splits)
  from get_machine_Some [OF this(1)] m show ?thesis unfolding reported_started_def by blast
qed

lemma fly_reuse_Ok:
  "fly_reuse host cd self spec m w = (w', Inr h) \<Longrightarrow>
     \<exists>ip. reported_started host cd self (m_id m) ip w' \<and> h = fly_handle (cs_name spec) ip (cs_extra_ports spec)"
  unfolding fly_reuse_def and_then_eq_Ok [of "if _ then _ else _"]
  by (auto simp: and_then_eq_Ok dest!: wait_started_Ok)

lemma fly_create_Ok:
  "fly_create host cd self spec w = (w', Inr h) \<Longrightarrow>
     \<exists>mid ip. reported_started host cd self mid ip w' \<and> h = fly_handle (cs_name spec) ip (cs_extra_ports spec)"
  by (auto simp: fly_create_def and_then_eq_Ok Let_def split: if_splits sum.splits dest!: wait_started_Ok)

text \<open>A handle is returned only after the API has reported its machine as started, with the address
  that the handle carries.\<close>

lemma fly_ensure_Ok:
  assumes "fly_ensure host cd self spec w = (w', Inr h)"
  shows "\<exists>mid ip. reported_started host cd self mid ip w' \<and> h = fly_handle (cs_name spec) ip (cs_extra_ports spec)"
proof -
  obtain w1 found where "(case found of Some m \<Rightarrow> fly_reuse host cd self spec m w1
      | None \<Rightarrow> fly_create host cd self spec w1) = (w', Inr h)"
    using assms unfolding fly_ensure_def and_then_eq_Ok by blast
  then show ?thesis using fly_reuse_Ok [of host cd self spec] fly_create_Ok [of host cd self spec]
    by (cases found) fastforce+
qed

section \<open>Properties\<close>

text \<open>A machine always gets a multiple of 256 megabytes and at least one CPU; for finite settings the
  memory is at least the minimum of 256 and the whole megabytes requested, and less than 256 above the
  request, and the CPUs are the request rounded up.\<close>

theorem fly_machine_sizes:
  "256 dvd parse_memory_mb s \<and> 1 \<le> parse_cpus s \<and>
   (\<forall>t a. s = Some t \<and> requested_mb t = Fin a \<and> a < 2 ^ 63 \<longrightarrow>
      256 \<le> parse_memory_mb s \<and> \<lfloor>a\<rfloor> \<le> int (parse_memory_mb s) \<and> of_nat (parse_memory_mb s) < max a 256 + 256) \<and>
   (\<forall>t c. s = Some t \<and> parse_f64 (trim t) = Some (Fin c) \<and> c < 2 ^ 63 \<longrightarrow>
      c \<le> of_nat (parse_cpus s) \<and> (of_nat (parse_cpus s) < max c 0 + 1 \<or> parse_cpus s = 1))"
proof (intro conjI)
  show "256 dvd parse_memory_mb s" by (auto simp: parse_memory_mb_def Let_def split: option.splits)
  show "1 \<le> parse_cpus s" by (simp add: parse_cpus_def)
qed (use memory_of_finite cpus_of_finite in blast)+

lemma parse_700m: "requested_mb ''700m'' = Fin 700"
proof -
  have "parse_decimal ''700'' = Some 700" by code_simp
  moreover have "trim ''700m'' = ''700m''" "trim ''700'' = ''700''" "to_ascii_lowercase ''700m'' = ''700m''"
    "split_sign ''700'' = (False, ''700'')" "to_ascii_lowercase ''700'' = ''700''" by code_simp+
  moreover have "f64_round 700 = Fin 700" using f64_of_nat_exact [of 700] by (simp add: f64_of_nat_def)
  ultimately show ?thesis by (simp add: requested_mb_def parse_f64_def)
qed

theorem fly_machine_sizes_witness: "parse_memory_mb (Some ''700m'') = 768"
proof -
  have "256 \<le> parse_memory_mb (Some ''700m'') \<and> \<lfloor>700 :: rat\<rfloor> \<le> int (parse_memory_mb (Some ''700m'')) \<and>
      of_nat (parse_memory_mb (Some ''700m'')) < max (700 :: rat) 256 + 256" "256 dvd parse_memory_mb (Some ''700m'')"
    using fly_machine_sizes [of "Some ''700m''"] parse_700m by auto
  then obtain k where k: "parse_memory_mb (Some ''700m'') = 256 * k" "700 \<le> 256 * k" "(256 * of_nat k :: rat) < 956"
    by (auto simp: dvd_def)
  then have "256 * k < 956" by (metis of_nat_less_iff of_nat_mult of_nat_numeral)
  with k show ?thesis by auto
qed

text \<open>Two settings that give a machine far from what was meant: an infinite or huge request wraps to no
  memory at all, below the documented minimum, and a number that does not parse becomes 512 gigabytes
  if the setting ends in the letter g.\<close>

lemma memory_wraps_to_zero: "parse_memory_mb (Some ''inf'') = 0"
proof -
  have "trim ''inf'' = ''inf''" "to_ascii_lowercase ''inf'' = ''inf''" "split_sign ''inf'' = (False, ''inf'')" by code_simp+
  then have "requested_mb ''inf'' = Infinite False" by (simp add: requested_mb_def parse_f64_def)
  then show ?thesis by (simp add: parse_memory_mb_def)
qed

lemma memory_default_multiplied: "parse_memory_mb (Some ''1gig'') = 524288"
proof -
  have t: "trim ''1gig'' = ''1gig''" "to_ascii_lowercase ''1gig'' = ''1gig''" "trim ''1gi'' = ''1gi''"
    "split_sign ''1gi'' = (False, ''1gi'')" "to_ascii_lowercase ''1gi'' = ''1gi''" "parse_decimal ''1gi'' = None" by code_simp+
  then have "parse_f64 (trim ''1gi'') = None" by (simp add: parse_f64_def)
  moreover have "f64_round 524288 = Fin 524288" using f64_of_nat_exact [of 524288] by (simp add: f64_of_nat_def)
  ultimately have r: "requested_mb ''1gig'' = Fin 524288" using t by (simp add: requested_mb_def)
  have "f64_as_u64 (Fin 524288) = 524288" using f64_as_u64_Fin [of 524288] by (simp del: f64_as_u64.simps)
  then show ?thesis using r by (simp add: parse_memory_mb_def del: f64_as_u64.simps)
qed

end
