(* ===== verification/Kubernetes.thy ===== *)
theory Kubernetes
  imports Backend
begin

text \<open>
  The Kubernetes backend, \<^verbatim>\<open>nexal-gateway/src/backend/kubernetes.rs\<close>: the pod it builds for
  a container, and how it creates, awaits and deletes pods.  The API server is an argument.  Of
  the Kubernetes types the fields that the code sets or reads are kept; a field it leaves to
  \<^verbatim>\<open>Default\<close> is absent from the records.
\<close>

section \<open>Pods\<close>

definition K8S_WS_PORT :: nat where
  "K8S_WS_PORT = 9100"

definition AGENT_VOLUME_NAME :: string where
  "AGENT_VOLUME_NAME = ''nexal-agent-bin''"

definition AGENT_MOUNT_PATH :: string where
  "AGENT_MOUNT_PATH = ''/opt/nexal/bin''"

definition AGENT_BIN_PATH :: string where
  "AGENT_BIN_PATH = ''/opt/nexal/bin/nexal-agent''"

text \<open>Every volume of the code is an \<^verbatim>\<open>emptyDir\<close>.\<close>

datatype volume_source = EmptyDir

record Volume =
  v_name :: string
  v_source :: volume_source

record VolumeMount =
  vm_name :: string
  vm_mount_path :: string

record ContainerPort =
  cp_container_port :: int
  cp_protocol :: string

record SecurityContext =
  sc_allow_privilege_escalation :: bool
  sc_run_as_non_root :: bool
  sc_privileged :: "bool option"

record Container =
  c_name :: string
  c_image :: string
  c_command :: "string list"
  c_ports :: "ContainerPort list option"
  c_env :: "(string \<times> string) list option"
  c_volume_mounts :: "VolumeMount list"
  c_limits :: "(string, string) hashmap option"
  c_working_dir :: "string option"
  c_security_context :: "SecurityContext option"

record PodSpec =
  ps_init_containers :: "Container list"
  ps_containers :: "Container list"
  ps_volumes :: "Volume list"
  ps_restart_policy :: string
  ps_automount_service_account_token :: bool

record Pod =
  pod_name :: string
  pod_namespace :: string
  pod_labels :: "(string, string) hashmap"
  pod_spec :: PodSpec

record KubernetesBackend =
  k8s_namespace :: string
  k8s_agent_init_image :: string

record KubernetesConfig =
  kc_namespace :: "string option"
  kc_kubeconfig :: "string option"
  kc_agent_init_image :: string

text \<open>The steps of building a client, each of which can fail with a text; the path of a configuration
  file is shown in the first error.\<close>

record KubeClientSteps =
  read_from :: "string \<Rightarrow> (string, unit) result"
  from_custom_kubeconfig :: "(string, unit) result"
  client_try_from :: "(string, unit) result"
  client_try_default :: "(string, unit) result"

definition kubernetes_new :: "KubeClientSteps \<Rightarrow> KubernetesConfig \<Rightarrow> (BackendError, KubernetesBackend) result" where
  "kubernetes_new st cfg =
     (let client =
        (case kc_kubeconfig cfg of
           Some path \<Rightarrow>
             (case read_from st path of
                Inl e \<Rightarrow> Err (Io (''read kubeconfig '' @ path @ '': '' @ e))
              | Inr _ \<Rightarrow>
                  (case from_custom_kubeconfig st of
                     Inl e \<Rightarrow> Err (Io (''build kube config: '' @ e))
                   | Inr _ \<Rightarrow>
                       (case client_try_from st of
                          Inl e \<Rightarrow> Err (Io (''create kube client: '' @ e))
                        | Inr _ \<Rightarrow> Ok ())))
         | None \<Rightarrow>
             (case client_try_default st of
                Inl e \<Rightarrow> Err (Io (''in-cluster kube config: '' @ e))
              | Inr _ \<Rightarrow> Ok ()))
      in case client of
           Inl e \<Rightarrow> Err e
         | Inr _ \<Rightarrow> Ok
             \<lparr>k8s_namespace = (case kc_namespace cfg of Some n \<Rightarrow> n | None \<Rightarrow> ''default''),
              k8s_agent_init_image = kc_agent_init_image cfg\<rparr>)"

definition build_labels :: "ContainerSpec \<Rightarrow> (string, string) hashmap" where
  "build_labels spec =
     foldl (\<lambda>m (k, v). hm_insert k v m)
       (hm_insert ''nexal.session'' (cs_name spec)
         (hm_insert ''nexal.kind'' ''worker'' (hm_insert ''app'' ''nexal'' [])))
       (cs_labels spec)"

definition build_limits :: "ContainerSpec \<Rightarrow> (string, string) hashmap" where
  "build_limits spec =
     (let limits = [];
          limits = (case cs_memory spec of Some mem \<Rightarrow> hm_insert ''memory'' mem limits | None \<Rightarrow> limits)
      in case cs_cpus spec of Some cpus \<Rightarrow> hm_insert ''cpu'' cpus limits | None \<Rightarrow> limits)"

definition build_pod :: "KubernetesBackend \<Rightarrow> ContainerSpec \<Rightarrow> Pod" where
  "build_pod self spec =
     (let labels = build_labels spec;
          env = cs_env spec;
          limits = build_limits spec;
          agent_volume = \<lparr>v_name = AGENT_VOLUME_NAME, v_source = EmptyDir\<rparr>;
          agent_volume_mount = \<lparr>vm_name = AGENT_VOLUME_NAME, vm_mount_path = AGENT_MOUNT_PATH\<rparr>;
          init_container =
            \<lparr>c_name = ''copy-agent'', c_image = k8s_agent_init_image self,
             c_command = [''cp'', ''/usr/local/bin/nexal-agent'', AGENT_BIN_PATH],
             c_ports = None, c_env = None, c_volume_mounts = [agent_volume_mount], c_limits = None,
             c_working_dir = None, c_security_context = None\<rparr>;
          volumes = [agent_volume];
          volume_mounts = [agent_volume_mount];
          (volumes, volume_mounts) =
            (if cs_workspace_volume spec \<noteq> None
             then (volumes @ [\<lparr>v_name = ''workspace'', v_source = EmptyDir\<rparr>],
                   volume_mounts @ [\<lparr>vm_name = ''workspace'', vm_mount_path = ''/workspace''\<rparr>])
             else (volumes, volume_mounts));
          volumes = volumes @ [\<lparr>v_name = ''proxy-sockets'', v_source = EmptyDir\<rparr>];
          volume_mounts = volume_mounts @ [\<lparr>vm_name = ''proxy-sockets'', vm_mount_path = ''/run/nexal/proxy''\<rparr>];
          main_container =
            \<lparr>c_name = ''agent'', c_image = cs_image spec,
             c_command = [AGENT_BIN_PATH, ''--listen'', ''ws://[::]:'' @ dec K8S_WS_PORT],
             c_ports = Some (\<lparr>cp_container_port = int K8S_WS_PORT, cp_protocol = ''TCP''\<rparr> #
               map (\<lambda>p. \<lparr>cp_container_port = int p, cp_protocol = ''TCP''\<rparr>) (cs_extra_ports spec)),
             c_env = Some env, c_volume_mounts = volume_mounts,
             c_limits = (if limits = [] then None else Some limits),
             c_working_dir = Some ''/workspace'',
             c_security_context = Some
               \<lparr>sc_allow_privilege_escalation = False, sc_run_as_non_root = True,
                sc_privileged = (if cs_fuse spec then Some True else None)\<rparr>\<rparr>
      in \<lparr>pod_name = cs_name spec, pod_namespace = k8s_namespace self, pod_labels = labels,
          pod_spec = \<lparr>ps_init_containers = [init_container], ps_containers = [main_container],
            ps_volumes = volumes, ps_restart_policy = ''Never'',
            ps_automount_service_account_token = False\<rparr>\<rparr>)"

section \<open>The API server\<close>

record PodStatus =
  st_phase :: "string option"
  st_pod_ip :: "string option"

text \<open>An error of the client has a text; an answer of the server has a code too.\<close>

datatype kube_error = ApiError nat string | OtherError string

fun kube_error_text :: "kube_error \<Rightarrow> string" where
  "kube_error_text (ApiError code t) = t"
| "kube_error_text (OtherError t) = t"

fun is_not_found :: "kube_error \<Rightarrow> bool" where
  "is_not_found (ApiError code t) = (code = 404)"
| "is_not_found (OtherError t) = False"

record 'w KubeHost =
  kh_get :: "string \<Rightarrow> string \<Rightarrow> 'w \<Rightarrow> 'w \<times> (kube_error, PodStatus option) result"
  kh_create :: "string \<Rightarrow> Pod \<Rightarrow> 'w \<Rightarrow> 'w \<times> (kube_error, unit) result"
  kh_delete :: "string \<Rightarrow> string \<Rightarrow> 'w \<Rightarrow> 'w \<times> (kube_error, unit) result"
  kh_sleep :: "nat \<Rightarrow> 'w \<Rightarrow> 'w"

section \<open>The backend\<close>

definition pod_phase :: "PodStatus option \<Rightarrow> string" where
  "pod_phase st =
     (case st of None \<Rightarrow> [] | Some s \<Rightarrow> (case st_phase s of None \<Rightarrow> [] | Some p \<Rightarrow> p))"

definition pod_ip_turn ::
  "'w KubeHost \<Rightarrow> KubernetesBackend \<Rightarrow> string \<Rightarrow> 'w \<Rightarrow> 'w \<times> (BackendError, string) result option" where
  "pod_ip_turn host self name w =
     (case kh_get host (k8s_namespace self) name w of
        (w, Inr (Some status)) \<Rightarrow>
          let phase = pod_phase (Some status)
          in if phase = ''Running'' then
               (case st_pod_ip status of
                  Some ip \<Rightarrow> if ip \<noteq> [] then (w, Some (Ok ip)) else (kh_sleep host 500 w, None)
                | None \<Rightarrow> (kh_sleep host 500 w, None))
             else if phase = ''Failed'' \<or> phase = ''Succeeded'' then
               (w, Some (Err (Cli (''pod '' @ name @ '' in terminal phase: '' @ phase))))
             else (kh_sleep host 500 w, None)
      | (w, Inr None) \<Rightarrow> (kh_sleep host 500 w, None)
      | (w, Inl e) \<Rightarrow>
          if is_not_found e then (w, Some (Err (Cli (''pod '' @ name @ '' not found''))))
          else (kh_sleep host 500 w, None))"

definition wait_for_pod_ip ::
  "'w KubeHost \<Rightarrow> KubernetesBackend \<Rightarrow> string \<Rightarrow> 'w \<Rightarrow> 'w \<times> (BackendError, string) result" where
  "wait_for_pod_ip host self name w =
     (case poll 60 (pod_ip_turn host self name) w of
        (w, Some r) \<Rightarrow> (w, r)
      | (w, None) \<Rightarrow>
          (w, Err (PortDiscovery (''pod '' @ name @ '': timed out waiting for Running phase + pod IP''))))"

definition deletion_turn :: "'w KubeHost \<Rightarrow> KubernetesBackend \<Rightarrow> string \<Rightarrow> 'w \<Rightarrow> 'w \<times> unit option" where
  "deletion_turn host self name w =
     (case kh_get host (k8s_namespace self) name w of
        (w, Inl e) \<Rightarrow> if is_not_found e then (w, Some ()) else (kh_sleep host 500 w, None)
      | (w, Inr _) \<Rightarrow> (kh_sleep host 500 w, None))"

definition k8s_handle :: "ContainerSpec \<Rightarrow> string \<Rightarrow> ContainerHandle" where
  "k8s_handle spec ip =
     \<lparr>ch_name = cs_name spec, ch_url = ''ws://'' @ ip @ '':'' @ dec K8S_WS_PORT,
      ch_port_map = foldl (\<lambda>m p. hm_insert p (ip @ '':'' @ dec p) m) [] (cs_extra_ports spec)\<rparr>"

definition k8s_create ::
  "'w KubeHost \<Rightarrow> KubernetesBackend \<Rightarrow> ContainerSpec \<Rightarrow> 'w \<Rightarrow> 'w \<times> (BackendError, ContainerHandle) result" where
  "k8s_create host self spec w =
     (case kh_create host (k8s_namespace self) (build_pod self spec) w of
        (w, Inl e) \<Rightarrow> (w, Err (Cli (''create pod '' @ cs_name spec @ '': '' @ kube_error_text e)))
      | (w, Inr _) \<Rightarrow>
          and_then (wait_for_pod_ip host self (cs_name spec) w) (\<lambda>ip w. (w, Ok (k8s_handle spec ip))))"

definition k8s_ensure ::
  "'w KubeHost \<Rightarrow> KubernetesBackend \<Rightarrow> ContainerSpec \<Rightarrow> 'w \<Rightarrow> 'w \<times> (BackendError, ContainerHandle) result" where
  "k8s_ensure host self spec w =
     (case kh_get host (k8s_namespace self) (cs_name spec) w of
        (w, Inr status) \<Rightarrow>
          if pod_phase status = ''Running'' then
            (case (case status of None \<Rightarrow> None | Some s \<Rightarrow> st_pod_ip s) of
               None \<Rightarrow> (w, Err (PortDiscovery (''pod '' @ cs_name spec @ '' running but no IP'')))
             | Some ip \<Rightarrow> (w, Ok (k8s_handle spec ip)))
          else
            let w = fst (kh_delete host (k8s_namespace self) (cs_name spec) w);
                w = fst (poll 30 (deletion_turn host self (cs_name spec)) w)
            in k8s_create host self spec w
      | (w, Inl e) \<Rightarrow>
          if is_not_found e then k8s_create host self spec w
          else (w, Err (Io (''get pod '' @ cs_name spec @ '': '' @ kube_error_text e))))"

definition k8s_destroy ::
  "'w KubeHost \<Rightarrow> KubernetesBackend \<Rightarrow> string \<Rightarrow> 'w \<Rightarrow> 'w \<times> (BackendError, unit) result" where
  "k8s_destroy host self name w =
     (case kh_delete host (k8s_namespace self) name w of
        (w, Inr _) \<Rightarrow> (w, Ok ())
      | (w, Inl e) \<Rightarrow>
          if is_not_found e then (w, Ok ())
          else (w, Err (Cli (''delete pod '' @ name @ '': '' @ kube_error_text e))))"

definition k8s_exists ::
  "'w KubeHost \<Rightarrow> KubernetesBackend \<Rightarrow> string \<Rightarrow> 'w \<Rightarrow> 'w \<times> (BackendError, bool) result" where
  "k8s_exists host self name w =
     (case kh_get host (k8s_namespace self) name w of
        (w, Inr _) \<Rightarrow> (w, Ok True)
      | (w, Inl e) \<Rightarrow>
          if is_not_found e then (w, Ok False)
          else (w, Err (Io (''get pod '' @ name @ '': '' @ kube_error_text e))))"

definition k8s_url ::
  "'w KubeHost \<Rightarrow> KubernetesBackend \<Rightarrow> string \<Rightarrow> 'w \<Rightarrow> 'w \<times> (BackendError, string) result" where
  "k8s_url host self name w =
     and_then (wait_for_pod_ip host self name w) (\<lambda>ip w.
       (w, Ok (''ws://'' @ ip @ '':'' @ dec K8S_WS_PORT)))"

definition k8s_backend :: "'w KubeHost \<Rightarrow> KubernetesBackend \<Rightarrow> 'w ContainerBackend" where
  "k8s_backend host self =
     \<lparr>be_ensure = k8s_ensure host self, be_destroy = k8s_destroy host self,
      be_exists = k8s_exists host self, be_url = k8s_url host self\<rparr>"

section \<open>Interface\<close>

lemma k8s_create_name: "k8s_create host self spec w = (w', Inr h) \<Longrightarrow> ch_name h = cs_name spec"
  by (auto simp: k8s_create_def and_then_eq_Ok k8s_handle_def split: prod.splits sum.splits)

lemma k8s_ensure_name: "k8s_ensure host self spec w = (w', Inr h) \<Longrightarrow> ch_name h = cs_name spec"
  by (auto simp: k8s_ensure_def Let_def k8s_handle_def dest: k8s_create_name
      split: prod.splits sum.splits option.splits if_splits)

interpretation k8s: container_backend "k8s_backend host self" "\<lambda>n. n"
  by unfold_locales (auto simp: k8s_backend_def k8s_ensure_name)

section \<open>The pod\<close>

text \<open>The labels of a request replace those of the gateway.\<close>

lemma foldl_insert_get:
  "hm_wf kvs \<Longrightarrow> hm_get (foldl (\<lambda>m (k, v). hm_insert k v m) m kvs) k =
     (case hm_get kvs k of Some v \<Rightarrow> Some v | None \<Rightarrow> hm_get m k)"
proof (induction kvs arbitrary: m)
  case (Cons kv kvs)
  obtain k0 v0 where kv: "kv = (k0, v0)" by force
  have wf: "hm_wf kvs" and fresh: "hm_get kvs k0 = None"
    using Cons.prems by (auto simp: kv hm_wf_def hm_keys_def hm_get_def map_of_eq_None_iff)
  have "hm_get (kv # kvs) k = (if k = k0 then Some v0 else hm_get kvs k)" by (simp add: kv hm_get_def)
  then show ?case using Cons.IH [OF wf] fresh by (auto simp: kv split: option.splits)
qed (simp add: hm_get_def)

lemma labels_of_request_win:
  "hm_wf (cs_labels spec) \<Longrightarrow> hm_get (cs_labels spec) k = Some v \<Longrightarrow> hm_get (pod_labels (build_pod self spec)) k = Some v"
  by (simp add: build_pod_def Let_def build_labels_def foldl_insert_get split: prod.splits)

text \<open>With FUSE, which every container of the gateway asks for, the pod is privileged and refuses
  privilege escalation at once, a combination that the validation of the API server rejects.\<close>

definition security_rejected :: "Pod \<Rightarrow> bool" where
  "security_rejected pod \<longleftrightarrow>
     list_ex (\<lambda>c. case c_security_context c of
        Some sc \<Rightarrow> sc_privileged sc = Some True \<and> \<not> sc_allow_privilege_escalation sc | None \<Rightarrow> False)
       (ps_containers (pod_spec pod))"

lemma fuse_pod_rejected: "security_rejected (build_pod self spec) = cs_fuse spec"
  by (simp add: security_rejected_def build_pod_def Let_def split: prod.splits)

text \<open>The pod of every container is well formed: its volumes have distinct names and are all scratch
  space of the pod (none comes from the host, whatever volume was asked for), every mount of its
  containers names a declared volume, at distinct paths, and the binary that the init container copies
  is the one the agent container runs; the agent container listens on the port that the handle
  announces, runs unprivileged unless FUSE is asked for, and gets no service account token.\<close>

lemma pod_well_formed:
  "(case build_pod self spec of pod \<Rightarrow>
      pod_name pod = cs_name spec \<and>
      \<not> ps_automount_service_account_token (pod_spec pod) \<and>
      distinct (map v_name (ps_volumes (pod_spec pod))) \<and>
      (\<exists>init main. ps_init_containers (pod_spec pod) = [init] \<and> ps_containers (pod_spec pod) = [main] \<and>
         distinct (map vm_mount_path (c_volume_mounts main)) \<and>
         set (map vm_name (c_volume_mounts init)) \<subseteq> set (map v_name (ps_volumes (pod_spec pod))) \<and>
         set (map vm_name (c_volume_mounts main)) = set (map v_name (ps_volumes (pod_spec pod))) \<and>
         last (c_command init) = hd (c_command main) \<and>
         last (c_command main) = ''ws://[::]:'' @ dec K8S_WS_PORT \<and>
         (\<exists>ports. c_ports main = Some ports \<and>
            map cp_container_port ports = map int (K8S_WS_PORT # cs_extra_ports spec)) \<and>
         (\<exists>sc. c_security_context main = Some sc \<and> sc_run_as_non_root sc \<and>
            (sc_privileged sc = Some True) = cs_fuse spec)))"
  by (simp add: build_pod_def Let_def AGENT_VOLUME_NAME_def AGENT_MOUNT_PATH_def comp_def split: prod.splits)

section \<open>The writes of an operation\<close>

datatype kube_write = CreatePod string Pod | DeletePod string string

text \<open>A host that records the requests that change the cluster.\<close>

definition recording :: "'w KubeHost \<Rightarrow> ('w \<times> kube_write list) KubeHost" where
  "recording host =
     \<lparr>kh_get = (\<lambda>ns n (w, log). case kh_get host ns n w of (w, r) \<Rightarrow> ((w, log), r)),
      kh_create = (\<lambda>ns pod (w, log). case kh_create host ns pod w of (w, r) \<Rightarrow> ((w, log @ [CreatePod ns pod]), r)),
      kh_delete = (\<lambda>ns n (w, log). case kh_delete host ns n w of (w, r) \<Rightarrow> ((w, log @ [DeletePod ns n]), r)),
      kh_sleep = (\<lambda>ms (w, log). (kh_sleep host ms w, log))\<rparr>"

lemma recording_get: "snd (fst (kh_get (recording host) ns n v)) = snd v"
  by (simp add: recording_def split: prod.splits)

lemma recording_sleep: "snd (kh_sleep (recording host) ms v) = snd v"
  by (simp add: recording_def split: prod.splits)

lemma deletion_turn_reads: "snd (fst (deletion_turn (recording host) self n v)) = snd v"
  using recording_get [of host "k8s_namespace self" n v] recording_sleep [of host]
  by (auto simp: deletion_turn_def split: prod.splits sum.splits)

lemma pod_ip_turn_reads: "snd (fst (pod_ip_turn (recording host) self n v)) = snd v"
  using recording_get [of host "k8s_namespace self" n v] recording_sleep [of host]
  by (auto simp: pod_ip_turn_def Let_def split: prod.splits sum.splits option.splits)

lemma wait_for_pod_ip_reads: "snd (fst (wait_for_pod_ip (recording host) self n v)) = snd v"
proof -
  have "snd (fst (poll 60 (pod_ip_turn (recording host) self n) v)) = snd v"
    by (rule poll_keeps [where P = "\<lambda>u. snd u = snd v"]) (simp_all add: pod_ip_turn_reads)
  then show ?thesis by (auto simp: wait_for_pod_ip_def split: prod.splits option.splits)
qed

lemma k8s_create_writes:
  "snd (fst (k8s_create (recording host) self spec v)) = snd v @ [CreatePod (k8s_namespace self) (build_pod self spec)]"
proof -
  obtain u r where c: "kh_create (recording host) (k8s_namespace self) (build_pod self spec) v = (u, r)"
    by (cases "kh_create (recording host) (k8s_namespace self) (build_pod self spec) v")
  then have u: "snd u = snd v @ [CreatePod (k8s_namespace self) (build_pod self spec)]"
    by (auto simp: recording_def split: prod.splits)
  have "snd (fst (and_then (wait_for_pod_ip (recording host) self n u) (\<lambda>ip w. (w, Ok (k8s_handle spec ip))))) = snd u" for n
    by (rule and_then_keeps [where P = "\<lambda>x. snd x = snd u"]) (simp_all add: wait_for_pod_ip_reads)
  then show ?thesis using c u by (simp add: k8s_create_def split: sum.splits)
qed

section \<open>Properties\<close>

text \<open>What ensure changes in the cluster: nothing when the pod is running or the server cannot be asked;
  one creation when there is no pod; and when there is one that is not running, its deletion and then
  one creation. The pod created has the requested name, and no other pod is written to.\<close>

theorem k8s_ensure_writes:
  "(case kh_get host (k8s_namespace self) (cs_name spec) w of (_, found) \<Rightarrow>
      snd (fst (k8s_ensure (recording host) self spec (w, []))) =
        (case found of
           Inl e \<Rightarrow> if is_not_found e then [CreatePod (k8s_namespace self) (build_pod self spec)] else []
         | Inr status \<Rightarrow>
             if pod_phase status = ''Running'' then []
             else [DeletePod (k8s_namespace self) (cs_name spec),
                   CreatePod (k8s_namespace self) (build_pod self spec)])) \<and>
   pod_name (build_pod self spec) = cs_name spec"
proof
  let ?ns = "k8s_namespace self" and ?n = "cs_name spec" and ?h = "recording host"
  obtain w1 found where g: "kh_get host ?ns ?n w = (w1, found)" by force
  then have rg: "kh_get ?h ?ns ?n (w, []) = ((w1, []), found)" by (simp add: recording_def)
  have "snd (fst (k8s_create ?h self spec (fst (poll 30 (deletion_turn ?h self ?n) (fst (kh_delete ?h ?ns ?n (w1, []))))))) =
      [DeletePod ?ns ?n, CreatePod ?ns (build_pod self spec)]"
  proof -
    let ?v = "fst (kh_delete ?h ?ns ?n (w1, []))"
    have "snd ?v = [DeletePod ?ns ?n]" by (simp add: recording_def split: prod.splits)
    moreover have "snd (fst (poll 30 (deletion_turn ?h self ?n) ?v)) = snd ?v"
      by (rule poll_keeps [where P = "\<lambda>u. snd u = snd ?v"]) (simp_all add: deletion_turn_reads)
    ultimately show ?thesis by (simp add: k8s_create_writes)
  qed
  then show "case kh_get host ?ns ?n w of (_, found) \<Rightarrow>
      snd (fst (k8s_ensure ?h self spec (w, []))) =
        (case found of
           Inl e \<Rightarrow> if is_not_found e then [CreatePod ?ns (build_pod self spec)] else []
         | Inr status \<Rightarrow>
             if pod_phase status = ''Running'' then []
             else [DeletePod ?ns ?n, CreatePod ?ns (build_pod self spec)])"
    using g rg k8s_create_writes [of host self spec "(w1, [])"]
    by (simp add: k8s_ensure_def Let_def split: sum.splits option.splits)
  show "pod_name (build_pod self spec) = cs_name spec"
    by (simp add: build_pod_def Let_def split: prod.splits)
qed

end
