(* ===== verification/Sprites.thy ===== *)
theory Sprites
  imports Http_Api Message_Channel
begin

text \<open>
  The Sprites backend, \<^verbatim>\<open>nexal-gateway/src/backend/sprites.rs\<close>: the life of a sprite over
  the HTTP API, the table of local tunnels to the agents, and the relay of one tunnelled
  connection.  The API, the decoding of its answers, the local file system and the binding of
  listeners are arguments.
\<close>

section \<open>State\<close>

record SpritesConfig =
  sc_token :: string
  sc_api_base :: "string option"
  sc_name_prefix :: "string option"
  sc_agent_port :: "nat option"
  sc_agent_bin_path :: "string option"

record SpritesBackend =
  sp_token :: string
  sp_api_base :: string
  sp_name_prefix :: "string option"
  sp_agent_port :: nat
  sp_agent_bin :: string

text \<open>A tunnel owns the task that accepts its connections; tasks are numbered as they are spawned.\<close>

record TunnelHandle =
  th_local_addr :: string
  th_task :: nat

record 'w SpritesState =
  ss_world :: 'w
  ss_tunnels :: "(string, TunnelHandle) hashmap"
  ss_next_task :: nat
  ss_running :: "nat list"

record SpriteSummary =
  su_name :: "string option"
  su_status :: "string option"

datatype bind_result = BindFails string | LocalAddrFails string | Bound string

record 'w SpritesHost = "'w HttpHost" +
  sh_decode :: "string \<Rightarrow> SpriteSummary option"
  sh_read_file :: "string \<Rightarrow> 'w \<Rightarrow> (string, byte list) result"
  sh_debug_path :: "string \<Rightarrow> string"
  sh_bind :: "'w \<Rightarrow> 'w \<times> bind_result"

definition sprites_new :: "(string, unit) result \<Rightarrow> SpritesConfig \<Rightarrow> (BackendError, SpritesBackend) result" where
  "sprites_new client cfg =
     (if sc_token cfg = [] then Err (Io ''sprites backend requires backend.sprites_token'')
      else case client of
        Inl e \<Rightarrow> Err (Io (''build sprites http client: '' @ e))
      | Inr _ \<Rightarrow> Ok
          \<lparr>sp_token = sc_token cfg,
           sp_api_base = trim_end_matches CHR ''/''
             (case sc_api_base cfg of Some b \<Rightarrow> b | None \<Rightarrow> ''https://api.sprites.dev''),
           sp_name_prefix = sc_name_prefix cfg,
           sp_agent_port = (case sc_agent_port cfg of Some p \<Rightarrow> p | None \<Rightarrow> 9100),
           sp_agent_bin =
             (case sc_agent_bin_path cfg of Some b \<Rightarrow> b | None \<Rightarrow> ''/usr/local/bin/nexal-agent'')\<rparr>)"

section \<open>The API\<close>

definition sprite_name :: "SpritesBackend \<Rightarrow> string \<Rightarrow> string" where
  "sprite_name self spec_name =
     (case sp_name_prefix self of Some prefix \<Rightarrow> prefix @ spec_name | None \<Rightarrow> spec_name)"

definition api_url :: "SpritesBackend \<Rightarrow> string \<Rightarrow> string" where
  "api_url self path = sp_api_base self @ path"

definition ws_api_base :: "SpritesBackend \<Rightarrow> string" where
  "ws_api_base self =
     (let b = sp_api_base self
      in if take 8 b = ''https://'' then ''wss://'' @ drop 8 b
         else if take 7 b = ''http://'' then ''ws://'' @ drop 7 b
         else b)"

text \<open>An exchange acts on the world and leaves the tunnels alone.\<close>

definition on_world :: "('w \<Rightarrow> 'w \<times> 'a) \<Rightarrow> 'w SpritesState \<Rightarrow> 'w SpritesState \<times> 'a" where
  "on_world f st = (case f (ss_world st) of (w, a) \<Rightarrow> (st\<lparr>ss_world := w\<rparr>, a))"

definition sprites_send ::
  "'w SpritesHost \<Rightarrow> string \<Rightarrow> HttpRequest \<Rightarrow> 'w SpritesState \<Rightarrow> 'w SpritesState \<times> (BackendError, nat \<times> string) result" where
  "sprites_send host what req st = on_world (exchange (HttpHost.truncate host) what req) st"

definition sprites_api ::
  "'w SpritesHost \<Rightarrow> SpritesBackend \<Rightarrow> http_method \<Rightarrow> string \<Rightarrow> json option \<Rightarrow> 'w SpritesState \<Rightarrow>
     'w SpritesState \<times> (BackendError, nat \<times> string) result" where
  "sprites_api host self meth path body st =
     sprites_send host (''sprites api '' @ path)
       \<lparr>hr_method = meth, hr_url = api_url self path, hr_bearer = sp_token self, hr_query = [],
        hr_body = (case body of Some b \<Rightarrow> JsonBody b | None \<Rightarrow> NoBody)\<rparr> st"

definition sprite_exists ::
  "'w SpritesHost \<Rightarrow> SpritesBackend \<Rightarrow> string \<Rightarrow> 'w SpritesState \<Rightarrow> 'w SpritesState \<times> (BackendError, bool) result" where
  "sprite_exists host self name st =
     and_then (sprites_api host self GET (''/v1/sprites/'' @ name) None st) (\<lambda>(status, body) st.
       if status = 200 then (st, Ok True)
       else if status = 404 then (st, Ok False)
       else (st, Err (Cli (''get sprite '' @ name @ '': '' @ hh_status host status @ '' '' @ body))))"

definition create_sprite ::
  "'w SpritesHost \<Rightarrow> SpritesBackend \<Rightarrow> string \<Rightarrow> 'w SpritesState \<Rightarrow> 'w SpritesState \<times> (BackendError, unit) result" where
  "create_sprite host self name st =
     and_then
       (sprites_api host self POST ''/v1/sprites''
          (Some (JObject [(''name'', JString name), (''wait_for_capacity'', JBool True)])) st)
       (\<lambda>(status, body) st.
          if is_success status \<or> status = 409 then (st, Ok ())
          else (st, Err (Cli (''create sprite '' @ name @ '': '' @ hh_status host status @ '' '' @ body))))"

definition sprite_ready :: "SpriteSummary \<Rightarrow> bool" where
  "sprite_ready su =
     (case su_status su of
        None \<Rightarrow> True
      | Some s \<Rightarrow> s = ''ready'' \<or> s = ''running'' \<or> s = ''started'' \<or> s = ''warm'')"

definition nap :: "'w SpritesHost \<Rightarrow> 'w SpritesState \<Rightarrow> 'w SpritesState" where
  "nap host st = st\<lparr>ss_world := hh_sleep host 500 (ss_world st)\<rparr>"

definition ready_turn ::
  "'w SpritesHost \<Rightarrow> SpritesBackend \<Rightarrow> string \<Rightarrow> 'w SpritesState \<Rightarrow> 'w SpritesState \<times> (BackendError, unit) result option" where
  "ready_turn host self name st =
     (case sprites_api host self GET (''/v1/sprites/'' @ name) None st of
        (st, Inl e) \<Rightarrow> (st, Some (Err e))
      | (st, Inr (status, body)) \<Rightarrow>
          if status = 404 then (nap host st, None)
          else if \<not> is_success status
          then (st, Some (Err (Cli (''get sprite '' @ name @ '': '' @ hh_status host status @ '' '' @ body))))
          else let sprite = (case sh_decode host body of
                               Some su \<Rightarrow> su
                             | None \<Rightarrow> \<lparr>su_name = Some name, su_status = None\<rparr>)
               in if sprite_ready sprite then (st, Some (Ok ())) else (nap host st, None))"

definition wait_ready ::
  "'w SpritesHost \<Rightarrow> SpritesBackend \<Rightarrow> string \<Rightarrow> 'w SpritesState \<Rightarrow> 'w SpritesState \<times> (BackendError, unit) result" where
  "wait_ready host self name st =
     (case poll 120 (ready_turn host self name) st of
        (st, Some r) \<Rightarrow> (st, r)
      | (st, None) \<Rightarrow> (st, Err (PortDiscovery (''sprite '' @ name @ '': timed out waiting for ready''))))"

definition upload_agent ::
  "'w SpritesHost \<Rightarrow> SpritesBackend \<Rightarrow> string \<Rightarrow> string \<Rightarrow> 'w SpritesState \<Rightarrow> 'w SpritesState \<times> (BackendError, unit) result" where
  "upload_agent host self name agent_bin st =
     (case sh_read_file host agent_bin (ss_world st) of
        Inl e \<Rightarrow> (st, Err (Io (''read agent binary '' @ sh_debug_path host agent_bin @ '': '' @ e)))
      | Inr bytes \<Rightarrow>
          and_then
            (sprites_send host (''sprites fs/write '' @ name)
               \<lparr>hr_method = PUT, hr_url = api_url self (''/v1/sprites/'' @ name @ ''/fs/write''),
                hr_bearer = sp_token self,
                hr_query = [(''path'', sp_agent_bin self), (''workingDir'', ''/''), (''mode'', ''0755''), (''mkdir'', ''true'')],
                hr_body = BytesBody bytes\<rparr> st)
            (\<lambda>(status, body) st.
               if is_success status then (st, Ok ())
               else (st, Err (Cli (''upload nexal-agent to sprite '' @ name @ '': '' @ hh_status host status @ '' '' @ body)))))"

definition exec_shell ::
  "'w SpritesHost \<Rightarrow> SpritesBackend \<Rightarrow> string \<Rightarrow> string \<Rightarrow> 'w SpritesState \<Rightarrow> 'w SpritesState \<times> (BackendError, unit) result" where
  "exec_shell host self name script st =
     and_then
       (sprites_send host (''sprites exec '' @ name)
          \<lparr>hr_method = POST, hr_url = api_url self (''/v1/sprites/'' @ name @ ''/exec''),
           hr_bearer = sp_token self,
           hr_query = [(''cmd'', ''/bin/sh''), (''cmd'', ''-lc''), (''cmd'', script), (''dir'', ''/''), (''max_run_after_disconnect'', ''30s'')],
           hr_body = NoBody\<rparr> st)
       (\<lambda>(status, body) st.
          if is_success status then (st, Ok ())
          else (st, Err (Cli (''exec in sprite '' @ name @ '': '' @ hh_status host status @ '' '' @ body))))"

definition service_config :: "SpritesBackend \<Rightarrow> json" where
  "service_config self = JObject
     [(''cmd'', JString (sp_agent_bin self)),
      (''args'', JArray [JString ''--listen'', JString (''ws://0.0.0.0:'' @ dec (sp_agent_port self))]),
      (''dir'', JString ''/workspace''), (''needs'', JArray [])]"

definition create_service ::
  "'w SpritesHost \<Rightarrow> SpritesBackend \<Rightarrow> string \<Rightarrow> 'w SpritesState \<Rightarrow> 'w SpritesState \<times> (BackendError, unit) result" where
  "create_service host self name st =
     and_then
       (sprites_api host self PUT (''/v1/sprites/'' @ name @ ''/services/nexal-agent'')
          (Some (service_config self)) st)
       (\<lambda>(status, body) st.
          if \<not> is_success status
          then (st, Err (Cli (''create nexal-agent service in sprite '' @ name @ '': '' @ hh_status host status @ '' '' @ body)))
          else (st, Ok ()))"

definition start_service ::
  "'w SpritesHost \<Rightarrow> SpritesBackend \<Rightarrow> string \<Rightarrow> 'w SpritesState \<Rightarrow> 'w SpritesState \<times> (BackendError, unit) result" where
  "start_service host self name st =
     and_then (sprites_api host self POST (''/v1/sprites/'' @ name @ ''/services/nexal-agent/start'') None st)
       (\<lambda>(status, body) st.
          if is_success status then (st, Ok ())
          else (st, Err (Cli (''start nexal-agent service in sprite '' @ name @ '': '' @ hh_status host status @ '' '' @ body))))"

definition start_agent ::
  "'w SpritesHost \<Rightarrow> SpritesBackend \<Rightarrow> string \<Rightarrow> 'w SpritesState \<Rightarrow> 'w SpritesState \<times> (BackendError, unit) result" where
  "start_agent host self name st =
     and_then (exec_shell host self name ''mkdir -p /workspace /run/nexal/proxy'' st) (\<lambda>_ st.
     and_then (create_service host self name st) (\<lambda>_ st. start_service host self name st))"

definition stop_agent ::
  "'w SpritesHost \<Rightarrow> SpritesBackend \<Rightarrow> string \<Rightarrow> 'w SpritesState \<Rightarrow> 'w SpritesState \<times> (BackendError, unit) result" where
  "stop_agent host self name st =
     and_then (sprites_api host self POST (''/v1/sprites/'' @ name @ ''/services/nexal-agent/stop'') None st) (\<lambda>(status, body) st.
       if is_success status \<or> status = 404 then (st, Ok ())
       else (st, Err (Cli (''stop nexal-agent service in sprite '' @ name @ '': '' @ hh_status host status @ '' '' @ body))))"

section \<open>Tunnels\<close>

definition local_tunnel_url ::
  "'w SpritesHost \<Rightarrow> string \<Rightarrow> 'w SpritesState \<Rightarrow> 'w SpritesState \<times> (BackendError, string) result" where
  "local_tunnel_url host name st =
     (case hm_get (ss_tunnels st) name of
        Some existing \<Rightarrow> (st, Ok (''ws://'' @ th_local_addr existing))
      | None \<Rightarrow>
          (case on_world (sh_bind host) st of
             (st, BindFails e) \<Rightarrow> (st, Err (Io (''bind sprites tunnel listener: '' @ e)))
           | (st, LocalAddrFails e) \<Rightarrow> (st, Err (Io (''sprites tunnel local_addr: '' @ e)))
           | (st, Bound local_addr) \<Rightarrow>
               let task = ss_next_task st
               in (st\<lparr>ss_next_task := task + 1, ss_running := ss_running st @ [task],
                      ss_tunnels := hm_insert name \<lparr>th_local_addr = local_addr, th_task = task\<rparr> (ss_tunnels st)\<rparr>,
                   Ok (''ws://'' @ local_addr))))"

text \<open>A dropped handle aborts its task; a task whose \<^verbatim>\<open>accept\<close> fails ends by itself.\<close>

definition stop_task :: "nat \<Rightarrow> 'w SpritesState \<Rightarrow> 'w SpritesState" where
  "stop_task task st = st\<lparr>ss_running := removeAll task (ss_running st)\<rparr>"

definition remove_tunnel :: "string \<Rightarrow> 'w SpritesState \<Rightarrow> 'w SpritesState" where
  "remove_tunnel name st =
     (case hm_get (ss_tunnels st) name of
        None \<Rightarrow> st
      | Some th \<Rightarrow> stop_task (th_task th) (st\<lparr>ss_tunnels := hm_remove name (ss_tunnels st)\<rparr>))"

section \<open>The backend\<close>

definition sprites_prepare ::
  "'w SpritesHost \<Rightarrow> SpritesBackend \<Rightarrow> string \<Rightarrow> string \<Rightarrow> 'w SpritesState \<Rightarrow> 'w SpritesState \<times> (BackendError, unit) result" where
  "sprites_prepare host self name agent_bin st =
     and_then (sprite_exists host self name st) (\<lambda>found st.
     and_then (if \<not> found then create_sprite host self name st else (st, Ok ())) (\<lambda>_ st.
     and_then (wait_ready host self name st) (\<lambda>_ st.
     and_then (stop_agent host self name st) (\<lambda>_ st.
     and_then (upload_agent host self name agent_bin st) (\<lambda>_ st.
       start_agent host self name st)))))"

definition sprites_ensure ::
  "'w SpritesHost \<Rightarrow> SpritesBackend \<Rightarrow> ContainerSpec \<Rightarrow> 'w SpritesState \<Rightarrow> 'w SpritesState \<times> (BackendError, ContainerHandle) result" where
  "sprites_ensure host self spec st =
     (let name = sprite_name self (cs_name spec)
      in and_then (sprites_prepare host self name (cs_agent_bin spec) st) (\<lambda>_ st.
         and_then (local_tunnel_url host name st) (\<lambda>url st.
           (st, Ok \<lparr>ch_name = name, ch_url = url, ch_port_map = []\<rparr>))))"

definition sprites_destroy ::
  "'w SpritesHost \<Rightarrow> SpritesBackend \<Rightarrow> string \<Rightarrow> 'w SpritesState \<Rightarrow> 'w SpritesState \<times> (BackendError, unit) result" where
  "sprites_destroy host self name st =
     and_then (sprites_api host self DELETE (''/v1/sprites/'' @ name) None (remove_tunnel name st)) (\<lambda>(status, body) st.
       if is_success status \<or> status = 404 then (st, Ok ())
       else (st, Err (Cli (''delete sprite '' @ name @ '': '' @ hh_status host status @ '' '' @ body))))"

definition sprites_backend :: "'w SpritesHost \<Rightarrow> SpritesBackend \<Rightarrow> 'w SpritesState ContainerBackend" where
  "sprites_backend host self =
     \<lparr>be_ensure = sprites_ensure host self, be_destroy = sprites_destroy host self,
      be_exists = sprite_exists host self, be_url = local_tunnel_url host\<rparr>"

section \<open>Interface\<close>

lemma sprites_ensure_name: "sprites_ensure host self spec w = (w', Inr h) \<Longrightarrow> ch_name h = sprite_name self (cs_name spec)"
  by (auto simp: sprites_ensure_def Let_def and_then_eq_Ok)

lemma sprite_name_inj: "inj (sprite_name self)"
  by (auto simp: inj_def sprite_name_def split: option.splits)

interpretation sprites: container_backend "sprites_backend host self" "sprite_name self"
  by unfold_locales (auto simp: sprites_backend_def sprites_ensure_name sprite_name_inj)

section \<open>Histories of the tunnel table\<close>

definition sprites_start :: "'w \<Rightarrow> 'w SpritesState" where
  "sprites_start w = \<lparr>ss_world = w, ss_tunnels = [], ss_next_task = 0, ss_running = []\<rparr>"

datatype sprites_op = SEnsure ContainerSpec | SUrl string | SExists string | SDestroy string | AcceptFails nat

fun sprites_step :: "'w SpritesHost \<Rightarrow> SpritesBackend \<Rightarrow> 'w SpritesState \<Rightarrow> sprites_op \<Rightarrow> 'w SpritesState" where
  "sprites_step host self st (SEnsure spec) = fst (sprites_ensure host self spec st)"
| "sprites_step host self st (SUrl name) = fst (local_tunnel_url host name st)"
| "sprites_step host self st (SExists name) = fst (sprite_exists host self name st)"
| "sprites_step host self st (SDestroy name) = fst (sprites_destroy host self name st)"
| "sprites_step host self st (AcceptFails task) = stop_task task st"

text \<open>The part of the state that the calls of the API leave alone.\<close>

definition tun :: "'w SpritesState \<Rightarrow> (string, TunnelHandle) hashmap \<times> nat \<times> nat list" where
  "tun st = (ss_tunnels st, ss_next_task st, ss_running st)"

lemma tun_on_world [simp]: "tun (fst (on_world f st)) = tun st"
  by (simp add: on_world_def tun_def split: prod.splits)

lemma tun_send [simp]: "tun (fst (sprites_send host what req st)) = tun st"
  by (simp add: sprites_send_def)

lemma tun_api [simp]: "tun (fst (sprites_api host self meth path body st)) = tun st"
  by (simp add: sprites_api_def)

lemma tun_nap [simp]: "tun (nap host st) = tun st"
  by (simp add: nap_def tun_def)

lemmas and_then_tun = and_then_keeps [where P = "\<lambda>u. tun u = tun st" for st]

lemma tun_exists [simp]: "tun (fst (sprite_exists host self name st)) = tun st"
  unfolding sprite_exists_def by (rule and_then_tun) auto

lemma tun_create [simp]: "tun (fst (create_sprite host self name st)) = tun st"
  unfolding create_sprite_def by (rule and_then_tun) auto

lemma tun_ready_turn: "tun (fst (ready_turn host self name st)) = tun st"
  using tun_api [of host self GET "''/v1/sprites/'' @ name" None st]
  by (auto simp: ready_turn_def Let_def simp del: tun_api split: prod.splits sum.splits)

lemma tun_wait_ready [simp]: "tun (fst (wait_ready host self name st)) = tun st"
proof -
  have "tun (fst (poll 120 (ready_turn host self name) st)) = tun st"
    by (rule poll_keeps [where P = "\<lambda>u. tun u = tun st"]) (simp_all add: tun_ready_turn)
  then show ?thesis by (auto simp: wait_ready_def split: prod.splits option.splits)
qed

lemma tun_stop_agent [simp]: "tun (fst (stop_agent host self name st)) = tun st"
  unfolding stop_agent_def by (rule and_then_tun) auto

lemma tun_upload [simp]: "tun (fst (upload_agent host self name bin st)) = tun st"
proof (cases "sh_read_file host bin (ss_world st)")
  case (Inr bytes)
  show ?thesis unfolding upload_agent_def Inr sum.case by (rule and_then_tun) auto
qed (simp add: upload_agent_def)

lemma tun_exec [simp]: "tun (fst (exec_shell host self name script st)) = tun st"
  unfolding exec_shell_def by (rule and_then_tun) auto

lemma tun_create_service [simp]: "tun (fst (create_service host self name st)) = tun st"
  unfolding create_service_def by (rule and_then_tun) auto

lemma tun_start_service [simp]: "tun (fst (start_service host self name st)) = tun st"
  unfolding start_service_def by (rule and_then_tun) auto

lemma tun_start_agent [simp]: "tun (fst (start_agent host self name st)) = tun st"
  unfolding start_agent_def by (intro and_then_tun [where st = st]) simp_all

lemma tun_prepare [simp]: "tun (fst (sprites_prepare host self name bin st)) = tun st"
  unfolding sprites_prepare_def by (intro and_then_tun [where st = st]) simp_all

text \<open>Every running task belongs to a tunnel of the table, and no two tunnels share a task.\<close>

definition table_ok :: "(string, TunnelHandle) hashmap \<Rightarrow> nat \<Rightarrow> nat list \<Rightarrow> bool" where
  "table_ok T next running \<longleftrightarrow>
     distinct running \<and>
     (\<forall>n th. hm_get T n = Some th \<longrightarrow> th_task th < next) \<and>
     (\<forall>m n th th'. hm_get T m = Some th \<longrightarrow> hm_get T n = Some th' \<longrightarrow> th_task th = th_task th' \<longrightarrow> m = n) \<and>
     (\<forall>t \<in> set running. \<exists>n th. hm_get T n = Some th \<and> th_task th = t)"

lemma table_okD:
  assumes "table_ok T N R"
  shows "distinct R" "hm_get T n = Some th \<Longrightarrow> th_task th < N"
    "hm_get T m = Some th \<Longrightarrow> hm_get T n = Some th' \<Longrightarrow> th_task th = th_task th' \<Longrightarrow> m = n"
    "t \<in> set R \<Longrightarrow> \<exists>n th. hm_get T n = Some th \<and> th_task th = t"
  using assms unfolding table_ok_def by blast+

lemma table_ok_open:
  assumes ok: "table_ok T N R" and new: "hm_get T n = None"
  shows "table_ok (hm_insert n \<lparr>th_local_addr = a, th_task = N\<rparr> T) (Suc N) (R @ [N])" (is "table_ok ?T _ _")
  unfolding table_ok_def
proof (intro conjI allI ballI impI)
  note lt = table_okD(2) [OF ok]
  have fresh: "N \<notin> set R" using table_okD(4) [OF ok] lt by blast
  then show "distinct (R @ [N])" using table_okD(1) [OF ok] by simp
  show "th_task th < Suc N" if "hm_get ?T m = Some th" for m th using that lt [of m th] by (auto split: if_splits)
  show "m = k" if "hm_get ?T m = Some th" "hm_get ?T k = Some th'" "th_task th = th_task th'" for m k th th'
    using that lt [of m th] lt [of k th'] table_okD(3) [OF ok, of m th k th'] by (auto split: if_splits)
  show "\<exists>m th. hm_get ?T m = Some th \<and> th_task th = t" if t: "t \<in> set (R @ [N])" for t
  proof (cases "t = N")
    case True
    then show ?thesis by (intro exI [of _ n]) simp
  next
    case False
    then obtain m th where m: "hm_get T m = Some th" "th_task th = t" using t table_okD(4) [OF ok, of t] by auto
    then have "m \<noteq> n" using new by auto
    then show ?thesis using m by (intro exI [of _ m]) simp
  qed
qed

lemma table_ok_close:
  assumes ok: "table_ok T N R" and th: "hm_get T n = Some th"
  shows "table_ok (hm_remove n T) N (removeAll (th_task th) R)"
  unfolding table_ok_def
proof (intro conjI allI ballI impI)
  show "distinct (removeAll (th_task th) R)" using table_okD(1) [OF ok] by (rule distinct_removeAll)
  show "th_task x < N" if "hm_get (hm_remove n T) m = Some x" for m x
    using that table_okD(2) [OF ok, of m x] by (simp split: if_splits)
  show "m = k" if "hm_get (hm_remove n T) m = Some x" "hm_get (hm_remove n T) k = Some y" "th_task x = th_task y" for m k x y
    using that table_okD(3) [OF ok, of m x k y] by (simp split: if_splits)
  show "\<exists>m x. hm_get (hm_remove n T) m = Some x \<and> th_task x = t" if t: "t \<in> set (removeAll (th_task th) R)" for t
  proof -
    obtain m x where m: "hm_get T m = Some x" "th_task x = t" using t table_okD(4) [OF ok, of t] by auto
    then have "m \<noteq> n" using t th by auto
    then show ?thesis using m by (intro exI [of _ m]) simp
  qed
qed

definition tunnels_ok :: "'w SpritesState \<Rightarrow> bool" where
  "tunnels_ok st \<longleftrightarrow> (case tun st of (T, next, running) \<Rightarrow> table_ok T next running)"

lemma tunnels_ok_tun: "tun u = tun st \<Longrightarrow> tunnels_ok u = tunnels_ok st"
  by (simp add: tunnels_ok_def)

lemma tunnels_ok_url: "tunnels_ok st \<Longrightarrow> tunnels_ok (fst (local_tunnel_url host name st))"
proof (cases "hm_get (ss_tunnels st) name")
  case None
  assume ok: "tunnels_ok st"
  obtain st1 b where w: "on_world (sh_bind host) st = (st1, b)" by force
  then have t: "tun st1 = tun st" using tun_on_world [of "sh_bind host" st] by simp
  show ?thesis
  proof (cases b)
    case (Bound addr)
    have "table_ok (ss_tunnels st1) (ss_next_task st1) (ss_running st1)" "hm_get (ss_tunnels st1) name = None"
      using ok t None by (simp_all add: tunnels_ok_def tun_def)
    from table_ok_open [OF this] show ?thesis
      using None w Bound by (simp add: local_tunnel_url_def Let_def tunnels_ok_def tun_def)
  qed (use tunnels_ok_tun [OF t] ok None w in \<open>simp_all add: local_tunnel_url_def\<close>)
qed (simp add: local_tunnel_url_def)

lemma tunnels_ok_stop: "tunnels_ok st \<Longrightarrow> tunnels_ok (stop_task t st)"
  by (auto simp: tunnels_ok_def table_ok_def tun_def stop_task_def distinct_removeAll)

lemma tunnels_ok_remove: "tunnels_ok st \<Longrightarrow> tunnels_ok (remove_tunnel name st)"
  using table_ok_close [of "ss_tunnels st" "ss_next_task st" "ss_running st" name]
  by (auto simp: remove_tunnel_def stop_task_def tunnels_ok_def tun_def split: option.splits)

lemma tun_destroy: "tun (fst (sprites_destroy host self name st)) = tun (remove_tunnel name st)"
  unfolding sprites_destroy_def by (rule and_then_tun) auto

lemma tunnels_ok_ensure:
  assumes "tunnels_ok st"
  shows "tunnels_ok (fst (sprites_ensure host self spec st))"
  unfolding sprites_ensure_def Let_def
  by (intro and_then_keeps [where P = tunnels_ok])
    (simp_all add: tunnels_ok_tun [OF tun_prepare] assms tunnels_ok_url)

lemma tunnels_ok_step: "tunnels_ok st \<Longrightarrow> tunnels_ok (sprites_step host self st op)"
  by (cases op) (simp_all add: tunnels_ok_ensure tunnels_ok_url tunnels_ok_stop tunnels_ok_remove
      tunnels_ok_tun [OF tun_destroy] tunnels_ok_tun [OF tun_exists])

lemma tunnels_ok_history: "tunnels_ok st \<Longrightarrow> tunnels_ok (foldl (sprites_step host self) st ops)"
  by (induction ops arbitrary: st) (simp_all add: tunnels_ok_step)

lemma tunnels_ok_start: "tunnels_ok (sprites_start w)"
  by (simp add: tunnels_ok_def table_ok_def tun_def sprites_start_def)

section \<open>One tunnelled connection\<close>

text \<open>What happens on the two sides of a connection, with the result of the write that follows a read.\<close>

datatype relay_event =
    FromTcp "byte list" "(string, unit) result"
  | TcpFails string
  | FromWs "ws_item option" "(string, unit) result"

record relay =
  rl_to_ws :: "ws_message list"
  rl_to_tcp :: "byte list"

definition as_bytes :: "string \<Rightarrow> byte list" where
  "as_bytes s = map (\<lambda>c. word_of_nat (of_char c)) s"

text \<open>One turn of the loop that is polled; \<open>Some\<close> ends the connection.\<close>

fun relay_turn :: "relay_event \<Rightarrow> relay \<Rightarrow> relay \<times> (BackendError, unit) result option" where
  "relay_turn (TcpFails e) rl = (rl, Some (Err (Io (''tcp'' @ [CHR 0xE2, CHR 0x86, CHR 0x92] @ ''sprites proxy: '' @ e))))"
| "relay_turn (FromTcp buf sent) rl =
     (if buf = [] then (rl\<lparr>rl_to_ws := rl_to_ws rl @ [WsClose]\<rparr>, Some (Ok ()))
      else case sent of
             Inl e \<Rightarrow> (rl, Some (Err (Io (''tcp'' @ [CHR 0xE2, CHR 0x86, CHR 0x92] @ ''sprites proxy: '' @ e))))
           | Inr _ \<Rightarrow> (rl\<lparr>rl_to_ws := rl_to_ws rl @ [WsBinary buf]\<rparr>, None))"
| "relay_turn (FromWs item written) rl =
     (let put = (\<lambda>bytes. case written of
             Inl e \<Rightarrow> (rl, Some (Err (Io (''sprites proxy'' @ [CHR 0xE2, CHR 0x86, CHR 0x92] @ ''tcp: '' @ e))))
           | Inr _ \<Rightarrow> (rl\<lparr>rl_to_tcp := rl_to_tcp rl @ bytes\<rparr>, None))
      in case item of
           None \<Rightarrow> (rl, Some (Ok ()))
         | Some (Inl e) \<Rightarrow> (rl, Some (Err (Io (''sprites proxy'' @ [CHR 0xE2, CHR 0x86, CHR 0x92] @ ''tcp: '' @ e))))
         | Some (Inr msg) \<Rightarrow>
             (case msg of
                WsBinary bytes \<Rightarrow> put bytes
              | WsText t \<Rightarrow> put (as_bytes t)
              | WsClose \<Rightarrow> (rl, Some (Ok ()))
              | _ \<Rightarrow> (rl, None)))"

fun relay_loop :: "relay_event list \<Rightarrow> relay \<Rightarrow> relay \<times> (BackendError, unit) result option" where
  "relay_loop [] rl = (rl, None)"
| "relay_loop (ev # evs) rl =
     (case relay_turn ev rl of (rl, Some r) \<Rightarrow> (rl, Some r) | (rl, None) \<Rightarrow> relay_loop evs rl)"

text \<open>The connection to the proxy: what building the request and its header, connecting and sending the
  first message give, and the message that arrives within 500 ms, if one does.\<close>

record proxy_opening =
  po_request :: "(string, unit) result"
  po_auth :: "(string, unit) result"
  po_connect :: "(string, unit) result"
  po_init :: "(string, unit) result"
  po_first :: "ws_item option"
  po_first_write :: "(string, unit) result"

definition first_message :: "proxy_opening \<Rightarrow> relay \<Rightarrow> relay \<times> (BackendError, unit) result option" where
  "first_message po rl =
     (case po_first po of
        None \<Rightarrow> (rl, None)
      | Some (Inl e) \<Rightarrow> (rl, Some (Err (Io (''sprites proxy init response: '' @ e))))
      | Some (Inr msg) \<Rightarrow>
          (case msg of
             WsText t \<Rightarrow> (rl, None)
           | WsBinary bytes \<Rightarrow>
               (case po_first_write po of
                  Inl e \<Rightarrow> (rl, Some (Err (Io (''sprites proxy initial bytes: '' @ e))))
                | Inr _ \<Rightarrow> (rl\<lparr>rl_to_tcp := rl_to_tcp rl @ bytes\<rparr>, None))
           | WsClose \<Rightarrow> (rl, Some (Ok ()))
           | _ \<Rightarrow> (rl, None)))"

definition proxy_one :: "(json \<Rightarrow> string) \<Rightarrow> proxy_opening \<Rightarrow> nat \<Rightarrow> relay_event list \<Rightarrow> relay \<times> (BackendError, unit) result option" where
  "proxy_one show_json po port evs =
     (let rl = \<lparr>rl_to_ws = [], rl_to_tcp = []\<rparr>
      in case po_request po of
           Inl e \<Rightarrow> (rl, Some (Err (Io (''build sprites proxy request: '' @ e))))
         | Inr _ \<Rightarrow>
             (case po_auth po of
                Inl e \<Rightarrow> (rl, Some (Err (Io (''build sprites proxy auth header: '' @ e))))
              | Inr _ \<Rightarrow>
                  (case po_connect po of
                     Inl e \<Rightarrow> (rl, Some (Err (Io (''connect sprites proxy: '' @ e))))
                   | Inr _ \<Rightarrow>
                       (case po_init po of
                          Inl e \<Rightarrow> (rl, Some (Err (Io (''sprites proxy init: '' @ e))))
                        | Inr _ \<Rightarrow>
                            let rl = rl\<lparr>rl_to_ws := [WsText (show_json
                                  (JObject [(''host'', JString ''127.0.0.1''), (''port'', JNumber port)]))]\<rparr>
                            in (case first_message po rl of
                                  (rl, Some r) \<Rightarrow> (rl, Some r)
                                | (rl, None) \<Rightarrow> relay_loop evs rl)))))"

section \<open>What a connection carries\<close>

fun payload :: "ws_message \<Rightarrow> byte list" where
  "payload (WsBinary bytes) = bytes"
| "payload (WsText t) = as_bytes t"
| "payload _ = []"

fun frame_bytes :: "ws_message \<Rightarrow> byte list" where
  "frame_bytes (WsBinary bytes) = bytes"
| "frame_bytes _ = []"

fun tcp_input :: "relay_event list \<Rightarrow> byte list" where
  "tcp_input [] = []"
| "tcp_input (FromTcp buf _ # evs) = buf @ tcp_input evs"
| "tcp_input (_ # evs) = tcp_input evs"

fun ws_input :: "relay_event list \<Rightarrow> byte list" where
  "ws_input [] = []"
| "ws_input (FromWs (Some (Inr msg)) _ # evs) = payload msg @ ws_input evs"
| "ws_input (_ # evs) = ws_input evs"

definition sent_bytes :: "relay \<Rightarrow> byte list" where
  "sent_bytes rl = concat (map frame_bytes (rl_to_ws rl))"

lemma relay_turn_None:
  "relay_turn ev rl = (rl', None) \<Longrightarrow>
     sent_bytes rl' = sent_bytes rl @ tcp_input [ev] \<and> rl_to_tcp rl' = rl_to_tcp rl @ ws_input [ev]"
proof (cases ev)
  case (FromWs item written)
  assume "relay_turn ev rl = (rl', None)"
  then show ?thesis using FromWs
    by (auto simp: Let_def sent_bytes_def split: option.splits sum.splits ws_message.splits)
qed (auto simp: sent_bytes_def split: if_splits sum.splits)

lemma relay_turn_Some:
  "relay_turn ev rl = (rl', Some r) \<Longrightarrow> sent_bytes rl' = sent_bytes rl \<and> rl_to_tcp rl' = rl_to_tcp rl"
proof (cases ev)
  case (FromWs item written)
  assume "relay_turn ev rl = (rl', Some r)"
  then show ?thesis using FromWs
    by (auto simp: Let_def sent_bytes_def split: option.splits sum.splits ws_message.splits)
qed (auto simp: sent_bytes_def split: if_splits sum.splits)

lemma tcp_input_append: "tcp_input (evs @ evs') = tcp_input evs @ tcp_input evs'"
  by (induction evs rule: tcp_input.induct) auto

lemma ws_input_append: "ws_input (evs @ evs') = ws_input evs @ ws_input evs'"
  by (induction evs rule: ws_input.induct) auto

lemma relay_loop_bytes:
  "relay_loop evs rl = (rl', r) \<Longrightarrow>
     \<exists>k. sent_bytes rl' = sent_bytes rl @ tcp_input (take k evs) \<and> rl_to_tcp rl' = rl_to_tcp rl @ ws_input (take k evs) \<and>
       (r = None \<longrightarrow> k = length evs)"
proof (induction evs arbitrary: rl)
  case (Cons ev evs)
  obtain rl1 q where t: "relay_turn ev rl = (rl1, q)" by force
  show ?case
  proof (cases q)
    case None
    then have "relay_loop evs rl1 = (rl', r)" using Cons.prems t by simp
    then obtain k where k: "sent_bytes rl' = sent_bytes rl1 @ tcp_input (take k evs)" "rl_to_tcp rl' = rl_to_tcp rl1 @ ws_input (take k evs)"
      "r = None \<longrightarrow> k = length evs" using Cons.IH by blast
    then show ?thesis
      using relay_turn_None [OF t [unfolded None]] tcp_input_append [of "[ev]" "take k evs"] ws_input_append [of "[ev]" "take k evs"]
      by (intro exI [of _ "Suc k"]) simp
  next
    case (Some x)
    then show ?thesis using Cons.prems t relay_turn_Some [of ev rl rl1 x] by (intro exI [of _ 0]) auto
  qed
qed simp

text \<open>The bytes of the first message: a binary one belongs to the connection, a text is the answer of the
  proxy itself.\<close>

definition first_bytes :: "proxy_opening \<Rightarrow> byte list" where
  "first_bytes po = (case po_first po of Some (Inr msg) \<Rightarrow> frame_bytes msg | _ \<Rightarrow> [])"

lemma first_message_bytes:
  "first_message po rl = (rl', r) \<Longrightarrow> sent_bytes rl' = sent_bytes rl \<and>
     (if r = None then rl_to_tcp rl' = rl_to_tcp rl @ first_bytes po else rl_to_tcp rl' = rl_to_tcp rl)"
  by (auto simp: first_message_def first_bytes_def sent_bytes_def split: option.splits sum.splits ws_message.splits)

section \<open>Properties\<close>

text \<open>Whatever ensure, url, exists and destroy do and whichever accepting tasks fail, every running
  task belongs to exactly one tunnel of the table; destroying a sprite removes its tunnel, stops its
  task and no other, and leaves the other tunnels as they are; the address of a tunnel stays the same
  as long as it exists.\<close>

theorem sprites_tunnels_owned:
  assumes "st = foldl (sprites_step host self) (sprites_start w) ops"
  shows "distinct (ss_running st) \<and>
     (\<forall>t \<in> set (ss_running st). \<exists>!n. \<exists>th. hm_get (ss_tunnels st) n = Some th \<and> th_task th = t) \<and>
     (\<forall>n th. hm_get (ss_tunnels st) n = Some th \<longrightarrow>
        local_tunnel_url host n st = (st, Ok (''ws://'' @ th_local_addr th)) \<and>
        (let st' = fst (sprites_destroy host self n st) in
           hm_get (ss_tunnels st') n = None \<and> (\<forall>m. m \<noteq> n \<longrightarrow> hm_get (ss_tunnels st') m = hm_get (ss_tunnels st) m) \<and>
           set (ss_running st') = set (ss_running st) - {th_task th}))"
proof (intro conjI ballI allI impI)
  have "tunnels_ok st" unfolding assms by (rule tunnels_ok_history [OF tunnels_ok_start])
  then have ok: "table_ok (ss_tunnels st) (ss_next_task st) (ss_running st)" by (simp add: tunnels_ok_def tun_def)
  show "distinct (ss_running st)" by (rule table_okD(1) [OF ok])
  show "\<exists>!n. \<exists>th. hm_get (ss_tunnels st) n = Some th \<and> th_task th = t" if "t \<in> set (ss_running st)" for t
    using table_okD(4) [OF ok that] table_okD(3) [OF ok] by metis
  fix n th
  assume th: "hm_get (ss_tunnels st) n = Some th"
  then show "local_tunnel_url host n st = (st, Ok (''ws://'' @ th_local_addr th))" by (simp add: local_tunnel_url_def)
  show "let st' = fst (sprites_destroy host self n st) in
           hm_get (ss_tunnels st') n = None \<and> (\<forall>m. m \<noteq> n \<longrightarrow> hm_get (ss_tunnels st') m = hm_get (ss_tunnels st) m) \<and>
           set (ss_running st') = set (ss_running st) - {th_task th}"
    using tun_destroy [of host self n st] th by (simp add: tun_def remove_tunnel_def stop_task_def)
qed

definition sample_sprites :: "nat SpritesHost" where
  "sample_sprites =
     \<lparr>hh_send = (\<lambda>req w. (w, Reply 200 [])), hh_status = (\<lambda>s. []), hh_sleep = (\<lambda>ms w. w),
      sh_decode = (\<lambda>b. None), sh_read_file = (\<lambda>p w. Ok []), sh_debug_path = (\<lambda>p. p),
      sh_bind = (\<lambda>w. (w + 1, Bound (dec w)))\<rparr>"

definition sample_sprites_backend :: SpritesBackend where
  "sample_sprites_backend =
     \<lparr>sp_token = ''t'', sp_api_base = ''https://api'', sp_name_prefix = None, sp_agent_port = 9, sp_agent_bin = ''/agent''\<rparr>"

definition sample_two_tunnels :: "nat SpritesState" where
  "sample_two_tunnels =
     foldl (sprites_step sample_sprites sample_sprites_backend) (sprites_start 0) [SUrl ''a'', SUrl ''b'']"

theorem sprites_tunnels_owned_witness:
  "set (ss_running (fst (sprites_destroy sample_sprites sample_sprites_backend ''b'' sample_two_tunnels))) = {0} \<and>
   local_tunnel_url sample_sprites ''b'' sample_two_tunnels = (sample_two_tunnels, Ok ''ws://1'')"
proof -
  have e: "hm_get (ss_tunnels sample_two_tunnels) ''b'' = Some \<lparr>th_local_addr = ''1'', th_task = 1\<rparr>"
    "ss_running sample_two_tunnels = [0, 1]" by code_simp+
  show ?thesis using sprites_tunnels_owned [OF sample_two_tunnels_def] e by (auto simp: Let_def)
qed

text \<open>A task whose accept fails leaves its tunnel in the table: the address is still handed out, and
  nothing accepts there any more.\<close>

lemma dead_tunnel_still_served:
  "case local_tunnel_url sample_sprites ''b'' (stop_task 1 sample_two_tunnels) of (st, r) \<Rightarrow>
     r = Ok ''ws://1'' \<and> 1 \<notin> set (ss_running st)"
  by code_simp

text \<open>A tunnelled connection carries bytes in order, in both directions: what goes to the sprite in
  binary frames are the bytes read from the local connection, and what is written to the local
  connection are the bytes of the messages from the sprite, a first text message within half a second
  aside; up to the event that ends the connection nothing is lost, added or reordered.\<close>

theorem sprites_tunnel_relays:
  "(case proxy_one show_json po port evs of (rl, r) \<Rightarrow>
      \<exists>k. sent_bytes rl = tcp_input (take k evs) \<and>
        rl_to_tcp rl \<in> {first_bytes po @ ws_input (take k evs), []} \<and>
        (r = None \<longrightarrow> k = length evs \<and> rl_to_tcp rl = first_bytes po @ ws_input evs))"
proof (cases "proxy_one show_json po port evs")
  case (Pair rl r)
  let ?start = "\<lparr>rl_to_ws = [WsText (show_json (JObject [(''host'', JString ''127.0.0.1''), (''port'', JNumber port)]))], rl_to_tcp = []\<rparr>"
  have start: "sent_bytes ?start = []" "rl_to_tcp ?start = []" by (simp_all add: sent_bytes_def)
  obtain rl1 q where f: "first_message po ?start = (rl1, q)" by force
  note fb = first_message_bytes [OF f]
  consider "sent_bytes rl = []" "rl_to_tcp rl = []" "r \<noteq> None" | "q = None" "relay_loop evs rl1 = (rl, r)"
    using Pair f fb start by (cases q) (auto simp: proxy_one_def Let_def sent_bytes_def split: sum.splits)
  then show ?thesis
  proof cases
    case 1
    then show ?thesis unfolding Pair by (auto intro: exI [of _ 0])
  next
    case 2
    obtain k where "sent_bytes rl = sent_bytes rl1 @ tcp_input (take k evs)" "rl_to_tcp rl = rl_to_tcp rl1 @ ws_input (take k evs)"
      "r = None \<longrightarrow> k = length evs" using relay_loop_bytes [OF 2(2)] by blast
    then show ?thesis unfolding Pair prod.case using fb start 2(1) by (intro exI [of _ k]) auto
  qed
qed

theorem sprites_tunnel_relays_witness:
  "rl_to_tcp (fst (proxy_one (\<lambda>j. [])
     \<lparr>po_request = Ok (), po_auth = Ok (), po_connect = Ok (), po_init = Ok (), po_first = Some (Ok (WsBinary [7])),
      po_first_write = Ok ()\<rparr> 9100
     [FromWs (Some (Ok (WsBinary [1, 2]))) (Ok ()), FromTcp [3] (Ok ())])) = [7, 1, 2]"
  (is "rl_to_tcp (fst (proxy_one _ ?po _ ?evs)) = _")
proof -
  have "snd (proxy_one (\<lambda>j. []) ?po 9100 ?evs) = None"
    by (simp add: proxy_one_def first_message_def)
  then show ?thesis using sprites_tunnel_relays [where show_json = "\<lambda>j. []" and po = ?po and port = 9100 and evs = ?evs]
    by (auto simp: first_bytes_def split: prod.splits)
qed

end
