(* ===== verification/Backends.thy ===== *)
theory Backends
  imports Podman Fly Kubernetes Sprites
begin

text \<open>
  The four container backends behind the interface of \<^verbatim>\<open>backend.rs\<close>: what their clients
  rely on, through the interpretations of \<open>container_backend\<close>.
\<close>

text \<open>C26. Whichever backend the gateway runs on and whatever it answers, the warm pool never hands out a
  container twice, nor one that it still holds: the names handed out and held are distinct after every
  sequence of creations and takings.\<close>

theorem warm_pool_hands_out_once:
  "distinct (pool_names (podman_backend phost pself) ops (pool_new n img pre bin mem cpus pids net) pw) \<and>
   distinct (pool_names (fly_backend fhost cd fself) ops (pool_new n img pre bin mem cpus pids net) fw) \<and>
   distinct (pool_names (k8s_backend khost kself) ops (pool_new n img pre bin mem cpus pids net) kw) \<and>
   distinct (pool_names (sprites_backend shost sself) ops (pool_new n img pre bin mem cpus pids net) sw)"
  by (intro conjI podman.pool_names_distinct fly.pool_names_distinct k8s.pool_names_distinct sprites.pool_names_distinct)

end
