(* ===== verification/Agent_Start.thy ===== *)
theory Agent_Start
  imports Agent_Listener Backends
begin

text \<open>
  How the backends start the agent and the agent's listener fit together: the URL each backend
  passes to \<^verbatim>\<open>--listen\<close>.
\<close>

definition json_field :: "string \<Rightarrow> json \<Rightarrow> json option" where
  "json_field k j = (case j of JObject m \<Rightarrow> map_of m k | _ \<Rightarrow> None)"

definition json_strings :: "json \<Rightarrow> string list" where
  "json_strings j = (case j of JArray xs \<Rightarrow> List.map_filter (\<lambda>x. case x of JString s \<Rightarrow> Some s | _ \<Rightarrow> None) xs | _ \<Rightarrow> [])"

text \<open>The command line of the agent on each backend.\<close>

definition agent_command :: "json \<Rightarrow> string list" where
  "agent_command j =
     (case Option.bind (json_field ''init'' j) (json_field ''exec'') of
        Some exec \<Rightarrow> json_strings exec
      | None \<Rightarrow> (case json_field ''args'' j of Some args \<Rightarrow> json_strings args | None \<Rightarrow> []))"

definition pod_agent :: "Pod \<Rightarrow> Container" where
  "pod_agent pod = hd (ps_containers (pod_spec pod))"

lemma listen_any:
  assumes "port \<le> 65535"
  shows "parse_listen_url (''ws://[::]:'' @ dec port) = Ok (V6 (replicate 8 0) 0 port)"
  using parse_unspecified [OF assms] strip_prefix_append [of "''ws://''" "''[::]:'' @ dec port"]
  by (simp add: parse_listen_url_def numeral_eq_Suc)

lemma listen_v4:
  assumes "length ip = 4" "list_all (\<lambda>x. x \<le> 255) ip" "port \<le> 65535"
  shows "parse_listen_url (''ws://'' @ show_v4 ip @ CHR '':'' # dec port) = Ok (V4 ip port)"
  using parse_shown_v4 [OF assms] strip_prefix_append [of "''ws://''" "show_v4 ip @ CHR '':'' # dec port"]
  by (simp add: parse_listen_url_def)

lemma listen_every_v4:
  assumes "port \<le> 65535"
  shows "parse_listen_url (''ws://0.0.0.0:'' @ dec port) = Ok (V4 [0, 0, 0, 0] port)"
  using listen_v4 [of "[0, 0, 0, 0]" port] assms by (simp add: dec_0)

lemma parse_listen_valid: "parse_listen_url url = Ok a \<Longrightarrow> valid_addr a"
  by (auto simp: parse_listen_url_def split: option.splits intro: parse_socket_addr_valid)

text \<open>C39. Agents can be started: the URL that each backend passes to the agent is one that the agent's
  listener accepts, for all addresses of the container and the port that the backend publishes or
  dials, and what the listener accepts is always a valid address: four bytes or eight groups, and a
  port of 16 bits.\<close>

theorem backends_start_agents:
  assumes "sp_agent_port sself \<le> 65535"
  shows "parse_listen_url (last (create_args pself spec now)) = Ok (V6 (replicate 8 0) 0 CONTAINER_WS_PORT) \<and>
    ''--publish=127.0.0.1::'' @ dec CONTAINER_WS_PORT @ ''/tcp'' \<in> set (create_args pself spec now) \<and>
    parse_listen_url (last (c_command (pod_agent (build_pod kself spec)))) = Ok (V6 (replicate 8 0) 0 K8S_WS_PORT) \<and>
    parse_listen_url (last (agent_command (machine_config fself spec))) = Ok (V6 (replicate 8 0) 0 AGENT_WS_PORT) \<and>
    parse_listen_url (last (agent_command (service_config sself))) = Ok (V4 [0, 0, 0, 0] (sp_agent_port sself)) \<and>
    parse_listen_url DEFAULT_LISTEN_URL = Ok (V4 [127, 0, 0, 1] 0) \<and>
    (\<forall>url a. parse_listen_url url = Ok a \<longrightarrow> valid_addr a)"
proof (intro conjI allI impI)
  show "parse_listen_url (last (create_args pself spec now)) = Ok (V6 (replicate 8 0) 0 CONTAINER_WS_PORT)"
    using listen_any [of CONTAINER_WS_PORT] by (simp add: create_args_def CONTAINER_WS_PORT_def)
  show "''--publish=127.0.0.1::'' @ dec CONTAINER_WS_PORT @ ''/tcp'' \<in> set (create_args pself spec now)"
    by (simp add: create_args_def create_options_def)
  show "parse_listen_url (last (c_command (pod_agent (build_pod kself spec)))) = Ok (V6 (replicate 8 0) 0 K8S_WS_PORT)"
    using listen_any [of K8S_WS_PORT] by (simp add: pod_agent_def build_pod_def Let_def K8S_WS_PORT_def split: prod.split)
  show "parse_listen_url (last (agent_command (machine_config fself spec))) = Ok (V6 (replicate 8 0) 0 AGENT_WS_PORT)"
    using listen_any [of AGENT_WS_PORT]
    by (simp add: agent_command_def machine_config_def json_field_def json_strings_def Let_def AGENT_WS_PORT_def map_filter_def)
  show "parse_listen_url (last (agent_command (service_config sself))) = Ok (V4 [0, 0, 0, 0] (sp_agent_port sself))"
    using listen_every_v4 [OF assms]
    by (simp add: agent_command_def service_config_def json_field_def json_strings_def map_filter_def)
  have "dec 127 = ''127''" "dec 1 = ''1''" by code_simp+
  then show "parse_listen_url DEFAULT_LISTEN_URL = Ok (V4 [127, 0, 0, 1] 0)"
    using listen_v4 [of "[127, 0, 0, 1]" 0] by (simp add: DEFAULT_LISTEN_URL_def dec_0)
qed (rule parse_listen_valid)

theorem backends_start_agents_witness:
  "\<exists>self. sprites_new (Ok ()) \<lparr>sc_token = ''t'', sc_api_base = None, sc_name_prefix = None, sc_agent_port = None,
       sc_agent_bin_path = None\<rparr> = Ok self \<and>
     parse_listen_url (last (agent_command (service_config self))) = Ok (V4 [0, 0, 0, 0] 9100)"
proof -
  obtain self where self: "sprites_new (Ok ()) \<lparr>sc_token = ''t'', sc_api_base = None, sc_name_prefix = None,
      sc_agent_port = None, sc_agent_bin_path = None\<rparr> = Ok self" "sp_agent_port self = 9100"
    by (simp add: sprites_new_def)
  then show ?thesis using backends_start_agents [of self] by simp
qed

end
