(* ===== verification/Connection.thy ===== *)
theory Connection
  imports Values
begin

text \<open>
  The multiplexed connection of the transport crate: the envelope of
  \<^verbatim>\<open>utils/transport/src/lib.rs\<close> and \<^verbatim>\<open>connection.rs\<close>.  A
  \<^verbatim>\<open>Stream\<close> handle and the table of streams share a channel state through an
  \<^verbatim>\<open>Arc\<close>, and a handle outlives the entry of the table, so channel states live in a
  store and are referred to by address; address 0 is the connection's own channel.  serde's
  conversions are the \<open>Codec\<close> argument, UUIDs and the bodies of handlers are arguments.
  \<open>cn_results\<close> records what the one-shot channels of requests received,
  \<open>cn_called\<close> the notification handlers that ran, \<open>cn_sent\<close> the bytes given to
  the transport.
\<close>

section \<open>Envelope\<close>

record WireError =
  we_code :: int
  we_message :: string
  we_data :: "value option"

record WireRequest =
  wq_stream :: "string option"
  wq_id :: "value"
  wq_method :: string
  wq_params :: "value option"

record WireResponse =
  wr_stream :: "string option"
  wr_id :: "value"
  wr_result :: "value option"
  wr_error :: "WireError option"

record WireNotification =
  wn_stream :: "string option"
  wn_method :: string
  wn_params :: "value option"

datatype WireMessage = WRequest WireRequest | WResponse WireResponse | WNotification WireNotification

record Codec =
  cd_encode :: "WireMessage \<Rightarrow> (string, byte list) result"
  cd_decode :: "byte list \<Rightarrow> (string, value) result"
  cd_request :: "value \<Rightarrow> (string, WireRequest) result"
  cd_response :: "value \<Rightarrow> (string, WireResponse) result"
  cd_notification :: "value \<Rightarrow> (string, WireNotification) result"
  cd_display :: "value \<Rightarrow> string"

definition expect :: "('e, 'a) result \<Rightarrow> 'a run" where
  "expect r = (case r of Inl _ \<Rightarrow> Panics | Inr a \<Rightarrow> Returns a)"

definition map_run :: "('a \<Rightarrow> 'b) \<Rightarrow> 'a run \<Rightarrow> 'b run" where
  "map_run f r = (case r of Panics \<Rightarrow> Panics | Returns a \<Rightarrow> Returns (f a))"

definition value_to_wire_message :: "Codec \<Rightarrow> value \<Rightarrow> WireMessage run" where
  "value_to_wire_message cd v =
     (let has_id = (map_get v ''id'' \<noteq> None);
          has_method = (map_get v ''method'' \<noteq> None);
          has_result = (map_get v ''result'' \<noteq> None);
          has_error = (map_get v ''error'' \<noteq> None)
      in if has_id \<and> has_method then map_run WRequest (expect (cd_request cd v))
         else if has_id \<and> (has_result \<or> has_error) then map_run WResponse (expect (cd_response cd v))
         else map_run WNotification (expect (cd_notification cd v)))"

section \<open>State\<close>

record ChannelState =
  cs_pending :: "(string, unit) hashmap"
  cs_notification_handlers :: "(string, nat list) hashmap"
  cs_request_handlers :: "(string, nat) hashmap"

definition channel_state_new :: ChannelState where
  "channel_state_new = \<lparr>cs_pending = [], cs_notification_handlers = [], cs_request_handlers = []\<rparr>"

record Connection =
  cn_states :: "(nat, ChannelState) hashmap"
  cn_streams :: "(string, nat) hashmap"
  cn_next :: nat
  cn_results :: "(string \<times> (WireError, value) result) list"
  cn_called :: "(nat \<times> value) list"
  cn_sent :: "byte list list"
  cn_closed :: bool

definition root_addr :: nat where "root_addr = 0"

definition connection_new :: Connection where
  "connection_new = \<lparr>cn_states = [(root_addr, channel_state_new)], cn_streams = [], cn_next = 1, cn_results = [],
     cn_called = [], cn_sent = [], cn_closed = False\<rparr>"

definition state_at :: "Connection \<Rightarrow> nat \<Rightarrow> ChannelState" where
  "state_at cn a = (case hm_get (cn_states cn) a of None \<Rightarrow> channel_state_new | Some s \<Rightarrow> s)"

definition upd_state :: "nat \<Rightarrow> (ChannelState \<Rightarrow> ChannelState) \<Rightarrow> Connection \<Rightarrow> Connection" where
  "upd_state a f cn = cn\<lparr>cn_states := hm_insert a (f (state_at cn a)) (cn_states cn)\<rparr>"

record Stream =
  st_id :: string
  st_state :: nat

section \<open>Requests and notifications\<close>

definition wire_error :: "int \<Rightarrow> string \<Rightarrow> WireError" where
  "wire_error code message = \<lparr>we_code = code, we_message = message, we_data = None\<rparr>"

definition transport_send :: "byte list \<Rightarrow> Connection \<Rightarrow> Connection" where
  "transport_send bytes cn = cn\<lparr>cn_sent := cn_sent cn @ [bytes]\<rparr>"

text \<open>\<^verbatim>\<open>send_request\<close> up to the point where it awaits the answer.\<close>

definition send_request ::
  "Codec \<Rightarrow> string \<Rightarrow> nat \<Rightarrow> string option \<Rightarrow> string \<Rightarrow> value option \<Rightarrow> Connection \<Rightarrow>
     Connection \<times> (WireError, string) result" where
  "send_request cd uuid a stream method params cn =
     (let req = \<lparr>wq_stream = stream, wq_id = VString uuid, wq_method = method, wq_params = params\<rparr>;
          cn = upd_state a (\<lambda>s. s\<lparr>cs_pending := hm_insert uuid () (cs_pending s)\<rparr>) cn
      in case cd_encode cd (WRequest req) of
           Inl e \<Rightarrow> (cn, Err (wire_error (- 32000) (''encode error: '' @ e)))
         | Inr bytes \<Rightarrow> (transport_send bytes cn, Ok uuid))"

definition send_notification ::
  "Codec \<Rightarrow> string option \<Rightarrow> string \<Rightarrow> value option \<Rightarrow> Connection \<Rightarrow> Connection" where
  "send_notification cd stream method params cn =
     (case cd_encode cd (WNotification \<lparr>wn_stream = stream, wn_method = method, wn_params = params\<rparr>) of
        Inl _ \<Rightarrow> cn
      | Inr bytes \<Rightarrow> transport_send bytes cn)"

definition conn_request where
  "conn_request cd uuid method params cn = send_request cd uuid root_addr None method params cn"

definition stream_request where
  "stream_request cd uuid (st :: Stream) method params cn =
     send_request cd uuid (st_state st) (Some (st_id st)) method params cn"

definition conn_notify where
  "conn_notify cd method params cn = send_notification cd None method params cn"

definition stream_notify where
  "stream_notify cd (st :: Stream) method params cn = send_notification cd (Some (st_id st)) method params cn"

definition on_notification :: "nat \<Rightarrow> string \<Rightarrow> nat \<Rightarrow> Connection \<Rightarrow> Connection" where
  "on_notification a method handler cn =
     upd_state a (\<lambda>s. s\<lparr>cs_notification_handlers :=
       hm_insert method ((case hm_get (cs_notification_handlers s) method of None \<Rightarrow> [] | Some hs \<Rightarrow> hs) @ [handler])
         (cs_notification_handlers s)\<rparr>) cn"

definition handle_request :: "nat \<Rightarrow> string \<Rightarrow> nat \<Rightarrow> Connection \<Rightarrow> Connection" where
  "handle_request a method handler cn =
     upd_state a (\<lambda>s. s\<lparr>cs_request_handlers := hm_insert method handler (cs_request_handlers s)\<rparr>) cn"

section \<open>Streams\<close>

definition open_stream :: "string \<Rightarrow> Connection \<Rightarrow> Connection \<times> Stream" where
  "open_stream i cn =
     (case hm_get (cn_streams cn) i of
        Some a \<Rightarrow> (cn, \<lparr>st_id = i, st_state = a\<rparr>)
      | None \<Rightarrow>
          let a = cn_next cn
          in (cn\<lparr>cn_states := hm_insert a channel_state_new (cn_states cn),
                 cn_streams := hm_insert i a (cn_streams cn), cn_next := a + 1\<rparr>,
              \<lparr>st_id = i, st_state = a\<rparr>))"

definition reject_all_pending :: "string \<Rightarrow> nat \<Rightarrow> Connection \<Rightarrow> Connection" where
  "reject_all_pending reason a cn =
     (let ids = hm_keys (cs_pending (state_at cn a))
      in (upd_state a (\<lambda>s. s\<lparr>cs_pending := []\<rparr>) cn)
         \<lparr>cn_results := cn_results cn @ map (\<lambda>i. (i, Err (wire_error (- 32000) reason))) ids\<rparr>)"

definition close_stream :: "string \<Rightarrow> Connection \<Rightarrow> Connection" where
  "close_stream i cn =
     (case hm_get (cn_streams cn) i of
        None \<Rightarrow> cn
      | Some a \<Rightarrow> reject_all_pending ''stream closed'' a (cn\<lparr>cn_streams := hm_remove i (cn_streams cn)\<rparr>))"

definition reject_all :: "string \<Rightarrow> Connection \<Rightarrow> Connection" where
  "reject_all reason cn =
     foldl (\<lambda>cn (_, a). reject_all_pending reason a cn)
       ((reject_all_pending reason root_addr cn)\<lparr>cn_streams := []\<rparr>) (cn_streams cn)"

definition close_connection :: "Connection \<Rightarrow> Connection" where
  "close_connection cn = (reject_all ''connection closed'' cn)\<lparr>cn_closed := True\<rparr>"

section \<open>Inbound frames\<close>

definition id_to_key :: "Codec \<Rightarrow> value \<Rightarrow> string" where
  "id_to_key cd i = (case i of VString s \<Rightarrow> s | VInteger n \<Rightarrow> dec_int n | other \<Rightarrow> cd_display cd other)"

definition response_outcome :: "WireResponse \<Rightarrow> (WireError, value) result" where
  "response_outcome resp =
     (case wr_error resp of
        Some err \<Rightarrow> Err err
      | None \<Rightarrow> Ok (case wr_result resp of None \<Rightarrow> VNil | Some v \<Rightarrow> v))"

definition answer_message :: "WireRequest \<Rightarrow> (WireError, value) result \<Rightarrow> WireResponse" where
  "answer_message req r =
     (case r of
        Inr v \<Rightarrow> \<lparr>wr_stream = wq_stream req, wr_id = wq_id req, wr_result = Some v, wr_error = None\<rparr>
      | Inl e \<Rightarrow> \<lparr>wr_stream = wq_stream req, wr_id = wq_id req, wr_result = None, wr_error = Some e\<rparr>)"

definition send_response :: "Codec \<Rightarrow> WireResponse \<Rightarrow> Connection \<Rightarrow> Connection" where
  "send_response cd resp cn =
     (case cd_encode cd (WResponse resp) of Inl _ \<Rightarrow> cn | Inr bytes \<Rightarrow> transport_send bytes cn)"

text \<open>\<^verbatim>\<open>ChannelState::dispatch\<close>.  A request handler runs in its own task, whose only
  effect on the connection is the response; \<open>run_handler\<close> is its outcome.\<close>

definition dispatch_message ::
  "Codec \<Rightarrow> (nat \<Rightarrow> value \<Rightarrow> (WireError, value) result) \<Rightarrow> nat \<Rightarrow> WireMessage \<Rightarrow> Connection \<Rightarrow> Connection" where
  "dispatch_message cd run_handler a msg cn =
     (case msg of
        WResponse resp \<Rightarrow>
          let key = id_to_key cd (wr_id resp)
          in (case hm_get (cs_pending (state_at cn a)) key of
                None \<Rightarrow> cn
              | Some _ \<Rightarrow>
                  (upd_state a (\<lambda>s. s\<lparr>cs_pending := hm_remove key (cs_pending s)\<rparr>) cn)
                  \<lparr>cn_results := cn_results cn @ [(key, response_outcome resp)]\<rparr>)
      | WNotification notif \<Rightarrow>
          (case hm_get (cs_notification_handlers (state_at cn a)) (wn_method notif) of
             None \<Rightarrow> cn
           | Some handlers \<Rightarrow>
               let params = (case wn_params notif of None \<Rightarrow> VNil | Some v \<Rightarrow> v)
               in cn\<lparr>cn_called := cn_called cn @ map (\<lambda>h. (h, params)) handlers\<rparr>)
      | WRequest req \<Rightarrow>
          (case hm_get (cs_request_handlers (state_at cn a)) (wq_method req) of
             None \<Rightarrow> cn
           | Some handler \<Rightarrow>
               let params = (case wq_params req of None \<Rightarrow> VNil | Some v \<Rightarrow> v)
               in send_response cd (answer_message req (run_handler handler params)) cn))"

fun find_stream :: "(value \<times> value) list \<Rightarrow> string option" where
  "find_stream [] = None"
| "find_stream ((k, v) # rest) =
     (if as_str k = Some ''stream'' \<and> as_str v \<noteq> None then as_str v else find_stream rest)"

definition stream_tag :: "value \<Rightarrow> string option" where
  "stream_tag v = Option.bind (as_map v) find_stream"

definition handle_frame ::
  "Codec \<Rightarrow> (nat \<Rightarrow> value \<Rightarrow> (WireError, value) result) \<Rightarrow> byte list \<Rightarrow> Connection \<Rightarrow> Connection run" where
  "handle_frame cd run_handler bytes cn =
     (case cd_decode cd bytes of
        Inl _ \<Rightarrow> Returns cn
      | Inr v \<Rightarrow>
          (case value_to_wire_message cd v of
             Panics \<Rightarrow> Panics
           | Returns msg \<Rightarrow>
               (case stream_tag v of
                  Some sid \<Rightarrow>
                    (case hm_get (cn_streams cn) sid of
                       None \<Rightarrow> Returns cn
                     | Some a \<Rightarrow> Returns (dispatch_message cd run_handler a msg cn))
                | None \<Rightarrow> Returns (dispatch_message cd run_handler root_addr msg cn))))"

datatype TransportEvent = Frame "byte list" | TDisconnected | HeartbeatDead | Reconnected

fun pump :: "Codec \<Rightarrow> (nat \<Rightarrow> value \<Rightarrow> (WireError, value) result) \<Rightarrow> TransportEvent list \<Rightarrow> Connection \<Rightarrow> Connection run" where
  "pump cd h [] cn = Returns cn"
| "pump cd h (Frame bytes # events) cn =
     (case handle_frame cd h bytes cn of Panics \<Rightarrow> Panics | Returns cn \<Rightarrow> pump cd h events cn)"
| "pump cd h (TDisconnected # events) cn = Returns (reject_all ''disconnected'' cn)"
| "pump cd h (HeartbeatDead # events) cn = pump cd h events cn"
| "pump cd h (Reconnected # events) cn = pump cd h events cn"

section \<open>Typed helpers\<close>

text \<open>A typed request handler around a typed function: the decoding of the parameters, the call and
  the encoding of the result.\<close>

definition typed_handler ::
  "(value \<Rightarrow> (string, 'p) result) \<Rightarrow> ('r \<Rightarrow> (string, value) result) \<Rightarrow> ('p \<Rightarrow> (WireError, 'r) result) \<Rightarrow>
     value \<Rightarrow> (WireError, value) result" where
  "typed_handler decode encode f v =
     (case decode v of
        Inl e \<Rightarrow> Err (wire_error (- 32602) (''invalid params: '' @ e))
      | Inr p \<Rightarrow>
          (case f p of
             Inl e \<Rightarrow> Err e
           | Inr r \<Rightarrow>
               (case encode r of
                  Inl e \<Rightarrow> Err (wire_error (- 32603) (''encode result: '' @ e))
                | Inr v \<Rightarrow> Ok v)))"

datatype TypedRequestError = Request WireError | EncodeParams string | DecodeResult string

definition typed_result :: "(value \<Rightarrow> (string, 'r) result) \<Rightarrow> (WireError, value) result \<Rightarrow> (TypedRequestError, 'r) result" where
  "typed_result decode r =
     (case r of
        Inl e \<Rightarrow> Err (Request e)
      | Inr v \<Rightarrow> (case decode v of Inl e \<Rightarrow> Err (DecodeResult e) | Inr x \<Rightarrow> Ok x))"

section \<open>Accounting of requests\<close>

definition pend :: "Connection \<Rightarrow> nat \<Rightarrow> string list" where
  "pend cn a = hm_keys (cs_pending (state_at cn a))"

definition answered :: "Connection \<Rightarrow> string list" where
  "answered cn = map fst (cn_results cn)"

definition accounted :: "(nat \<Rightarrow> string list) \<Rightarrow> string list \<Rightarrow> bool" where
  "accounted P R \<longleftrightarrow> distinct R \<and> (\<forall>a. distinct (P a)) \<and>
     (\<forall>a b. a \<noteq> b \<longrightarrow> set (P a) \<inter> set (P b) = {}) \<and> (\<forall>a. set (P a) \<inter> set R = {})"

definition fresh_id :: "Connection \<Rightarrow> string \<Rightarrow> bool" where
  "fresh_id cn i \<longleftrightarrow> i \<notin> set (answered cn) \<and> (\<forall>a. i \<notin> set (pend cn a))"

lemma accounted_add:
  "\<lbrakk>accounted P R; i \<notin> set R; \<forall>a. i \<notin> set (P a)\<rbrakk> \<Longrightarrow> accounted (P(a := P a @ [i])) R"
  unfolding accounted_def by (auto simp: fun_upd_def)

lemma accounted_move:
  assumes "accounted P R" "distinct ids" "set ids \<subseteq> set (P a)"
  shows "accounted (P(a := filter (\<lambda>i. i \<notin> set ids) (P a))) (R @ ids)"
proof -
  have d: "distinct R" "\<forall>b. distinct (P b)" "\<forall>b c. b \<noteq> c \<longrightarrow> set (P b) \<inter> set (P c) = {}" "\<forall>b. set (P b) \<inter> set R = {}"
    using assms(1) by (simp_all add: accounted_def)
  have "set (P b) \<inter> set ids = {}" if "b \<noteq> a" for b using d(3) that assms(3) by blast
  moreover have "set R \<inter> set ids = {}" using d(4) assms(3) by blast
  moreover have "x \<notin> set (P c)" if "b \<noteq> c" "x \<in> set (P b)" for b c x using d(3) that by blast
  ultimately show ?thesis using d assms(2) unfolding accounted_def by (auto simp: fun_upd_def)
qed

lemma accounted_reject: "accounted P R \<Longrightarrow> accounted (P(a := [])) (R @ P a)"
  using accounted_move [of P R "P a" a] by (simp add: accounted_def)

lemma state_at_upd [simp]: "state_at (upd_state a f cn) b = (if b = a then f (state_at cn a) else state_at cn b)"
  by (simp add: state_at_def upd_state_def)

lemma upd_state_fields [simp]:
  "cn_streams (upd_state a f cn) = cn_streams cn" "cn_next (upd_state a f cn) = cn_next cn"
  "cn_results (upd_state a f cn) = cn_results cn" "cn_called (upd_state a f cn) = cn_called cn"
  by (simp_all add: upd_state_def)

lemma pend_other_fields [simp]:
  "pend (cn\<lparr>cn_results := rs\<rparr>) = pend cn" "pend (cn\<lparr>cn_called := cs\<rparr>) = pend cn"
  "pend (cn\<lparr>cn_streams := ss\<rparr>) = pend cn" "pend (cn\<lparr>cn_sent := bs\<rparr>) = pend cn" "pend (cn\<lparr>cn_closed := b\<rparr>) = pend cn"
  "pend (transport_send bytes cn) = pend cn"
  by (auto simp: pend_def state_at_def transport_send_def)

lemma pend_upd: "pend (upd_state a f cn) = (pend cn)(a := hm_keys (cs_pending (f (state_at cn a))))"
  by (auto simp: pend_def)

lemma reject_effect:
  "pend (reject_all_pending reason a cn) = (pend cn)(a := [])"
  "cn_results (reject_all_pending reason a cn) =
     cn_results cn @ map (\<lambda>i. (i, Err (wire_error (- 32000) reason))) (pend cn a)"
  "cn_streams (reject_all_pending reason a cn) = cn_streams cn"
  "cn_next (reject_all_pending reason a cn) = cn_next cn"
  by (simp_all add: reject_all_pending_def Let_def pend_upd hm_keys_def) (simp add: pend_def hm_keys_def)

lemma answered_reject: "answered (reject_all_pending reason a cn) = answered cn @ pend cn a"
  by (simp add: answered_def reject_effect comp_def)

definition mux_inv :: "Connection \<Rightarrow> bool" where
  "mux_inv cn \<longleftrightarrow> accounted (pend cn) (answered cn) \<and> 0 < cn_next cn \<and>
     (\<forall>a \<ge> cn_next cn. pend cn a = []) \<and>
     (\<forall>s a. hm_get (cn_streams cn) s = Some a \<longrightarrow> 0 < a \<and> a < cn_next cn)"

lemma mux_inv_cong:
  "\<lbrakk>pend cn' = pend cn; answered cn' = answered cn; cn_next cn' = cn_next cn; cn_streams cn' = cn_streams cn; mux_inv cn\<rbrakk>
     \<Longrightarrow> mux_inv cn'"
  by (simp add: mux_inv_def)

lemma mux_inv_reject: "mux_inv cn \<Longrightarrow> mux_inv (reject_all_pending reason a cn)"
  using accounted_reject [of "pend cn" "answered cn" a]
  by (auto simp: mux_inv_def reject_effect answered_reject)

lemma reject_fold:
  "\<lbrakk>cn' = foldl (\<lambda>cn (_, a). reject_all_pending reason a cn) cn entries; mux_inv cn\<rbrakk> \<Longrightarrow>
     mux_inv cn' \<and> cn_streams cn' = cn_streams cn \<and>
     (\<forall>b. pend cn' b = (if b \<in> snd ` set entries then [] else pend cn b)) \<and>
     (\<forall>r. r \<in> set (cn_results cn) \<longrightarrow> r \<in> set (cn_results cn')) \<and>
     (\<forall>a \<in> snd ` set entries. \<forall>i \<in> set (pend cn a). (i, Err (wire_error (- 32000) reason)) \<in> set (cn_results cn'))"
proof (induction entries arbitrary: cn)
  case (Cons e entries)
  obtain s a where e: "e = (s, a)" by force
  let ?cn = "reject_all_pending reason a cn"
  have ih: "mux_inv cn' \<and> cn_streams cn' = cn_streams ?cn \<and>
     (\<forall>b. pend cn' b = (if b \<in> snd ` set entries then [] else pend ?cn b)) \<and>
     (\<forall>r. r \<in> set (cn_results ?cn) \<longrightarrow> r \<in> set (cn_results cn')) \<and>
     (\<forall>a \<in> snd ` set entries. \<forall>i \<in> set (pend ?cn a). (i, Err (wire_error (- 32000) reason)) \<in> set (cn_results cn'))"
    using Cons.IH [of ?cn] Cons.prems e mux_inv_reject by simp
  have keep: "r \<in> set (cn_results cn')" if "r \<in> set (cn_results ?cn)" for r using ih that by blast
  have own: "(i, Err (wire_error (- 32000) reason)) \<in> set (cn_results cn')" if "i \<in> set (pend cn a)" for i
    by (rule keep) (use that in \<open>simp add: reject_effect\<close>)
  have old: "r \<in> set (cn_results cn')" if "r \<in> set (cn_results cn)" for r
    by (rule keep) (use that in \<open>simp add: reject_effect\<close>)
  have others: "(i, Err (wire_error (- 32000) reason)) \<in> set (cn_results cn')"
    if "b \<in> snd ` set entries" "b \<noteq> a" "i \<in> set (pend cn b)" for b i
  proof -
    have "i \<in> set (pend ?cn b)" using that by (simp add: reject_effect)
    then show ?thesis using ih that(1) by blast
  qed
  have p: "\<forall>b. pend cn' b = (if b \<in> snd ` set (e # entries) then [] else pend cn b)"
    using ih e by (simp add: reject_effect)
  have "(i, Err (wire_error (- 32000) reason)) \<in> set (cn_results cn')"
    if "b \<in> snd ` set (e # entries)" "i \<in> set (pend cn b)" for b i
    using own others that e by (cases "b = a") auto
  then show ?case using ih p old by (simp add: reject_effect)
qed simp

lemma mux_inv_reject_all:
  assumes "mux_inv cn"
  shows "mux_inv (reject_all reason cn) \<and> cn_streams (reject_all reason cn) = [] \<and>
     (\<forall>b. pend (reject_all reason cn) b = (if b = root_addr \<or> b \<in> snd ` set (cn_streams cn) then [] else pend cn b)) \<and>
     (\<forall>a i. a = root_addr \<or> a \<in> snd ` set (cn_streams cn) \<longrightarrow> i \<in> set (pend cn a) \<longrightarrow>
        (i, Err (wire_error (- 32000) reason)) \<in> set (cn_results (reject_all reason cn)))"
proof -
  let ?cn = "(reject_all_pending reason root_addr cn)\<lparr>cn_streams := []\<rparr>"
  have p: "pend ?cn = (pend cn)(root_addr := [])"
    using reject_effect(1) [of reason root_addr cn] by simp
  have inv: "mux_inv ?cn"
    using mux_inv_reject [OF assms, of reason root_addr] by (simp add: mux_inv_def p reject_effect answered_def)
  note f = reject_fold [OF reject_all_def, OF inv]
  have r: "(i, Err (wire_error (- 32000) reason)) \<in> set (cn_results (reject_all reason cn))" if "i \<in> set (pend cn root_addr)" for i
  proof -
    have "(i, Err (wire_error (- 32000) reason)) \<in> set (cn_results ?cn)" using that by (simp add: reject_effect)
    then show ?thesis using f by blast
  qed
  have s: "(i, Err (wire_error (- 32000) reason)) \<in> set (cn_results (reject_all reason cn))"
    if "a \<in> snd ` set (cn_streams cn)" "a \<noteq> root_addr" "i \<in> set (pend cn a)" for a i
  proof -
    have "i \<in> set (pend ?cn a)" using that p by simp
    then show ?thesis using f that(1) by blast
  qed
  show ?thesis using f p r s by (auto simp: fun_upd_def split: if_splits)
qed

lemma mux_inv_request:
  assumes "mux_inv cn" "fresh_id cn uuid" "a < cn_next cn"
  shows "mux_inv (fst (send_request cd uuid a st m params cn)) \<and>
     pend (fst (send_request cd uuid a st m params cn)) = (pend cn)(a := pend cn a @ [uuid]) \<and>
     cn_results (fst (send_request cd uuid a st m params cn)) = cn_results cn \<and>
     cn_streams (fst (send_request cd uuid a st m params cn)) = cn_streams cn"
proof -
  let ?cn = "fst (send_request cd uuid a st m params cn)"
  have keys: "uuid \<notin> set (hm_keys (cs_pending (state_at cn a)))"
    using assms(2) by (simp add: fresh_id_def pend_def)
  then have "hm_keys (hm_insert uuid () (cs_pending (state_at cn a))) = hm_keys (cs_pending (state_at cn a)) @ [uuid]"
    by (rule hm_keys_insert_new)
  then have p: "pend ?cn = (pend cn)(a := pend cn a @ [uuid])"
    by (auto simp: send_request_def Let_def pend_upd pend_def [symmetric] split: sum.split)
  have f: "cn_results ?cn = cn_results cn" "cn_streams ?cn = cn_streams cn" "cn_next ?cn = cn_next cn"
    by (simp_all add: send_request_def Let_def transport_send_def split: sum.split)
  have ans: "answered ?cn = answered cn" by (simp add: answered_def f(1))
  have acc: "accounted (pend ?cn) (answered ?cn)"
    unfolding p ans by (rule accounted_add) (use assms in \<open>simp_all add: mux_inv_def fresh_id_def\<close>)
  have "\<forall>b \<ge> cn_next cn. pend ?cn b = []" unfolding p using assms(1,3) by (simp add: mux_inv_def)
  then have "mux_inv ?cn" using assms(1) acc f by (simp add: mux_inv_def)
  then show ?thesis using p f by simp
qed

lemma pend_keep_upd:
  "(\<And>s. cs_pending (f s) = cs_pending s) \<Longrightarrow> pend (upd_state a f cn) = pend cn"
  by (simp add: pend_upd pend_def [symmetric])

lemma mux_inv_new: "mux_inv connection_new"
proof -
  have "pend connection_new a = []" for a
    by (simp add: pend_def state_at_def connection_new_def channel_state_new_def hm_keys_def hm_get_def)
  then have "pend connection_new = (\<lambda>_. [])" by blast
  then show ?thesis by (simp add: mux_inv_def accounted_def answered_def) (simp add: connection_new_def)
qed

lemma mux_inv_open: "mux_inv cn \<Longrightarrow> mux_inv (fst (open_stream i cn))"
proof (cases "hm_get (cn_streams cn) i")
  case None
  assume inv: "mux_inv cn"
  have "pend (fst (open_stream i cn)) = (pend cn)(cn_next cn := [])"
    by (auto simp: open_stream_def None Let_def pend_def state_at_def channel_state_new_def hm_keys_def)
  also have "\<dots> = pend cn" using inv by (auto simp: mux_inv_def)
  finally have p: "pend (fst (open_stream i cn)) = pend cn" .
  show ?thesis
    using inv unfolding mux_inv_def p by (fastforce simp: open_stream_def None Let_def answered_def split: if_splits)
qed (simp add: open_stream_def)

lemma mux_inv_close_stream: "mux_inv cn \<Longrightarrow> mux_inv (close_stream i cn)"
proof (cases "hm_get (cn_streams cn) i")
  case (Some a)
  assume "mux_inv cn"
  then have "mux_inv (cn\<lparr>cn_streams := hm_remove i (cn_streams cn)\<rparr>)" by (simp add: mux_inv_def answered_def)
  then show ?thesis using mux_inv_reject Some by (simp add: close_stream_def)
qed (simp add: close_stream_def)

lemma pend_get: "i \<in> set (pend cn a) \<longleftrightarrow> hm_get (cs_pending (state_at cn a)) i = Some ()"
  using hm_get_Some_iff_key [of "cs_pending (state_at cn a)" i] by (simp add: pend_def)

lemma dispatch_response:
  assumes "id_to_key cd (wr_id resp) \<in> set (pend cn a)"
  shows "pend (dispatch_message cd h a (WResponse resp) cn) =
      (pend cn)(a := filter (\<lambda>x. x \<noteq> id_to_key cd (wr_id resp)) (pend cn a))"
    "cn_results (dispatch_message cd h a (WResponse resp) cn) =
      cn_results cn @ [(id_to_key cd (wr_id resp), response_outcome resp)]"
  using assms [unfolded pend_get]
  by (simp_all add: dispatch_message_def Let_def pend_upd hm_keys_remove pend_def [symmetric])

lemma dispatch_message_fields [simp]:
  "cn_streams (dispatch_message cd h a msg cn) = cn_streams cn" "cn_next (dispatch_message cd h a msg cn) = cn_next cn"
  by (simp_all add: dispatch_message_def Let_def send_response_def transport_send_def
      split: WireMessage.split option.split sum.split)

lemma dispatch_message_quiet:
  assumes "\<And>resp. msg = WResponse resp \<Longrightarrow> id_to_key cd (wr_id resp) \<notin> set (pend cn a)"
  shows "pend (dispatch_message cd h a msg cn) = pend cn \<and> cn_results (dispatch_message cd h a msg cn) = cn_results cn"
proof (cases msg)
  case (WResponse resp)
  then have "hm_get (cs_pending (state_at cn a)) (id_to_key cd (wr_id resp)) = None"
    using assms by (simp add: pend_def hm_get_None_iff)
  then show ?thesis using WResponse by (simp add: dispatch_message_def Let_def)
qed (simp_all add: dispatch_message_def Let_def send_response_def transport_send_def split: option.split sum.split)

text \<open>A message resolves one pending request of its channel or none.\<close>

lemma dispatch_message_cases:
  obtains (resolve) resp where "msg = WResponse resp" "id_to_key cd (wr_id resp) \<in> set (pend cn a)"
  | (quiet) "pend (dispatch_message cd h a msg cn) = pend cn" "cn_results (dispatch_message cd h a msg cn) = cn_results cn"
  using dispatch_message_quiet [of msg cd cn a h] by blast

lemma mux_inv_dispatch:
  assumes "mux_inv cn"
  shows "mux_inv (dispatch_message cd h a msg cn)"
proof (rule dispatch_message_cases [where msg = msg and cd = cd and cn = cn and a = a and h = h])
  fix resp assume r: "msg = WResponse resp" "id_to_key cd (wr_id resp) \<in> set (pend cn a)"
  let ?k = "id_to_key cd (wr_id resp)"
  have "accounted ((pend cn)(a := filter (\<lambda>i. i \<notin> set [?k]) (pend cn a))) (answered cn @ [?k])"
    by (rule accounted_move) (use assms r(2) in \<open>simp_all add: mux_inv_def\<close>)
  then show ?thesis
    using assms unfolding mux_inv_def r(1) answered_def by (simp add: dispatch_response [OF r(2)])
next
  assume "pend (dispatch_message cd h a msg cn) = pend cn" "cn_results (dispatch_message cd h a msg cn) = cn_results cn"
  then show ?thesis by (intro mux_inv_cong [OF _ _ _ _ assms]) (simp_all add: answered_def)
qed

lemma mux_inv_frame: "mux_inv cn \<Longrightarrow> handle_frame cd h bytes cn = Returns cn' \<Longrightarrow> mux_inv cn'"
  by (auto simp: handle_frame_def mux_inv_dispatch split: sum.splits run.splits option.splits)

text \<open>Requests use ids that have not been used before, which is what UUIDs are for, and streams
  handed out by \<open>open_stream\<close>.\<close>

inductive mux_reach :: "Connection \<Rightarrow> bool" where
  new: "mux_reach connection_new"
| request: "\<lbrakk>mux_reach cn; fresh_id cn uuid; a < cn_next cn\<rbrakk> \<Longrightarrow> mux_reach (fst (send_request cd uuid a stream method params cn))"
| notify: "mux_reach cn \<Longrightarrow> mux_reach (send_notification cd stream method params cn)"
| on: "mux_reach cn \<Longrightarrow> mux_reach (on_notification a method handler cn)"
| handle: "mux_reach cn \<Longrightarrow> mux_reach (handle_request a method handler cn)"
| open_stream: "mux_reach cn \<Longrightarrow> mux_reach (fst (open_stream i cn))"
| close_stream: "mux_reach cn \<Longrightarrow> mux_reach (close_stream i cn)"
| close: "mux_reach cn \<Longrightarrow> mux_reach (close_connection cn)"
| frame: "\<lbrakk>mux_reach cn; handle_frame cd h bytes cn = Returns cn'\<rbrakk> \<Longrightarrow> mux_reach cn'"
| disconnected: "mux_reach cn \<Longrightarrow> mux_reach (reject_all reason cn)"

lemma mux_reach_inv: "mux_reach cn \<Longrightarrow> mux_inv cn"
proof (induction rule: mux_reach.induct)
  case (notify cn cd stream m params)
  then show ?case by (simp add: send_notification_def mux_inv_def answered_def split: sum.split) (simp add: transport_send_def)
next
  case (on cn a m handler)
  then show ?case
    by (intro mux_inv_cong [OF _ _ _ _ on.IH]) (simp_all add: on_notification_def pend_keep_upd answered_def)
next
  case (handle cn a m handler)
  then show ?case
    by (intro mux_inv_cong [OF _ _ _ _ handle.IH]) (simp_all add: handle_request_def pend_keep_upd answered_def)
next
  case (close cn)
  then have "mux_inv (reject_all ''connection closed'' cn)" using mux_inv_reject_all by blast
  then show ?case by (simp add: close_connection_def mux_inv_def answered_def)
qed (simp_all add: mux_inv_new mux_inv_request mux_inv_open mux_inv_close_stream mux_inv_reject_all mux_inv_frame)

section \<open>Properties\<close>

text \<open>C17. Requests on a multiplexed connection are accounted for: under any interleaving of requests,
  frames and stream or connection closes, no request gets two results, no request is pending in
  two channels, and a pending request has no result; a disconnect or close answers every request
  that is pending on the connection or on an open stream with an error.\<close>

theorem connection_requests_answered_once:
  assumes "mux_reach cn"
  shows "distinct (answered cn) \<and>
     (\<forall>a b. a \<noteq> b \<longrightarrow> set (pend cn a) \<inter> set (pend cn b) = {}) \<and>
     (\<forall>a. set (pend cn a) \<inter> set (answered cn) = {}) \<and>
     (\<forall>a i. a = root_addr \<or> a \<in> snd ` set (cn_streams cn) \<longrightarrow> i \<in> set (pend cn a) \<longrightarrow>
        pend (reject_all reason cn) a = [] \<and>
        (i, Err (wire_error (- 32000) reason)) \<in> set (cn_results (reject_all reason cn)))"
proof -
  have inv: "mux_inv cn" by (rule mux_reach_inv [OF assms])
  then have "accounted (pend cn) (answered cn)" by (simp add: mux_inv_def)
  then show ?thesis using mux_inv_reject_all [OF inv, of reason] unfolding accounted_def by simp
qed

definition channel_of :: "Connection \<Rightarrow> string option \<Rightarrow> nat option" where
  "channel_of cn tag = (case tag of None \<Rightarrow> Some root_addr | Some s \<Rightarrow> hm_get (cn_streams cn) s)"

text \<open>What serde guarantees for a response that was encoded.\<close>

definition response_codec_ok :: "Codec \<Rightarrow> WireResponse \<Rightarrow> byte list \<Rightarrow> bool" where
  "response_codec_ok cd resp bytes \<longleftrightarrow>
     cd_encode cd (WResponse resp) = Ok bytes \<and>
     (\<exists>v. cd_decode cd bytes = Ok v \<and> stream_tag v = wr_stream resp \<and> cd_response cd v = Ok resp \<and>
        map_get v ''id'' \<noteq> None \<and> map_get v ''method'' = None \<and>
        (map_get v ''result'' \<noteq> None \<or> map_get v ''error'' \<noteq> None))"

text \<open>A response finds its request: when a request was made on the connection or on an open
  stream, the frame of a response with that stream and that id resolves exactly this request,
  with the response's result or error, and leaves the pending requests of every channel as they
  were before the request.\<close>

theorem response_resolves_its_request:
  assumes "mux_reach cn" "fresh_id cn uuid" "channel_of cn tag = Some a"
    and "wr_stream resp = tag" "wr_id resp = VString uuid" "response_codec_ok cd resp bytes"
  shows "\<exists>cn2. handle_frame cd h bytes (fst (send_request cd0 uuid a tag m params cn)) = Returns cn2 \<and>
     cn_results cn2 = cn_results cn @ [(uuid, response_outcome resp)] \<and> pend cn2 = pend cn"
proof -
  let ?cn1 = "fst (send_request cd0 uuid a tag m params cn)"
  have inv: "mux_inv cn" by (rule mux_reach_inv [OF assms(1)])
  have "a < cn_next cn"
    using assms(3) inv by (auto simp: channel_of_def mux_inv_def root_addr_def split: option.splits)
  then have r: "pend ?cn1 = (pend cn)(a := pend cn a @ [uuid])" "cn_results ?cn1 = cn_results cn"
    "cn_streams ?cn1 = cn_streams cn"
    using mux_inv_request [OF inv assms(2)] by auto
  have key: "id_to_key cd (wr_id resp) = uuid" by (simp add: assms(5) id_to_key_def)
  have "uuid \<in> set (pend ?cn1 a)" using r(1) by simp
  then have slot: "id_to_key cd (wr_id resp) \<in> set (pend ?cn1 a)" by (simp add: key)
  have "filter (\<lambda>x. x \<noteq> uuid) (pend cn a @ [uuid]) = pend cn a"
    using assms(2) by (auto simp: fresh_id_def intro: filter_True)
  then have d: "cn_results (dispatch_message cd h a (WResponse resp) ?cn1) = cn_results cn @ [(uuid, response_outcome resp)]"
    "pend (dispatch_message cd h a (WResponse resp) ?cn1) = pend cn"
    using dispatch_response [OF slot, of h] r(1,2) by (simp_all add: key)
  have "handle_frame cd h bytes ?cn1 = Returns (dispatch_message cd h a (WResponse resp) ?cn1)"
    using assms(3,4,6) r(3)
    by (auto simp: response_codec_ok_def handle_frame_def value_to_wire_message_def expect_def map_run_def channel_of_def
        split: option.splits)
  then show ?thesis using d by blast
qed

text \<open>A stream handle that outlives its stream (the stream was closed, perhaps reopened) still
  sends requests, but no frame and no disconnect ever answers them.\<close>

lemma stale_stream_request_never_answered:
  assumes "a \<notin> snd ` set (cn_streams cn)" "a \<noteq> root_addr" "mux_inv cn"
  shows "handle_frame cd h bytes cn = Returns cn' \<Longrightarrow> pend cn' a = pend cn a"
    "pend (reject_all reason cn) a = pend cn a"
proof -
  have "pend (dispatch_message cd h b msg cn) a = pend cn a" if "b \<noteq> a" for b msg
    by (rule dispatch_message_cases [where msg = msg and cd = cd and cn = cn and a = b and h = h]) (use that dispatch_response(1) in auto)
  moreover have "b \<noteq> a" if "hm_get (cn_streams cn) s = Some b" for s b
    using that assms(1) hm_get_entry [of "cn_streams cn" s b] by force
  ultimately show "handle_frame cd h bytes cn = Returns cn' \<Longrightarrow> pend cn' a = pend cn a"
    using assms(2) by (auto simp: handle_frame_def split: sum.splits run.splits option.splits)
  show "pend (reject_all reason cn) a = pend cn a"
    using mux_inv_reject_all [OF assms(3), of reason] assms(1,2) by simp
qed

text \<open>A decodable frame that is not an envelope makes the conversion panic.\<close>

lemma malformed_frame_panics:
  assumes "cd_decode cd bytes = Ok v" "map_get v ''id'' = None" "cd_notification cd v = Err e"
  shows "handle_frame cd h bytes cn = Panics"
  using assms by (simp add: handle_frame_def value_to_wire_message_def expect_def map_run_def)

text \<open>A typed call over the untyped one: with codecs that invert each other the caller gets what
  the typed function returned.\<close>

lemma typed_call_roundtrip:
  assumes "encode_p p = Ok pv" "decode_p pv = Ok p" "\<And>r. \<exists>rv. encode_r r = Ok rv \<and> decode_r rv = Ok r"
  shows "typed_result decode_r (typed_handler decode_p encode_r f pv) =
     (case f p of Inl e \<Rightarrow> Err (Request e) | Inr r \<Rightarrow> Ok r)"
proof (cases "f p")
  case (Inr r)
  obtain rv where "encode_r r = Ok rv" "decode_r rv = Ok r" using assms(3) by blast
  then show ?thesis using assms(2) Inr by (simp add: typed_result_def typed_handler_def)
qed (use assms(2) in \<open>simp add: typed_result_def typed_handler_def\<close>)

section \<open>Witnesses\<close>

definition sample_response :: WireResponse where
  "sample_response = \<lparr>wr_stream = Some ''s'', wr_id = VString ''u1'', wr_result = Some (VInteger 4), wr_error = None\<rparr>"

definition sample_codec :: Codec where
  "sample_codec =
     \<lparr>cd_encode = (\<lambda>_. Ok [1]),
      cd_decode = (\<lambda>_. Ok (mp_map [(''stream'', VString ''s''), (''id'', VString ''u1''), (''result'', VInteger 4)])),
      cd_request = (\<lambda>_. Err ''no''), cd_response = (\<lambda>_. Ok sample_response), cd_notification = (\<lambda>_. Err ''no''),
      cd_display = (\<lambda>_. [])\<rparr>"

definition sample_mux :: Connection where
  "sample_mux = fst (open_stream ''s'' connection_new)"

lemma sample_mux_reach: "mux_reach sample_mux"
  unfolding sample_mux_def by (rule mux_reach.open_stream [OF mux_reach.new])

lemma sample_mux_facts: "channel_of sample_mux (Some ''s'') = Some 1" "cn_next sample_mux = 2" "cn_results sample_mux = []"
  "cn_streams sample_mux = [(''s'', 1)]"
  by (simp_all add: sample_mux_def open_stream_def connection_new_def channel_of_def hm_get_def hm_insert_def Let_def)

lemma sample_mux_pend: "pend sample_mux a = []"
  by (simp add: pend_def state_at_def sample_mux_def open_stream_def connection_new_def channel_state_new_def Let_def
      hm_get_def hm_insert_def hm_keys_def)

lemma sample_fresh: "fresh_id sample_mux i"
  by (simp add: fresh_id_def answered_def sample_mux_facts sample_mux_pend)

definition sample_busy :: Connection where
  "sample_busy = fst (send_request sample_codec ''u1'' 1 (Some ''s'') ''m'' None sample_mux)"

lemma sample_busy_reach: "mux_reach sample_busy"
  unfolding sample_busy_def by (rule mux_reach.request [OF sample_mux_reach sample_fresh]) (simp add: sample_mux_facts)

lemma sample_busy_waiting: "1 \<in> snd ` set (cn_streams sample_busy)" "''u1'' \<in> set (pend sample_busy 1)"
proof -
  have q: "pend sample_busy = (pend sample_mux)(1 := pend sample_mux 1 @ [''u1''])" "cn_streams sample_busy = cn_streams sample_mux"
    using mux_inv_request [OF mux_reach_inv [OF sample_mux_reach] sample_fresh, where a = 1 and uuid = "''u1''" and cd = sample_codec and st = "Some ''s''" and m = "''m''" and params = None]
    by (auto simp: sample_busy_def sample_mux_facts)
  then show "1 \<in> snd ` set (cn_streams sample_busy)" "''u1'' \<in> set (pend sample_busy 1)"
    by (simp_all add: sample_mux_facts)
qed

theorem connection_requests_answered_once_witness:
  "(''u1'', Err (wire_error (- 32000) ''disconnected'')) \<in> set (cn_results (reject_all ''disconnected'' sample_busy))"
  using connection_requests_answered_once [OF sample_busy_reach, of "''disconnected''"] sample_busy_waiting by blast

theorem response_resolves_its_request_witness:
  "\<exists>cn2. handle_frame sample_codec (\<lambda>_ _. Ok VNil) [1] sample_busy = Returns cn2 \<and>
     cn_results cn2 = [(''u1'', Ok (VInteger 4))]"
proof -
  have t: "wr_stream sample_response = Some ''s''" "wr_id sample_response = VString ''u1''"
    "response_outcome sample_response = Ok (VInteger 4)"
    by (simp_all add: sample_response_def response_outcome_def)
  have c: "response_codec_ok sample_codec sample_response [1]"
    by (simp add: response_codec_ok_def sample_codec_def stream_tag_def mp_map_def as_map_def map_get_def sample_response_def)
  show ?thesis
    using response_resolves_its_request [OF sample_mux_reach sample_fresh sample_mux_facts(1) t(1,2) c,
        of "\<lambda>_ _. Ok VNil" sample_codec "''m''" None]
    by (auto simp: sample_busy_def sample_mux_facts t(3))
qed

end
