(* ===== verification/Transport.thy ===== *)
theory Transport
  imports Connection Message_Channel F64
begin

text \<open>
  The transport layer, \<^verbatim>\<open>utils/transport/src/transport.rs\<close>: the handle, the driver task of
  an accepted and of a dialled WebSocket, the heartbeat, and reconnection with back-off.  One
  iteration of a driver's \<^verbatim>\<open>select!\<close> is a \<open>turn\<close>: which branch was taken, at what
  time, whether the write it makes (if any) succeeds and whether the event receiver still
  exists.  A run is a list of turns; a turn whose branch is not ready at its time is not a
  possible run.  Time is in nanoseconds.  The frame codec and the schedule of
  \<^verbatim>\<open>tokio::time::Interval\<close> are arguments, as is \<^verbatim>\<open>f64::powi\<close>, whose precision Rust
  leaves open.
\<close>

section \<open>Options\<close>

record HeartbeatOptions =
  ho_interval :: nat
  ho_timeout :: nat

definition heartbeat_default :: HeartbeatOptions where
  "heartbeat_default = \<lparr>ho_interval = 30000000000, ho_timeout = 10000000000\<rparr>"

record ReconnectOptions =
  rc_attempts :: "32 word option"
  rc_min_delay :: nat
  rc_max_delay :: nat
  rc_factor :: f64
  rc_jitter :: f64

definition reconnect_default :: ReconnectOptions where
  "reconnect_default = \<lparr>rc_attempts = None, rc_min_delay = 500000000, rc_max_delay = 10000000000,
     rc_factor = f64_round 2, rc_jitter = f64_round (2 / 10)\<rparr>"

record TransportOptions =
  to_connect_timeout :: "nat option"
  to_heartbeat :: "HeartbeatOptions option"
  to_reconnect :: "ReconnectOptions option"

section \<open>The handle\<close>

datatype DriverCmd = CmdSend "byte list" | StartHeartbeat | StopHeartbeat | CmdClose

text \<open>\<open>tr_open\<close> says that the driver still owns the receiving end of the command queue.\<close>

record Transport =
  tr_cmds :: "DriverCmd list"
  tr_open :: bool
  tr_closed :: bool

definition cmd_send :: "DriverCmd \<Rightarrow> Transport \<Rightarrow> Transport" where
  "cmd_send cmd tr = (if tr_open tr then tr\<lparr>tr_cmds := tr_cmds tr @ [cmd]\<rparr> else tr)"

definition tr_send :: "byte list \<Rightarrow> Transport \<Rightarrow> Transport" where
  "tr_send frame tr = (if tr_closed tr then tr else cmd_send (CmdSend frame) tr)"

definition tr_close :: "Transport \<Rightarrow> Transport" where
  "tr_close tr = (if tr_closed tr then tr else cmd_send CmdClose (tr\<lparr>tr_closed := True\<rparr>))"

definition start_heartbeat :: "Transport \<Rightarrow> Transport" where
  "start_heartbeat tr = cmd_send StartHeartbeat tr"

definition stop_heartbeat :: "Transport \<Rightarrow> Transport" where
  "stop_heartbeat tr = cmd_send StopHeartbeat tr"

section \<open>Ping and pong frames\<close>

record TransportEnv =
  te_encode :: "value \<Rightarrow> (string, byte list) result"
  te_decode :: "byte list \<Rightarrow> (string, value) result"
  te_next_tick :: "nat \<Rightarrow> nat \<Rightarrow> nat \<Rightarrow> nat"

definition ping_frame_bytes :: "TransportEnv \<Rightarrow> byte list run" where
  "ping_frame_bytes env = expect (te_encode env (mp_map [(''method'', VString ''ping'')]))"

definition pong_frame_bytes :: "TransportEnv \<Rightarrow> byte list run" where
  "pong_frame_bytes env = expect (te_encode env (mp_map [(''method'', VString ''pong'')]))"

definition classify_ping_pong :: "TransportEnv \<Rightarrow> byte list \<Rightarrow> bool option" where
  "classify_ping_pong env bytes =
     (case te_decode env bytes of
        Inl _ \<Rightarrow> None
      | Inr v \<Rightarrow>
          (case as_map v of
             None \<Rightarrow> None
           | Some m \<Rightarrow>
               if length m \<noteq> 1 then None
               else case m of
                 [] \<Rightarrow> None
               | (k, v) # _ \<Rightarrow>
                   if as_str k \<noteq> Some ''method'' then None
                   else case as_str v of
                     None \<Rightarrow> None
                   | Some s \<Rightarrow>
                       if s = ''ping'' then Some True else if s = ''pong'' then Some False else None))"

section \<open>The driver of a connection\<close>

record Driver =
  dr_hb_enabled :: bool
  dr_hb_interval :: "nat option"
  dr_hb_deadline :: "nat option"
  dr_events :: "TransportEvent list"
  dr_written :: "ws_message list"
  dr_closed :: bool

datatype branch = OnCmd "DriverCmd option" | OnTick | OnDeadline | OnMessage "ws_item option"

record turn =
  tu_branch :: branch
  tu_now :: nat
  tu_write_ok :: bool
  tu_recv_ok :: bool

text \<open>How an iteration ends: the loop goes on, the socket is lost, the driver returns, or the
  process aborts in a failed \<^verbatim>\<open>expect\<close>.\<close>

datatype flow = Continue | Lost | Stop | Aborted

definition make_heartbeat_interval :: "bool \<Rightarrow> HeartbeatOptions \<Rightarrow> nat \<Rightarrow> nat option" where
  "make_heartbeat_interval enabled opts now = (if \<not> enabled then None else Some (now + ho_interval opts))"

definition tick_ready :: "nat \<Rightarrow> Driver \<Rightarrow> bool" where
  "tick_ready now d \<longleftrightarrow> (case dr_hb_interval d of None \<Rightarrow> False | Some s \<Rightarrow> s \<le> now)"

definition sleep_over :: "nat \<Rightarrow> Driver \<Rightarrow> bool" where
  "sleep_over now d \<longleftrightarrow> (case dr_hb_deadline d of None \<Rightarrow> False | Some x \<Rightarrow> x \<le> now)"

definition branch_ready :: "turn \<Rightarrow> Driver \<Rightarrow> bool" where
  "branch_ready t d \<longleftrightarrow>
     (case tu_branch t of
        OnTick \<Rightarrow> dr_hb_enabled d \<and> tick_ready (tu_now t) d
      | OnDeadline \<Rightarrow> sleep_over (tu_now t) d
      | _ \<Rightarrow> True)"

definition emit :: "turn \<Rightarrow> TransportEvent \<Rightarrow> Driver \<Rightarrow> Driver" where
  "emit t ev d = (if tu_recv_ok t then d\<lparr>dr_events := dr_events d @ [ev]\<rparr> else d)"

definition ws_send :: "turn \<Rightarrow> ws_message \<Rightarrow> Driver \<Rightarrow> Driver" where
  "ws_send t msg d = (if tu_write_ok t then d\<lparr>dr_written := dr_written d @ [msg]\<rparr> else d)"

text \<open>\<^verbatim>\<open>Interval::tick\<close> moves the schedule on when it completes.\<close>

definition tick_done :: "TransportEnv \<Rightarrow> HeartbeatOptions \<Rightarrow> nat \<Rightarrow> Driver \<Rightarrow> Driver" where
  "tick_done env hb now d =
     d\<lparr>dr_hb_interval := map_option (\<lambda>s. te_next_tick env (ho_interval hb) s now) (dr_hb_interval d)\<rparr>"

text \<open>The inner loop's \<^verbatim>\<open>select!\<close> of the dialling side.\<close>

definition client_select ::
  "TransportEnv \<Rightarrow> HeartbeatOptions \<Rightarrow> turn \<Rightarrow> Driver \<Rightarrow> Driver \<times> flow" where
  "client_select env hb t d =
     (case tu_branch t of
        OnCmd (Some (CmdSend bytes)) \<Rightarrow>
          (ws_send t (WsBinary bytes) d, if tu_write_ok t then Continue else Lost)
      | OnCmd (Some StartHeartbeat) \<Rightarrow>
          (d\<lparr>dr_hb_enabled := True, dr_hb_interval := make_heartbeat_interval True hb (tu_now t)\<rparr>, Continue)
      | OnCmd (Some StopHeartbeat) \<Rightarrow>
          (d\<lparr>dr_hb_enabled := False, dr_hb_interval := None, dr_hb_deadline := None\<rparr>, Continue)
      | OnCmd (Some CmdClose) \<Rightarrow> ((ws_send t WsClose d)\<lparr>dr_closed := True\<rparr>, Stop)
      | OnCmd None \<Rightarrow> ((ws_send t WsClose d)\<lparr>dr_closed := True\<rparr>, Stop)
      | OnTick \<Rightarrow>
          (case ping_frame_bytes env of
             Panics \<Rightarrow> (d, Aborted)
           | Returns bytes \<Rightarrow>
               let d = ws_send t (WsBinary bytes) (tick_done env hb (tu_now t) d)
               in if tu_write_ok t then (d\<lparr>dr_hb_deadline := Some (tu_now t + ho_timeout hb)\<rparr>, Continue)
                  else (d, Lost))
      | OnDeadline \<Rightarrow> (emit t HeartbeatDead (d\<lparr>dr_hb_deadline := None\<rparr>), Continue)
      | OnMessage None \<Rightarrow> (d, Lost)
      | OnMessage (Some (Inl _)) \<Rightarrow> (d, Lost)
      | OnMessage (Some (Inr msg)) \<Rightarrow>
          (case msg of
             WsBinary bytes \<Rightarrow>
               (case classify_ping_pong env bytes of
                  Some True \<Rightarrow>
                    (case pong_frame_bytes env of
                       Panics \<Rightarrow> (d, Aborted)
                     | Returns pong \<Rightarrow> (ws_send t (WsBinary pong) d, if tu_write_ok t then Continue else Lost))
                | Some False \<Rightarrow> (d\<lparr>dr_hb_deadline := None\<rparr>, Continue)
                | None \<Rightarrow>
                    if tu_recv_ok t then (emit t (Frame bytes) d, Continue)
                    else (d\<lparr>dr_closed := True\<rparr>, Stop))
           | WsClose \<Rightarrow> (d, Lost)
           | _ \<Rightarrow> (d, Continue)))"

text \<open>The \<^verbatim>\<open>select!\<close> of the accepting side, which announces a lost socket itself and leaves
  the loop by \<^verbatim>\<open>break\<close> in every case.\<close>

definition accepted_select ::
  "TransportEnv \<Rightarrow> HeartbeatOptions \<Rightarrow> turn \<Rightarrow> Driver \<Rightarrow> Driver \<times> flow" where
  "accepted_select env hb t d =
     (case tu_branch t of
        OnCmd (Some (CmdSend bytes)) \<Rightarrow>
          if tu_write_ok t then (ws_send t (WsBinary bytes) d, Continue)
          else (emit t TDisconnected d, Stop)
      | OnCmd (Some StartHeartbeat) \<Rightarrow>
          (d\<lparr>dr_hb_enabled := True, dr_hb_interval := make_heartbeat_interval True hb (tu_now t)\<rparr>, Continue)
      | OnCmd (Some StopHeartbeat) \<Rightarrow>
          (d\<lparr>dr_hb_enabled := False, dr_hb_interval := None, dr_hb_deadline := None\<rparr>, Continue)
      | OnCmd (Some CmdClose) \<Rightarrow> (ws_send t WsClose d, Stop)
      | OnCmd None \<Rightarrow> (ws_send t WsClose d, Stop)
      | OnTick \<Rightarrow>
          (case ping_frame_bytes env of
             Panics \<Rightarrow> (d, Aborted)
           | Returns bytes \<Rightarrow>
               let d = tick_done env hb (tu_now t) d
               in if tu_write_ok t
                  then ((ws_send t (WsBinary bytes) d)\<lparr>dr_hb_deadline := Some (tu_now t + ho_timeout hb)\<rparr>, Continue)
                  else (emit t TDisconnected d, Stop))
      | OnDeadline \<Rightarrow> (emit t HeartbeatDead (d\<lparr>dr_hb_deadline := None\<rparr>), Continue)
      | OnMessage None \<Rightarrow> (emit t TDisconnected d, Stop)
      | OnMessage (Some (Inl _)) \<Rightarrow> (emit t TDisconnected d, Stop)
      | OnMessage (Some (Inr msg)) \<Rightarrow>
          (case msg of
             WsBinary bytes \<Rightarrow>
               (case classify_ping_pong env bytes of
                  Some True \<Rightarrow>
                    (case pong_frame_bytes env of
                       Panics \<Rightarrow> (d, Aborted)
                     | Returns pong \<Rightarrow>
                         if tu_write_ok t then (ws_send t (WsBinary pong) d, Continue)
                         else (emit t TDisconnected d, Stop))
                | Some False \<Rightarrow> (d\<lparr>dr_hb_deadline := None\<rparr>, Continue)
                | None \<Rightarrow> if tu_recv_ok t then (emit t (Frame bytes) d, Continue) else (d, Stop))
           | WsClose \<Rightarrow> (emit t TDisconnected d, Stop)
           | _ \<Rightarrow> (d, Continue)))"

text \<open>The loop around a \<^verbatim>\<open>select!\<close>; \<open>None\<close> when the list of turns is not a possible
  schedule.  Turns after the end of the loop do not take place.\<close>

fun run_turns :: "(turn \<Rightarrow> Driver \<Rightarrow> Driver \<times> flow) \<Rightarrow> turn list \<Rightarrow> Driver \<Rightarrow> (Driver \<times> flow) option" where
  "run_turns sel [] d = Some (d, Continue)"
| "run_turns sel (t # ts) d =
     (if branch_ready t d
      then case sel t d of (d, Continue) \<Rightarrow> run_turns sel ts d | (d, f) \<Rightarrow> Some (d, f)
      else None)"

definition hb_opts :: "TransportOptions \<Rightarrow> HeartbeatOptions" where
  "hb_opts opts = (case to_heartbeat opts of None \<Rightarrow> heartbeat_default | Some hb \<Rightarrow> hb)"

definition driver_new :: "TransportOptions \<Rightarrow> nat \<Rightarrow> Driver" where
  "driver_new opts now =
     \<lparr>dr_hb_enabled = (to_heartbeat opts \<noteq> None),
      dr_hb_interval = make_heartbeat_interval (to_heartbeat opts \<noteq> None) (hb_opts opts) now,
      dr_hb_deadline = None, dr_events = [], dr_written = [], dr_closed = False\<rparr>"

definition run_accepted_driver ::
  "TransportEnv \<Rightarrow> TransportOptions \<Rightarrow> nat \<Rightarrow> turn list \<Rightarrow> (Driver \<times> flow) option" where
  "run_accepted_driver env opts now ts =
     map_option (\<lambda>(d, f). (if f = Stop then d\<lparr>dr_closed := True\<rparr> else d, f))
       (run_turns (accepted_select env (hb_opts opts)) ts (driver_new opts now))"

section \<open>Dialling and reconnecting\<close>

datatype ClientTransportError = Timeout string | ConnectTo string string

text \<open>What becomes of a dial: the URL is not a request, the connection attempt completes after some
  time, or it never does.\<close>

datatype dial = BadRequest string | Completes nat "(string, unit) result" | NeverCompletes

definition DEFAULT_CONNECT_TIMEOUT :: nat where
  "DEFAULT_CONNECT_TIMEOUT = 10000000000"

definition dial_once :: "string \<Rightarrow> nat option \<Rightarrow> dial \<Rightarrow> (ClientTransportError, unit) result" where
  "dial_once url connect_timeout attempt =
     (let timeout = (case connect_timeout of None \<Rightarrow> DEFAULT_CONNECT_TIMEOUT | Some t \<Rightarrow> t)
      in case attempt of
           BadRequest e \<Rightarrow> Err (ConnectTo url e)
         | Completes t r \<Rightarrow>
             if t \<le> timeout then (case r of Inr _ \<Rightarrow> Ok () | Inl e \<Rightarrow> Err (ConnectTo url e))
             else Err (Timeout url)
         | NeverCompletes \<Rightarrow> Err (Timeout url))"

definition as_millis :: "nat \<Rightarrow> nat" where
  "as_millis d = d div 1000000"

definition pseudo_random_unit :: "nat \<Rightarrow> f64" where
  "pseudo_random_unit nanos = f64_div_pos (f64_of_nat nanos) 1000000000"

text \<open>The delay before an attempt, in milliseconds; \<open>nanos\<close> is the sub-second part of the
  clock.  The exponent is cast to \<^verbatim>\<open>i32\<close>.\<close>

definition reconnect_delay :: "(f64 \<Rightarrow> int \<Rightarrow> f64) \<Rightarrow> nat \<Rightarrow> ReconnectOptions \<Rightarrow> 32 word \<Rightarrow> nat" where
  "reconnect_delay pow nanos rc attempt =
     (let attempt = max attempt 1 - 1;
          base_ms = f64_mul (f64_of_nat (as_millis (rc_min_delay rc))) (pow (rc_factor rc) (sint attempt));
          capped = f64_min base_ms (f64_of_nat (as_millis (rc_max_delay rc)));
          jitter = f64_mul (f64_mul capped (rc_jitter rc)) (pseudo_random_unit nanos)
      in f64_round_as_u64 (f64_add capped jitter))"

datatype ReconnectOutcome = RcConnected | RcClosed | RcGaveUp

text \<open>The race between the delay and the command queue.\<close>

datatype wait_end = Slept | GotCmd "DriverCmd option"

record attempt =
  at_nanos :: nat
  at_wait :: wait_end
  at_dial :: dial

text \<open>\<open>rl_delays\<close> records the delays that were asked for.\<close>

record reconnect_state =
  rl_attempts :: "32 word"
  rl_delays :: "nat list"
  rl_closed :: bool

fun reconnect_loop ::
  "(f64 \<Rightarrow> int \<Rightarrow> f64) \<Rightarrow> string \<Rightarrow> nat option \<Rightarrow> ReconnectOptions \<Rightarrow> attempt list \<Rightarrow> reconnect_state \<Rightarrow>
     reconnect_state \<times> (ReconnectOutcome \<times> attempt list) option" where
  "reconnect_loop pow url ct rc ins s =
     (if (case rc_attempts rc of None \<Rightarrow> False | Some m \<Rightarrow> m \<le> rl_attempts s) then (s, Some (RcGaveUp, ins))
      else case ins of
        [] \<Rightarrow> (s, None)
      | i # rest \<Rightarrow>
          let attempts = rl_attempts s + 1;
              s = s\<lparr>rl_attempts := attempts,
                    rl_delays := rl_delays s @ [reconnect_delay pow (at_nanos i) rc attempts]\<rparr>
          in if at_wait i = GotCmd (Some CmdClose) \<or> at_wait i = GotCmd None
             then (s\<lparr>rl_closed := True\<rparr>, Some (RcClosed, rest))
             else case dial_once url ct (at_dial i) of
               Inr _ \<Rightarrow> (s\<lparr>rl_attempts := 0\<rparr>, Some (RcConnected, rest))
             | Inl _ \<Rightarrow> reconnect_loop pow url ct rc rest s)"

declare reconnect_loop.simps [simp del]

definition attempt_reconnect ::
  "(f64 \<Rightarrow> int \<Rightarrow> f64) \<Rightarrow> string \<Rightarrow> TransportOptions \<Rightarrow> attempt list \<Rightarrow> reconnect_state \<Rightarrow>
     reconnect_state \<times> (ReconnectOutcome \<times> attempt list) option" where
  "attempt_reconnect pow url opts ins s =
     (case to_reconnect opts of
        None \<Rightarrow> (s, Some (RcGaveUp, ins))
      | Some rc \<Rightarrow> reconnect_loop pow url (to_connect_timeout opts) rc ins s)"

text \<open>The client's outer loop.  A \<open>life\<close> is one connection: when it starts, its turns, and
  the attempts that follow its loss.  The result says whether the driver has returned.\<close>

record life =
  li_start :: nat
  li_turns :: "turn list"
  li_attempts :: "attempt list"
  li_recv_ok :: bool

record Client =
  cl_driver :: Driver
  cl_attempts :: "32 word"
  cl_delays :: "nat list"
  cl_returned :: bool

definition push_event :: "bool \<Rightarrow> TransportEvent \<Rightarrow> Driver \<Rightarrow> Driver" where
  "push_event ok ev d = (if ok then d\<lparr>dr_events := dr_events d @ [ev]\<rparr> else d)"

definition start_life :: "HeartbeatOptions \<Rightarrow> nat \<Rightarrow> Driver \<Rightarrow> Driver" where
  "start_life hb now d =
     d\<lparr>dr_hb_interval := make_heartbeat_interval (dr_hb_enabled d) hb now, dr_hb_deadline := None\<rparr>"

fun run_client_driver ::
  "(f64 \<Rightarrow> int \<Rightarrow> f64) \<Rightarrow> TransportEnv \<Rightarrow> string \<Rightarrow> TransportOptions \<Rightarrow> life list \<Rightarrow> Client \<Rightarrow> Client option" where
  "run_client_driver pow env url opts [] c = Some c"
| "run_client_driver pow env url opts (l # lives) c =
     (case run_turns (client_select env (hb_opts opts)) (li_turns l)
             (start_life (hb_opts opts) (li_start l) (cl_driver c)) of
        None \<Rightarrow> None
      | Some (d, Continue) \<Rightarrow> Some (c\<lparr>cl_driver := d\<rparr>)
      | Some (d, Stop) \<Rightarrow> Some (c\<lparr>cl_driver := d, cl_returned := True\<rparr>)
      | Some (d, Aborted) \<Rightarrow> Some (c\<lparr>cl_driver := d, cl_returned := True\<rparr>)
      | Some (d, Lost) \<Rightarrow>
          (if to_reconnect opts = None
           then Some (c\<lparr>cl_driver := (push_event (li_recv_ok l) TDisconnected d)\<lparr>dr_closed := True\<rparr>, cl_returned := True\<rparr>)
           else
             let (s, out) = attempt_reconnect pow url opts (li_attempts l)
                   \<lparr>rl_attempts = cl_attempts c, rl_delays = cl_delays c, rl_closed = dr_closed d\<rparr>;
                 d = d\<lparr>dr_closed := rl_closed s\<rparr>;
                 c = c\<lparr>cl_attempts := rl_attempts s, cl_delays := rl_delays s\<rparr>
             in case out of
                  None \<Rightarrow> Some (c\<lparr>cl_driver := d\<rparr>)
                | Some (RcConnected, _) \<Rightarrow>
                    run_client_driver pow env url opts lives (c\<lparr>cl_driver := push_event (li_recv_ok l) Reconnected d\<rparr>)
                | Some (RcClosed, _) \<Rightarrow> Some (c\<lparr>cl_driver := d, cl_returned := True\<rparr>)
                | Some (RcGaveUp, _) \<Rightarrow>
                    Some (c\<lparr>cl_driver := push_event (li_recv_ok l) TDisconnected d, cl_returned := True\<rparr>)))"

definition connect_websocket_transport ::
  "string \<Rightarrow> TransportOptions \<Rightarrow> dial \<Rightarrow> nat \<Rightarrow> (ClientTransportError, Transport \<times> Client) result" where
  "connect_websocket_transport url opts first now =
     (case dial_once url (to_connect_timeout opts) first of
        Inl e \<Rightarrow> Err e
      | Inr _ \<Rightarrow> Ok (\<lparr>tr_cmds = [], tr_open = True, tr_closed = False\<rparr>,
          \<lparr>cl_driver = driver_new opts now, cl_attempts = 0, cl_delays = [], cl_returned = False\<rparr>))"

section \<open>One iteration\<close>

lemmas select_defs = client_select_def accepted_select_def emit_def ws_send_def tick_done_def

definition is_heartbeat :: "TransportEnv \<Rightarrow> bool \<Rightarrow> turn \<Rightarrow> bool" where
  "is_heartbeat env ping t \<longleftrightarrow>
     (case tu_branch t of
        OnMessage (Some (Inr (WsBinary bytes))) \<Rightarrow> classify_ping_pong env bytes = Some ping
      | _ \<Rightarrow> False)"

text \<open>What a turn hands to the application, what it writes to the socket, and whether it settles an
  outstanding ping.\<close>

definition delivers :: "TransportEnv \<Rightarrow> turn \<Rightarrow> byte list list" where
  "delivers env t =
     (case tu_branch t of
        OnMessage (Some (Inr (WsBinary bytes))) \<Rightarrow>
          if classify_ping_pong env bytes = None then [bytes] else []
      | _ \<Rightarrow> [])"

definition transmits :: "TransportEnv \<Rightarrow> turn \<Rightarrow> ws_message list" where
  "transmits env t =
     (case tu_branch t of
        OnCmd (Some (CmdSend bytes)) \<Rightarrow> [WsBinary bytes]
      | OnTick \<Rightarrow> (case ping_frame_bytes env of Returns ping \<Rightarrow> [WsBinary ping] | Panics \<Rightarrow> [])
      | _ \<Rightarrow>
          if is_heartbeat env True t
          then (case pong_frame_bytes env of Returns pong \<Rightarrow> [WsBinary pong] | Panics \<Rightarrow> [])
          else [])"

definition settles :: "TransportEnv \<Rightarrow> turn \<Rightarrow> bool" where
  "settles env t \<longleftrightarrow>
     tu_branch t = OnTick \<or> tu_branch t = OnDeadline \<or> tu_branch t = OnCmd (Some StopHeartbeat) \<or>
     is_heartbeat env False t"

definition frames_of :: "TransportEvent list \<Rightarrow> byte list list" where
  "frames_of evs = concat (map (\<lambda>ev. case ev of Frame bytes \<Rightarrow> [bytes] | _ \<Rightarrow> []) evs)"

lemma frames_of_simps [simp]:
  "frames_of [] = []"
  "frames_of (es @ fs) = frames_of es @ frames_of fs"
  "frames_of (ev # es) = (case ev of Frame bytes \<Rightarrow> [bytes] | _ \<Rightarrow> []) @ frames_of es"
  by (simp_all add: frames_of_def)

text \<open>A case analysis of a turn into the branches of the code.\<close>

lemma turn_cases:
  obtains (send) bytes where "tu_branch t = OnCmd (Some (CmdSend bytes))"
  | (start) "tu_branch t = OnCmd (Some StartHeartbeat)"
  | (stop) "tu_branch t = OnCmd (Some StopHeartbeat)"
  | (close) "tu_branch t = OnCmd (Some CmdClose) \<or> tu_branch t = OnCmd None"
  | (tick) "tu_branch t = OnTick"
  | (deadline) "tu_branch t = OnDeadline"
  | (gone) e where "tu_branch t = OnMessage None \<or> tu_branch t = OnMessage (Some (Inl e)) \<or>
      tu_branch t = OnMessage (Some (Inr WsClose))"
  | (binary) bytes where "tu_branch t = OnMessage (Some (Inr (WsBinary bytes)))"
  | (control) msg where "tu_branch t = OnMessage (Some (Inr msg))" "\<forall>b. msg \<noteq> WsBinary b" "msg \<noteq> WsClose"
proof (cases "tu_branch t")
  case (OnCmd cmd)
  then show ?thesis using send start stop close by (cases cmd) (auto, metis DriverCmd.exhaust)
next
  case (OnMessage item)
  show ?thesis
  proof (cases item)
    case (Some r)
    show ?thesis
    proof (cases r)
      case (Inr msg)
      then show ?thesis
        using OnMessage Some gone binary control by (cases msg) auto
    qed (use OnMessage Some gone in auto)
  qed (use OnMessage gone in auto)
qed (use tick deadline in auto)

lemma accepted_select_client:
  "accepted_select env hb t d =
     (case client_select env hb t d of
        (d', Continue) \<Rightarrow> (d', Continue)
      | (d', Lost) \<Rightarrow> (emit t TDisconnected d', Stop)
      | (d', Stop) \<Rightarrow> (d'\<lparr>dr_closed := dr_closed d\<rparr>, Stop)
      | (d', Aborted) \<Rightarrow> (d', Aborted))"
proof (cases t rule: turn_cases)
  case (control msg)
  then show ?thesis by (cases msg) (simp_all add: select_defs)
qed (auto simp: select_defs Let_def split: option.splits bool.splits run.splits)

lemma client_continues:
  assumes "client_select env hb t d = (d', Continue)"
  shows "frames_of (dr_events d') = frames_of (dr_events d) @ delivers env t"
    and "dr_written d' = dr_written d @ transmits env t"
    and "dr_closed d' = dr_closed d"
    and "dr_hb_deadline d' =
       (if tu_branch t = OnTick then Some (tu_now t + ho_timeout hb)
        else if settles env t then None else dr_hb_deadline d)"
proof -
  have "frames_of (dr_events d') = frames_of (dr_events d) @ delivers env t \<and>
    dr_written d' = dr_written d @ transmits env t \<and> dr_closed d' = dr_closed d \<and>
    dr_hb_deadline d' =
       (if tu_branch t = OnTick then Some (tu_now t + ho_timeout hb)
        else if settles env t then None else dr_hb_deadline d)"
  proof (cases t rule: turn_cases)
    case (binary bytes)
    then show ?thesis using assms
      by (cases "classify_ping_pong env bytes"; cases "pong_frame_bytes env")
        (auto simp: select_defs delivers_def transmits_def settles_def is_heartbeat_def split: bool.splits if_splits)
  next
    case (control msg)
    then show ?thesis using assms
      by (cases msg) (auto simp: select_defs delivers_def transmits_def settles_def is_heartbeat_def)
  next
    case tick
    then show ?thesis using assms
      by (cases "ping_frame_bytes env"; cases "tu_write_ok t")
        (auto simp: select_defs delivers_def transmits_def settles_def Let_def)
  next
    case (gone e)
    then show ?thesis using assms by (elim disjE) (simp_all add: client_select_def)
  next
    case close
    then show ?thesis using assms by (elim disjE) (simp_all add: client_select_def)
  qed (use assms in \<open>auto simp: select_defs delivers_def transmits_def settles_def is_heartbeat_def split: if_splits\<close>)
  then show "frames_of (dr_events d') = frames_of (dr_events d) @ delivers env t"
    and "dr_written d' = dr_written d @ transmits env t"
    and "dr_closed d' = dr_closed d"
    and "dr_hb_deadline d' =
       (if tu_branch t = OnTick then Some (tu_now t + ho_timeout hb)
        else if settles env t then None else dr_hb_deadline d)"
    by simp_all
qed

lemma accepted_continues_iff:
  "accepted_select env hb t d = (d', Continue) \<longleftrightarrow> client_select env hb t d = (d', Continue)"
  by (simp add: accepted_select_client split: prod.splits flow.splits)

definition driver_select :: "TransportEnv \<Rightarrow> HeartbeatOptions \<Rightarrow> (turn \<Rightarrow> Driver \<Rightarrow> Driver \<times> flow) \<Rightarrow> bool" where
  "driver_select env hb sel \<longleftrightarrow> sel = client_select env hb \<or> sel = accepted_select env hb"

lemma driver_select_continues:
  "driver_select env hb sel \<Longrightarrow> sel t d = (d', Continue) \<Longrightarrow> client_select env hb t d = (d', Continue)"
  by (auto simp: driver_select_def accepted_continues_iff)

section \<open>Whole runs\<close>

lemma run_turns_snoc:
  "run_turns sel (ts @ [t]) d = Some (d', Continue) \<longleftrightarrow>
     (\<exists>dm. run_turns sel ts d = Some (dm, Continue) \<and> branch_ready t dm \<and> sel t dm = (d', Continue))"
  by (induction ts arbitrary: d) (auto split: prod.splits flow.splits)

lemma run_turns_induct [consumes 1, case_names start step]:
  assumes "run_turns sel ts d0 = Some (d, Continue)"
    and "P [] d0"
    and "\<And>ts t d d'. \<lbrakk>P ts d; branch_ready t d; sel t d = (d', Continue)\<rbrakk> \<Longrightarrow> P (ts @ [t]) d'"
  shows "P ts d"
  using assms(1)
proof (induction ts arbitrary: d rule: rev_induct)
  case (snoc t ts)
  then show ?case using assms(3) by (auto simp: run_turns_snoc)
qed (use assms(2) in simp)

text \<open>While a driver runs, on either side, it hands the application exactly the inbound binary
  frames that are not heartbeats, in order, and writes exactly the frames it was asked to send,
  its pings and one pong per ping received, in order.\<close>

theorem driver_relays_in_order:
  assumes "driver_select env hb sel" "run_turns sel ts d0 = Some (d, Continue)"
  shows "frames_of (dr_events d) = frames_of (dr_events d0) @ concat (map (delivers env) ts) \<and>
    dr_written d = dr_written d0 @ concat (map (transmits env) ts)"
  using assms(2)
proof (induction rule: run_turns_induct)
  case (step ts t d d')
  then show ?case using client_continues(1,2) [OF driver_select_continues [OF assms(1)]] by simp
qed simp

lemma deadline_iff_ping:
  assumes "driver_select env hb sel" "run_turns sel ts d0 = Some (d, Continue)" "dr_hb_deadline d0 = None"
  shows "dr_hb_deadline d = Some x \<longleftrightarrow>
     (\<exists>before p since. ts = before @ p # since \<and> tu_branch p = OnTick \<and>
         tu_now p + ho_timeout hb = x \<and> (\<forall>u \<in> set since. \<not> settles env u))"
  using assms(2)
proof (induction rule: run_turns_induct)
  case (step ts t d d')
  note deadline = client_continues(4) [OF driver_select_continues [OF assms(1) step.hyps(2)]]
  show ?case (is "_ \<longleftrightarrow> ?R")
  proof (cases "tu_branch t = OnTick")
    case True
    then have s: "settles env t" by (simp add: settles_def)
    show ?thesis
    proof
      assume "dr_hb_deadline d' = Some x"
      then show ?R using deadline True by (intro exI [of _ ts] exI [of _ t] exI [of _ "[]"]) simp
    next
      assume ?R
      then obtain before p since where r: "ts @ [t] = before @ p # since" "tu_now p + ho_timeout hb = x"
        "\<forall>u \<in> set since. \<not> settles env u" by blast
      then have "since = []" using s by (cases since rule: rev_cases) auto
      then show "dr_hb_deadline d' = Some x" using r deadline True by simp
    qed
  next
    case False
    have "?R \<longleftrightarrow> \<not> settles env t \<and> dr_hb_deadline d = Some x"
    proof
      assume ?R
      then obtain before p since where r: "ts @ [t] = before @ p # since" "tu_branch p = OnTick"
        "tu_now p + ho_timeout hb = x" "\<forall>u \<in> set since. \<not> settles env u" by blast
      then obtain since' where "since = since' @ [t]" using False by (cases since rule: rev_cases) auto
      then show "\<not> settles env t \<and> dr_hb_deadline d = Some x" using r step.IH by auto
    next
      assume l: "\<not> settles env t \<and> dr_hb_deadline d = Some x"
      then obtain before p since where "ts = before @ p # since" "tu_branch p = OnTick"
        "tu_now p + ho_timeout hb = x" "\<forall>u \<in> set since. \<not> settles env u" using step.IH by blast
      then show ?R using l by (intro exI [of _ before] exI [of _ p] exI [of _ "since @ [t]"]) auto
    qed
    then show ?thesis using deadline False by auto
  qed
qed (simp add: assms(3))

text \<open>C29. The heartbeat alarm of a driver is ready exactly when some ping is older than the timeout
  and nothing after it settled it: no pong, no newer ping, no alarm and no stop of the heartbeat.
  When it fires, the application is told once and the ping is settled.\<close>

theorem heartbeat_alarm_iff_silence:
  assumes "driver_select env hb sel" "run_turns sel ts d0 = Some (d, Continue)"
    and "dr_hb_deadline d0 = None" "tu_branch t = OnDeadline" "tu_recv_ok t"
  shows "(branch_ready t d \<longleftrightarrow>
      (\<exists>before p since. ts = before @ p # since \<and> tu_branch p = OnTick \<and>
         tu_now p + ho_timeout hb \<le> tu_now t \<and> (\<forall>u \<in> set since. \<not> settles env u))) \<and>
    sel t d = (d\<lparr>dr_hb_deadline := None, dr_events := dr_events d @ [HeartbeatDead]\<rparr>, Continue)"
proof
  have "branch_ready t d \<longleftrightarrow> (\<exists>x. dr_hb_deadline d = Some x \<and> x \<le> tu_now t)"
    using assms(4) by (auto simp: branch_ready_def sleep_over_def split: option.splits)
  then show "branch_ready t d \<longleftrightarrow>
      (\<exists>before p since. ts = before @ p # since \<and> tu_branch p = OnTick \<and>
         tu_now p + ho_timeout hb \<le> tu_now t \<and> (\<forall>u \<in> set since. \<not> settles env u))"
    unfolding deadline_iff_ping [OF assms(1-3)] by blast
  show "sel t d = (d\<lparr>dr_hb_deadline := None, dr_events := dr_events d @ [HeartbeatDead]\<rparr>, Continue)"
    using assms(1,4,5) by (auto simp: driver_select_def select_defs)
qed

text \<open>The deadline is overwritten by every ping.  When the timeout is longer than the interval, and
  the timer is served on time, the alarm never rings, however long the peer stays silent.\<close>

lemma alarm_never_rings_with_short_interval:
  assumes "driver_select env hb sel" "run_turns sel ts d0 = Some (d, Continue)"
    and "ho_interval hb < ho_timeout hb"
    and "\<forall>s now. te_next_tick env (ho_interval hb) s now \<le> now + ho_interval hb"
    and "dr_hb_deadline d0 = None" "\<forall>u \<in> set ts. tu_branch u \<noteq> OnCmd (Some StartHeartbeat)"
    and "\<forall>s. dr_hb_interval d = Some s \<longrightarrow> tu_now t \<le> s" "tu_branch t = OnDeadline"
  shows "\<not> branch_ready t d"
proof -
  have "(\<forall>u \<in> set ts. tu_branch u \<noteq> OnCmd (Some StartHeartbeat)) \<longrightarrow>
      (\<forall>x. dr_hb_deadline d = Some x \<longrightarrow> (\<exists>s. dr_hb_interval d = Some s \<and> s < x))"
    using assms(2)
  proof (induction rule: run_turns_induct)
    case (step ts t d d')
    have c: "client_select env hb t d = (d', Continue)"
      using driver_select_continues [OF assms(1) step.hyps(2)] .
    note deadline = client_continues(4) [OF c]
    show ?case
    proof (cases "tu_branch t = OnTick")
      case True
      then obtain s where "dr_hb_interval d = Some s" "dr_hb_interval d' = Some (te_next_tick env (ho_interval hb) s (tu_now t))"
        using step.hyps(1) c by (cases "dr_hb_interval d"; cases "tu_write_ok t")
          (auto simp: branch_ready_def tick_ready_def select_defs Let_def split: run.splits)
      moreover have "te_next_tick env (ho_interval hb) s (tu_now t) < tu_now t + ho_timeout hb" for s
        using assms(3,4) by (meson add_strict_left_mono le_less_trans)
      ultimately show ?thesis using deadline True by auto
    next
      case False
      have "tu_branch t \<noteq> OnCmd (Some StartHeartbeat) \<longrightarrow> \<not> settles env t \<longrightarrow> dr_hb_interval d' = dr_hb_interval d"
        using c False
        by (cases t rule: turn_cases)
          (auto simp: select_defs settles_def split: option.splits bool.splits run.splits if_splits ws_message.splits)
      then show ?thesis using step.IH deadline False by auto
    qed
  qed (simp add: assms(5))
  then show ?thesis using assms(6-8) by (fastforce simp: branch_ready_def sleep_over_def split: option.splits)
qed

definition all_received :: "life \<Rightarrow> bool" where
  "all_received l \<longleftrightarrow> li_recv_ok l \<and> (\<forall>t \<in> set (li_turns l). tu_recv_ok t)"

lemma run_turns_accepted:
  assumes "\<forall>t \<in> set ts. tu_recv_ok t"
  shows "map_option (\<lambda>(d, f). (if f = Stop then d\<lparr>dr_closed := True\<rparr> else d, f))
      (run_turns (accepted_select env hb) ts d) =
    map_option (\<lambda>(d, f).
        if f = Lost then ((push_event True TDisconnected d)\<lparr>dr_closed := True\<rparr>, Stop)
        else if f = Stop then (d\<lparr>dr_closed := True\<rparr>, f) else (d, f))
      (run_turns (client_select env hb) ts d)"
  using assms
proof (induction ts arbitrary: d)
  case (Cons t ts)
  obtain d' f where c: "client_select env hb t d = (d', f)" by force
  then show ?case
    using Cons accepted_select_client [of env hb t d]
    by (cases f) (auto simp: emit_def push_event_def)
qed simp

lemma client_stop_closed: "client_select env hb t d = (d', Stop) \<Longrightarrow> dr_closed d'"
  by (cases t rule: turn_cases)
    (auto simp: select_defs Let_def split: option.splits bool.splits run.splits if_splits ws_message.splits)

lemma run_turns_stop_closed: "run_turns (client_select env hb) ts d = Some (d', Stop) \<Longrightarrow> dr_closed d'"
  by (induction ts arbitrary: d) (auto split: if_splits prod.splits flow.splits dest: client_stop_closed)

text \<open>Without reconnection a dialled connection behaves exactly as an accepted one: the same
  events, the same frames written, the same heartbeat state and the same closed flag, for every
  run.\<close>

theorem client_without_reconnect_is_accepted:
  assumes "to_reconnect opts = None" "all_received l"
    and "connect_websocket_transport url opts first (li_start l) = Ok (tr, c)"
  shows "map_option (\<lambda>c. (cl_driver c, cl_returned c)) (run_client_driver pow env url opts [l] c) =
    map_option (\<lambda>(d, f). (d, f \<noteq> Continue)) (run_accepted_driver env opts (li_start l) (li_turns l))"
proof -
  have c: "cl_driver c = driver_new opts (li_start l)" "\<not> cl_returned c"
    using assms(3) by (auto simp: connect_websocket_transport_def split: sum.splits)
  have st: "start_life (hb_opts opts) (li_start l) (driver_new opts (li_start l)) = driver_new opts (li_start l)"
    by (simp add: start_life_def driver_new_def)
  have "run_accepted_driver env opts (li_start l) (li_turns l) =
    map_option (\<lambda>(d, f).
        if f = Lost then ((push_event True TDisconnected d)\<lparr>dr_closed := True\<rparr>, Stop)
        else if f = Stop then (d\<lparr>dr_closed := True\<rparr>, f) else (d, f))
      (run_turns (client_select env (hb_opts opts)) (li_turns l) (driver_new opts (li_start l)))"
    unfolding run_accepted_driver_def using assms(2) by (intro run_turns_accepted) (simp add: all_received_def)
  moreover have "d\<lparr>dr_closed := True\<rparr> = d" if "dr_closed d" for d :: Driver
    using that by (metis (full_types) Driver.surjective Driver.update_convs(6))
  ultimately show ?thesis
    using assms(1,2) c(2)
    by (auto simp: c(1) st all_received_def push_event_def dest: run_turns_stop_closed
        split: option.splits prod.splits flow.splits)
qed

section \<open>Witnesses\<close>

definition sample_wire :: TransportEnv where
  "sample_wire = \<lparr>te_encode = (\<lambda>v. if v = mp_map [(''method'', VString ''ping'')] then Ok [1] else Ok [2]),
     te_decode = (\<lambda>bytes. if bytes = [1] then Ok (mp_map [(''method'', VString ''ping'')])
       else if bytes = [2] then Ok (mp_map [(''method'', VString ''pong'')]) else Err ''not a frame''),
     te_next_tick = (\<lambda>period s now. s + period)\<rparr>"

definition sample_hb :: HeartbeatOptions where
  "sample_hb = \<lparr>ho_interval = 5, ho_timeout = 3\<rparr>"

definition sample_opts :: TransportOptions where
  "sample_opts = \<lparr>to_connect_timeout = None, to_heartbeat = Some sample_hb, to_reconnect = None\<rparr>"

definition sample_turn :: "branch \<Rightarrow> nat \<Rightarrow> turn" where
  "sample_turn b now = \<lparr>tu_branch = b, tu_now = now, tu_write_ok = True, tu_recv_ok = True\<rparr>"

definition sample_turns :: "turn list" where
  "sample_turns = [sample_turn (OnMessage (Some (Ok (WsBinary [1])))) 1, sample_turn (OnMessage (Some (Ok (WsBinary [9])))) 2,
     sample_turn (OnCmd (Some (CmdSend [7]))) 3, sample_turn OnTick 5, sample_turn (OnMessage (Some (Ok WsPing))) 6]"

lemma sample_classify:
  "classify_ping_pong sample_wire [1] = Some True" "classify_ping_pong sample_wire [9] = None"
  "ping_frame_bytes sample_wire = Returns [1]" "pong_frame_bytes sample_wire = Returns [2]"
  by (simp_all add: classify_ping_pong_def sample_wire_def mp_map_def as_map_def ping_frame_bytes_def pong_frame_bytes_def expect_def)

lemma sample_driver_run:
  "\<exists>d. run_turns (accepted_select sample_wire sample_hb) sample_turns (driver_new sample_opts 0) = Some (d, Continue)"
  by (simp add: sample_turns_def sample_turn_def branch_ready_def tick_ready_def driver_new_def sample_opts_def hb_opts_def
      accepted_select_def sample_classify emit_def ws_send_def make_heartbeat_interval_def sample_hb_def Let_def)

lemma sample_select: "driver_select sample_wire sample_hb (accepted_select sample_wire sample_hb)"
  by (simp add: driver_select_def)

theorem driver_relays_in_order_witness:
  "\<exists>d. run_turns (accepted_select sample_wire sample_hb) sample_turns (driver_new sample_opts 0) = Some (d, Continue) \<and>
     frames_of (dr_events d) = [[9]] \<and> dr_written d = [WsBinary [2], WsBinary [7], WsBinary [1]]"
proof -
  obtain d where d: "run_turns (accepted_select sample_wire sample_hb) sample_turns (driver_new sample_opts 0) = Some (d, Continue)"
    using sample_driver_run by blast
  from driver_relays_in_order [OF sample_select d] d show ?thesis
    by (simp add: driver_new_def sample_turns_def sample_turn_def delivers_def transmits_def is_heartbeat_def sample_classify)
qed

theorem heartbeat_alarm_iff_silence_witness:
  "\<exists>d. run_turns (accepted_select sample_wire sample_hb) sample_turns (driver_new sample_opts 0) = Some (d, Continue) \<and>
     branch_ready (sample_turn OnDeadline 8) d"
proof -
  obtain d where d: "run_turns (accepted_select sample_wire sample_hb) sample_turns (driver_new sample_opts 0) = Some (d, Continue)"
    using sample_driver_run by blast
  have n: "dr_hb_deadline (driver_new sample_opts 0) = None" by (simp add: driver_new_def)
  have "\<exists>before p since. sample_turns = before @ p # since \<and> tu_branch p = OnTick \<and>
      tu_now p + ho_timeout sample_hb \<le> 8 \<and> (\<forall>u \<in> set since. \<not> settles sample_wire u)"
    by (intro exI [of _ "take 3 sample_turns"] exI [of _ "sample_turns ! 3"] exI [of _ "drop 4 sample_turns"])
      (simp add: sample_turns_def sample_turn_def sample_hb_def settles_def is_heartbeat_def)
  then show ?thesis
    using heartbeat_alarm_iff_silence [OF sample_select d n, of "sample_turn OnDeadline 8"] d by (simp add: sample_turn_def)
qed

definition sample_life :: life where
  "sample_life = \<lparr>li_start = 0, li_turns = sample_turns, li_attempts = [], li_recv_ok = True\<rparr>"

definition sample_dialled :: Client where
  "sample_dialled = \<lparr>cl_driver = driver_new sample_opts 0, cl_attempts = 0, cl_delays = [], cl_returned = False\<rparr>"

theorem client_without_reconnect_is_accepted_witness:
  "map_option (\<lambda>c. (cl_driver c, cl_returned c))
      (run_client_driver (\<lambda>x n. x) sample_wire ''ws://agent'' sample_opts [sample_life] sample_dialled) =
   map_option (\<lambda>(d, f). (d, f \<noteq> Continue)) (run_accepted_driver sample_wire sample_opts 0 sample_turns) \<and>
   run_accepted_driver sample_wire sample_opts 0 sample_turns \<noteq> None"
proof
  have r: "to_reconnect sample_opts = None" "all_received sample_life" "li_start sample_life = 0" "li_turns sample_life = sample_turns"
    by (simp_all add: sample_opts_def all_received_def sample_life_def sample_turns_def sample_turn_def)
  have c: "connect_websocket_transport ''ws://agent'' sample_opts (Completes 5 (Ok ())) (li_start sample_life) =
      Ok (\<lparr>tr_cmds = [], tr_open = True, tr_closed = False\<rparr>, sample_dialled)"
    by (simp add: connect_websocket_transport_def dial_once_def DEFAULT_CONNECT_TIMEOUT_def sample_opts_def sample_dialled_def r(3))
  show "map_option (\<lambda>c. (cl_driver c, cl_returned c))
      (run_client_driver (\<lambda>x n. x) sample_wire ''ws://agent'' sample_opts [sample_life] sample_dialled) =
    map_option (\<lambda>(d, f). (d, f \<noteq> Continue)) (run_accepted_driver sample_wire sample_opts 0 sample_turns)"
    using client_without_reconnect_is_accepted [OF r(1,2) c, of "\<lambda>x n. x" sample_wire] unfolding r(3,4) .
  have "hb_opts sample_opts = sample_hb" by (simp add: hb_opts_def sample_opts_def)
  then show "run_accepted_driver sample_wire sample_opts 0 sample_turns \<noteq> None"
    using sample_driver_run by (auto simp: run_accepted_driver_def)
qed

end
