(* ===== verification/Transport_Runs.thy ===== *)
theory Transport_Runs
  imports Transport
begin

text \<open>
  Reconnection of the dialling driver (\<open>Transport\<close>): the back-off delay and the bound on
  attempts, the events over a whole life of the driver, and what a lost connection does to the
  requests that wait in \<open>Connection\<close>.
\<close>

section \<open>Reconnection\<close>

lemma small_sint:
  fixes w :: "32 word"
  assumes "unat w < 2 ^ 31"
  shows "0 \<le> sint w"
proof -
  have "uint w < 2 ^ 31" using assms by (metis of_nat_less_iff of_nat_numeral of_nat_power of_nat_unat)
  then have "uint w div 2 ^ 31 = 0" by (simp add: div_pos_pos_trivial)
  then have "\<not> bit (uint w) 31" by (metis bit_iff_odd even_zero)
  then have "\<not> bit w 31" by (simp add: bit_uint_iff)
  then show ?thesis by (simp add: sint_uint bit_uint_iff)
qed

lemma attempt_exponent_nonneg:
  fixes attempt :: "32 word"
  assumes "attempt \<le> 2 ^ 31"
  shows "0 \<le> sint (max attempt 1 - 1)"
proof -
  have "unat attempt \<le> 2 ^ 31" using assms by (simp add: word_le_nat_alt)
  moreover have "1 \<le> max attempt 1" by simp
  then have "unat (max attempt 1 - 1) = unat (max attempt 1) - 1" by (simp only: unat_sub) simp
  moreover have "max attempt 1 = attempt \<or> max attempt 1 = 1" by (simp add: max_def)
  ultimately have "unat (max attempt 1 - 1) < 2 ^ 31" by auto
  then show ?thesis by (rule small_sint)
qed

lemma pseudo_random_unit_range:
  assumes "nanos < 1000000000"
  shows "\<exists>u. pseudo_random_unit nanos = Fin u \<and> 0 \<le> u \<and> u \<le> 1"
proof -
  have "pseudo_random_unit nanos = f64_round (of_nat nanos / 1000000000)"
    using assms by (simp add: pseudo_random_unit_def f64_of_nat_exact)
  moreover have "(of_nat nanos :: rat) / 1000000000 \<le> of_nat 1" using assms by simp
  ultimately show ?thesis using f64_round_between [of 0 "of_nat nanos / 1000000000" 1] by simp
qed

lemma capped_delay:
  assumes "f = Infinite False \<or> (\<exists>p. f = Fin p \<and> 1 \<le> p)" "mn \<le> 2 ^ 52" "mx \<le> 2 ^ 52"
  shows "\<exists>c. f64_min (f64_mul (Fin (of_nat mn)) f) (Fin (of_nat mx)) = Fin c \<and>
    of_nat (min mn mx) \<le> c \<and> c \<le> of_nat mx"
proof (cases "f = Infinite False")
  case False
  then obtain p where p: "f = Fin p" "1 \<le> p" using assms(1) by blast
  have "of_nat mn \<le> of_nat mn * p" using p(2) by (simp add: mult_le_cancel_left1)
  then have "f64_round (of_nat mn * p) = Infinite False \<or> (\<exists>r. f64_round (of_nat mn * p) = Fin r \<and> of_nat mn \<le> r)"
    using assms(2) by (intro f64_round_at_least) simp_all
  then show ?thesis by (auto simp: p(1) min_def)
qed auto

text \<open>The delay before a reconnection attempt lies between the smaller of the two configured
  delays and twice the larger bound, in milliseconds, for a factor of at least one and a jitter
  between zero and one, whatever the clock says and however \<^verbatim>\<open>powi\<close> rounds.\<close>

theorem reconnect_delay_bounds:
  fixes pow :: "f64 \<Rightarrow> int \<Rightarrow> f64"
  assumes "\<forall>n. 0 \<le> n \<longrightarrow> pow (rc_factor rc) n = Infinite False \<or> (\<exists>p. pow (rc_factor rc) n = Fin p \<and> 1 \<le> p)"
    and "rc_jitter rc = Fin j" "0 \<le> j" "j \<le> 1" "nanos < 1000000000"
    and "as_millis (rc_min_delay rc) \<le> 2 ^ 52" "as_millis (rc_max_delay rc) \<le> 2 ^ 52"
    and "attempt \<le> 2 ^ 31"
  shows "min (as_millis (rc_min_delay rc)) (as_millis (rc_max_delay rc)) \<le> reconnect_delay pow nanos rc attempt \<and>
    reconnect_delay pow nanos rc attempt \<le> 2 * as_millis (rc_max_delay rc)"
proof -
  let ?mn = "as_millis (rc_min_delay rc)" and ?mx = "as_millis (rc_max_delay rc)"
  let ?lo = "min ?mn ?mx" and ?n = "sint (max attempt 1 - 1)"
  let ?base = "f64_mul (f64_of_nat ?mn) (pow (rc_factor rc) ?n)"
  have n: "0 \<le> ?n" using assms(8) by (rule attempt_exponent_nonneg)
  have exact: "f64_of_nat ?mn = Fin (of_nat ?mn)" "f64_of_nat ?mx = Fin (of_nat ?mx)"
    using assms(6,7) by (simp_all add: f64_of_nat_exact)
  obtain c where c: "f64_min ?base (f64_of_nat ?mx) = Fin c" "of_nat ?lo \<le> c" "c \<le> of_nat ?mx"
    using capped_delay [of "pow (rc_factor rc) ?n" ?mn ?mx] assms(1,6,7) n unfolding exact by blast
  obtain u where u: "pseudo_random_unit nanos = Fin u" "0 \<le> u" "u \<le> 1"
    using pseudo_random_unit_range [OF assms(5)] by blast
  have mx: "?mx \<le> 2 ^ 53" "2 * ?mx \<le> 2 ^ 53" using assms(7) by simp_all
  have c0: "0 \<le> c" using c(2) by (meson of_nat_0_le_iff order_trans)
  have "c * j \<le> of_nat ?mx" using c(3) c0 assms(3,4) by (meson mult_left_le order_trans)
  moreover have "of_nat 0 \<le> c * j" using c0 assms(3) by simp
  ultimately obtain j1 where j1: "f64_round (c * j) = Fin j1" "0 \<le> j1" "j1 \<le> of_nat ?mx"
    using f64_round_between [of 0 "c * j" ?mx] mx by auto
  have "j1 * u \<le> of_nat ?mx" using j1 u by (meson mult_left_le order_trans)
  moreover have "of_nat 0 \<le> j1 * u" using j1 u by simp
  ultimately obtain j2 where j2: "f64_round (j1 * u) = Fin j2" "0 \<le> j2" "j2 \<le> of_nat ?mx"
    using f64_round_between [of 0 "j1 * u" ?mx] mx by auto
  have "of_nat ?lo \<le> c + j2" "c + j2 \<le> of_nat (2 * ?mx)" using c(2,3) j2 by simp_all
  then obtain r where r: "f64_round (c + j2) = Fin r" "of_nat ?lo \<le> r" "r \<le> of_nat (2 * ?mx)"
    using f64_round_between [of ?lo "c + j2" "2 * ?mx"] mx by blast
  have "reconnect_delay pow nanos rc attempt = f64_round_as_u64 (Fin r)"
    by (simp add: reconnect_delay_def Let_def c(1) u(1) j1(1) j2(1) r(1) assms(2))
  then show ?thesis using f64_round_as_u64_between [OF r(2,3)] mx by simp
qed


lemma unat_succ_less:
  fixes a m :: "32 word"
  assumes "a < m"
  shows "unat (a + 1) = unat a + 1"
proof -
  have "unat a + 1 < 2 ^ 32" using assms unsigned_less [of m, where 'a = nat] by (simp add: word_less_nat_alt)
  then show ?thesis by (simp add: unat_word_ariths)
qed

lemma reconnect_loop_attempt:
  assumes "rc_attempts rc = Some m" "rl_attempts s < m"
  shows "reconnect_loop pow url ct rc (i # ins) s =
    (let s = s\<lparr>rl_attempts := rl_attempts s + 1,
               rl_delays := rl_delays s @ [reconnect_delay pow (at_nanos i) rc (rl_attempts s + 1)]\<rparr>
     in if at_wait i = GotCmd (Some CmdClose) \<or> at_wait i = GotCmd None then (s\<lparr>rl_closed := True\<rparr>, Some (RcClosed, ins))
        else case dial_once url ct (at_dial i) of
          Inr _ \<Rightarrow> (s\<lparr>rl_attempts := 0\<rparr>, Some (RcConnected, ins))
        | Inl _ \<Rightarrow> reconnect_loop pow url ct rc ins s)"
proof -
  have "\<not> m \<le> rl_attempts s" using assms(2) by simp
  then show ?thesis using assms(1) by (subst reconnect_loop.simps) (simp add: Let_def)
qed

text \<open>How a reconnection that started with \<open>s\<close> ended, after the attempts \<open>used\<close>.\<close>

definition reconnect_ended ::
  "string \<Rightarrow> nat option \<Rightarrow> 32 word \<Rightarrow> attempt list \<Rightarrow> reconnect_state \<Rightarrow> reconnect_state \<Rightarrow> ReconnectOutcome \<Rightarrow> attempt list \<Rightarrow> attempt list \<Rightarrow> bool" where
  "reconnect_ended url ct m ins s s' out used rest \<longleftrightarrow> ins = used @ rest \<and>
    length (rl_delays s') = length (rl_delays s) + length used \<and>
    length used \<le> unat m - unat (rl_attempts s) \<and>
    (out = RcGaveUp \<longrightarrow> length used = unat m - unat (rl_attempts s) \<and> rl_attempts s' = m \<and>
       (\<forall>i \<in> set used. \<exists>e. dial_once url ct (at_dial i) = Err e)) \<and>
    (out = RcConnected \<longrightarrow> rl_attempts s' = 0) \<and> (rl_closed s' \<longleftrightarrow> rl_closed s \<or> out = RcClosed)"

lemma reconnect_ended_attempt:
  fixes delay :: nat
  assumes "rl_attempts s < m"
  defines "s1 \<equiv> s\<lparr>rl_attempts := rl_attempts s + 1, rl_delays := rl_delays s @ [delay]\<rparr>"
  shows "reconnect_ended url ct m (i # ins) s (s1\<lparr>rl_closed := True\<rparr>) RcClosed [i] ins"
    and "reconnect_ended url ct m (i # ins) s (s1\<lparr>rl_attempts := 0\<rparr>) RcConnected [i] ins"
    and "dial_once url ct (at_dial i) = Err e \<Longrightarrow> reconnect_ended url ct m ins s1 s' out used rest \<Longrightarrow>
      reconnect_ended url ct m (i # ins) s s' out (i # used) rest"
proof -
  have lt: "unat (rl_attempts s) < unat m" using assms(1) by (simp add: word_less_nat_alt)
  then show "reconnect_ended url ct m (i # ins) s (s1\<lparr>rl_closed := True\<rparr>) RcClosed [i] ins"
    "reconnect_ended url ct m (i # ins) s (s1\<lparr>rl_attempts := 0\<rparr>) RcConnected [i] ins"
    by (simp_all add: reconnect_ended_def s1_def)
  assume "dial_once url ct (at_dial i) = Err e" "reconnect_ended url ct m ins s1 s' out used rest"
  then show "reconnect_ended url ct m (i # ins) s s' out (i # used) rest"
    using lt unat_succ_less [OF assms(1)] by (auto simp: reconnect_ended_def s1_def)
qed

lemma reconnect_loop_ends:
  assumes "rc_attempts rc = Some m"
  shows "rl_attempts s \<le> m \<Longrightarrow> unat m - unat (rl_attempts s) \<le> length ins \<Longrightarrow>
    \<exists>s' out used rest. reconnect_loop pow url ct rc ins s = (s', Some (out, rest)) \<and> reconnect_ended url ct m ins s s' out used rest"
proof (induction ins arbitrary: s)
  case Nil
  then have "rl_attempts s = m" by (simp add: word_le_nat_alt word_unat_eq_iff)
  then show ?case using assms by (subst reconnect_loop.simps) (simp add: reconnect_ended_def)
next
  case (Cons i ins)
  show ?case
  proof (cases "rl_attempts s = m")
    case True
    then show ?thesis using assms
      by (subst reconnect_loop.simps) (auto simp: reconnect_ended_def intro!: exI [of _ "[]"])
  next
    case False
    then have lt: "rl_attempts s < m" using Cons.prems(1) by simp
    note step = reconnect_loop_attempt [OF assms lt, of pow url ct i ins]
    let ?d = "reconnect_delay pow (at_nanos i) rc (rl_attempts s + 1)"
    let ?s = "s\<lparr>rl_attempts := rl_attempts s + 1, rl_delays := rl_delays s @ [?d]\<rparr>"
    note attempt = reconnect_ended_attempt [OF lt, where delay = ?d and url = url and ct = ct and i = i and ins = ins]
    show ?thesis
    proof (cases "at_wait i = GotCmd (Some CmdClose) \<or> at_wait i = GotCmd None")
      case True
      then show ?thesis using step attempt(1) by auto
    next
      case wait: False
      show ?thesis
      proof (cases "dial_once url ct (at_dial i)")
        case (Inl e)
        have "rl_attempts ?s \<le> m" "unat m - unat (rl_attempts ?s) \<le> length ins"
          using unat_succ_less [OF lt] lt Cons.prems(2) by (simp_all add: word_le_nat_alt word_less_nat_alt)
        from Cons.IH [OF this] show ?thesis using step wait Inl attempt(3) [OF Inl] by fastforce
      qed (use step wait attempt(2) in auto)
    qed
  qed
qed

text \<open>C30. With a bound on the attempts reconnection always comes to an end: after at most the attempts
  that are left it has connected, was told to close, or gives up, and it gives up only when every
  one of them has failed.\<close>

theorem reconnect_attempts_bounded:
  assumes "rc_attempts rc = Some m" "rl_attempts s \<le> m" "unat m - unat (rl_attempts s) \<le> length ins"
  shows "\<exists>s' out used rest. reconnect_loop pow url ct rc ins s = (s', Some (out, rest)) \<and> ins = used @ rest \<and>
    length (rl_delays s') = length (rl_delays s) + length used \<and>
    length used \<le> unat m - unat (rl_attempts s) \<and>
    (out = RcGaveUp \<longrightarrow> length used = unat m - unat (rl_attempts s) \<and> rl_attempts s' = m \<and>
       (\<forall>i \<in> set used. \<exists>e. dial_once url ct (at_dial i) = Err e)) \<and>
    (out = RcConnected \<longrightarrow> rl_attempts s' = 0) \<and> (rl_closed s' \<longleftrightarrow> rl_closed s \<or> out = RcClosed)"
  using reconnect_loop_ends [OF assms] unfolding reconnect_ended_def by blast

section \<open>The life of a client\<close>

lemma client_select_no_disconnect:
  "client_select env hb t d = (d', f) \<Longrightarrow> TDisconnected \<in> set (dr_events d') \<longleftrightarrow> TDisconnected \<in> set (dr_events d)"
proof (cases t rule: turn_cases)
  case (control msg)
  assume "client_select env hb t d = (d', f)"
  then show ?thesis using control by (cases msg) (auto simp: select_defs)
qed (auto simp: select_defs Let_def split: option.splits bool.splits run.splits if_splits)

lemma run_turns_no_disconnect:
  "run_turns (client_select env hb) ts d = Some (d', f) \<Longrightarrow>
     TDisconnected \<in> set (dr_events d') \<longleftrightarrow> TDisconnected \<in> set (dr_events d)"
  by (induction ts arbitrary: d)
    (auto split: if_splits prod.splits flow.splits dest: client_select_no_disconnect)

lemma client_select_aborts:
  assumes "ping_frame_bytes env \<noteq> Panics" "pong_frame_bytes env \<noteq> Panics"
  shows "client_select env hb t d \<noteq> (d', Aborted)"
proof (cases t rule: turn_cases)
  case (control msg)
  then show ?thesis by (cases msg) (auto simp: select_defs)
qed (use assms in \<open>auto simp: select_defs Let_def split: option.splits bool.splits run.splits\<close>)

lemma run_turns_aborts:
  assumes "ping_frame_bytes env \<noteq> Panics" "pong_frame_bytes env \<noteq> Panics"
  shows "run_turns (client_select env hb) ts d \<noteq> Some (d', Aborted)"
  by (induction ts arbitrary: d)
    (auto split: prod.splits flow.splits simp: client_select_aborts [OF assms])

text \<open>Nobody closes the transport during a life: no command of its turns and of its waits is
  \<^verbatim>\<open>Close\<close> or the end of the command queue.\<close>

definition not_told_to_close :: "life \<Rightarrow> bool" where
  "not_told_to_close l \<longleftrightarrow>
     (\<forall>t \<in> set (li_turns l). tu_branch t \<noteq> OnCmd (Some CmdClose) \<and> tu_branch t \<noteq> OnCmd None) \<and>
     (\<forall>i \<in> set (li_attempts l). at_wait i \<noteq> GotCmd (Some CmdClose) \<and> at_wait i \<noteq> GotCmd None)"

lemma client_select_stop:
  "client_select env hb t d = (d', Stop) \<Longrightarrow> tu_recv_ok t \<Longrightarrow>
     tu_branch t = OnCmd (Some CmdClose) \<or> tu_branch t = OnCmd None"
proof (cases t rule: turn_cases)
  case (control msg)
  assume "client_select env hb t d = (d', Stop)"
  then show ?thesis using control by (cases msg) (auto simp: select_defs)
qed (auto simp: select_defs Let_def split: option.splits bool.splits run.splits if_splits)

lemma run_turns_stop:
  "run_turns (client_select env hb) ts d = Some (d', Stop) \<Longrightarrow> \<forall>t \<in> set ts. tu_recv_ok t \<Longrightarrow>
     \<exists>t \<in> set ts. tu_branch t = OnCmd (Some CmdClose) \<or> tu_branch t = OnCmd None"
  by (induction ts arbitrary: d) (auto split: if_splits prod.splits flow.splits dest: client_select_stop)

lemma reconnect_loop_told:
  "reconnect_loop pow url ct rc ins s = (s', Some (RcClosed, rest)) \<Longrightarrow>
     \<exists>i \<in> set ins. at_wait i = GotCmd (Some CmdClose) \<or> at_wait i = GotCmd None"
proof (induction ins arbitrary: s)
  case (Cons i ins)
  from Cons.prems show ?case
    by (subst (asm) reconnect_loop.simps) (auto simp: Let_def split: if_splits sum.splits dest: Cons.IH)
qed (subst (asm) reconnect_loop.simps, auto split: if_splits)

lemma reconnect_loop_closed:
  "reconnect_loop pow url ct rc ins s = (s', Some (out, rest)) \<Longrightarrow> out = RcClosed \<Longrightarrow> rl_closed s'"
proof (induction ins arbitrary: s)
  case (Cons i ins)
  from Cons.prems show ?case
    by (subst (asm) reconnect_loop.simps) (auto simp: Let_def split: if_splits sum.splits intro: Cons.IH)
qed (subst (asm) reconnect_loop.simps, auto split: if_splits)

text \<open>Over its whole life, through any number of reconnections, a client announces the end of the
  connection at most once, as its last event, and only when its driver has returned; and a driver
  that has returned has announced the end, or somebody closed the transport and it is marked closed.\<close>

lemma client_end:
  assumes "ping_frame_bytes env \<noteq> Panics" "pong_frame_bytes env \<noteq> Panics" "\<forall>l \<in> set lives. all_received l"
    and "connect_websocket_transport url opts first now = Ok (tr, c0)"
    and "run_client_driver pow env url opts lives c0 = Some c"
  shows "(TDisconnected \<in> set (dr_events (cl_driver c)) \<longrightarrow>
      cl_returned c \<and> (\<exists>es. dr_events (cl_driver c) = es @ [TDisconnected] \<and> TDisconnected \<notin> set es)) \<and>
    (cl_returned c \<longrightarrow> TDisconnected \<in> set (dr_events (cl_driver c)) \<or>
       dr_closed (cl_driver c) \<and> (\<exists>l \<in> set lives. \<not> not_told_to_close l))"
proof -
  have "TDisconnected \<notin> set (dr_events (cl_driver c0))" "\<not> cl_returned c0"
    using assms(4) by (auto simp: connect_websocket_transport_def driver_new_def split: sum.splits)
  then show ?thesis using assms(3,5)
  proof (induction lives arbitrary: c0)
    case (Cons l lives)
    let ?run = "run_turns (client_select env (hb_opts opts)) (li_turns l) (start_life (hb_opts opts) (li_start l) (cl_driver c0))"
    obtain d f where run: "?run = Some (d, f)" using Cons.prems(4) by (auto split: option.splits)
    have nd: "TDisconnected \<notin> set (dr_events d)"
      using run_turns_no_disconnect [OF run] Cons.prems(1) by (simp add: start_life_def)
    have recv: "li_recv_ok l" using Cons.prems(3) by (simp add: all_received_def)
    show ?case
    proof (cases f)
      case Lost
      let ?att = "attempt_reconnect pow url opts (li_attempts l)
        \<lparr>rl_attempts = cl_attempts c0, rl_delays = cl_delays c0, rl_closed = dr_closed d\<rparr>"
      obtain s out where att: "?att = (s, out)" by force
      note unfold = run run_client_driver.simps(2) Lost att recv push_event_def
      show ?thesis
      proof (cases "to_reconnect opts = None \<or> out = None \<or> (\<exists>rest. out = Some (RcGaveUp, rest))")
        case True
        then show ?thesis using Cons.prems(2,4) nd by (auto simp: unfold split: if_splits)
      next
        case False
        then obtain rc o' rest where rc: "to_reconnect opts = Some rc" "out = Some (o', rest)" "o' \<noteq> RcGaveUp"
          by (metis option.exhaust prod.exhaust)
        show ?thesis
        proof (cases o')
          case RcConnected
          then show ?thesis
            using Cons.IH [of "c0\<lparr>cl_attempts := rl_attempts s, cl_delays := rl_delays s,
                cl_driver := push_event True Reconnected (d\<lparr>dr_closed := rl_closed s\<rparr>)\<rparr>"] Cons.prems nd rc
            by (simp add: unfold) blast
        next
          case RcClosed
          then have "rl_closed s" "\<not> not_told_to_close l"
            using att rc reconnect_loop_closed reconnect_loop_told by (fastforce simp: attempt_reconnect_def not_told_to_close_def)+
          then show ?thesis using Cons.prems(4) nd rc RcClosed by (auto simp: unfold)
        qed (use rc in simp)
      qed
    next
      case Stop
      have "\<not> not_told_to_close l"
        using run_turns_stop [of env "hb_opts opts"] run Stop Cons.prems(3)
        by (fastforce simp: not_told_to_close_def all_received_def)
      then show ?thesis using Cons.prems(4) run nd Stop run_turns_stop_closed by auto
    next
      case Aborted
      then show ?thesis using run run_turns_aborts [OF assms(1,2)] by blast
    next
      case Continue
      then show ?thesis using Cons.prems(2,4) run nd by auto
    qed
  qed auto
qed

text \<open>When the attempts are used up the driver returns without marking the transport closed: the
  handle goes on accepting frames, and drops each of them.\<close>

lemma client_gives_up_unclosed:
  assumes "run_turns (client_select env (hb_opts opts)) (li_turns l)
      (start_life (hb_opts opts) (li_start l) (cl_driver c)) = Some (d, Lost)"
    and "to_reconnect opts = Some rc" "rc_attempts rc = Some (cl_attempts c)" "\<not> dr_closed d"
  shows "\<exists>c'. run_client_driver pow env url opts (l # lives) c = Some c' \<and> cl_returned c' \<and> \<not> dr_closed (cl_driver c')"
proof -
  let ?s = "\<lparr>rl_attempts = cl_attempts c, rl_delays = cl_delays c, rl_closed = dr_closed d\<rparr>"
  have "reconnect_loop pow url (to_connect_timeout opts) rc (li_attempts l) ?s = (?s, Some (RcGaveUp, li_attempts l))"
    using assms(3) by (subst reconnect_loop.simps) simp
  then show ?thesis using assms by (simp add: attempt_reconnect_def push_event_def Let_def)
qed

text \<open>A command other than \<^verbatim>\<open>Close\<close> that arrives during the wait is dropped and ends the wait: the
  next dial is made at once, and counts.  A few frames sent while the connection is down use up
  the attempts without any delay.\<close>

lemma commands_use_up_attempts:
  assumes "rc_attempts rc = Some m" "rl_attempts s \<le> m" "length ins = unat m - unat (rl_attempts s)"
    and "\<forall>i \<in> set ins. (\<exists>bytes. at_wait i = GotCmd (Some (CmdSend bytes))) \<and> at_dial i = Completes 0 (Err ''refused'')"
  shows "\<exists>s'. reconnect_loop pow url ct rc ins s = (s', Some (RcGaveUp, []))"
  using assms(2-4)
proof (induction ins arbitrary: s)
  case Nil
  then have "rl_attempts s = m" by (simp add: word_le_nat_alt word_unat_eq_iff)
  then show ?case using assms(1) by (subst reconnect_loop.simps) simp
next
  case (Cons i ins)
  then have lt: "rl_attempts s < m" by (auto simp: word_less_nat_alt)
  have "dial_once url ct (at_dial i) = Err (ConnectTo url ''refused'')"
    using Cons.prems(3) by (simp add: dial_once_def split: option.split)
  moreover obtain bytes where "at_wait i = GotCmd (Some (CmdSend bytes))" using Cons.prems(3) by auto
  ultimately show ?case
    using Cons lt unat_succ_less [OF lt] reconnect_loop_attempt [OF assms(1) lt]
    by (simp add: Let_def word_le_nat_alt word_less_nat_alt)
qed

section \<open>Requests on a lost connection\<close>

lemma frame_keeps_requests:
  assumes "handle_frame cd h bytes cn = Returns cn'"
  shows "cn_streams cn' = cn_streams cn"
    and "i \<in> set (pend cn a) \<Longrightarrow> i \<in> set (pend cn' a) \<or> i \<in> set (answered cn')"
    and "set (answered cn) \<subseteq> set (answered cn')"
proof -
  have d: "set (answered cn) \<subseteq> set (answered (dispatch_message cd h b msg cn)) \<and>
      (\<forall>i \<in> set (pend cn a). i \<in> set (pend (dispatch_message cd h b msg cn) a) \<or>
         i \<in> set (answered (dispatch_message cd h b msg cn)))" for b msg
  proof (rule dispatch_message_cases [where msg = msg and cd = cd and cn = cn and a = b and h = h])
    fix resp assume r: "msg = WResponse resp" "id_to_key cd (wr_id resp) \<in> set (pend cn b)"
    show ?thesis unfolding answered_def r(1) using dispatch_response [OF r(2)] by auto
  qed (simp add: answered_def)
  show "cn_streams cn' = cn_streams cn"
    using assms by (auto simp: handle_frame_def split: sum.splits run.splits option.splits)
  show "i \<in> set (pend cn a) \<Longrightarrow> i \<in> set (pend cn' a) \<or> i \<in> set (answered cn')"
    using assms d by (auto simp: handle_frame_def split: sum.splits run.splits option.splits)
  show "set (answered cn) \<subseteq> set (answered cn')"
    using assms d by (auto simp: handle_frame_def split: sum.splits run.splits option.splits)
qed

lemma reject_all_answers:
  assumes "mux_inv cn"
  shows "set (answered cn) \<subseteq> set (answered (reject_all reason cn))"
    and "a = root_addr \<or> a \<in> snd ` set (cn_streams cn) \<Longrightarrow> i \<in> set (pend cn a) \<Longrightarrow>
      i \<in> set (answered (reject_all reason cn))"
proof -
  let ?cn = "(reject_all_pending reason root_addr cn)\<lparr>cn_streams := []\<rparr>"
  have "pend ?cn = (pend cn)(root_addr := [])"
    using reject_effect(1) [of reason root_addr cn] by simp
  then have "mux_inv ?cn"
    using mux_inv_reject [OF assms, of reason root_addr] by (simp add: mux_inv_def reject_effect answered_def)
  from reject_fold [OF reject_all_def this] have "set (cn_results ?cn) \<subseteq> set (cn_results (reject_all reason cn))"
    by blast
  moreover have "set (cn_results cn) \<subseteq> set (cn_results ?cn)" by (auto simp: reject_effect)
  ultimately show "set (answered cn) \<subseteq> set (answered (reject_all reason cn))"
    unfolding answered_def by auto
  assume "a = root_addr \<or> a \<in> snd ` set (cn_streams cn)" "i \<in> set (pend cn a)"
  then have "(i, Err (wire_error (- 32000) reason)) \<in> set (cn_results (reject_all reason cn))"
    using mux_inv_reject_all [OF assms] by blast
  then show "i \<in> set (answered (reject_all reason cn))" unfolding answered_def by force
qed

definition waiting :: "Connection \<Rightarrow> string set" where
  "waiting cn = (\<Union>a \<in> insert root_addr (snd ` set (cn_streams cn)). set (pend cn a))"

lemma pump_disconnect:
  assumes "mux_inv cn" "TDisconnected \<in> set events" "pump cd h events cn = Returns cn'"
  shows "waiting cn \<union> set (answered cn) \<subseteq> set (answered cn') \<and> waiting cn' = {} \<and> distinct (answered cn')"
  using assms
proof (induction events arbitrary: cn)
  case (Cons ev events)
  show ?case
  proof (cases ev)
    case (Frame bytes)
    then obtain cn1 where f: "handle_frame cd h bytes cn = Returns cn1" "pump cd h events cn1 = Returns cn'"
      using Cons.prems(3) by (auto split: run.splits)
    have "waiting cn \<union> set (answered cn) \<subseteq> waiting cn1 \<union> set (answered cn1)"
      using frame_keeps_requests [OF f(1)] unfolding waiting_def by auto
    moreover have "TDisconnected \<in> set events" using Cons.prems(2) Frame by simp
    ultimately show ?thesis using Cons.IH [OF mux_inv_frame [OF Cons.prems(1) f(1)] _ f(2)] by blast
  next
    case TDisconnected
    then have cn': "cn' = reject_all ''disconnected'' cn" using Cons.prems(3) by simp
    note r = mux_inv_reject_all [OF Cons.prems(1), of "''disconnected''"]
    have "waiting cn' = {}" using r by (auto simp: waiting_def cn')
    moreover have "distinct (answered cn')" using r by (simp add: cn' mux_inv_def accounted_def)
    moreover have "waiting cn \<union> set (answered cn) \<subseteq> set (answered cn')"
      using reject_all_answers [OF Cons.prems(1)] unfolding waiting_def cn' by blast
    ultimately show ?thesis by blast
  qed (use Cons in auto)
qed simp

text \<open>C31. A connection that is lost for good leaves no request waiting: when the driver of a client
  has returned without being told to close, the pump over its events answers every request that
  was waiting on the connection or on an open stream, each exactly once, and nothing waits any
  more.\<close>

theorem lost_connection_answers_requests:
  assumes "ping_frame_bytes env \<noteq> Panics" "pong_frame_bytes env \<noteq> Panics" "\<forall>l \<in> set lives. all_received l"
    and "connect_websocket_transport url opts first now = Ok (tr, c0)"
    and "run_client_driver pow env url opts lives c0 = Some c" "cl_returned c" "\<forall>l \<in> set lives. not_told_to_close l"
    and "mux_reach cn" "pump cd h (dr_events (cl_driver c)) cn = Returns cn'"
  shows "waiting cn \<subseteq> set (answered cn') \<and> waiting cn' = {} \<and> distinct (answered cn')"
proof -
  have "TDisconnected \<in> set (dr_events (cl_driver c))" using client_end [OF assms(1-5)] assms(6,7) by blast
  from pump_disconnect [OF mux_reach_inv [OF assms(8)] this assms(9)] show ?thesis by blast
qed

section \<open>Witnesses\<close>

definition sample_flaky :: ReconnectOptions where
  "sample_flaky = \<lparr>rc_attempts = Some 2, rc_min_delay = 500000000, rc_max_delay = 10000000000,
     rc_factor = Fin 2, rc_jitter = Fin (1 / 5)\<rparr>"

definition sample_pow :: "f64 \<Rightarrow> int \<Rightarrow> f64" where
  "sample_pow x n = (case x of Fin r \<Rightarrow> Fin (r ^ nat n) | _ \<Rightarrow> x)"

theorem reconnect_delay_bounds_witness:
  "500 \<le> reconnect_delay sample_pow 123 sample_flaky 3 \<and> reconnect_delay sample_pow 123 sample_flaky 3 \<le> 20000"
proof -
  have p: "\<forall>n. 0 \<le> n \<longrightarrow> sample_pow (rc_factor sample_flaky) n = Infinite False \<or>
      (\<exists>p. sample_pow (rc_factor sample_flaky) n = Fin p \<and> 1 \<le> p)"
    by (simp add: sample_pow_def sample_flaky_def)
  have d: "as_millis (rc_min_delay sample_flaky) = 500" "as_millis (rc_max_delay sample_flaky) = 10000"
    by (simp_all add: sample_flaky_def as_millis_def)
  have j: "rc_jitter sample_flaky = Fin (1 / 5)" by (simp add: sample_flaky_def)
  show ?thesis
    using reconnect_delay_bounds [where pow = sample_pow and rc = sample_flaky and j = "1 / 5" and nanos = 123 and attempt = 3] p j
    by (simp add: d)
qed

definition sample_attempt :: attempt where
  "sample_attempt = \<lparr>at_nanos = 7, at_wait = Slept, at_dial = NeverCompletes\<rparr>"

theorem reconnect_attempts_bounded_witness:
  "\<exists>s' out rest. reconnect_loop sample_pow ''ws://agent'' None sample_flaky [sample_attempt, sample_attempt]
     \<lparr>rl_attempts = 0, rl_delays = [], rl_closed = False\<rparr> = (s', Some (out, rest)) \<and> length (rl_delays s') \<le> 2"
  using reconnect_attempts_bounded [where rc = sample_flaky and m = 2 and ins = "[sample_attempt, sample_attempt]"
      and s = "\<lparr>rl_attempts = 0, rl_delays = [], rl_closed = False\<rparr>" and pow = sample_pow and url = "''ws://agent''" and ct = None]
  by (auto simp: sample_flaky_def)

definition sample_lost_opts :: TransportOptions where
  "sample_lost_opts = \<lparr>to_connect_timeout = None, to_heartbeat = None, to_reconnect = Some sample_flaky\<rparr>"

definition sample_lost :: life where
  "sample_lost = \<lparr>li_start = 0, li_turns = [\<lparr>tu_branch = OnMessage None, tu_now = 1, tu_write_ok = True, tu_recv_ok = True\<rparr>],
     li_attempts = [sample_attempt, sample_attempt], li_recv_ok = True\<rparr>"

definition sample_client :: Client where
  "sample_client = \<lparr>cl_driver = driver_new sample_lost_opts 0, cl_attempts = 0, cl_delays = [], cl_returned = False\<rparr>"

lemma sample_lost_run:
  "\<exists>c. run_client_driver sample_pow sample_wire ''ws://agent'' sample_lost_opts [sample_lost] sample_client = Some c \<and>
     cl_returned c \<and> dr_events (cl_driver c) = [TDisconnected]"
proof -
  let ?s = "\<lparr>rl_attempts = 0, rl_delays = [], rl_closed = False\<rparr>"
  have "\<exists>s'. reconnect_loop sample_pow ''ws://agent'' None sample_flaky [sample_attempt, sample_attempt] ?s = (s', Some (RcGaveUp, []))"
  proof -
    have m: "rc_attempts sample_flaky = Some 2" by (simp add: sample_flaky_def)
    have "reconnect_loop sample_pow ''ws://agent'' None sample_flaky [] s = (s, Some (RcGaveUp, []))" if "rl_attempts s = 2" for s
      using that m by (subst reconnect_loop.simps) simp
    then show ?thesis by (simp add: reconnect_loop_attempt [OF m] sample_attempt_def dial_once_def Let_def)
  qed
  then obtain s' where r: "reconnect_loop sample_pow ''ws://agent'' None sample_flaky [sample_attempt, sample_attempt] ?s =
      (s', Some (RcGaveUp, []))" by blast
  show ?thesis
    using r by (simp add: sample_lost_def sample_client_def branch_ready_def client_select_def start_life_def driver_new_def
        attempt_reconnect_def sample_lost_opts_def push_event_def)
qed

lemma sample_lost_facts:
  "ping_frame_bytes sample_wire \<noteq> Panics" "pong_frame_bytes sample_wire \<noteq> Panics"
  "\<forall>l \<in> set [sample_lost]. all_received l" "\<forall>l \<in> set [sample_lost]. not_told_to_close l"
  "connect_websocket_transport ''ws://agent'' sample_lost_opts (Completes 5 (Ok ())) 0 =
     Ok (\<lparr>tr_cmds = [], tr_open = True, tr_closed = False\<rparr>, sample_client)"
  by (simp_all add: sample_wire_def ping_frame_bytes_def pong_frame_bytes_def expect_def all_received_def sample_lost_def
      not_told_to_close_def sample_attempt_def connect_websocket_transport_def dial_once_def sample_client_def
      DEFAULT_CONNECT_TIMEOUT_def sample_lost_opts_def)

theorem lost_connection_answers_requests_witness:
  "\<exists>c cn'. run_client_driver sample_pow sample_wire ''ws://agent'' sample_lost_opts [sample_lost] sample_client = Some c \<and>
     pump sample_codec (\<lambda>_ _. Ok VNil) (dr_events (cl_driver c)) sample_busy = Returns cn' \<and>
     ''u1'' \<in> set (answered cn') \<and> waiting cn' = {}"
proof -
  obtain c where c: "run_client_driver sample_pow sample_wire ''ws://agent'' sample_lost_opts [sample_lost] sample_client = Some c"
    "cl_returned c" "dr_events (cl_driver c) = [TDisconnected]" using sample_lost_run by blast
  have p: "pump sample_codec (\<lambda>_ _. Ok VNil) (dr_events (cl_driver c)) sample_busy = Returns (reject_all ''disconnected'' sample_busy)"
    by (simp add: c(3))
  have "''u1'' \<in> waiting sample_busy" unfolding waiting_def using sample_busy_waiting by blast
  then show ?thesis
    using lost_connection_answers_requests [OF sample_lost_facts(1-3,5) c(1,2) sample_lost_facts(4) sample_busy_reach p] c(1) p
    by blast
qed

end
