(* ===== verification/Local_Fs.thy ===== *)
theory Local_Fs
  imports Agent_Fs Paths "HOL-Library.Sublist"
begin

text \<open>
  The agent's local file system, \<^verbatim>\<open>nexal-agent/src/fs/local.rs\<close>, over the operations of
  \<^verbatim>\<open>std::fs\<close> on a Unix file system.  The file system is a table from canonical paths (the
  names from the root) to nodes; the root directory has no entry and always exists.  Symbolic
  links are followed with a budget, as the kernel does.  Permissions, hard links and concurrent
  changes by other processes are not modelled, and a special file is only ever told apart from a
  regular one.
\<close>

section \<open>The file system\<close>

datatype fnode = NDir | NFile "byte list" | NLink string | NOther

type_synonym fsys = "(string list, fnode) hashmap"

definition node_at :: "fsys \<Rightarrow> string list \<Rightarrow> fnode option" where
  "node_at fs p = (if p = [] then Some NDir else hm_get fs p)"

definition io_err :: "ErrorKind \<Rightarrow> string \<Rightarrow> io_error" where
  "io_err k text = \<lparr>io_kind = k, io_text = text\<rparr>"

definition MAXSYMLINKS :: nat where
  "MAXSYMLINKS = 40"

text \<open>Path resolution from a directory.  With \<open>create\<close> the last component may be missing, as for
  a file that is opened for writing.\<close>

function walk :: "fsys \<Rightarrow> bool \<Rightarrow> nat \<Rightarrow> string list \<Rightarrow> component list \<Rightarrow> (io_error, string list) result" where
  "walk fs create links cur [] = Ok cur"
| "walk fs create links cur (RootDir # cs) = walk fs create links [] cs"
| "walk fs create links cur (CurDir # cs) = walk fs create links cur cs"
| "walk fs create links cur (ParentDir # cs) = walk fs create links (butlast cur) cs"
| "walk fs create links cur (Normal n # cs) =
     (let p = cur @ [n]
      in case node_at fs p of
           None \<Rightarrow> if create \<and> cs = [] then Ok p else Err (io_err NotFound ''No such file or directory'')
         | Some NDir \<Rightarrow> walk fs create links p cs
         | Some (NLink target) \<Rightarrow>
             (case links of
                0 \<Rightarrow> Err (io_err OtherKind ''Too many levels of symbolic links'')
              | Suc links \<Rightarrow> walk fs create links cur (components target @ cs))
         | Some _ \<Rightarrow> if cs = [] then Ok p else Err (io_err OtherKind ''Not a directory''))"
  by pat_completeness auto
termination
  by (relation "measures [\<lambda>(_, _, links, _, _). links, \<lambda>(_, _, _, _, cs). length cs]") auto

definition resolve :: "fsys \<Rightarrow> bool \<Rightarrow> component list \<Rightarrow> (io_error, string list) result" where
  "resolve fs create path = walk fs create MAXSYMLINKS [] path"

text \<open>Where the entry named by a path is, without following a link in the last component.\<close>

definition locate :: "fsys \<Rightarrow> component list \<Rightarrow> (io_error, string list) result" where
  "locate fs path =
     (case rev path of
        Normal n # _ \<Rightarrow>
          (case resolve fs False (butlast path) of
             Inl e \<Rightarrow> Err e
           | Inr dir \<Rightarrow>
               if node_at fs dir = Some NDir then Ok (dir @ [n])
               else Err (io_err OtherKind ''Not a directory''))
      | _ \<Rightarrow> resolve fs False path)"

section \<open>The operations of the standard library\<close>

definition stat :: "fsys \<Rightarrow> component list \<Rightarrow> (io_error, fnode) result" where
  "stat fs path =
     (case resolve fs False path of
        Inl e \<Rightarrow> Err e
      | Inr p \<Rightarrow>
          (case node_at fs p of None \<Rightarrow> Err (io_err NotFound ''No such file or directory'') | Some n \<Rightarrow> Ok n))"

definition lstat :: "fsys \<Rightarrow> component list \<Rightarrow> (io_error, fnode) result" where
  "lstat fs path =
     (case locate fs path of
        Inl e \<Rightarrow> Err e
      | Inr p \<Rightarrow>
          (case node_at fs p of None \<Rightarrow> Err (io_err NotFound ''No such file or directory'') | Some n \<Rightarrow> Ok n))"

definition path_exists :: "fsys \<Rightarrow> component list \<Rightarrow> bool" where
  "path_exists fs path \<longleftrightarrow> (case stat fs path of Inl _ \<Rightarrow> False | Inr _ \<Rightarrow> True)"

definition is_dir :: "fsys \<Rightarrow> component list \<Rightarrow> bool" where
  "is_dir fs path \<longleftrightarrow> stat fs path = Ok NDir"

definition read_bytes :: "fsys \<Rightarrow> component list \<Rightarrow> (io_error, byte list) result" where
  "read_bytes fs path =
     (case stat fs path of
        Inl e \<Rightarrow> Err e
      | Inr (NFile data) \<Rightarrow> Ok data
      | Inr _ \<Rightarrow> Err (io_err OtherKind ''Is a directory''))"

definition write_bytes :: "component list \<Rightarrow> byte list \<Rightarrow> (fsys, unit) fs_call" where
  "write_bytes path data fs =
     (case resolve fs True path of
        Inl e \<Rightarrow> (fs, Err e)
      | Inr p \<Rightarrow>
          (case node_at fs p of
             Some NDir \<Rightarrow> (fs, Err (io_err OtherKind ''Is a directory''))
           | Some NOther \<Rightarrow> (fs, Ok ())
           | _ \<Rightarrow> (hm_insert p (NFile data) fs, Ok ())))"

definition mkdir :: "component list \<Rightarrow> (fsys, unit) fs_call" where
  "mkdir path fs =
     (case locate fs path of
        Inl e \<Rightarrow> (fs, Err e)
      | Inr p \<Rightarrow>
          if node_at fs p \<noteq> None then (fs, Err (io_err OtherKind ''File exists''))
          else (hm_insert p NDir fs, Ok ()))"

text \<open>\<^verbatim>\<open>DirBuilder::create_dir_all\<close>: try, create the parents when they are missing, try
  again.\<close>

function create_dir_all :: "component list \<Rightarrow> (fsys, unit) fs_call" where
  "create_dir_all path fs =
     (if path = [] then (fs, Ok ())
      else case mkdir path fs of
        (fs', Inr _) \<Rightarrow> (fs', Ok ())
      | (fs', Inl e) \<Rightarrow>
          if io_kind e \<noteq> NotFound then (if is_dir fs path then (fs, Ok ()) else (fs, Err e))
          else case create_dir_all (butlast path) fs of
            (fs, Inl e) \<Rightarrow> (fs, Err e)
          | (fs, Inr _) \<Rightarrow>
              (case mkdir path fs of
                 (fs', Inr _) \<Rightarrow> (fs', Ok ())
               | (_, Inl e) \<Rightarrow> if is_dir fs path then (fs, Ok ()) else (fs, Err e)))"
  by pat_completeness auto
termination
  by (relation "measure (\<lambda>(path, _). length path)") auto

declare create_dir_all.simps [simp del]

definition children :: "fsys \<Rightarrow> string list \<Rightarrow> (string \<times> fnode) list" where
  "children fs dir = map (\<lambda>(p, n). (last p, n)) (filter (\<lambda>(p, _). p \<noteq> [] \<and> butlast p = dir) fs)"

definition read_dir :: "fsys \<Rightarrow> component list \<Rightarrow> (io_error, (string \<times> fnode) list) result" where
  "read_dir fs path =
     (case resolve fs False path of
        Inl e \<Rightarrow> Err e
      | Inr p \<Rightarrow>
          if node_at fs p = Some NDir then Ok (children fs p)
          else Err (io_err OtherKind ''Not a directory''))"

definition unlink :: "component list \<Rightarrow> (fsys, unit) fs_call" where
  "unlink path fs =
     (case locate fs path of
        Inl e \<Rightarrow> (fs, Err e)
      | Inr p \<Rightarrow>
          (case node_at fs p of
             None \<Rightarrow> (fs, Err (io_err NotFound ''No such file or directory''))
           | Some NDir \<Rightarrow> (fs, Err (io_err OtherKind ''Is a directory''))
           | Some _ \<Rightarrow> (hm_remove p fs, Ok ())))"

definition rmdir :: "component list \<Rightarrow> (fsys, unit) fs_call" where
  "rmdir path fs =
     (case locate fs path of
        Inl e \<Rightarrow> (fs, Err e)
      | Inr p \<Rightarrow>
          if p = [] then (fs, Err (io_err OtherKind ''Device or resource busy''))
          else (case node_at fs p of
             None \<Rightarrow> (fs, Err (io_err NotFound ''No such file or directory''))
           | Some NDir \<Rightarrow>
               if children fs p \<noteq> [] then (fs, Err (io_err OtherKind ''Directory not empty''))
               else (hm_remove p fs, Ok ())
           | Some _ \<Rightarrow> (fs, Err (io_err OtherKind ''Not a directory''))))"

text \<open>The root directory itself cannot be removed, only what is below it.\<close>

definition remove_dir_all :: "component list \<Rightarrow> (fsys, unit) fs_call" where
  "remove_dir_all path fs =
     (case locate fs path of
        Inl e \<Rightarrow> (fs, Err e)
      | Inr p \<Rightarrow>
          (case node_at fs p of
             None \<Rightarrow> (fs, Err (io_err NotFound ''No such file or directory''))
           | Some NDir \<Rightarrow>
               (filter (\<lambda>(q, _). \<not> prefix p q) fs,
                if p = [] then Err (io_err OtherKind ''Device or resource busy'') else Ok ())
           | Some (NLink _) \<Rightarrow> (hm_remove p fs, Ok ())
           | Some _ \<Rightarrow> (fs, Err (io_err OtherKind ''Not a directory''))))"

text \<open>\<^verbatim>\<open>std::fs::copy\<close> opens the source, truncates the destination and then copies what it can
  still read: a file copied onto itself is empty afterwards.\<close>

definition copy_file :: "component list \<Rightarrow> component list \<Rightarrow> (fsys, unit) fs_call" where
  "copy_file source target fs =
     (case resolve fs False source of
        Inl e \<Rightarrow> (fs, Err e)
      | Inr s \<Rightarrow>
          (case node_at fs s of
             Some (NFile _) \<Rightarrow>
               (case write_bytes target [] fs of
                  (fs, Inl e) \<Rightarrow> (fs, Err e)
                | (fs, Inr _) \<Rightarrow>
                    write_bytes target (case node_at fs s of Some (NFile data) \<Rightarrow> data | _ \<Rightarrow> []) fs)
           | _ \<Rightarrow> (fs, Err (io_err InvalidInput
               ''the source path is neither a regular file nor a symlink to a regular file''))))"

definition make_symlink :: "string \<Rightarrow> component list \<Rightarrow> (fsys, unit) fs_call" where
  "make_symlink content path fs =
     (case locate fs path of
        Inl e \<Rightarrow> (fs, Err e)
      | Inr p \<Rightarrow>
          if node_at fs p \<noteq> None then (fs, Err (io_err OtherKind ''File exists''))
          else (hm_insert p (NLink content) fs, Ok ()))"

definition canonicalize :: "fsys \<Rightarrow> component list \<Rightarrow> (io_error, component list) result" where
  "canonicalize fs path =
     (case stat fs path of
        Inl e \<Rightarrow> Err e
      | Inr _ \<Rightarrow>
          (case resolve fs False path of Inl e \<Rightarrow> Err e | Inr p \<Rightarrow> Ok (RootDir # map Normal p)))"

section \<open>LocalFileSystem\<close>

definition MAX_READ_FILE_BYTES :: nat where
  "MAX_READ_FILE_BYTES = 512 * 1024 * 1024"

definition node_len :: "fnode \<Rightarrow> nat" where
  "node_len n = (case n of NFile data \<Rightarrow> length data | _ \<Rightarrow> 0)"

definition local_read_file :: "string \<Rightarrow> (fsys, byte list) fs_call" where
  "local_read_file path fs =
     (case stat fs (components path) of
        Inl e \<Rightarrow> (fs, Err e)
      | Inr n \<Rightarrow>
          if MAX_READ_FILE_BYTES < node_len n
          then (fs, Err (io_err InvalidInput (''file is too large to read: limit is '' @ dec MAX_READ_FILE_BYTES @ '' bytes'')))
          else (fs, read_bytes fs (components path)))"

definition local_write_file :: "string \<Rightarrow> byte list \<Rightarrow> (fsys, unit) fs_call" where
  "local_write_file path contents fs = write_bytes (components path) contents fs"

definition local_create_directory :: "string \<Rightarrow> CreateDirectoryOptions \<Rightarrow> (fsys, unit) fs_call" where
  "local_create_directory path options fs =
     (if cd_recursive options then create_dir_all (components path) fs else mkdir (components path) fs)"

text \<open>A time is in nanoseconds since the Unix epoch.\<close>

definition system_time_to_unix_ms :: "int \<Rightarrow> int" where
  "system_time_to_unix_ms ns =
     (if ns < 0 then 0 else if ns div 1000000 < 2 ^ 63 then ns div 1000000 else 0)"

definition local_get_metadata :: "(string \<Rightarrow> int option \<times> int option) \<Rightarrow> string \<Rightarrow> (fsys, FileMetadata) fs_call" where
  "local_get_metadata stamps path fs =
     (case stat fs (components path) of
        Inl e \<Rightarrow> (fs, Err e)
      | Inr n \<Rightarrow>
          (fs, Ok \<lparr>md_is_directory = (n = NDir), md_is_file = (case n of NFile _ \<Rightarrow> True | _ \<Rightarrow> False),
             md_created_at_ms = (case fst (stamps path) of None \<Rightarrow> 0 | Some t \<Rightarrow> system_time_to_unix_ms t),
             md_modified_at_ms = (case snd (stamps path) of None \<Rightarrow> 0 | Some t \<Rightarrow> system_time_to_unix_ms t)\<rparr>))"

fun directory_entries ::
  "fsys \<Rightarrow> component list \<Rightarrow> (string \<times> fnode) list \<Rightarrow> (io_error, ReadDirectoryEntry list) result" where
  "directory_entries fs path [] = Ok []"
| "directory_entries fs path ((name, _) # rest) =
     (case stat fs (path @ [Normal name]) of
        Inl e \<Rightarrow> Err e
      | Inr n \<Rightarrow>
          (case directory_entries fs path rest of
             Inl e \<Rightarrow> Err e
           | Inr entries \<Rightarrow>
               Ok (\<lparr>de_file_name = name, de_is_directory = (n = NDir),
                    de_is_file = (case n of NFile _ \<Rightarrow> True | _ \<Rightarrow> False)\<rparr> # entries)))"

definition local_read_directory :: "string \<Rightarrow> (fsys, ReadDirectoryEntry list) fs_call" where
  "local_read_directory path fs =
     (fs, case read_dir fs (components path) of
            Inl e \<Rightarrow> Err e
          | Inr entries \<Rightarrow> directory_entries fs (components path) entries)"

definition local_remove :: "string \<Rightarrow> RemoveOptions \<Rightarrow> (fsys, unit) fs_call" where
  "local_remove path options fs =
     (case lstat fs (components path) of
        Inr NDir \<Rightarrow>
          if ro_recursive options then remove_dir_all (components path) fs else rmdir (components path) fs
      | Inr _ \<Rightarrow> unlink (components path) fs
      | Inl e \<Rightarrow> if io_kind e = NotFound \<and> ro_force options then (fs, Ok ()) else (fs, Err e))"

definition copy_symlink :: "component list \<Rightarrow> component list \<Rightarrow> (fsys, unit) fs_call" where
  "copy_symlink source target fs =
     (case lstat fs source of
        Inl e \<Rightarrow> (fs, Err e)
      | Inr (NLink content) \<Rightarrow> make_symlink content target fs
      | Inr _ \<Rightarrow> (fs, Err (io_err InvalidInput ''Invalid argument'')))"

text \<open>The fuel of the recursive copy is its depth.\<close>

function (sequential) copy_dir_recursive :: "nat \<Rightarrow> component list \<Rightarrow> component list \<Rightarrow> fsys \<Rightarrow> (fsys \<times> (io_error, unit) result) option"
  and copy_entries ::
    "nat \<Rightarrow> component list \<Rightarrow> component list \<Rightarrow> (string \<times> fnode) list \<Rightarrow> fsys \<Rightarrow> (fsys \<times> (io_error, unit) result) option" where
  "copy_dir_recursive 0 source target fs = None"
| "copy_dir_recursive (Suc fuel) source target fs =
     (case create_dir_all target fs of
        (fs, Inl e) \<Rightarrow> Some (fs, Err e)
      | (fs, Inr _) \<Rightarrow>
          (case read_dir fs source of
             Inl e \<Rightarrow> Some (fs, Err e)
           | Inr entries \<Rightarrow> copy_entries fuel source target entries fs))"
| "copy_entries fuel source target [] fs = Some (fs, Ok ())"
| "copy_entries fuel source target ((name, n) # entries) fs =
     (let source_path = source @ [Normal name];
          target_path = target @ [Normal name];
          r = (case n of
                 NDir \<Rightarrow> copy_dir_recursive fuel source_path target_path fs
               | NFile _ \<Rightarrow> Some (copy_file source_path target_path fs)
               | NLink _ \<Rightarrow> Some (copy_symlink source_path target_path fs)
               | NOther \<Rightarrow> Some (fs, Ok ()))
      in case r of
           None \<Rightarrow> None
         | Some (fs, Inl e) \<Rightarrow> Some (fs, Err e)
         | Some (fs, Inr _) \<Rightarrow> copy_entries fuel source target entries fs)"
  by pat_completeness auto
termination
  by (relation "measures [case_sum (\<lambda>(fuel, _). fuel) (\<lambda>(fuel, _). fuel),
        case_sum (\<lambda>_. 0) (\<lambda>(_, _, _, entries, _). length entries)]") auto

text \<open>Normalisation of \<^verbatim>\<open>..\<close> by \<^verbatim>\<open>PathBuf::pop\<close>, which never removes the root.\<close>

definition path_pop :: "component list \<Rightarrow> component list" where
  "path_pop p = (if p = [] \<or> last p = RootDir then p else butlast p)"

fun normalize :: "component list \<Rightarrow> component list \<Rightarrow> component list" where
  "normalize acc [] = acc"
| "normalize acc (c # cs) =
     (case c of
        RootDir \<Rightarrow> normalize [RootDir] cs
      | CurDir \<Rightarrow> normalize acc cs
      | ParentDir \<Rightarrow> normalize (path_pop acc) cs
      | Normal n \<Rightarrow> normalize (acc @ [Normal n]) cs)"

text \<open>The search for the deepest existing ancestor and the names below it.\<close>

function existing_ancestor :: "fsys \<Rightarrow> component list \<Rightarrow> string list \<Rightarrow> component list \<times> string list" where
  "existing_ancestor fs path missing =
     (if path_exists fs path then (path, missing)
      else case rev path of
        Normal n # _ \<Rightarrow> existing_ancestor fs (butlast path) (n # missing)
      | _ \<Rightarrow> (path, missing))"
  by pat_completeness auto
termination
  by (relation "measure (\<lambda>(_, path, _). length path)") (auto intro!: diff_less)

declare existing_ancestor.simps [simp del]

definition resolve_copy_destination_path :: "fsys \<Rightarrow> component list \<Rightarrow> (io_error, component list) result" where
  "resolve_copy_destination_path fs path =
     (let (existing, missing) = existing_ancestor fs (normalize [] path) []
      in case canonicalize fs existing of
           Inl e \<Rightarrow> Err e
         | Inr resolved \<Rightarrow> Ok (resolved @ map Normal missing))"

definition destination_is_same_or_descendant_of_source ::
  "fsys \<Rightarrow> component list \<Rightarrow> component list \<Rightarrow> (io_error, bool) result" where
  "destination_is_same_or_descendant_of_source fs source destination =
     (case canonicalize fs source of
        Inl e \<Rightarrow> Err e
      | Inr source \<Rightarrow>
          (case resolve_copy_destination_path fs destination of
             Inl e \<Rightarrow> Err e
           | Inr destination \<Rightarrow> Ok (prefix source destination)))"

definition local_copy :: "nat \<Rightarrow> string \<Rightarrow> string \<Rightarrow> CopyOptions \<Rightarrow> fsys \<Rightarrow> (fsys \<times> (io_error, unit) result) option" where
  "local_copy fuel source_path destination_path options fs =
     (let source = components source_path; destination = components destination_path
      in case lstat fs source of
           Inl e \<Rightarrow> Some (fs, Err e)
         | Inr NDir \<Rightarrow>
             if \<not> co_recursive options
             then Some (fs, Err (io_err InvalidInput ''fs/copy requires recursive: true when sourcePath is a directory''))
             else (case destination_is_same_or_descendant_of_source fs source destination of
                     Inl e \<Rightarrow> Some (fs, Err e)
                   | Inr True \<Rightarrow>
                       Some (fs, Err (io_err InvalidInput ''fs/copy cannot copy a directory to itself or one of its descendants''))
                   | Inr False \<Rightarrow> copy_dir_recursive fuel source destination fs)
         | Inr (NLink _) \<Rightarrow> Some (copy_symlink source destination fs)
         | Inr (NFile _) \<Rightarrow> Some (copy_file source destination fs)
         | Inr NOther \<Rightarrow>
             Some (fs, Err (io_err InvalidInput ''fs/copy only supports regular files, directories, and symlinks'')))"

section \<open>Lookup laws\<close>

definition fs_wf :: "fsys \<Rightarrow> bool" where
  "fs_wf fs \<longleftrightarrow> hm_wf fs \<and> [] \<notin> set (hm_keys fs) \<and>
     (\<forall>p \<in> set (hm_keys fs). node_at fs (butlast p) = Some NDir)"

definition abs_path :: "string list \<Rightarrow> component list" where
  "abs_path p = RootDir # map Normal p"

definition real_dir :: "fsys \<Rightarrow> string list \<Rightarrow> bool" where
  "real_dir fs p \<longleftrightarrow> (\<forall>q. prefix q p \<longrightarrow> node_at fs q = Some NDir)"

text \<open>The file system with one entry more.\<close>

definition added :: "fsys \<Rightarrow> string list \<Rightarrow> fnode \<Rightarrow> fsys \<Rightarrow> bool" where
  "added fs p n fs' \<longleftrightarrow> fs_wf fs' \<and> (\<forall>q. node_at fs' q = (if q = p then Some n else node_at fs q))"

lemma node_at_root [simp]: "node_at fs [] = Some NDir"
  by (simp add: node_at_def)

lemma node_at_insert: "p \<noteq> [] \<Longrightarrow> node_at (hm_insert p n fs) q = (if q = p then Some n else node_at fs q)"
  by (auto simp: node_at_def)

lemma node_at_key: "p \<noteq> [] \<Longrightarrow> p \<in> set (hm_keys fs) \<longleftrightarrow> node_at fs p \<noteq> None"
  by (simp add: node_at_def hm_get_None_iff)

lemma fs_wf_parent: "fs_wf fs \<Longrightarrow> p \<noteq> [] \<Longrightarrow> node_at fs p \<noteq> None \<Longrightarrow> node_at fs (butlast p) = Some NDir"
  using node_at_key by (auto simp: fs_wf_def)

lemma added_insert:
  assumes "fs_wf fs" "p \<noteq> []" "node_at fs (butlast p) = Some NDir" "node_at fs p \<noteq> Some NDir"
  shows "added fs p n (hm_insert p n fs)"
proof -
  have "node_at (hm_insert p n fs) (butlast q) = Some NDir" if "q \<in> set (hm_keys (hm_insert p n fs))" for q
  proof -
    have "node_at fs (butlast q) = Some NDir"
      using that assms(1,3) by (auto simp: hm_insert_keys fs_wf_def)
    then show ?thesis using assms(4) by (auto simp: node_at_insert [OF assms(2)])
  qed
  then show ?thesis
    using assms by (auto simp: added_def fs_wf_def node_at_insert hm_insert_keys)
qed

lemma children_iff:
  assumes "fs_wf fs"
  shows "(n, x) \<in> set (children fs p) \<longleftrightarrow> node_at fs (p @ [n]) = Some x"
proof -
  have "(n, x) \<in> set (children fs p) \<longleftrightarrow> (p @ [n], x) \<in> set fs"
    by (force simp: children_def image_iff intro: append_butlast_last_id [symmetric])
  also have "\<dots> \<longleftrightarrow> node_at fs (p @ [n]) = Some x"
    using assms hm_entry_get [of fs "p @ [n]" x] hm_get_entry [of fs "p @ [n]" x] by (auto simp: fs_wf_def node_at_def)
  finally show ?thesis .
qed

lemma children_distinct:
  assumes "fs_wf fs"
  shows "distinct (map fst (children fs p))"
proof -
  have d: "distinct (map fst (filter (\<lambda>(q, _). q \<noteq> [] \<and> butlast q = p) fs))"
    using assms distinct_map_filter unfolding fs_wf_def hm_wf_def hm_keys_def by blast
  have "map fst (children fs p) = map last (map fst (filter (\<lambda>(q, _). q \<noteq> [] \<and> butlast q = p) fs))"
    by (simp add: children_def case_prod_unfold)
  moreover have "inj_on last (set (map fst (filter (\<lambda>(q, _). q \<noteq> [] \<and> butlast q = p) fs)))"
    by (rule inj_onI) (auto, metis append_butlast_last_id)
  ultimately show ?thesis using d by (simp add: distinct_map del: map_map)
qed

lemma below_missing:
  assumes "fs_wf fs" "node_at fs p \<noteq> Some NDir" "r \<noteq> []"
  shows "node_at fs (p @ r) = None"
  using assms(3)
proof (induction r rule: rev_induct)
  case (snoc x r)
  have "node_at fs (p @ r) \<noteq> Some NDir" using snoc.IH assms(2) by (cases "r = []") auto
  then show ?case using fs_wf_parent [OF assms(1), of "p @ r @ [x]"]
    by (cases "node_at fs (p @ r @ [x])") (auto simp: butlast_append)
qed simp

section \<open>Resolution of real directories\<close>

lemma abs_path_snoc [simp]: "abs_path p @ [Normal n] = abs_path (p @ [n])"
  by (simp add: abs_path_def)

lemma real_dir_node: "real_dir fs p \<Longrightarrow> node_at fs p = Some NDir"
  by (simp add: real_dir_def)

lemma real_dir_snoc: "real_dir fs p \<Longrightarrow> node_at fs (p @ [n]) = Some NDir \<Longrightarrow> real_dir fs (p @ [n])"
  by (auto simp: real_dir_def prefix_snoc)

lemma real_dir_added: "real_dir fs p \<Longrightarrow> node_at fs q = None \<Longrightarrow> added fs q x fs' \<Longrightarrow> real_dir fs' p"
  by (auto simp: real_dir_def added_def)

lemma walk_real:
  "\<forall>q. prefix q p \<longrightarrow> node_at fs (cur @ q) = Some NDir \<Longrightarrow>
     walk fs create links cur (map Normal p @ cs) = walk fs create links (cur @ p) cs"
proof (induction p arbitrary: cur)
  case (Cons n p)
  have "node_at fs (cur @ [n]) = Some NDir" using Cons.prems by (auto simp: prefix_Cons)
  moreover have "\<forall>q. prefix q p \<longrightarrow> node_at fs ((cur @ [n]) @ q) = Some NDir"
    using Cons.prems by (metis append_Cons append_Nil append_assoc Cons_prefix_Cons)
  ultimately show ?case using Cons.IH [of "cur @ [n]"] by (simp add: Let_def)
qed simp

lemma resolve_real: "real_dir fs p \<Longrightarrow> resolve fs create (abs_path p) = Ok p"
  using walk_real [of p fs "[]" create MAXSYMLINKS "[]"] by (simp add: resolve_def abs_path_def real_dir_def)

lemma resolve_entry:
  assumes "real_dir fs p"
  shows "node_at fs (p @ [n]) = Some x \<Longrightarrow> \<forall>l. x \<noteq> NLink l \<Longrightarrow> resolve fs create (abs_path (p @ [n])) = Ok (p @ [n])"
    and "node_at fs (p @ [n]) = None \<Longrightarrow> resolve fs True (abs_path (p @ [n])) = Ok (p @ [n])"
  using walk_real [of p fs "[]" _ MAXSYMLINKS "[Normal n]"] assms
  by (auto simp: resolve_def abs_path_def real_dir_def Let_def split: fnode.split)

lemma locate_entry: "real_dir fs p \<Longrightarrow> locate fs (abs_path (p @ [n])) = Ok (p @ [n])"
  using resolve_real [of fs p False] real_dir_node [of fs p] by (simp add: locate_def abs_path_def butlast_append)

section \<open>Effects of the operations on new entries\<close>

lemma create_dir_all_new:
  assumes "fs_wf fs" "real_dir fs p" "node_at fs (p @ [n]) = None"
  shows "\<exists>fs'. create_dir_all (abs_path (p @ [n])) fs = (fs', Ok ()) \<and> added fs (p @ [n]) NDir fs'"
proof -
  have "mkdir (abs_path (p @ [n])) fs = (hm_insert (p @ [n]) NDir fs, Ok ())"
    by (simp add: mkdir_def locate_entry [OF assms(2)] assms(3))
  then show ?thesis
    using added_insert [OF assms(1), of "p @ [n]" NDir] assms(3) real_dir_node [OF assms(2)]
    by (subst create_dir_all.simps) (simp add: abs_path_def)
qed

lemma write_bytes_new:
  assumes "fs_wf fs" "real_dir fs p" "node_at fs (p @ [n]) = None \<or> (\<exists>d. node_at fs (p @ [n]) = Some (NFile d))"
  shows "\<exists>fs'. write_bytes (abs_path (p @ [n])) data fs = (fs', Ok ()) \<and> added fs (p @ [n]) (NFile data) fs'"
proof -
  have "resolve fs True (abs_path (p @ [n])) = Ok (p @ [n])"
    using assms(3) resolve_entry [OF assms(2)] by blast
  then have "write_bytes (abs_path (p @ [n])) data fs = (hm_insert (p @ [n]) (NFile data) fs, Ok ())"
    using assms(3) by (auto simp: write_bytes_def)
  then show ?thesis using added_insert [OF assms(1), of "p @ [n]"] assms(3) real_dir_node [OF assms(2)] by auto
qed

lemma copy_file_new:
  assumes "fs_wf fs" "real_dir fs s" "node_at fs (s @ [n]) = Some (NFile data)"
    and "real_dir fs t" "node_at fs (t @ [m]) = None"
  shows "\<exists>fs'. copy_file (abs_path (s @ [n])) (abs_path (t @ [m])) fs = (fs', Ok ()) \<and> added fs (t @ [m]) (NFile data) fs'"
proof -
  obtain fs1 where w: "write_bytes (abs_path (t @ [m])) [] fs = (fs1, Ok ())" "added fs (t @ [m]) (NFile []) fs1"
    using write_bytes_new [OF assms(1,4)] assms(5) by blast
  have src: "node_at fs1 (s @ [n]) = Some (NFile data)" using w(2) assms(3,5) by (auto simp: added_def)
  have "fs_wf fs1" "real_dir fs1 t" using w(2) real_dir_added [OF assms(4,5) w(2)] by (auto simp: added_def)
  then obtain fs2 where w2: "write_bytes (abs_path (t @ [m])) data fs1 = (fs2, Ok ())" "added fs1 (t @ [m]) (NFile data) fs2"
    using write_bytes_new [of fs1 t m data] w(2) unfolding added_def by auto
  have "resolve fs False (abs_path (s @ [n])) = Ok (s @ [n])" using resolve_entry(1) [OF assms(2,3)] by simp
  then have "copy_file (abs_path (s @ [n])) (abs_path (t @ [m])) fs = (fs2, Ok ())"
    by (simp add: copy_file_def assms(3) w(1) src w2(1))
  moreover have "added fs (t @ [m]) (NFile data) fs2" using w(2) w2(2) by (auto simp: added_def)
  ultimately show ?thesis by blast
qed

lemma copy_symlink_new:
  assumes "fs_wf fs" "real_dir fs s" "node_at fs (s @ [n]) = Some (NLink l)"
    and "real_dir fs t" "node_at fs (t @ [m]) = None"
  shows "\<exists>fs'. copy_symlink (abs_path (s @ [n])) (abs_path (t @ [m])) fs = (fs', Ok ()) \<and> added fs (t @ [m]) (NLink l) fs'"
  using added_insert [OF assms(1), of "t @ [m]" "NLink l"] assms real_dir_node [OF assms(4)]
  by (simp add: copy_symlink_def lstat_def make_symlink_def locate_entry)

end
