(* ===== verification/Local_Copy.thy ===== *)
theory Local_Copy
  imports Local_Fs
begin

text \<open>
  Correctness of the local file system (\<open>Local_Fs\<close>): the recursive copy, reading back what
  was written, well-formedness under every operation, exact removal, and the refusals.
\<close>

section \<open>The recursive copy\<close>

text \<open>A copy skips special files.\<close>

definition shadow :: "fnode option \<Rightarrow> fnode option" where
  "shadow x = (if x = Some NOther then None else x)"

text \<open>\<open>grafted fs s t fs'\<close>: \<open>fs'\<close> is \<open>fs\<close> with a copy of what is below \<open>s\<close> in
  place of what is below \<open>t\<close>.\<close>

definition grafted :: "fsys \<Rightarrow> string list \<Rightarrow> string list \<Rightarrow> fsys \<Rightarrow> bool" where
  "grafted fs s t fs' \<longleftrightarrow> fs_wf fs' \<and> (\<forall>p. node_at fs' (t @ p) = shadow (node_at fs (s @ p))) \<and>
     (\<forall>q. \<not> prefix t q \<longrightarrow> node_at fs' q = node_at fs q)"

lemma grafted_leaf:
  assumes "fs_wf fs" "node_at fs s = Some x" "x \<noteq> NDir" "x \<noteq> NOther" "node_at fs t = None" "added fs t x fs'"
  shows "grafted fs s t fs'"
proof -
  have "node_at fs' (t @ p) = shadow (node_at fs (s @ p))" for p
    using assms below_missing [OF assms(1), of s p] below_missing [OF assms(1), of t p]
    by (cases "p = []") (auto simp: added_def shadow_def)
  moreover have "node_at fs' q = node_at fs q" if "\<not> prefix t q" for q
    using that assms(6) by (auto simp: added_def)
  ultimately show ?thesis using assms(6) by (simp add: grafted_def added_def)
qed

lemma grafted_special:
  assumes "fs_wf fs" "node_at fs s = Some NOther" "node_at fs t = None"
  shows "grafted fs s t fs"
proof -
  have "node_at fs (t @ p) = shadow (node_at fs (s @ p))" for p
    using assms below_missing [OF assms(1), of s p] below_missing [OF assms(1), of t p]
    by (cases "p = []") (auto simp: shadow_def)
  then show ?thesis using assms(1) by (simp add: grafted_def)
qed

lemma grafted_apart: "grafted fs s t fs' \<Longrightarrow> u \<parallel> t \<Longrightarrow> node_at fs' (u @ p) = node_at fs (u @ p)"
  by (metis grafted_def parallelD1 parallelD2 prefixI prefix_same_cases)

lemma grafted_real_dir: "grafted fs s t fs' \<Longrightarrow> real_dir fs d \<Longrightarrow> \<not> prefix t d \<Longrightarrow> real_dir fs' d"
  by (metis grafted_def prefix_order.trans real_dir_def)

text \<open>What one entry needs of the copy of a directory, at a smaller depth.\<close>

definition copies_dirs :: "nat \<Rightarrow> bool" where
  "copies_dirs fuel \<longleftrightarrow>
     (\<forall>fs s t n. fs_wf fs \<longrightarrow> real_dir fs s \<longrightarrow> real_dir fs t \<longrightarrow> node_at fs (t @ [n]) = None \<longrightarrow> s \<parallel> t @ [n] \<longrightarrow>
        (\<forall>p. node_at fs (s @ p) \<noteq> None \<longrightarrow> length p < fuel) \<longrightarrow>
        (\<exists>fs'. copy_dir_recursive fuel (abs_path s) (abs_path (t @ [n])) fs = Some (fs', Ok ()) \<and> grafted fs s (t @ [n]) fs'))"

lemma copy_entry:
  assumes "copies_dirs fuel" "fs_wf fs" "real_dir fs s" "real_dir fs t" "s \<parallel> t"
    and "node_at fs (s @ [n]) = Some x" "node_at fs (t @ [n]) = None"
    and "\<forall>p. node_at fs (s @ n # p) \<noteq> None \<longrightarrow> length p < fuel"
  shows "\<exists>fs'. (case x of
         NDir \<Rightarrow> copy_dir_recursive fuel (abs_path (s @ [n])) (abs_path (t @ [n])) fs
       | NFile _ \<Rightarrow> Some (copy_file (abs_path (s @ [n])) (abs_path (t @ [n])) fs)
       | NLink _ \<Rightarrow> Some (copy_symlink (abs_path (s @ [n])) (abs_path (t @ [n])) fs)
       | NOther \<Rightarrow> Some (fs, Ok ())) = Some (fs', Ok ()) \<and> grafted fs (s @ [n]) (t @ [n]) fs'"
proof (cases x)
  case NDir
  have "s @ [n] \<parallel> t @ [n]" using assms(5) by (rule parallel_append)
  moreover have "real_dir fs (s @ [n])" using real_dir_snoc assms(3,6) NDir by blast
  ultimately show ?thesis using assms(1,2,4,7,8) NDir unfolding copies_dirs_def by simp
next
  case (NFile d)
  then show ?thesis
    using copy_file_new [OF assms(2,3) _ assms(4,7)] grafted_leaf [OF assms(2,6) _ _ assms(7)] assms(6) by fastforce
next
  case (NLink l)
  then show ?thesis
    using copy_symlink_new [OF assms(2,3) _ assms(4,7)] grafted_leaf [OF assms(2,6) _ _ assms(7)] assms(6) by fastforce
next
  case NOther
  then show ?thesis using grafted_special [OF assms(2) _ assms(7)] assms(6) by simp
qed

lemma copy_entries_grafts:
  assumes "copies_dirs fuel" "fs_wf fs" "real_dir fs s" "real_dir fs t" "s \<parallel> t"
    and "distinct (map fst entries)" "\<forall>(n, x) \<in> set entries. node_at fs (s @ [n]) = Some x"
    and "\<forall>n \<in> fst ` set entries. node_at fs (t @ [n]) = None"
    and "\<forall>n p. node_at fs (s @ n # p) \<noteq> None \<longrightarrow> length p < fuel"
  shows "\<exists>fs'. copy_entries fuel (abs_path s) (abs_path t) entries fs = Some (fs', Ok ()) \<and> fs_wf fs' \<and>
    (\<forall>n p. n \<in> fst ` set entries \<longrightarrow> node_at fs' (t @ n # p) = shadow (node_at fs (s @ n # p))) \<and>
    (\<forall>q. (\<forall>n \<in> fst ` set entries. \<not> prefix (t @ [n]) q) \<longrightarrow> node_at fs' q = node_at fs q)"
  using assms(2-4,6-9)
proof (induction entries arbitrary: fs)
  case (Cons e entries)
  obtain n x where e: "e = (n, x)" by force
  obtain fs1 where fs1: "(case x of
         NDir \<Rightarrow> copy_dir_recursive fuel (abs_path (s @ [n])) (abs_path (t @ [n])) fs
       | NFile _ \<Rightarrow> Some (copy_file (abs_path (s @ [n])) (abs_path (t @ [n])) fs)
       | NLink _ \<Rightarrow> Some (copy_symlink (abs_path (s @ [n])) (abs_path (t @ [n])) fs)
       | NOther \<Rightarrow> Some (fs, Ok ())) = Some (fs1, Ok ())" "grafted fs (s @ [n]) (t @ [n]) fs1"
    using copy_entry [OF assms(1) Cons.prems(1-3) assms(5), of n x] Cons.prems(5-7) by (auto simp: e)
  have apart: "s \<parallel> t @ [n]" using parallel_append [OF assms(5), of "[]" "[n]"] by simp
  have src: "node_at fs1 (s @ p) = node_at fs (s @ p)" for p by (rule grafted_apart [OF fs1(2) apart])
  have tgt: "node_at fs1 (t @ m # p) = node_at fs (t @ m # p)" if "m \<noteq> n" for m p
    using fs1(2) that by (simp add: grafted_def)
  have new: "n \<notin> fst ` set entries" using Cons.prems(4) by (auto simp: e)
  have dirs: "real_dir fs1 s" "real_dir fs1 t" "fs_wf fs1"
    using grafted_real_dir [OF fs1(2)] Cons.prems(2,3) apart fs1(2)
    by (auto simp: grafted_def parallel_def prefix_def)
  obtain fs' where fs': "copy_entries fuel (abs_path s) (abs_path t) entries fs1 = Some (fs', Ok ())" "fs_wf fs'"
    "\<forall>m p. m \<in> fst ` set entries \<longrightarrow> node_at fs' (t @ m # p) = shadow (node_at fs1 (s @ m # p))"
    "\<forall>q. (\<forall>m \<in> fst ` set entries. \<not> prefix (t @ [m]) q) \<longrightarrow> node_at fs' q = node_at fs1 q"
  proof -
    have p: "distinct (map fst entries)" "\<forall>(m, y) \<in> set entries. node_at fs1 (s @ [m]) = Some y"
      "\<forall>m q. node_at fs1 (s @ m # q) \<noteq> None \<longrightarrow> length q < fuel"
      using Cons.prems(4,5,7) src by (auto simp: e)
    have "\<forall>m \<in> fst ` set entries. node_at fs1 (t @ [m]) = None"
    proof
      fix m assume m: "m \<in> fst ` set entries"
      then have "m \<noteq> n" using new by blast
      then show "node_at fs1 (t @ [m]) = None" using Cons.prems(6) tgt [of m "[]"] m by (auto simp: e)
    qed
    from Cons.IH [OF dirs(3,1,2) p(1,2) this p(3)] show ?thesis by (elim exE conjE) (rule that; assumption)
  qed
  have "copy_entries fuel (abs_path s) (abs_path t) (e # entries) fs = Some (fs', Ok ())"
    using fs1(1) fs'(1) by (simp add: e Let_def)
  moreover have "node_at fs' (t @ n # p) = shadow (node_at fs (s @ n # p))" for p
  proof -
    have "node_at fs' (t @ n # p) = node_at fs1 (t @ n # p)"
      using fs'(4) [rule_format, of "t @ n # p"] new by (auto simp: prefix_def)
    then show ?thesis using fs1(2) by (simp add: grafted_def)
  qed
  moreover have "node_at fs' (t @ m # p) = shadow (node_at fs (s @ m # p))" if "m \<in> fst ` set entries" for m p
    using fs'(3) that src by simp
  moreover have "node_at fs' q = node_at fs q"
    if "\<forall>m \<in> fst ` set (e # entries). \<not> prefix (t @ [m]) q" for q
    using that fs'(4) fs1(2) by (simp add: e grafted_def)
  ultimately show ?case using fs'(2) by (intro exI [of _ fs']) (auto simp: e)
qed simp

lemma copies_dirs_all: "copies_dirs fuel"
proof (induction fuel)
  case 0
  show ?case unfolding copies_dirs_def by (metis less_nat_zero_code option.distinct(1) real_dir_node append_Nil2)
next
  case (Suc fuel)
  show ?case unfolding copies_dirs_def
  proof (intro allI impI)
    fix fs s t n
    assume a: "fs_wf fs" "real_dir fs s" "real_dir fs t" "node_at fs (t @ [n]) = None" "s \<parallel> t @ [n]"
      "\<forall>p. node_at fs (s @ p) \<noteq> None \<longrightarrow> length p < Suc fuel"
    let ?t = "t @ [n]"
    obtain fs1 where fs1: "create_dir_all (abs_path ?t) fs = (fs1, Ok ())" "added fs ?t NDir fs1"
      using create_dir_all_new [OF a(1,3,4)] by blast
    have "s @ p \<noteq> ?t" for p using a(5) by (metis parallelD1 prefixI)
    then have src: "node_at fs1 (s @ p) = node_at fs (s @ p)" for p using fs1(2) by (simp add: added_def)
    have dirs: "real_dir fs1 s" "real_dir fs1 ?t" "fs_wf fs1"
      using real_dir_added [OF _ a(4) fs1(2)] a(2,3) fs1(2) real_dir_snoc [of fs1 t n] by (auto simp: added_def)
    have none: "node_at fs1 (?t @ p) = None" if "p \<noteq> []" for p
      using below_missing [OF a(1), of ?t p] a(4) that fs1(2) by (simp add: added_def)
    have rd: "read_dir fs1 (abs_path s) = Ok (children fs1 s)"
      by (simp add: read_dir_def resolve_real [OF dirs(1)] real_dir_node [OF dirs(1)])
    obtain fs' where fs': "copy_entries fuel (abs_path s) (abs_path ?t) (children fs1 s) fs1 = Some (fs', Ok ())" "fs_wf fs'"
      "\<forall>m p. m \<in> fst ` set (children fs1 s) \<longrightarrow> node_at fs' (?t @ m # p) = shadow (node_at fs1 (s @ m # p))"
      "\<forall>q. (\<forall>m \<in> fst ` set (children fs1 s). \<not> prefix (?t @ [m]) q) \<longrightarrow> node_at fs' q = node_at fs1 q"
      using copy_entries_grafts [OF Suc.IH dirs(3,1,2) a(5) children_distinct [OF dirs(3), of s]]
        none a(6) src children_iff [OF dirs(3)] by fastforce
    have "node_at fs' (?t @ p) = shadow (node_at fs (s @ p))" for p
    proof (cases p)
      case Nil
      have "node_at fs' ?t = node_at fs1 ?t"
        using fs'(4) by (auto simp: prefix_def)
      then show ?thesis using Nil fs1(2) real_dir_node [OF a(2)] by (simp add: added_def shadow_def)
    next
      case (Cons m r)
      show ?thesis
      proof (cases "m \<in> fst ` set (children fs1 s)")
        case True
        then show ?thesis using fs'(3) src Cons by simp
      next
        case False
        then have m: "node_at fs1 (s @ [m]) = None"
          using children_iff [OF dirs(3), of m _ s] by (metis fst_conv image_eqI not_Some_eq)
        have "node_at fs1 (s @ m # r) = None"
          using below_missing [OF dirs(3), of "s @ [m]" r] m by (cases "r = []") auto
        moreover have "node_at fs' (?t @ m # r) = node_at fs1 (?t @ m # r)"
          using fs'(4) [rule_format, of "?t @ m # r"] False by (auto simp: prefix_def)
        ultimately show ?thesis using none [of "m # r"] src [of "m # r"] Cons by (simp add: shadow_def)
      qed
    qed
    moreover have "node_at fs' q = node_at fs q" if "\<not> prefix ?t q" for q
    proof -
      have "node_at fs' q = node_at fs1 q" using fs'(4) that by (meson append_prefixD)
      then show ?thesis using fs1(2) that by (auto simp: added_def)
    qed
    ultimately have "grafted fs s ?t fs'" using fs'(2) by (simp add: grafted_def)
    moreover have "copy_dir_recursive (Suc fuel) (abs_path s) (abs_path ?t) fs = Some (fs', Ok ())"
      using fs1(1) rd fs'(1) by simp
    ultimately show "\<exists>fs'. copy_dir_recursive (Suc fuel) (abs_path s) (abs_path ?t) fs = Some (fs', Ok ()) \<and> grafted fs s ?t fs'"
      by blast
  qed
qed

section \<open>Copying a directory\<close>

lemma path_exists_real: "real_dir fs p \<Longrightarrow> path_exists fs (abs_path p)"
  by (simp add: path_exists_def stat_def resolve_real real_dir_node)

lemma path_exists_missing:
  assumes "real_dir fs p" "node_at fs (p @ [n]) = None"
  shows "\<not> path_exists fs (abs_path (p @ [n]))"
  using walk_real [of p fs "[]" False MAXSYMLINKS "[Normal n]"] assms
  by (simp add: path_exists_def stat_def resolve_def abs_path_def real_dir_def)

lemma normalize_names: "normalize acc (map Normal p) = acc @ map Normal p"
  by (induction p arbitrary: acc) simp_all

lemma normalize_abs_path: "normalize [] (abs_path p) = abs_path p"
  by (simp add: abs_path_def normalize_names)

lemma abs_path_prefix [simp]: "prefix (abs_path p) (abs_path q) \<longleftrightarrow> prefix p q"
proof -
  have "prefix (map Normal p) (map Normal q) \<longleftrightarrow> prefix p q"
  proof (induction p arbitrary: q)
    case (Cons a p)
    then show ?case by (cases q) auto
  qed simp
  then show ?thesis by (simp add: abs_path_def)
qed

lemma canonicalize_real: "real_dir fs p \<Longrightarrow> canonicalize fs (abs_path p) = Ok (abs_path p)"
  by (simp add: canonicalize_def stat_def resolve_real real_dir_node abs_path_def [symmetric])

lemma copy_guard:
  assumes "real_dir fs s" "real_dir fs t" "node_at fs (t @ [n]) = None"
  shows "destination_is_same_or_descendant_of_source fs (abs_path s) (abs_path (t @ [n])) = Ok (prefix s (t @ [n]))"
proof -
  have "existing_ancestor fs (abs_path (t @ [n])) [] = (abs_path t, [n])"
    using path_exists_missing [OF assms(2,3)] path_exists_real [OF assms(2)]
    by (subst existing_ancestor.simps, subst existing_ancestor.simps) (simp add: abs_path_def butlast_append)
  then have "resolve_copy_destination_path fs (abs_path (t @ [n])) = Ok (abs_path (t @ [n]))"
    by (simp add: resolve_copy_destination_path_def normalize_abs_path canonicalize_real [OF assms(2)])
  then show ?thesis
    by (simp add: destination_is_same_or_descendant_of_source_def canonicalize_real [OF assms(1)])
qed

lemma lstat_real_dir: "real_dir fs s \<Longrightarrow> lstat fs (abs_path s) = Ok NDir"
proof (cases s rule: rev_cases)
  case (snoc p n)
  assume "real_dir fs s"
  then have "real_dir fs p" "node_at fs (p @ [n]) = Some NDir" using snoc by (auto simp: real_dir_def prefix_snoc)
  then show ?thesis using locate_entry [of fs p n] snoc by (simp add: lstat_def)
qed (simp add: lstat_def locate_def abs_path_def resolve_def node_at_def)

text \<open>C32. Copying a directory to a new place copies exactly it: when the destination does not exist
  and lies outside the source, the copy ends and succeeds, every directory, file and link below
  the source is found at the same place below the destination (special files are left out), and
  nothing else in the file system changes; a destination inside the source is refused as invalid
  and nothing is written.\<close>

theorem local_copy_directory:
  assumes "fs_wf fs" "components source_path = abs_path s" "components destination_path = abs_path (t @ [n])"
    and "real_dir fs s" "real_dir fs t" "node_at fs (t @ [n]) = None" "co_recursive options"
    and "\<forall>p \<in> set (hm_keys fs). length p < fuel" "0 < fuel"
  shows "if prefix s (t @ [n])
    then \<exists>e. local_copy fuel source_path destination_path options fs = Some (fs, Err e) \<and> io_kind e = InvalidInput
    else \<exists>fs'. local_copy fuel source_path destination_path options fs = Some (fs', Ok ()) \<and>
      (\<forall>p. node_at fs' (t @ n # p) = (if node_at fs (s @ p) = Some NOther then None else node_at fs (s @ p))) \<and>
      (\<forall>q. \<not> prefix (t @ [n]) q \<longrightarrow> node_at fs' q = node_at fs q)"
proof -
  have copy: "local_copy fuel source_path destination_path options fs =
      (if prefix s (t @ [n])
       then Some (fs, Err (io_err InvalidInput ''fs/copy cannot copy a directory to itself or one of its descendants''))
       else copy_dir_recursive fuel (abs_path s) (abs_path (t @ [n])) fs)"
    using assms(7) by (simp add: local_copy_def assms(2,3) lstat_real_dir [OF assms(4)] copy_guard [OF assms(4-6)] Let_def)
  have "\<not> prefix (t @ [n]) s" using assms(4,6) by (auto simp: real_dir_def)
  moreover have "length p < fuel" if "node_at fs (s @ p) \<noteq> None" for p
    using that assms(8,9) node_at_key [of "s @ p" fs] by (cases "s @ p = []") fastforce+
  ultimately have "\<not> prefix s (t @ [n]) \<longrightarrow>
      (\<exists>fs'. copy_dir_recursive fuel (abs_path s) (abs_path (t @ [n])) fs = Some (fs', Ok ()) \<and> grafted fs s (t @ [n]) fs')"
    using copies_dirs_all [of fuel] assms(1,4-6) by (auto simp: copies_dirs_def parallel_def)
  then show ?thesis by (auto simp: copy grafted_def shadow_def io_err_def)
qed

section \<open>Reading back what was written\<close>

lemma fs_wf_butlast: "fs_wf fs \<Longrightarrow> node_at fs cur = Some NDir \<Longrightarrow> node_at fs (butlast cur) = Some NDir"
  using fs_wf_parent [of fs cur] by (cases "cur = []") auto

lemma walk_result:
  assumes "walk fs create links cur cs = Ok p" "fs_wf fs" "node_at fs cur = Some NDir"
  shows "(\<forall>l. node_at fs p \<noteq> Some (NLink l)) \<and> node_at fs (butlast p) = Some NDir"
  using assms
proof (induction fs create links cur cs rule: walk.induct)
  case (5 fs create links cur n cs)
  then show ?case by (auto simp: Let_def split: option.splits fnode.splits nat.splits if_splits)
qed (auto simp: fs_wf_butlast)

lemma resolve_result:
  assumes "fs_wf fs" "resolve fs create path = Ok p"
  shows "node_at fs p \<noteq> Some (NLink l)" and "node_at fs (butlast p) = Some NDir"
  using walk_result [OF assms(2) [unfolded resolve_def] assms(1)] by (simp_all add: node_at_def)

lemma walk_existing:
  "walk fs True links cur cs = Ok p \<Longrightarrow> node_at fs p \<noteq> None \<Longrightarrow> walk fs False links cur cs = Ok p"
proof (induction fs "True" links cur cs rule: walk.induct)
  case (5 fs links cur n cs)
  then show ?case by (auto simp: Let_def split: option.splits fnode.splits nat.splits if_splits)
qed simp_all

lemma resolve_existing:
  "resolve fs True path = Ok p \<Longrightarrow> node_at fs p \<noteq> None \<Longrightarrow> resolve fs False path = Ok p"
  unfolding resolve_def by (rule walk_existing)

lemma walk_written:
  assumes "walk fs True links cur cs = Ok p" "fs_wf fs" "node_at fs cur = Some NDir"
    "node_at fs p = None \<or> (\<exists>d. node_at fs p = Some (NFile d))"
  shows "p \<noteq> []" and "walk (hm_insert p (NFile data) fs) False links cur cs = Ok p"
proof -
  show p: "p \<noteq> []" using assms(4) by (auto simp: node_at_def)
  show "walk (hm_insert p (NFile data) fs) False links cur cs = Ok p"
    using assms
  proof (induction fs "True" links cur cs rule: walk.induct)
    case (4 fs links cur cs)
    then show ?case using fs_wf_butlast by simp
  next
    case (5 fs links cur n cs)
    show ?case
    proof (cases "cur @ [n] = p")
      case True
      then show ?thesis using 5(3,6) p by (auto simp: Let_def node_at_insert split: if_splits fnode.splits)
    next
      case False
      then have same: "node_at (hm_insert p (NFile data) fs) (cur @ [n]) = node_at fs (cur @ [n])"
        by (simp add: node_at_insert [OF p])
      show ?thesis
        using 5 False unfolding same walk.simps(5) Let_def
        by (auto simp: same split: option.splits fnode.splits nat.splits if_splits)
    qed
  qed (auto simp: node_at_def)
qed

text \<open>A file reads back as it was written: after a successful write through any path, symbolic
  links included, reading the same path returns the written bytes, up to the size limit of a
  read, and every path that does not lead to that file resolves to what it did before.\<close>

theorem local_write_read_roundtrip:
  assumes "fs_wf fs" "local_write_file path contents fs = (fs', Ok ())"
    and "stat fs (components path) \<noteq> Ok NOther" "length contents \<le> MAX_READ_FILE_BYTES"
  shows "local_read_file path fs' = (fs', Ok contents) \<and>
    (\<exists>p. node_at fs' p = Some (NFile contents) \<and> (\<forall>q. q \<noteq> p \<longrightarrow> node_at fs' q = node_at fs q))"
proof -
  obtain p where p: "resolve fs True (components path) = Ok p"
    "node_at fs p = None \<or> node_at fs p = Some NOther \<or> (\<exists>d. node_at fs p = Some (NFile d)) \<or> (\<exists>l. node_at fs p = Some (NLink l))"
    using assms(2) by (auto simp: local_write_file_def write_bytes_def split: sum.splits option.splits fnode.splits)
  have "node_at fs p \<noteq> Some NOther"
    using assms(3) resolve_existing [OF p(1)] by (auto simp: stat_def)
  then have plain: "node_at fs p = None \<or> (\<exists>d. node_at fs p = Some (NFile d))"
    using p(2) resolve_result(1) [OF assms(1) p(1)] by blast
  have fs': "fs' = hm_insert p (NFile contents) fs"
    using assms(2) plain p(1) by (auto simp: local_write_file_def write_bytes_def)
  have r: "p \<noteq> []" "resolve fs' False (components path) = Ok p"
    using walk_written [OF p(1) [unfolded resolve_def] assms(1) _ plain] fs' by (auto simp: resolve_def node_at_def)
  then have st: "stat fs' (components path) = Ok (NFile contents)" by (simp add: stat_def fs' node_at_insert)
  have "local_read_file path fs' = (fs', Ok contents)"
    using assms(4) by (simp add: local_read_file_def st node_len_def read_bytes_def)
  then show ?thesis using r(1) by (auto simp: fs' node_at_insert intro!: exI [of _ p])
qed

section \<open>Well-formedness\<close>

lemma locate_result:
  assumes "fs_wf fs" "locate fs path = Ok p"
  shows "node_at fs (butlast p) = Some NDir"
proof (cases "\<exists>n rest. rev path = Normal n # rest")
  case True
  then show ?thesis using assms(2) by (auto simp: locate_def split: sum.splits if_splits)
next
  case False
  then have "resolve fs False path = Ok p"
    using assms(2) by (auto simp: locate_def split: list.splits component.splits)
  then show ?thesis using resolve_result(2) [OF assms(1)] by blast
qed

lemma fs_wf_new:
  "\<lbrakk>fs_wf fs; node_at fs p \<noteq> Some NDir; node_at fs (butlast p) = Some NDir\<rbrakk> \<Longrightarrow> fs_wf (hm_insert p n fs)"
  using added_insert [of fs p n] by (cases "p = []") (auto simp: added_def)

lemma fs_wf_empty [simp]: "fs_wf []"
  by (simp add: fs_wf_def hm_keys_def)

lemma fs_wf_subset:
  assumes "fs_wf fs" "\<And>q. node_at fs' q = (if P q then None else node_at fs q)" "hm_wf fs'" "[] \<notin> set (hm_keys fs')"
    and "\<And>q. q \<noteq> [] \<Longrightarrow> node_at fs q \<noteq> None \<Longrightarrow> P (butlast q) \<Longrightarrow> P q"
  shows "fs_wf fs'"
proof -
  have "node_at fs' (butlast q) = Some NDir" if "q \<in> set (hm_keys fs')" for q
  proof -
    have q: "q \<noteq> []" using that assms(4) by auto
    then have "node_at fs' q \<noteq> None" using that node_at_key by blast
    then have "\<not> P q" "node_at fs q \<noteq> None" using assms(2) by (auto split: if_splits)
    then show ?thesis using assms(2) assms(5) [OF q] fs_wf_parent [OF assms(1) q] by auto
  qed
  then show ?thesis using assms(3,4) by (simp add: fs_wf_def)
qed

lemma node_at_remove: "p \<noteq> [] \<Longrightarrow> node_at (hm_remove p fs) q = (if q = p then None else node_at fs q)"
  by (auto simp: node_at_def)

lemma fs_wf_remove:
  assumes "fs_wf fs" "p \<noteq> []" "\<And>n. node_at fs (p @ [n]) = None"
  shows "fs_wf (hm_remove p fs)"
proof (rule fs_wf_subset [OF assms(1), where P = "\<lambda>q. q = p"])
  show "q = p" if "q \<noteq> []" "node_at fs q \<noteq> None" "butlast q = p" for q
    using that assms(3) [of "last q"] by (metis append_butlast_last_id)
qed (use assms in \<open>auto simp: node_at_remove fs_wf_def hm_remove_keys\<close>)

lemma no_children: "fs_wf fs \<Longrightarrow> children fs p = [] \<Longrightarrow> node_at fs (p @ [n]) = None"
  using children_iff [of fs n _ p] by (metis empty_iff empty_set not_Some_eq)

lemma node_at_prune:
  "fs_wf fs \<Longrightarrow> node_at (filter (\<lambda>(q, _). \<not> prefix p q) fs) q = (if q \<noteq> [] \<and> prefix p q then None else node_at fs q)"
  using hm_get_retain [of fs "\<lambda>q _. \<not> prefix p q" q]
  by (auto simp: node_at_def hm_retain_def fs_wf_def split: option.splits)

lemma fs_wf_prune:
  assumes "fs_wf fs"
  shows "fs_wf (filter (\<lambda>(q, _). \<not> prefix p q) fs)"
proof (rule fs_wf_subset [OF assms node_at_prune [OF assms]])
  show "hm_wf (filter (\<lambda>(q, _). \<not> prefix p q) fs)"
    using hm_wf_retain [of fs "\<lambda>q _. \<not> prefix p q"] assms by (simp add: hm_retain_def fs_wf_def)
  show "[] \<notin> set (hm_keys (filter (\<lambda>(q, _). \<not> prefix p q) fs))"
    using assms by (auto simp: fs_wf_def hm_keys_def)
  show "q \<noteq> [] \<and> prefix p q" if "q \<noteq> []" "butlast q \<noteq> [] \<and> prefix p (butlast q)" for q
    using that by (meson prefix_order.trans prefixeq_butlast)
qed

lemma write_bytes_wf: "fs_wf fs \<Longrightarrow> fs_wf (fst (write_bytes path data fs))"
  using resolve_result [of fs True path]
  by (auto simp: write_bytes_def split: sum.splits option.splits fnode.splits intro!: fs_wf_new)

lemma mkdir_wf: "fs_wf fs \<Longrightarrow> fs_wf (fst (mkdir path fs))"
  using locate_result [of fs path] by (auto simp: mkdir_def split: sum.splits intro!: fs_wf_new)

lemma make_symlink_wf: "fs_wf fs \<Longrightarrow> fs_wf (fst (make_symlink content path fs))"
  using locate_result [of fs path] by (auto simp: make_symlink_def split: sum.splits intro!: fs_wf_new)

lemma create_dir_all_wf: "fs_wf fs \<Longrightarrow> fs_wf (fst (create_dir_all path fs))"
proof (induction path fs rule: create_dir_all.induct)
  case (1 path fs)
  show ?case
    using 1 mkdir_wf [of fs path] mkdir_wf [of "fst (create_dir_all (butlast path) fs)" path]
    by (subst create_dir_all.simps) (fastforce split: prod.splits sum.splits)
qed

lemma copy_file_wf: "fs_wf fs \<Longrightarrow> fs_wf (fst (copy_file source target fs))"
  using write_bytes_wf [of fs target "[]"] write_bytes_wf [of "fst (write_bytes target [] fs)" target]
  by (auto simp: copy_file_def split: sum.splits option.splits fnode.splits prod.splits)

lemma copy_symlink_wf: "fs_wf fs \<Longrightarrow> fs_wf (fst (copy_symlink source target fs))"
  by (auto simp: copy_symlink_def make_symlink_wf split: sum.splits fnode.splits)

lemma copy_dir_wf:
  "copy_dir_recursive fuel source target fs = Some (fs', r) \<Longrightarrow> fs_wf fs \<Longrightarrow> fs_wf fs'"
  "copy_entries fuel source target entries fs = Some (fs', r) \<Longrightarrow> fs_wf fs \<Longrightarrow> fs_wf fs'"
proof (induction fuel source target fs and fuel source target entries fs
    arbitrary: fs' r and fs' r rule: copy_dir_recursive_copy_entries.induct)
  case (2 fuel source target fs)
  then show ?case using create_dir_all_wf [of fs target] by (auto split: prod.splits sum.splits)
next
  case (4 fuel source target name n entries fs)
  let ?s = "source @ [Normal name]" and ?t = "target @ [Normal name]"
  let ?r = "case n of NDir \<Rightarrow> copy_dir_recursive fuel ?s ?t fs | NFile _ \<Rightarrow> Some (copy_file ?s ?t fs)
      | NLink _ \<Rightarrow> Some (copy_symlink ?s ?t fs) | NOther \<Rightarrow> Some (fs, Ok ())"
  obtain fs1 r1 where r: "?r = Some (fs1, r1)" using "4.prems"(1) by (auto simp: Let_def split: option.splits)
  have "fs_wf fs1"
  proof (cases n)
    case NDir
    then show ?thesis using 4 r by simp
  qed (use r "4.prems"(2) copy_file_wf [of fs ?s ?t] copy_symlink_wf [of fs ?s ?t] in auto)
  then show ?case using 4 r by (cases r1) auto
qed auto

lemma remove_wf:
  "fs_wf fs \<Longrightarrow> fs_wf (fst (unlink path fs))" "fs_wf fs \<Longrightarrow> fs_wf (fst (rmdir path fs))"
  "fs_wf fs \<Longrightarrow> fs_wf (fst (remove_dir_all path fs))"
proof -
  have leaf: "fs_wf (hm_remove p fs)" if "fs_wf fs" "node_at fs p = Some x" "x \<noteq> NDir" for p x
    using that below_missing [OF that(1), of p "[_]"] by (intro fs_wf_remove) auto
  show "fs_wf fs \<Longrightarrow> fs_wf (fst (unlink path fs))"
    using leaf by (auto simp: unlink_def split: sum.splits option.splits fnode.splits)
  show "fs_wf fs \<Longrightarrow> fs_wf (fst (rmdir path fs))"
    using no_children by (auto simp: rmdir_def split: sum.splits option.splits fnode.splits intro!: fs_wf_remove)
  show "fs_wf fs \<Longrightarrow> fs_wf (fst (remove_dir_all path fs))"
    using leaf fs_wf_prune by (auto simp: remove_dir_all_def split: sum.splits option.splits fnode.splits)
qed

text \<open>Every operation of the local file system, on every path and whether it succeeds or fails,
  keeps the file system well formed: no path is listed twice and everything listed is in a
  directory.\<close>

theorem local_fs_stays_well_formed:
  assumes "fs_wf fs"
  shows "fs_wf (fst (local_read_file path fs)) \<and> fs_wf (fst (local_write_file path contents fs)) \<and>
    fs_wf (fst (local_create_directory path create_options fs)) \<and> fs_wf (fst (local_get_metadata stamps path fs)) \<and>
    fs_wf (fst (local_read_directory path fs)) \<and> fs_wf (fst (local_remove path remove_options fs)) \<and>
    (\<forall>fs' r. local_copy fuel path destination copy_options fs = Some (fs', r) \<longrightarrow> fs_wf fs')"
proof (intro conjI allI impI)
  show "fs_wf (fst (local_read_file path fs))" "fs_wf (fst (local_get_metadata stamps path fs))"
    "fs_wf (fst (local_read_directory path fs))" "fs_wf (fst (local_write_file path contents fs))"
    "fs_wf (fst (local_create_directory path create_options fs))"
    using assms write_bytes_wf create_dir_all_wf mkdir_wf
    by (simp_all add: local_read_file_def local_get_metadata_def local_read_directory_def local_write_file_def
        local_create_directory_def split: sum.split)
  show "fs_wf (fst (local_remove path remove_options fs))"
    using assms remove_wf by (auto simp: local_remove_def split: sum.split fnode.split)
  fix fs' r assume "local_copy fuel path destination copy_options fs = Some (fs', r)"
  then show "fs_wf fs'"
    using assms copy_dir_wf(1) [of fuel "components path" "components destination" fs fs' r]
      copy_file_wf [OF assms, of "components path" "components destination"]
      copy_symlink_wf [OF assms, of "components path" "components destination"]
    by (auto simp: local_copy_def Let_def split: sum.splits fnode.splits if_splits bool.splits)
qed

section \<open>What stays in place\<close>

text \<open>Nothing of \<open>fs\<close> is missing in \<open>fs'\<close>; files may have got new contents.\<close>

definition kept :: "fsys \<Rightarrow> fsys \<Rightarrow> bool" where
  "kept fs fs' \<longleftrightarrow> (\<forall>q n. node_at fs q = Some n \<longrightarrow>
     node_at fs' q = Some n \<or> (\<exists>d d'. n = NFile d \<and> node_at fs' q = Some (NFile d')))"

lemma kept_refl [simp]: "kept fs fs"
  by (simp add: kept_def)

lemma kept_trans: "kept fs fs' \<Longrightarrow> kept fs' fs'' \<Longrightarrow> kept fs fs''"
  unfolding kept_def by (metis fnode.inject(1) option.inject)

lemma kept_same: "kept fs fs' \<Longrightarrow> node_at fs q = Some n \<Longrightarrow> \<forall>d. n \<noteq> NFile d \<Longrightarrow> node_at fs' q = Some n"
  by (auto simp: kept_def)

lemma kept_insert:
  "p \<noteq> [] \<Longrightarrow> node_at fs p = None \<or> (\<exists>d d'. node_at fs p = Some (NFile d) \<and> n = NFile d') \<Longrightarrow> kept fs (hm_insert p n fs)"
  by (auto simp: kept_def node_at_insert)

lemma walk_kept: "walk fs False links cur cs = Ok p \<Longrightarrow> kept fs fs' \<Longrightarrow> walk fs' False links cur cs = Ok p"
proof (induction fs "False" links cur cs rule: walk.induct)
  case (5 fs links cur n cs)
  then show ?case
    using 5(4) [unfolded kept_def, rule_format, of "cur @ [n]"]
    by (auto simp: Let_def split: option.splits fnode.splits nat.splits if_splits)
qed simp_all

lemma resolve_kept: "resolve fs False path = Ok p \<Longrightarrow> kept fs fs' \<Longrightarrow> resolve fs' False path = Ok p"
  unfolding resolve_def by (rule walk_kept)

lemma is_dir_iff: "is_dir fs path \<longleftrightarrow> (\<exists>d. resolve fs False path = Ok d \<and> node_at fs d = Some NDir)"
  by (auto simp: is_dir_def stat_def split: sum.splits option.splits)

lemma is_dir_kept: "is_dir fs path \<Longrightarrow> kept fs fs' \<Longrightarrow> is_dir fs' path"
  using resolve_kept kept_same unfolding is_dir_iff by blast

text \<open>The entry \<open>n\<close> of a directory that a path leads to.\<close>

lemma walk_entry:
  assumes "walk fs False links cur cs = Ok d" "node_at fs d = Some NDir" "fs_wf fs"
    and "\<forall>l. node_at fs (d @ [n]) \<noteq> Some (NLink l)"
  shows "walk fs create links cur (cs @ [Normal n]) =
    (if create \<or> node_at fs (d @ [n]) \<noteq> None then Ok (d @ [n]) else Err (io_err NotFound ''No such file or directory''))"
  using assms
proof (induction fs "False" links cur cs rule: walk.induct)
  case (1 fs links cur)
  then show ?case by (auto simp: Let_def split: option.splits fnode.splits)
next
  case (5 fs links cur m cs)
  then show ?case by (auto simp: Let_def split: option.splits fnode.splits nat.splits if_splits)
qed simp_all

lemma resolve_dir_entry:
  assumes "resolve fs False path = Ok d" "node_at fs d = Some NDir" "fs_wf fs"
    and "\<forall>l. node_at fs (d @ [n]) \<noteq> Some (NLink l)"
  shows "resolve fs create (path @ [Normal n]) =
    (if create \<or> node_at fs (d @ [n]) \<noteq> None then Ok (d @ [n]) else Err (io_err NotFound ''No such file or directory''))"
  using walk_entry [OF assms(1) [unfolded resolve_def] assms(2-4)] by (simp add: resolve_def)

lemma lstat_dir_entry:
  "resolve fs False path = Ok d \<Longrightarrow> node_at fs d = Some NDir \<Longrightarrow>
   lstat fs (path @ [Normal n]) = (case node_at fs (d @ [n]) of
     None \<Rightarrow> Err (io_err NotFound ''No such file or directory'') | Some x \<Rightarrow> Ok x)"
  by (simp add: lstat_def locate_def)

text \<open>What writing and making directories leave in place.\<close>

lemma write_bytes_kept:
  assumes "fs_wf fs" "write_bytes path data fs = (fs', r)"
  shows "kept fs fs'"
proof -
  have "fs' = fs \<or> (\<exists>p. resolve fs True path = Ok p \<and> p \<noteq> [] \<and> fs' = hm_insert p (NFile data) fs \<and>
      (node_at fs p = None \<or> (\<exists>d. node_at fs p = Some (NFile d))))"
    using assms(2) resolve_result(1) [OF assms(1), of True path]
    by (fastforce simp: write_bytes_def split: sum.splits option.splits fnode.splits)
  then show ?thesis using kept_insert by auto
qed

lemma walk_exists:
  assumes "walk fs False links cur cs = Ok p" "fs_wf fs" "node_at fs cur = Some NDir"
  shows "node_at fs p \<noteq> None"
  using assms
proof (induction fs "False" links cur cs rule: walk.induct)
  case (5 fs links cur n cs)
  then show ?case by (auto simp: Let_def split: option.splits fnode.splits nat.splits if_splits)
qed (auto simp: fs_wf_butlast)

lemma mkdir_made:
  assumes "fs_wf fs" "mkdir path fs = (fs', Ok ())"
  shows "kept fs fs' \<and> is_dir fs' path"
proof -
  obtain p where p: "locate fs path = Ok p" "node_at fs p = None" "fs' = hm_insert p NDir fs"
    using assms(2) by (auto simp: mkdir_def split: sum.splits if_splits)
  then have k: "kept fs fs'" by (cases "p = []") (auto intro: kept_insert)
  have wf: "fs_wf fs'" using mkdir_wf [OF assms(1), of path] assms(2) by simp
  have "\<exists>n rest. rev path = Normal n # rest"
    using p walk_exists [of fs MAXSYMLINKS "[]" path p] assms(1)
    by (auto simp: locate_def resolve_def split: list.splits component.splits)
  then obtain n base where path: "path = base @ [Normal n]" by (metis rev.simps(2) rev_rev_ident)
  then obtain d where d: "resolve fs False base = Ok d" "node_at fs d = Some NDir" "p = d @ [n]"
    using p(1) by (auto simp: locate_def split: sum.splits if_splits)
  have n: "node_at fs' (d @ [n]) = Some NDir" using p(3) d(3) by (simp add: node_at_insert)
  have "resolve fs' False (base @ [Normal n]) = Ok (d @ [n])"
    using resolve_dir_entry [OF resolve_kept [OF d(1) k] _ wf] kept_same [OF k d(2)] n by simp
  then show ?thesis using k n path by (auto simp: is_dir_iff)
qed

lemma create_dir_all_made:
  assumes "fs_wf fs" "create_dir_all path fs = (fs', Ok ())"
  shows "kept fs fs' \<and> is_dir fs' path"
  using assms
proof (induction path fs arbitrary: fs' rule: create_dir_all.induct)
  case (1 path fs)
  show ?case
  proof (cases "path = []")
    case True
    then show ?thesis using 1(3) by (subst (asm) create_dir_all.simps) (simp add: is_dir_iff resolve_def)
  next
    case False
    obtain fs1 r1 where m1: "mkdir path fs = (fs1, r1)" by (cases "mkdir path fs")
    show ?thesis
    proof (cases r1)
      case (Inr u)
      then show ?thesis using 1(2,3) False m1 mkdir_made [of fs path fs1] by (subst (asm) create_dir_all.simps) simp
    next
      case (Inl e)
      show ?thesis
      proof (cases "io_kind e = NotFound")
        case False
        then show ?thesis using 1(3) Inl m1 \<open>path \<noteq> []\<close>
          by (subst (asm) create_dir_all.simps) (auto split: if_splits)
      next
        case True
        obtain fs2 r2 where c: "create_dir_all (butlast path) fs = (fs2, r2)" by (cases "create_dir_all (butlast path) fs")
        have r2: "r2 = Ok ()" and f: "fs' = fs2 \<and> is_dir fs2 path \<or> mkdir path fs2 = (fs', Ok ())"
          using 1(3) Inl m1 \<open>path \<noteq> []\<close> True c
          by (subst (asm) create_dir_all.simps; auto split: if_splits sum.splits prod.splits)+
        have "kept fs fs2" using "1.IH" [OF \<open>path \<noteq> []\<close> m1 [symmetric] Inl] 1(2) True c r2 by auto
        moreover have "fs_wf fs2" using create_dir_all_wf [OF 1(2), of "butlast path"] c by simp
        ultimately show ?thesis using f mkdir_made [of fs2 path fs'] kept_trans by blast
      qed
    qed
  qed
qed

section \<open>Removal and refusals\<close>

lemma prune_exact:
  assumes "fs_wf fs" "p \<noteq> []" "\<And>r. r \<noteq> [] \<Longrightarrow> node_at fs (p @ r) = None"
  shows "node_at (hm_remove p fs) q = (if prefix p q then None else node_at fs q)"
proof (cases "prefix p q")
  case True
  then obtain r where "q = p @ r" by (auto simp: prefix_def)
  then show ?thesis using assms(3) [of r] True by (auto simp: node_at_remove [OF assms(2)])
qed (auto simp: node_at_remove [OF assms(2)])

text \<open>Removing a path removes exactly it: when the removal of something that exists succeeds, the
  entry and everything below it are gone and nothing else has changed; a missing path is an error
  unless the removal is forced, and then nothing changes.\<close>

theorem local_remove_exact:
  assumes "fs_wf fs"
  shows "(\<forall>n fs'. lstat fs (components path) = Ok n \<and> local_remove path options fs = (fs', Ok ()) \<longrightarrow>
      (\<exists>p. locate fs (components path) = Ok p \<and> (\<forall>q. node_at fs' q = (if prefix p q then None else node_at fs q)))) \<and>
    (\<forall>e. lstat fs (components path) = Err e \<longrightarrow>
       local_remove path options fs = (fs, if io_kind e = NotFound \<and> ro_force options then Ok () else Err e))"
proof (intro conjI allI impI)
  fix n fs' assume a: "lstat fs (components path) = Ok n \<and> local_remove path options fs = (fs', Ok ())"
  obtain p where p: "locate fs (components path) = Ok p" "node_at fs p = Some n"
    using a by (auto simp: lstat_def split: sum.splits option.splits)
  have leaf: "node_at (hm_remove p fs) q = (if prefix p q then None else node_at fs q)" if "n \<noteq> NDir" for q
    using that p(2) below_missing [OF assms, of p] by (intro prune_exact [OF assms]) auto
  have empty: "node_at (hm_remove p fs) q = (if prefix p q then None else node_at fs q)"
    if "children fs p = []" "p \<noteq> []" for q
  proof (rule prune_exact [OF assms that(2)])
    fix r :: "string list" assume "r \<noteq> []"
    then obtain x r' where "r = x # r'" by (cases r) auto
    then show "node_at fs (p @ r) = None"
      using no_children [OF assms that(1), of x] below_missing [OF assms, of "p @ [x]" r'] by (cases "r' = []") auto
  qed
  have "\<forall>q. node_at fs' q = (if prefix p q then None else node_at fs q)"
  proof (cases "n = NDir")
    case True
    then show ?thesis
      using a p empty node_at_prune [OF assms, of p]
      by (auto simp: local_remove_def remove_dir_all_def rmdir_def split: if_splits)
  next
    case False
    then have "fs' = hm_remove p fs"
      using a p by (auto simp: local_remove_def unlink_def split: fnode.splits)
    then show ?thesis using leaf False by simp
  qed
  then show "\<exists>p. locate fs (components path) = Ok p \<and> (\<forall>q. node_at fs' q = (if prefix p q then None else node_at fs q))"
    using p(1) by blast
next
  fix e assume "lstat fs (components path) = Err e"
  then show "local_remove path options fs = (fs, if io_kind e = NotFound \<and> ro_force options then Ok () else Err e)"
    by (simp add: local_remove_def)
qed

lemma walk_error_kind: "walk fs create links cur cs = Err e \<Longrightarrow> io_kind e \<noteq> InvalidInput"
proof (induction fs create links cur cs rule: walk.induct)
  case (5 fs create links cur n cs)
  then show ?case by (auto simp: Let_def io_err_def split: option.splits fnode.splits nat.splits if_splits)
qed auto

lemma stat_error_kind: "stat fs path = Err e \<Longrightarrow> io_kind e \<noteq> InvalidInput"
  using walk_error_kind by (auto simp: stat_def resolve_def io_err_def split: sum.splits option.splits)

lemma lstat_error_kind: "lstat fs path = Err e \<Longrightarrow> io_kind e \<noteq> InvalidInput"
proof -
  have "io_kind e \<noteq> InvalidInput" if "locate fs path = Err e" for e
    using that walk_error_kind
    by (auto simp: locate_def resolve_def io_err_def split: list.splits component.splits sum.splits if_splits)
  then show "lstat fs path = Err e \<Longrightarrow> io_kind e \<noteq> InvalidInput"
    by (auto simp: lstat_def io_err_def split: sum.splits option.splits)
qed


text \<open>\<^verbatim>\<open>std::fs::copy\<close> truncates a file that is copied onto itself, and \<^verbatim>\<open>fs/copy\<close> compares
  source and destination only for directories.\<close>

lemma copy_onto_itself_truncates:
  assumes "fs_wf fs" "components path = abs_path (p @ [n])" "real_dir fs p" "node_at fs (p @ [n]) = Some (NFile data)"
  shows "\<exists>fs'. local_copy fuel path path options fs = Some (fs', Ok ()) \<and> node_at fs' (p @ [n]) = Some (NFile [])"
proof -
  obtain fs1 where w: "write_bytes (abs_path (p @ [n])) [] fs = (fs1, Ok ())" "added fs (p @ [n]) (NFile []) fs1"
    using write_bytes_new [OF assms(1,3)] assms(4) by blast
  have "real_dir fs1 p" using assms(3,4) w(2) by (auto simp: real_dir_def added_def)
  then obtain fs2 where w2: "write_bytes (abs_path (p @ [n])) [] fs1 = (fs2, Ok ())" "added fs1 (p @ [n]) (NFile []) fs2"
    using write_bytes_new [of fs1 p n "[]"] w(2) unfolding added_def by auto
  have "lstat fs (abs_path (p @ [n])) = Ok (NFile data)" by (simp add: lstat_def locate_entry [OF assms(3)] assms(4))
  moreover have "resolve fs False (abs_path (p @ [n])) = Ok (p @ [n])" using resolve_entry(1) [OF assms(3,4)] by simp
  ultimately have "local_copy fuel path path options fs = Some (fs2, Ok ())"
    using w(2) by (simp add: local_copy_def assms(2,4) copy_file_def w(1) w2(1) added_def)
  then show ?thesis using w2(2) by (simp add: added_def)
qed

text \<open>One dangling link makes its directory unreadable: the listing follows every entry and fails with
  the first one that leads nowhere.\<close>

lemma dangling_link_hides_directory:
  assumes "read_dir fs (components path) = Ok entries" "(name, n) \<in> set entries"
    and "stat fs (components path @ [Normal name]) = Err e"
  shows "\<exists>e. snd (local_read_directory path fs) = Err e"
proof -
  have "\<exists>e. directory_entries fs (components path) entries = Err e"
    using assms(2,3) by (induction entries) (auto split: sum.splits)
  then show ?thesis using assms(1) by (simp add: local_read_directory_def)
qed

section \<open>Witnesses\<close>

definition sample_tree_fs :: fsys where
  "sample_tree_fs =
     [([''src''], NDir), ([''src'', ''a''], NFile [1]), ([''src'', ''d''], NDir), ([''src'', ''d'', ''l''], NLink ''../a''),
      ([''src'', ''p''], NOther), ([''tmp''], NDir)]"

lemma sample_tree_wf: "fs_wf sample_tree_fs"
  by (simp add: fs_wf_def sample_tree_fs_def hm_wf_def hm_keys_def node_at_def hm_get_def)

lemma sample_tree_paths:
  "components ''/src'' = abs_path [''src'']" "components ''/tmp/out'' = abs_path ([''tmp''] @ [''out''])"
  "components ''/src/d/l'' = abs_path [''src'', ''d'', ''l'']" "components ''/tmp'' = abs_path [''tmp'']"
  "components ''../a'' = [ParentDir, Normal ''a'']"
  by code_simp+

lemma sample_tree_dirs: "real_dir sample_tree_fs [''src'']" "real_dir sample_tree_fs [''tmp'']"
  "node_at sample_tree_fs ([''tmp''] @ [''out'']) = None"
  by (auto simp: real_dir_def prefix_Cons node_at_def sample_tree_fs_def hm_get_def)

lemma sample_tree_nodes:
  "node_at sample_tree_fs [''src''] = Some NDir" "node_at sample_tree_fs [''src'', ''a''] = Some (NFile [1])"
  "node_at sample_tree_fs [''src'', ''d''] = Some NDir" "node_at sample_tree_fs [''src'', ''d'', ''l''] = Some (NLink ''../a'')"
  "node_at sample_tree_fs [''src'', ''p''] = Some NOther" "node_at sample_tree_fs [''tmp''] = Some NDir"
  by (simp_all add: node_at_def sample_tree_fs_def hm_get_def)

theorem local_copy_directory_witness:
  "\<exists>fs'. local_copy 4 ''/src'' ''/tmp/out'' \<lparr>co_recursive = True\<rparr> sample_tree_fs = Some (fs', Ok ()) \<and>
     node_at fs' [''tmp'', ''out'', ''a''] = Some (NFile [1]) \<and> node_at fs' [''tmp'', ''out'', ''d'', ''l''] = Some (NLink ''../a'') \<and>
     node_at fs' [''tmp'', ''out'', ''p''] = None"
proof -
  have k: "\<forall>p \<in> set (hm_keys sample_tree_fs). length p < 4" "\<not> prefix [''src''] ([''tmp''] @ [''out''])"
    by (simp_all add: hm_keys_def sample_tree_fs_def)
  obtain fs' where f: "local_copy 4 ''/src'' ''/tmp/out'' \<lparr>co_recursive = True\<rparr> sample_tree_fs = Some (fs', Ok ())"
    "\<forall>p. node_at fs' ([''tmp''] @ ''out'' # p) =
       (if node_at sample_tree_fs ([''src''] @ p) = Some NOther then None else node_at sample_tree_fs ([''src''] @ p))"
    using local_copy_directory [OF sample_tree_wf sample_tree_paths(1,2) sample_tree_dirs _ k(1), of "\<lparr>co_recursive = True\<rparr>"] k(2)
    by auto
  show ?thesis
    using f(1) f(2) [rule_format, of "[''a'']"] f(2) [rule_format, of "[''d'', ''l'']"] f(2) [rule_format, of "[''p'']"]
    by (simp add: sample_tree_nodes)
qed

theorem local_write_read_roundtrip_witness:
  "\<exists>fs'. local_write_file ''/src/d/l'' [7, 8] sample_tree_fs = (fs', Ok ()) \<and> local_read_file ''/src/d/l'' fs' = (fs', Ok [7, 8])"
proof -
  have r: "resolve sample_tree_fs c (components ''/src/d/l'') = Ok [''src'', ''a'']" for c
    unfolding sample_tree_paths
    by (simp add: resolve_def abs_path_def MAXSYMLINKS_def sample_tree_nodes Let_def sample_tree_paths eval_nat_numeral)
  obtain fs' where w: "local_write_file ''/src/d/l'' [7, 8] sample_tree_fs = (fs', Ok ())"
    by (simp add: local_write_file_def write_bytes_def r sample_tree_nodes)
  have "stat sample_tree_fs (components ''/src/d/l'') \<noteq> Ok NOther"
    by (simp add: stat_def r sample_tree_nodes)
  then show ?thesis
    using local_write_read_roundtrip [OF sample_tree_wf w] w by (simp add: MAX_READ_FILE_BYTES_def)
qed

theorem local_fs_stays_well_formed_witness:
  "fs_wf (fst (local_remove ''/src/d'' \<lparr>ro_recursive = True, ro_force = False\<rparr> sample_tree_fs))"
  using local_fs_stays_well_formed [OF sample_tree_wf, of "''/src/d''"] by blast

theorem local_remove_exact_witness:
  "\<exists>fs'. local_remove ''/src'' \<lparr>ro_recursive = True, ro_force = False\<rparr> sample_tree_fs = (fs', Ok ()) \<and>
     node_at fs' [''src'', ''a''] = None \<and> node_at fs' [''tmp''] = Some NDir"
proof -
  have l: "locate sample_tree_fs (components ''/src'') = Ok [''src'']"
    unfolding sample_tree_paths by (simp add: locate_def abs_path_def resolve_def)
  have st: "lstat sample_tree_fs (components ''/src'') = Ok NDir"
    by (simp add: lstat_def l sample_tree_nodes)
  obtain fs' where r: "local_remove ''/src'' \<lparr>ro_recursive = True, ro_force = False\<rparr> sample_tree_fs = (fs', Ok ())"
    by (simp add: local_remove_def st remove_dir_all_def l sample_tree_nodes)
  then have "\<forall>q. node_at fs' q = (if prefix [''src''] q then None else node_at sample_tree_fs q)"
    using local_remove_exact [OF sample_tree_wf, of "''/src''" "\<lparr>ro_recursive = True, ro_force = False\<rparr>"] st l by auto
  then show ?thesis using r by (simp add: sample_tree_nodes)
qed


end
