(* ===== verification/Skills_Fuse.thy ===== *)
theory Skills_Fuse
  imports Text Values
begin

text \<open>
  The skills file system of the agent, \<^verbatim>\<open>nexal-agent/src/fs/skills.rs\<close>: the tree of
  inodes built from the gateway's listing, and the FUSE operations on it.  The request to the
  gateway and the parsing of its answer are one argument, \<open>fetch\<close>; what the kernel makes of
  the replies is not modelled.
\<close>

section \<open>The tree\<close>

datatype FsNode = FDir "nat list" | FFile string nat

record FsTree =
  ft_nodes :: "(nat, FsNode) hashmap"
  ft_path_to_inode :: "(string, nat) hashmap"
  ft_next_inode :: nat

definition tree_new :: FsTree where
  "tree_new = \<lparr>ft_nodes = [(1, FDir [])], ft_path_to_inode = [], ft_next_inode = 2\<rparr>"

record SkillFileInfo =
  fi_path :: string
  fi_size :: nat

record FuseSkill =
  fk_name :: string
  fk_files :: "SkillFileInfo list"

text \<open>A new inode with its node.\<close>

definition new_node :: "FsNode \<Rightarrow> FsTree \<Rightarrow> FsTree \<times> nat" where
  "new_node n t =
     (t\<lparr>ft_nodes := hm_insert (ft_next_inode t) n (ft_nodes t), ft_next_inode := ft_next_inode t + 1\<rparr>, ft_next_inode t)"

definition set_path :: "string \<Rightarrow> nat \<Rightarrow> FsTree \<Rightarrow> FsTree" where
  "set_path path ino t = t\<lparr>ft_path_to_inode := hm_insert path ino (ft_path_to_inode t)\<rparr>"

text \<open>\<^verbatim>\<open>get_mut(...).unwrap()\<close> panics on an unknown inode; a file has no children to add to.\<close>

definition push_child :: "nat \<Rightarrow> nat \<Rightarrow> FsTree \<Rightarrow> FsTree run" where
  "push_child parent child t =
     (case hm_get (ft_nodes t) parent of
        None \<Rightarrow> Panics
      | Some (FDir children) \<Rightarrow> Returns (t\<lparr>ft_nodes := hm_insert parent (FDir (children @ [child])) (ft_nodes t)\<rparr>)
      | Some (FFile _ _) \<Rightarrow> Returns t)"

fun join_slash :: "string list \<Rightarrow> string" where
  "join_slash [] = []"
| "join_slash [x] = x"
| "join_slash (x # y # xs) = x @ ''/'' @ join_slash (y # xs)"

text \<open>The loop over the parts of a file's path; \<open>before\<close> holds the parts already passed.\<close>

fun add_parts :: "string \<Rightarrow> SkillFileInfo \<Rightarrow> string list \<Rightarrow> string list \<Rightarrow> nat \<Rightarrow> FsTree \<Rightarrow> FsTree run" where
  "add_parts skill f before [] parent t = Returns t"
| "add_parts skill f before [part] parent t =
     (let rel_path = skill @ ''/'' @ fi_path f;
          (t, ino) = new_node (FFile rel_path (fi_size f)) t
      in push_child parent ino (set_path rel_path ino t))"
| "add_parts skill f before (part # next # parts) parent t =
     (let dir_path = skill @ ''/'' @ join_slash (before @ [part])
      in case hm_get (ft_path_to_inode t) dir_path of
           Some ino \<Rightarrow> add_parts skill f (before @ [part]) (next # parts) ino t
         | None \<Rightarrow>
             (case new_node (FDir []) t of
                (t, ino) \<Rightarrow>
                  (case push_child parent ino (set_path dir_path ino t) of
                     Panics \<Rightarrow> Panics
                   | Returns t \<Rightarrow> add_parts skill f (before @ [part]) (next # parts) ino t)))"

fun add_files :: "string \<Rightarrow> SkillFileInfo list \<Rightarrow> nat \<Rightarrow> FsTree \<Rightarrow> FsTree run" where
  "add_files skill [] parent t = Returns t"
| "add_files skill (f # fs) parent t =
     (case add_parts skill f [] (split_on (CHR ''/'') (fi_path f)) parent t of
        Panics \<Rightarrow> Panics
      | Returns t \<Rightarrow> add_files skill fs parent t)"

definition add_skill :: "FuseSkill \<Rightarrow> FsTree \<Rightarrow> (FsTree \<times> nat) run" where
  "add_skill sk t =
     (case new_node (FDir []) t of
        (t, skill_inode) \<Rightarrow>
          (case add_files (fk_name sk) (fk_files sk) skill_inode t of
             Panics \<Rightarrow> Panics
           | Returns t \<Rightarrow>
               let rel_path = fk_name sk @ ''/SKILL.md'';
                   (t, md) = new_node (FFile rel_path 0) t
               in (case push_child skill_inode md (set_path rel_path md t) of
                     Panics \<Rightarrow> Panics
                   | Returns t \<Rightarrow> Returns (set_path (fk_name sk) skill_inode t, skill_inode))))"

fun add_skills :: "FuseSkill list \<Rightarrow> nat list \<Rightarrow> FsTree \<Rightarrow> (FsTree \<times> nat list) run" where
  "add_skills [] root_children t = Returns (t, root_children)"
| "add_skills (sk # sks) root_children t =
     (case add_skill sk t of
        Panics \<Rightarrow> Panics
      | Returns (t, ino) \<Rightarrow> add_skills sks (root_children @ [ino]) t)"

definition mount_tree :: "FuseSkill list \<Rightarrow> FsTree run" where
  "mount_tree skills =
     (case add_skills skills [] tree_new of
        Panics \<Rightarrow> Panics
      | Returns (t, root_children) \<Rightarrow>
          (case hm_get (ft_nodes t) 1 of
             None \<Rightarrow> Panics
           | Some (FDir _) \<Rightarrow> Returns (t\<lparr>ft_nodes := hm_insert 1 (FDir root_children) (ft_nodes t)\<rparr>)
           | Some (FFile _ _) \<Rightarrow> Returns t))"

section \<open>Operations\<close>

definition ENOENT :: int where "ENOENT = 2"
definition EIO :: int where "EIO = 5"
definition ENOTDIR :: int where "ENOTDIR = 20"
definition EINVAL :: int where "EINVAL = 22"

datatype FileType = Directory | RegularFile

record FileAttr =
  fa_ino :: nat
  fa_size :: nat
  fa_blocks :: nat
  fa_kind :: FileType
  fa_perm :: nat
  fa_nlink :: nat

definition dir_attr :: "nat \<Rightarrow> FileAttr" where
  "dir_attr ino = \<lparr>fa_ino = ino, fa_size = 0, fa_blocks = 0, fa_kind = Directory, fa_perm = 493, fa_nlink = 2\<rparr>"

definition file_attr :: "nat \<Rightarrow> nat \<Rightarrow> FileAttr" where
  "file_attr ino sz = \<lparr>fa_ino = ino, fa_size = sz, fa_blocks = (sz + 511) div 512, fa_kind = RegularFile,
     fa_perm = 292, fa_nlink = 1\<rparr>"

definition basename :: "string \<Rightarrow> string" where
  "basename path = last (split_on (CHR ''/'') path)"

definition path_of_inode :: "FsTree \<Rightarrow> nat \<Rightarrow> string option" where
  "path_of_inode t ino = map_option fst (find (\<lambda>(_, i). i = ino) (ft_path_to_inode t))"

definition child_name :: "FsTree \<Rightarrow> nat \<Rightarrow> FsNode \<Rightarrow> string option" where
  "child_name t ino n =
     (case n of FDir _ \<Rightarrow> map_option basename (path_of_inode t ino) | FFile rel_path _ \<Rightarrow> Some (basename rel_path))"

fun find_child :: "FsTree \<Rightarrow> string \<Rightarrow> nat list \<Rightarrow> (int, FileAttr) result" where
  "find_child t name [] = Err ENOENT"
| "find_child t name (ino # children) =
     (case hm_get (ft_nodes t) ino of
        None \<Rightarrow> find_child t name children
      | Some n \<Rightarrow>
          if child_name t ino n = Some name
          then Ok (case n of FDir _ \<Rightarrow> dir_attr ino | FFile _ sz \<Rightarrow> file_attr ino sz)
          else find_child t name children)"

definition fuse_lookup :: "FsTree \<Rightarrow> nat \<Rightarrow> string \<Rightarrow> (int, FileAttr) result" where
  "fuse_lookup t parent name =
     (case hm_get (ft_nodes t) parent of Some (FDir children) \<Rightarrow> find_child t name children | _ \<Rightarrow> Err ENOENT)"

type_synonym file_cache = "(string, byte list) hashmap"

definition fetch_file ::
  "(string \<Rightarrow> (string, byte list) result) \<Rightarrow> string \<Rightarrow> file_cache \<Rightarrow> file_cache \<times> (int, byte list) result" where
  "fetch_file fetch rel_path cache =
     (case hm_get cache rel_path of
        Some data \<Rightarrow> (cache, Ok data)
      | None \<Rightarrow>
          (case fetch rel_path of
             Inl _ \<Rightarrow> (cache, Err EIO)
           | Inr data \<Rightarrow> (hm_insert rel_path data cache, Ok data)))"

definition fuse_getattr ::
  "(string \<Rightarrow> (string, byte list) result) \<Rightarrow> FsTree \<Rightarrow> nat \<Rightarrow> file_cache \<Rightarrow> file_cache \<times> (int, FileAttr) result" where
  "fuse_getattr fetch t ino cache =
     (if ino = 1 then (cache, Ok (dir_attr 1))
      else case hm_get (ft_nodes t) ino of
        None \<Rightarrow> (cache, Err ENOENT)
      | Some (FDir _) \<Rightarrow> (cache, Ok (dir_attr ino))
      | Some (FFile rel_path sz) \<Rightarrow>
          if sz = 0 then
            (case fetch_file fetch rel_path cache of
               (cache, Inr data) \<Rightarrow> (cache, Ok (file_attr ino (length data)))
             | (cache, Inl _) \<Rightarrow> (cache, Ok (file_attr ino 0)))
          else (cache, Ok (file_attr ino sz)))"

definition fuse_read ::
  "(string \<Rightarrow> (string, byte list) result) \<Rightarrow> FsTree \<Rightarrow> nat \<Rightarrow> int \<Rightarrow> nat \<Rightarrow> file_cache \<Rightarrow>
     file_cache \<times> (int, byte list) result" where
  "fuse_read fetch t ino offset sz cache =
     (case hm_get (ft_nodes t) ino of
        Some (FFile rel_path _) \<Rightarrow>
          (case fetch_file fetch rel_path cache of
             (cache, Inl e) \<Rightarrow> (cache, Err e)
           | (cache, Inr data) \<Rightarrow>
               let start = nat (max offset 0)
               in if length data \<le> start then (cache, Ok [])
                  else let end' = min (start + sz) (length data)
                       in (cache, Ok (take (end' - start) (drop start data))))
      | _ \<Rightarrow> (cache, Err EINVAL))"

definition readdir_entry :: "FsTree \<Rightarrow> nat \<Rightarrow> (nat \<times> FileType \<times> string) option" where
  "readdir_entry t ino =
     (case hm_get (ft_nodes t) ino of
        None \<Rightarrow> None
      | Some (FDir _) \<Rightarrow>
          Some (ino, Directory,
            case path_of_inode t ino of Some path \<Rightarrow> basename path | None \<Rightarrow> ''dir-'' @ dec ino)
      | Some (FFile rel_path _) \<Rightarrow> Some (ino, RegularFile, basename rel_path))"

definition dir_entries :: "FsTree \<Rightarrow> nat \<Rightarrow> nat list \<Rightarrow> (nat \<times> FileType \<times> string) list" where
  "dir_entries t ino children =
     (ino, Directory, ''.'') # (ino, Directory, ''..'') # List.map_filter (readdir_entry t) children"

text \<open>\<open>reply.add\<close> refuses an entry that does not fit: \<open>room\<close> entries fit into a reply.  Each
  entry carries the offset from which the next call goes on.  A negative offset becomes a huge
  unsigned one and skips everything.\<close>

definition skip_count :: "int \<Rightarrow> nat \<Rightarrow> nat" where
  "skip_count offset n = (if offset < 0 then n else nat offset)"

definition fuse_readdir ::
  "FsTree \<Rightarrow> nat \<Rightarrow> int \<Rightarrow> nat \<Rightarrow> (int, (nat \<times> int \<times> FileType \<times> string) list) result" where
  "fuse_readdir t ino offset room =
     (case hm_get (ft_nodes t) ino of
        Some (FDir children) \<Rightarrow>
          let entries = dir_entries t ino children
          in Ok (take room (drop (skip_count offset (length entries))
               (map (\<lambda>(i, ino, kind, name). (ino, int (i + 1), kind, name)) (zip [0..<length entries] entries))))
      | _ \<Rightarrow> Err ENOTDIR)"

section \<open>The tree is sound\<close>

text \<open>What the listing announces: the files of each skill with their sizes, and its
  \<^verbatim>\<open>SKILL.md\<close>.\<close>

definition announced :: "FuseSkill list \<Rightarrow> (string \<times> nat) set" where
  "announced skills =
     (\<Union>sk \<in> set skills. insert (fk_name sk @ ''/SKILL.md'', 0)
        ((\<lambda>f. (fk_name sk @ ''/'' @ fi_path f, fi_size f)) ` set (fk_files sk)))"

definition is_child :: "FsTree \<Rightarrow> nat \<Rightarrow> nat \<Rightarrow> bool" where
  "is_child t parent child \<longleftrightarrow> (\<exists>children. hm_get (ft_nodes t) parent = Some (FDir children) \<and> child \<in> set children)"

definition tree_inv :: "(string \<times> nat) set \<Rightarrow> FsTree \<Rightarrow> bool" where
  "tree_inv ok t \<longleftrightarrow> (\<exists>cs. hm_get (ft_nodes t) 1 = Some (FDir cs)) \<and> 1 < ft_next_inode t \<and>
     (\<forall>ino n. hm_get (ft_nodes t) ino = Some n \<longrightarrow> ino < ft_next_inode t) \<and>
     (\<forall>path ino. hm_get (ft_path_to_inode t) path = Some ino \<longrightarrow> ino \<in> set (hm_keys (ft_nodes t))) \<and>
     (\<forall>p c. is_child t p c \<longrightarrow> p < c \<and> c \<in> set (hm_keys (ft_nodes t))) \<and>
     (\<forall>p q c. is_child t p c \<longrightarrow> is_child t q c \<longrightarrow> p = q) \<and>
     (\<forall>p cs. hm_get (ft_nodes t) p = Some (FDir cs) \<longrightarrow> distinct cs) \<and>
     (\<forall>ino rel sz. hm_get (ft_nodes t) ino = Some (FFile rel sz) \<longrightarrow> (rel, sz) \<in> ok)"

lemma key_get: "ino \<in> set (hm_keys m) \<longleftrightarrow> hm_get m ino \<noteq> None"
  by (simp add: hm_get_None_iff)

lemma inode_below: "tree_inv ok t \<Longrightarrow> ino \<in> set (hm_keys (ft_nodes t)) \<Longrightarrow> ino < ft_next_inode t"
  unfolding tree_inv_def using hm_get_Some_iff_key [of "ft_nodes t" ino] by blast

lemma tree_inv_new: "tree_inv ok tree_new"
  by (auto simp: tree_inv_def tree_new_def hm_get_def hm_keys_def is_child_def split: if_splits)

lemma tree_inv_set_path: "tree_inv ok t \<Longrightarrow> ino \<in> set (hm_keys (ft_nodes t)) \<Longrightarrow> tree_inv ok (set_path path ino t)"
  by (auto simp: tree_inv_def set_path_def is_child_def split: if_splits)

text \<open>A fresh inode: it has a node and nobody's child is it.\<close>

lemma tree_inv_new_node:
  assumes "tree_inv ok t" "new_node n t = (t', ino)" "n = FDir [] \<or> (\<exists>rel sz. n = FFile rel sz \<and> (rel, sz) \<in> ok)"
  shows "tree_inv ok t'" "hm_get (ft_nodes t') ino = Some n" "ino = ft_next_inode t"
    "\<forall>p. \<not> is_child t' p ino" "\<forall>p m. hm_get (ft_nodes t) p = Some m \<longrightarrow> hm_get (ft_nodes t') p = Some m"
    "ft_path_to_inode t' = ft_path_to_inode t"
proof -
  have t': "ft_nodes t' = hm_insert ino n (ft_nodes t)" "ft_next_inode t' = Suc ino" "ino = ft_next_inode t"
    "ft_path_to_inode t' = ft_path_to_inode t"
    using assms(2) by (auto simp: new_node_def)
  have low: "p < ino" if "hm_get (ft_nodes t) p = Some m" for p m using assms(1) that t'(3) by (auto simp: tree_inv_def)
  have kids: "is_child t' p c \<longleftrightarrow> is_child t p c" for p c
  proof -
    have "hm_get (ft_nodes t) ino = None" using low [of ino] by (cases "hm_get (ft_nodes t) ino") auto
    then show ?thesis using assms(3) by (auto simp: is_child_def t'(1))
  qed
  have below: "c < ino" if "is_child t p c" for p c
    using assms(1) that low unfolding tree_inv_def key_get by blast
  show "hm_get (ft_nodes t') ino = Some n" "ino = ft_next_inode t" "ft_path_to_inode t' = ft_path_to_inode t"
    by (simp_all add: t')
  show "\<forall>p m. hm_get (ft_nodes t) p = Some m \<longrightarrow> hm_get (ft_nodes t') p = Some m" using low by (auto simp: t'(1))
  show "\<forall>p. \<not> is_child t' p ino" using kids below by blast
  show "tree_inv ok t'"
    using assms(1,3) low t'(3) unfolding tree_inv_def kids
    by (auto simp: t' key_get hm_insert_keys less_Suc_eq split: if_splits)
qed

lemma tree_inv_push:
  assumes "tree_inv ok t" "parent \<in> set (hm_keys (ft_nodes t))" "child \<in> set (hm_keys (ft_nodes t))" "parent < child"
    and "\<forall>p. \<not> is_child t p child"
  shows "\<exists>t'. push_child parent child t = Returns t' \<and> tree_inv ok t' \<and>
    set (hm_keys (ft_nodes t')) = set (hm_keys (ft_nodes t)) \<and> ft_path_to_inode t' = ft_path_to_inode t"
proof -
  obtain n where n: "hm_get (ft_nodes t) parent = Some n" using assms(2) hm_get_Some_iff_key by metis
  show ?thesis
  proof (cases n)
    case (FDir cs)
    let ?t = "t\<lparr>ft_nodes := hm_insert parent (FDir (cs @ [child])) (ft_nodes t)\<rparr>"
    have kids: "is_child ?t p c \<longleftrightarrow> is_child t p c \<or> p = parent \<and> c = child" for p c
      using n FDir by (auto simp: is_child_def)
    have keys: "set (hm_keys (ft_nodes ?t)) = set (hm_keys (ft_nodes t))" using assms(2) by (auto simp: hm_insert_keys)
    have "child \<notin> set cs" using assms(5) n FDir by (auto simp: is_child_def)
    then have "tree_inv ok ?t"
      using assms n FDir unfolding tree_inv_def kids keys by (auto split: if_splits)
    then show ?thesis using keys n FDir by (simp add: push_child_def)
  qed (use n assms(1) in \<open>auto simp: push_child_def\<close>)
qed

definition steps_ok :: "(string \<times> nat) set \<Rightarrow> FsTree \<Rightarrow> FsTree \<Rightarrow> bool" where
  "steps_ok ok t t' \<longleftrightarrow> tree_inv ok t' \<and> set (hm_keys (ft_nodes t)) \<subseteq> set (hm_keys (ft_nodes t')) \<and> ft_next_inode t \<le> ft_next_inode t' \<and>
     (\<forall>p c. is_child t' p c \<longrightarrow> is_child t p c \<or> ft_next_inode t \<le> c)"

text \<open>Creating a node and hanging it under an existing one never panics.\<close>

lemma add_child_ok:
  assumes "tree_inv ok t" "parent \<in> set (hm_keys (ft_nodes t))" "new_node n t = (t1, ino)"
    and "n = FDir [] \<or> (\<exists>rel sz. n = FFile rel sz \<and> (rel, sz) \<in> ok)"
  shows "\<exists>t'. push_child parent ino (set_path path ino t1) = Returns t' \<and> steps_ok ok t t' \<and>
    ino \<in> set (hm_keys (ft_nodes t'))"
proof -
  note new = tree_inv_new_node [OF assms(1,3,4)]
  let ?t = "set_path path ino t1"
  have nodes: "ft_nodes ?t = ft_nodes t1" "ft_next_inode ?t = ft_next_inode t1" by (simp_all add: set_path_def)
  have keys: "set (hm_keys (ft_nodes t1)) = insert ino (set (hm_keys (ft_nodes t)))" "ft_next_inode t1 = Suc ino"
    using assms(3) by (auto simp: new_node_def hm_insert_keys)
  have "tree_inv ok ?t" using tree_inv_set_path [OF new(1)] keys by simp
  moreover have "parent < ino" using inode_below [OF assms(1,2)] new(3) by simp
  moreover have "\<forall>p. \<not> is_child ?t p ino" using new(4) by (simp add: is_child_def nodes)
  ultimately obtain t' where t': "push_child parent ino ?t = Returns t'" "tree_inv ok t'"
    "set (hm_keys (ft_nodes t')) = set (hm_keys (ft_nodes ?t))"
    using tree_inv_push [of ok ?t parent ino] assms(2) keys nodes by auto
  moreover have "ft_next_inode t' = Suc ino"
    using t'(1) keys(2) nodes by (auto simp: push_child_def split: option.splits FsNode.splits)
  moreover have "is_child t p c \<or> c = ino" if "is_child t' p c" for p c
  proof -
    have "is_child t1 p c \<or> c = ino"
      using that t'(1) nodes by (auto simp: is_child_def push_child_def split: option.splits FsNode.splits if_splits)
    then show ?thesis using assms(3,4) by (auto simp: is_child_def new_node_def split: if_splits)
  qed
  ultimately show ?thesis using keys nodes new(3) by (auto simp: steps_ok_def)
qed

lemma steps_ok_trans: "steps_ok ok t t' \<Longrightarrow> steps_ok ok t' t'' \<Longrightarrow> steps_ok ok t t''"
  unfolding steps_ok_def by (meson order_trans)

lemma add_parts_ok:
  "\<lbrakk>tree_inv ok t; parent \<in> set (hm_keys (ft_nodes t)); (skill @ ''/'' @ fi_path f, fi_size f) \<in> ok\<rbrakk> \<Longrightarrow>
     \<exists>t'. add_parts skill f before parts parent t = Returns t' \<and> steps_ok ok t t'"
proof (induction skill f before parts parent t rule: add_parts.induct)
  case (2 skill f before part parent t)
  obtain t1 ino where new: "new_node (FFile (skill @ ''/'' @ fi_path f) (fi_size f)) t = (t1, ino)" by force
  from add_child_ok [OF "2.prems"(1,2) new, of "skill @ ''/'' @ fi_path f"] "2.prems"(3) new
  show ?case by (auto simp: Let_def)
next
  case (3 skill f before part nxt parts parent t)
  let ?dir = "skill @ ''/'' @ join_slash (before @ [part])"
  show ?case
  proof (cases "hm_get (ft_path_to_inode t) ?dir")
    case (Some ino)
    then have "ino \<in> set (hm_keys (ft_nodes t))" using "3.prems"(1) by (auto simp: tree_inv_def)
    then show ?thesis using "3.IH"(2) [OF refl Some "3.prems"(1) _ "3.prems"(3)] Some by (simp add: Let_def)
  next
    case None
    obtain t1 ino where new: "new_node (FDir []) t = (t1, ino)" by force
    obtain t2 where t2: "push_child parent ino (set_path ?dir ino t1) = Returns t2" "steps_ok ok t t2"
      "ino \<in> set (hm_keys (ft_nodes t2))"
      using add_child_ok [OF "3.prems"(1,2) new] by blast
    have "\<exists>t'. add_parts skill f (before @ [part]) (nxt # parts) ino t2 = Returns t' \<and> steps_ok ok t2 t'"
      using "3.IH"(1) [OF refl None new [symmetric] t2(1)] t2(2,3) "3.prems"(3) by (simp add: steps_ok_def)
    then show ?thesis using None new t2(1) steps_ok_trans [OF t2(2)] by (auto simp: Let_def)
  qed
qed (auto simp: steps_ok_def)

lemma add_files_ok:
  "\<lbrakk>tree_inv ok t; parent \<in> set (hm_keys (ft_nodes t)); \<forall>f \<in> set fs. (skill @ ''/'' @ fi_path f, fi_size f) \<in> ok\<rbrakk> \<Longrightarrow>
     \<exists>t'. add_files skill fs parent t = Returns t' \<and> steps_ok ok t t'"
proof (induction fs arbitrary: t)
  case (Cons f fs)
  obtain t1 where t1: "add_parts skill f [] (split_on (CHR ''/'') (fi_path f)) parent t = Returns t1" "steps_ok ok t t1"
    using add_parts_ok [OF Cons.prems(1,2)] Cons.prems(3) by fastforce
  then obtain t2 where "add_files skill fs parent t1 = Returns t2" "steps_ok ok t1 t2"
    using Cons.IH [of t1] Cons.prems(2,3) by (auto simp: steps_ok_def)
  then show ?case using t1 steps_ok_trans by auto
qed (simp add: steps_ok_def)

lemma steps_ok_unchilded:
  "steps_ok ok t t' \<Longrightarrow> ino < ft_next_inode t \<Longrightarrow> \<forall>p. \<not> is_child t p ino \<Longrightarrow> \<forall>p. \<not> is_child t' p ino"
  by (fastforce simp: steps_ok_def)

lemma add_skill_ok:
  assumes "tree_inv ok t" "(fk_name sk @ ''/SKILL.md'', 0) \<in> ok"
    and "\<forall>f \<in> set (fk_files sk). (fk_name sk @ ''/'' @ fi_path f, fi_size f) \<in> ok"
  shows "\<exists>t'. add_skill sk t = Returns (t', ft_next_inode t) \<and> steps_ok ok t t' \<and>
    ft_next_inode t \<in> set (hm_keys (ft_nodes t')) \<and> ft_next_inode t < ft_next_inode t' \<and>
    (\<forall>p. \<not> is_child t' p (ft_next_inode t))"
proof -
  let ?ino = "ft_next_inode t"
  obtain t1 where n1: "new_node (FDir []) t = (t1, ?ino)" by (simp add: new_node_def)
  note new = tree_inv_new_node [OF assms(1) n1]
  have k1: "set (hm_keys (ft_nodes t1)) = insert ?ino (set (hm_keys (ft_nodes t)))" "ft_next_inode t1 = Suc ?ino"
    using n1 by (auto simp: new_node_def hm_insert_keys)
  have s1: "steps_ok ok t t1"
    using new n1 k1 by (auto simp: steps_ok_def is_child_def new_node_def split: if_splits)
  obtain t2 where t2: "add_files (fk_name sk) (fk_files sk) ?ino t1 = Returns t2" "steps_ok ok t1 t2"
    using add_files_ok [of ok t1 ?ino "fk_files sk" "fk_name sk"] new(1) k1 assms(3) by auto
  obtain t3 md where n3: "new_node (FFile (fk_name sk @ ''/SKILL.md'') 0) t2 = (t3, md)" by force
  have "tree_inv ok t2" "?ino \<in> set (hm_keys (ft_nodes t2))" using t2(2) k1 by (auto simp: steps_ok_def)
  from add_child_ok [OF this n3, of "fk_name sk @ ''/SKILL.md''"] obtain t4 where
    t4: "push_child ?ino md (set_path (fk_name sk @ ''/SKILL.md'') md t3) = Returns t4" "steps_ok ok t2 t4"
    using assms(2) by auto
  let ?t = "set_path (fk_name sk) ?ino t4"
  have s4: "steps_ok ok t1 t4" using steps_ok_trans t2(2) t4(2) by blast
  have ino: "?ino \<in> set (hm_keys (ft_nodes t4))" using s4 k1 by (auto simp: steps_ok_def)
  have same: "ft_nodes ?t = ft_nodes t4" "ft_next_inode ?t = ft_next_inode t4" by (simp_all add: set_path_def)
  have "tree_inv ok ?t" using tree_inv_set_path [OF _ ino] s4 by (simp add: steps_ok_def)
  moreover have "is_child ?t p c = is_child t4 p c" for p c by (simp add: is_child_def same)
  ultimately have "steps_ok ok t1 ?t" using s4 by (simp add: steps_ok_def same)
  then have "steps_ok ok t ?t" "\<forall>p. \<not> is_child ?t p ?ino"
    using steps_ok_trans [OF s1] steps_ok_unchilded [of ok t1 ?t ?ino] k1(2) new(4) by auto
  moreover have "add_skill sk t = Returns (?t, ?ino)"
    by (simp add: add_skill_def n1 t2(1) n3 t4(1) Let_def)
  moreover have "?ino < ft_next_inode ?t" using s4 k1(2) same by (simp add: steps_ok_def)
  ultimately show ?thesis using ino same by auto
qed

lemma add_skills_ok:
  assumes "tree_inv ok t" "announced sks \<subseteq> ok" "distinct rs" "\<forall>r \<in> set rs. r \<in> set (hm_keys (ft_nodes t)) \<and> 1 < r"
    and "\<forall>r \<in> set rs. \<forall>p. \<not> is_child t p r"
  shows "\<exists>t' rs'. add_skills sks rs t = Returns (t', rs') \<and> tree_inv ok t' \<and> distinct rs' \<and>
    (\<forall>r \<in> set rs'. r \<in> set (hm_keys (ft_nodes t')) \<and> 1 < r) \<and> (\<forall>r \<in> set rs'. \<forall>p. \<not> is_child t' p r)"
  using assms
proof (induction sks arbitrary: t rs)
  case (Cons sk sks)
  let ?ino = "ft_next_inode t"
  have ok: "(fk_name sk @ ''/SKILL.md'', 0) \<in> ok"
    "\<forall>f \<in> set (fk_files sk). (fk_name sk @ ''/'' @ fi_path f, fi_size f) \<in> ok" "announced sks \<subseteq> ok"
    using Cons.prems(2) by (auto simp: announced_def)
  obtain t1 where t1: "add_skill sk t = Returns (t1, ?ino)" "steps_ok ok t t1" "?ino \<in> set (hm_keys (ft_nodes t1))"
    "\<forall>p. \<not> is_child t1 p ?ino"
    using add_skill_ok [OF Cons.prems(1) ok(1,2)] by blast
  have low: "r < ?ino" if "r \<in> set rs" for r
    using inode_below [OF Cons.prems(1)] Cons.prems(4) that by blast
  have "1 < ?ino" using Cons.prems(1) by (simp add: tree_inv_def)
  then have d: "distinct (rs @ [?ino])" "\<forall>r \<in> set (rs @ [?ino]). r \<in> set (hm_keys (ft_nodes t1)) \<and> 1 < r"
    using Cons.prems(3,4) t1(2,3) low by (auto simp: steps_ok_def)
  have "\<forall>r \<in> set (rs @ [?ino]). \<forall>p. \<not> is_child t1 p r"
    using steps_ok_unchilded [OF t1(2) low] Cons.prems(5) t1(4) by (simp add: ball_Un)
  from Cons.IH [OF _ ok(3) d this] t1(1,2) show ?case by (simp add: steps_ok_def)
qed simp

lemma mount_tree_ok:
  "\<exists>t. mount_tree skills = Returns t \<and>
     (\<forall>p c. is_child t p c \<longrightarrow> p < c \<and> hm_get (ft_nodes t) c \<noteq> None) \<and>
     (\<forall>p q c. is_child t p c \<longrightarrow> is_child t q c \<longrightarrow> p = q) \<and>
     (\<forall>p cs. hm_get (ft_nodes t) p = Some (FDir cs) \<longrightarrow> distinct cs) \<and>
     (\<forall>ino rel sz. hm_get (ft_nodes t) ino = Some (FFile rel sz) \<longrightarrow> (rel, sz) \<in> announced skills)"
proof -
  obtain t rs where t: "add_skills skills [] tree_new = Returns (t, rs)" "tree_inv (announced skills) t" "distinct rs"
    "\<forall>r \<in> set rs. r \<in> set (hm_keys (ft_nodes t)) \<and> 1 < r" "\<forall>r \<in> set rs. \<forall>p. \<not> is_child t p r"
    using add_skills_ok [OF tree_inv_new, of skills "announced skills" "[]"] by auto
  let ?t = "t\<lparr>ft_nodes := hm_insert 1 (FDir rs) (ft_nodes t)\<rparr>"
  have mount: "mount_tree skills = Returns ?t"
    using t(2) by (auto simp: mount_tree_def t(1) tree_inv_def)
  have kids: "is_child ?t p c \<longleftrightarrow> (if p = 1 then c \<in> set rs else is_child t p c)" for p c
    by (simp add: is_child_def)
  have "p < c \<and> hm_get (ft_nodes ?t) c \<noteq> None" if "is_child ?t p c" for p c
    using that t(2,4) unfolding kids tree_inv_def key_get by (auto split: if_splits)
  moreover have "p = q" if "is_child ?t p c" "is_child ?t q c" for p q c
    using that t(2,5) unfolding kids tree_inv_def by (auto split: if_splits)
  moreover have "distinct cs" if "hm_get (ft_nodes ?t) p = Some (FDir cs)" for p cs
    using that t(2,3) by (auto simp: tree_inv_def split: if_splits)
  moreover have "(rel, sz) \<in> announced skills" if "hm_get (ft_nodes ?t) ino = Some (FFile rel sz)" for ino rel sz
    using that t(2) by (auto simp: tree_inv_def split: if_splits)
  ultimately show ?thesis using mount by (intro exI [of _ ?t]) blast
qed

lemma mounted_tree_files:
  "mount_tree skills = Returns t \<Longrightarrow> hm_get (ft_nodes t) ino = Some (FFile rel sz) \<Longrightarrow> (rel, sz) \<in> announced skills"
  using mount_tree_ok [of skills] by auto

text \<open>C34. Mounting a listing never panics and builds a sound tree: every entry of a directory exists and
  has a greater inode than the directory, so there are no cycles; no inode is in two directories
  or twice in one; and every file stands for a path and a size of the listing, or for the
  \<^verbatim>\<open>SKILL.md\<close> of a skill.\<close>

theorem mounted_tree_sound:
  "\<exists>t. mount_tree skills = Returns t \<and>
     (\<forall>p c. is_child t p c \<longrightarrow> p < c \<and> hm_get (ft_nodes t) c \<noteq> None) \<and>
     (\<forall>p q c. is_child t p c \<longrightarrow> is_child t q c \<longrightarrow> p = q) \<and>
     (\<forall>p cs. hm_get (ft_nodes t) p = Some (FDir cs) \<longrightarrow> distinct cs) \<and>
     (\<forall>ino rel sz. hm_get (ft_nodes t) ino = Some (FFile rel sz) \<longrightarrow> (rel, sz) \<in> announced skills)"
  by (rule mount_tree_ok)

section \<open>Reading\<close>

text \<open>A client that reads a file in pieces: \<open>n\<close> calls of the given size from an offset, with
  what the gateway would answer at each of them.\<close>

fun read_pieces ::
  "(string \<Rightarrow> (string, byte list) result) list \<Rightarrow> FsTree \<Rightarrow> nat \<Rightarrow> nat \<Rightarrow> nat \<Rightarrow> file_cache \<Rightarrow>
     file_cache \<times> (int, byte list) result" where
  "read_pieces [] t ino offset sz cache = (cache, Ok [])"
| "read_pieces (fetch # fetches) t ino offset sz cache =
     (case fuse_read fetch t ino (int offset) sz cache of
        (cache, Inl e) \<Rightarrow> (cache, Err e)
      | (cache, Inr piece) \<Rightarrow>
          (case read_pieces fetches t ino (offset + sz) sz cache of
             (cache, Inl e) \<Rightarrow> (cache, Err e)
           | (cache, Inr rest) \<Rightarrow> (cache, Ok (piece @ rest))))"

lemma read_pieces_cached:
  assumes "hm_get (ft_nodes t) ino = Some (FFile rel n)" "hm_get cache rel = Some data"
  shows "read_pieces fetches t ino offset sz cache = (cache, Ok (take (length fetches * sz) (drop offset data)))"
proof (induction fetches arbitrary: offset)
  case (Cons fetch fetches)
  have "fuse_read fetch t ino (int offset) sz cache = (cache, Ok (take sz (drop offset data)))"
    using assms by (auto simp: fuse_read_def fetch_file_def Let_def min_def)
  then show ?case using Cons.IH by (simp add: take_add add.commute)
qed simp

lemma read_pieces_snapshot:
  assumes "hm_get (ft_nodes t) ino = Some (FFile rel n)" "hm_get cache rel = None" "fetch rel = Ok data"
  shows "read_pieces (fetch # fetches) t ino 0 sz cache =
    (hm_insert rel data cache, Ok (take (Suc (length fetches) * sz) data))"
proof -
  have "fuse_read fetch t ino (int 0) sz cache = (hm_insert rel data cache, Ok (take sz data))"
    using assms by (auto simp: fuse_read_def fetch_file_def Let_def min_def)
  moreover have "hm_get (hm_insert rel data cache) rel = Some data" by simp
  ultimately show ?thesis
    using read_pieces_cached [OF assms(1), of "hm_insert rel data cache" data fetches sz sz]
    by (simp add: take_add)
qed

text \<open>A file is read as one snapshot: once the first piece could be fetched, any number of further
  pieces come from the same content, whatever the gateway would answer later, and together they
  are its bytes in order, up to the end of the file.\<close>

theorem fuse_reads_one_snapshot:
  assumes "hm_get (ft_nodes t) ino = Some (FFile rel n)" "hm_get cache rel = None" "fetch rel = Ok data"
  shows "read_pieces (fetch # fetches) t ino 0 sz cache =
    (hm_insert rel data cache, Ok (take (Suc (length fetches) * sz) data))"
  using assms by (rule read_pieces_snapshot)

section \<open>Listing in pages\<close>

text \<open>The entry at a position of a page, with its offset.\<close>

lemma fuse_readdir_page:
  assumes "hm_get (ft_nodes t) ino = Some (FDir children)"
  shows "fuse_readdir t ino (int k) room =
    Ok (map (\<lambda>i. case dir_entries t ino children ! i of (ino, kind, name) \<Rightarrow> (ino, int (i + 1), kind, name))
      [k..<min (k + room) (length (dir_entries t ino children))])"
proof -
  let ?es = "dir_entries t ino children"
  have z: "zip [0..<length ?es] ?es = map (\<lambda>i. (i, ?es ! i)) [0..<length ?es]"
    by (rule nth_equalityI) simp_all
  have "take room (drop k (map f [0..<n])) = map f [k..<min (k + room) n]" for f :: "nat \<Rightarrow> nat \<times> int \<times> FileType \<times> string" and n
    by (cases "k + room \<le> n") (simp_all add: drop_map take_map drop_upt min_def)
  then show ?thesis
    using assms by (simp add: fuse_readdir_def skip_count_def Let_def z o_def case_prod_unfold)
qed

text \<open>The kernel calls \<^verbatim>\<open>readdir\<close> again from the offset of the last entry it got, until a reply is
  empty.\<close>

function readdir_pages :: "FsTree \<Rightarrow> nat \<Rightarrow> nat \<Rightarrow> nat \<Rightarrow> (nat \<times> FileType \<times> string) list" where
  "readdir_pages t ino room offset =
     (case fuse_readdir t ino (int offset) room of
        Inl _ \<Rightarrow> []
      | Inr page \<Rightarrow>
          if page = [] then []
          else map (\<lambda>(ino, _, kind, name). (ino, kind, name)) page @
            readdir_pages t ino room (nat (fst (snd (last page)))))"
  by pat_completeness auto

definition dir_length :: "FsTree \<Rightarrow> nat \<Rightarrow> nat" where
  "dir_length t ino =
     (case hm_get (ft_nodes t) ino of Some (FDir children) \<Rightarrow> length (dir_entries t ino children) | _ \<Rightarrow> 0)"

lemma upt_ends: "k < m \<Longrightarrow> [k..<m] \<noteq> [] \<and> last [k..<m] = m - 1"
  by simp

lemma readdir_progress:
  assumes "fuse_readdir t ino (int k) room = Ok page" "page \<noteq> []"
  shows "nat (fst (snd (last page))) = min (k + room) (dir_length t ino) \<and> k < min (k + room) (dir_length t ino)"
proof -
  obtain children where c: "hm_get (ft_nodes t) ino = Some (FDir children)"
    using assms(1) by (auto simp: fuse_readdir_def split: option.splits FsNode.splits)
  let ?m = "min (k + room) (dir_length t ino)"
  have page: "page = map (\<lambda>i. case dir_entries t ino children ! i of (ino, kind, name) \<Rightarrow> (ino, int (i + 1), kind, name)) [k..<?m]"
    using assms(1) fuse_readdir_page [OF c, of k room] by (simp add: dir_length_def c)
  have k: "k < ?m"
  proof (rule ccontr)
    assume "\<not> k < ?m"
    then have "[k..<?m] = []" by (simp only: upt_conv_Nil not_less)
    then show False using assms(2) page by simp
  qed
  show ?thesis using upt_ends [OF k] k by (simp add: page last_map case_prod_unfold del: min_less_iff_conj)
qed

termination readdir_pages
  by (relation "measure (\<lambda>(t, ino, _, offset). dir_length t ino - offset)") (auto dest!: readdir_progress intro!: diff_less_mono2)

declare readdir_pages.simps [simp del]

text \<open>Listing a directory page by page, however few entries fit into a reply, ends and yields every
  entry of the directory exactly once and in order.\<close>

theorem readdir_pages_complete:
  assumes "hm_get (ft_nodes t) ino = Some (FDir children)" "0 < room"
  shows "readdir_pages t ino room 0 = dir_entries t ino children"
proof -
  let ?es = "dir_entries t ino children"
  have "readdir_pages t ino room k = drop k ?es" for k
  proof (induction "length ?es - k" arbitrary: k rule: less_induct)
    case less
    let ?m = "min (k + room) (length ?es)"
    let ?page = "map (\<lambda>i. case ?es ! i of (ino, kind, name) \<Rightarrow> (ino, int (i + 1), kind, name)) [k..<?m]"
    have page: "fuse_readdir t ino (int k) room = Ok ?page" by (rule fuse_readdir_page [OF assms(1)])
    show ?case
    proof (cases "k < length ?es")
      case True
      then have k: "k < ?m" using assms(2) by simp
      have nxt: "nat (fst (snd (last ?page))) = ?m"
        using readdir_progress [OF page] k by (simp add: dir_length_def assms(1))
      have "map (\<lambda>(ino, _, kind, name). (ino, kind, name)) ?page = map ((!) ?es) [k..<?m]"
        by (auto simp: case_prod_unfold)
      also have "\<dots> = take (?m - k) (drop k ?es)"
        using k by (intro nth_equalityI) (auto simp: less_diff_conv add.commute)
      finally have "readdir_pages t ino room k = take (?m - k) (drop k ?es) @ readdir_pages t ino room ?m"
      proof -
        assume pieces: "map (\<lambda>(ino, _, kind, name). (ino, kind, name)) ?page = take (?m - k) (drop k ?es)"
        have "?page \<noteq> []" using upt_ends [OF k] by simp
        then show ?thesis by (subst readdir_pages.simps) (simp only: page sum.case if_False nxt pieces)
      qed
      also have "readdir_pages t ino room ?m = drop ?m ?es" using less [of ?m] k True by simp
      also have "take (?m - k) (drop k ?es) @ drop ?m ?es = drop k ?es"
        using append_take_drop_id [of "?m - k" "drop k ?es"] k by simp
      finally show ?thesis .
    next
      case False
      then show ?thesis by (subst readdir_pages.simps) (simp add: page)
    qed
  qed
  from this [of 0] show ?thesis by simp
qed

section \<open>Witnesses\<close>

definition sample_skill :: FuseSkill where
  "sample_skill = \<lparr>fk_name = ''jina'', fk_files = [\<lparr>fi_path = ''SKILL.md'', fi_size = 5\<rparr>, \<lparr>fi_path = ''bin/r.py'', fi_size = 3\<rparr>]\<rparr>"

definition sample_mounted :: FsTree where
  "sample_mounted = (case mount_tree [sample_skill] of Returns t \<Rightarrow> t | Panics \<Rightarrow> tree_new)"

lemma sample_mounted_nodes:
  "hm_get (ft_nodes sample_mounted) 1 = Some (FDir [2])" "hm_get (ft_nodes sample_mounted) 2 = Some (FDir [3, 4, 6])"
  "hm_get (ft_nodes sample_mounted) 5 = Some (FFile ''jina/bin/r.py'' 3)"
  "ft_path_to_inode sample_mounted = [(''jina/SKILL.md'', 6), (''jina/bin'', 4), (''jina/bin/r.py'', 5), (''jina'', 2)]"
  "mount_tree [sample_skill] = Returns sample_mounted"
  by code_simp+

theorem mounted_tree_sound_witness:
  "(''jina/bin/r.py'', 3) \<in> announced [sample_skill] \<and> distinct [3 :: nat, 4, 6]"
proof -
  obtain t where t: "mount_tree [sample_skill] = Returns t"
    "\<forall>p cs. hm_get (ft_nodes t) p = Some (FDir cs) \<longrightarrow> distinct cs"
    "\<forall>ino rel sz. hm_get (ft_nodes t) ino = Some (FFile rel sz) \<longrightarrow> (rel, sz) \<in> announced [sample_skill]"
    using mounted_tree_sound [of "[sample_skill]"] by blast
  then have "t = sample_mounted" using sample_mounted_nodes(5) by simp
  then show ?thesis using t(2,3) sample_mounted_nodes(2,3) by blast
qed

theorem fuse_reads_one_snapshot_witness:
  "snd (read_pieces [\<lambda>_. Ok [1, 2, 3], \<lambda>_. Err ''gone''] sample_mounted 5 0 2 []) = Ok [1, 2, 3]"
  using fuse_reads_one_snapshot [OF sample_mounted_nodes(3), of "[]" "\<lambda>_. Ok [1, 2, 3]" "[1, 2, 3]" "[\<lambda>_. Err ''gone'']" 2] by simp

theorem readdir_pages_complete_witness:
  "map (snd \<circ> snd) (readdir_pages sample_mounted 2 1 0) = [''.'', ''..'', ''SKILL.md'', ''bin'', ''SKILL.md'']"
proof -
  have e: "dir_entries sample_mounted 2 [3, 4, 6] = [(2, Directory, ''.''), (2, Directory, ''..''),
      (3, RegularFile, ''SKILL.md''), (4, Directory, ''bin''), (6, RegularFile, ''SKILL.md'')]"
    by code_simp
  show ?thesis using readdir_pages_complete [OF sample_mounted_nodes(2), of 1] by (simp add: e)
qed

text \<open>The listing of a skill contains its \<^verbatim>\<open>SKILL.md\<close>, and mounting adds another one: the
  directory above shows the name twice.  When the listing lacks it, a lookup announces the size 0
  that only \<^verbatim>\<open>getattr\<close> would correct.\<close>

lemma skill_md_announced_empty:
  "case mount_tree [\<lparr>fk_name = ''jina'', fk_files = []\<rparr>] of
     Returns t \<Rightarrow> fuse_lookup t 2 ''SKILL.md'' = Ok (file_attr 3 0) | Panics \<Rightarrow> False"
  by code_simp

end
