(* ===== verification/Gateway_Config.thy ===== *)
theory Gateway_Config
  imports Session Backends Paths
begin

text \<open>
  The configuration of the gateway, \<^verbatim>\<open>nexal-gateway/src/config.rs\<close>, and its start-up in
  \<^verbatim>\<open>bin/nexal-gateway.rs\<close>: command line and environment over the configuration file over
  defaults, the choice of the backend, and what the server, the registry and the pool are built
  from.  Reading and parsing the file, the home directory, the construction of clients and the
  creation of the workspace directory are arguments.
\<close>

section \<open>Configuration file\<close>

record Credential =
  cr_access_key :: string
  cr_secret_key :: string

record ProxyConfig =
  pc_listen :: "string option"
  pc_external_base :: "string option"

record SpawnDefaultsConfig =
  dc_image :: "string option"
  dc_agent_bin :: "string option"
  dc_memory :: "string option"
  dc_cpus :: "string option"
  dc_pids_limit :: "nat option"
  dc_network :: "bool option"
  dc_container_name_prefix :: "string option"
  dc_workspace_volume :: "string option"
  dc_skills_dir :: "string option"

record BackendConfig =
  bc_kind :: "string option"
  bc_podman_bin :: "string option"
  bc_runtime :: "string option"
  bc_namespace :: "string option"
  bc_kubeconfig :: "string option"
  bc_agent_init_image :: "string option"
  bc_fly_api_token :: "string option"
  bc_fly_app :: "string option"
  bc_fly_region :: "string option"
  bc_fly_api_base :: "string option"
  bc_fly_agent_bin_path :: "string option"
  bc_sprites_token :: "string option"
  bc_sprites_api_base :: "string option"
  bc_sprites_name_prefix :: "string option"
  bc_sprites_agent_port :: "nat option"
  bc_sprites_agent_bin_path :: "string option"

record PoolConfig =
  plc_enabled :: "bool option"
  plc_size :: "nat option"
  plc_image :: "string option"

record GatewayConfig =
  gc_listen :: "string option"
  gc_credentials :: "Credential list"
  gc_defaults :: SpawnDefaultsConfig
  gc_backend :: BackendConfig
  gc_proxy :: ProxyConfig
  gc_pool :: PoolConfig

definition gateway_config_default :: GatewayConfig where
  "gateway_config_default =
     \<lparr>gc_listen = None, gc_credentials = [],
      gc_defaults = \<lparr>dc_image = None, dc_agent_bin = None, dc_memory = None, dc_cpus = None,
        dc_pids_limit = None, dc_network = None, dc_container_name_prefix = None,
        dc_workspace_volume = None, dc_skills_dir = None\<rparr>,
      gc_backend = \<lparr>bc_kind = None, bc_podman_bin = None, bc_runtime = None, bc_namespace = None,
        bc_kubeconfig = None, bc_agent_init_image = None, bc_fly_api_token = None, bc_fly_app = None,
        bc_fly_region = None, bc_fly_api_base = None, bc_fly_agent_bin_path = None,
        bc_sprites_token = None, bc_sprites_api_base = None, bc_sprites_name_prefix = None,
        bc_sprites_agent_port = None, bc_sprites_agent_bin_path = None\<rparr>,
      gc_proxy = \<lparr>pc_listen = None, pc_external_base = None\<rparr>,
      gc_pool = \<lparr>plc_enabled = None, plc_size = None, plc_image = None\<rparr>\<rparr>"

datatype ConfigError = ConfigIo string string | ConfigParse string string

datatype file_read = FileText string | FileMissing | FileFails string

definition default_path :: "string option \<Rightarrow> string option" where
  "default_path home = map_option (\<lambda>h. path_join (path_join h ''.nexal'') ''gateway.toml'') home"

definition config_load ::
  "(string \<Rightarrow> (string, GatewayConfig) result) \<Rightarrow> string \<Rightarrow> file_read \<Rightarrow> (ConfigError, GatewayConfig) result" where
  "config_load parse path content =
     (case content of
        FileText t \<Rightarrow> (case parse t of Inl e \<Rightarrow> Err (ConfigParse path e) | Inr c \<Rightarrow> Ok c)
      | FileMissing \<Rightarrow> Ok gateway_config_default
      | FileFails e \<Rightarrow> Err (ConfigIo path e))"

section \<open>Start-up\<close>

record Args =
  arg_config :: "string option"
  arg_listen :: "string option"
  arg_unix :: "string option"
  arg_proxy_listen :: "string option"
  arg_proxy_external_base :: "string option"
  arg_access_key :: "string option"
  arg_secret_key :: "string option"
  arg_agent_bin :: "string option"
  arg_image :: "string option"

text \<open>\<^verbatim>\<open>a.or(b).unwrap_or(d)\<close>.\<close>

definition or_else :: "'a option \<Rightarrow> 'a option \<Rightarrow> 'a option" where
  "or_else a b = (case a of Some x \<Rightarrow> Some x | None \<Rightarrow> b)"

definition unwrap_or :: "'a \<Rightarrow> 'a option \<Rightarrow> 'a" where
  "unwrap_or d a = (case a of Some x \<Rightarrow> x | None \<Rightarrow> d)"

datatype StartError = StartMessage string | StartConfig ConfigError | StartBackend BackendError | StartIo string

datatype chosen_backend =
    UsePodman PodmanBackend | UseKubernetes KubernetesBackend | UseFly FlyBackend | UseSprites SpritesBackend

definition resolve_credentials :: "Args \<Rightarrow> GatewayConfig \<Rightarrow> (string, string) hashmap" where
  "resolve_credentials args cfg =
     (let creds = foldl (\<lambda>m c. hm_insert (cr_access_key c) (cr_secret_key c) m) []
            (filter (\<lambda>c. cr_access_key c \<noteq> [] \<and> cr_secret_key c \<noteq> []) (gc_credentials cfg))
      in case (arg_access_key args, arg_secret_key args) of
           (Some ak, Some sk) \<Rightarrow> hm_insert ak sk creds
         | _ \<Rightarrow> creds)"

definition choose_backend ::
  "(string, unit) result \<Rightarrow> KubeClientSteps \<Rightarrow> BackendConfig \<Rightarrow> (StartError, chosen_backend) result" where
  "choose_backend client kube bc =
     (let kind = unwrap_or ''podman'' (bc_kind bc)
      in if kind = ''podman'' then Ok (UsePodman (podman_new (bc_podman_bin bc) (bc_runtime bc)))
         else if kind = ''kubernetes'' \<or> kind = ''k8s'' then
           (case bc_agent_init_image bc of
              None \<Rightarrow> Err (StartMessage ''kubernetes backend requires backend.agent_init_image'')
            | Some img \<Rightarrow>
                (case kubernetes_new kube \<lparr>kc_namespace = bc_namespace bc, kc_kubeconfig = bc_kubeconfig bc,
                        kc_agent_init_image = img\<rparr> of
                   Inl e \<Rightarrow> Err (StartBackend e)
                 | Inr b \<Rightarrow> Ok (UseKubernetes b)))
         else if kind = ''fly'' then
           (case bc_fly_api_token bc of
              None \<Rightarrow> Err (StartMessage ''fly backend requires backend.fly_api_token'')
            | Some token \<Rightarrow>
                (case bc_fly_app bc of
                   None \<Rightarrow> Err (StartMessage ''fly backend requires backend.fly_app'')
                 | Some app \<Rightarrow>
                     (case fly_new client \<lparr>fc_api_token = token, fc_app = app, fc_region = bc_fly_region bc,
                             fc_api_base = bc_fly_api_base bc, fc_agent_bin_path = bc_fly_agent_bin_path bc\<rparr> of
                        Inl e \<Rightarrow> Err (StartBackend e)
                      | Inr b \<Rightarrow> Ok (UseFly b))))
         else if kind = ''sprites'' then
           (case bc_sprites_token bc of
              None \<Rightarrow> Err (StartMessage ''sprites backend requires backend.sprites_token'')
            | Some token \<Rightarrow>
                (case sprites_new client \<lparr>sc_token = token, sc_api_base = bc_sprites_api_base bc,
                        sc_name_prefix = bc_sprites_name_prefix bc, sc_agent_port = bc_sprites_agent_port bc,
                        sc_agent_bin_path = bc_sprites_agent_bin_path bc\<rparr> of
                   Inl e \<Rightarrow> Err (StartBackend e)
                 | Inr b \<Rightarrow> Ok (UseSprites b)))
         else Err (StartMessage (''unknown backend kind: '' @ kind)))"

definition resolve_defaults :: "string option \<Rightarrow> string \<Rightarrow> string \<Rightarrow> SpawnDefaultsConfig \<Rightarrow> SpawnDefaults" where
  "resolve_defaults home img agent_bin dc =
     \<lparr>sd_image = img, sd_agent_bin = agent_bin,
      sd_memory = or_else (dc_memory dc) (Some ''512m''),
      sd_cpus = or_else (dc_cpus dc) (Some ''1.0''),
      sd_pids_limit = or_else (dc_pids_limit dc) (Some 256),
      sd_network = unwrap_or True (dc_network dc),
      sd_container_name_prefix = unwrap_or ''nexal-worker-'' (dc_container_name_prefix dc),
      sd_workspace_volume = or_else (dc_workspace_volume dc)
        (map_option (\<lambda>h. path_join (path_join h ''.nexal'') ''workspace'') home)\<rparr>"

definition resolve_pool :: "SpawnDefaults \<Rightarrow> PoolConfig \<Rightarrow> WarmPool option" where
  "resolve_pool defaults pc =
     (if unwrap_or False (plc_enabled pc) \<and> unwrap_or 0 (plc_size pc) > 0
      then Some (pool_new (unwrap_or 0 (plc_size pc)) (unwrap_or (sd_image defaults) (plc_image pc))
             (sd_container_name_prefix defaults) (sd_agent_bin defaults) (sd_memory defaults)
             (sd_cpus defaults) (sd_pids_limit defaults) (sd_network defaults))
      else None)"

record Startup =
  gs_listen :: string
  gs_unix :: "string option"
  gs_server :: ServerConfig
  gs_proxy_listen :: string
  gs_backend :: chosen_backend
  gs_defaults :: SpawnDefaults
  gs_skills_dir :: string
  gs_pool :: "WarmPool option"

record Machinery =
  mc_home :: "string option"
  mc_read :: "string \<Rightarrow> file_read"
  mc_parse :: "string \<Rightarrow> (string, GatewayConfig) result"
  mc_client :: "(string, unit) result"
  mc_kube :: KubeClientSteps
  mc_create_dir_all :: "string \<Rightarrow> (string, unit) result"

definition configure :: "Machinery \<Rightarrow> Args \<Rightarrow> GatewayConfig \<Rightarrow> (StartError, Startup) result" where
  "configure mc args cfg =
     (let listen = unwrap_or ''127.0.0.1:5500'' (or_else (arg_listen args) (gc_listen cfg));
          credentials = resolve_credentials args cfg
      in if credentials = [] then
           Err (StartMessage ''no credentials configured; add [[credentials]] (access_key/secret_key) to gateway.toml or set NEXAL_GATEWAY_ACCESS_KEY + NEXAL_GATEWAY_SECRET_KEY'')
         else case or_else (arg_agent_bin args) (dc_agent_bin (gc_defaults cfg)) of
           None \<Rightarrow> Err (StartMessage ''no agent_bin configured; pass --agent-bin or set defaults.agent_bin'')
         | Some agent_bin \<Rightarrow>
             let img = unwrap_or ''ghcr.io/reonokiy/nexal-sandbox:python3.13-debian13''
                   (or_else (arg_image args) (dc_image (gc_defaults cfg)));
                 proxy_listen = unwrap_or ''0.0.0.0:5501'' (or_else (arg_proxy_listen args) (pc_listen (gc_proxy cfg)));
                 base = unwrap_or ''http://host.containers.internal:5501''
                   (or_else (arg_proxy_external_base args) (pc_external_base (gc_proxy cfg)))
             in case choose_backend (mc_client mc) (mc_kube mc) (gc_backend cfg) of
                  Inl e \<Rightarrow> Err e
                | Inr backend \<Rightarrow>
                    let defaults = resolve_defaults (mc_home mc) img agent_bin (gc_defaults cfg);
                        skills_dir = unwrap_or
                          (path_join (path_join (unwrap_or ''/root'' (mc_home mc)) ''.nexal'') ''skills'')
                          (dc_skills_dir (gc_defaults cfg));
                        started =
                          \<lparr>gs_listen = listen, gs_unix = arg_unix args,
                           gs_server = \<lparr>sc_credentials = credentials, sc_proxy_external_base = base\<rparr>,
                           gs_proxy_listen = proxy_listen, gs_backend = backend, gs_defaults = defaults,
                           gs_skills_dir = skills_dir, gs_pool = resolve_pool defaults (gc_pool cfg)\<rparr>
                    in (case sd_workspace_volume defaults of
                          None \<Rightarrow> Ok started
                        | Some vol \<Rightarrow>
                            (case mc_create_dir_all mc vol of
                               Inl e \<Rightarrow> Err (StartIo e)
                             | Inr _ \<Rightarrow> Ok started)))"

definition gateway_startup :: "Machinery \<Rightarrow> Args \<Rightarrow> (StartError, Startup) result" where
  "gateway_startup mc args =
     (case or_else (arg_config args) (default_path (mc_home mc)) of
        None \<Rightarrow> Err (StartMessage ''could not resolve gateway config path (no --config and no $HOME)'')
      | Some path \<Rightarrow>
          (case config_load (mc_parse mc) path (mc_read mc path) of
             Inl e \<Rightarrow> Err (StartConfig e)
           | Inr cfg \<Rightarrow> configure mc args cfg))"

section \<open>Credentials\<close>

lemma file_credentials_get:
  "hm_get (foldl (\<lambda>m c. hm_insert (cr_access_key c) (cr_secret_key c) m) m cs) ak = Some sk \<Longrightarrow>
     hm_get m ak = Some sk \<or> (\<exists>c \<in> set cs. cr_access_key c = ak \<and> cr_secret_key c = sk)"
proof (induction cs arbitrary: m)
  case (Cons c cs)
  from Cons.prems have "hm_get (foldl (\<lambda>m c. hm_insert (cr_access_key c) (cr_secret_key c) m)
      (hm_insert (cr_access_key c) (cr_secret_key c) m) cs) ak = Some sk" by simp
  from Cons.IH [OF this] show ?case by (auto split: if_splits)
qed simp

definition configured_secret :: "Args \<Rightarrow> GatewayConfig \<Rightarrow> string \<Rightarrow> string \<Rightarrow> bool" where
  "configured_secret args cfg ak sk \<longleftrightarrow>
     arg_access_key args = Some ak \<and> arg_secret_key args = Some sk \<or>
     ak \<noteq> [] \<and> sk \<noteq> [] \<and> list_ex (\<lambda>c. cr_access_key c = ak \<and> cr_secret_key c = sk) (gc_credentials cfg)"

lemma resolve_credentials_get:
  assumes "hm_get (resolve_credentials args cfg) ak = Some sk"
  shows "configured_secret args cfg ak sk"
proof -
  let ?cs = "filter (\<lambda>c. cr_access_key c \<noteq> [] \<and> cr_secret_key c \<noteq> []) (gc_credentials cfg)"
  have "configured_secret args cfg ak sk"
    if "hm_get (foldl (\<lambda>m c. hm_insert (cr_access_key c) (cr_secret_key c) m) [] ?cs) ak = Some sk"
    using file_credentials_get [OF that] by (auto simp: configured_secret_def list_ex_iff)
  then show ?thesis using assms
    by (auto simp: resolve_credentials_def Let_def configured_secret_def split: option.splits if_splits)
qed

lemma configure_credentials:
  "configure mc args cfg = Ok g \<Longrightarrow> sc_credentials (gs_server g) = resolve_credentials args cfg \<and> resolve_credentials args cfg \<noteq> []"
  by (auto simp: configure_def Let_def split: if_splits option.splits sum.splits)

section \<open>Properties\<close>

text \<open>C37. A gateway that starts has at least one credential, and whoever passes its hello check has signed
  with a secret that was configured for that access key: the pair given on the command line or in the
  environment, or a pair of the configuration file with a non-empty key and secret.\<close>

theorem started_gateway_credentials:
  assumes "gateway_startup mc args = Ok g"
  shows "sc_credentials (gs_server g) \<noteq> [] \<and>
    (\<exists>path cfg. or_else (arg_config args) (default_path (mc_home mc)) = Some path \<and>
       config_load (mc_parse mc) path (mc_read mc path) = Ok cfg \<and>
       (\<forall>hmac now p cache cache'. verify_hello hmac (sc_credentials (gs_server g)) now p cache = Returns (cache', Ok ()) \<longrightarrow>
          (\<exists>sk sig. configured_secret args cfg (hp_access_key p) sk \<and>
             hex_decode (hp_signature p) = Returns (Some sig) \<and> hmac sk (canonical p) sig)))"
proof -
  obtain path cfg where l: "or_else (arg_config args) (default_path (mc_home mc)) = Some path"
    "config_load (mc_parse mc) path (mc_read mc path) = Ok cfg" and c: "configure mc args cfg = Ok g"
    using assms by (auto simp: gateway_startup_def split: option.splits sum.splits)
  note cr = configure_credentials [OF c]
  have "\<exists>sk sig. configured_secret args cfg (hp_access_key p) sk \<and>
             hex_decode (hp_signature p) = Returns (Some sig) \<and> hmac sk (canonical p) sig"
    if "verify_hello hmac (sc_credentials (gs_server g)) now p cache = Returns (cache', Ok ())" for hmac now p cache cache'
    using verify_hello_accepts [OF that] resolve_credentials_get cr by metis
  then show ?thesis using cr by (intro conjI exI [of _ path] exI [of _ cfg] l) auto
qed

definition sample_args :: "string \<Rightarrow> string \<Rightarrow> Args" where
  "sample_args ak sk =
     \<lparr>arg_config = Some ''/c'', arg_listen = None, arg_unix = None, arg_proxy_listen = None,
      arg_proxy_external_base = None, arg_access_key = Some ak, arg_secret_key = Some sk,
      arg_agent_bin = Some ''/agent'', arg_image = None\<rparr>"

definition sample_machinery :: Machinery where
  "sample_machinery =
     \<lparr>mc_home = None, mc_read = (\<lambda>p. FileMissing), mc_parse = (\<lambda>t. Err t), mc_client = Ok (),
      mc_kube = \<lparr>read_from = (\<lambda>p. Ok ()), from_custom_kubeconfig = Ok (), client_try_from = Ok (), client_try_default = Ok ()\<rparr>,
      mc_create_dir_all = (\<lambda>p. Ok ())\<rparr>"

lemmas sample_start_defs = sample_args_def sample_machinery_def gateway_startup_def or_else_def config_load_def
  configure_def Let_def resolve_credentials_def gateway_config_default_def choose_backend_def unwrap_or_def
  resolve_defaults_def hm_insert_def

lemma sample_starts: "case gateway_startup sample_machinery (sample_args ak sk) of Inr g \<Rightarrow> sc_credentials (gs_server g) = [(ak, sk)] | Inl e \<Rightarrow> False"
  by (simp add: sample_start_defs)

theorem started_gateway_credentials_witness:
  "\<exists>cfg sk. configured_secret (sample_args ''k'' ''s'') cfg ''k'' sk"
proof -
  obtain g where g: "gateway_startup sample_machinery (sample_args ''k'' ''s'') = Ok g" "sc_credentials (gs_server g) = [(''k'', ''s'')]"
    using sample_starts [of "''k''" "''s''"] by (auto split: sum.splits)
  have "verify_hello (\<lambda>_ _ _. True) (sc_credentials (gs_server g)) 1000 sample_hello [] = Returns ([(''n'', 1000)], Ok ())"
    unfolding g(2) by (rule sample_hello_accepted)
  moreover have "hp_access_key sample_hello = ''k''" by (simp add: sample_hello_def)
  ultimately show ?thesis using started_gateway_credentials [OF g(1)] by metis
qed

text \<open>Empty keys are dropped from the file but not from the environment: two variables that are set to the
  empty string are a credential, and its secret is known to everyone.\<close>

lemma empty_environment_is_a_credential:
  "case gateway_startup sample_machinery (sample_args [] []) of Inr g \<Rightarrow> sc_credentials (gs_server g) = [([], [])] | Inl e \<Rightarrow> False"
  by (rule sample_starts)

end
