(* ===== verification/Process_Group.thy ===== *)
theory Process_Group
  imports Text
begin

text \<open>
  \<^verbatim>\<open>utils/pty/src/process_group.rs\<close> and the descriptor helpers of
  \<^verbatim>\<open>pty.rs\<close>: what a child runs between \<^verbatim>\<open>fork\<close> and
  \<^verbatim>\<open>exec\<close>, and how its process group is signalled later.  The functions are written
  over a record of the \<^verbatim>\<open>libc\<close> calls they make, each returning its value or the
  \<^verbatim>\<open>errno\<close>.  \<open>posix me\<close> is the record for a process \<open>me\<close> of a process
  table that follows the POSIX descriptions of these calls, and \<open>command_spawn\<close> is
  \<^verbatim>\<open>Command::spawn\<close> on it.
\<close>

unbundle bit_operations_syntax

section \<open>Error numbers and the calls that are used\<close>

definition EPERM :: int where "EPERM = 1"
definition ENOENT :: int where "ENOENT = 2"
definition ESRCH :: int where "ESRCH = 3"
definition EINTR :: int where "EINTR = 4"
definition EBADF :: int where "EBADF = 9"
definition EAGAIN :: int where "EAGAIN = 11"
definition EINVAL :: int where "EINVAL = 22"

lemmas errno_defs = EPERM_def ENOENT_def ESRCH_def EINTR_def EBADF_def EAGAIN_def EINVAL_def

definition SIGHUP :: int where "SIGHUP = 1"
definition SIGINT :: int where "SIGINT = 2"
definition SIGQUIT :: int where "SIGQUIT = 3"
definition SIGKILL :: int where "SIGKILL = 9"
definition SIGALRM :: int where "SIGALRM = 14"
definition SIGTERM :: int where "SIGTERM = 15"
definition SIGCHLD :: int where "SIGCHLD = 17"

definition FD_CLOEXEC :: int where "FD_CLOEXEC = 1"

text \<open>The kinds of \<^verbatim>\<open>std::io::Error\<close> that the crate tells apart.  The standard
  library gives \<^verbatim>\<open>ENOENT\<close> the kind \<^verbatim>\<open>NotFound\<close>; \<^verbatim>\<open>ESRCH\<close> has
  no kind of its own.\<close>

datatype errno_kind = EkNotFound | EkInterrupted | EkWouldBlock | EkOther

definition decode_error_kind :: "int \<Rightarrow> errno_kind" where
  "decode_error_kind errno =
     (if errno = ENOENT then EkNotFound else if errno = EINTR then EkInterrupted
      else if errno = EAGAIN then EkWouldBlock else EkOther)"

record 'w Libc =
  lc_setsid :: "'w \<Rightarrow> 'w \<times> (int, int) result"
  lc_setpgid :: "int \<Rightarrow> int \<Rightarrow> 'w \<Rightarrow> 'w \<times> (int, unit) result"
  lc_getpgid :: "int \<Rightarrow> 'w \<Rightarrow> (int, int) result"
  lc_killpg :: "int \<Rightarrow> int \<Rightarrow> 'w \<Rightarrow> 'w \<times> (int, unit) result"
  lc_pdeathsig :: "int \<Rightarrow> 'w \<Rightarrow> 'w \<times> (int, unit) result"
  lc_getppid :: "'w \<Rightarrow> int"
  lc_raise :: "int \<Rightarrow> 'w \<Rightarrow> 'w"
  lc_getfd :: "int \<Rightarrow> 'w \<Rightarrow> (int, int) result"
  lc_setfd :: "int \<Rightarrow> int \<Rightarrow> 'w \<Rightarrow> 'w \<times> (int, unit) result"
  lc_close :: "int \<Rightarrow> 'w \<Rightarrow> 'w"
  lc_dev_fd :: "'w \<Rightarrow> (int, string option list) result"

section \<open>process\_group.rs\<close>

definition set_parent_death_signal :: "'w Libc \<Rightarrow> int \<Rightarrow> 'w \<Rightarrow> 'w \<times> (int, unit) result" where
  "set_parent_death_signal lc parent_pid w =
     (case lc_pdeathsig lc SIGTERM w of
        (w, Inl e) \<Rightarrow> (w, Err e)
      | (w, Inr _) \<Rightarrow>
          (if lc_getppid lc w \<noteq> parent_pid then lc_raise lc SIGTERM w else w, Ok ()))"

definition set_process_group :: "'w Libc \<Rightarrow> 'w \<Rightarrow> 'w \<times> (int, unit) result" where
  "set_process_group lc w = lc_setpgid lc 0 0 w"

definition detach_from_tty :: "'w Libc \<Rightarrow> 'w \<Rightarrow> 'w \<times> (int, unit) result" where
  "detach_from_tty lc w =
     (case lc_setsid lc w of
        (w, Inl err) \<Rightarrow> if err = EPERM then set_process_group lc w else (w, Err err)
      | (w, Inr _) \<Rightarrow> (w, Ok ()))"

definition kill_process_group_by_pid :: "'w Libc \<Rightarrow> 32 word \<Rightarrow> 'w \<Rightarrow> 'w \<times> (int, unit) result" where
  "kill_process_group_by_pid lc pid w =
     (case lc_getpgid lc (sint pid) w of
        Inl err \<Rightarrow> (w, if decode_error_kind err \<noteq> EkNotFound then Err err else Ok ())
      | Inr pgid \<Rightarrow>
          (case lc_killpg lc pgid SIGKILL w of
             (w, Inl err) \<Rightarrow> (w, if decode_error_kind err \<noteq> EkNotFound then Err err else Ok ())
           | (w, Inr _) \<Rightarrow> (w, Ok ())))"

definition terminate_process_group :: "'w Libc \<Rightarrow> 32 word \<Rightarrow> 'w \<Rightarrow> 'w \<times> (int, bool) result" where
  "terminate_process_group lc process_group_id w =
     (case lc_killpg lc (sint process_group_id) SIGTERM w of
        (w, Inl err) \<Rightarrow> (w, if decode_error_kind err = EkNotFound then Ok False else Err err)
      | (w, Inr _) \<Rightarrow> (w, Ok True))"

definition kill_process_group :: "'w Libc \<Rightarrow> 32 word \<Rightarrow> 'w \<Rightarrow> 'w \<times> (int, unit) result" where
  "kill_process_group lc process_group_id w =
     (case lc_killpg lc (sint process_group_id) SIGKILL w of
        (w, Inl err) \<Rightarrow> (w, if decode_error_kind err \<noteq> EkNotFound then Err err else Ok ())
      | (w, Inr _) \<Rightarrow> (w, Ok ()))"

definition kill_child_process_group :: "'w Libc \<Rightarrow> 32 word option \<Rightarrow> 'w \<Rightarrow> 'w \<times> (int, unit) result" where
  "kill_child_process_group lc child_id w =
     (case child_id of Some pid \<Rightarrow> kill_process_group_by_pid lc pid w | None \<Rightarrow> (w, Ok ()))"

section \<open>Descriptors\<close>

text \<open>\<^verbatim>\<open>i32\<close> as \<^verbatim>\<open>from_str\<close> reads it: a sign, then digits.\<close>

definition parse_i32 :: "string \<Rightarrow> int option" where
  "parse_i32 s =
     (case s of
        c # ds \<Rightarrow>
          if c = CHR ''-''
          then (if ds = [] \<or> \<not> list_all is_ascii_digit ds \<or> undec ds > 2 ^ 31 then None
                else Some (- int (undec ds)))
          else map_option int (parse_uint (2 ^ 31 - 1) s)
      | [] \<Rightarrow> None)"

definition set_cloexec :: "'w Libc \<Rightarrow> int \<Rightarrow> 'w \<Rightarrow> 'w \<times> (int, unit) result" where
  "set_cloexec lc fd w =
     (case lc_getfd lc fd w of
        Inl e \<Rightarrow> (w, Err e)
      | Inr flags \<Rightarrow> lc_setfd lc fd (flags OR FD_CLOEXEC) w)"

definition keeps_open :: "'w Libc \<Rightarrow> int list \<Rightarrow> 'w \<Rightarrow> int \<Rightarrow> bool" where
  "keeps_open lc preserved_fds w num \<longleftrightarrow>
     num \<le> 2 \<or> num \<in> set preserved_fds \<or>
     (case lc_getfd lc num w of Inl _ \<Rightarrow> True | Inr flags \<Rightarrow> flags AND FD_CLOEXEC \<noteq> 0)"

definition entry_fd :: "string option \<Rightarrow> int option" where
  "entry_fd entry = Option.bind entry parse_i32"

definition fds_to_close :: "'w Libc \<Rightarrow> int list \<Rightarrow> 'w \<Rightarrow> string option list \<Rightarrow> int list" where
  "fds_to_close lc preserved_fds w dir =
     filter (\<lambda>num. \<not> keeps_open lc preserved_fds w num) (List.map_filter entry_fd dir)"

definition close_inherited_fds_except :: "'w Libc \<Rightarrow> int list \<Rightarrow> 'w \<Rightarrow> 'w" where
  "close_inherited_fds_except lc preserved_fds w =
     (case lc_dev_fd lc w of
        Inl _ \<Rightarrow> w
      | Inr dir \<Rightarrow> fold (lc_close lc) (fds_to_close lc preserved_fds w dir) w)"

section \<open>A process table\<close>

text \<open>Processes with their parent, group and session, the signal they get when the parent dies and
  their descriptors with flags.  \<open>kn_signals\<close> lists the signals that were sent, with the
  process that received them.\<close>

record Proc =
  pr_ppid :: int
  pr_pgid :: int
  pr_sid :: int
  pr_pdeathsig :: "int option"
  pr_fds :: "(int, int) hashmap"

record Kernel =
  kn_procs :: "(int, Proc) hashmap"
  kn_signals :: "(int \<times> int) list"

definition proc_of :: "Kernel \<Rightarrow> int \<Rightarrow> Proc" where
  "proc_of k pid = (case hm_get (kn_procs k) pid of Some p \<Rightarrow> p
     | None \<Rightarrow> \<lparr>pr_ppid = 0, pr_pgid = pid, pr_sid = pid, pr_pdeathsig = None, pr_fds = []\<rparr>)"

definition upd_proc :: "int \<Rightarrow> (Proc \<Rightarrow> Proc) \<Rightarrow> Kernel \<Rightarrow> Kernel" where
  "upd_proc pid f k = k\<lparr>kn_procs := hm_insert pid (f (proc_of k pid)) (kn_procs k)\<rparr>"

definition group_members :: "int \<Rightarrow> Kernel \<Rightarrow> int list" where
  "group_members pgid k = map fst (filter (\<lambda>(_, p). pr_pgid p = pgid) (kn_procs k))"

definition sys_setsid :: "int \<Rightarrow> Kernel \<Rightarrow> Kernel \<times> (int, int) result" where
  "sys_setsid me k =
     (if group_members me k \<noteq> [] then (k, Err EPERM)
      else (upd_proc me (\<lambda>p. p\<lparr>pr_sid := me, pr_pgid := me\<rparr>) k, Ok me))"

text \<open>\<^verbatim>\<open>setpgid(0, 0)\<close> is the only use.\<close>

definition sys_setpgid :: "int \<Rightarrow> int \<Rightarrow> int \<Rightarrow> Kernel \<Rightarrow> Kernel \<times> (int, unit) result" where
  "sys_setpgid me pid pgid k =
     (let pid = (if pid = 0 then me else pid); pgid = (if pgid = 0 then pid else pgid)
      in if pgid < 0 then (k, Err EINVAL)
         else if hm_get (kn_procs k) pid = None then (k, Err ESRCH)
         else if pr_sid (proc_of k pid) = pid then (k, Err EPERM)
         else (upd_proc pid (\<lambda>p. p\<lparr>pr_pgid := pgid\<rparr>) k, Ok ()))"

definition sys_getpgid :: "int \<Rightarrow> int \<Rightarrow> Kernel \<Rightarrow> (int, int) result" where
  "sys_getpgid me pid k =
     (let pid = (if pid = 0 then me else pid)
      in case hm_get (kn_procs k) pid of None \<Rightarrow> Err ESRCH | Some p \<Rightarrow> Ok (pr_pgid p))"

text \<open>\<^verbatim>\<open>killpg(0, sig)\<close> addresses the caller's own group and \<^verbatim>\<open>kill(-1, sig)\<close>
  every process but the first one and the caller.\<close>

definition killpg_targets :: "int \<Rightarrow> int \<Rightarrow> Kernel \<Rightarrow> int list" where
  "killpg_targets me pgrp k =
     (if pgrp = 0 then group_members (pr_pgid (proc_of k me)) k
      else if pgrp = 1 then filter (\<lambda>pid. pid \<noteq> 1 \<and> pid \<noteq> me) (hm_keys (kn_procs k))
      else group_members pgrp k)"

definition sys_killpg :: "int \<Rightarrow> int \<Rightarrow> int \<Rightarrow> Kernel \<Rightarrow> Kernel \<times> (int, unit) result" where
  "sys_killpg me pgrp sig k =
     (if pgrp < 0 then (k, Err EINVAL)
      else if killpg_targets me pgrp k = [] then (k, Err ESRCH)
      else (k\<lparr>kn_signals := kn_signals k @ map (\<lambda>pid. (pid, sig)) (killpg_targets me pgrp k)\<rparr>, Ok ()))"

definition posix :: "int \<Rightarrow> Kernel Libc" where
  "posix me =
     \<lparr>lc_setsid = sys_setsid me, lc_setpgid = sys_setpgid me, lc_getpgid = sys_getpgid me,
      lc_killpg = sys_killpg me,
      lc_pdeathsig = (\<lambda>sig k. (upd_proc me (\<lambda>p. p\<lparr>pr_pdeathsig := Some sig\<rparr>) k, Ok ())),
      lc_getppid = (\<lambda>k. pr_ppid (proc_of k me)),
      lc_raise = (\<lambda>sig k. k\<lparr>kn_signals := kn_signals k @ [(me, sig)]\<rparr>),
      lc_getfd = (\<lambda>fd k. case hm_get (pr_fds (proc_of k me)) fd of None \<Rightarrow> Err EBADF | Some fl \<Rightarrow> Ok fl),
      lc_setfd = (\<lambda>fd fl k. case hm_get (pr_fds (proc_of k me)) fd of None \<Rightarrow> (k, Err EBADF)
         | Some _ \<Rightarrow> (upd_proc me (\<lambda>p. p\<lparr>pr_fds := hm_insert fd fl (pr_fds p)\<rparr>) k, Ok ())),
      lc_close = (\<lambda>fd. upd_proc me (\<lambda>p. p\<lparr>pr_fds := hm_remove fd (pr_fds p)\<rparr>)),
      lc_dev_fd = (\<lambda>k. Ok (map (Some \<circ> dec_int) (hm_keys (pr_fds (proc_of k me)))))\<rparr>"

lemma posix_simps [simp]:
  "lc_setsid (posix me) = sys_setsid me" "lc_setpgid (posix me) = sys_setpgid me"
  "lc_getpgid (posix me) = sys_getpgid me" "lc_killpg (posix me) = sys_killpg me"
  "lc_pdeathsig (posix me) sig k = (upd_proc me (\<lambda>p. p\<lparr>pr_pdeathsig := Some sig\<rparr>) k, Ok ())"
  "lc_getppid (posix me) k = pr_ppid (proc_of k me)"
  "lc_raise (posix me) sig k = k\<lparr>kn_signals := kn_signals k @ [(me, sig)]\<rparr>"
  "lc_close (posix me) fd = upd_proc me (\<lambda>p. p\<lparr>pr_fds := hm_remove fd (pr_fds p)\<rparr>)"
  "lc_dev_fd (posix me) k = Ok (map (Some \<circ> dec_int) (hm_keys (pr_fds (proc_of k me))))"
  "lc_getfd (posix me) fd k =
     (case hm_get (pr_fds (proc_of k me)) fd of None \<Rightarrow> Err EBADF | Some fl \<Rightarrow> Ok fl)"
  "lc_setfd (posix me) fd fl k = (case hm_get (pr_fds (proc_of k me)) fd of None \<Rightarrow> (k, Err EBADF)
     | Some _ \<Rightarrow> (upd_proc me (\<lambda>p. p\<lparr>pr_fds := hm_insert fd fl (pr_fds p)\<rparr>) k, Ok ()))"
  by (simp_all add: posix_def)

text \<open>\<^verbatim>\<open>Command::spawn\<close>: the child starts as a copy of its parent, runs the hook, and
  \<^verbatim>\<open>exec\<close> closes the descriptors that carry \<^verbatim>\<open>FD_CLOEXEC\<close>.  When the
  hook or \<^verbatim>\<open>exec\<close> fails the child is reaped and the error reported.\<close>

definition sys_fork :: "int \<Rightarrow> int \<Rightarrow> Kernel \<Rightarrow> Kernel" where
  "sys_fork parent child k =
     k\<lparr>kn_procs := hm_insert child ((proc_of k parent)\<lparr>pr_ppid := parent, pr_pdeathsig := None\<rparr>) (kn_procs k)\<rparr>"

definition sys_exec :: "int \<Rightarrow> Kernel \<Rightarrow> Kernel" where
  "sys_exec me k = upd_proc me (\<lambda>p. p\<lparr>pr_fds := filter (\<lambda>(_, fl). fl AND FD_CLOEXEC = 0) (pr_fds p)\<rparr>) k"

definition command_spawn ::
  "int \<Rightarrow> int \<Rightarrow> (Kernel Libc \<Rightarrow> Kernel \<Rightarrow> Kernel \<times> (int, unit) result) \<Rightarrow> (int, unit) result \<Rightarrow>
     Kernel \<Rightarrow> Kernel \<times> (int, int) result" where
  "command_spawn parent child pre_exec exec_result k =
     (case pre_exec (posix child) (sys_fork parent child k) of
        (k', Inl e) \<Rightarrow> (k'\<lparr>kn_procs := hm_remove child (kn_procs k')\<rparr>, Err e)
      | (k', Inr _) \<Rightarrow>
          (case exec_result of
             Inl e \<Rightarrow> (k'\<lparr>kn_procs := hm_remove child (kn_procs k')\<rparr>, Err e)
           | Inr _ \<Rightarrow> (sys_exec child k', Ok child)))"

text \<open>The number of a new process is not the number of any process, group or session.\<close>

definition fresh_pid :: "Kernel \<Rightarrow> int \<Rightarrow> bool" where
  "fresh_pid k pid \<longleftrightarrow> 1 < pid \<and> pid < 2 ^ 31 \<and> hm_get (kn_procs k) pid = None \<and>
     list_all (\<lambda>(_, p). pr_pgid p \<noteq> pid \<and> pr_sid p \<noteq> pid) (kn_procs k)"

section \<open>Closing descriptors\<close>

lemma and_cloexec: "fl AND FD_CLOEXEC \<noteq> 0 \<longleftrightarrow> odd fl" "fl AND FD_CLOEXEC = 0 \<longleftrightarrow> even fl"
  by (simp_all add: FD_CLOEXEC_def and_one_eq odd_iff_mod_2_eq_one even_iff_mod_2_eq_zero)

lemma parse_i32_dec_int: "0 \<le> fd \<Longrightarrow> fd < 2 ^ 31 \<Longrightarrow> parse_i32 (dec_int fd) = Some fd"
proof -
  assume fd: "0 \<le> fd" "fd < 2 ^ 31"
  obtain c cs where d: "dec (nat fd) = c # cs" using dec_digits [of "nat fd"] by (cases "dec (nat fd)") auto
  then have "c \<noteq> CHR ''-''" using dec_digits [of "nat fd"] by (auto simp: is_ascii_digit_def)
  moreover have "parse_uint (2 ^ 31 - 1) (c # cs) = Some (nat fd)"
    using parse_uint_dec [of "nat fd" "2 ^ 31 - 1"] fd unfolding d by simp
  ultimately show ?thesis using fd d by (simp add: parse_i32_def dec_int_def)
qed

lemma proc_of_upd [simp]: "proc_of (upd_proc pid f k) p = (if p = pid then f (proc_of k pid) else proc_of k p)"
  by (simp add: proc_of_def upd_proc_def)

lemma upd_proc_signals [simp]: "kn_signals (upd_proc pid f k) = kn_signals k"
  by (simp add: upd_proc_def)

lemma upd_proc_get: "hm_get (kn_procs (upd_proc pid f k)) p =
    (if p = pid then Some (f (proc_of k pid)) else hm_get (kn_procs k) p)"
  by (simp add: upd_proc_def)

lemma upd_proc_wf: "hm_wf (kn_procs k) \<Longrightarrow> hm_wf (kn_procs (upd_proc pid f k))"
  by (simp add: upd_proc_def)

lemma hm_remove_filter: "hm_remove k m = filter (\<lambda>(j, _). j \<noteq> k) m"
  by (auto simp: hm_remove_def AList.delete_eq intro: filter_cong)

text \<open>A step that only changes the descriptors of one process.\<close>

definition only_fds :: "int \<Rightarrow> ((int, int) hashmap \<Rightarrow> (int, int) hashmap) \<Rightarrow> Kernel \<Rightarrow> Kernel \<Rightarrow> bool" where
  "only_fds me f k k' \<longleftrightarrow>
     (\<forall>p. hm_get (kn_procs k') p =
        (if p = me then map_option (\<lambda>q. q\<lparr>pr_fds := f (pr_fds q)\<rparr>) (hm_get (kn_procs k) me)
         else hm_get (kn_procs k) p)) \<and>
     kn_signals k' = kn_signals k \<and> (hm_wf (kn_procs k) \<longrightarrow> hm_wf (kn_procs k'))"

lemma only_fds_trans: "\<lbrakk>only_fds me f k k'; only_fds me g k' k''\<rbrakk> \<Longrightarrow> only_fds me (g \<circ> f) k k''"
  by (auto simp: only_fds_def option.map_comp o_def)

lemma only_fds_refl: "only_fds me (\<lambda>m. m) k k"
  by (auto simp: only_fds_def option.map_ident)

lemma close_one:
  "hm_get (kn_procs k) me = Some q \<Longrightarrow> only_fds me (hm_remove fd) k (lc_close (posix me) fd k)"
  by (auto simp: only_fds_def upd_proc_get upd_proc_wf proc_of_def)

lemma close_all:
  "hm_get (kn_procs k) me = Some q \<Longrightarrow>
     only_fds me (filter (\<lambda>(fd, _). fd \<notin> set fds)) k (fold (lc_close (posix me)) fds k)"
proof (induction fds arbitrary: k q)
  case Nil
  have "filter (\<lambda>(fd, _). fd \<notin> set []) m = m" for m :: "(int, int) hashmap"
    by (auto simp: case_prod_unfold)
  then show ?case using only_fds_refl [of me k] by (simp add: only_fds_def)
next
  case (Cons fd fds)
  have f: "filter (\<lambda>(j, _). j \<notin> set fds) \<circ> hm_remove fd = filter (\<lambda>(j, _). j \<notin> set (fd # fds))"
    by (rule ext) (auto simp: hm_remove_filter intro!: filter_cong)
  let ?k = "lc_close (posix me) fd k"
  have one: "only_fds me (hm_remove fd) k ?k" by (rule close_one) (rule Cons.prems)
  then have "hm_get (kn_procs ?k) me = Some (q\<lparr>pr_fds := hm_remove fd (pr_fds q)\<rparr>)"
    using Cons.prems by (simp add: only_fds_def)
  from only_fds_trans [OF one Cons.IH [OF this]] show ?case unfolding f by simp
qed

definition fds_wf :: "Proc \<Rightarrow> bool" where
  "fds_wf p \<longleftrightarrow> hm_wf (pr_fds p) \<and> list_all (\<lambda>(fd, _). 0 \<le> fd \<and> fd < 2 ^ 31) (pr_fds p)"

lemma dev_fd_entries:
  "list_all (\<lambda>(fd, _). 0 \<le> fd \<and> fd < 2 ^ 31) m \<Longrightarrow>
     List.map_filter entry_fd (map (Some \<circ> dec_int) (hm_keys m)) = hm_keys m"
  by (induction m) (auto simp: map_filter_def entry_fd_def hm_keys_def parse_i32_dec_int)

text \<open>The descriptors that stay: the standard streams, the preserved ones and those that
  \<^verbatim>\<open>exec\<close> closes anyway.\<close>

lemma close_inherited_posix:
  assumes q: "hm_get (kn_procs k) me = Some q" and fds: "fds_wf q"
  shows "only_fds me (\<lambda>_. filter (\<lambda>(fd, fl). fd \<le> 2 \<or> fd \<in> set preserved \<or> odd fl) (pr_fds q)) k
    (close_inherited_fds_except (posix me) preserved k)"
proof -
  have pq: "proc_of k me = q" using q by (simp add: proc_of_def)
  let ?close = "filter (\<lambda>num. \<not> keeps_open (posix me) preserved k num) (hm_keys (pr_fds q))"
  have wf: "hm_wf (pr_fds q)" and range: "list_all (\<lambda>(fd, _). 0 \<le> fd \<and> fd < 2 ^ 31) (pr_fds q)"
    using fds by (auto simp: fds_wf_def)
  have run: "close_inherited_fds_except (posix me) preserved k = fold (lc_close (posix me)) ?close k"
    using dev_fd_entries [OF range] by (simp add: close_inherited_fds_except_def fds_to_close_def o_def pq)
  have "fd \<notin> set ?close \<longleftrightarrow> fd \<le> 2 \<or> fd \<in> set preserved \<or> odd fl" if "(fd, fl) \<in> set (pr_fds q)" for fd fl
    using hm_entry_get [OF wf that] that
    by (auto simp: keeps_open_def and_cloexec hm_keys_def pq image_iff intro: bexI [of _ "(fd, fl)"])
  then have "filter (\<lambda>(fd, _). fd \<notin> set ?close) (pr_fds q) =
      filter (\<lambda>(fd, fl). fd \<le> 2 \<or> fd \<in> set preserved \<or> odd fl) (pr_fds q)"
    by (intro filter_cong) auto
  then show ?thesis using close_all [OF q, of ?close] q unfolding run by (simp add: only_fds_def)
qed

section \<open>Groups\<close>

lemma group_members_iff:
  "hm_wf (kn_procs k) \<Longrightarrow>
     pid \<in> set (group_members g k) \<longleftrightarrow> (\<exists>p. hm_get (kn_procs k) pid = Some p \<and> pr_pgid p = g)"
  by (auto simp: group_members_def image_iff dest: hm_entry_get hm_get_entry)

lemma fresh_pidD:
  assumes "fresh_pid k c" "hm_get (kn_procs k) p = Some q"
  shows "pr_pgid q \<noteq> c \<and> pr_sid q \<noteq> c \<and> p \<noteq> c"
  using assms hm_get_entry [OF assms(2)] by (auto simp: fresh_pid_def list_all_iff)

lemma fresh_pid_no_group: "fresh_pid k c \<Longrightarrow> group_members c k = []"
  by (auto simp: fresh_pid_def group_members_def filter_empty_conv list_all_iff)

lemma sys_fork_get:
  "hm_get (kn_procs k) parent = Some pp \<Longrightarrow>
     hm_get (kn_procs (sys_fork parent child k)) p =
       (if p = child then Some (pp\<lparr>pr_ppid := parent, pr_pdeathsig := None\<rparr>) else hm_get (kn_procs k) p)"
  by (simp add: sys_fork_def proc_of_def)

lemma sys_fork_wf: "hm_wf (kn_procs k) \<Longrightarrow> hm_wf (kn_procs (sys_fork parent child k))"
  by (simp add: sys_fork_def)

lemma sys_fork_signals [simp]: "kn_signals (sys_fork parent child k) = kn_signals k"
  by (simp add: sys_fork_def)

lemma sys_fork_group:
  assumes "fresh_pid k child" "hm_wf (kn_procs k)" "hm_get (kn_procs k) parent = Some pp"
  shows "group_members child (sys_fork parent child k) = []"
proof -
  have "pid \<notin> set (group_members child (sys_fork parent child k))" for pid
    using fresh_pidD [OF assms(1)] assms(3)
    by (auto simp: group_members_iff [OF sys_fork_wf [OF assms(2)]] sys_fork_get [OF assms(3)] split: if_splits)
  then show ?thesis by (metis last_in_set)
qed

text \<open>A freshly forked child becomes the leader of a new session and group.\<close>

lemma detach_forked:
  assumes "fresh_pid k child" "hm_wf (kn_procs k)" "hm_get (kn_procs k) parent = Some pp"
  shows "detach_from_tty (posix child) (sys_fork parent child k) =
    (upd_proc child (\<lambda>p. p\<lparr>pr_sid := child, pr_pgid := child\<rparr>) (sys_fork parent child k), Ok ())"
  using sys_fork_group [OF assms] by (simp add: detach_from_tty_def sys_setsid_def)

text \<open>What processes do on their own: start children, open a session, move themselves to their own
  or another group of their session, and end.\<close>

datatype kernel_event = KFork int int | KSetsid int | KSetpgid int int | KReap int

definition may_join :: "Kernel \<Rightarrow> int \<Rightarrow> int \<Rightarrow> bool" where
  "may_join k p g \<longleftrightarrow> hm_get (kn_procs k) p \<noteq> None \<and> pr_sid (proc_of k p) \<noteq> p \<and>
     (g = p \<or> list_ex (\<lambda>q. pr_sid (proc_of k q) = pr_sid (proc_of k p)) (group_members g k))"

fun kernel_step :: "kernel_event \<Rightarrow> Kernel \<Rightarrow> Kernel" where
  "kernel_step (KFork p c) k =
     (if hm_get (kn_procs k) p \<noteq> None \<and> fresh_pid k c then sys_fork p c k else k)"
| "kernel_step (KSetsid p) k = (if hm_get (kn_procs k) p \<noteq> None then fst (sys_setsid p k) else k)"
| "kernel_step (KSetpgid p g) k =
     (if may_join k p g then upd_proc p (\<lambda>q. q\<lparr>pr_pgid := g\<rparr>) k else k)"
| "kernel_step (KReap p) k = k\<lparr>kn_procs := hm_remove p (kn_procs k)\<rparr>"

definition kernel_run :: "kernel_event list \<Rightarrow> Kernel \<Rightarrow> Kernel" where
  "kernel_run evs k = fold kernel_step evs k"

text \<open>The processes of a set and those started from them that have neither ended nor moved to
  another group.\<close>

definition stays_step :: "kernel_event \<Rightarrow> Kernel \<Rightarrow> int list \<Rightarrow> int list" where
  "stays_step e k S =
     (case e of
        KFork p c \<Rightarrow> if p \<in> set S \<and> hm_get (kn_procs k) p \<noteq> None \<and> fresh_pid k c then c # S else S
      | KSetsid p \<Rightarrow> removeAll p S
      | KSetpgid p g \<Rightarrow> removeAll p S
      | KReap p \<Rightarrow> removeAll p S)"

fun stays :: "kernel_event list \<Rightarrow> Kernel \<Rightarrow> int list \<Rightarrow> int list" where
  "stays [] k S = S"
| "stays (e # evs) k S = stays evs (kernel_step e k) (stays_step e k S)"

text \<open>The situation of a group \<open>g\<close> opened by a child of \<open>agent\<close>: its members are in
  session \<open>g\<close>, the agent is not, and \<open>S\<close> are members.\<close>

definition group_inv :: "int \<Rightarrow> int \<Rightarrow> int list \<Rightarrow> Kernel \<Rightarrow> bool" where
  "group_inv agent g S k \<longleftrightarrow>
     hm_wf (kn_procs k) \<and> agent \<noteq> g \<and>
     (\<exists>a. hm_get (kn_procs k) agent = Some a \<and> pr_sid a \<noteq> g) \<and>
     (\<forall>p q. hm_get (kn_procs k) p = Some q \<and> (pr_pgid q = g \<or> p = g) \<longrightarrow> pr_sid q = g) \<and>
     (\<forall>p \<in> set S. \<exists>q. hm_get (kn_procs k) p = Some q \<and> pr_pgid q = g)"

lemma group_inv_agent: "group_inv agent g S k \<Longrightarrow> agent \<notin> set (group_members g k)"
  by (auto simp: group_inv_def group_members_iff)

lemma group_inv_members: "group_inv agent g S k \<Longrightarrow> set S \<subseteq> set (group_members g k)"
  by (auto simp: group_inv_def group_members_iff)

lemma group_inv_fork:
  assumes inv: "group_inv agent g S k" and f: "hm_get (kn_procs k) p = Some q" "fresh_pid k c" "c \<noteq> g"
  shows "group_inv agent g (if p \<in> set S then c # S else S) (sys_fork p c k)"
proof -
  obtain a where a: "hm_get (kn_procs k) agent = Some a" "pr_sid a \<noteq> g"
    and m: "\<And>x y. hm_get (kn_procs k) x = Some y \<and> (pr_pgid y = g \<or> x = g) \<Longrightarrow> pr_sid y = g"
    and s: "\<And>x. x \<in> set S \<Longrightarrow> \<exists>y. hm_get (kn_procs k) x = Some y \<and> pr_pgid y = g"
    using inv by (auto simp: group_inv_def)
  have "agent \<noteq> c" using fresh_pidD [OF f(2) a(1)] by simp
  moreover have "x \<noteq> c" if "x \<in> set S" for x using s [OF that] fresh_pidD [OF f(2)] by blast
  ultimately show ?thesis
    using inv a f s s [of p] sys_fork_wf [of k p c] m [of p q]
    by (auto simp: group_inv_def sys_fork_get [OF f(1)])
qed

lemma group_inv_setsid:
  assumes inv: "group_inv agent g S k"
  shows "group_inv agent g (removeAll p S) (fst (sys_setsid p k))"
proof (cases "group_members p k = []")
  case True
  have "p \<noteq> g \<or> S = []" using group_inv_members [OF inv] True by auto
  then show ?thesis
    using inv True upd_proc_wf [of k p]
    by (auto simp: sys_setsid_def group_inv_def upd_proc_get split: if_splits)
next
  case False
  then show ?thesis using inv by (auto simp: sys_setsid_def group_inv_def)
qed

lemma group_inv_setpgid:
  assumes inv: "group_inv agent g S k" and j: "may_join k p h"
  shows "group_inv agent g (removeAll p S) (upd_proc p (\<lambda>q. q\<lparr>pr_pgid := h\<rparr>) k)"
proof -
  have wf: "hm_wf (kn_procs k)"
    and m: "\<And>x y. hm_get (kn_procs k) x = Some y \<Longrightarrow> pr_pgid y = g \<or> x = g \<Longrightarrow> pr_sid y = g"
    using inv by (auto simp: group_inv_def)
  obtain q where q: "hm_get (kn_procs k) p = Some q" "pr_sid q \<noteq> p" "proc_of k p = q"
    using j by (auto simp: may_join_def proc_of_def)
  have "p \<noteq> g" using m [OF q(1)] q(2) by auto
  have "pr_sid q = g" if hg: "h = g"
  proof -
    obtain r where r: "r \<in> set (group_members g k)" "pr_sid (proc_of k r) = pr_sid q"
      using j hg q(3) \<open>p \<noteq> g\<close> unfolding may_join_def list_ex_iff by auto
    then obtain y where "hm_get (kn_procs k) r = Some y" "pr_pgid y = g" by (auto simp: group_members_iff [OF wf])
    then show ?thesis using m r(2) by (auto simp: proc_of_def)
  qed
  note hg = this
  let ?k = "upd_proc p (\<lambda>q. q\<lparr>pr_pgid := h\<rparr>) k"
  have get: "hm_get (kn_procs ?k) x = (if x = p then Some (q\<lparr>pr_pgid := h\<rparr>) else hm_get (kn_procs k) x)" for x
    by (simp add: upd_proc_get q(3))
  obtain a where a: "hm_get (kn_procs k) agent = Some a" "pr_sid a \<noteq> g"
    and s: "\<And>x. x \<in> set S \<Longrightarrow> \<exists>y. hm_get (kn_procs k) x = Some y \<and> pr_pgid y = g"
    using inv unfolding group_inv_def by blast
  have "\<exists>a. hm_get (kn_procs ?k) agent = Some a \<and> pr_sid a \<noteq> g"
    using a q(1) by (cases "agent = p") (auto simp: get)
  moreover have "pr_sid y = g" if "hm_get (kn_procs ?k) x = Some y" "pr_pgid y = g \<or> x = g" for x y
    using that hg m [of x y] \<open>p \<noteq> g\<close> by (cases "x = p") (auto simp: get)
  moreover have "\<exists>y. hm_get (kn_procs ?k) x = Some y \<and> pr_pgid y = g" if "x \<in> set (removeAll p S)" for x
    using that s [of x] by (simp add: get)
  ultimately show ?thesis
    using inv upd_proc_wf [OF wf, of p] unfolding group_inv_def by blast
qed

lemma group_inv_reap:
  "\<lbrakk>group_inv agent g S k; p \<noteq> agent\<rbrakk> \<Longrightarrow>
     group_inv agent g (removeAll p S) (k\<lparr>kn_procs := hm_remove p (kn_procs k)\<rparr>)"
  by (auto simp: group_inv_def split: if_splits)

definition harmless :: "int \<Rightarrow> int \<Rightarrow> kernel_event \<Rightarrow> bool" where
  "harmless agent g e \<longleftrightarrow> e \<noteq> KReap agent \<and> (case e of KFork p c \<Rightarrow> c \<noteq> g | _ \<Rightarrow> True)"

lemma group_inv_step:
  assumes inv: "group_inv agent g S k" and h: "harmless agent g e"
  shows "group_inv agent g (stays_step e k S) (kernel_step e k)"
proof (cases e)
  case (KFork p c)
  show ?thesis
  proof (cases "hm_get (kn_procs k) p \<noteq> None \<and> fresh_pid k c")
    case True
    then obtain q where q: "hm_get (kn_procs k) p = Some q" by auto
    then show ?thesis
      using group_inv_fork [OF inv q, of c] True h by (simp add: KFork stays_step_def harmless_def)
  next
    case False
    then show ?thesis using inv by (auto simp: KFork stays_step_def)
  qed
next
  case (KSetsid p)
  show ?thesis
  proof (cases "hm_get (kn_procs k) p")
    case None
    then have "removeAll p S = S" using inv by (auto simp: group_inv_def intro!: removeAll_id)
    then show ?thesis using inv None by (simp add: KSetsid stays_step_def)
  next
    case Some
    then show ?thesis using group_inv_setsid [OF inv, of p] by (simp add: KSetsid stays_step_def)
  qed
next
  case (KSetpgid p h)
  have "group_inv agent g (removeAll p S) k" using inv by (auto simp: group_inv_def)
  then show ?thesis
    using group_inv_setpgid [OF inv, of p h] by (auto simp: KSetpgid stays_step_def)
next
  case (KReap p)
  then show ?thesis using group_inv_reap [OF inv, of p] h by (auto simp: stays_step_def harmless_def)
qed

lemma group_inv_run:
  "\<lbrakk>group_inv agent g S k; list_all (harmless agent g) evs\<rbrakk> \<Longrightarrow>
     group_inv agent g (stays evs k S) (kernel_run evs k)"
proof (induction evs arbitrary: k S)
  case (Cons e evs)
  then show ?case using group_inv_step [OF Cons.prems(1), of e] by (simp add: kernel_run_def)
qed (simp add: kernel_run_def)

lemma kernel_run_signals: "kn_signals (kernel_run evs k) = kn_signals k"
proof (induction evs arbitrary: k)
  case (Cons e evs)
  have "kn_signals (kernel_step e k) = kn_signals k" by (cases e) (auto simp: sys_setsid_def)
  then show ?case using Cons by (simp add: kernel_run_def)
qed (simp add: kernel_run_def)

text \<open>Killing a group signals its members and nobody else.\<close>

lemma sint_pid: "0 \<le> pid \<Longrightarrow> pid < 2 ^ 31 \<Longrightarrow> sint (word_of_int pid :: 32 word) = pid"
  by (simp add: sint_uint signed_take_bit_int_eq_self uint_word_of_int)

lemma kill_group_signals:
  assumes "1 < g" "g < 2 ^ 31"
  shows "kill_process_group (posix me) (word_of_int g) k =
    (k\<lparr>kn_signals := kn_signals k @ map (\<lambda>p. (p, SIGKILL)) (group_members g k)\<rparr>,
     if group_members g k = [] then Err ESRCH else Ok ())"
  using assms sint_pid [of g]
  by (auto simp: kill_process_group_def sys_killpg_def killpg_targets_def decode_error_kind_def errno_defs)

text \<open>A group that no longer exists is reported as an error, not as \<^verbatim>\<open>Ok(false)\<close>
  or \<^verbatim>\<open>Ok(())\<close>: \<^verbatim>\<open>ESRCH\<close> is not of the kind \<^verbatim>\<open>NotFound\<close>.\<close>

lemma missing_group_is_error:
  assumes "1 < g" "g < 2 ^ 31" "group_members g k = []"
  shows "terminate_process_group (posix me) (word_of_int g) k = (k, Err ESRCH) \<and>
    kill_process_group (posix me) (word_of_int g) k = (k, Err ESRCH)"
  using assms sint_pid [of g]
  by (auto simp: terminate_process_group_def kill_process_group_def sys_killpg_def killpg_targets_def
      decode_error_kind_def errno_defs)

end
