(* ===== verification/Pty_Handle.thy ===== *)
theory Pty_Handle
  imports Process_Group
begin

text \<open>
  \<^verbatim>\<open>utils/pty/src/process.rs\<close> with the tasks that \<^verbatim>\<open>pipe.rs\<close> and
  \<^verbatim>\<open>pty.rs\<close> start around a child: the handle of a spawned process, the terminators,
  the loops that read its output, feed its input and wait for its exit, and the merging of two
  output receivers.  Mutexes are taken for single steps and never poisoned, since a panic aborts
  the program; a task is known by a number.  \<open>ProcSession\<close> puts a handle together with
  what its tasks share with it.
\<close>

section \<open>Terminal sizes\<close>

record TerminalSize =
  sz_rows :: "16 word"
  sz_cols :: "16 word"

definition terminal_size_default :: TerminalSize where
  "terminal_size_default = \<lparr>sz_rows = 24, sz_cols = 80\<rparr>"

text \<open>\<^verbatim>\<open>PtySize\<close> and \<^verbatim>\<open>libc::winsize\<close> have the same four fields.\<close>

record PtySize =
  ws_row :: "16 word"
  ws_col :: "16 word"
  ws_xpixel :: "16 word"
  ws_ypixel :: "16 word"

definition pty_size_from :: "TerminalSize \<Rightarrow> PtySize" where
  "pty_size_from sz = \<lparr>ws_row = sz_rows sz, ws_col = sz_cols sz, ws_xpixel = 0, ws_ypixel = 0\<rparr>"

section \<open>Terminators\<close>

datatype ChildTerminator =
    PipeChildTerminator "32 word"
  | PtyChildTerminator "32 word option"
  | RawPidTerminator "32 word"

definition pty_terminator_kill ::
  "'w Libc \<Rightarrow> ('w \<Rightarrow> 'w \<times> (int, unit) result) \<Rightarrow> 32 word option \<Rightarrow> 'w \<Rightarrow> 'w \<times> (int, unit) result" where
  "pty_terminator_kill lc child_kill process_group_id w =
     (case process_group_id of
        Some pgid \<Rightarrow>
          (case kill_process_group lc pgid w of
             (w, process_group_kill_result) \<Rightarrow>
               (case child_kill w of
                  (w, Inr _) \<Rightarrow> (w, Ok ())
                | (w, Inl err) \<Rightarrow>
                    (w, if decode_error_kind err = EkNotFound then process_group_kill_result
                        else case process_group_kill_result of Inr _ \<Rightarrow> Ok () | Inl _ \<Rightarrow> Err err)))
      | None \<Rightarrow> child_kill w)"

definition terminator_kill ::
  "'w Libc \<Rightarrow> ('w \<Rightarrow> 'w \<times> (int, unit) result) \<Rightarrow> ChildTerminator \<Rightarrow> 'w \<Rightarrow> 'w \<times> (int, unit) result" where
  "terminator_kill lc child_kill t w =
     (case t of
        PipeChildTerminator pgid \<Rightarrow> kill_process_group lc pgid w
      | PtyChildTerminator pgid \<Rightarrow> pty_terminator_kill lc child_kill pgid w
      | RawPidTerminator pgid \<Rightarrow> kill_process_group lc pgid w)"

section \<open>The handle\<close>

datatype PtyMasterHandle = Resizable nat | Opaque int

record ProcessHandle =
  hd_writer_tx :: bool
  hd_killer :: "ChildTerminator option"
  hd_reader_handle :: "nat option"
  hd_reader_abort_handles :: "nat list"
  hd_writer_handle :: "nat option"
  hd_wait_handle :: "nat option"
  hd_pty_handles :: "PtyMasterHandle option"

definition process_handle_new ::
  "ChildTerminator \<Rightarrow> nat \<Rightarrow> nat list \<Rightarrow> nat \<Rightarrow> nat \<Rightarrow> PtyMasterHandle option \<Rightarrow> ProcessHandle" where
  "process_handle_new killer reader aborts writer waiter pty =
     \<lparr>hd_writer_tx = True, hd_killer = Some killer, hd_reader_handle = Some reader,
      hd_reader_abort_handles = aborts, hd_writer_handle = Some writer, hd_wait_handle = Some waiter,
      hd_pty_handles = pty\<rparr>"

text \<open>The task that waits for the child: it gets the code, raises \<^verbatim>\<open>exit_status\<close>,
  stores \<^verbatim>\<open>exit_code\<close> and sends the code, one step each.\<close>

datatype wait_pc = WaitChild | StoreStatus int | StoreCode int | SendCode int | WaitDone

text \<open>\<open>ps_clones\<close> counts the senders cloned from the handle, \<open>ps_queue\<close> and
  \<open>ps_rx\<close> are the input channel and whether its receiver lives, \<open>ps_accepted\<close>
  the inputs that were put into it, \<open>ps_written\<close>
  those that reached \<^verbatim>\<open>write_all\<close> with its success, \<open>ps_kills\<close> the
  results of kills.  \<open>ps_blocking\<close>: the wait task runs on a thread, which an abort does not
  interrupt.\<close>

record 'w ProcSession =
  ps_world :: 'w
  ps_handle :: ProcessHandle
  ps_aborted :: "nat list"
  ps_kills :: "(int, unit) result list"
  ps_clones :: nat
  ps_queue :: "byte list list"
  ps_rx :: bool
  ps_accepted :: "byte list list"
  ps_written :: "(byte list \<times> bool) list"
  ps_exit_status :: bool
  ps_exit_code :: "int option"
  ps_wait :: wait_pc
  ps_exit_rx :: "int list"
  ps_blocking :: bool

definition has_exited :: "'w ProcSession \<Rightarrow> bool" where
  "has_exited s = ps_exit_status s"

definition exit_code :: "'w ProcSession \<Rightarrow> int option" where
  "exit_code s = ps_exit_code s"

text \<open>A sender of the input channel, or of a channel whose receiver is gone.\<close>

datatype Sender = LiveSender | DeadSender

definition writer_sender :: "'w ProcSession \<Rightarrow> 'w ProcSession \<times> Sender" where
  "writer_sender s =
     (if hd_writer_tx (ps_handle s) then (s\<lparr>ps_clones := ps_clones s + 1\<rparr>, LiveSender)
      else (s, DeadSender))"

record 'w Tty =
  tt_master_resize :: "nat \<Rightarrow> PtySize \<Rightarrow> 'w \<Rightarrow> 'w \<times> (string, unit) result"
  tt_winsize :: "int \<Rightarrow> PtySize \<Rightarrow> 'w \<Rightarrow> 'w \<times> (string, unit) result"

definition resize_raw_pty :: "'w Tty \<Rightarrow> int \<Rightarrow> TerminalSize \<Rightarrow> 'w \<Rightarrow> 'w \<times> (string, unit) result" where
  "resize_raw_pty tt raw_fd sz w =
     tt_winsize tt raw_fd \<lparr>ws_row = sz_rows sz, ws_col = sz_cols sz, ws_xpixel = 0, ws_ypixel = 0\<rparr> w"

definition resize :: "'w Tty \<Rightarrow> TerminalSize \<Rightarrow> 'w ProcSession \<Rightarrow> 'w ProcSession \<times> (string, unit) result" where
  "resize tt sz s =
     (case hd_pty_handles (ps_handle s) of
        None \<Rightarrow> (s, Err ''process is not attached to a PTY'')
      | Some master \<Rightarrow>
          (case (case master of Resizable m \<Rightarrow> tt_master_resize tt m (pty_size_from sz) (ps_world s)
                 | Opaque raw_fd \<Rightarrow> resize_raw_pty tt raw_fd sz (ps_world s)) of
             (w, r) \<Rightarrow> (s\<lparr>ps_world := w\<rparr>, r)))"

definition close_stdin :: "'w ProcSession \<Rightarrow> 'w ProcSession" where
  "close_stdin s = s\<lparr>ps_handle := (ps_handle s)\<lparr>hd_writer_tx := False\<rparr>\<rparr>"

definition request_terminate ::
  "'w Libc \<Rightarrow> ('w \<Rightarrow> 'w \<times> (int, unit) result) \<Rightarrow> 'w ProcSession \<Rightarrow> 'w ProcSession" where
  "request_terminate lc child_kill s =
     (case hd_killer (ps_handle s) of
        None \<Rightarrow> s
      | Some killer \<Rightarrow>
          (case terminator_kill lc child_kill killer (ps_world s) of
             (w, r) \<Rightarrow> s\<lparr>ps_world := w, ps_kills := ps_kills s @ [r],
                         ps_handle := (ps_handle s)\<lparr>hd_killer := None\<rparr>\<rparr>))"

definition abort_tasks :: "nat list \<Rightarrow> 'w ProcSession \<Rightarrow> 'w ProcSession" where
  "abort_tasks ts s = s\<lparr>ps_aborted := ps_aborted s @ ts\<rparr>"

definition opt_list :: "'a option \<Rightarrow> 'a list" where
  "opt_list x = (case x of None \<Rightarrow> [] | Some a \<Rightarrow> [a])"

definition terminate ::
  "'w Libc \<Rightarrow> ('w \<Rightarrow> 'w \<times> (int, unit) result) \<Rightarrow> 'w ProcSession \<Rightarrow> 'w ProcSession" where
  "terminate lc child_kill s =
     (let s = request_terminate lc child_kill s;
          h = ps_handle s;
          s = abort_tasks (opt_list (hd_reader_handle h)) s;
          s = abort_tasks (hd_reader_abort_handles h) s;
          s = abort_tasks (opt_list (hd_writer_handle h)) s;
          s = abort_tasks (opt_list (hd_wait_handle h)) s
      in s\<lparr>ps_handle := h\<lparr>hd_reader_handle := None, hd_reader_abort_handles := [],
             hd_writer_handle := None, hd_wait_handle := None\<rparr>\<rparr>)"

text \<open>Dropping the handle terminates and then drops its fields, among them the sender.\<close>

definition drop_handle ::
  "'w Libc \<Rightarrow> ('w \<Rightarrow> 'w \<times> (int, unit) result) \<Rightarrow> 'w ProcSession \<Rightarrow> 'w ProcSession" where
  "drop_handle lc child_kill s =
     (let s = terminate lc child_kill s
      in s\<lparr>ps_handle := (ps_handle s)\<lparr>hd_writer_tx := False, hd_pty_handles := None\<rparr>\<rparr>)"

section \<open>The tasks\<close>

text \<open>One turn of a reading loop on the result of \<^verbatim>\<open>read\<close>; the loop on a pseudo
  terminal also goes on after \<^verbatim>\<open>WouldBlock\<close>.\<close>

datatype reader_action = SendChunk "byte list" | ReadAgain | StopReading

definition read_turn :: "bool \<Rightarrow> (int, byte list) result \<Rightarrow> reader_action" where
  "read_turn on_pty r =
     (case r of
        Inr buf \<Rightarrow> if buf = [] then StopReading else SendChunk buf
      | Inl e \<Rightarrow>
          if decode_error_kind e = EkInterrupted then ReadAgain
          else if on_pty \<and> decode_error_kind e = EkWouldBlock then ReadAgain
          else StopReading)"

text \<open>The loop over the results of its reads: the chunks it sent and whether it has ended.\<close>

fun read_output_stream :: "bool \<Rightarrow> (int, byte list) result list \<Rightarrow> byte list list \<times> bool" where
  "read_output_stream on_pty [] = ([], False)"
| "read_output_stream on_pty (r # rs) =
     (case read_turn on_pty r of
        StopReading \<Rightarrow> ([], True)
      | ReadAgain \<Rightarrow> read_output_stream on_pty rs
      | SendChunk c \<Rightarrow> (case read_output_stream on_pty rs of (cs, d) \<Rightarrow> (c # cs, d)))"

text \<open>The writer task takes one input from the channel; errors of the write are dropped.\<close>

definition writer_turn :: "nat \<Rightarrow> bool \<Rightarrow> 'w ProcSession \<Rightarrow> 'w ProcSession" where
  "writer_turn writer write_ok s =
     (if \<not> ps_rx s then s
      else if writer \<in> set (ps_aborted s) then s\<lparr>ps_rx := False, ps_queue := []\<rparr>
      else case ps_queue s of
             bytes # q \<Rightarrow> s\<lparr>ps_queue := q, ps_written := ps_written s @ [(bytes, write_ok)]\<rparr>
           | [] \<Rightarrow> if \<not> hd_writer_tx (ps_handle s) \<and> ps_clones s = 0 then s\<lparr>ps_rx := False\<rparr> else s)"

definition wait_turn :: "nat \<Rightarrow> (int, int option) result \<Rightarrow> 'w ProcSession \<Rightarrow> 'w ProcSession" where
  "wait_turn waiter wait_result s =
     (case ps_wait s of
        WaitChild \<Rightarrow>
          if waiter \<in> set (ps_aborted s) \<and> \<not> ps_blocking s then s\<lparr>ps_wait := WaitDone\<rparr>
          else s\<lparr>ps_wait := StoreStatus
                 (case wait_result of Inr (Some code) \<Rightarrow> code | Inr None \<Rightarrow> - 1 | Inl _ \<Rightarrow> - 1)\<rparr>
      | StoreStatus code \<Rightarrow> s\<lparr>ps_exit_status := True, ps_wait := StoreCode code\<rparr>
      | StoreCode code \<Rightarrow> s\<lparr>ps_exit_code := Some code, ps_wait := SendCode code\<rparr>
      | SendCode code \<Rightarrow> s\<lparr>ps_exit_rx := ps_exit_rx s @ [code], ps_wait := WaitDone\<rparr>
      | WaitDone \<Rightarrow> s)"

text \<open>Sending input over a cloned sender waits while the channel of 128 is full and fails without a
  receiver; \<^const>\<open>None\<close> is waiting.\<close>

definition send_input :: "byte list \<Rightarrow> 'w ProcSession \<Rightarrow> ('w ProcSession \<times> bool) option" where
  "send_input bytes s =
     (if \<not> ps_rx s then Some (s, False)
      else if length (ps_queue s) < 128 then Some (s\<lparr>ps_queue := ps_queue s @ [bytes], ps_accepted := ps_accepted s @ [bytes]\<rparr>, True)
      else None)"

section \<open>Merging two receivers\<close>

text \<open>The channels with the chunks still to come (\<^const>\<open>None\<close> once it was seen closed), and
  what was broadcast.  One turn takes from the receiver that \<^verbatim>\<open>select!\<close> picks.\<close>

record Combine =
  cb_stdout :: "byte list list option"
  cb_stderr :: "byte list list option"
  cb_out :: "byte list list"

inductive combine_turn :: "Combine \<Rightarrow> Combine \<Rightarrow> bool" where
  stdout_chunk: "cb_stdout c = Some (x # xs) \<Longrightarrow>
    combine_turn c (c\<lparr>cb_stdout := Some xs, cb_out := cb_out c @ [x]\<rparr>)"
| stdout_closed: "cb_stdout c = Some [] \<Longrightarrow> combine_turn c (c\<lparr>cb_stdout := None\<rparr>)"
| stderr_chunk: "cb_stderr c = Some (x # xs) \<Longrightarrow>
    combine_turn c (c\<lparr>cb_stderr := Some xs, cb_out := cb_out c @ [x]\<rparr>)"
| stderr_closed: "cb_stderr c = Some [] \<Longrightarrow> combine_turn c (c\<lparr>cb_stderr := None\<rparr>)"

definition combine_start :: "byte list list \<Rightarrow> byte list list \<Rightarrow> Combine" where
  "combine_start stdout stderr = \<lparr>cb_stdout = Some stdout, cb_stderr = Some stderr, cb_out = []\<rparr>"

text \<open>The \<^verbatim>\<open>else\<close> branch: both receivers are closed.\<close>

definition combine_done :: "Combine \<Rightarrow> bool" where
  "combine_done c \<longleftrightarrow> cb_stdout c = None \<and> cb_stderr c = None"

section \<open>The life of a handle\<close>

text \<open>What can happen to a session: calls on the handle, sends over cloned senders, turns of its
  writer and wait tasks, and changes of the world by others.\<close>

datatype 'w handle_op =
    HRequestTerminate | HTerminate | HDrop | HCloseStdin
  | HWriterSender | HDropSender | HSend "byte list"
  | HWriterTurn bool | HWaitTurn "(int, int option) result" | HWorld 'w

fun handle_step ::
  "'w Libc \<Rightarrow> ('w \<Rightarrow> 'w \<times> (int, unit) result) \<Rightarrow> nat \<Rightarrow> nat \<Rightarrow> 'w handle_op \<Rightarrow> 'w ProcSession \<Rightarrow> 'w ProcSession" where
  "handle_step lc ck writer waiter HRequestTerminate s = request_terminate lc ck s"
| "handle_step lc ck writer waiter HTerminate s = terminate lc ck s"
| "handle_step lc ck writer waiter HDrop s = drop_handle lc ck s"
| "handle_step lc ck writer waiter HCloseStdin s = close_stdin s"
| "handle_step lc ck writer waiter HWriterSender s = fst (writer_sender s)"
| "handle_step lc ck writer waiter HDropSender s = s\<lparr>ps_clones := ps_clones s - 1\<rparr>"
| "handle_step lc ck writer waiter (HSend bytes) s =
     (if ps_clones s = 0 then s else case send_input bytes s of None \<Rightarrow> s | Some (s, _) \<Rightarrow> s)"
| "handle_step lc ck writer waiter (HWriterTurn ok) s = writer_turn writer ok s"
| "handle_step lc ck writer waiter (HWaitTurn r) s = wait_turn waiter r s"
| "handle_step lc ck writer waiter (HWorld w) s = s\<lparr>ps_world := w\<rparr>"

definition handle_run where
  "handle_run lc ck writer waiter ops s = foldl (\<lambda>s op. handle_step lc ck writer waiter op s) s ops"

definition live_handles :: "ProcessHandle \<Rightarrow> nat list" where
  "live_handles h = opt_list (hd_reader_handle h) @ hd_reader_abort_handles h @
     opt_list (hd_writer_handle h) @ opt_list (hd_wait_handle h)"

definition kill_once :: "'w ProcSession \<Rightarrow> bool" where
  "kill_once s \<longleftrightarrow> length (ps_kills s) = (if hd_killer (ps_handle s) = None then 1 else 0)"

definition tasks_owned :: "nat list \<Rightarrow> 'w ProcSession \<Rightarrow> bool" where
  "tasks_owned tasks s \<longleftrightarrow> (ps_aborted s, live_handles (ps_handle s)) \<in> {([], tasks), (tasks, [])}"

definition exit_order :: "nat \<Rightarrow> 'w ProcSession \<Rightarrow> bool" where
  "exit_order waiter s \<longleftrightarrow>
     (let e = (ps_exit_status s, ps_exit_code s, ps_exit_rx s)
      in case ps_wait s of
           WaitChild \<Rightarrow> e = (False, None, [])
         | StoreStatus c \<Rightarrow> e = (False, None, [])
         | StoreCode c \<Rightarrow> e = (True, None, [])
         | SendCode c \<Rightarrow> e = (True, Some c, [])
         | WaitDone \<Rightarrow> (\<exists>c. e = (True, Some c, [c])) \<or>
             (e = (False, None, []) \<and> waiter \<in> set (ps_aborted s) \<and> \<not> ps_blocking s))"

definition input_order :: "'w ProcSession \<Rightarrow> bool" where
  "input_order s \<longleftrightarrow> (\<exists>lost. map fst (ps_written s) @ ps_queue s @ lost = ps_accepted s \<and> (ps_rx s \<longrightarrow> lost = []))
     \<and> length (ps_queue s) \<le> 128"

text \<open>What each operation leaves alone.\<close>

lemma writer_turn_frame [simp]:
  "ps_kills (writer_turn w ok s) = ps_kills s" "ps_handle (writer_turn w ok s) = ps_handle s"
  "ps_aborted (writer_turn w ok s) = ps_aborted s" "ps_exit_status (writer_turn w ok s) = ps_exit_status s"
  "ps_exit_code (writer_turn w ok s) = ps_exit_code s" "ps_exit_rx (writer_turn w ok s) = ps_exit_rx s"
  "ps_wait (writer_turn w ok s) = ps_wait s" "ps_blocking (writer_turn w ok s) = ps_blocking s"
  by (simp_all add: writer_turn_def split: list.split)

lemma wait_turn_frame [simp]:
  "ps_kills (wait_turn w r s) = ps_kills s" "ps_handle (wait_turn w r s) = ps_handle s"
  "ps_aborted (wait_turn w r s) = ps_aborted s" "ps_queue (wait_turn w r s) = ps_queue s"
  "ps_rx (wait_turn w r s) = ps_rx s" "ps_accepted (wait_turn w r s) = ps_accepted s"
  "ps_written (wait_turn w r s) = ps_written s" "ps_blocking (wait_turn w r s) = ps_blocking s"
  by (simp_all add: wait_turn_def split: wait_pc.split)

lemma send_input_frame:
  "send_input bytes s = Some (s', ok) \<Longrightarrow>
     ps_kills s' = ps_kills s \<and> ps_handle s' = ps_handle s \<and> ps_aborted s' = ps_aborted s \<and>
     ps_exit_status s' = ps_exit_status s \<and> ps_exit_code s' = ps_exit_code s \<and>
     ps_exit_rx s' = ps_exit_rx s \<and> ps_wait s' = ps_wait s \<and> ps_blocking s' = ps_blocking s"
  by (auto simp: send_input_def split: if_splits)

lemma request_terminate_frame [simp]:
  "ps_exit_status (request_terminate lc ck s) = ps_exit_status s"
  "ps_exit_code (request_terminate lc ck s) = ps_exit_code s"
  "ps_exit_rx (request_terminate lc ck s) = ps_exit_rx s" "ps_wait (request_terminate lc ck s) = ps_wait s"
  "ps_blocking (request_terminate lc ck s) = ps_blocking s" "ps_queue (request_terminate lc ck s) = ps_queue s"
  "ps_rx (request_terminate lc ck s) = ps_rx s" "ps_accepted (request_terminate lc ck s) = ps_accepted s"
  "ps_written (request_terminate lc ck s) = ps_written s" "ps_aborted (request_terminate lc ck s) = ps_aborted s"
  "hd_reader_handle (ps_handle (request_terminate lc ck s)) = hd_reader_handle (ps_handle s)"
  "hd_reader_abort_handles (ps_handle (request_terminate lc ck s)) = hd_reader_abort_handles (ps_handle s)"
  "hd_writer_handle (ps_handle (request_terminate lc ck s)) = hd_writer_handle (ps_handle s)"
  "hd_wait_handle (ps_handle (request_terminate lc ck s)) = hd_wait_handle (ps_handle s)"
  "hd_killer (ps_handle (request_terminate lc ck s)) = None"
  by (simp_all add: request_terminate_def split: option.split prod.split)

lemma terminate_frame [simp]:
  "ps_exit_status (terminate lc ck s) = ps_exit_status s" "ps_exit_code (terminate lc ck s) = ps_exit_code s"
  "ps_exit_rx (terminate lc ck s) = ps_exit_rx s" "ps_wait (terminate lc ck s) = ps_wait s"
  "ps_blocking (terminate lc ck s) = ps_blocking s" "ps_queue (terminate lc ck s) = ps_queue s"
  "ps_rx (terminate lc ck s) = ps_rx s" "ps_accepted (terminate lc ck s) = ps_accepted s"
  "ps_written (terminate lc ck s) = ps_written s" "hd_killer (ps_handle (terminate lc ck s)) = None"
  "ps_kills (terminate lc ck s) = ps_kills (request_terminate lc ck s)"
  "ps_aborted (terminate lc ck s) = ps_aborted s @ live_handles (ps_handle s)"
  "live_handles (ps_handle (terminate lc ck s)) = []"
  by (simp_all add: terminate_def Let_def abort_tasks_def live_handles_def opt_list_def)

lemma drop_handle_frame [simp]:
  "ps_exit_status (drop_handle lc ck s) = ps_exit_status s" "ps_exit_code (drop_handle lc ck s) = ps_exit_code s"
  "ps_exit_rx (drop_handle lc ck s) = ps_exit_rx s" "ps_wait (drop_handle lc ck s) = ps_wait s"
  "ps_blocking (drop_handle lc ck s) = ps_blocking s" "ps_queue (drop_handle lc ck s) = ps_queue s"
  "ps_rx (drop_handle lc ck s) = ps_rx s" "ps_accepted (drop_handle lc ck s) = ps_accepted s"
  "ps_written (drop_handle lc ck s) = ps_written s" "hd_killer (ps_handle (drop_handle lc ck s)) = None"
  "ps_kills (drop_handle lc ck s) = ps_kills (request_terminate lc ck s)"
  "ps_aborted (drop_handle lc ck s) = ps_aborted s @ live_handles (ps_handle s)"
  "live_handles (ps_handle (drop_handle lc ck s)) = []"
  using terminate_frame [of lc ck s] by (simp_all add: drop_handle_def Let_def live_handles_def)

lemma request_terminate_live [simp]:
  "live_handles (ps_handle (request_terminate lc ck s)) = live_handles (ps_handle s)"
  by (simp add: live_handles_def)

lemma live_handles_writer [simp]: "live_handles (h\<lparr>hd_writer_tx := b\<rparr>) = live_handles h"
  by (simp add: live_handles_def)

lemma kill_once_request: "kill_once s \<Longrightarrow> length (ps_kills (request_terminate lc ck s)) = 1"
  by (auto simp: kill_once_def request_terminate_def split: option.splits prod.splits)

lemma kill_once_step: "kill_once s \<Longrightarrow> kill_once (handle_step lc ck writer waiter op s)"
  using kill_once_request [of s lc ck]
  by (cases op) (auto simp: kill_once_def close_stdin_def writer_sender_def dest!: send_input_frame split: option.split)

lemma tasks_owned_step: "tasks_owned tasks s \<Longrightarrow> tasks_owned tasks (handle_step lc ck writer waiter op s)"
  by (cases op) (auto simp: tasks_owned_def close_stdin_def writer_sender_def
      dest!: send_input_frame split: option.split)

lemma exit_order_wait: "exit_order waiter s \<Longrightarrow> exit_order waiter (wait_turn waiter r s)"
  by (cases "ps_wait s") (auto simp: exit_order_def wait_turn_def Let_def)

lemma exit_order_cong:
  "\<lbrakk>exit_order waiter s; ps_exit_status s' = ps_exit_status s; ps_exit_code s' = ps_exit_code s;
    ps_exit_rx s' = ps_exit_rx s; ps_wait s' = ps_wait s; ps_blocking s' = ps_blocking s;
    set (ps_aborted s) \<subseteq> set (ps_aborted s')\<rbrakk> \<Longrightarrow> exit_order waiter s'"
  by (auto simp: exit_order_def Let_def split: wait_pc.splits)

lemma exit_order_step:
  assumes "exit_order waiter s"
  shows "exit_order waiter (handle_step lc ck writer waiter op s)"
proof (cases op)
  case (HWaitTurn r)
  then show ?thesis using exit_order_wait [OF assms] by simp
next
  case (HSend bytes)
  then show ?thesis using assms
    by (auto intro: exit_order_cong dest!: send_input_frame split: option.split)
qed (auto intro!: exit_order_cong [OF assms] simp: close_stdin_def writer_sender_def)

lemma input_order_writer: "input_order s \<Longrightarrow> input_order (writer_turn writer ok s)"
proof (cases "ps_rx s")
  case True
  then show "input_order s \<Longrightarrow> ?thesis"
    by (auto simp: input_order_def writer_turn_def split: list.splits)
qed (simp add: writer_turn_def)

lemma input_order_step: "input_order s \<Longrightarrow> input_order (handle_step lc ck writer waiter op s)"
proof (cases op)
  case (HWriterTurn ok)
  then show "input_order s \<Longrightarrow> ?thesis" by (simp add: input_order_writer)
next
  case (HSend bytes)
  then show "input_order s \<Longrightarrow> ?thesis" by (auto simp: input_order_def send_input_def)
qed (auto simp: input_order_def close_stdin_def writer_sender_def)

definition session_inv :: "nat list \<Rightarrow> nat \<Rightarrow> 'w ProcSession \<Rightarrow> bool" where
  "session_inv tasks waiter s \<longleftrightarrow>
     kill_once s \<and> tasks_owned tasks s \<and> exit_order waiter s \<and> input_order s"

lemma session_inv_run:
  "session_inv tasks waiter s \<Longrightarrow> session_inv tasks waiter (handle_run lc ck writer waiter ops s)"
  unfolding handle_run_def
  by (induction ops arbitrary: s)
     (auto simp: session_inv_def kill_once_step tasks_owned_step exit_order_step input_order_step)

lemma terminate_complete: "tasks_owned tasks s \<Longrightarrow> ps_aborted (terminate lc ck s) = tasks"
  by (auto simp: tasks_owned_def)

lemma terminate_nothing:
  "\<lbrakk>hd_killer (ps_handle s) = None; live_handles (ps_handle s) = []\<rbrakk> \<Longrightarrow> terminate lc ck s = s"
  by (cases s) (auto simp: live_handles_def opt_list_def terminate_def request_terminate_def abort_tasks_def
      split: option.splits)

lemma terminate_idempotent: "terminate lc ck (terminate lc ck s) = terminate lc ck s"
  by (rule terminate_nothing) simp_all

section \<open>Reading\<close>

text \<open>A read that keeps the loop going, and the bytes it brought.\<close>

definition goes_on :: "bool \<Rightarrow> (int, byte list) result \<Rightarrow> bool" where
  "goes_on on_pty r \<longleftrightarrow> read_turn on_pty r \<noteq> StopReading"

definition read_bytes :: "(int, byte list) result \<Rightarrow> byte list" where
  "read_bytes r = (case r of Inr buf \<Rightarrow> buf | Inl _ \<Rightarrow> [])"

lemma read_output_stream_pre:
  "list_all (goes_on on_pty) rs \<Longrightarrow>
     read_output_stream on_pty (rs @ rest) =
       (filter (\<lambda>b. b \<noteq> []) (map read_bytes rs) @ fst (read_output_stream on_pty rest),
        snd (read_output_stream on_pty rest))"
  by (induction rs) (auto simp: goes_on_def read_turn_def read_bytes_def split: sum.splits prod.splits if_splits)

lemma concat_filter_nonempty: "concat (filter (\<lambda>b. b \<noteq> []) xs) = concat xs"
  by (induction xs) auto

section \<open>Merging\<close>

definition combine_sound :: "byte list list \<Rightarrow> byte list list \<Rightarrow> Combine \<Rightarrow> bool" where
  "combine_sound stdout stderr c \<longleftrightarrow>
     (\<exists>a b. stdout = a @ concat (opt_list (cb_stdout c)) \<and> stderr = b @ concat (opt_list (cb_stderr c)) \<and>
        cb_out c \<in> shuffles a b)"

lemma shuffles_snoc_left: "zs \<in> shuffles xs ys \<Longrightarrow> zs @ [x] \<in> shuffles (xs @ [x]) ys"
proof (induction zs arbitrary: xs ys)
  case (Cons z zs)
  from Cons.prems consider xs' where "xs = z # xs'" "zs \<in> shuffles xs' ys" | ys' where "ys = z # ys'" "zs \<in> shuffles xs ys'"
    by (auto simp: Cons_in_shuffles_iff neq_Nil_conv)
  then show ?case using Cons.IH by cases (auto intro: Cons_in_shuffles_leftI Cons_in_shuffles_rightI)
qed simp

lemma shuffles_snoc_right: "zs \<in> shuffles xs ys \<Longrightarrow> zs @ [y] \<in> shuffles xs (ys @ [y])"
  using shuffles_snoc_left [of zs ys xs y] by (simp add: shuffles_commutes)

lemma combine_sound_turn: "\<lbrakk>combine_turn c c'; combine_sound stdout stderr c\<rbrakk> \<Longrightarrow> combine_sound stdout stderr c'"
proof (induction rule: combine_turn.induct)
  case (stdout_chunk c x xs)
  then obtain a b where "stdout = a @ x # xs" "stderr = b @ concat (opt_list (cb_stderr c))" "cb_out c \<in> shuffles a b"
    by (auto simp: combine_sound_def opt_list_def)
  then show ?case using shuffles_snoc_left [of "cb_out c" a b x]
    by (auto simp: combine_sound_def opt_list_def intro!: exI [of _ "a @ [x]"])
next
  case (stderr_chunk c x xs)
  then obtain a b where "stdout = a @ concat (opt_list (cb_stdout c))" "stderr = b @ x # xs" "cb_out c \<in> shuffles a b"
    by (auto simp: combine_sound_def opt_list_def)
  then show ?case using shuffles_snoc_right [of "cb_out c" a b x]
    by (auto simp: combine_sound_def opt_list_def intro!: exI [of _ "b @ [x]"] exI [of _ a])
qed (auto simp: combine_sound_def opt_list_def)

definition combine_size :: "Combine \<Rightarrow> nat" where
  "combine_size c = (case cb_stdout c of None \<Rightarrow> 0 | Some xs \<Rightarrow> Suc (length xs)) +
     (case cb_stderr c of None \<Rightarrow> 0 | Some xs \<Rightarrow> Suc (length xs))"

lemma combine_turn_size: "combine_turn c c' \<Longrightarrow> combine_size c = Suc (combine_size c')"
  by (induction rule: combine_turn.induct) (auto simp: combine_size_def split: option.splits)

lemma combine_progress: "combine_done c \<or> (\<exists>c'. combine_turn c c')"
proof -
  consider "combine_done c" | xs where "cb_stdout c = Some xs" | xs where "cb_stderr c = Some xs"
    unfolding combine_done_def by (cases "cb_stdout c"; cases "cb_stderr c") auto
  then show ?thesis
  proof cases
    case 2
    then show ?thesis by (cases xs) (use combine_turn.intros in blast)+
  next
    case 3
    then show ?thesis by (cases xs) (use combine_turn.intros in blast)+
  qed simp
qed

lemma combine_sound_run:
  "combine_turn\<^sup>*\<^sup>* c c' \<Longrightarrow> combine_sound stdout stderr c \<Longrightarrow> combine_sound stdout stderr c'"
  by (induction rule: rtranclp_induct) (auto intro: combine_sound_turn)

lemma combine_finishes: "\<exists>c'. combine_turn\<^sup>*\<^sup>* c c' \<and> combine_done c'"
proof (induction "combine_size c" arbitrary: c rule: less_induct)
  case less
  show ?case
  proof (cases "combine_done c")
    case False
    then obtain c1 where c1: "combine_turn c c1" using combine_progress by blast
    then have "combine_size c1 < combine_size c" using combine_turn_size by fastforce
    from less [OF this] c1 show ?thesis by (meson converse_rtranclp_into_rtranclp)
  qed blast
qed

text \<open>Merging two output receivers: at every moment the broadcast chunks are a merge of initial
  parts of the two streams, each in its own order; every run can be continued to the end, no turn
  repeats work (each consumes a chunk or a closing), and at the end the broadcast is a merge of both
  streams in full.\<close>

theorem combined_output_is_merge:
  assumes run: "combine_turn\<^sup>*\<^sup>* (combine_start stdout stderr) c"
  shows "(\<exists>a b a' b'. stdout = a @ a' \<and> stderr = b @ b' \<and> cb_out c \<in> shuffles a b) \<and>
    (combine_done c \<longrightarrow> cb_out c \<in> shuffles stdout stderr) \<and>
    (\<forall>c'. combine_turn c c' \<longrightarrow> combine_size c = Suc (combine_size c')) \<and>
    (\<exists>c'. combine_turn\<^sup>*\<^sup>* c c' \<and> combine_done c')"
proof -
  have "combine_sound stdout stderr (combine_start stdout stderr)"
    by (auto simp: combine_sound_def combine_start_def opt_list_def)
  from combine_sound_run [OF run this] show ?thesis
    using combine_finishes [of c] combine_turn_size [of c]
    by (auto simp: combine_sound_def combine_done_def opt_list_def)
qed

theorem combined_output_is_merge_witness:
  "cb_out \<lparr>cb_stdout = Some [[2]], cb_stderr = Some [], cb_out = [[1], [3]]\<rparr> = [[1], [3]] \<and>
   (\<exists>c'. combine_turn\<^sup>*\<^sup>* \<lparr>cb_stdout = Some [[2]], cb_stderr = Some [], cb_out = [[1], [3]]\<rparr> c' \<and> combine_done c')"
proof -
  have "combine_turn (combine_start [[1], [2]] [[3]]) \<lparr>cb_stdout = Some [[2]], cb_stderr = Some [[3]], cb_out = [[1]]\<rparr>"
    using stdout_chunk [of "combine_start [[1], [2]] [[3]]" "[1]" "[[2]]"] by (simp add: combine_start_def)
  moreover have "combine_turn \<lparr>cb_stdout = Some [[2]], cb_stderr = Some [[3]], cb_out = [[1]]\<rparr>
      \<lparr>cb_stdout = Some [[2]], cb_stderr = Some [], cb_out = [[1], [3]]\<rparr>"
    using stderr_chunk [of "\<lparr>cb_stdout = Some [[2]], cb_stderr = Some [[3]], cb_out = [[1]]\<rparr>" "[3]" "[]"] by simp
  ultimately have "combine_turn\<^sup>*\<^sup>* (combine_start [[1], [2]] [[3]])
      \<lparr>cb_stdout = Some [[2]], cb_stderr = Some [], cb_out = [[1], [3]]\<rparr>" by auto
  from combined_output_is_merge [OF this] show ?thesis by simp
qed

end
