(* ===== verification/Pty_Spawn.thy ===== *)
theory Pty_Spawn
  imports Pty_Handle
begin

text \<open>
  Spawning, \<^verbatim>\<open>utils/pty/src/pipe.rs\<close> and \<^verbatim>\<open>pty.rs\<close>: the command that is
  built, the hook that the child runs before \<^verbatim>\<open>exec\<close>, the tasks and the handle that
  are made for the child, and the errors on the way.  \<^verbatim>\<open>Command::spawn\<close>,
  \<^verbatim>\<open>portable_pty\<close> and \<^verbatim>\<open>openpty\<close> are arguments; on the process table of
  \<open>Process_Group\<close> the first is \<open>command_spawn\<close>.
\<close>

section \<open>Commands\<close>

datatype Stdio = StdioPiped | StdioNull | StdioFd int

record Command =
  cm_program :: string
  cm_argv :: "string list"
  cm_cwd :: string
  cm_env :: "(string, string) hashmap"
  cm_stdin :: Stdio
  cm_stdout :: Stdio
  cm_stderr :: Stdio

text \<open>\<^verbatim>\<open>std::process::Command\<close>: the program with the arguments, \<^verbatim>\<open>argv[0]\<close>
  being the program unless \<^verbatim>\<open>arg0\<close> replaces it; the variables are added to the
  inherited environment.\<close>

definition std_argv :: "string \<Rightarrow> string option \<Rightarrow> string list \<Rightarrow> string list" where
  "std_argv program arg0 args = (case arg0 of Some a \<Rightarrow> a | None \<Rightarrow> program) # args"

datatype PipeStdinMode = Piped | NullStdin

definition pipe_command ::
  "string \<Rightarrow> string list \<Rightarrow> string \<Rightarrow> (string, string) hashmap \<Rightarrow> string option \<Rightarrow> PipeStdinMode \<Rightarrow> Command" where
  "pipe_command program args cwd env arg0 stdin_mode =
     \<lparr>cm_program = program, cm_argv = std_argv program arg0 args, cm_cwd = cwd, cm_env = env,
      cm_stdin = (case stdin_mode of Piped \<Rightarrow> StdioPiped | NullStdin \<Rightarrow> StdioNull),
      cm_stdout = StdioPiped, cm_stderr = StdioPiped\<rparr>"

definition pipe_pre_exec :: "int \<Rightarrow> int list \<Rightarrow> 'w Libc \<Rightarrow> 'w \<Rightarrow> 'w \<times> (int, unit) result" where
  "pipe_pre_exec parent_pid inherited_fds lc w =
     and_then (detach_from_tty lc w) (\<lambda>_ w.
       and_then (set_parent_death_signal lc parent_pid w) (\<lambda>_ w.
         (close_inherited_fds_except lc inherited_fds w, Ok ())))"

section \<open>Pipes\<close>

text \<open>The result of a spawn: the session with its handle, and for each output channel the task that
  holds its sender, or \<^const>\<open>None\<close> when the sender is dropped at once.\<close>

record 'w SpawnedProcess =
  sp_session :: "'w ProcSession"
  sp_stdout :: "nat option"
  sp_stderr :: "nat option"

definition stdout_task :: nat where "stdout_task = 0"
definition stderr_task :: nat where "stderr_task = 1"
definition reader_task_id :: nat where "reader_task_id = 2"
definition writer_task_id :: nat where "writer_task_id = 3"
definition wait_task_id :: nat where "wait_task_id = 4"

lemmas task_defs = stdout_task_def stderr_task_def reader_task_id_def writer_task_id_def wait_task_id_def

definition proc_session_new :: "ProcessHandle \<Rightarrow> bool \<Rightarrow> bool \<Rightarrow> 'w \<Rightarrow> 'w ProcSession" where
  "proc_session_new h stdin_open blocking w =
     \<lparr>ps_world = w, ps_handle = h, ps_aborted = [], ps_kills = [], ps_clones = 0, ps_queue = [],
      ps_rx = stdin_open, ps_accepted = [], ps_written = [], ps_exit_status = False, ps_exit_code = None,
      ps_wait = WaitChild, ps_exit_rx = [], ps_blocking = blocking\<rparr>"

type_synonym ('w, 'i) spawn_call =
  "Command \<Rightarrow> ('w Libc \<Rightarrow> 'w \<Rightarrow> 'w \<times> (int, unit) result) \<Rightarrow> 'w \<Rightarrow> 'w \<times> (string, 'i) result"

definition spawn_process_with_stdin_mode ::
  "('w, 32 word option) spawn_call \<Rightarrow> int \<Rightarrow> string \<Rightarrow> string list \<Rightarrow> string \<Rightarrow> (string, string) hashmap \<Rightarrow> string option \<Rightarrow>
     PipeStdinMode \<Rightarrow> int list \<Rightarrow> 'w \<Rightarrow> 'w \<times> (string, 'w SpawnedProcess) result" where
  "spawn_process_with_stdin_mode spawn parent_pid program args cwd env arg0 stdin_mode inherited_fds w =
     (if program = [] then (w, Err ''missing program for pipe spawn'')
      else and_then (spawn (pipe_command program args cwd env arg0 stdin_mode)
                       (pipe_pre_exec parent_pid inherited_fds) w) (\<lambda>child_id w.
        case child_id of
          None \<Rightarrow> (w, Err ''missing child pid'')
        | Some pid \<Rightarrow>
            (w, Ok \<lparr>sp_session = proc_session_new
                      (process_handle_new (PipeChildTerminator pid) reader_task_id
                         [stdout_task, stderr_task] writer_task_id wait_task_id None)
                      (stdin_mode = Piped) False w,
                    sp_stdout = Some stdout_task, sp_stderr = Some stderr_task\<rparr>)))"

definition spawn_pipe_process where
  "spawn_pipe_process spawn parent_pid program args cwd env arg0 w =
     spawn_process_with_stdin_mode spawn parent_pid program args cwd env arg0 Piped [] w"

definition spawn_process_no_stdin_with_inherited_fds where
  "spawn_process_no_stdin_with_inherited_fds spawn parent_pid program args cwd env arg0 inherited_fds w =
     spawn_process_with_stdin_mode spawn parent_pid program args cwd env arg0 NullStdin inherited_fds w"

definition spawn_pipe_process_no_stdin where
  "spawn_pipe_process_no_stdin spawn parent_pid program args cwd env arg0 w =
     spawn_process_no_stdin_with_inherited_fds spawn parent_pid program args cwd env arg0 [] w"

section \<open>Pseudo terminals\<close>

text \<open>The calls of \<^verbatim>\<open>portable_pty\<close> and of \<^verbatim>\<open>libc\<close> on terminals.\<close>

record 'w PtySystem =
  py_openpty :: "PtySize \<Rightarrow> 'w \<Rightarrow> 'w \<times> (string, nat) result"
  py_spawn_command :: "nat \<Rightarrow> Command \<Rightarrow> 'w \<Rightarrow> 'w \<times> (string, 32 word option) result"
  py_try_clone_reader :: "nat \<Rightarrow> 'w \<Rightarrow> 'w \<times> (string, unit) result"
  py_take_writer :: "nat \<Rightarrow> 'w \<Rightarrow> 'w \<times> (string, unit) result"

record 'w RawPty =
  rw_openpty :: "PtySize \<Rightarrow> 'w \<Rightarrow> 'w \<times> (int, int \<times> int) result"
  rw_try_clone :: "int \<Rightarrow> 'w \<Rightarrow> 'w \<times> (string, int) result"
  rw_drop :: "int \<Rightarrow> 'w \<Rightarrow> 'w"

record 'w TtyHook =
  th_signal_default :: "int \<Rightarrow> 'w \<Rightarrow> 'w"
  th_empty_sigmask :: "'w \<Rightarrow> 'w"
  th_sctty :: "int \<Rightarrow> 'w \<Rightarrow> 'w \<times> (int, unit) result"

text \<open>The builder is given \<^verbatim>\<open>arg0\<close>, when there is one, in the place of the program.\<close>

definition portable_command ::
  "string \<Rightarrow> string list \<Rightarrow> string \<Rightarrow> (string, string) hashmap \<Rightarrow> string option \<Rightarrow> Command" where
  "portable_command program args cwd env arg0 =
     (let p = (case arg0 of Some a \<Rightarrow> a | None \<Rightarrow> program)
      in \<lparr>cm_program = p, cm_argv = p # args, cm_cwd = cwd, cm_env = env,
          cm_stdin = StdioFd 0, cm_stdout = StdioFd 0, cm_stderr = StdioFd 0\<rparr>)"

definition pty_session ::
  "ChildTerminator \<Rightarrow> PtyMasterHandle \<Rightarrow> 'w \<Rightarrow> 'w SpawnedProcess" where
  "pty_session killer master w =
     \<lparr>sp_session = proc_session_new
        (process_handle_new killer reader_task_id [] writer_task_id wait_task_id (Some master)) True True w,
      sp_stdout = Some reader_task_id, sp_stderr = None\<rparr>"

definition spawn_process_portable ::
  "'w PtySystem \<Rightarrow> string \<Rightarrow> string list \<Rightarrow> string \<Rightarrow> (string, string) hashmap \<Rightarrow> string option \<Rightarrow>
     TerminalSize \<Rightarrow> 'w \<Rightarrow> 'w \<times> (string, 'w SpawnedProcess) result" where
  "spawn_process_portable py program args cwd env arg0 sz w =
     and_then (py_openpty py (pty_size_from sz) w) (\<lambda>master w.
       and_then (py_spawn_command py master (portable_command program args cwd env arg0) w) (\<lambda>process_group_id w.
         and_then (py_try_clone_reader py master w) (\<lambda>_ w.
           and_then (py_take_writer py master w) (\<lambda>_ w.
             (w, Ok (pty_session (PtyChildTerminator process_group_id) (Resizable master) w))))))"

definition pty_pre_exec ::
  "'w TtyHook \<Rightarrow> int list \<Rightarrow> 'w Libc \<Rightarrow> 'w \<Rightarrow> 'w \<times> (int, unit) result" where
  "pty_pre_exec th inherited_fds lc w =
     (let w = fold (th_signal_default th) [SIGCHLD, SIGHUP, SIGINT, SIGQUIT, SIGTERM, SIGALRM] w;
          w = th_empty_sigmask th w
      in and_then (lc_setsid lc w) (\<lambda>_ w.
           and_then (th_sctty th 0 w) (\<lambda>_ w.
             (close_inherited_fds_except lc inherited_fds w, Ok ()))))"

definition io_text :: "'w \<times> (int, 'a) result \<Rightarrow> (int \<Rightarrow> string) \<Rightarrow> 'w \<times> (string, 'a) result" where
  "io_text r f = (case r of (w, Inl e) \<Rightarrow> (w, Err (f e)) | (w, Inr a) \<Rightarrow> (w, Ok a))"

definition open_unix_pty ::
  "(int \<Rightarrow> string) \<Rightarrow> 'w Libc \<Rightarrow> 'w RawPty \<Rightarrow> TerminalSize \<Rightarrow> 'w \<Rightarrow> 'w \<times> (string, int \<times> int) result" where
  "open_unix_pty strerror lc rw sz w =
     and_then (io_text (rw_openpty rw (pty_size_from sz) w) (\<lambda>e. ''failed to openpty: '' @ strerror e)) (\<lambda>(master, slave) w.
       and_then (io_text (set_cloexec lc master w) strerror) (\<lambda>_ w.
         and_then (io_text (set_cloexec lc slave w) strerror) (\<lambda>_ w. (w, Ok (master, slave)))))"

definition spawn_process_preserving_fds ::
  "(int \<Rightarrow> string) \<Rightarrow> 'w Libc \<Rightarrow> 'w RawPty \<Rightarrow> 'w TtyHook \<Rightarrow> ('w, 32 word) spawn_call \<Rightarrow> string \<Rightarrow> string list \<Rightarrow> string \<Rightarrow>
     (string, string) hashmap \<Rightarrow> string option \<Rightarrow> TerminalSize \<Rightarrow> int list \<Rightarrow> 'w \<Rightarrow>
     'w \<times> (string, 'w SpawnedProcess) result" where
  "spawn_process_preserving_fds strerror lc rw th spawn program args cwd env arg0 sz inherited_fds w =
     and_then (open_unix_pty strerror lc rw sz w) (\<lambda>(master, slave) w.
       and_then (rw_try_clone rw slave w) (\<lambda>stdin w.
       and_then (rw_try_clone rw slave w) (\<lambda>stdout w.
       and_then (rw_try_clone rw slave w) (\<lambda>stderr w.
       and_then (spawn \<lparr>cm_program = program, cm_argv = std_argv program arg0 args, cm_cwd = cwd, cm_env = env,
                         cm_stdin = StdioFd stdin, cm_stdout = StdioFd stdout, cm_stderr = StdioFd stderr\<rparr>
                   (pty_pre_exec th inherited_fds) w) (\<lambda>process_group_id w.
         (let w = rw_drop rw slave w
          in and_then (rw_try_clone rw master w) (\<lambda>_ w.
               and_then (rw_try_clone rw master w) (\<lambda>_ w.
                 (w, Ok (pty_session (RawPidTerminator process_group_id) (Opaque master) w))))))))))"

definition spawn_process_with_inherited_fds where
  "spawn_process_with_inherited_fds strerror lc rw th spawn py program args cwd env arg0 sz inherited_fds w =
     (if program = [] then (w, Err ''missing program for PTY spawn'')
      else if inherited_fds \<noteq> []
      then spawn_process_preserving_fds strerror lc rw th spawn program args cwd env arg0 sz inherited_fds w
      else spawn_process_portable py program args cwd env arg0 sz w)"

definition spawn_pty_process where
  "spawn_pty_process strerror lc rw th spawn py program args cwd env arg0 sz w =
     spawn_process_with_inherited_fds strerror lc rw th spawn py program args cwd env arg0 sz [] w"

section \<open>What is run\<close>

text \<open>Over pipes, and on a terminal that preserves descriptors, \<^verbatim>\<open>arg0\<close> only changes
  \<^verbatim>\<open>argv[0]\<close>; on an ordinary terminal it replaces the program.\<close>

lemma portable_program:
  "cm_program (portable_command program args cwd env arg0) = (case arg0 of Some a \<Rightarrow> a | None \<Rightarrow> program)"
  "cm_program (pipe_command program args cwd env arg0 m) = program"
  "cm_argv (portable_command program args cwd env arg0) = cm_argv (pipe_command program args cwd env arg0 m)"
  by (simp_all add: portable_command_def pipe_command_def std_argv_def split: option.split)

text \<open>When the master cannot be cloned after the child was started, the error is returned and
  nothing is done about the child.\<close>

lemma portable_error_keeps_child:
  assumes "py_openpty py (pty_size_from sz) w = (w1, Ok master)"
    and "py_spawn_command py master (portable_command program args cwd env arg0) w1 = (w2, Ok child)"
    and "py_try_clone_reader py master w2 = (w3, Err e)"
  shows "spawn_process_portable py program args cwd env arg0 sz w = (w3, Err e)"
  using assms by (simp add: spawn_process_portable_def)

section \<open>Sessions of spawned processes\<close>

definition fresh_session :: "'w ProcSession \<Rightarrow> bool" where
  "fresh_session s \<longleftrightarrow> (\<exists>killer aborts pty stdin_open blocking w.
     s = proc_session_new (process_handle_new killer reader_task_id aborts writer_task_id wait_task_id pty)
           stdin_open blocking w \<and> (aborts = [] \<or> aborts = [stdout_task, stderr_task]))"

lemma fresh_sessionI:
  "aborts = [] \<or> aborts = [stdout_task, stderr_task] \<Longrightarrow>
     fresh_session (proc_session_new (process_handle_new killer reader_task_id aborts writer_task_id wait_task_id pty)
       stdin_open blocking w)"
  unfolding fresh_session_def by blast

lemma pipe_session_fresh:
  "spawn_process_with_stdin_mode spawn parent program args cwd env arg0 m fds w = (w', Ok sp) \<Longrightarrow>
     fresh_session (sp_session sp)"
  by (auto simp: spawn_process_with_stdin_mode_def and_then_eq_Ok fresh_sessionI split: if_splits option.splits)

lemma pty_session_fresh: "fresh_session (sp_session (pty_session killer master w))"
  by (simp add: pty_session_def fresh_sessionI)

lemma pty_spawn_fresh:
  "spawn_process_with_inherited_fds strerror lc rw th spawn py program args cwd env arg0 sz fds w = (w', Ok sp) \<Longrightarrow>
     fresh_session (sp_session sp)"
  by (auto simp: spawn_process_with_inherited_fds_def spawn_process_preserving_fds_def spawn_process_portable_def
      and_then_eq_Ok Let_def pty_session_fresh split: if_splits prod.splits)

lemma fresh_session_inv:
  assumes "fresh_session s"
  shows "session_inv (live_handles (ps_handle s)) wait_task_id s" "distinct (live_handles (ps_handle s))"
  using assms
  by (auto simp: fresh_session_def session_inv_def kill_once_def tasks_owned_def exit_order_def input_order_def
      proc_session_new_def process_handle_new_def live_handles_def opt_list_def task_defs Let_def)

text \<open>C20. The handle of a process that was spawned over pipes or on a terminal, under any sequence of
  calls on the handle, sends of input and turns of its tasks: the child is killed at most once and
  no task is aborted twice; terminating (again) leaves every task aborted and the child killed
  exactly once, and changes nothing the second time; the exit code is delivered at most once, it is
  the one that the handle reports, and the handle then also says that the process has exited; and
  the input that reached the child is an initial part of the input that was accepted, in order.\<close>

theorem process_handle_lifecycle:
  assumes "spawn_process_with_stdin_mode spawn parent program args cwd env arg0 m fds w = (w', Ok sp) \<or>
    spawn_process_with_inherited_fds strerror lc0 rw th spawn' py program args cwd env arg0 sz fds w = (w', Ok sp)"
    and s: "s = handle_run lc child_kill writer_task_id wait_task_id ops (sp_session sp)"
  shows "length (ps_kills s) \<le> 1 \<and> distinct (ps_aborted s) \<and>
    ps_aborted (terminate lc child_kill s) = live_handles (ps_handle (sp_session sp)) \<and>
    length (ps_kills (terminate lc child_kill s)) = 1 \<and>
    terminate lc child_kill (terminate lc child_kill s) = terminate lc child_kill s \<and>
    length (ps_exit_rx s) \<le> 1 \<and>
    (\<forall>code \<in> set (ps_exit_rx s). exit_code s = Some code) \<and>
    (exit_code s \<noteq> None \<longrightarrow> has_exited s) \<and>
    (\<exists>rest. map fst (ps_written s) @ rest = ps_accepted s)"
proof -
  have f: "fresh_session (sp_session sp)" 
    using assms(1) by (elim disjE) (erule pipe_session_fresh, erule pty_spawn_fresh)
  let ?tasks = "live_handles (ps_handle (sp_session sp))"
  have inv: "session_inv ?tasks wait_task_id s"
    unfolding s by (rule session_inv_run) (rule fresh_session_inv [OF f])
  have "kill_once s" "tasks_owned ?tasks s" "exit_order wait_task_id s" "input_order s"
    using inv by (simp_all add: session_inv_def)
  moreover have "length (ps_exit_rx s) \<le> 1 \<and> (\<forall>code \<in> set (ps_exit_rx s). exit_code s = Some code) \<and>
      (exit_code s \<noteq> None \<longrightarrow> has_exited s)"
    using \<open>exit_order wait_task_id s\<close>
    by (auto simp: exit_order_def exit_code_def has_exited_def Let_def split: wait_pc.splits)
  moreover have "\<exists>rest. map fst (ps_written s) @ rest = ps_accepted s"
    using \<open>input_order s\<close> by (auto simp: input_order_def)
  moreover have "distinct (ps_aborted s)"
    using fresh_session_inv(2) [OF f] \<open>tasks_owned ?tasks s\<close> by (auto simp: tasks_owned_def)
  ultimately show ?thesis
    using kill_once_request [of s lc child_kill] terminate_complete [of ?tasks s lc child_kill]
      terminate_idempotent [of lc child_kill s]
    by (simp add: kill_once_def)
qed

theorem process_handle_lifecycle_witness:
  "length (ps_kills (terminate (posix 1) (\<lambda>k. (k, Ok ())) (handle_run (posix 1) (\<lambda>k. (k, Ok ())) writer_task_id wait_task_id
     [HWriterSender, HSend [104, 105], HWriterTurn True, HRequestTerminate, HWaitTurn (Ok None), HTerminate]
     (sp_session (pty_session (PtyChildTerminator (Some 42)) (Resizable 0) \<lparr>kn_procs = [], kn_signals = []\<rparr>))))) = 1"
proof -
  let ?py = "\<lparr>py_openpty = (\<lambda>_ w. (w, Ok 0)), py_spawn_command = (\<lambda>_ _ w. (w, Ok (Some 42))),
     py_try_clone_reader = (\<lambda>_ w. (w, Ok ())), py_take_writer = (\<lambda>_ w. (w, Ok ()))\<rparr>"
  have "spawn_process_with_inherited_fds strerror lc rw th spawn ?py ''sh'' [] ''/'' [] None terminal_size_default []
      \<lparr>kn_procs = [], kn_signals = []\<rparr> = (\<lparr>kn_procs = [], kn_signals = []\<rparr>,
      Ok (pty_session (PtyChildTerminator (Some 42)) (Resizable 0) \<lparr>kn_procs = [], kn_signals = []\<rparr>))"
    for strerror and lc :: "Kernel Libc" and rw th spawn
    by (simp add: spawn_process_with_inherited_fds_def spawn_process_portable_def)
  from process_handle_lifecycle [OF disjI2 [OF this] refl] show ?thesis by blast
qed

section \<open>Killing a piped process\<close>

definition spawned_child :: "int \<Rightarrow> int \<Rightarrow> int list \<Rightarrow> Proc \<Rightarrow> Proc" where
  "spawned_child parent child preserved pp =
     pp\<lparr>pr_ppid := parent, pr_pgid := child, pr_sid := child, pr_pdeathsig := Some SIGTERM,
        pr_fds := filter (\<lambda>(fd, fl). (fd \<le> 2 \<or> fd \<in> set preserved) \<and> even fl) (pr_fds pp)\<rparr>"

lemma pipe_child_spawned:
  assumes k: "fresh_pid k child" "hm_wf (kn_procs k)" and p: "hm_get (kn_procs k) parent = Some pp" "fds_wf pp"
  shows "\<exists>k'. command_spawn parent child (pipe_pre_exec parent preserved) (Ok ()) k = (k', Ok child) \<and>
    hm_wf (kn_procs k') \<and> kn_signals k' = kn_signals k \<and>
    (\<forall>x. hm_get (kn_procs k') x =
       (if x = child then Some (spawned_child parent child preserved pp) else hm_get (kn_procs k) x))"
proof -
  let ?k1 = "sys_fork parent child k"
  let ?k2 = "upd_proc child (\<lambda>p. p\<lparr>pr_sid := child, pr_pgid := child\<rparr>) ?k1"
  let ?k3 = "upd_proc child (\<lambda>p. p\<lparr>pr_pdeathsig := Some SIGTERM\<rparr>) ?k2"
  let ?q = "pp\<lparr>pr_ppid := parent, pr_pgid := child, pr_sid := child, pr_pdeathsig := Some SIGTERM\<rparr>"
  let ?k4 = "close_inherited_fds_except (posix child) preserved ?k3"
  have c1: "proc_of ?k1 child = pp\<lparr>pr_ppid := parent, pr_pdeathsig := None\<rparr>"
    using sys_fork_get [OF p(1), of child child] by (simp add: proc_of_def)
  have q: "hm_get (kn_procs ?k3) child = Some ?q" by (simp add: upd_proc_get c1)
  have close: "only_fds child (\<lambda>_. filter (\<lambda>(fd, fl). fd \<le> 2 \<or> fd \<in> set preserved \<or> odd fl) (pr_fds ?q)) ?k3 ?k4"
    by (rule close_inherited_posix [OF q]) (use p(2) in \<open>simp add: fds_wf_def\<close>)
  have hook: "pipe_pre_exec parent preserved (posix child) ?k1 = (?k4, Ok ())"
    using detach_forked [OF k p(1)] by (simp add: pipe_pre_exec_def set_parent_death_signal_def c1)
  have wf: "hm_wf (kn_procs ?k4)"
    using close upd_proc_wf sys_fork_wf [OF k(2)] by (simp add: only_fds_def upd_proc_wf)
  have get: "hm_get (kn_procs (sys_exec child ?k4)) x =
      (if x = child then Some (spawned_child parent child preserved pp) else hm_get (kn_procs k) x)" for x
  proof (cases "x = child")
    case True
    have "proc_of ?k4 child =
        ?q\<lparr>pr_fds := filter (\<lambda>(fd, fl). fd \<le> 2 \<or> fd \<in> set preserved \<or> odd fl) (pr_fds ?q)\<rparr>"
      using close q by (simp add: only_fds_def proc_of_def)
    moreover have "filter (\<lambda>(_, fl). even fl) (filter (\<lambda>(fd, fl). fd \<le> 2 \<or> fd \<in> set preserved \<or> odd fl) m) =
        filter (\<lambda>(fd, fl). (fd \<le> 2 \<or> fd \<in> set preserved) \<and> even fl) m" for m :: "(int, int) hashmap"
      unfolding filter_filter by (rule filter_cong) auto
    ultimately show ?thesis
      using True by (simp add: sys_exec_def upd_proc_get spawned_child_def and_cloexec del: filter_filter)
  next
    case False
    then show ?thesis
      using close sys_fork_get [OF p(1), of child x] by (simp add: sys_exec_def upd_proc_get only_fds_def)
  qed
  have "kn_signals (sys_exec child ?k4) = kn_signals k"
    using close by (simp add: sys_exec_def only_fds_def)
  moreover have "hm_wf (kn_procs (sys_exec child ?k4))" using wf by (simp add: sys_exec_def upd_proc_wf)
  ultimately show ?thesis using get hook by (auto simp: command_spawn_def)
qed

lemma spawned_group_inv:
  assumes k: "fresh_pid k child" and p: "hm_get (kn_procs k) agent = Some pp" and wf: "hm_wf (kn_procs k')"
    and get: "\<And>x. hm_get (kn_procs k') x =
       (if x = child then Some (spawned_child agent child preserved pp) else hm_get (kn_procs k) x)"
  shows "group_inv agent child [child] k'"
  using wf fresh_pidD [OF k] p get [of agent]
  by (auto simp: group_inv_def get spawned_child_def split: if_splits)

text \<open>C10. A process that the agent starts over pipes leads a group of its own, outside the agent's
  session, and gets a termination signal when the agent dies; of the agent's descriptors it
  has the standard streams and the preserved ones that are not marked close-on-exec.  Whatever
  processes do afterwards, as long as the agent lives and the child's number is not given out again,
  killing the group of the child sends the kill signal to the child and all its descendants that
  still live and have not moved to another group, and never to the agent.\<close>

theorem kill_reaches_descendants:
  assumes "fresh_pid k child" "hm_wf (kn_procs k)" "hm_get (kn_procs k) agent = Some pp" "fds_wf pp"
    and "list_all (harmless agent child) evs"
  shows "\<exists>k1 hit. command_spawn agent child (pipe_pre_exec agent preserved) (Ok ()) k = (k1, Ok child) \<and>
    hm_get (kn_procs k1) child = Some (spawned_child agent child preserved pp) \<and>
    kn_signals (fst (kill_process_group (posix agent) (word_of_int child) (kernel_run evs k1))) =
      kn_signals k @ map (\<lambda>p. (p, SIGKILL)) hit \<and>
    set (stays evs k1 [child]) \<subseteq> set hit \<and> agent \<notin> set hit"
proof -
  obtain k1 where k1: "command_spawn agent child (pipe_pre_exec agent preserved) (Ok ()) k = (k1, Ok child)"
    "hm_wf (kn_procs k1)" "kn_signals k1 = kn_signals k"
    and get: "\<And>x. hm_get (kn_procs k1) x =
       (if x = child then Some (spawned_child agent child preserved pp) else hm_get (kn_procs k) x)"
    using pipe_child_spawned [OF assms(1,2,3,4), of preserved] by blast
  have inv: "group_inv agent child (stays evs k1 [child]) (kernel_run evs k1)"
    by (rule group_inv_run [OF spawned_group_inv [OF assms(1,3) k1(2) get] assms(5)])
  have c: "1 < child" "child < 2 ^ 31" using assms(1) by (simp_all add: fresh_pid_def)
  show ?thesis
    using k1 get [of child] kill_group_signals [OF c, of agent "kernel_run evs k1"]
      kernel_run_signals [of evs k1] group_inv_members [OF inv] group_inv_agent [OF inv]
    by (intro exI [of _ k1] exI [of _ "group_members child (kernel_run evs k1)"]) simp
qed

definition sample_kernel :: Kernel where
  "sample_kernel = \<lparr>kn_procs = [(1, \<lparr>pr_ppid = 0, pr_pgid = 1, pr_sid = 1, pr_pdeathsig = None,
       pr_fds = [(0, 0), (1, 0), (2, 0), (5, 1), (7, 0)]\<rparr>)], kn_signals = []\<rparr>"

theorem kill_reaches_descendants_witness:
  "\<exists>k1 hit. command_spawn 1 42 (pipe_pre_exec 1 [7]) (Ok ()) sample_kernel = (k1, Ok 42) \<and>
    kn_signals (fst (kill_process_group (posix 1) (word_of_int 42)
      (kernel_run [KFork 42 43, KFork 43 44, KSetsid 43] k1))) = map (\<lambda>p. (p, SIGKILL)) hit \<and>
    set (stays [KFork 42 43, KFork 43 44, KSetsid 43] k1 [42]) \<subseteq> set hit \<and> 1 \<notin> set hit"
proof -
  have h: "fresh_pid sample_kernel 42" "hm_wf (kn_procs sample_kernel)"
    "hm_get (kn_procs sample_kernel) 1 = Some (proc_of sample_kernel 1)" "fds_wf (proc_of sample_kernel 1)"
    "list_all (harmless 1 42) [KFork 42 43, KFork 43 44, KSetsid 43]" "kn_signals sample_kernel = []"
    by code_simp+
  show ?thesis using kill_reaches_descendants [OF h(1-5), of "[7]"] unfolding h(6) append_Nil by blast
qed

end
