(* ===== verification/Process_Output.thy ===== *)
theory Process_Output
  imports Local_Process Pty_Spawn
begin

text \<open>
  The process service on top of the pty crate: how \<^verbatim>\<open>start_process\<close> chooses and
  calls a spawn function, and the way of the output of a child from the reads of its reader tasks
  through the bounded channels to the tasks of the service.  The steps of the service are the
  steps of \<open>inc_step\<close>; the readers and channels are added around them.
\<close>

section \<open>Choosing the spawn function\<close>

record 'w SpawnHost =
  so_strerror :: "int \<Rightarrow> string"
  so_libc :: "'w Libc"
  so_raw :: "'w RawPty"
  so_hook :: "'w TtyHook"
  so_std :: "('w, 32 word) spawn_call"
  so_tokio :: "('w, 32 word option) spawn_call"
  so_pty :: "'w PtySystem"
  so_pid :: int

definition exec_spawn :: "'w SpawnHost \<Rightarrow> ExecParams \<Rightarrow> 'w \<Rightarrow> 'w \<times> (string, 'w SpawnedProcess) result" where
  "exec_spawn so params w =
     (let program = hd (xp_argv params); args = tl (xp_argv params)
      in if xp_tty params
         then spawn_pty_process (so_strerror so) (so_libc so) (so_raw so) (so_hook so) (so_std so) (so_pty so)
                program args (xp_cwd params) (xp_env params) (xp_arg0 params) terminal_size_default w
         else spawn_pipe_process_no_stdin (so_tokio so) (so_pid so)
                program args (xp_cwd params) (xp_env params) (xp_arg0 params) w)"

text \<open>The handle is installed in the table under the number \<open>session\<close>.\<close>

definition start_process_on ::
  "'w SpawnHost \<Rightarrow> nat \<Rightarrow> ExecParams \<Rightarrow> LocalProcess \<Rightarrow> 'w \<Rightarrow>
     LocalProcess \<times> 'w \<times> (ChannelError, ProcessId \<times> 'w SpawnedProcess) result" where
  "start_process_on so session params s w =
     (case start_reserve params s of
        (s, Inl e) \<Rightarrow> (s, w, Err e)
      | (s, Inr _) \<Rightarrow>
          (case exec_spawn so params w of
             (w, Inl err) \<Rightarrow>
               (case start_finish params (Err err) s of
                  (s, Inl e) \<Rightarrow> (s, w, Err e)
                | (s, Inr pid) \<Rightarrow> (s, w, Err (internal_error err)))
           | (w, Inr sp) \<Rightarrow>
               (case start_finish params (Ok session) s of
                  (s, Inl e) \<Rightarrow> (s, w, Err e)
                | (s, Inr pid) \<Rightarrow> (s, w, Ok (pid, sp)))))"

section \<open>From the reads to the log\<close>

text \<open>Per stream: whether its reader runs, the chunks in the channel, all chunks read so far and all
  chunks taken by the service's task.  \<open>pl_cut\<close> is set when a notification could not be
  sent, after which the task drops its receiver.\<close>

record Plumbing =
  pl_inc :: Incarnation
  pl_reading :: "bool \<Rightarrow> bool"
  pl_chan :: "bool \<Rightarrow> byte list list"
  pl_read :: "bool \<Rightarrow> byte list list"
  pl_taken :: "bool \<Rightarrow> byte list list"
  pl_cut :: bool

definition plumb_start :: "'w SpawnedProcess \<Rightarrow> nat \<Rightarrow> bool \<Rightarrow> Plumbing" where
  "plumb_start sp session tty =
     \<lparr>pl_inc = inc_start session tty,
      pl_reading = (\<lambda>b. if b then sp_stdout sp \<noteq> None else sp_stderr sp \<noteq> None),
      pl_chan = (\<lambda>_. []), pl_read = (\<lambda>_. []), pl_taken = (\<lambda>_. []), pl_cut = False\<rparr>"

definition take_chunk :: "ProcessId \<Rightarrow> bool \<Rightarrow> byte list \<Rightarrow> bool \<Rightarrow> Incarnation \<Rightarrow> Incarnation" where
  "take_chunk pid b c notify_ok i =
     (let stream = task_stream (rp_tty (in_proc i)) b;
          (p, seq) = push_chunk stream c (in_proc i)
      in i\<lparr>in_proc := p,
           in_streams := (in_streams i)(b := if notify_ok then SReading else SFinishing),
           in_log := in_log i @ [OutputDelta \<lparr>od_process_id = pid, od_seq = seq, od_stream = stream,
                                   od_chunk = c\<rparr>]\<rparr>)"

text \<open>The steps of the service that neither take a chunk nor see the end of a stream.\<close>

definition service_step :: "ProcessId \<Rightarrow> Incarnation \<Rightarrow> Incarnation \<Rightarrow> bool" where
  "service_step pid i i' \<longleftrightarrow> inc_step pid i i' \<and> log_chunks (in_log i') = log_chunks (in_log i) \<and>
     (\<forall>b. in_streams i b = SReading \<longrightarrow> in_streams i' b = SReading)"

inductive plumb_step :: "ProcessId \<Rightarrow> bool \<Rightarrow> Plumbing \<Rightarrow> Plumbing \<Rightarrow> bool" for pid on_pty where
  read_chunk: "\<lbrakk>pl_reading s b; read_turn on_pty r = SendChunk c; in_streams (pl_inc s) b = SReading;
      length (pl_chan s b) < 128\<rbrakk> \<Longrightarrow>
    plumb_step pid on_pty s (s\<lparr>pl_chan := (pl_chan s)(b := pl_chan s b @ [c]),
      pl_read := (pl_read s)(b := pl_read s b @ [c])\<rparr>)"
| read_unheard: "\<lbrakk>pl_reading s b; read_turn on_pty r = SendChunk c; in_streams (pl_inc s) b \<noteq> SReading\<rbrakk> \<Longrightarrow>
    plumb_step pid on_pty s (s\<lparr>pl_read := (pl_read s)(b := pl_read s b @ [c])\<rparr>)"
| read_end: "\<lbrakk>pl_reading s b; read_turn on_pty r = StopReading\<rbrakk> \<Longrightarrow>
    plumb_step pid on_pty s (s\<lparr>pl_reading := (pl_reading s)(b := False)\<rparr>)"
| read_aborted: "pl_reading s b \<Longrightarrow>
    plumb_step pid on_pty s (s\<lparr>pl_reading := (pl_reading s)(b := False)\<rparr>)"
| take_ok: "\<lbrakk>in_streams (pl_inc s) b = SReading; pl_chan s b = c # cs\<rbrakk> \<Longrightarrow>
    plumb_step pid on_pty s (s\<lparr>pl_inc := take_chunk pid b c True (pl_inc s),
      pl_chan := (pl_chan s)(b := cs), pl_taken := (pl_taken s)(b := pl_taken s b @ [c])\<rparr>)"
| take_cut: "\<lbrakk>in_streams (pl_inc s) b = SReading; pl_chan s b = c # cs\<rbrakk> \<Longrightarrow>
    plumb_step pid on_pty s (s\<lparr>pl_inc := take_chunk pid b c False (pl_inc s),
      pl_chan := (pl_chan s)(b := []), pl_taken := (pl_taken s)(b := pl_taken s b @ [c]), pl_cut := True\<rparr>)"
| end_of_stream: "\<lbrakk>in_streams (pl_inc s) b = SReading; pl_chan s b = []; \<not> pl_reading s b\<rbrakk> \<Longrightarrow>
    plumb_step pid on_pty s (s\<lparr>pl_inc := (pl_inc s)\<lparr>in_streams := (in_streams (pl_inc s))(b := SFinishing)\<rparr>\<rparr>)"
| service: "service_step pid (pl_inc s) i' \<Longrightarrow> plumb_step pid on_pty s (s\<lparr>pl_inc := i'\<rparr>)"

inductive plumb_reach :: "ProcessId \<Rightarrow> bool \<Rightarrow> 'w SpawnedProcess \<Rightarrow> nat \<Rightarrow> Plumbing \<Rightarrow> bool"
  for pid tty sp session where
  start: "plumb_reach pid tty sp session (plumb_start sp session tty)"
| step: "\<lbrakk>plumb_reach pid tty sp session s; plumb_step pid tty s s'\<rbrakk> \<Longrightarrow> plumb_reach pid tty sp session s'"

section \<open>Refinement of the service\<close>

lemma take_chunk_step:
  "in_streams i b = SReading \<Longrightarrow> inc_step pid i (take_chunk pid b c notify_ok i)"
  unfolding take_chunk_def Let_def
  using inc_step.chunk [of i b "task_stream (rp_tty (in_proc i)) b" c _ _ pid notify_ok]
  by (auto split: prod.split)

lemma plumb_refines: "plumb_step pid on_pty s s' \<Longrightarrow> pl_inc s' = pl_inc s \<or> inc_step pid (pl_inc s) (pl_inc s')"
  by (induction rule: plumb_step.induct)
     (auto intro: take_chunk_step inc_step.eof simp: service_step_def)

lemma plumb_inc_reach: "plumb_reach pid tty sp session s \<Longrightarrow> inc_reach pid (pl_inc s)"
proof (induction rule: plumb_reach.induct)
  case start
  then show ?case by (simp add: plumb_start_def inc_reach.start)
next
  case (step s s')
  then show ?case using plumb_refines [OF step(2)] by (auto intro: inc_reach.step)
qed

section \<open>Nothing is lost or reordered\<close>

definition heard :: "Plumbing \<Rightarrow> bool \<Rightarrow> bool" where
  "heard s b \<longleftrightarrow>
     (if in_streams (pl_inc s) b = SReading then pl_taken s b @ pl_chan s b = pl_read s b
      else \<not> pl_reading s b \<and> pl_chan s b = [] \<and> pl_taken s b = pl_read s b)"

definition logged :: "bool \<Rightarrow> bool \<Rightarrow> ProcessEvent list \<Rightarrow> byte list list" where
  "logged tty b evs = map rc_chunk (filter (\<lambda>c. rc_stream c = task_stream tty b) (log_chunks evs))"

definition plumb_inv :: "bool \<Rightarrow> Plumbing \<Rightarrow> bool" where
  "plumb_inv tty s \<longleftrightarrow>
     rp_tty (in_proc (pl_inc s)) = tty \<and>
     (\<not> pl_cut s \<longrightarrow> (\<forall>b. heard s b)) \<and>
     (\<forall>b. length (pl_chan s b) \<le> 128) \<and>
     (if tty then \<not> pl_reading s False \<and> pl_chan s False = [] \<and> pl_taken s False = [] \<and> pl_read s False = [] \<and>
                  logged True True (in_log (pl_inc s)) = pl_taken s True
      else \<forall>b. logged False b (in_log (pl_inc s)) = pl_taken s b)"

lemma push_chunk_tty: "rp_tty (fst (push_chunk stream c p)) = rp_tty p"
  by (simp add: push_chunk_def Let_def split: prod.split)

lemma inc_step_tty: "inc_step pid i i' \<Longrightarrow> rp_tty (in_proc i') = rp_tty (in_proc i)"
proof (induction rule: inc_step.induct)
  case (chunk i b stream c p seq notify_ok)
  then show ?case using push_chunk_tty [of stream c "in_proc i"] by simp
qed (auto simp: close_stream_def close_if_done_def record_exit_def split: if_splits)

lemma inc_step_streams: "inc_step pid i i' \<Longrightarrow> in_streams i' b = SReading \<Longrightarrow> in_streams i b = SReading"
  by (induction rule: inc_step.induct) (auto split: if_splits)

lemma take_chunk_fields:
  "in_streams (take_chunk pid b c ok i) = (in_streams i)(b := if ok then SReading else SFinishing)"
  "log_chunks (in_log (take_chunk pid b c ok i)) = log_chunks (in_log i) @
     [\<lparr>rc_seq = rp_next_seq (in_proc i), rc_stream = task_stream (rp_tty (in_proc i)) b, rc_chunk = c\<rparr>]"
  by (auto simp: take_chunk_def Let_def push_chunk_def split: prod.split)

lemma logged_take:
  "logged tty b' (in_log (take_chunk pid b c ok i)) = logged tty b' (in_log i) @
     (if task_stream (rp_tty (in_proc i)) b = task_stream tty b' then [c] else [])"
  by (simp add: logged_def take_chunk_fields)

lemma logged_service: "service_step pid i i' \<Longrightarrow> logged tty b (in_log i') = logged tty b (in_log i)"
  by (simp add: logged_def service_step_def)

lemma service_streams:
  "service_step pid i i' \<Longrightarrow> in_streams i' b = SReading \<longleftrightarrow> in_streams i b = SReading"
  using inc_step_streams by (auto simp: service_step_def)

lemma plumb_inv_step:
  assumes "plumb_step pid tty s s'" "plumb_inv tty s"
  shows "plumb_inv tty s'"
  using assms
proof (induction rule: plumb_step.induct)
  case (take_ok s b c cs)
  have "rp_tty (in_proc (take_chunk pid b c True (pl_inc s))) = tty"
    using take_ok inc_step_tty [OF take_chunk_step [OF take_ok(1)]] by (simp add: plumb_inv_def)
  moreover have "tty \<Longrightarrow> b" using take_ok by (cases b) (auto simp: plumb_inv_def)
  moreover have "length (c # cs) \<le> 128" "\<not> pl_cut s \<Longrightarrow> pl_taken s b @ c # cs = pl_read s b"
    using take_ok by (auto simp: plumb_inv_def heard_def dest: spec [of _ b] split: if_splits)
  ultimately show ?case
    using take_ok
    by (auto simp: plumb_inv_def heard_def take_chunk_fields logged_take task_stream_def split: if_splits)
next
  case (take_cut s b c cs)
  have "rp_tty (in_proc (take_chunk pid b c False (pl_inc s))) = tty"
    using take_cut inc_step_tty [OF take_chunk_step [OF take_cut(1)]] by (simp add: plumb_inv_def)
  moreover have "tty \<Longrightarrow> b" using take_cut by (cases b) (auto simp: plumb_inv_def)
  ultimately show ?case
    using take_cut by (auto simp: plumb_inv_def logged_take task_stream_def split: if_splits)
next
  case (read_chunk s b r c)
  have "tty \<Longrightarrow> b" using read_chunk by (cases b) (auto simp: plumb_inv_def)
  then show ?case using read_chunk by (auto simp: plumb_inv_def heard_def split: if_splits)
next
  case (read_unheard s b r c)
  have "tty \<Longrightarrow> b" using read_unheard by (cases b) (auto simp: plumb_inv_def)
  then show ?case using read_unheard by (auto simp: plumb_inv_def heard_def split: if_splits)
next
  case (end_of_stream s b)
  have "\<not> pl_cut s \<Longrightarrow> pl_taken s b = pl_read s b"
    using end_of_stream by (auto simp: plumb_inv_def heard_def dest: spec [of _ b])
  then show ?case using end_of_stream by (auto simp: plumb_inv_def heard_def split: if_splits)
next
  case (service s i')
  then have "rp_tty (in_proc i') = tty"
    using inc_step_tty [of pid "pl_inc s" i'] by (auto simp: service_step_def plumb_inv_def)
  then show ?case
    using service(2) service_streams [OF service(1)] logged_service [OF service(1)]
    by (simp add: plumb_inv_def heard_def)
qed (auto simp: plumb_inv_def heard_def split: if_splits)

lemma plumb_inv_start:
  "(tty \<Longrightarrow> sp_stderr sp = None) \<Longrightarrow> plumb_inv tty (plumb_start sp session tty)"
  by (auto simp: plumb_inv_def plumb_start_def inc_start_def fresh_process_def heard_def logged_def
      log_chunks_def map_filter_def)

lemma plumb_reach_inv:
  "\<lbrakk>plumb_reach pid tty sp session s; tty \<Longrightarrow> sp_stderr sp = None\<rbrakk> \<Longrightarrow> plumb_inv tty s"
  by (induction rule: plumb_reach.induct) (auto intro: plumb_inv_start plumb_inv_step)

lemma exec_spawn_streams:
  "exec_spawn so params w = (w', Ok sp) \<Longrightarrow> xp_tty params \<Longrightarrow> sp_stderr sp = None"
  by (auto simp: exec_spawn_def spawn_pty_process_def spawn_process_with_inherited_fds_def spawn_process_portable_def
      and_then_eq_Ok pty_session_def Let_def split: if_splits)

lemma closed_streams_ended:
  assumes "inc_inv i" "filter is_closed_event (in_log i) \<noteq> []"
  shows "in_streams i b \<noteq> SReading"
proof -
  have "rp_closed (in_proc i)"
    using assms by (auto simp: inc_inv_def Let_def closed_shape_def split: if_splits)
  then have "open_count (in_streams i) = 0" using assms(1) by (auto simp: inc_inv_def proc_inv_def Let_def)
  then show ?thesis using open_count_pos [of "in_streams i" b] by auto
qed


definition sample_host :: "Kernel SpawnHost" where
  "sample_host =
     \<lparr>so_strerror = dec_int, so_libc = posix 1,
      so_raw = \<lparr>rw_openpty = (\<lambda>_ k. (k, Err EINVAL)), rw_try_clone = (\<lambda>fd k. (k, Ok fd)), rw_drop = (\<lambda>_ k. k)\<rparr>,
      so_hook = \<lparr>th_signal_default = (\<lambda>_ k. k), th_empty_sigmask = (\<lambda>k. k), th_sctty = (\<lambda>_ k. (k, Ok ()))\<rparr>,
      so_std = (\<lambda>_ hook k. (k, Err ''unused'')),
      so_tokio = (\<lambda>_ hook k. case command_spawn 1 42 hook (Ok ()) k of
         (k, Inl e) \<Rightarrow> (k, Err (dec_int e)) | (k, Inr pid) \<Rightarrow> (k, Ok (Some (word_of_int pid)))),
      so_pty = \<lparr>py_openpty = (\<lambda>_ k. (k, Ok 0)), py_spawn_command = (\<lambda>_ _ k. (k, Ok (Some 42))),
         py_try_clone_reader = (\<lambda>_ k. (k, Ok ())), py_take_writer = (\<lambda>_ k. (k, Ok ()))\<rparr>,
      so_pid = 1\<rparr>"

definition sample_exec :: ExecParams where
  "sample_exec = \<lparr>xp_process_id = ''p'', xp_argv = [''sh''], xp_cwd = ''/'', xp_env = [], xp_tty = True, xp_arg0 = None\<rparr>"


end
