(* ===== verification/Certs.thy ===== *)
theory Certs
  imports Local_Copy
begin

text \<open>
  The certificate helper, \<^verbatim>\<open>utils/certs/src/lib.rs\<close>, over the file system of
  \<^verbatim>\<open>Local_Fs\<close>: certificates are loaded when all three files exist and are generated and
  written otherwise.  The package \<^verbatim>\<open>rcgen\<close> is an argument: the two keys it draws, its
  default parameters and its signing functions.
\<close>

section \<open>Data\<close>

record CertPaths =
  cp_ca_cert :: string
  cp_server_cert :: string
  cp_server_key :: string

record CertMaterial =
  ca_cert_pem :: string
  server_cert_pem :: string
  server_key_pem :: string

datatype CertError = CertIo string | CertGen string

fun cert_error_text :: "CertError \<Rightarrow> string" where
  "cert_error_text (CertIo s) = ''cert io: '' @ s"
| "cert_error_text (CertGen s) = ''cert gen: '' @ s"

text \<open>The parameters of a certificate, as far as the code sets them.\<close>

datatype IsCa = NoCa | CaUnconstrained

datatype KeyUsagePurpose = KeyCertSign | CrlSign

datatype DnType = CommonName | OrganizationName

datatype SanType = DnsName string | IpAddress "nat list"

record CertificateParams =
  pm_is_ca :: IsCa
  pm_key_usages :: "KeyUsagePurpose list"
  pm_distinguished_name :: "(DnType \<times> string) list"
  pm_subject_alt_names :: "SanType list"

text \<open>One use of \<^verbatim>\<open>rcgen\<close>: the results of the two key generations, the default parameters,
  the conversion of a host name, and the signing functions, which return PEM text.  An issuer is
  its parameters and key.\<close>

record 'k Rcgen =
  rg_ca_key :: "(string, 'k) result"
  rg_server_key :: "(string, 'k) result"
  rg_default :: CertificateParams
  rg_dns_name :: "string \<Rightarrow> (string, string) result"
  rg_self_signed :: "CertificateParams \<Rightarrow> 'k \<Rightarrow> (string, string) result"
  rg_signed_by :: "CertificateParams \<Rightarrow> 'k \<Rightarrow> CertificateParams \<times> 'k \<Rightarrow> (string, string) result"
  rg_serialize_pem :: "'k \<Rightarrow> string"

section \<open>Generation\<close>

definition gen_err :: "string \<Rightarrow> (string, 'a) result \<Rightarrow> (CertError, 'a) result" where
  "gen_err what r = (case r of Inl e \<Rightarrow> Err (CertGen (what @ '': '' @ e)) | Inr x \<Rightarrow> Ok x)"

definition ca_params :: "CertificateParams \<Rightarrow> CertificateParams" where
  "ca_params p = p\<lparr>pm_is_ca := CaUnconstrained, pm_key_usages := pm_key_usages p @ [KeyCertSign, CrlSign],
     pm_distinguished_name := [(CommonName, ''nexal CA''), (OrganizationName, ''nexal'')]\<rparr>"

definition server_params :: "CertificateParams \<Rightarrow> string \<Rightarrow> string \<Rightarrow> CertificateParams" where
  "server_params p localhost containers = p\<lparr>pm_distinguished_name := [(CommonName, ''nexal gateway'')],
     pm_subject_alt_names := pm_subject_alt_names p @
       [DnsName localhost, IpAddress [127, 0, 0, 1], DnsName containers]\<rparr>"

definition generate :: "'k Rcgen \<Rightarrow> (CertError, CertMaterial) result" where
  "generate rg =
     (let params = ca_params (rg_default rg)
      in case gen_err ''ca keygen'' (rg_ca_key rg) of
           Inl e \<Rightarrow> Err e
         | Inr ca_key \<Rightarrow>
      (case gen_err ''ca self-sign'' (rg_self_signed rg params ca_key) of
           Inl e \<Rightarrow> Err e
         | Inr ca_pem \<Rightarrow>
      (case gen_err ''server keygen'' (rg_server_key rg) of
           Inl e \<Rightarrow> Err e
         | Inr server_key \<Rightarrow>
      (case gen_err ''san'' (rg_dns_name rg ''localhost'') of
           Inl e \<Rightarrow> Err e
         | Inr localhost \<Rightarrow>
      (case gen_err ''san'' (rg_dns_name rg ''host.containers.internal'') of
           Inl e \<Rightarrow> Err e
         | Inr containers \<Rightarrow>
      (case gen_err ''server sign''
              (rg_signed_by rg (server_params (rg_default rg) localhost containers) server_key (params, ca_key)) of
           Inl e \<Rightarrow> Err e
         | Inr server_pem \<Rightarrow>
             Ok \<lparr>ca_cert_pem = ca_pem, server_cert_pem = server_pem,
                 server_key_pem = rg_serialize_pem rg server_key\<rparr>))))))"

section \<open>Loading or generating\<close>

definition default_dir :: "string option \<Rightarrow> string option" where
  "default_dir home = map_option (\<lambda>h. path_join (path_join h ''.nexal'') ''certs'') home"

definition cert_paths :: "string \<Rightarrow> CertPaths" where
  "cert_paths dir = \<lparr>cp_ca_cert = path_join dir ''ca.pem'', cp_server_cert = path_join dir ''server.pem'',
     cp_server_key = path_join dir ''server.key''\<rparr>"

definition str_bytes :: "string \<Rightarrow> byte list" where
  "str_bytes s = map (\<lambda>c. of_nat (of_char c)) s"

definition read_text :: "string \<Rightarrow> (fsys, string) fs_call" where
  "read_text path fs =
     (fs, case read_bytes fs (components path) of
            Inl e \<Rightarrow> Err e
          | Inr bs \<Rightarrow>
              (case read_to_string bs of
                 None \<Rightarrow> Err (io_err OtherKind ''stream did not contain valid UTF-8'')
               | Some s \<Rightarrow> Ok s))"

definition cert_io :: "string \<Rightarrow> string \<Rightarrow> fsys \<times> (io_error, 'a) result \<Rightarrow> fsys \<times> (CertError, 'a) result" where
  "cert_io what path r =
     (case r of
        (fs, Inl e) \<Rightarrow> (fs, Err (CertIo (what @ '' '' @ path @ '': '' @ io_text e)))
      | (fs, Inr x) \<Rightarrow> (fs, Ok x))"

definition load_certs :: "CertPaths \<Rightarrow> fsys \<Rightarrow> fsys \<times> (CertError, CertMaterial) result" where
  "load_certs paths fs =
     and_then (cert_io ''read'' (cp_ca_cert paths) (read_text (cp_ca_cert paths) fs)) (\<lambda>ca fs.
     and_then (cert_io ''read'' (cp_server_cert paths) (read_text (cp_server_cert paths) fs)) (\<lambda>cert fs.
     and_then (cert_io ''read'' (cp_server_key paths) (read_text (cp_server_key paths) fs)) (\<lambda>key fs.
     (fs, Ok \<lparr>ca_cert_pem = ca, server_cert_pem = cert, server_key_pem = key\<rparr>))))"

definition write_pem :: "string \<Rightarrow> string \<Rightarrow> fsys \<Rightarrow> fsys \<times> (CertError, unit) result" where
  "write_pem path pem fs = cert_io ''write'' path (write_bytes (components path) (str_bytes pem) fs)"

definition persist_certs :: "string \<Rightarrow> CertPaths \<Rightarrow> CertMaterial \<Rightarrow> fsys \<Rightarrow> fsys \<times> (CertError, CertMaterial) result" where
  "persist_certs dir paths material fs =
     and_then (cert_io ''mkdir'' dir (create_dir_all (components dir) fs)) (\<lambda>_ fs.
     and_then (write_pem (cp_ca_cert paths) (ca_cert_pem material) fs) (\<lambda>_ fs.
     and_then (write_pem (cp_server_cert paths) (server_cert_pem material) fs) (\<lambda>_ fs.
     and_then (write_pem (cp_server_key paths) (server_key_pem material) fs) (\<lambda>_ fs.
     (fs, Ok material)))))"

definition certs_exist :: "CertPaths \<Rightarrow> fsys \<Rightarrow> bool" where
  "certs_exist paths fs \<longleftrightarrow> path_exists fs (components (cp_ca_cert paths)) \<and>
     path_exists fs (components (cp_server_cert paths)) \<and> path_exists fs (components (cp_server_key paths))"

definition ensure_certs :: "'k Rcgen \<Rightarrow> string \<Rightarrow> fsys \<Rightarrow> fsys \<times> (CertError, CertMaterial) result" where
  "ensure_certs rg dir fs =
     (let paths = cert_paths dir
      in if certs_exist paths fs then load_certs paths fs
         else case generate rg of
           Inl e \<Rightarrow> (fs, Err e)
         | Inr material \<Rightarrow> persist_certs dir paths material fs)"

section \<open>Certificates are created once\<close>

lemma of_char_byte: "unat (of_nat (of_char c) :: byte) = of_char c"
proof -
  have "(of_char c :: nat) < 256" by simp
  then show ?thesis by (simp add: unat_of_nat)
qed

lemma read_back: "read_to_string (str_bytes s) = (if utf8_valid (map of_char s) then Some s else None)"
  by (simp add: read_to_string_def str_bytes_def comp_def of_char_byte)

lemma cert_components:
  "components (cp_ca_cert (cert_paths dir)) = components dir @ [Normal ''ca.pem'']"
  "components (cp_server_cert (cert_paths dir)) = components dir @ [Normal ''server.pem'']"
  "components (cp_server_key (cert_paths dir)) = components dir @ [Normal ''server.key'']"
  using components_foldl_join [of "[''ca.pem'']" dir] components_foldl_join [of "[''server.pem'']" dir]
    components_foldl_join [of "[''server.key'']" dir]
  by (simp_all add: cert_paths_def seg_ok_def)

lemma cert_io_Ok [simp]: "cert_io what path r = (fs, Ok x) \<longleftrightarrow> r = (fs, Ok x)"
  by (auto simp: cert_io_def split: prod.splits sum.splits)

text \<open>A name that is neither a symbolic link nor a special file.\<close>

definition plain_entry :: "fsys \<Rightarrow> component list \<Rightarrow> bool" where
  "plain_entry fs path \<longleftrightarrow>
     (case lstat fs path of Inr (NLink _) \<Rightarrow> False | Inr NOther \<Rightarrow> False | _ \<Rightarrow> True)"

lemma plain_entry_before:
  assumes "resolve fs False path = Ok d" "node_at fs d = Some NDir" "kept fs fs'" "plain_entry fs' (path @ [Normal n])"
  shows "node_at fs (d @ [n]) \<noteq> Some NOther" and "node_at fs (d @ [n]) \<noteq> Some (NLink l)"
proof -
  have "lstat fs' (path @ [Normal n]) = (case node_at fs' (d @ [n]) of
      None \<Rightarrow> Err (io_err NotFound ''No such file or directory'') | Some x \<Rightarrow> Ok x)"
    using lstat_dir_entry [OF resolve_kept [OF assms(1,3)]] kept_same [OF assms(3,2)] by simp
  then show "node_at fs (d @ [n]) \<noteq> Some NOther" "node_at fs (d @ [n]) \<noteq> Some (NLink l)"
    using kept_same [OF assms(3), of "d @ [n]"] assms(4) by (auto simp: plain_entry_def)
qed

lemma write_plain:
  assumes "fs_wf fs" "resolve fs False path = Ok d" "node_at fs d = Some NDir"
    and "node_at fs (d @ [n]) \<noteq> Some NOther" "\<forall>l. node_at fs (d @ [n]) \<noteq> Some (NLink l)"
    and "write_bytes (path @ [Normal n]) data fs = (fs', Ok ())"
  shows "fs' = hm_insert (d @ [n]) (NFile data) fs"
  using assms(6) resolve_dir_entry [OF assms(2,3,1,5), of True] assms(4,5)
  by (auto simp: write_bytes_def split: option.splits fnode.splits)

lemma write_chain:
  assumes "fs_wf fs" "resolve fs False path = Ok d" "node_at fs d = Some NDir"
    and "write_bytes (path @ [Normal n]) data fs = (fs1, Ok ())" "kept fs1 fs'" "plain_entry fs' (path @ [Normal n])"
  shows "fs1 = hm_insert (d @ [n]) (NFile data) fs" "fs_wf fs1" "resolve fs1 False path = Ok d" "node_at fs1 d = Some NDir"
proof -
  have k: "kept fs fs1" using write_bytes_kept [OF assms(1,4)] .
  show "fs1 = hm_insert (d @ [n]) (NFile data) fs"
    using write_plain [OF assms(1-3) _ _ assms(4)] plain_entry_before [OF assms(2,3) kept_trans [OF k assms(5)] assms(6)]
    by blast
  show "fs_wf fs1" using write_bytes_wf [OF assms(1), of "path @ [Normal n]" data] assms(4) by simp
  show "resolve fs1 False path = Ok d" "node_at fs1 d = Some NDir"
    using resolve_kept [OF assms(2) k] kept_same [OF k assms(3)] by simp_all
qed

lemma read_entry:
  assumes "fs_wf fs" "resolve fs False (components dir) = Ok d" "node_at fs d = Some NDir"
    and "node_at fs (d @ [n]) = Some (NFile (str_bytes pem))" "components path = components dir @ [Normal n]"
    and "utf8_valid (map of_char pem)"
  shows "path_exists fs (components path)" "read_text path fs = (fs, Ok pem)"
proof -
  have "stat fs (components path) = Ok (NFile (str_bytes pem))"
    using resolve_dir_entry [OF assms(2,3,1), of n False] assms(4,5) by (simp add: stat_def)
  then show "path_exists fs (components path)" "read_text path fs = (fs, Ok pem)"
    using assms(6) by (simp_all add: path_exists_def read_text_def read_bytes_def read_back)
qed

lemma load_reads_only: "fst (load_certs paths fs) = fs"
  by (auto simp: load_certs_def and_then_def cert_io_def read_text_def split: sum.splits)

lemma persisted_files:
  assumes "fs_wf fs" "persist_certs dir (cert_paths dir) m fs = (fs', Ok m')"
    and plain: "\<forall>n \<in> {''ca.pem'', ''server.pem'', ''server.key''}. plain_entry fs' (components dir @ [Normal n])"
  obtains d where "m' = m" "fs_wf fs'" "resolve fs' False (components dir) = Ok d" "node_at fs' d = Some NDir"
    "node_at fs' (d @ [''ca.pem'']) = Some (NFile (str_bytes (ca_cert_pem m)))"
    "node_at fs' (d @ [''server.pem'']) = Some (NFile (str_bytes (server_cert_pem m)))"
    "node_at fs' (d @ [''server.key'']) = Some (NFile (str_bytes (server_key_pem m)))"
proof -
  let ?dir = "components dir"
  obtain fs1 fs2 fs3 where c: "create_dir_all ?dir fs = (fs1, Ok ())"
    and w: "write_bytes (?dir @ [Normal ''ca.pem'']) (str_bytes (ca_cert_pem m)) fs1 = (fs2, Ok ())"
      "write_bytes (?dir @ [Normal ''server.pem'']) (str_bytes (server_cert_pem m)) fs2 = (fs3, Ok ())"
      "write_bytes (?dir @ [Normal ''server.key'']) (str_bytes (server_key_pem m)) fs3 = (fs', Ok ())"
    and m: "m' = m"
    using assms(2) by (auto simp: persist_certs_def and_then_eq_Ok write_pem_def cert_components)
  have wf1: "fs_wf fs1" using create_dir_all_wf [OF assms(1), of ?dir] c by simp
  obtain d where d: "resolve fs1 False ?dir = Ok d" "node_at fs1 d = Some NDir"
    using create_dir_all_made [OF assms(1) c] by (auto simp: is_dir_iff)
  have wf2: "fs_wf fs2" using write_bytes_wf [OF wf1] w(1) by (metis fst_conv)
  have wf3: "fs_wf fs3" using write_bytes_wf [OF wf2] w(2) by (metis fst_conv)
  have k3: "kept fs3 fs'" and k2: "kept fs2 fs'"
    using write_bytes_kept [OF wf3 w(3)] write_bytes_kept [OF wf2 w(2)] kept_trans by blast+
  note s1 = write_chain [OF wf1 d w(1) k2] and s2 = write_chain [OF wf2 _ _ w(2) k3] and s3 = write_chain [OF wf3 _ _ w(3) kept_refl]
  have i1: "fs2 = hm_insert (d @ [''ca.pem'']) (NFile (str_bytes (ca_cert_pem m))) fs1"
    and d2: "resolve fs2 False ?dir = Ok d" "node_at fs2 d = Some NDir" using s1 plain by simp_all
  have i2: "fs3 = hm_insert (d @ [''server.pem'']) (NFile (str_bytes (server_cert_pem m))) fs2"
    and d3: "resolve fs3 False ?dir = Ok d" "node_at fs3 d = Some NDir" using s2 [OF d2] plain by simp_all
  have i3: "fs' = hm_insert (d @ [''server.key'']) (NFile (str_bytes (server_key_pem m))) fs3"
    and d4: "fs_wf fs'" "resolve fs' False ?dir = Ok d" "node_at fs' d = Some NDir" using s3 [OF d3] plain by simp_all
  show thesis using that [OF m d4] by (simp add: i3 i2 i1 node_at_insert)
qed

text \<open>C40. Certificates are created once and then stay: when \<^verbatim>\<open>ensure_certs\<close> has returned
  certificates, every later call on the same directory returns the same ones and changes nothing,
  whatever \<^verbatim>\<open>rcgen\<close> would generate then, provided that the three names are not symbolic
  links or special files and that \<^verbatim>\<open>rcgen\<close> returns text.\<close>

theorem certs_persist:
  assumes "fs_wf fs" "ensure_certs rg dir fs = (fs', Ok m)"
    and plain: "\<forall>n \<in> {''ca.pem'', ''server.pem'', ''server.key''}. plain_entry fs' (components dir @ [Normal n])"
    and pem: "\<forall>pem \<in> {ca_cert_pem m, server_cert_pem m, server_key_pem m}. utf8_valid (map of_char pem)"
  shows "ensure_certs rg' dir fs' = (fs', Ok m)"
proof (cases "certs_exist (cert_paths dir) fs")
  case True
  then have "load_certs (cert_paths dir) fs = (fs', Ok m)" using assms(2) by (simp add: ensure_certs_def)
  then show ?thesis using True load_reads_only [of "cert_paths dir" fs] by (simp add: ensure_certs_def)
next
  case False
  then obtain m0 where "generate rg = Ok m0" "persist_certs dir (cert_paths dir) m0 fs = (fs', Ok m)"
    using assms(2) by (auto simp: ensure_certs_def split: sum.splits)
  from this(2) obtain d where d: "m = m0" "fs_wf fs'" "resolve fs' False (components dir) = Ok d" "node_at fs' d = Some NDir"
    "node_at fs' (d @ [''ca.pem'']) = Some (NFile (str_bytes (ca_cert_pem m)))"
    "node_at fs' (d @ [''server.pem'']) = Some (NFile (str_bytes (server_cert_pem m)))"
    "node_at fs' (d @ [''server.key'']) = Some (NFile (str_bytes (server_key_pem m)))"
    by (auto elim: persisted_files [OF assms(1) _ plain])
  note r = read_entry [OF d(2-4) d(5) cert_components(1)] read_entry [OF d(2-4) d(6) cert_components(2)]
    read_entry [OF d(2-4) d(7) cert_components(3)]
  show ?thesis using r pem by (simp add: ensure_certs_def certs_exist_def load_certs_def cert_io_def)
qed

section \<open>What is generated, and when\<close>

text \<open>The server certificate is signed with the key and the parameters of the authority whose
  certificate is returned, which may sign certificates, and names the three hosts.\<close>

lemma generate_signs_with_its_ca:
  assumes "generate rg = Ok m"
  shows "\<exists>ca_key key params names. rg_ca_key rg = Ok ca_key \<and> rg_server_key rg = Ok key \<and>
    rg_self_signed rg (ca_params (rg_default rg)) ca_key = Ok (ca_cert_pem m) \<and>
    rg_signed_by rg params key (ca_params (rg_default rg), ca_key) = Ok (server_cert_pem m) \<and>
    server_key_pem m = rg_serialize_pem rg key \<and>
    pm_is_ca (ca_params (rg_default rg)) = CaUnconstrained \<and> KeyCertSign \<in> set (pm_key_usages (ca_params (rg_default rg))) \<and>
    pm_is_ca params = pm_is_ca (rg_default rg) \<and> pm_subject_alt_names params = pm_subject_alt_names (rg_default rg) @ names \<and>
    IpAddress [127, 0, 0, 1] \<in> set names \<and>
    (\<forall>h \<in> {''localhost'', ''host.containers.internal''}. \<exists>n. rg_dns_name rg h = Ok n \<and> DnsName n \<in> set names)"
proof -
  obtain ca_key key ln cn where k: "rg_ca_key rg = Ok ca_key" "rg_server_key rg = Ok key"
    "rg_dns_name rg ''localhost'' = Ok ln" "rg_dns_name rg ''host.containers.internal'' = Ok cn"
    and m: "rg_self_signed rg (ca_params (rg_default rg)) ca_key = Ok (ca_cert_pem m)"
    "rg_signed_by rg (server_params (rg_default rg) ln cn) key (ca_params (rg_default rg), ca_key) = Ok (server_cert_pem m)"
    "server_key_pem m = rg_serialize_pem rg key"
    using assms by (auto simp: generate_def gen_err_def Let_def split: sum.splits)
  show ?thesis
    by (rule exI [of _ ca_key], rule exI [of _ key], rule exI [of _ "server_params (rg_default rg) ln cn"],
        rule exI [of _ "[DnsName ln, IpAddress [127, 0, 0, 1], DnsName cn]"])
      (simp add: k m, simp add: ca_params_def server_params_def)
qed

text \<open>Without the three files nothing is read, and a failed generation changes nothing.\<close>

lemma generation_failure_changes_nothing:
  "generate rg = Err e \<Longrightarrow> fst (ensure_certs rg dir fs) = fs \<and>
     (\<not> certs_exist (cert_paths dir) fs \<longrightarrow> snd (ensure_certs rg dir fs) = Err e)"
  by (simp add: ensure_certs_def load_reads_only Let_def)

definition sample_rcgen :: "nat \<Rightarrow> nat Rcgen" where
  "sample_rcgen seed = \<lparr>rg_ca_key = Ok seed, rg_server_key = Ok (seed + 1),
     rg_default = \<lparr>pm_is_ca = NoCa, pm_key_usages = [], pm_distinguished_name = [], pm_subject_alt_names = []\<rparr>,
     rg_dns_name = (\<lambda>s. Ok s), rg_self_signed = (\<lambda>_ k. Ok (''CA '' @ dec k)),
     rg_signed_by = (\<lambda>_ k i. Ok (''CERT '' @ dec k @ '' BY '' @ dec (snd i))),
     rg_serialize_pem = (\<lambda>k. ''KEY '' @ dec k)\<rparr>"

definition sample_material :: "nat \<Rightarrow> CertMaterial" where
  "sample_material seed = \<lparr>ca_cert_pem = ''CA '' @ dec seed,
     server_cert_pem = ''CERT '' @ dec (seed + 1) @ '' BY '' @ dec seed, server_key_pem = ''KEY '' @ dec (seed + 1)\<rparr>"

text \<open>When one of the files is lost, the authority is replaced too, although its certificate is
  still there and may have been given to clients.\<close>

lemma lost_key_replaces_authority:
  "let fs = fst (ensure_certs (sample_rcgen 1) ''/c'' []);
       lost = fst (unlink (components ''/c/server.key'') fs);
       (fs', r) = ensure_certs (sample_rcgen 5) ''/c'' lost
   in read_text ''/c/ca.pem'' lost = (lost, Ok ''CA 1'') \<and> r = Ok (sample_material 5) \<and>
      read_text ''/c/ca.pem'' fs' = (fs', Ok ''CA 5'')"
  by code_simp

theorem certs_persist_witness:
  "ensure_certs (sample_rcgen 7) ''/h/c'' (fst (ensure_certs (sample_rcgen 1) ''/h/c'' [])) =
     (fst (ensure_certs (sample_rcgen 1) ''/h/c'' []), Ok (sample_material 1))"
proof -
  let ?fs = "fst (ensure_certs (sample_rcgen 1) ''/h/c'' [])"
  have e: "ensure_certs (sample_rcgen 1) ''/h/c'' [] = (?fs, Ok (sample_material 1))" by code_simp
  have "plain_entry ?fs (components ''/h/c'' @ [Normal ''ca.pem''])"
    "plain_entry ?fs (components ''/h/c'' @ [Normal ''server.pem''])"
    "plain_entry ?fs (components ''/h/c'' @ [Normal ''server.key''])" by code_simp+
  then have p: "\<forall>n \<in> {''ca.pem'', ''server.pem'', ''server.key''}. plain_entry ?fs (components ''/h/c'' @ [Normal n])"
    by simp
  have "utf8_valid (map of_char (ca_cert_pem (sample_material 1)))"
    "utf8_valid (map of_char (server_cert_pem (sample_material 1)))"
    "utf8_valid (map of_char (server_key_pem (sample_material 1)))" by code_simp+
  then show ?thesis using certs_persist [OF fs_wf_empty e p, of "sample_rcgen 7"] by simp
qed

end
