(* ===== verification/Build_Helpers.thy ===== *)
theory Build_Helpers
  imports Certs
begin

text \<open>
  The helper that finds compiled programs for the integration tests,
  \<^verbatim>\<open>utils/cargo-bin/src/lib.rs\<close>, over the file system of \<^verbatim>\<open>Local_Fs\<close>.  The
  environment, the search of \<^verbatim>\<open>assert_cmd\<close> and the current directory are arguments.
\<close>

section \<open>Programs\<close>

datatype CargoBinError =
    CurrentExe io_error
  | CurrentDir io_error
  | ResolvedPathDoesNotExist string string
  | BinNotFound string "string list" string

definition cargo_bin_env_keys :: "string \<Rightarrow> string list" where
  "cargo_bin_env_keys name =
     (let underscore_name = map (\<lambda>c. if c = CHR ''-'' then CHR ''_'' else c) name
      in (''CARGO_BIN_EXE_'' @ name) #
         (if underscore_name \<noteq> name then [''CARGO_BIN_EXE_'' @ underscore_name] else []))"

fun first_set :: "(string \<Rightarrow> string option) \<Rightarrow> string list \<Rightarrow> (string \<times> string) option" where
  "first_set env [] = None"
| "first_set env (key # keys) = (case env key of Some v \<Rightarrow> Some (key, v) | None \<Rightarrow> first_set env keys)"

definition cargo_bin ::
  "(string \<Rightarrow> string option) \<Rightarrow> (string \<Rightarrow> (string, string) result) \<Rightarrow> (io_error, string) result \<Rightarrow> fsys \<Rightarrow>
     string \<Rightarrow> (CargoBinError, string) result" where
  "cargo_bin env assert_cmd cwd fs name =
     (case first_set env (cargo_bin_env_keys name) of
        Some (key, path) \<Rightarrow>
          if is_absolute path \<and> path_exists fs (components path) then Ok path
          else Err (ResolvedPathDoesNotExist key path)
      | None \<Rightarrow>
          (case assert_cmd name of
             Inl err \<Rightarrow> Err (BinNotFound name (cargo_bin_env_keys name) (''assert_cmd fallback failed: '' @ err))
           | Inr path \<Rightarrow>
               (case (if is_absolute path then Ok path
                      else case cwd of Inl e \<Rightarrow> Err (CurrentDir e) | Inr d \<Rightarrow> Ok (path_join d path)) of
                  Inl e \<Rightarrow> Err e
                | Inr path \<Rightarrow>
                    if path_exists fs (components path) then Ok path
                    else Err (ResolvedPathDoesNotExist ''assert_cmd::Command::cargo_bin'' path))))"

section \<open>The repository root\<close>

definition path_parent :: "component list \<Rightarrow> component list option" where
  "path_parent p = (if p = [] \<or> last p = RootDir then None else Some (butlast p))"

definition resolve_cargo_runfile :: "string \<Rightarrow> string \<Rightarrow> string" where
  "resolve_cargo_runfile manifest_dir resource = path_join manifest_dir resource"

fun parents :: "nat \<Rightarrow> component list \<Rightarrow> (io_error, component list) result" where
  "parents 0 p = Ok p"
| "parents (Suc n) p =
     (case path_parent p of
        None \<Rightarrow> Err (io_err NotFound ''repo_root.marker did not have expected parent depth'')
      | Some q \<Rightarrow> parents n q)"

definition repo_root :: "string \<Rightarrow> (io_error, component list) result" where
  "repo_root manifest_dir = parents 4 (components (resolve_cargo_runfile manifest_dir ''repo_root.marker''))"

section \<open>Properties\<close>

text \<open>What is found is an existing program at an absolute path, and a variable that is set decides:
  nothing else is tried.\<close>

lemma cargo_bin_found:
  assumes "cargo_bin env assert_cmd cwd fs name = Ok path" "\<forall>d. cwd = Ok d \<longrightarrow> is_absolute d"
  shows "is_absolute path \<and> path_exists fs (components path)"
proof -
  have "is_absolute (path_join d q)" if "is_absolute d" for d q
    using that by (auto simp: path_join_def is_absolute_def)
  then show ?thesis
    using assms by (auto simp: cargo_bin_def split: option.splits sum.splits if_splits prod.splits)
qed

lemma cargo_bin_env_decides:
  "first_set env (cargo_bin_env_keys name) = Some (key, path) \<Longrightarrow>
     cargo_bin env assert_cmd cwd fs name = cargo_bin env assert_cmd' cwd' fs name \<and> env key = Some path \<and>
     key \<in> {''CARGO_BIN_EXE_'' @ name, ''CARGO_BIN_EXE_'' @ map (\<lambda>c. if c = CHR ''-'' then CHR ''_'' else c) name}"
  by (auto simp: cargo_bin_def cargo_bin_env_keys_def Let_def split: option.splits if_splits)

text \<open>From the directory of a package three levels below the root of the repository.\<close>

lemma repo_root_above_crates:
  assumes "components manifest_dir = base @ [Normal a, Normal b, Normal c]"
  shows "repo_root manifest_dir = Ok base"
proof -
  have "components (path_join manifest_dir ''repo_root.marker'') = components manifest_dir @ [Normal ''repo_root.marker'']"
    using components_foldl_join [of "[''repo_root.marker'']" manifest_dir] by (simp add: seg_ok_def)
  then show ?thesis
    using assms by (simp add: repo_root_def resolve_cargo_runfile_def eval_nat_numeral path_parent_def butlast_append)
qed

end
