(* ===== verification/Wire_Schema.thy ===== *)
theory Wire_Schema
  imports Values
begin

text \<open>
  The types that cross the wire, described the way \<^verbatim>\<open>serde\<close> sees them: a structure is
  the list of its fields with their wire names, types, \<^verbatim>\<open>#[serde(default)]\<close> marks and
  rules for leaving a field out.  \<open>compat\<close> decides whether what one side encodes the other
  side decodes, \<open>conv\<close> is the value that arrives.  \<^verbatim>\<open>serde\<close> and
  \<^verbatim>\<open>rmp_serde\<close> are not part of the sources: the locale \<open>serde\<close> states what
  they document about the derived implementations, and the theorem that compatible types
  communicate is proved for every encoder and decoder with these laws.
\<close>

section \<open>Types and values\<close>

datatype skip = SkipNever | SkipNone | SkipEmpty | SkipFalse

datatype wty =
    TyString | TyPath | TyAbsPath | TyBool | TyInt int int | TyBytes | TyValue | TyUnit | TyStringMap
  | TyEnum "string list" | TyOption wty | TyVec wty | TyStruct "wfield list"
and wfield = Field (fl_name: string) (fl_type: wty) (fl_default: bool) (fl_skip: skip)

definition ty_u16 :: wty where "ty_u16 = TyInt 0 (2 ^ 16 - 1)"
definition ty_u64 :: wty where "ty_u64 = TyInt 0 (2 ^ 64 - 1)"
definition ty_i32 :: wty where "ty_i32 = TyInt (- (2 ^ 31)) (2 ^ 31 - 1)"
definition ty_i64 :: wty where "ty_i64 = TyInt (- (2 ^ 63)) (2 ^ 63 - 1)"

text \<open>A plain field, a field with a default, and an optional field that is left out when absent.\<close>

definition fld :: "string \<Rightarrow> wty \<Rightarrow> wfield" where "fld n t = Field n t False SkipNever"
definition fld_default :: "string \<Rightarrow> wty \<Rightarrow> wfield" where "fld_default n t = Field n t True SkipNever"
definition fld_opt :: "string \<Rightarrow> wty \<Rightarrow> wfield" where "fld_opt n t = Field n (TyOption t) True SkipNone"

datatype rval =
    RString string | RBool bool | RInt int | RBytes "byte list" | RValue "value" | RUnit
  | RMap "(string \<times> string) list" | RVariant string | RNone | RSome rval | RVec "rval list" | RStruct "rval list"

definition is_option :: "wty \<Rightarrow> bool" where
  "is_option t = (case t of TyOption _ \<Rightarrow> True | _ \<Rightarrow> False)"

text \<open>Values that are encoded as nil.\<close>

fun is_nil :: "rval \<Rightarrow> bool" where
  "is_nil RNone = True"
| "is_nil RUnit = True"
| "is_nil (RValue v) = (v = VNil)"
| "is_nil (RSome v) = is_nil v"
| "is_nil _ = False"

function wt :: "wty \<Rightarrow> rval \<Rightarrow> bool" where
  "wt TyString v = (case v of RString _ \<Rightarrow> True | _ \<Rightarrow> False)"
| "wt TyPath v = (case v of RString _ \<Rightarrow> True | _ \<Rightarrow> False)"
| "wt TyAbsPath v = (case v of RString _ \<Rightarrow> True | _ \<Rightarrow> False)"
| "wt TyBool v = (case v of RBool _ \<Rightarrow> True | _ \<Rightarrow> False)"
| "wt (TyInt lo hi) v = (case v of RInt i \<Rightarrow> lo \<le> i \<and> i \<le> hi | _ \<Rightarrow> False)"
| "wt TyBytes v = (case v of RBytes _ \<Rightarrow> True | _ \<Rightarrow> False)"
| "wt TyValue v = (case v of RValue _ \<Rightarrow> True | _ \<Rightarrow> False)"
| "wt TyUnit v = (v = RUnit)"
| "wt TyStringMap v = (case v of RMap _ \<Rightarrow> True | _ \<Rightarrow> False)"
| "wt (TyEnum names) v = (case v of RVariant n \<Rightarrow> n \<in> set names | _ \<Rightarrow> False)"
| "wt (TyOption t) v = (case v of RNone \<Rightarrow> True | RSome x \<Rightarrow> \<not> is_option t \<and> wt t x | _ \<Rightarrow> False)"
| "wt (TyVec t) v = (case v of RVec vs \<Rightarrow> list_all (wt t) vs | _ \<Rightarrow> False)"
| "wt (TyStruct fs) v =
     (case v of RStruct vs \<Rightarrow> length vs = length fs \<and> list_all (\<lambda>(f, v). wt (fl_type f) v) (zip fs vs) | _ \<Rightarrow> False)"
  by pat_completeness auto

lemma fl_type_size [termination_simp]: "f \<in> set fs \<Longrightarrow> size (fl_type f) < Suc (size_list size fs)"
proof -
  assume "f \<in> set fs"
  then have "size f \<le> size_list size fs" by (simp add: size_list_estimation')
  moreover have "size (fl_type f) < size f" by (cases f) simp
  ultimately show ?thesis by simp
qed

termination wt
  by (relation "measure (size \<circ> fst)") (auto intro: fl_type_size dest: set_zip_leftD)

section \<open>Compatibility\<close>

text \<open>What \<^verbatim>\<open>Default\<close> gives, and what a missing field decodes to: its default, or
  nothing for an optional field.\<close>

definition default_of :: "wty \<Rightarrow> rval" where
  "default_of t = (case t of TyOption _ \<Rightarrow> RNone | TyStringMap \<Rightarrow> RMap [] | TyVec _ \<Rightarrow> RVec []
     | TyBool \<Rightarrow> RBool False | TyInt _ _ \<Rightarrow> RInt 0 | TyString \<Rightarrow> RString [] | TyPath \<Rightarrow> RString [] | TyBytes \<Rightarrow> RBytes [] | _ \<Rightarrow> RUnit)"

definition missing :: "wfield \<Rightarrow> rval option" where
  "missing g = (if fl_default g then Some (default_of (fl_type g)) else if is_option (fl_type g) then Some RNone else None)"

definition skipped :: "wfield \<Rightarrow> rval \<Rightarrow> bool" where
  "skipped f v = (case fl_skip f of SkipNever \<Rightarrow> False | SkipNone \<Rightarrow> v = RNone
     | SkipEmpty \<Rightarrow> v = RMap [] \<or> v = RVec [] | SkipFalse \<Rightarrow> v = RBool False)"

text \<open>A field that the sender may leave out reads, when missing, as the value that was left out.\<close>

definition skip_ok :: "wfield \<Rightarrow> wfield \<Rightarrow> bool" where
  "skip_ok f g = (case fl_skip f of
       SkipNever \<Rightarrow> True
     | SkipNone \<Rightarrow> is_option (fl_type f) \<and> is_option (fl_type g)
     | SkipEmpty \<Rightarrow> fl_default g \<and> (fl_type f = TyStringMap \<and> fl_type g = TyStringMap \<or>
                      (case fl_type f of TyVec _ \<Rightarrow> True | _ \<Rightarrow> False) \<and> (case fl_type g of TyVec _ \<Rightarrow> True | _ \<Rightarrow> False))
     | SkipFalse \<Rightarrow> fl_default g \<and> fl_type f = TyBool \<and> fl_type g = TyBool)"

definition find_field :: "string \<Rightarrow> wfield list \<Rightarrow> wfield option" where
  "find_field n fs = find (\<lambda>f. fl_name f = n) fs"

definition never_nil :: "wty \<Rightarrow> bool" where
  "never_nil t = (case t of TyOption _ \<Rightarrow> False | TyUnit \<Rightarrow> False | TyValue \<Rightarrow> False | _ \<Rightarrow> True)"

function compat :: "wty \<Rightarrow> wty \<Rightarrow> bool" where
  "compat s (TyStruct gs) =
     (case s of
        TyStruct fs \<Rightarrow> distinct (map fl_name fs) \<and>
          list_all (\<lambda>g. case find_field (fl_name g) fs of
                          Some f \<Rightarrow> compat (fl_type f) (fl_type g) \<and> skip_ok f g
                        | None \<Rightarrow> (case missing g of None \<Rightarrow> False | Some d \<Rightarrow> wt (fl_type g) d)) gs
      | _ \<Rightarrow> False)"
| "compat s (TyOption r) = (\<not> is_option r \<and> (case s of TyOption s' \<Rightarrow> compat s' r | _ \<Rightarrow> never_nil s \<and> compat s r))"
| "compat s (TyVec r) = (case s of TyVec s' \<Rightarrow> compat s' r | _ \<Rightarrow> False)"
| "compat s TyPath = (s = TyPath \<or> s = TyString)"
| "compat s TyString = (s = TyPath \<or> s = TyString)"
| "compat s TyAbsPath = (s = TyPath \<or> s = TyString)"
| "compat s TyBool = (s = TyBool)"
| "compat s (TyInt lo hi) = (s = TyInt lo hi)"
| "compat s TyBytes = (s = TyBytes)"
| "compat s TyValue = (s = TyValue)"
| "compat s TyUnit = (s = TyUnit)"
| "compat s TyStringMap = (s = TyStringMap)"
| "compat s (TyEnum ns) = (s = TyEnum ns)"
  by pat_completeness auto

termination compat
  by (relation "measure (size \<circ> snd)") (auto intro: fl_type_size)

text \<open>The value that arrives.  \<open>ap\<close> is the decoding of an absolute path.\<close>

function conv :: "(string \<Rightarrow> string option) \<Rightarrow> wty \<Rightarrow> wty \<Rightarrow> rval \<Rightarrow> rval option" where
  "conv ap s (TyStruct gs) v =
     (case (s, v) of
        (TyStruct fs, RStruct vs) \<Rightarrow>
          map_option RStruct (those (map (\<lambda>g.
            case find (\<lambda>(f, _). fl_name f = fl_name g) (zip fs vs) of
              Some (f, x) \<Rightarrow> conv ap (fl_type f) (fl_type g) x
            | None \<Rightarrow> missing g) gs))
      | _ \<Rightarrow> None)"
| "conv ap s (TyOption r) v =
     (case s of
        TyOption s' \<Rightarrow>
          (case v of RSome x \<Rightarrow> if is_nil x then Some RNone else map_option RSome (conv ap s' r x) | _ \<Rightarrow> Some RNone)
      | _ \<Rightarrow> map_option RSome (conv ap s r v))"
| "conv ap s (TyVec r) v =
     (case (s, v) of
        (TyVec s', RVec vs) \<Rightarrow> map_option RVec (those (map (conv ap s' r) vs)) | _ \<Rightarrow> None)"
| "conv ap s TyAbsPath v = (case v of RString p \<Rightarrow> map_option RString (ap p) | _ \<Rightarrow> None)"
| "conv ap s TyPath v = Some v"
| "conv ap s TyString v = Some v"
| "conv ap s TyBool v = Some v"
| "conv ap s (TyInt lo hi) v = Some v"
| "conv ap s TyBytes v = Some v"
| "conv ap s TyValue v = Some v"
| "conv ap s TyUnit v = Some v"
| "conv ap s TyStringMap v = Some v"
| "conv ap s (TyEnum ns) v = Some v"
  by pat_completeness auto

termination conv
  by (relation "measure (\<lambda>(_, _, r, _). size r)") (auto intro: fl_type_size)

text \<open>The fields of the sender that the receiver does not know; they are dropped silently.\<close>

definition dropped_fields :: "wty \<Rightarrow> wty \<Rightarrow> string list" where
  "dropped_fields s r =
     (case (s, r) of
        (TyStruct fs, TyStruct gs) \<Rightarrow> filter (\<lambda>n. find_field n gs = None) (map fl_name fs)
      | _ \<Rightarrow> [])"

section \<open>Encoders and decoders\<close>

definition enc_fields :: "(wty \<Rightarrow> rval \<Rightarrow> value) \<Rightarrow> wfield list \<Rightarrow> rval list \<Rightarrow> (string \<times> value) list" where
  "enc_fields enc fs vs =
     map (\<lambda>(f, v). (fl_name f, enc (fl_type f) v)) (filter (\<lambda>(f, v). \<not> skipped f v) (zip fs vs))"

definition de_field :: "(wty \<Rightarrow> value \<Rightarrow> rval option) \<Rightarrow> (string \<times> value) list \<Rightarrow> wfield \<Rightarrow> rval option" where
  "de_field de m g = (case map_of m (fl_name g) of Some x \<Rightarrow> de (fl_type g) x | None \<Rightarrow> missing g)"

definition is_scalar :: "wty \<Rightarrow> bool" where
  "is_scalar t = (case t of TyOption _ \<Rightarrow> False | TyVec _ \<Rightarrow> False | TyStruct _ \<Rightarrow> False
     | TyAbsPath \<Rightarrow> False | TyPath \<Rightarrow> False | _ \<Rightarrow> True)"

locale serde =
  fixes enc :: "wty \<Rightarrow> rval \<Rightarrow> value" and de :: "wty \<Rightarrow> value \<Rightarrow> rval option"
    and ap :: "string \<Rightarrow> string option"
  assumes scalar: "\<lbrakk>is_scalar t; wt t v\<rbrakk> \<Longrightarrow> de t (enc t v) = Some v"
    and value_enc: "enc TyValue (RValue x) = x"
    and nil: "wt t v \<Longrightarrow> enc t v = VNil \<longleftrightarrow> is_nil v"
    and path_enc: "enc TyPath (RString p) = enc TyString (RString p)"
    and path_dec: "de TyPath x = de TyString x"
    and abs_path: "de TyAbsPath (enc TyString (RString p)) = map_option RString (ap p)"
    and some_enc: "enc (TyOption t) (RSome v) = enc t v"
    and option_dec: "de (TyOption t) x = (if x = VNil then Some RNone else map_option RSome (de t x))"
    and vec_enc: "enc (TyVec t) (RVec vs) = VArray (map (enc t) vs)"
    and vec_dec: "de (TyVec t) (VArray xs) = map_option RVec (those (map (de t) xs))"
    and struct_enc: "enc (TyStruct fs) (RStruct vs) = mp_map (enc_fields enc fs vs)"
    and struct_dec: "de (TyStruct gs) (mp_map m) = map_option RStruct (those (map (de_field de m) gs))"
begin

lemma none_enc: "enc (TyOption t) RNone = VNil"
  using nil [of "TyOption t" RNone] by simp

lemma field_found:
  assumes "distinct (map fl_name fs)" "length vs = length fs"
    and "find (\<lambda>(f, _). fl_name f = n) (zip fs vs) = Some (f, v)"
  shows "map_of (enc_fields enc fs vs) n = (if skipped f v then None else Some (enc (fl_type f) v))"
  using assms
proof (induction fs arbitrary: vs)
  case (Cons f0 fs)
  obtain v0 vs' where vs: "vs = v0 # vs'" using Cons.prems(2) by (cases vs) auto
  have notin: "map_of (enc_fields enc fs vs') (fl_name f0) = None"
    using Cons.prems(1) unfolding map_of_eq_None_iff by (auto simp: enc_fields_def dest: set_zip_leftD)
  show ?case
  proof (cases "fl_name f0 = n")
    case True
    then have "f = f0" "v = v0" using Cons.prems(3) by (auto simp: vs)
    then show ?thesis using True notin by (auto simp: vs enc_fields_def)
  next
    case False
    then show ?thesis using Cons by (auto simp: vs enc_fields_def)
  qed
qed simp

lemma field_missing:
  "find (\<lambda>(f, _). fl_name f = n) (zip fs vs) = None \<Longrightarrow> map_of (enc_fields enc fs vs) n = None"
  unfolding map_of_eq_None_iff by (auto simp: enc_fields_def find_None_iff)

end

lemma find_zip:
  "length vs = length fs \<Longrightarrow> find_field n fs = map_option fst (find (\<lambda>(f, _). fl_name f = n) (zip fs vs))"
  unfolding find_field_def by (induction fs vs rule: list_induct2') auto

lemma skipped_conv:
  assumes "skip_ok f g" "skipped f v" "wt (fl_type f) v"
  shows "missing g = conv ap (fl_type f) (fl_type g) v"
proof -
  consider (none) "fl_skip f = SkipNone" | (empty) "fl_skip f = SkipEmpty" | (no) "fl_skip f = SkipFalse"
    using assms(2) by (cases "fl_skip f") (auto simp: skipped_def)
  then show ?thesis
  proof cases
    case none
    then obtain s r where "fl_type f = TyOption s" "fl_type g = TyOption r" "v = RNone"
      using assms by (auto simp: skip_ok_def skipped_def is_option_def split: wty.splits)
    then show ?thesis by (simp add: missing_def default_of_def is_option_def)
  next
    case empty
    then show ?thesis
      using assms
      by (auto simp: skip_ok_def skipped_def missing_def default_of_def split: wty.splits)
  next
    case no
    then show ?thesis
      using assms by (auto simp: skip_ok_def skipped_def missing_def default_of_def)
  qed
qed

context serde
begin

text \<open>Compatible types communicate: the receiver decodes exactly \<open>conv\<close> of what was sent.
  The three composite cases first, then the induction over the receiver's type.\<close>

lemma struct_delivers:
  assumes c: "compat s (TyStruct gs)" and w: "wt s v"
    and IH: "\<And>g s v. \<lbrakk>g \<in> set gs; compat s (fl_type g); wt s v\<rbrakk> \<Longrightarrow> de (fl_type g) (enc s v) = conv ap s (fl_type g) v"
  shows "de (TyStruct gs) (enc s v) = conv ap s (TyStruct gs) v"
proof -
  obtain fs vs where s: "s = TyStruct fs" "v = RStruct vs" "length vs = length fs" "distinct (map fl_name fs)"
    using c w by (auto split: wty.splits rval.splits)
  have "de_field de (enc_fields enc fs vs) g = (case find (\<lambda>(f, _). fl_name f = fl_name g) (zip fs vs) of
      Some (f, x) \<Rightarrow> conv ap (fl_type f) (fl_type g) x | None \<Rightarrow> missing g)" if g: "g \<in> set gs" for g
  proof (cases "find (\<lambda>(f, _). fl_name f = fl_name g) (zip fs vs)")
    case None
    then show ?thesis using field_missing [OF None] by (simp add: de_field_def)
  next
    case (Some fx)
    obtain f x where fx: "fx = (f, x)" by force
    have "find_field (fl_name g) fs = Some f" using find_zip [OF s(3), of "fl_name g"] Some fx by simp
    then have k: "compat (fl_type f) (fl_type g)" "skip_ok f g" using c g s(1) by (auto simp: list_all_iff)
    have "(f, x) \<in> set (zip fs vs)" using Some unfolding fx find_Some_iff by (metis nth_mem)
    then have w': "wt (fl_type f) x" using w s by (auto simp: list_all_iff)
    show ?thesis
      using IH [OF g k(1) w'] field_found [OF s(4,3) Some [unfolded fx]] skipped_conv [OF k(2) _ w'] Some fx
      by (simp add: de_field_def)
  qed
  then show ?thesis by (simp add: s struct_enc struct_dec cong: map_cong)
qed

lemma option_delivers:
  assumes c: "compat s (TyOption r)" and w: "wt s v"
    and IH: "\<And>s v. \<lbrakk>compat s r; wt s v\<rbrakk> \<Longrightarrow> de r (enc s v) = conv ap s r v"
  shows "de (TyOption r) (enc s v) = conv ap s (TyOption r) v"
proof (cases "\<exists>s'. s = TyOption s'")
  case True
  then obtain s' where s: "s = TyOption s'" "compat s' r" using c by auto
  show ?thesis
  proof (cases "\<exists>x. v = RSome x")
    case True
    then obtain x where x: "v = RSome x" "wt s' x" using w s by auto
    then show ?thesis using nil [OF x(2)] s IH [OF s(2) x(2)] by (simp add: some_enc option_dec)
  next
    case False
    then have "v = RNone" using w s by (cases v) auto
    then show ?thesis using s by (simp add: none_enc option_dec)
  qed
next
  case False
  then have k: "never_nil s" "compat s r" using c by (auto split: wty.splits)
  then have "\<not> is_nil v" using w by (cases s) (auto simp: never_nil_def split: rval.splits)
  then show ?thesis
    using nil [OF w] IH [OF k(2) w] False by (cases s) (auto simp: option_dec)
qed

lemma vec_delivers:
  assumes c: "compat s (TyVec r)" and w: "wt s v"
    and IH: "\<And>s v. \<lbrakk>compat s r; wt s v\<rbrakk> \<Longrightarrow> de r (enc s v) = conv ap s r v"
  shows "de (TyVec r) (enc s v) = conv ap s (TyVec r) v"
proof -
  obtain s' vs where s: "s = TyVec s'" "v = RVec vs" "compat s' r" "list_all (wt s') vs"
    using c w by (auto split: wty.splits rval.splits)
  then have m: "map (de r) (map (enc s') vs) = map (conv ap s' r) vs"
    using IH [OF s(3)] by (auto simp: list_all_iff)
  have "de (TyVec r) (enc (TyVec s') (RVec vs)) = map_option RVec (those (map (de r) (map (enc s') vs)))"
    by (simp only: vec_enc vec_dec)
  then show ?thesis unfolding m using s by simp
qed

lemma compat_delivers: "\<lbrakk>compat s r; wt s v\<rbrakk> \<Longrightarrow> de r (enc s v) = conv ap s r v"
proof (induction "size r" arbitrary: s r v rule: less_induct)
  case less
  note IH = less.hyps and c = less.prems(1) and w = less.prems(2)
  have leaf: ?case if "is_scalar r" "s = r" using scalar [OF that(1)] w that by (cases r) (auto simp: is_scalar_def)
  show ?case
  proof (cases r)
    case (TyStruct gs)
    have "size (fl_type g) < size r" if "g \<in> set gs" for g using fl_type_size [OF that] TyStruct by simp
    then show ?thesis using struct_delivers [of s gs v] IH c w TyStruct by blast
  next
    case (TyOption t)
    then show ?thesis using option_delivers [of s t v] IH c w by simp
  next
    case (TyVec t)
    then show ?thesis using vec_delivers [of s t v] IH c w by simp
  next
    case TyPath
    then show ?thesis
      using scalar [of TyString v] c w by (auto simp: path_enc path_dec is_scalar_def split: rval.splits)
  next
    case TyString
    then show ?thesis
      using scalar [of TyString v] c w by (auto simp: path_enc path_dec is_scalar_def split: rval.splits)
  next
    case TyAbsPath
    then show ?thesis using c w by (auto simp: path_enc abs_path split: rval.splits)
  qed (use leaf c in \<open>simp_all add: is_scalar_def\<close>)
qed

end

section \<open>Preservation and progress\<close>

text \<open>What arrives has the receiver's type, and something arrives unless a path is refused.\<close>

fun no_abs :: "wty \<Rightarrow> bool" where
  "no_abs TyAbsPath = False"
| "no_abs (TyOption t) = no_abs t"
| "no_abs (TyVec t) = no_abs t"
| "no_abs (TyStruct fs) = list_all (\<lambda>f. no_abs (fl_type f)) fs"
| "no_abs _ = True"

lemma those_Some: "those (map f xs) = Some ys \<longleftrightarrow> map f xs = map Some ys"
  by (induction xs arbitrary: ys) (auto simp: Cons_eq_map_conv split: option.splits)

lemma those_total: "(\<And>x. x \<in> set xs \<Longrightarrow> \<exists>y. f x = Some y) \<Longrightarrow> \<exists>ys. those (map f xs) = Some ys"
  by (induction xs) (auto split: option.splits)

lemma find_zip_wt:
  assumes "find (\<lambda>(f, _). fl_name f = n) (zip fs vs) = Some (f, x)" "wt (TyStruct fs) (RStruct vs)"
  shows "wt (fl_type f) x" "find_field n fs = Some f"
proof -
  have "(f, x) \<in> set (zip fs vs)" using assms(1) unfolding find_Some_iff by (metis nth_mem)
  then show "wt (fl_type f) x" using assms(2) by (auto simp: list_all_iff)
  show "find_field n fs = Some f" using find_zip [of vs fs n] assms by simp
qed

lemma struct_field_arrives:
  assumes c: "compat (TyStruct fs) (TyStruct gs)" and w: "wt (TyStruct fs) (RStruct vs)" and g: "g \<in> set gs"
    and ok: "\<And>s v. \<lbrakk>compat s (fl_type g); wt s v\<rbrakk> \<Longrightarrow> P (conv ap s (fl_type g) v)"
    and default: "\<And>d. wt (fl_type g) d \<Longrightarrow> P (Some d)"
  shows "P (case find (\<lambda>(f, _). fl_name f = fl_name g) (zip fs vs) of
      Some (f, x) \<Rightarrow> conv ap (fl_type f) (fl_type g) x | None \<Rightarrow> missing g)"
proof (cases "find (\<lambda>(f, _). fl_name f = fl_name g) (zip fs vs)")
  case None
  then have "find_field (fl_name g) fs = None" using find_zip [of vs fs "fl_name g"] w by simp
  then show ?thesis using c g None default by (auto simp: list_all_iff split: option.splits)
next
  case (Some fx)
  then obtain f x where fx: "fx = (f, x)" by force
  then show ?thesis
    using find_zip_wt [OF Some [unfolded fx] w] c g ok Some by (auto simp: list_all_iff)
qed

lemma conv_wt: "\<lbrakk>compat s r; wt s v; conv ap s r v = Some v'\<rbrakk> \<Longrightarrow> wt r v'"
proof (induction "size r" arbitrary: s r v v' rule: less_induct)
  case less
  note IH = less.hyps and c = less.prems(1) and w = less.prems(2) and v' = less.prems(3)
  show ?case
  proof (cases r)
    case (TyStruct gs)
    obtain fs vs where s: "s = TyStruct fs" "v = RStruct vs" using c w TyStruct by (auto split: wty.splits rval.splits)
    obtain us where us: "v' = RStruct us" "map (\<lambda>g. case find (\<lambda>(f, _). fl_name f = fl_name g) (zip fs vs) of
        Some (f, x) \<Rightarrow> conv ap (fl_type f) (fl_type g) x | None \<Rightarrow> missing g) gs = map Some us"
      using v' by (auto simp: TyStruct s those_Some)
    have len: "length us = length gs" using arg_cong [OF us(2), of length] by simp
    have "wt (fl_type (gs ! i)) (us ! i)" if i: "i < length gs" for i
    proof -
      have sz: "size (fl_type (gs ! i)) < size r" using fl_type_size [OF nth_mem [OF i]] TyStruct by simp
      have "\<forall>u. (case find (\<lambda>(f, _). fl_name f = fl_name (gs ! i)) (zip fs vs) of
          Some (f, x) \<Rightarrow> conv ap (fl_type f) (fl_type (gs ! i)) x | None \<Rightarrow> missing (gs ! i)) = Some u \<longrightarrow> wt (fl_type (gs ! i)) u"
        using c w i s TyStruct IH [OF sz]
        by (intro struct_field_arrives [where P = "\<lambda>z. \<forall>u. z = Some u \<longrightarrow> wt (fl_type (gs ! i)) u"]) auto
      moreover have "(case find (\<lambda>(f, _). fl_name f = fl_name (gs ! i)) (zip fs vs) of
          Some (f, x) \<Rightarrow> conv ap (fl_type f) (fl_type (gs ! i)) x | None \<Rightarrow> missing (gs ! i)) = Some (us ! i)"
        using arg_cong [OF us(2), of "\<lambda>l. l ! i"] i len by simp
      ultimately show ?thesis by blast
    qed
    then show ?thesis using len us(1) TyStruct by (simp add: list_all_length)
  next
    case (TyOption t)
    show ?thesis
    proof (cases "\<exists>s'. s = TyOption s'")
      case True
      then show ?thesis using c w v' IH [of t] TyOption by (auto split: rval.splits if_splits)
    next
      case False
      then have k: "compat s t" "\<not> is_option t" using c TyOption by (auto split: wty.splits)
      then obtain u where "v' = RSome u" "conv ap s t v = Some u"
        using v' False by (cases s) (auto simp: TyOption)
      then show ?thesis using IH [of t] k w TyOption by simp
    qed
  next
    case (TyVec t)
    then obtain s' vs us where "s = TyVec s'" "v = RVec vs" "v' = RVec us" "map (conv ap s' t) vs = map Some us"
      using c w v' by (auto simp: those_Some split: wty.splits rval.splits)
    moreover from this have "length us = length vs" by (metis length_map)
    ultimately show ?thesis
      using c w IH [of t] TyVec by (auto simp: list_all_length) (metis length_map nth_map)
  qed (use c w v' in \<open>auto split: rval.splits\<close>)
qed

lemma conv_total:
  "\<lbrakk>compat s r; wt s v; no_abs r \<or> (\<forall>p. \<exists>q. ap p = Some q)\<rbrakk> \<Longrightarrow> \<exists>v'. conv ap s r v = Some v'"
proof (induction "size r" arbitrary: s r v rule: less_induct)
  case less
  note IH = less.hyps and c = less.prems(1) and w = less.prems(2) and n = less.prems(3)
  show ?case
  proof (cases r)
    case (TyStruct gs)
    obtain fs vs where s: "s = TyStruct fs" "v = RStruct vs" using c w TyStruct by (auto split: wty.splits rval.splits)
    have "\<exists>y. (case find (\<lambda>(f, _). fl_name f = fl_name g) (zip fs vs) of
        Some (f, x) \<Rightarrow> conv ap (fl_type f) (fl_type g) x | None \<Rightarrow> missing g) = Some y" if g: "g \<in> set gs" for g
      using c w g s n TyStruct IH [of "fl_type g"] fl_type_size [OF g]
      by (intro struct_field_arrives [where P = "\<lambda>z. \<exists>y. z = Some y"]) (auto simp: list_all_iff)
    then have "\<exists>us. those (map (\<lambda>g. case find (\<lambda>(f, _). fl_name f = fl_name g) (zip fs vs) of
        Some (f, x) \<Rightarrow> conv ap (fl_type f) (fl_type g) x | None \<Rightarrow> missing g) gs) = Some us"
      by (rule those_total)
    then obtain us where "those (map (\<lambda>g. case find (\<lambda>(f, _). fl_name f = fl_name g) (zip fs vs) of
        Some (f, x) \<Rightarrow> conv ap (fl_type f) (fl_type g) x | None \<Rightarrow> missing g) gs) = Some us" ..
    then show ?thesis by (simp add: s TyStruct)
  next
    case (TyOption t)
    then have sz: "size t < size r" "no_abs t \<or> (\<forall>p. \<exists>q. ap p = Some q)" using n by auto
    show ?thesis
    proof (cases "\<exists>s'. s = TyOption s'")
      case True
      then obtain s' where s: "s = TyOption s'" "compat s' t" using c TyOption by auto
      then show ?thesis using IH [OF sz(1) s(2) _ sz(2)] w TyOption by (cases v) auto
    next
      case False
      then have "compat s t" using c TyOption by (auto split: wty.splits)
      from IH [OF sz(1) this w sz(2)] show ?thesis using False TyOption by (cases s) auto
    qed
  next
    case (TyVec t)
    then obtain s' vs where s: "s = TyVec s'" "v = RVec vs" "compat s' t" "list_all (wt s') vs"
      using c w by (auto split: wty.splits rval.splits)
    then have "\<exists>us. those (map (conv ap s' t) vs) = Some us"
      using IH [of t s'] n TyVec by (intro those_total) (auto simp: list_all_iff)
    then show ?thesis using s TyVec by auto
  qed (use n c w in \<open>auto split: rval.splits\<close>)
qed

text \<open>Between equal types the value itself arrives, when no optional field holds a value that can be
  nil.\<close>

fun exact :: "wty \<Rightarrow> bool" where
  "exact TyAbsPath = False"
| "exact (TyOption t) = (never_nil t \<and> exact t)"
| "exact (TyVec t) = exact t"
| "exact (TyStruct fs) = (distinct (map fl_name fs) \<and> list_all (\<lambda>f. exact (fl_type f)) fs)"
| "exact _ = True"

lemma never_nil_wt: "never_nil t \<Longrightarrow> wt t v \<Longrightarrow> \<not> is_nil v"
  by (cases t) (auto simp: never_nil_def split: rval.splits)

lemma find_own_field:
  "\<lbrakk>distinct (map fl_name fs); length vs = length fs; i < length fs\<rbrakk> \<Longrightarrow>
     find (\<lambda>(f, _). fl_name f = fl_name (fs ! i)) (zip fs vs) = Some (fs ! i, vs ! i)"
  unfolding find_Some_iff
  by (intro exI [of _ i]) (auto simp: distinct_conv_nth)

lemma conv_exact: "\<lbrakk>exact t; wt t v\<rbrakk> \<Longrightarrow> conv ap t t v = Some v"
proof (induction "size t" arbitrary: t v rule: less_induct)
  case less
  note IH = less.hyps and e = less.prems(1) and w = less.prems(2)
  show ?case
  proof (cases t)
    case (TyStruct fs)
    then obtain vs where v: "v = RStruct vs" "length vs = length fs" using w by (auto split: rval.splits)
    have "conv ap (fl_type (fs ! i)) (fl_type (fs ! i)) (vs ! i) = Some (vs ! i)" if i: "i < length fs" for i
      using IH [of "fl_type (fs ! i)" "vs ! i"] fl_type_size [OF nth_mem [OF i]] e w v i TyStruct
      by (auto simp: list_all_length)
    then have "map (\<lambda>g. case find (\<lambda>(f, _). fl_name f = fl_name g) (zip fs vs) of
        Some (f, x) \<Rightarrow> conv ap (fl_type f) (fl_type g) x | None \<Rightarrow> missing g) fs = map Some vs"
      using find_own_field [of fs vs] e v TyStruct by (intro nth_equalityI) auto
    then have "those (map (\<lambda>g. case find (\<lambda>(f, _). fl_name f = fl_name g) (zip fs vs) of
        Some (f, x) \<Rightarrow> conv ap (fl_type f) (fl_type g) x | None \<Rightarrow> missing g) fs) = Some vs"
      by (simp only: those_Some)
    then show ?thesis by (simp add: TyStruct v)
  next
    case (TyOption u)
    then show ?thesis using e w IH [of u] never_nil_wt [of u] by (auto split: rval.splits)
  next
    case (TyVec u)
    then obtain vs where v: "v = RVec vs" "list_all (wt u) vs" using w by (auto split: rval.splits)
    then have "map (conv ap u u) vs = map Some vs" using IH [of u] e TyVec by (auto simp: list_all_iff)
    then have "those (map (conv ap u u) vs) = Some vs" by (simp only: those_Some)
    then show ?thesis by (simp add: TyVec v)
  qed (use e in auto)
qed

section \<open>A codec\<close>

definition str_entries :: "(value \<times> value) list \<Rightarrow> (string \<times> value) list" where
  "str_entries m = List.map_filter (\<lambda>(k, v). map_option (\<lambda>s. (s, v)) (as_str k)) m"

function ref_enc :: "wty \<Rightarrow> rval \<Rightarrow> value" where
  "ref_enc (TyOption t) v = (case v of RSome x \<Rightarrow> ref_enc t x | _ \<Rightarrow> VNil)"
| "ref_enc (TyVec t) v = (case v of RVec vs \<Rightarrow> VArray (map (ref_enc t) vs) | _ \<Rightarrow> VNil)"
| "ref_enc (TyStruct fs) v =
     (case v of RStruct vs \<Rightarrow>
        mp_map (map (\<lambda>(f, x). (fl_name f, ref_enc (fl_type f) x)) (filter (\<lambda>(f, x). \<not> skipped f x) (zip fs vs)))
      | _ \<Rightarrow> VNil)"
| "ref_enc TyString v = (case v of RString s \<Rightarrow> VString s | _ \<Rightarrow> VNil)"
| "ref_enc TyPath v = (case v of RString s \<Rightarrow> VString s | _ \<Rightarrow> VNil)"
| "ref_enc TyAbsPath v = (case v of RString s \<Rightarrow> VString s | _ \<Rightarrow> VNil)"
| "ref_enc TyBool v = (case v of RBool b \<Rightarrow> VBoolean b | _ \<Rightarrow> VNil)"
| "ref_enc (TyInt lo hi) v = (case v of RInt i \<Rightarrow> VInteger i | _ \<Rightarrow> VNil)"
| "ref_enc TyBytes v = (case v of RBytes b \<Rightarrow> VBinary b | _ \<Rightarrow> VNil)"
| "ref_enc TyValue v = (case v of RValue x \<Rightarrow> x | _ \<Rightarrow> VNil)"
| "ref_enc TyUnit v = VNil"
| "ref_enc TyStringMap v = (case v of RMap m \<Rightarrow> mp_map (map (\<lambda>(k, x). (k, VString x)) m) | _ \<Rightarrow> VNil)"
| "ref_enc (TyEnum ns) v = (case v of RVariant n \<Rightarrow> VString n | _ \<Rightarrow> VNil)"
  by pat_completeness auto

termination ref_enc
  by (relation "measure (size \<circ> fst)") (auto intro: fl_type_size dest: set_zip_leftD)

function ref_dec :: "(string \<Rightarrow> string option) \<Rightarrow> wty \<Rightarrow> value \<Rightarrow> rval option" where
  "ref_dec ap (TyOption t) x = (if x = VNil then Some RNone else map_option RSome (ref_dec ap t x))"
| "ref_dec ap (TyVec t) x = (case x of VArray xs \<Rightarrow> map_option RVec (those (map (ref_dec ap t) xs)) | _ \<Rightarrow> None)"
| "ref_dec ap (TyStruct gs) x =
     (case x of VMap m \<Rightarrow> map_option RStruct (those (map (\<lambda>g. case map_of (str_entries m) (fl_name g) of
          Some y \<Rightarrow> ref_dec ap (fl_type g) y | None \<Rightarrow> missing g) gs)) | _ \<Rightarrow> None)"
| "ref_dec ap TyString x = map_option RString (as_str x)"
| "ref_dec ap TyPath x = map_option RString (as_str x)"
| "ref_dec ap TyAbsPath x = Option.bind (as_str x) (\<lambda>p. map_option RString (ap p))"
| "ref_dec ap TyBool x = (case x of VBoolean b \<Rightarrow> Some (RBool b) | _ \<Rightarrow> None)"
| "ref_dec ap (TyInt lo hi) x = (case x of VInteger i \<Rightarrow> if lo \<le> i \<and> i \<le> hi then Some (RInt i) else None | _ \<Rightarrow> None)"
| "ref_dec ap TyBytes x = (case x of VBinary b \<Rightarrow> Some (RBytes b) | _ \<Rightarrow> None)"
| "ref_dec ap TyValue x = Some (RValue x)"
| "ref_dec ap TyUnit x = (if x = VNil then Some RUnit else None)"
| "ref_dec ap TyStringMap x =
     (case x of VMap m \<Rightarrow> map_option RMap (those (map (\<lambda>(k, y). case (as_str k, as_str y) of
          (Some a, Some b) \<Rightarrow> Some (a, b) | _ \<Rightarrow> None) m)) | _ \<Rightarrow> None)"
| "ref_dec ap (TyEnum ns) x = (case x of VString n \<Rightarrow> if n \<in> set ns then Some (RVariant n) else None | _ \<Rightarrow> None)"
  by pat_completeness auto

termination ref_dec
  by (relation "measure (\<lambda>(_, t, _). size t)") (auto intro: fl_type_size)

lemma str_entries_mp_map: "mp_map m = VMap x \<Longrightarrow> str_entries x = m"
  by (induction m arbitrary: x) (auto simp: mp_map_def str_entries_def map_filter_def)

lemma those_string_map:
  "those (map (\<lambda>(k, y). case (as_str k, as_str y) of (Some a, Some b) \<Rightarrow> Some (a, b) | _ \<Rightarrow> None)
     (map (\<lambda>(k, v). (VString k, v)) (map (\<lambda>(k, x). (k, VString x)) m))) = Some m"
  by (induction m) auto

interpretation ref: serde ref_enc "ref_dec ap" ap for ap
proof
  show "ref_dec ap t (ref_enc t v) = Some v" if "is_scalar t" "wt t v" for t v
    using that those_string_map
    by (cases t) (auto simp: is_scalar_def mp_map_def split: rval.splits)
  show "ref_enc t v = VNil \<longleftrightarrow> is_nil v" if "wt t v" for t v
    using that
  proof (induction t v rule: ref_enc.induct)
    case (1 t v)
    then show ?case by (cases v; cases t) (auto simp: is_option_def split: rval.splits)
  qed (auto simp: mp_map_def split: rval.splits)
  show "ref_dec ap (TyStruct gs) (mp_map m) = map_option RStruct (those (map (de_field (ref_dec ap) m) gs))" for gs m
  proof -
    obtain x where x: "mp_map m = VMap x" by (simp add: mp_map_def)
    then show ?thesis using str_entries_mp_map [OF x] by (simp add: de_field_def [abs_def])
  qed
qed (auto simp: enc_fields_def)

end
