(* ===== verification/Wire_Types.thy ===== *)
theory Wire_Types
  imports Wire_Schema
begin

text \<open>
  The request, response and notification types of the three crates as schemas: \<open>t_\<close> for the
  transport crate, whose types the typed clients and the gateway use, \<open>a_\<close> for the agent
  crate, \<open>g_\<close> for the copies that the gateway crate keeps.  Wire names have
  \<^verbatim>\<open>rename_all\<close> applied; \<^verbatim>\<open>usize\<close> has 64 bits and
  \<^verbatim>\<open>ProcessId\<close> is a transparent string.
\<close>

text \<open>\<^verbatim>\<open>utils/transport/src/agent/methods.rs\<close>\<close>

definition t_InitializeParams :: wty where
  "t_InitializeParams = TyStruct
     [fld ''client_name'' TyString]"

definition t_InitializeResponse :: wty where
  "t_InitializeResponse = TyStruct
     [fld_opt ''default_shell'' TyString,
      fld_opt ''cwd'' TyPath]"

definition t_ProcessStartParams :: wty where
  "t_ProcessStartParams = TyStruct
     [fld ''process_id'' TyString,
      fld ''argv'' (TyVec TyString),
      fld ''cwd'' TyPath,
      fld ''env'' TyStringMap,
      fld ''tty'' TyBool,
      fld ''arg0'' (TyOption TyString),
      fld_opt ''output_bytes_cap'' ty_u64]"

definition t_ProcessStartResponse :: wty where
  "t_ProcessStartResponse = TyStruct
     [fld ''process_id'' TyString]"

definition t_ProcessReadParams :: wty where
  "t_ProcessReadParams = TyStruct
     [fld ''process_id'' TyString,
      fld_opt ''after_seq'' ty_u64,
      fld_opt ''max_bytes'' ty_u64,
      fld_opt ''wait_ms'' ty_u64]"

definition t_StreamKind :: wty where
  "t_StreamKind = TyEnum [''stdout'', ''stderr'', ''pty'']"

definition t_ProcessChunk :: wty where
  "t_ProcessChunk = TyStruct
     [fld ''seq'' ty_u64,
      fld ''stream'' t_StreamKind,
      fld ''chunk'' TyBytes]"

definition t_ProcessReadResponse :: wty where
  "t_ProcessReadResponse = TyStruct
     [fld ''chunks'' (TyVec t_ProcessChunk),
      fld ''next_seq'' ty_u64,
      fld ''exited'' TyBool,
      fld ''exit_code'' (TyOption ty_i32),
      fld ''closed'' TyBool,
      fld ''failure'' (TyOption TyString)]"

definition t_ProcessWriteParams :: wty where
  "t_ProcessWriteParams = TyStruct
     [fld ''process_id'' TyString,
      fld ''chunk'' TyBytes]"

definition t_WriteStatus :: wty where
  "t_WriteStatus = TyEnum [''accepted'', ''unknown_process'', ''stdin_closed'', ''starting'']"

definition t_ProcessWriteResponse :: wty where
  "t_ProcessWriteResponse = TyStruct
     [fld ''status'' t_WriteStatus]"

definition t_ProcessTerminateParams :: wty where
  "t_ProcessTerminateParams = TyStruct
     [fld ''process_id'' TyString]"

definition t_ProcessTerminateResponse :: wty where
  "t_ProcessTerminateResponse = TyStruct
     [fld ''running'' TyBool]"

definition t_FsReadFileParams :: wty where
  "t_FsReadFileParams = TyStruct
     [fld ''path'' TyString]"

definition t_FsReadFileResponse :: wty where
  "t_FsReadFileResponse = TyStruct
     [fld ''data'' TyBytes]"

definition t_FsWriteFileParams :: wty where
  "t_FsWriteFileParams = TyStruct
     [fld ''path'' TyString,
      fld ''data'' TyBytes]"

definition t_FsWriteFileResponse :: wty where
  "t_FsWriteFileResponse = TyStruct []"

definition t_FsCreateDirectoryParams :: wty where
  "t_FsCreateDirectoryParams = TyStruct
     [fld ''path'' TyString,
      fld_opt ''recursive'' TyBool]"

definition t_FsCreateDirectoryResponse :: wty where
  "t_FsCreateDirectoryResponse = TyStruct []"

definition t_FsGetMetadataParams :: wty where
  "t_FsGetMetadataParams = TyStruct
     [fld ''path'' TyString]"

definition t_FsGetMetadataResponse :: wty where
  "t_FsGetMetadataResponse = TyStruct
     [fld ''isDirectory'' TyBool,
      fld ''isFile'' TyBool,
      fld ''createdAtMs'' ty_i64,
      fld ''modifiedAtMs'' ty_i64]"

definition t_FsReadDirectoryParams :: wty where
  "t_FsReadDirectoryParams = TyStruct
     [fld ''path'' TyString]"

definition t_FsReadDirectoryEntry :: wty where
  "t_FsReadDirectoryEntry = TyStruct
     [fld ''fileName'' TyString,
      fld ''isDirectory'' TyBool,
      fld ''isFile'' TyBool]"

definition t_FsReadDirectoryResponse :: wty where
  "t_FsReadDirectoryResponse = TyStruct
     [fld ''entries'' (TyVec t_FsReadDirectoryEntry)]"

definition t_FsRemoveParams :: wty where
  "t_FsRemoveParams = TyStruct
     [fld ''path'' TyString,
      fld_opt ''recursive'' TyBool,
      fld_opt ''force'' TyBool]"

definition t_FsRemoveResponse :: wty where
  "t_FsRemoveResponse = TyStruct []"

definition t_FsCopyParams :: wty where
  "t_FsCopyParams = TyStruct
     [fld ''sourcePath'' TyString,
      fld ''destinationPath'' TyString,
      Field ''recursive'' TyBool True SkipFalse]"

definition t_FsCopyResponse :: wty where
  "t_FsCopyResponse = TyStruct []"

definition t_ProxyRegisterParams :: wty where
  "t_ProxyRegisterParams = TyStruct
     [fld ''socket_path'' TyString,
      fld ''upstream_url'' TyString,
      Field ''headers'' TyStringMap True SkipEmpty]"

definition t_ProxyRegisterResponse :: wty where
  "t_ProxyRegisterResponse = TyStruct
     [fld ''ok'' TyBool]"

definition t_ProxyUnregisterParams :: wty where
  "t_ProxyUnregisterParams = TyStruct
     [fld ''socket_path'' TyString]"

definition t_ProxyUnregisterResponse :: wty where
  "t_ProxyUnregisterResponse = TyStruct
     [fld ''ok'' TyBool]"

text \<open>\<^verbatim>\<open>utils/transport/src/agent/notifications.rs\<close>\<close>

definition t_ProcessOutputNotification :: wty where
  "t_ProcessOutputNotification = TyStruct
     [fld ''process_id'' TyString,
      fld ''seq'' ty_u64,
      fld ''stream'' t_StreamKind,
      fld ''chunk'' TyBytes]"

definition t_ProcessExitedNotification :: wty where
  "t_ProcessExitedNotification = TyStruct
     [fld ''process_id'' TyString,
      fld ''seq'' ty_u64,
      fld ''exit_code'' (TyOption ty_i32)]"

definition t_ProcessClosedNotification :: wty where
  "t_ProcessClosedNotification = TyStruct
     [fld ''process_id'' TyString,
      fld ''seq'' ty_u64]"

text \<open>\<^verbatim>\<open>utils/transport/src/gateway/methods.rs\<close>\<close>

definition t_HelloParams :: wty where
  "t_HelloParams = TyStruct
     [fld ''access_key'' TyString,
      fld ''client_name'' TyString,
      fld ''ts'' ty_i64,
      fld ''nonce'' TyString,
      fld ''signature'' TyString]"

definition t_HelloResponse :: wty where
  "t_HelloResponse = TyStruct
     [fld ''ok'' TyBool,
      fld ''gateway_version'' TyString]"

definition t_SpawnAgentParams :: wty where
  "t_SpawnAgentParams = TyStruct
     [fld ''name'' TyString,
      fld_opt ''image'' TyString,
      Field ''env'' TyStringMap True SkipEmpty,
      Field ''labels'' TyStringMap True SkipEmpty,
      fld_opt ''workspace'' TyString,
      Field ''extra_ports'' (TyVec ty_u16) True SkipEmpty]"

definition t_SpawnAgentResponse :: wty where
  "t_SpawnAgentResponse = TyStruct
     [fld ''agent_id'' TyString,
      fld ''container_name'' TyString]"

definition t_AgentIdParams :: wty where
  "t_AgentIdParams = TyStruct
     [fld ''agent_id'' TyString]"

definition t_OkResponse :: wty where
  "t_OkResponse = TyStruct
     [fld ''ok'' TyBool]"

definition t_AttachAgentParams :: wty where
  "t_AttachAgentParams = TyStruct
     [fld ''container_name'' TyString]"

definition t_AgentSummary :: wty where
  "t_AgentSummary = TyStruct
     [fld ''agent_id'' TyString,
      fld ''container_name'' TyString,
      fld ''created_at_unix_ms'' ty_u64]"

definition t_ListAgentsResponse :: wty where
  "t_ListAgentsResponse = TyStruct
     [fld ''agents'' (TyVec t_AgentSummary)]"

definition t_AgentInvokeParams :: wty where
  "t_AgentInvokeParams = TyStruct
     [fld ''agent_id'' TyString,
      fld ''method'' TyString,
      fld_opt ''params'' TyValue]"

definition t_AgentNotifyParams :: wty where
  "t_AgentNotifyParams = TyStruct
     [fld ''agent_id'' TyString,
      fld ''method'' TyString,
      fld_opt ''params'' TyValue]"

definition t_RegisterProxyParams :: wty where
  "t_RegisterProxyParams = TyStruct
     [fld ''agent_id'' TyString,
      fld ''name'' TyString,
      fld ''upstream_url'' TyString,
      Field ''headers'' TyStringMap True SkipEmpty]"

definition t_RegisterProxyResponse :: wty where
  "t_RegisterProxyResponse = TyStruct
     [fld ''token'' TyString,
      fld ''socket_path'' TyString]"

definition t_UnregisterProxyParams :: wty where
  "t_UnregisterProxyParams = TyStruct
     [fld ''agent_id'' TyString,
      fld ''name'' TyString]"

definition t_RegisterStreamProxyParams :: wty where
  "t_RegisterStreamProxyParams = TyStruct
     [fld ''agent_id'' TyString,
      fld ''name'' TyString,
      fld ''container_port'' ty_u16]"

definition t_RegisterStreamProxyResponse :: wty where
  "t_RegisterStreamProxyResponse = TyStruct
     [fld ''listen_addr'' TyString]"

definition t_UnregisterStreamProxyParams :: wty where
  "t_UnregisterStreamProxyParams = TyStruct
     [fld ''agent_id'' TyString,
      fld ''name'' TyString]"

text \<open>\<^verbatim>\<open>nexal-agent/src/protocol/methods.rs\<close>\<close>

definition a_ExecOutputStream :: wty where
  "a_ExecOutputStream = TyEnum [''stdout'', ''stderr'', ''pty'']"

definition a_WriteStatus :: wty where
  "a_WriteStatus = TyEnum [''accepted'', ''unknown_process'', ''stdin_closed'', ''starting'']"

text \<open>\<^verbatim>\<open>nexal-agent/src/protocol/wire.rs\<close>\<close>

definition a_InitializeParams :: wty where
  "a_InitializeParams = TyStruct
     [fld ''client_name'' TyString]"

definition a_InitializeResponse :: wty where
  "a_InitializeResponse = TyStruct
     [fld_opt ''default_shell'' TyString,
      fld_opt ''cwd'' TyPath]"

definition a_ExecParams :: wty where
  "a_ExecParams = TyStruct
     [fld ''process_id'' TyString,
      fld ''argv'' (TyVec TyString),
      fld ''cwd'' TyPath,
      fld ''env'' TyStringMap,
      fld ''tty'' TyBool,
      fld ''arg0'' (TyOption TyString)]"

definition a_ExecResponse :: wty where
  "a_ExecResponse = TyStruct
     [fld ''process_id'' TyString]"

definition a_ReadParams :: wty where
  "a_ReadParams = TyStruct
     [fld ''process_id'' TyString,
      fld ''after_seq'' (TyOption ty_u64),
      fld ''max_bytes'' (TyOption ty_u64),
      fld ''wait_ms'' (TyOption ty_u64)]"

definition a_ProcessOutputChunk :: wty where
  "a_ProcessOutputChunk = TyStruct
     [fld ''seq'' ty_u64,
      fld ''stream'' a_ExecOutputStream,
      fld ''chunk'' TyBytes]"

definition a_ReadResponse :: wty where
  "a_ReadResponse = TyStruct
     [fld ''chunks'' (TyVec a_ProcessOutputChunk),
      fld ''next_seq'' ty_u64,
      fld ''exited'' TyBool,
      fld ''exit_code'' (TyOption ty_i32),
      fld ''closed'' TyBool,
      fld ''failure'' (TyOption TyString)]"

definition a_WriteParams :: wty where
  "a_WriteParams = TyStruct
     [fld ''process_id'' TyString,
      fld ''chunk'' TyBytes]"

definition a_WriteResponse :: wty where
  "a_WriteResponse = TyStruct
     [fld ''status'' a_WriteStatus]"

definition a_TerminateParams :: wty where
  "a_TerminateParams = TyStruct
     [fld ''process_id'' TyString]"

definition a_TerminateResponse :: wty where
  "a_TerminateResponse = TyStruct
     [fld ''running'' TyBool]"

definition a_ExecOutputDeltaNotification :: wty where
  "a_ExecOutputDeltaNotification = TyStruct
     [fld ''process_id'' TyString,
      fld ''seq'' ty_u64,
      fld ''stream'' a_ExecOutputStream,
      fld ''chunk'' TyBytes]"

definition a_ExecExitedNotification :: wty where
  "a_ExecExitedNotification = TyStruct
     [fld ''process_id'' TyString,
      fld ''seq'' ty_u64,
      fld ''exit_code'' ty_i32]"

definition a_ExecClosedNotification :: wty where
  "a_ExecClosedNotification = TyStruct
     [fld ''process_id'' TyString,
      fld ''seq'' ty_u64]"

definition a_ProxyRegisterParams :: wty where
  "a_ProxyRegisterParams = TyStruct
     [fld ''socket_path'' TyString,
      fld ''upstream_url'' TyString,
      fld_default ''headers'' TyStringMap]"

definition a_ProxyRegisterResponse :: wty where
  "a_ProxyRegisterResponse = TyStruct
     [fld ''ok'' TyBool]"

definition a_ProxyUnregisterParams :: wty where
  "a_ProxyUnregisterParams = TyStruct
     [fld ''socket_path'' TyString]"

definition a_ProxyUnregisterResponse :: wty where
  "a_ProxyUnregisterResponse = TyStruct
     [fld ''ok'' TyBool]"

definition a_FsReadFileParams :: wty where
  "a_FsReadFileParams = TyStruct
     [fld ''path'' TyAbsPath]"

definition a_FsReadFileResponse :: wty where
  "a_FsReadFileResponse = TyStruct
     [fld ''data'' TyBytes]"

definition a_FsWriteFileParams :: wty where
  "a_FsWriteFileParams = TyStruct
     [fld ''path'' TyAbsPath,
      fld ''data'' TyBytes]"

definition a_FsWriteFileResponse :: wty where
  "a_FsWriteFileResponse = TyStruct []"

definition a_FsCreateDirectoryParams :: wty where
  "a_FsCreateDirectoryParams = TyStruct
     [fld ''path'' TyAbsPath,
      fld ''recursive'' (TyOption TyBool)]"

definition a_FsCreateDirectoryResponse :: wty where
  "a_FsCreateDirectoryResponse = TyStruct []"

definition a_FsGetMetadataParams :: wty where
  "a_FsGetMetadataParams = TyStruct
     [fld ''path'' TyAbsPath]"

definition a_FsGetMetadataResponse :: wty where
  "a_FsGetMetadataResponse = TyStruct
     [fld ''isDirectory'' TyBool,
      fld ''isFile'' TyBool,
      fld ''createdAtMs'' ty_i64,
      fld ''modifiedAtMs'' ty_i64]"

definition a_FsReadDirectoryParams :: wty where
  "a_FsReadDirectoryParams = TyStruct
     [fld ''path'' TyAbsPath]"

definition a_FsReadDirectoryEntry :: wty where
  "a_FsReadDirectoryEntry = TyStruct
     [fld ''fileName'' TyString,
      fld ''isDirectory'' TyBool,
      fld ''isFile'' TyBool]"

definition a_FsReadDirectoryResponse :: wty where
  "a_FsReadDirectoryResponse = TyStruct
     [fld ''entries'' (TyVec a_FsReadDirectoryEntry)]"

definition a_FsRemoveParams :: wty where
  "a_FsRemoveParams = TyStruct
     [fld ''path'' TyAbsPath,
      fld ''recursive'' (TyOption TyBool),
      fld ''force'' (TyOption TyBool)]"

definition a_FsRemoveResponse :: wty where
  "a_FsRemoveResponse = TyStruct []"

definition a_FsCopyParams :: wty where
  "a_FsCopyParams = TyStruct
     [fld ''sourcePath'' TyAbsPath,
      fld ''destinationPath'' TyAbsPath,
      Field ''recursive'' TyBool True SkipFalse]"

definition a_FsCopyResponse :: wty where
  "a_FsCopyResponse = TyStruct []"

text \<open>\<^verbatim>\<open>nexal-gateway/src/protocol.rs\<close>\<close>

definition g_HelloParams :: wty where
  "g_HelloParams = TyStruct
     [fld ''access_key'' TyString,
      fld ''client_name'' TyString,
      fld ''ts'' ty_i64,
      fld ''nonce'' TyString,
      fld ''signature'' TyString]"

definition g_HelloResponse :: wty where
  "g_HelloResponse = TyStruct
     [fld ''ok'' TyBool,
      fld ''gateway_version'' TyString]"

definition g_SpawnAgentParams :: wty where
  "g_SpawnAgentParams = TyStruct
     [fld ''name'' TyString,
      fld_default ''image'' (TyOption TyString),
      fld_default ''env'' TyStringMap,
      fld_default ''labels'' TyStringMap,
      fld_default ''extra_ports'' (TyVec ty_u16)]"

definition g_SpawnAgentResponse :: wty where
  "g_SpawnAgentResponse = TyStruct
     [fld ''agent_id'' TyString,
      fld ''container_name'' TyString]"

definition g_AgentIdParams :: wty where
  "g_AgentIdParams = TyStruct
     [fld ''agent_id'' TyString]"

definition g_OkResponse :: wty where
  "g_OkResponse = TyStruct
     [fld ''ok'' TyBool]"

definition g_AttachAgentParams :: wty where
  "g_AttachAgentParams = TyStruct
     [fld ''container_name'' TyString]"

definition g_AgentSummary :: wty where
  "g_AgentSummary = TyStruct
     [fld ''agent_id'' TyString,
      fld ''container_name'' TyString,
      fld ''created_at_unix_ms'' ty_u64]"

definition g_AgentInvokeParams :: wty where
  "g_AgentInvokeParams = TyStruct
     [fld ''agent_id'' TyString,
      fld ''method'' TyString,
      fld_default ''params'' (TyOption TyValue)]"

definition g_AgentNotifyParams :: wty where
  "g_AgentNotifyParams = TyStruct
     [fld ''agent_id'' TyString,
      fld ''method'' TyString,
      fld_default ''params'' (TyOption TyValue)]"

definition g_RegisterProxyParams :: wty where
  "g_RegisterProxyParams = TyStruct
     [fld ''agent_id'' TyString,
      fld ''name'' TyString,
      fld ''upstream_url'' TyString,
      fld_default ''headers'' TyStringMap]"

definition g_RegisterProxyResponse :: wty where
  "g_RegisterProxyResponse = TyStruct
     [fld ''token'' TyString,
      fld ''socket_path'' TyString]"

definition g_UnregisterProxyParams :: wty where
  "g_UnregisterProxyParams = TyStruct
     [fld ''agent_id'' TyString,
      fld ''name'' TyString]"

definition g_RegisterStreamProxyParams :: wty where
  "g_RegisterStreamProxyParams = TyStruct
     [fld ''agent_id'' TyString,
      fld ''name'' TyString,
      fld ''container_port'' ty_u16]"

definition g_RegisterStreamProxyResponse :: wty where
  "g_RegisterStreamProxyResponse = TyStruct
     [fld ''listen_addr'' TyString]"

definition g_UnregisterStreamProxyParams :: wty where
  "g_UnregisterStreamProxyParams = TyStruct
     [fld ''agent_id'' TyString,
      fld ''name'' TyString]"

definition g_ListAgentsResponse :: wty where
  "g_ListAgentsResponse = TyStruct
     [fld ''agents'' (TyVec g_AgentSummary)]"

end
