(* ===== verification/Absolute_Path.thy ===== *)
theory Absolute_Path
  imports Paths
begin

text \<open>
  \<^verbatim>\<open>utils/absolute-path/src/lib.rs\<close>: absolute, normalised paths.  Normalisation is done
  by the \<^verbatim>\<open>path_absolutize\<close> crate, an argument here; what it documents is the locale
  \<open>absolutizer\<close>.  \<open>lexical_absolutize\<close> is a function with these laws.  The home
  directory and the current directory are arguments.  The thread-local base path of the guard is
  an explicit state.
\<close>

section \<open>Operations\<close>

definition maybe_expand_home_directory :: "string option \<Rightarrow> string \<Rightarrow> string" where
  "maybe_expand_home_directory home path =
     (case home of
        None \<Rightarrow> path
      | Some home \<Rightarrow>
          (case path of
             c # rest \<Rightarrow>
               if c = CHR ''~''
               then (case rest of
                       [] \<Rightarrow> home
                     | d # rest \<Rightarrow>
                         if d = CHR ''/'' then path_join home (dropWhile (\<lambda>x. x = CHR ''/'') rest) else path)
               else path
           | [] \<Rightarrow> path))"

definition resolve_path_against_base ::
  "string option \<Rightarrow> (string \<Rightarrow> string \<Rightarrow> (string, string) result) \<Rightarrow> string \<Rightarrow> string \<Rightarrow> (string, string) result" where
  "resolve_path_against_base home absolutize_from path base_path =
     absolutize_from (maybe_expand_home_directory home path) base_path"

text \<open>\<^verbatim>\<open>absolutize\<close> is \<^verbatim>\<open>absolutize_from\<close> the current directory.\<close>

definition from_absolute_path ::
  "string option \<Rightarrow> (string \<Rightarrow> string \<Rightarrow> (string, string) result) \<Rightarrow> (string, string) result \<Rightarrow> string \<Rightarrow>
     (string, string) result" where
  "from_absolute_path home absolutize_from cwd path =
     (case cwd of
        Inl e \<Rightarrow> Err e
      | Inr d \<Rightarrow> absolutize_from (maybe_expand_home_directory home path) d)"

text \<open>The conversions from paths and strings.\<close>

definition abs_try_from where
  "abs_try_from home absolutize_from cwd path = from_absolute_path home absolutize_from cwd path"

definition abs_current_dir where
  "abs_current_dir home absolutize_from cwd =
     (case cwd of Inl e \<Rightarrow> Err e | Inr d \<Rightarrow> from_absolute_path home absolutize_from cwd d)"

definition relative_to_current_dir where
  "relative_to_current_dir home absolutize_from cwd path =
     (case cwd of Inl e \<Rightarrow> Err e | Inr d \<Rightarrow> resolve_path_against_base home absolutize_from path d)"

definition abs_join where
  "abs_join home absolutize_from self path = resolve_path_against_base home absolutize_from path self"

text \<open>A path as its components show it; paths with the same components are equal for
  \<^verbatim>\<open>std::path\<close>.\<close>

fun component_text :: "component \<Rightarrow> string" where
  "component_text RootDir = []"
| "component_text CurDir = ''.''"
| "component_text ParentDir = ''..''"
| "component_text (Normal s) = s"

definition render_abs :: "string list \<Rightarrow> string" where
  "render_abs names = (if names = [] then ''/'' else concat (map (\<lambda>n. CHR ''/'' # n) names))"

definition abs_parent :: "string \<Rightarrow> string option" where
  "abs_parent self =
     (case components self of
        RootDir # cs \<Rightarrow> if cs = [] then None else Some (render_abs (map component_text (butlast cs)))
      | _ \<Rightarrow> None)"

section \<open>The guard and deserialization\<close>

definition guard_new :: "string \<Rightarrow> string option \<Rightarrow> string option" where
  "guard_new base_path base = Some base_path"

definition guard_drop :: "string option \<Rightarrow> string option" where
  "guard_drop base = None"

definition abs_deserialize ::
  "string option \<Rightarrow> (string \<Rightarrow> string \<Rightarrow> (string, string) result) \<Rightarrow> (string, string) result \<Rightarrow>
     string option \<Rightarrow> string \<Rightarrow> (string, string) result" where
  "abs_deserialize home absolutize_from cwd base path =
     (case base of
        Some b \<Rightarrow> resolve_path_against_base home absolutize_from path b
      | None \<Rightarrow>
          if is_absolute path then from_absolute_path home absolutize_from cwd path
          else Err ''AbsolutePathBuf deserialized without a base path'')"

section \<open>What normalisation promises\<close>

definition normalised :: "string \<Rightarrow> bool" where
  "normalised p \<longleftrightarrow> (\<exists>names. components p = RootDir # map Normal names)"

locale absolutizer =
  fixes absolutize_from :: "string \<Rightarrow> string \<Rightarrow> (string, string) result"
  assumes normalises: "\<lbrakk>is_absolute base; absolutize_from p base = Ok q\<rbrakk> \<Longrightarrow> normalised q"
    and absolute_alone: "is_absolute p \<Longrightarrow> absolutize_from p base = absolutize_from p base'"
begin

lemma resolve_normalised:
  "\<lbrakk>is_absolute base; resolve_path_against_base home absolutize_from p base = Ok q\<rbrakk> \<Longrightarrow> normalised q"
  by (auto simp: resolve_path_against_base_def intro: normalises)

lemma from_absolute_normalised:
  "\<lbrakk>\<And>d. cwd = Ok d \<Longrightarrow> is_absolute d; from_absolute_path home absolutize_from cwd p = Ok q\<rbrakk> \<Longrightarrow> normalised q"
  by (auto simp: from_absolute_path_def intro: normalises split: sum.splits)

end

section \<open>A lexical normaliser\<close>

fun lexical :: "string list \<Rightarrow> component list \<Rightarrow> string list" where
  "lexical acc [] = acc"
| "lexical acc (RootDir # cs) = lexical [] cs"
| "lexical acc (CurDir # cs) = lexical acc cs"
| "lexical acc (ParentDir # cs) = lexical (butlast acc) cs"
| "lexical acc (Normal s # cs) = lexical (acc @ [s]) cs"

definition lexical_absolutize :: "string \<Rightarrow> string \<Rightarrow> (string, string) result" where
  "lexical_absolutize p base =
     Ok (render_abs (if is_absolute p then lexical [] (components p)
                     else lexical [] (components base @ components p)))"

section \<open>Lemmas\<close>

lemma is_absolute_Root: "is_absolute p \<longleftrightarrow> (\<exists>cs. components p = RootDir # cs)"
  by (auto simp: components_def Let_def body_components_def segment_component_def
      dest!: arg_cong [of _ _ set] split: if_splits)

lemma normalised_absolute: "normalised p \<Longrightarrow> is_absolute p"
  by (auto simp: normalised_def is_absolute_Root)

lemma lexical_names:
  "\<lbrakk>\<forall>n \<in> set acc. seg_ok n; \<forall>s. Normal s \<in> set cs \<longrightarrow> seg_ok s\<rbrakk> \<Longrightarrow> \<forall>n \<in> set (lexical acc cs). seg_ok n"
proof (induction acc cs rule: lexical.induct)
  case (4 acc cs)
  then show ?case by (auto dest: in_set_butlastD)
qed auto

lemma components_names: "Normal s \<in> set (components p) \<Longrightarrow> seg_ok s"
proof -
  have b: "Normal s \<in> set (body_components segs) \<Longrightarrow> \<forall>x \<in> set segs. CHR ''/'' \<notin> set x \<Longrightarrow> seg_ok s" for segs
    by (auto simp: body_components_def segment_component_def seg_ok_def split: if_splits)
  have "\<forall>x \<in> set (split_on (CHR ''/'') p). CHR ''/'' \<notin> set x" using split_on_segments by blast
  moreover from this have "\<forall>x \<in> set (tl (split_on (CHR ''/'') p)). CHR ''/'' \<notin> set x"
    by (metis list.set_sel(2) split_on_nonempty)
  ultimately show "Normal s \<in> set (components p) \<Longrightarrow> seg_ok s"
    using b by (auto simp: components_def Let_def split: if_splits)
qed

lemma split_on_render: "\<forall>n \<in> set names. seg_ok n \<Longrightarrow>
    split_on (CHR ''/'') (concat (map (\<lambda>n. CHR ''/'' # n) names)) = [] # names"
proof (induction names)
  case (Cons n names)
  let ?rest = "concat (map (\<lambda>n. CHR ''/'' # n) names)"
  have n: "CHR ''/'' \<notin> set n" using Cons.prems by (simp add: seg_ok_def)
  have "split_on (CHR ''/'') (n @ ?rest) = n # names"
  proof (cases names)
    case Nil
    then show ?thesis using n by (simp add: split_on_plain)
  next
    case (Cons m ms)
    have "split_on (CHR ''/'') (n @ CHR ''/'' # (m @ concat (map (\<lambda>n. CHR ''/'' # n) ms))) =
        [n] @ split_on (CHR ''/'') (m @ concat (map (\<lambda>n. CHR ''/'' # n) ms))"
      using n by (simp add: split_on_sep split_on_plain)
    moreover have "split_on (CHR ''/'') ?rest = [] # split_on (CHR ''/'') (m @ concat (map (\<lambda>n. CHR ''/'' # n) ms))"
      using split_on_sep [of "CHR ''/''" "[]"] Cons by simp
    ultimately show ?thesis using Cons.IH Cons.prems Cons by simp
  qed
  then show ?case using split_on_sep [of "CHR ''/''" "[]" "n @ ?rest"] by simp
qed simp

lemma components_render: "\<forall>n \<in> set names. seg_ok n \<Longrightarrow> components (render_abs names) = RootDir # map Normal names"
proof (cases "names = []")
  case True
  then show ?thesis by (simp add: render_abs_def components_def is_absolute_def body_components_def)
next
  case False
  assume ok: "\<forall>n \<in> set names. seg_ok n"
  have "is_absolute (render_abs names)" using False by (cases names) (auto simp: render_abs_def is_absolute_def)
  moreover have "body_components ([] # names) = map Normal names"
    using ok by (induction names) (auto simp: body_components_def segment_component_def seg_ok_def)
  ultimately show ?thesis using split_on_render [OF ok] False by (simp add: components_def render_abs_def)
qed

lemma lexical_normalised: "normalised (render_abs (lexical [] (components p @ components q)))"
proof -
  have "\<forall>n \<in> set (lexical [] (components p @ components q)). seg_ok n"
    by (rule lexical_names) (auto dest: components_names)
  then show ?thesis by (auto simp: normalised_def components_render)
qed

interpretation lex: absolutizer lexical_absolutize
proof
  show "normalised q" if "is_absolute base" "lexical_absolutize p base = Ok q" for base p q
  proof (cases "is_absolute p")
    case True
    have "normalised (render_abs (lexical [] (components p)))"
    proof -
      have "\<forall>n \<in> set (lexical [] (components p)). seg_ok n" by (rule lexical_names) (auto dest: components_names)
      then show ?thesis by (auto simp: normalised_def components_render)
    qed
    then show ?thesis using that True by (auto simp: lexical_absolutize_def)
  next
    case False
    then show ?thesis using that lexical_normalised by (auto simp: lexical_absolutize_def)
  qed
  show "lexical_absolutize p base = lexical_absolutize p base'" if "is_absolute p" for p base base'
    using that by (simp add: lexical_absolutize_def)
qed

text \<open>A guard that ends inside another one leaves no base behind.\<close>

lemma nested_guard_loses_base:
  "\<not> is_absolute path \<Longrightarrow>
     abs_deserialize home f cwd (guard_drop (guard_new inner (guard_new outer base))) path =
       Err ''AbsolutePathBuf deserialized without a base path''"
  by (simp add: abs_deserialize_def guard_drop_def)

lemma abs_parent_normalised: "\<lbrakk>normalised p; abs_parent p = Some q\<rbrakk> \<Longrightarrow> normalised q"
proof -
  assume "normalised p" "abs_parent p = Some q"
  then obtain names where n: "components p = RootDir # map Normal names" "names \<noteq> []"
    and q: "q = render_abs (map component_text (butlast (map Normal names)))"
    by (auto simp: normalised_def abs_parent_def split: if_splits)
  have "seg_ok x" if "x \<in> set names" for x using components_names [of x p] that n by auto
  then have "\<forall>x \<in> set (butlast names). seg_ok x" by (auto dest: in_set_butlastD)
  moreover have "map component_text (butlast (map Normal names)) = butlast names"
    by (simp add: map_butlast [symmetric] o_def)
  ultimately show ?thesis using q by (auto simp: normalised_def components_render)
qed



end
