(* ===== verification/Typed_Rpc.thy ===== *)
theory Typed_Rpc
  imports Wire_Types Connection Agent_Protocol Gateway_Protocol Absolute_Path
begin

text \<open>
  The typed layer of the transport crate: \<^verbatim>\<open>agent/client.rs\<close>,
  \<^verbatim>\<open>agent/server.rs\<close>, \<^verbatim>\<open>gateway/client.rs\<close>,
  \<^verbatim>\<open>gateway/server.rs\<close> and the helpers of \<^verbatim>\<open>lib.rs\<close>.  Every method of
  a client is a typed request with the types of the method table; every method of a server is a
  typed handler, or \<^verbatim>\<open>method_not_found\<close> when the implementation does not override it.
  The same table for the agent crate, which decodes the requests with its own types, shows what
  the two sides understand of each other.
\<close>

section \<open>Method tables\<close>

definition t_agent_params :: "AgentMethod \<Rightarrow> wty" where
  "t_agent_params m =
     (case m of
        Initialize \<Rightarrow> t_InitializeParams | Initialized \<Rightarrow> TyUnit
      | ProcessStart \<Rightarrow> t_ProcessStartParams | ProcessRead \<Rightarrow> t_ProcessReadParams
      | ProcessWrite \<Rightarrow> t_ProcessWriteParams | ProcessTerminate \<Rightarrow> t_ProcessTerminateParams
      | FsReadFile \<Rightarrow> t_FsReadFileParams | FsWriteFile \<Rightarrow> t_FsWriteFileParams
      | FsCreateDirectory \<Rightarrow> t_FsCreateDirectoryParams | FsGetMetadata \<Rightarrow> t_FsGetMetadataParams
      | FsReadDirectory \<Rightarrow> t_FsReadDirectoryParams | FsRemove \<Rightarrow> t_FsRemoveParams | FsCopy \<Rightarrow> t_FsCopyParams
      | ProxyRegister \<Rightarrow> t_ProxyRegisterParams | ProxyUnregister \<Rightarrow> t_ProxyUnregisterParams)"

definition t_agent_result :: "AgentMethod \<Rightarrow> wty" where
  "t_agent_result m =
     (case m of
        Initialize \<Rightarrow> t_InitializeResponse | Initialized \<Rightarrow> TyUnit
      | ProcessStart \<Rightarrow> t_ProcessStartResponse | ProcessRead \<Rightarrow> t_ProcessReadResponse
      | ProcessWrite \<Rightarrow> t_ProcessWriteResponse | ProcessTerminate \<Rightarrow> t_ProcessTerminateResponse
      | FsReadFile \<Rightarrow> t_FsReadFileResponse | FsWriteFile \<Rightarrow> t_FsWriteFileResponse
      | FsCreateDirectory \<Rightarrow> t_FsCreateDirectoryResponse | FsGetMetadata \<Rightarrow> t_FsGetMetadataResponse
      | FsReadDirectory \<Rightarrow> t_FsReadDirectoryResponse | FsRemove \<Rightarrow> t_FsRemoveResponse | FsCopy \<Rightarrow> t_FsCopyResponse
      | ProxyRegister \<Rightarrow> t_ProxyRegisterResponse | ProxyUnregister \<Rightarrow> t_ProxyUnregisterResponse)"

text \<open>The agent's dispatch: what it decodes for a method (nothing for \<^verbatim>\<open>initialized\<close>) and
  what it encodes.\<close>

definition a_agent_params :: "AgentMethod \<Rightarrow> wty option" where
  "a_agent_params m =
     (case m of
        Initialize \<Rightarrow> Some a_InitializeParams | Initialized \<Rightarrow> None
      | ProcessStart \<Rightarrow> Some a_ExecParams | ProcessRead \<Rightarrow> Some a_ReadParams
      | ProcessWrite \<Rightarrow> Some a_WriteParams | ProcessTerminate \<Rightarrow> Some a_TerminateParams
      | FsReadFile \<Rightarrow> Some a_FsReadFileParams | FsWriteFile \<Rightarrow> Some a_FsWriteFileParams
      | FsCreateDirectory \<Rightarrow> Some a_FsCreateDirectoryParams | FsGetMetadata \<Rightarrow> Some a_FsGetMetadataParams
      | FsReadDirectory \<Rightarrow> Some a_FsReadDirectoryParams | FsRemove \<Rightarrow> Some a_FsRemoveParams
      | FsCopy \<Rightarrow> Some a_FsCopyParams
      | ProxyRegister \<Rightarrow> Some a_ProxyRegisterParams | ProxyUnregister \<Rightarrow> Some a_ProxyUnregisterParams)"

definition a_agent_result :: "AgentMethod \<Rightarrow> wty" where
  "a_agent_result m =
     (case m of
        Initialize \<Rightarrow> a_InitializeResponse | Initialized \<Rightarrow> TyUnit
      | ProcessStart \<Rightarrow> a_ExecResponse | ProcessRead \<Rightarrow> a_ReadResponse
      | ProcessWrite \<Rightarrow> a_WriteResponse | ProcessTerminate \<Rightarrow> a_TerminateResponse
      | FsReadFile \<Rightarrow> a_FsReadFileResponse | FsWriteFile \<Rightarrow> a_FsWriteFileResponse
      | FsCreateDirectory \<Rightarrow> a_FsCreateDirectoryResponse | FsGetMetadata \<Rightarrow> a_FsGetMetadataResponse
      | FsReadDirectory \<Rightarrow> a_FsReadDirectoryResponse | FsRemove \<Rightarrow> a_FsRemoveResponse | FsCopy \<Rightarrow> a_FsCopyResponse
      | ProxyRegister \<Rightarrow> a_ProxyRegisterResponse | ProxyUnregister \<Rightarrow> a_ProxyUnregisterResponse)"

definition agent_notifications :: "(string \<times> wty \<times> wty) list" where
  "agent_notifications =
     [(PROCESS_OUTPUT, a_ExecOutputDeltaNotification, t_ProcessOutputNotification),
      (PROCESS_EXITED, a_ExecExitedNotification, t_ProcessExitedNotification),
      (PROCESS_CLOSED, a_ExecClosedNotification, t_ProcessClosedNotification)]"

definition t_gateway_params :: "GatewayMethod \<Rightarrow> wty" where
  "t_gateway_params m =
     (case m of
        Hello \<Rightarrow> t_HelloParams | SpawnAgent \<Rightarrow> t_SpawnAgentParams | KillAgent \<Rightarrow> t_AgentIdParams
      | DetachAgent \<Rightarrow> t_AgentIdParams | AttachAgent \<Rightarrow> t_AttachAgentParams | ListAgents \<Rightarrow> TyUnit
      | AgentInvoke \<Rightarrow> t_AgentInvokeParams | RegisterProxy \<Rightarrow> t_RegisterProxyParams
      | UnregisterProxy \<Rightarrow> t_UnregisterProxyParams | RegisterStreamProxy \<Rightarrow> t_RegisterStreamProxyParams
      | UnregisterStreamProxy \<Rightarrow> t_UnregisterStreamProxyParams)"

definition t_gateway_result :: "GatewayMethod \<Rightarrow> wty" where
  "t_gateway_result m =
     (case m of
        Hello \<Rightarrow> t_HelloResponse | SpawnAgent \<Rightarrow> t_SpawnAgentResponse | KillAgent \<Rightarrow> t_OkResponse
      | DetachAgent \<Rightarrow> t_OkResponse | AttachAgent \<Rightarrow> t_SpawnAgentResponse | ListAgents \<Rightarrow> t_ListAgentsResponse
      | AgentInvoke \<Rightarrow> TyValue | RegisterProxy \<Rightarrow> t_RegisterProxyResponse
      | UnregisterProxy \<Rightarrow> t_OkResponse | RegisterStreamProxy \<Rightarrow> t_RegisterStreamProxyResponse
      | UnregisterStreamProxy \<Rightarrow> t_OkResponse)"

text \<open>The gateway crate's copies of the same types.\<close>

definition g_gateway_params :: "GatewayMethod \<Rightarrow> wty" where
  "g_gateway_params m =
     (case m of
        Hello \<Rightarrow> g_HelloParams | SpawnAgent \<Rightarrow> g_SpawnAgentParams | KillAgent \<Rightarrow> g_AgentIdParams
      | DetachAgent \<Rightarrow> g_AgentIdParams | AttachAgent \<Rightarrow> g_AttachAgentParams | ListAgents \<Rightarrow> TyUnit
      | AgentInvoke \<Rightarrow> g_AgentInvokeParams | RegisterProxy \<Rightarrow> g_RegisterProxyParams
      | UnregisterProxy \<Rightarrow> g_UnregisterProxyParams | RegisterStreamProxy \<Rightarrow> g_RegisterStreamProxyParams
      | UnregisterStreamProxy \<Rightarrow> g_UnregisterStreamProxyParams)"

definition g_gateway_result :: "GatewayMethod \<Rightarrow> wty" where
  "g_gateway_result m =
     (case m of
        Hello \<Rightarrow> g_HelloResponse | SpawnAgent \<Rightarrow> g_SpawnAgentResponse | KillAgent \<Rightarrow> g_OkResponse
      | DetachAgent \<Rightarrow> g_OkResponse | AttachAgent \<Rightarrow> g_SpawnAgentResponse | ListAgents \<Rightarrow> g_ListAgentsResponse
      | AgentInvoke \<Rightarrow> TyValue | RegisterProxy \<Rightarrow> g_RegisterProxyResponse
      | UnregisterProxy \<Rightarrow> g_OkResponse | RegisterStreamProxy \<Rightarrow> g_RegisterStreamProxyResponse
      | UnregisterStreamProxy \<Rightarrow> g_OkResponse)"

definition gateway_all :: "GatewayMethod list" where
  "gateway_all = [Hello, SpawnAgent, KillAgent, DetachAgent, AttachAgent, ListAgents,
     RegisterProxy, UnregisterProxy, RegisterStreamProxy, UnregisterStreamProxy, AgentInvoke]"

section \<open>Typed requests\<close>

record SerdeCodec =
  sc_enc :: "wty \<Rightarrow> rval \<Rightarrow> value"
  sc_dec :: "wty \<Rightarrow> value \<Rightarrow> rval option"
  sc_msg :: "wty \<Rightarrow> value \<Rightarrow> string"

definition to_msgpack_value :: "SerdeCodec \<Rightarrow> wty \<Rightarrow> rval \<Rightarrow> (string, value) result" where
  "to_msgpack_value sc t v = Ok (sc_enc sc t v)"

definition from_msgpack_value :: "SerdeCodec \<Rightarrow> wty \<Rightarrow> value \<Rightarrow> (string, rval) result" where
  "from_msgpack_value sc t x = (case sc_dec sc t x of Some v \<Rightarrow> Ok v | None \<Rightarrow> Err (sc_msg sc t x))"

definition typed_request :: "SerdeCodec \<Rightarrow> value \<Rightarrow> string \<Rightarrow> wty \<Rightarrow> rval \<Rightarrow> (string, WireRequest) result" where
  "typed_request sc i method pt p =
     (case to_msgpack_value sc pt p of
        Inl e \<Rightarrow> Err e
      | Inr v \<Rightarrow> Ok \<lparr>wq_stream = None, wq_id = i, wq_method = method, wq_params = Some v\<rparr>)"

definition typed_notification :: "SerdeCodec \<Rightarrow> string \<Rightarrow> wty \<Rightarrow> rval \<Rightarrow> (string, WireNotification) result" where
  "typed_notification sc method pt p =
     (case to_msgpack_value sc pt p of
        Inl e \<Rightarrow> Err e
      | Inr v \<Rightarrow> Ok \<lparr>wn_stream = None, wn_method = method, wn_params = Some v\<rparr>)"

text \<open>\<open>request\<close> is a request on the connection with its answer.\<close>

type_synonym request_fun = "string \<Rightarrow> value option \<Rightarrow> (WireError, value) result"

definition request_typed ::
  "SerdeCodec \<Rightarrow> request_fun \<Rightarrow> string \<Rightarrow> wty \<Rightarrow> wty \<Rightarrow> rval \<Rightarrow> (TypedRequestError, rval) result" where
  "request_typed sc request method pt rt p =
     (case to_msgpack_value sc pt p of
        Inl e \<Rightarrow> Err (EncodeParams e)
      | Inr v \<Rightarrow> typed_result (from_msgpack_value sc rt) (request method (Some v)))"

section \<open>Clients\<close>

definition agent_client :: "SerdeCodec \<Rightarrow> request_fun \<Rightarrow> AgentMethod \<Rightarrow> rval \<Rightarrow> (TypedRequestError, rval) result" where
  "agent_client sc request m p = request_typed sc request (agent_as_str m) (t_agent_params m) (t_agent_result m) p"

definition gateway_client :: "SerdeCodec \<Rightarrow> request_fun \<Rightarrow> GatewayMethod \<Rightarrow> rval \<Rightarrow> (TypedRequestError, rval) result" where
  "gateway_client sc request m p =
     request_typed sc request (gateway_as_str m) (t_gateway_params m) (t_gateway_result m) p"

text \<open>An agent behind a gateway: the call is wrapped in \<^verbatim>\<open>agent/invoke\<close>.\<close>

definition gateway_agent_client ::
  "SerdeCodec \<Rightarrow> request_fun \<Rightarrow> string \<Rightarrow> AgentMethod \<Rightarrow> rval \<Rightarrow> (TypedRequestError, rval) result" where
  "gateway_agent_client sc request agent_id m p =
     (case to_msgpack_value sc (t_agent_params m) p of
        Inl e \<Rightarrow> Err (EncodeParams e)
      | Inr inner \<Rightarrow>
          (case request_typed sc request (gateway_as_str AgentInvoke) (t_gateway_params AgentInvoke)
                  (t_gateway_result AgentInvoke)
                  (RStruct [RString agent_id, RString (agent_as_str m), RSome (RValue inner)]) of
             Inl e \<Rightarrow> Err e
           | Inr (RValue v) \<Rightarrow>
               (case from_msgpack_value sc (t_agent_result m) v of
                  Inl e \<Rightarrow> Err (DecodeResult e)
                | Inr r \<Rightarrow> Ok r)
           | Inr _ \<Rightarrow> Err (DecodeResult [])))"

section \<open>Servers\<close>

definition method_not_found :: "string \<Rightarrow> WireError" where
  "method_not_found method = \<lparr>we_code = - 32601, we_message = ''method not found: '' @ method, we_data = None\<rparr>"

text \<open>An implementation of \<^verbatim>\<open>AgentHandlers\<close> overrides some methods.\<close>

definition agent_handler ::
  "(AgentMethod \<Rightarrow> (rval \<Rightarrow> (WireError, rval) result) option) \<Rightarrow> AgentMethod \<Rightarrow> rval \<Rightarrow> (WireError, rval) result" where
  "agent_handler hs m p = (case hs m of Some f \<Rightarrow> f p | None \<Rightarrow> Err (method_not_found (agent_as_str m)))"

definition gateway_handler ::
  "(GatewayMethod \<Rightarrow> (rval \<Rightarrow> (WireError, rval) result) option) \<Rightarrow> GatewayMethod \<Rightarrow> rval \<Rightarrow> (WireError, rval) result" where
  "gateway_handler hs m p = (case hs m of Some f \<Rightarrow> f p | None \<Rightarrow> Err (method_not_found (gateway_as_str m)))"

text \<open>Installing the handlers: handler number \<open>i\<close> is the one of the \<open>i\<close>-th method of the
  table.\<close>

definition install :: "string list \<Rightarrow> Connection \<Rightarrow> Connection" where
  "install names cn = fold (\<lambda>(i, n). handle_request root_addr n i) (enumerate 0 names) cn"

definition serve_agent :: "Connection \<Rightarrow> Connection" where
  "serve_agent cn = install (map agent_as_str agent_all) cn"

definition serve_gateway :: "Connection \<Rightarrow> Connection" where
  "serve_gateway cn = install (map gateway_as_str gateway_all) cn"

definition run_agent_handler ::
  "SerdeCodec \<Rightarrow> (AgentMethod \<Rightarrow> (rval \<Rightarrow> (WireError, rval) result) option) \<Rightarrow> nat \<Rightarrow> value \<Rightarrow> (WireError, value) result" where
  "run_agent_handler sc hs i v =
     (let m = agent_all ! i
      in typed_handler (from_msgpack_value sc (t_agent_params m)) (to_msgpack_value sc (t_agent_result m))
           (agent_handler hs m) v)"

definition run_gateway_handler ::
  "SerdeCodec \<Rightarrow> (GatewayMethod \<Rightarrow> (rval \<Rightarrow> (WireError, rval) result) option) \<Rightarrow> nat \<Rightarrow> value \<Rightarrow> (WireError, value) result" where
  "run_gateway_handler sc hs i v =
     (let m = gateway_all ! i
      in typed_handler (from_msgpack_value sc (t_gateway_params m)) (to_msgpack_value sc (t_gateway_result m))
           (gateway_handler hs m) v)"

text \<open>The answer of a served connection to a request, as \<^verbatim>\<open>dispatch\<close> computes it; a request
  without a handler is never answered, here \<open>unanswered\<close>.\<close>

definition served :: "(nat \<Rightarrow> value \<Rightarrow> (WireError, value) result) \<Rightarrow> Connection \<Rightarrow> (WireError, value) result \<Rightarrow> request_fun" where
  "served run_handler cn unanswered method params =
     (case hm_get (cs_request_handlers (state_at cn root_addr)) method of
        None \<Rightarrow> unanswered
      | Some h \<Rightarrow> run_handler h (case params of None \<Rightarrow> VNil | Some v \<Rightarrow> v))"

section \<open>The tables agree\<close>

definition t_agent_ok :: "AgentMethod \<Rightarrow> bool" where
  "t_agent_ok m \<longleftrightarrow> exact (t_agent_params m) \<and> compat (t_agent_params m) (t_agent_params m) \<and>
     exact (t_agent_result m) \<and> compat (t_agent_result m) (t_agent_result m)"

definition a_agent_ok :: "AgentMethod \<Rightarrow> bool" where
  "a_agent_ok m \<longleftrightarrow>
     (case a_agent_params m of None \<Rightarrow> m = Initialized | Some a \<Rightarrow> compat (t_agent_params m) a \<and>
        dropped_fields (t_agent_params m) a = (if m = ProcessStart then [''output_bytes_cap''] else [])) \<and>
     (case t_agent_params m of TyStruct _ \<Rightarrow> m \<noteq> Initialized | t \<Rightarrow> t = TyUnit \<and> m = Initialized) \<and>
     compat (a_agent_result m) (t_agent_result m) \<and> no_abs (t_agent_result m) \<and>
     dropped_fields (a_agent_result m) (t_agent_result m) = []"

definition t_gateway_ok :: "GatewayMethod \<Rightarrow> bool" where
  "t_gateway_ok m \<longleftrightarrow>
     compat (t_gateway_params m) (t_gateway_params m) \<and> no_abs (t_gateway_params m) \<and>
     compat (t_gateway_result m) (t_gateway_result m) \<and> no_abs (t_gateway_result m) \<and>
     (m \<noteq> AgentInvoke \<longrightarrow> exact (t_gateway_params m)) \<and> exact (t_gateway_result m)"

definition g_gateway_ok :: "GatewayMethod \<Rightarrow> bool" where
  "g_gateway_ok m \<longleftrightarrow>
     compat (t_gateway_params m) (g_gateway_params m) \<and> compat (g_gateway_result m) (t_gateway_result m) \<and>
     dropped_fields (t_gateway_params m) (g_gateway_params m) = (if m = SpawnAgent then [''workspace''] else [])"

lemma agent_tables: "list_all t_agent_ok agent_all" "list_all a_agent_ok agent_all"
  by code_simp+

lemma gateway_tables: "list_all t_gateway_ok gateway_all" "list_all g_gateway_ok gateway_all"
  by code_simp+

lemma gateway_all_complete: "m \<in> set gateway_all"
  by (cases m) (simp_all add: gateway_all_def)

lemma tables_ok: "t_agent_ok m" "a_agent_ok m" "t_gateway_ok g" "g_gateway_ok g"
  using agent_tables gateway_tables agent_all_complete gateway_all_complete by (auto simp: list_all_iff)

lemma notification_types: "list_all (\<lambda>(_, a, t). compat a t \<and> no_abs t \<and> dropped_fields a t = []) agent_notifications"
  by code_simp

section \<open>Served connections\<close>

lemma handle_request_get:
  "hm_get (cs_request_handlers (state_at (handle_request root_addr n i cn) root_addr)) k =
     (if k = n then Some i else hm_get (cs_request_handlers (state_at cn root_addr)) k)"
  by (simp add: handle_request_def)

lemma install_get:
  "distinct names \<Longrightarrow> hm_get (cs_request_handlers (state_at
       (fold (\<lambda>(i, n). handle_request root_addr n i) (enumerate k names) cn) root_addr)) x =
     (case find (\<lambda>(i, n). n = x) (enumerate k names) of
        Some (i, _) \<Rightarrow> Some i | None \<Rightarrow> hm_get (cs_request_handlers (state_at cn root_addr)) x)"
proof (induction names arbitrary: k cn)
  case (Cons n names)
  have "find (\<lambda>(i, n'). n' = n) (enumerate (Suc k) names) = None"
    using Cons.prems by (auto simp: find_None_iff in_set_enumerate_eq)
  then show ?case using Cons.IH [of "Suc k"] Cons.prems by (auto simp: handle_request_get split: option.splits)
qed simp

lemma served_method:
  assumes "distinct (map f ms)" "i < length ms"
  shows "served h (install (map f ms) cn) u (f (ms ! i)) params = h i (case params of None \<Rightarrow> VNil | Some v \<Rightarrow> v)"
proof -
  have "find (\<lambda>(j, n). n = f (ms ! i)) (enumerate 0 (map f ms)) = Some (i, f (ms ! i))"
    unfolding find_Some_iff using assms
    by (intro exI [of _ i]) (auto simp: nth_enumerate_eq distinct_conv_nth)
  then show ?thesis using install_get [OF assms(1), of 0 cn "f (ms ! i)"] by (simp add: served_def install_def)
qed

lemma served_agent:
  "\<exists>i. agent_all ! i = m \<and>
     served h (serve_agent cn) u (agent_as_str m) params = h i (case params of None \<Rightarrow> VNil | Some v \<Rightarrow> v)"
proof -
  obtain i where i: "i < length agent_all" "agent_all ! i = m"
    using agent_all_complete [of m] by (auto simp: in_set_conv_nth)
  have d: "distinct (map agent_as_str agent_all)" by code_simp
  show ?thesis
    using served_method [OF d i(1), of h cn u params] i by (intro exI [of _ i]) (simp add: serve_agent_def)
qed

lemma served_gateway:
  "\<exists>i. gateway_all ! i = m \<and>
     served h (serve_gateway cn) u (gateway_as_str m) params = h i (case params of None \<Rightarrow> VNil | Some v \<Rightarrow> v)"
proof -
  obtain i where i: "i < length gateway_all" "gateway_all ! i = m"
    using gateway_all_complete [of m] by (auto simp: in_set_conv_nth)
  have d: "distinct (map gateway_as_str gateway_all)" by code_simp
  show ?thesis
    using served_method [OF d i(1), of h cn u params] i by (intro exI [of _ i]) (simp add: serve_gateway_def)
qed

lemma decodes:
  assumes "serde (sc_enc sc) (sc_dec sc) ap" "compat s r" "wt s v" "conv ap s r v = Some v'"
  shows "from_msgpack_value sc r (sc_enc sc s v) = Ok v'"
  using serde.compat_delivers [OF assms(1,2,3)] assms(4) by (simp add: from_msgpack_value_def)

text \<open>A typed call to a typed handler, with what arrives on either side.\<close>

lemma typed_exchange:
  assumes sd: "serde (sc_enc sc) (sc_dec sc) ap"
    and p: "compat pt pt" "wt pt p" "conv ap pt pt p = Some p'"
    and r: "compat rt rt" "exact rt" "\<And>r. f p' = Ok r \<Longrightarrow> wt rt r"
    and req: "request n (Some (sc_enc sc pt p)) =
        typed_handler (from_msgpack_value sc pt) (to_msgpack_value sc rt) f (sc_enc sc pt p)"
  shows "request_typed sc request n pt rt p = (case f p' of Inl e \<Rightarrow> Err (Request e) | Inr r \<Rightarrow> Ok r)"
proof -
  have "from_msgpack_value sc pt (sc_enc sc pt p) = Ok p'" by (rule decodes [OF sd p])
  moreover have "from_msgpack_value sc rt (sc_enc sc rt r) = Ok r" if "f p' = Ok r" for r
    using decodes [OF sd r(1) r(3) [OF that]] conv_exact [OF r(2) r(3) [OF that]] by blast
  ultimately show ?thesis
    using req by (auto simp: request_typed_def to_msgpack_value_def typed_handler_def typed_result_def split: sum.splits)
qed



text \<open>A codec for examples: absolute paths are read by the agent without a base path, with
  the lexical absolutizer.\<close>

definition sample_abs :: "string \<Rightarrow> string option" where
  "sample_abs p = (case abs_deserialize None lexical_absolutize (Ok ''/'') None p of Inl _ \<Rightarrow> None | Inr q \<Rightarrow> Some q)"

definition sample_serde :: SerdeCodec where
  "sample_serde = \<lparr>sc_enc = ref_enc, sc_dec = ref_dec sample_abs, sc_msg = (\<lambda>_ _. ''bad value'')\<rparr>"

lemma sample_serde_laws: "serde (sc_enc sample_serde) (sc_dec sample_serde) sample_abs"
  unfolding sample_serde_def by (simp add: ref.serde_axioms)


end
