(* ===== verification/Typed_Agent.thy ===== *)
theory Typed_Agent
  imports Typed_Rpc Agent_Dispatch Session
begin

text \<open>
  The typed clients against the two programs that answer them: the agent, which decodes every
  request with its own types after unwrapping positional parameters, and the gateway, which
  forwards \<^verbatim>\<open>agent/invoke\<close> to an agent.
\<close>

section \<open>The agent's decoding\<close>

lemma params_shape:
  assumes "wt (t_agent_params m) p"
  obtains (struct) fs vs where "t_agent_params m = TyStruct fs" "p = RStruct vs" "m \<noteq> Initialized"
  | (unit) "t_agent_params m = TyUnit" "p = RUnit" "m = Initialized"
proof -
  have "(\<exists>fs. t_agent_params m = TyStruct fs) \<and> m \<noteq> Initialized \<or> t_agent_params m = TyUnit \<and> m = Initialized"
    using tables_ok(2) [of m] by (auto simp: a_agent_ok_def split: wty.splits)
  then show thesis using assms struct unit by (auto split: rval.splits)
qed

lemma unwrap_encoded:
  assumes "serde (sc_enc sc) (sc_dec sc) ap" "wt (t_agent_params m) p"
  shows "unwrap_positional (sc_enc sc (t_agent_params m) p) = sc_enc sc (t_agent_params m) p"
  using assms(2)
proof (cases rule: params_shape)
  case struct
  then show ?thesis using serde.struct_enc [OF assms(1)] by (simp add: unwrap_positional_def mp_map_def)
next
  case unit
  then show ?thesis using serde.nil [OF assms(1), of TyUnit RUnit] by (simp add: unwrap_positional_def)
qed

lemma agent_params_arrive:
  assumes "serde (sc_enc sc) (sc_dec sc) ap" "wt (t_agent_params m) p" "a_agent_params m = Some a"
  shows "sc_dec sc a (unwrap_positional (sc_enc sc (t_agent_params m) p)) = conv ap (t_agent_params m) a p"
proof -
  have "compat (t_agent_params m) a" using tables_ok(2) [of m] assms(3) by (simp add: a_agent_ok_def)
  then show ?thesis using serde.compat_delivers [OF assms(1) _ assms(2)] unwrap_encoded [OF assms(1,2)] by simp
qed

text \<open>What crosses from the agent to a client always decodes there.\<close>

lemma agent_value_arrives:
  assumes "serde (sc_enc sc) (sc_dec sc) ap" "compat a t" "no_abs t" "wt a v"
  shows "\<exists>v'. sc_dec sc t (sc_enc sc a v) = Some v' \<and> conv ap a t v = Some v' \<and> wt t v'"
  using conv_total [OF assms(2,4), of ap] assms(3) serde.compat_delivers [OF assms(1,2,4)] conv_wt [OF assms(2,4)]
  by auto

lemma agent_results_arrive:
  assumes "serde (sc_enc sc) (sc_dec sc) ap" "wt (a_agent_result m) r"
  shows "\<exists>r'. sc_dec sc (t_agent_result m) (sc_enc sc (a_agent_result m) r) = Some r' \<and>
    conv ap (a_agent_result m) (t_agent_result m) r = Some r' \<and> wt (t_agent_result m) r'"
  using agent_value_arrives [OF assms(1) _ _ assms(2)] tables_ok(2) [of m] by (simp add: a_agent_ok_def)

lemma agent_refuses_paths_only:
  assumes "wt (t_agent_params m) p" "a_agent_params m = Some a" "conv ap (t_agent_params m) a p = None"
  shows "\<not> no_abs a \<and> (\<exists>q. ap q = None)"
proof -
  have c: "compat (t_agent_params m) a" using tables_ok(2) [of m] assms(2) by (simp add: a_agent_ok_def)
  show ?thesis using conv_total [OF c assms(1), of ap] assms(3) by (metis option.distinct(1) not_None_eq)
qed



section \<open>An agent behind the gateway\<close>

text \<open>The gateway's decoding of \<^verbatim>\<open>AgentInvokeParams\<close> by serde, and a request that the
  session's dispatch answers.\<close>

definition decode_invoke :: "SerdeCodec \<Rightarrow> value \<Rightarrow> (string, AgentInvokeParams) result" where
  "decode_invoke sc x =
     (case from_msgpack_value sc t_AgentInvokeParams x of
        Inl e \<Rightarrow> Err e
      | Inr (RStruct [RString agent_id, RString n, po]) \<Rightarrow>
          Ok \<lparr>ai_agent_id = agent_id, ai_method = n, ai_params = (case po of RSome (RValue v) \<Rightarrow> Some v | _ \<Rightarrow> None)\<rparr>
      | Inr _ \<Rightarrow> Err [])"

definition wire_error_of :: "JsonRpcError \<Rightarrow> WireError" where
  "wire_error_of e = \<lparr>we_code = je_code e, we_message = je_message e, we_data = je_data e\<rparr>"

definition session_request :: "'w Env \<Rightarrow> ServerConfig \<Rightarrow> 'w Gateway \<Rightarrow> Session \<Rightarrow> WireError \<Rightarrow> request_fun" where
  "session_request env cfg g se broken name params =
     (case dispatch env cfg \<lparr>rq_id = Some (VInteger 1), rq_method = name, rq_params = params\<rparr> g se of
        Returns (_, _, Inl e) \<Rightarrow> Err (wire_error_of e)
      | Returns (_, _, Inr v) \<Rightarrow> Ok v
      | Panics \<Rightarrow> Err broken)"

lemma invoke_decoded:
  assumes "serde (sc_enc sc) (sc_dec sc) ap"
  shows "decode_invoke sc (sc_enc sc t_AgentInvokeParams (RStruct [RString i, RString n, RSome (RValue v)])) =
    Ok \<lparr>ai_agent_id = i, ai_method = n, ai_params = (if v = VNil then None else Some v)\<rparr>"
proof -
  let ?p = "RStruct [RString i, RString n, RSome (RValue v)]"
  have w: "wt t_AgentInvokeParams ?p" by (simp add: t_AgentInvokeParams_def fld_def fld_opt_def is_option_def)
  have c: "compat t_AgentInvokeParams t_AgentInvokeParams" by code_simp
  have "conv ap t_AgentInvokeParams t_AgentInvokeParams ?p =
      Some (RStruct [RString i, RString n, if v = VNil then RNone else RSome (RValue v)])"
    by (simp add: t_AgentInvokeParams_def fld_def fld_opt_def)
  from decodes [OF assms c w this] show ?thesis by (simp add: decode_invoke_def)
qed

lemma invoke_routed:
  assumes sd: "serde (sc_enc sc) (sc_dec sc) ap" and p: "wt (t_agent_params m) p"
    and env: "ev_decode_invoke env = decode_invoke sc"
  shows "gateway_agent_client sc (session_request env cfg g se broken) agent_id m p =
    (case registry_get agent_id (gw_registry g) of
       None \<Rightarrow> Err (Request (wire_error_of (no_agent agent_id)))
     | Some entry \<Rightarrow>
         if ac_closed (ae_conn entry) then Err (Request (wire_error_of (conn_error_to_json ConnClosed)))
         else agent_client sc (\<lambda>name params. case ev_call env (ae_agent_id entry) name
             (if m = Initialized then None else params) of
               Inl e \<Rightarrow> Err (wire_error_of (conn_error_to_json e)) | Inr v \<Rightarrow> Ok v) m p)"
proof -
  let ?v = "sc_enc sc (t_agent_params m) p"
  have nil: "?v = VNil \<longleftrightarrow> m = Initialized"
    using p serde.nil [OF sd p] by (cases rule: params_shape) simp_all
  have "from_msgpack_value sc TyValue v = Ok (RValue v)" for v
    using serde.scalar [OF sd, of TyValue "RValue v"]
    by (simp add: serde.value_enc [OF sd] from_msgpack_value_def is_scalar_def)
  then show ?thesis
    using nil invoke_decoded [OF sd, of agent_id "agent_as_str m" ?v]
    by (auto simp: gateway_agent_client_def agent_client_def request_typed_def to_msgpack_value_def session_request_def
        dispatch_def t_gateway_params_def t_gateway_result_def env with_params_def parse_params_def registry_arm_def
        do_invoke_def call_agent_def typed_result_def split: option.splits sum.splits if_splits)
qed


definition sample_invoke_env :: "string list Env" where
  "sample_invoke_env = (sample_env (Session.sample_request []))
     \<lparr>ev_decode_invoke := decode_invoke sample_serde,
      ev_call := (\<lambda>_ _ _. Ok (mp_map [(''running'', VBoolean True)]))\<rparr>"


end
