(* ===== verification/Agent_Link.thy ===== *)
theory Agent_Link
  imports Agent_Conn Agent_Dispatch
begin

text \<open>
  The two ends of an agent connection against each other: what the frames that the agent writes
  (\<^verbatim>\<open>nexal-agent/src/server/channel/dispatch.rs\<close>) mean to the gateway
  (\<^verbatim>\<open>nexal-gateway/src/agent_conn.rs\<close>), and the other way round.
\<close>

section \<open>Answers and errors\<close>

text \<open>What the gateway makes of the outcome of a dispatched call.\<close>

definition kind_code :: "ChannelErrorKind \<Rightarrow> int" where
  "kind_code k =
     (case k of
        KParse \<Rightarrow> PARSE_ERROR
      | KInvalidRequest \<Rightarrow> INVALID_REQUEST
      | KMethodNotFound \<Rightarrow> METHOD_NOT_FOUND
      | KInvalidParams \<Rightarrow> INVALID_PARAMS
      | KInternal \<Rightarrow> INTERNAL_ERROR)"

definition gateway_view :: "(ChannelError, value) result \<Rightarrow> (AgentConnError, value) result" where
  "gateway_view r =
     (case r of Inl e \<Rightarrow> Err (AgentError (kind_code (ce_kind e)) (ce_message e)) | Inr v \<Rightarrow> Ok v)"

lemma mp_error_get:
  "map_get (mp_error e) ''code'' = None"
  "map_get (mp_error e) ''kind'' = Some (VString (kind_to_string (ce_kind e)))"
  "map_get (mp_error e) ''message'' = Some (VString (ce_message e))"
  by (simp_all add: mp_error_def map_add_def split: option.split)

lemma agent_error_code_mp_error: "agent_error_code (mp_error e) = kind_code (ce_kind e)"
  by (cases "ce_kind e") (simp_all add: agent_error_code_def mp_error_get kind_code_def kind_to_string_def)

lemma response_result_reply: "response_result (reply_frame i r) = gateway_view r"
  by (cases r) (simp_all add: response_result_def reply_frame_def gateway_view_def agent_error_code_mp_error mp_error_get)

lemma gateway_answer_response: "gateway_answer (handler_response i r) = r"
proof (cases r)
  case (Inl e)
  have "handler_response i r = mp_map [(''id'', i), (''error'', mp_map [(''code'', VInteger (- 32603)), (''message'', VString e)])]"
    by (simp add: handler_response_def Inl mp_map_def)
  then show ?thesis by (simp add: gateway_answer_def Inl)
next
  case (Inr v)
  have "handler_response i r = mp_map [(''id'', i), (''result'', v)]"
    by (simp add: handler_response_def Inr mp_map_def)
  then show ?thesis by (simp add: gateway_answer_def Inr)
qed

lemma build_rpc_request_map:
  "build_rpc_request i m p = mp_map [(''id'', VInteger (int i)), (''method'', VString m), (''params'', p)]"
  by (simp add: build_rpc_request_def mp_map_def)

lemma dispatch_frame_resolves:
  assumes "i \<in> set (hm_keys (ac_pending c))" "i < 2 ^ 64"
    and "map_get f ''id'' = Some (VInteger (int i))" "map_get f ''method'' = None"
  shows "dispatch_frame h f c =
     (c\<lparr>ac_pending := hm_remove i (ac_pending c), ac_results := ac_results c @ [(i, response_result f)]\<rparr>, Ok ())"
proof -
  obtain u where "hm_get (ac_pending c) i = Some u" using assms(1) hm_get_Some_iff_key by metis
  then have "matched_id c f = Some i"
    using assms as_u64_VInteger [OF assms(2)] by (simp add: matched_id_def response_id_def)
  then show ?thesis by (simp add: dispatch_frame_def)
qed

end
