(* ===== verification/Remote_Files.thy ===== *)
theory Remote_Files
  imports Typed_Agent Agent_Link Local_Copy
begin

text \<open>
  The file system of an agent as a client of the gateway sees it: a typed call goes through a
  gateway session to the agent, is decoded with the agent's types, runs on the local file system,
  and its outcome comes back.  The conversions between the records of
  \<^verbatim>\<open>nexal-agent/src/protocol/wire.rs\<close> and the values on the wire are those that
  \<^verbatim>\<open>serde\<close> derives; the local file system is the model of
  \<^verbatim>\<open>nexal-agent/src/fs/local.rs\<close>.
\<close>

section \<open>The agent over its local file system\<close>

definition local_file_system :: "nat \<Rightarrow> (string \<Rightarrow> int option \<times> int option) \<Rightarrow> fsys ExecutorFileSystem" where
  "local_file_system fuel stamps =
     \<lparr>fs_read_file = local_read_file, fs_write_file = local_write_file,
      fs_create_directory = local_create_directory, fs_get_metadata = local_get_metadata stamps,
      fs_read_directory = local_read_directory, fs_remove = local_remove,
      fs_copy = (\<lambda>s d options fs. case local_copy fuel s d options fs of
         Some r \<Rightarrow> r | None \<Rightarrow> (fs, Err (io_err OtherKind ''copy does not end'')))\<rparr>"

text \<open>From a decoded value to a record, and from a result to the value that is encoded.\<close>

definition decode_as :: "SerdeCodec \<Rightarrow> wty \<Rightarrow> (rval \<Rightarrow> 'p option) \<Rightarrow> value \<Rightarrow> (string, 'p) result" where
  "decode_as sc t f x =
     (case from_msgpack_value sc t x of
        Inl e \<Rightarrow> Err e
      | Inr v \<Rightarrow> (case f v of None \<Rightarrow> Err [] | Some p \<Rightarrow> Ok p))"

fun opt_bool :: "rval \<Rightarrow> bool option" where
  "opt_bool (RSome (RBool b)) = Some b"
| "opt_bool _ = None"

fun read_file_of :: "rval \<Rightarrow> FsReadFileParams option" where
  "read_file_of (RStruct [RString p]) = Some \<lparr>frf_path = p\<rparr>"
| "read_file_of _ = None"

fun write_file_of :: "rval \<Rightarrow> FsWriteFileParams option" where
  "write_file_of (RStruct [RString p, RBytes d]) = Some \<lparr>fwf_path = p, fwf_data = d\<rparr>"
| "write_file_of _ = None"

fun create_directory_of :: "rval \<Rightarrow> FsCreateDirectoryParams option" where
  "create_directory_of (RStruct [RString p, r]) = Some \<lparr>fcd_path = p, fcd_recursive = opt_bool r\<rparr>"
| "create_directory_of _ = None"

fun get_metadata_of :: "rval \<Rightarrow> FsGetMetadataParams option" where
  "get_metadata_of (RStruct [RString p]) = Some \<lparr>fgm_path = p\<rparr>"
| "get_metadata_of _ = None"

fun read_directory_of :: "rval \<Rightarrow> FsReadDirectoryParams option" where
  "read_directory_of (RStruct [RString p]) = Some \<lparr>frd_path = p\<rparr>"
| "read_directory_of _ = None"

fun remove_of :: "rval \<Rightarrow> FsRemoveParams option" where
  "remove_of (RStruct [RString p, r, f]) = Some \<lparr>frm_path = p, frm_recursive = opt_bool r, frm_force = opt_bool f\<rparr>"
| "remove_of _ = None"

fun copy_of :: "rval \<Rightarrow> FsCopyParams option" where
  "copy_of (RStruct [RString s, RString d, RBool r]) =
     Some \<lparr>fcp_source_path = s, fcp_destination_path = d, fcp_recursive = r\<rparr>"
| "copy_of _ = None"

definition metadata_rval :: "FileMetadata \<Rightarrow> rval" where
  "metadata_rval md = RStruct [RBool (md_is_directory md), RBool (md_is_file md),
     RInt (md_created_at_ms md), RInt (md_modified_at_ms md)]"

definition entries_rval :: "ReadDirectoryEntry list \<Rightarrow> rval" where
  "entries_rval es = RStruct [RVec (map (\<lambda>e. RStruct [RString (de_file_name e), RBool (de_is_directory e),
     RBool (de_is_file e)]) es)]"

text \<open>The environment of an agent whose file system calls are decoded, run and encoded this way;
  everything else is as in \<open>base\<close>.\<close>

definition with_local_files ::
  "SerdeCodec \<Rightarrow> nat \<Rightarrow> (string \<Rightarrow> int option \<times> int option) \<Rightarrow> fsys AgentEnv \<Rightarrow> fsys AgentEnv" where
  "with_local_files sc fuel stamps base = base\<lparr>
     en_dec_read_file := decode_as sc a_FsReadFileParams read_file_of,
     en_dec_write_file := decode_as sc a_FsWriteFileParams write_file_of,
     en_dec_create_directory := decode_as sc a_FsCreateDirectoryParams create_directory_of,
     en_dec_get_metadata := decode_as sc a_FsGetMetadataParams get_metadata_of,
     en_dec_read_directory := decode_as sc a_FsReadDirectoryParams read_directory_of,
     en_dec_remove := decode_as sc a_FsRemoveParams remove_of,
     en_dec_copy := decode_as sc a_FsCopyParams copy_of,
     en_encode := (\<lambda>r. case r of
         RFsData d \<Rightarrow> Some (sc_enc sc a_FsReadFileResponse (RStruct [RBytes d]))
       | RFsDone \<Rightarrow> Some (sc_enc sc a_FsWriteFileResponse (RStruct []))
       | RFsMetadata md \<Rightarrow> Some (sc_enc sc a_FsGetMetadataResponse (metadata_rval md))
       | RFsEntries es \<Rightarrow> Some (sc_enc sc a_FsReadDirectoryResponse (entries_rval es))
       | other \<Rightarrow> en_encode base other),
     en_fs := local_file_system fuel stamps\<rparr>"

section \<open>A call from the client to the file system\<close>

text \<open>The agent's answer to a forwarded call, as the gateway's connection delivers it; the handler
  afterwards.  The calls used here never wait.\<close>

definition agent_turn ::
  "'w AgentEnv \<Rightarrow> string \<Rightarrow> value option \<Rightarrow> 'w ExecServerHandler \<Rightarrow> 'w ExecServerHandler \<times> (AgentConnError, value) result" where
  "agent_turn env name params h =
     (case agent_dispatch env name (unwrap_positional (case params of None \<Rightarrow> VNil | Some p \<Rightarrow> p)) h of
        None \<Rightarrow> (h, Err ConnClosed)
      | Some (h, r) \<Rightarrow> (h, gateway_view r))"

definition remote_call ::
  "SerdeCodec \<Rightarrow> ServerConfig \<Rightarrow> 'g Gateway \<Rightarrow> Session \<Rightarrow> WireError \<Rightarrow> 'g Env \<Rightarrow> 'w AgentEnv \<Rightarrow> string \<Rightarrow>
     AgentMethod \<Rightarrow> rval \<Rightarrow> 'w ExecServerHandler \<Rightarrow> 'w ExecServerHandler \<times> (TypedRequestError, rval) result" where
  "remote_call sc cfg g se broken genv env agent_id m v h =
     (fst (agent_turn env (agent_as_str m) (Some (sc_enc sc (t_agent_params m) v)) h),
      gateway_agent_client sc
        (session_request (genv\<lparr>ev_call := (\<lambda>_ name params. snd (agent_turn env name params h))\<rparr>) cfg g se broken)
        agent_id m v)"

text \<open>What the client is told about an error of the file system, and a local operation seen from the
  client.\<close>

definition fs_error :: "io_error \<Rightarrow> TypedRequestError" where
  "fs_error e = Request \<lparr>we_code = (if io_kind e = InvalidInput then INVALID_REQUEST else INTERNAL_ERROR),
     we_message = io_text e, we_data = None\<rparr>"

definition seen_remotely ::
  "(fsys, 'a) fs_call \<Rightarrow> ('a \<Rightarrow> rval) \<Rightarrow> fsys ExecServerHandler \<Rightarrow>
     fsys ExecServerHandler \<times> (TypedRequestError, rval) result" where
  "seen_remotely f g h =
     (case f (eh_world h) of
        (fs, r) \<Rightarrow> (h\<lparr>eh_world := fs\<rparr>, case r of Inl e \<Rightarrow> Err (fs_error e) | Inr x \<Rightarrow> Ok (g x)))"

definition handler_ready :: "'w ExecServerHandler \<Rightarrow> bool" where
  "handler_ready h \<longleftrightarrow> lp_initialize_requested (eh_process h) \<and> lp_initialized (eh_process h)"

definition agent_reachable :: "string \<Rightarrow> 'g Gateway \<Rightarrow> bool" where
  "agent_reachable agent_id g \<longleftrightarrow>
     (case registry_get agent_id (gw_registry g) of None \<Rightarrow> False | Some entry \<Rightarrow> \<not> ac_closed (ae_conn entry))"

lemma handle_fs_ready: "handler_ready h \<Longrightarrow> handle_fs f h = (case f (eh_world h) of (w, r) \<Rightarrow> (h\<lparr>eh_world := w\<rparr>, r))"
  by (simp add: handle_fs_def handler_ready_def require_initialized_for_def)

section \<open>The calls one by one\<close>

lemma decode_params:
  assumes "serde (sc_enc sc) (sc_dec sc) ap" "wt (t_agent_params m) v" "a_agent_params m = Some a"
    and "conv ap (t_agent_params m) a v = Some v'" "f v' = Some q"
  shows "decode_as sc a f (sc_enc sc (t_agent_params m) v) = Ok q"
  using agent_params_arrive [OF assms(1-3)] unwrap_encoded [OF assms(1,2)] assms(4,5)
  by (simp add: decode_as_def from_msgpack_value_def)

text \<open>The results of the file system calls have the same type on both sides.\<close>

definition fs_methods :: "AgentMethod set" where
  "fs_methods = {FsReadFile, FsWriteFile, FsCreateDirectory, FsGetMetadata, FsReadDirectory, FsRemove, FsCopy}"

lemma result_types:
  assumes "m \<in> fs_methods"
  shows "a_agent_result m = t_agent_result m \<and> exact (t_agent_result m) \<and> compat (t_agent_result m) (t_agent_result m)"
proof -
  have "list_all (\<lambda>m. a_agent_result m = t_agent_result m \<and> exact (t_agent_result m) \<and> compat (t_agent_result m) (t_agent_result m))
    [FsReadFile, FsWriteFile, FsCreateDirectory, FsGetMetadata, FsReadDirectory, FsRemove, FsCopy]" by code_simp
  then show ?thesis using assms by (auto simp: fs_methods_def)
qed

lemma result_returns:
  assumes "serde (sc_enc sc) (sc_dec sc) ap" "m \<in> fs_methods" "wt (t_agent_result m) r"
  shows "from_msgpack_value sc (t_agent_result m) (sc_enc sc (a_agent_result m) r) = Ok r"
  using decodes [OF assms(1) _ assms(3) conv_exact [OF _ assms(3)]] result_types [OF assms(2)] by simp

lemma unix_ms_bounds: "- (2 ^ 63) \<le> system_time_to_unix_ms t" "system_time_to_unix_ms t \<le> 2 ^ 63 - 1"
  by (auto simp: system_time_to_unix_ms_def)

lemmas param_defs = t_agent_params_def a_agent_params_def is_option_def t_FsReadFileParams_def a_FsReadFileParams_def
  t_FsWriteFileParams_def a_FsWriteFileParams_def t_FsCreateDirectoryParams_def a_FsCreateDirectoryParams_def
  t_FsGetMetadataParams_def a_FsGetMetadataParams_def t_FsReadDirectoryParams_def a_FsReadDirectoryParams_def
  t_FsRemoveParams_def a_FsRemoveParams_def t_FsCopyParams_def a_FsCopyParams_def fld_def fld_opt_def
  missing_def default_of_def

lemmas result_defs = t_agent_result_def t_FsReadFileResponse_def t_FsWriteFileResponse_def t_FsCreateDirectoryResponse_def
  t_FsGetMetadataResponse_def t_FsReadDirectoryResponse_def t_FsReadDirectoryEntry_def t_FsRemoveResponse_def
  t_FsCopyResponse_def metadata_rval_def entries_rval_def ty_i64_def

lemma with_local_files_fields:
  fixes sc fuel stamps base
  defines "env \<equiv> with_local_files sc fuel stamps base"
  shows "en_dec_read_file env = decode_as sc a_FsReadFileParams read_file_of"
    "en_dec_write_file env = decode_as sc a_FsWriteFileParams write_file_of"
    "en_dec_create_directory env = decode_as sc a_FsCreateDirectoryParams create_directory_of"
    "en_dec_get_metadata env = decode_as sc a_FsGetMetadataParams get_metadata_of"
    "en_dec_read_directory env = decode_as sc a_FsReadDirectoryParams read_directory_of"
    "en_dec_remove env = decode_as sc a_FsRemoveParams remove_of"
    "en_dec_copy env = decode_as sc a_FsCopyParams copy_of"
    "en_fs env = local_file_system fuel stamps"
    "en_encode env (RFsData d) = Some (sc_enc sc a_FsReadFileResponse (RStruct [RBytes d]))"
    "en_encode env RFsDone = Some (sc_enc sc a_FsWriteFileResponse (RStruct []))"
    "en_encode env (RFsMetadata md) = Some (sc_enc sc a_FsGetMetadataResponse (metadata_rval md))"
    "en_encode env (RFsEntries es) = Some (sc_enc sc a_FsReadDirectoryResponse (entries_rval es))"
  by (simp_all add: env_def with_local_files_def)

lemma local_file_system_fields [simp]:
  fixes fuel stamps
  defines "lfs \<equiv> local_file_system fuel stamps"
  shows "fs_read_file lfs = local_read_file" "fs_write_file lfs = local_write_file"
    "fs_create_directory lfs = local_create_directory" "fs_get_metadata lfs = local_get_metadata stamps"
    "fs_read_directory lfs = local_read_directory" "fs_remove lfs = local_remove"
  by (simp_all add: lfs_def local_file_system_def)

lemmas turn_defs = fs_methods_def agent_dispatch_def with_local_files_fields a_agent_result_def
  a_FsCreateDirectoryResponse_def a_FsWriteFileResponse_def a_FsRemoveResponse_def a_FsCopyResponse_def
  read_file_def write_file_def create_directory_def get_metadata_def read_directory_def remove_def

text \<open>What a call needs: a codec with the laws of serde, a session that decodes
  \<^verbatim>\<open>agent/invoke\<close> with it, a registered agent with an open connection and a completed
  handshake.\<close>

definition file_call ::
  "SerdeCodec \<Rightarrow> (string \<Rightarrow> string option) \<Rightarrow> 'g Env \<Rightarrow> 'g Gateway \<Rightarrow> string \<Rightarrow> 'w ExecServerHandler \<Rightarrow> bool" where
  "file_call sc ap genv g agent_id h \<longleftrightarrow> serde (sc_enc sc) (sc_dec sc) ap \<and> ev_decode_invoke genv = decode_invoke sc \<and>
     agent_reachable agent_id g \<and> handler_ready h"

lemma file_call_laws:
  assumes "file_call sc ap genv g agent_id h"
  shows "serde (sc_enc sc) (sc_dec sc) ap" "ev_decode_invoke genv = decode_invoke sc"
    "agent_reachable agent_id g" "handler_ready h"
  using assms by (simp_all add: file_call_def)

text \<open>The shape that all the file system calls share: the arm of the dispatch decodes the
  parameters as \<open>q\<close>, runs \<open>f\<close> on the file system and encodes the result as \<open>res\<close>.\<close>

lemma arm_runs:
  assumes "decode_as sc a of_rval x = Ok q" "handler_ready h" "op q (eh_world h) = lift_fs (f (eh_world h))"
    and "\<forall>y. en_encode env (k y) = Some (enc y)"
  shows "arm env (decode_as sc a of_rval) k (\<lambda>p. handle_fs (op p)) x h =
    Some (case f (eh_world h) of (w, r) \<Rightarrow> (h\<lparr>eh_world := w\<rparr>,
      case r of Inl e \<Rightarrow> Err (map_fs_error e) | Inr y \<Rightarrow> Ok (enc y)))"
  using assms by (simp add: arm_def agent_parse_params_def encode_result_def handle_fs_ready lift_fs_def split: sum.split prod.split)

lemma remote_call_turn:
  assumes fc: "file_call sc ap genv g agent_id h" and m: "m \<in> fs_methods" and p: "wt (t_agent_params m) v"
    and t: "agent_turn env (agent_as_str m) (Some (sc_enc sc (t_agent_params m) v)) h = (h', r)"
  shows "remote_call sc cfg g se broken genv env agent_id m v h =
    (h', case r of
       Inl e \<Rightarrow> Err (Request (wire_error_of (conn_error_to_json e)))
     | Inr x \<Rightarrow> (case from_msgpack_value sc (t_agent_result m) x of Inl e \<Rightarrow> Err (DecodeResult e) | Inr y \<Rightarrow> Ok y))"
proof -
  note laws = file_call_laws [OF fc]
  obtain entry where e: "registry_get agent_id (gw_registry g) = Some entry" "\<not> ac_closed (ae_conn entry)"
    using laws(3) by (auto simp: agent_reachable_def split: option.splits)
  let ?genv = "genv\<lparr>ev_call := (\<lambda>_ name params. snd (agent_turn env name params h))\<rparr>"
  have "gateway_agent_client sc (session_request ?genv cfg g se broken) agent_id m v =
      agent_client sc (\<lambda>name params. case snd (agent_turn env name params h) of
         Inl e \<Rightarrow> Err (wire_error_of (conn_error_to_json e)) | Inr x \<Rightarrow> Ok x) m v"
    using invoke_routed [OF laws(1) p, of ?genv cfg g se broken agent_id] laws(2) e m by (auto simp: fs_methods_def)
  then show ?thesis
    using t by (simp add: remote_call_def agent_client_def request_typed_def to_msgpack_value_def typed_result_def
        split: sum.split)
qed

lemma remote_call_refines:
  assumes fc: "file_call sc ap genv g agent_id h" and m: "m \<in> fs_methods"
    and p: "wt (t_agent_params m) v" "a_agent_params m = Some a" "conv ap (t_agent_params m) a v = Some v'" "of_rval v' = Some q"
    and arm: "\<forall>x. agent_dispatch env (agent_as_str m) x h = arm env (decode_as sc a of_rval) k (\<lambda>p. handle_fs (op p)) x h"
    and op: "op q (eh_world h) = lift_fs (f (eh_world h))"
    and enc: "\<forall>y. en_encode env (k y) = Some (sc_enc sc (a_agent_result m) (res y))"
    and res: "\<forall>w y. f (eh_world h) = (w, Ok y) \<longrightarrow> wt (t_agent_result m) (res y)"
  shows "remote_call sc cfg g se broken genv env agent_id m v h = seen_remotely f res h"
proof -
  note laws = file_call_laws [OF fc]
  let ?v = "sc_enc sc (t_agent_params m) v"
  have u: "unwrap_positional ?v = ?v" using unwrap_encoded [OF laws(1) p(1)] .
  obtain w r where fw: "f (eh_world h) = (w, r)" by force
  have "agent_dispatch env (agent_as_str m) ?v h = Some (h\<lparr>eh_world := w\<rparr>,
      case r of Inl e \<Rightarrow> Err (map_fs_error e) | Inr y \<Rightarrow> Ok (sc_enc sc (a_agent_result m) (res y)))"
    using arm_runs [where f = f and op = op and k = k, OF decode_params [where f = of_rval, OF laws(1) p] laws(4) op enc] arm fw by simp
  then have t: "agent_turn env (agent_as_str m) (Some ?v) h =
      (h\<lparr>eh_world := w\<rparr>, gateway_view (case r of Inl e \<Rightarrow> Err (map_fs_error e) | Inr x \<Rightarrow> Ok (sc_enc sc (a_agent_result m) (res x))))"
    by (simp add: agent_turn_def u)
  show ?thesis
    using remote_call_turn [OF fc m p(1) t] result_returns [OF laws(1) m] res fw
    by (auto simp: seen_remotely_def gateway_view_def fs_error_def map_fs_error_def invalid_request_def internal_error_def
        kind_code_def conn_error_to_json_def wire_error_of_def split: sum.split)
qed

text \<open>An optional flag on the wire, and the default that the service fills in.\<close>

definition bool_opt :: "bool option \<Rightarrow> rval" where
  "bool_opt b = (case b of None \<Rightarrow> RNone | Some b \<Rightarrow> RSome (RBool b))"

definition bool_default :: "bool option \<Rightarrow> bool" where
  "bool_default b = (case b of None \<Rightarrow> True | Some b \<Rightarrow> b)"

lemma opt_bool_opt [simp]: "opt_bool (bool_opt b) = b"
  by (simp add: bool_opt_def split: option.split)

lemma conv_bool_opt [simp]: "conv ap (TyOption TyBool) (TyOption TyBool) (bool_opt b) = Some (bool_opt b)"
  by (simp add: bool_opt_def split: option.split)

lemma wt_bool_opt [simp]: "wt (TyOption TyBool) (bool_opt b)"
  by (simp add: bool_opt_def is_option_def split: option.split)

lemma metadata_typed:
  assumes "local_get_metadata stamps q fs = (fs', Ok md)"
  shows "wt (t_agent_result FsGetMetadata) (metadata_rval md)"
proof -
  have "- (2 ^ 63) \<le> md_created_at_ms md \<and> md_created_at_ms md \<le> 2 ^ 63 - 1"
    "- (2 ^ 63) \<le> md_modified_at_ms md \<and> md_modified_at_ms md \<le> 2 ^ 63 - 1"
    using assms unix_ms_bounds by (auto simp: local_get_metadata_def split: sum.splits option.splits)
  then show ?thesis by (simp add: result_defs fld_def)
qed

text \<open>The calls, each from the shape above: the parameters arrive, the operation runs, the result
  returns.\<close>

lemma remote_read_file:
  assumes "file_call sc ap genv g agent_id h" "ap path = Some q"
  shows "remote_call sc cfg g se broken genv (with_local_files sc fuel stamps base) agent_id FsReadFile
      (RStruct [RString path]) h =
    seen_remotely (local_read_file q) (\<lambda>d. RStruct [RBytes d]) h"
  by (rule remote_call_refines [OF assms(1), where v' = "RStruct [RString q]" and
        a = a_FsReadFileParams and of_rval = read_file_of and q = "\<lparr>frf_path = q\<rparr>" and k = "RFsData" and op = "read_file (local_file_system fuel stamps)"])
    (simp_all add: param_defs result_defs turn_defs assms)

lemma remote_write_file:
  assumes "file_call sc ap genv g agent_id h" "ap path = Some q"
  shows "remote_call sc cfg g se broken genv (with_local_files sc fuel stamps base) agent_id FsWriteFile
      (RStruct [RString path, RBytes contents]) h =
    seen_remotely (local_write_file q contents) (\<lambda>_. RStruct []) h"
  by (rule remote_call_refines [OF assms(1), where v' = "RStruct [RString q, RBytes contents]" and
        a = a_FsWriteFileParams and of_rval = write_file_of and q = "\<lparr>fwf_path = q, fwf_data = contents\<rparr>" and k = "\<lambda>_. RFsDone" and op = "write_file (local_file_system fuel stamps)"])
    (simp_all add: param_defs result_defs turn_defs assms)

lemma remote_create_directory:
  assumes "file_call sc ap genv g agent_id h" "ap path = Some q"
  shows "remote_call sc cfg g se broken genv (with_local_files sc fuel stamps base) agent_id FsCreateDirectory
      (RStruct [RString path, bool_opt recursive]) h =
    seen_remotely (local_create_directory q \<lparr>cd_recursive = bool_default recursive\<rparr>) (\<lambda>_. RStruct []) h"
  by (rule remote_call_refines [OF assms(1), where v' = "RStruct [RString q, bool_opt recursive]" and
        a = a_FsCreateDirectoryParams and of_rval = create_directory_of and q = "\<lparr>fcd_path = q, fcd_recursive = recursive\<rparr>" and k = "\<lambda>_. RFsDone" and op = "create_directory (local_file_system fuel stamps)"])
    (simp_all add: param_defs result_defs turn_defs bool_default_def bool_opt_def assms split: option.split)

lemma remote_get_metadata:
  assumes "file_call sc ap genv g agent_id h" "ap path = Some q"
  shows "remote_call sc cfg g se broken genv (with_local_files sc fuel stamps base) agent_id FsGetMetadata
      (RStruct [RString path]) h =
    seen_remotely (local_get_metadata stamps q) (metadata_rval) h"
  by (rule remote_call_refines [OF assms(1), where v' = "RStruct [RString q]" and
        a = a_FsGetMetadataParams and of_rval = get_metadata_of and q = "\<lparr>fgm_path = q\<rparr>" and k = "RFsMetadata" and op = "get_metadata (local_file_system fuel stamps)"])
    (simp_all add: param_defs turn_defs metadata_typed assms)

lemma remote_read_directory:
  assumes "file_call sc ap genv g agent_id h" "ap path = Some q"
  shows "remote_call sc cfg g se broken genv (with_local_files sc fuel stamps base) agent_id FsReadDirectory
      (RStruct [RString path]) h =
    seen_remotely (local_read_directory q) (entries_rval) h"
  by (rule remote_call_refines [OF assms(1), where v' = "RStruct [RString q]" and
        a = a_FsReadDirectoryParams and of_rval = read_directory_of and q = "\<lparr>frd_path = q\<rparr>" and k = "RFsEntries" and op = "read_directory (local_file_system fuel stamps)"])
    (simp_all add: param_defs result_defs turn_defs assms list_all_iff)

lemma remote_remove:
  assumes "file_call sc ap genv g agent_id h" "ap path = Some q"
  shows "remote_call sc cfg g se broken genv (with_local_files sc fuel stamps base) agent_id FsRemove
      (RStruct [RString path, bool_opt recursive, bool_opt force]) h =
    seen_remotely (local_remove q \<lparr>ro_recursive = bool_default recursive, ro_force = bool_default force\<rparr>) (\<lambda>_. RStruct []) h"
  by (rule remote_call_refines [OF assms(1), where v' = "RStruct [RString q, bool_opt recursive, bool_opt force]" and
        a = a_FsRemoveParams and of_rval = remove_of and q = "\<lparr>frm_path = q, frm_recursive = recursive, frm_force = force\<rparr>" and k = "\<lambda>_. RFsDone" and op = "remove (local_file_system fuel stamps)"])
    (simp_all add: param_defs result_defs turn_defs bool_default_def bool_opt_def assms split: option.split)

text \<open>A path that the agent's type refuses.\<close>

lemma remote_call_refused:
  assumes fc: "file_call sc ap genv g agent_id h" and m: "m \<in> fs_methods"
    and p: "wt (t_agent_params m) v" "a_agent_params m = Some a" "conv ap (t_agent_params m) a v = None"
    and arm: "\<forall>x. agent_dispatch env (agent_as_str m) x h = arm env (decode_as sc a of_rval) k (\<lambda>p. handle_fs (op p)) x h"
  shows "\<exists>message. remote_call sc cfg g se broken genv env agent_id m v h =
    (h, Err (Request \<lparr>we_code = INVALID_PARAMS, we_message = message, we_data = None\<rparr>))"
proof -
  note laws = file_call_laws [OF fc]
  let ?v = "sc_enc sc (t_agent_params m) v"
  have u: "unwrap_positional ?v = ?v" using unwrap_encoded [OF laws(1) p(1)] .
  obtain e where "decode_as sc a of_rval ?v = Err e"
    using agent_params_arrive [OF laws(1) p(1,2)] p(3) by (simp add: u decode_as_def from_msgpack_value_def)
  then have t: "agent_turn env (agent_as_str m) (Some ?v) h = (h, Err (AgentError INVALID_PARAMS (''invalid params: '' @ e)))"
    using arm by (simp add: agent_turn_def u arm_def agent_parse_params_def gateway_view_def invalid_params_def kind_code_def)
  show ?thesis
    using remote_call_turn [OF fc m p(1) t] by (simp add: wire_error_of_def conn_error_to_json_def)
qed

lemma remote_read_refused:
  assumes "file_call sc ap genv g agent_id h" "ap path = None"
  shows "\<exists>message. remote_call sc cfg g se broken genv (with_local_files sc fuel stamps base) agent_id
      FsReadFile (RStruct [RString path]) h =
    (h, Err (Request \<lparr>we_code = INVALID_PARAMS, we_message = message, we_data = None\<rparr>))"
  by (rule remote_call_refused [OF assms(1), where a = a_FsReadFileParams and of_rval = read_file_of and k = RFsData and
        op = "read_file (local_file_system fuel stamps)"]) (simp_all add: param_defs turn_defs assms)

lemma remote_write_refused:
  assumes "file_call sc ap genv g agent_id h" "ap path = None"
  shows "\<exists>message. remote_call sc cfg g se broken genv (with_local_files sc fuel stamps base) agent_id
      FsWriteFile (RStruct [RString path, RBytes contents]) h =
    (h, Err (Request \<lparr>we_code = INVALID_PARAMS, we_message = message, we_data = None\<rparr>))"
  by (rule remote_call_refused [OF assms(1), where a = a_FsWriteFileParams and of_rval = write_file_of and
        k = "\<lambda>_. RFsDone" and op = "write_file (local_file_system fuel stamps)"]) (simp_all add: param_defs turn_defs assms)

text \<open>A copy between two accepted paths, when the recursive copy ends within the fuel.\<close>

lemma remote_copy:
  assumes "file_call sc ap genv g agent_id h" "ap source = Some s" "ap destination = Some d"
    and "local_copy fuel s d \<lparr>co_recursive = recursive\<rparr> (eh_world h) = Some (fs', r)"
  shows "remote_call sc cfg g se broken genv (with_local_files sc fuel stamps base) agent_id FsCopy
      (RStruct [RString source, RString destination, RBool recursive]) h =
    seen_remotely (\<lambda>_. (fs', r)) (\<lambda>_. RStruct []) h"
  by (rule remote_call_refines [OF assms(1), where v' = "RStruct [RString s, RString d, RBool recursive]" and
        a = a_FsCopyParams and of_rval = copy_of and
        q = "\<lparr>fcp_source_path = s, fcp_destination_path = d, fcp_recursive = recursive\<rparr>" and
        k = "\<lambda>_. RFsDone" and op = "copy (local_file_system fuel stamps)"])
    (simp_all add: param_defs result_defs turn_defs copy_def local_file_system_def assms)

section \<open>Properties\<close>



section \<open>Witnesses\<close>

definition sample_local_env :: "fsys AgentEnv" where
  "sample_local_env =
     \<lparr>en_dec_initialize = (\<lambda>_. Ok ''gw''), en_dec_exec = (\<lambda>_. Err ''bad''),
      en_dec_read = (\<lambda>_. Err ''bad''), en_dec_write = (\<lambda>_. Err ''bad''), en_dec_terminate = (\<lambda>_. Ok ''p''),
      en_dec_read_file = (\<lambda>_. Err ''bad''), en_dec_write_file = (\<lambda>_. Err ''bad''),
      en_dec_create_directory = (\<lambda>_. Err ''bad''), en_dec_get_metadata = (\<lambda>_. Err ''bad''),
      en_dec_read_directory = (\<lambda>_. Err ''bad''), en_dec_remove = (\<lambda>_. Err ''bad''), en_dec_copy = (\<lambda>_. Err ''bad''),
      en_dec_proxy_register = (\<lambda>_. Err ''bad''), en_dec_proxy_unregister = (\<lambda>_. Err ''bad''),
      en_encode = (\<lambda>_. None), en_fs = local_file_system 0 (\<lambda>_. (None, None)), en_shell = None, en_cwd = None,
      en_spawn = (\<lambda>_. Err ''bad''), en_now = 0, en_waits = [], en_write_ok = True, en_mkdir = Ok (), en_removed = True,
      en_bound = Ok ()\<rparr>"

definition sample_file_handler :: "fsys \<Rightarrow> fsys ExecServerHandler" where
  "sample_file_handler fs =
     (handler_new fs)\<lparr>eh_process := lp_new\<lparr>lp_initialize_requested := True, lp_initialized := True\<rparr>\<rparr>"

definition sample_remote :: "AgentMethod \<Rightarrow> rval \<Rightarrow> fsys ExecServerHandler \<Rightarrow> fsys ExecServerHandler \<times> (TypedRequestError, rval) result" where
  "sample_remote m v h = remote_call sample_serde sample_config sample_gateway session_new (wire_error_of (no_agent []))
     sample_invoke_env (with_local_files sample_serde 9 (\<lambda>_. (None, None)) sample_local_env) ''id1'' m v h"

lemma sample_file_call: "file_call sample_serde sample_abs sample_invoke_env sample_gateway ''id1'' (sample_file_handler fs)"
proof -
  have "agent_reachable ''id1'' sample_gateway"
    by (simp add: agent_reachable_def sample_gateway_def sample_registry_defs registry_get_def conn_new_def)
  then show ?thesis
    using sample_serde_laws
    by (simp add: file_call_def sample_invoke_env_def handler_ready_def sample_file_handler_def)
qed



end
