(* ===== verification/Wire_Codec.thy ===== *)
theory Wire_Codec
  imports Typed_Rpc Transport
begin

text \<open>
  The envelope of \<^verbatim>\<open>utils/transport/src/lib.rs\<close> on the wire: what
  \<^verbatim>\<open>encode_frame\<close> makes of the three kinds of messages (maps with the field names, absent
  fields left out) and what the derived \<^verbatim>\<open>Deserialize\<close> reads back.  Writing and reading
  a MessagePack value is an argument with its round trip as law; values that are not maps with
  string keys are decoded by an argument too.  With this codec two connections are put against
  each other, and the rest of the API of \<^verbatim>\<open>connection.rs\<close> is defined: operations on
  stream handles, typed notifications, and connections over a WebSocket.
\<close>

section \<open>Encoding\<close>

record Msgpack =
  mp_write :: "value \<Rightarrow> (string, byte list) result"
  mp_read :: "byte list \<Rightarrow> (string, value) result"
  mp_other_request :: "value \<Rightarrow> (string, WireRequest) result"
  mp_other_response :: "value \<Rightarrow> (string, WireResponse) result"
  mp_other_notification :: "value \<Rightarrow> (string, WireNotification) result"
  mp_other_error :: "value \<Rightarrow> WireError option"
  mp_show :: "value \<Rightarrow> string"

definition opt_entry :: "string \<Rightarrow> ('a \<Rightarrow> value) \<Rightarrow> 'a option \<Rightarrow> (string \<times> value) list" where
  "opt_entry name f x = (case x of None \<Rightarrow> [] | Some v \<Rightarrow> [(name, f v)])"

definition error_value :: "WireError \<Rightarrow> value" where
  "error_value e = mp_map ([(''code'', VInteger (we_code e)), (''message'', VString (we_message e))] @
     opt_entry ''data'' (\<lambda>v. v) (we_data e))"

definition request_value :: "WireRequest \<Rightarrow> value" where
  "request_value r = mp_map (opt_entry ''stream'' VString (wq_stream r) @
     [(''id'', wq_id r), (''method'', VString (wq_method r))] @ opt_entry ''params'' (\<lambda>v. v) (wq_params r))"

definition response_value :: "WireResponse \<Rightarrow> value" where
  "response_value r = mp_map (opt_entry ''stream'' VString (wr_stream r) @ [(''id'', wr_id r)] @
     opt_entry ''result'' (\<lambda>v. v) (wr_result r) @ opt_entry ''error'' error_value (wr_error r))"

definition notification_value :: "WireNotification \<Rightarrow> value" where
  "notification_value n = mp_map (opt_entry ''stream'' VString (wn_stream n) @
     [(''method'', VString (wn_method n))] @ opt_entry ''params'' (\<lambda>v. v) (wn_params n))"

fun wire_value :: "WireMessage \<Rightarrow> value" where
  "wire_value (WRequest r) = request_value r"
| "wire_value (WResponse r) = response_value r"
| "wire_value (WNotification n) = notification_value n"

definition encode_frame :: "Msgpack \<Rightarrow> WireMessage \<Rightarrow> (string, byte list) result" where
  "encode_frame mp m = mp_write mp (wire_value m)"

section \<open>Decoding\<close>

text \<open>The fields of a structure: a key that occurs twice is an error, an unknown one is ignored, an
  optional field that is missing or nil is absent.\<close>

definition string_keys :: "value \<Rightarrow> (string \<times> value) list option" where
  "string_keys v =
     (case as_map v of
        None \<Rightarrow> None
      | Some m \<Rightarrow> those (map (\<lambda>(k, x). map_option (\<lambda>s. (s, x)) (as_str k)) m))"

definition repeats :: "string list \<Rightarrow> (string \<times> value) list \<Rightarrow> bool" where
  "repeats names m \<longleftrightarrow> \<not> distinct (filter (\<lambda>k. k \<in> set names) (map fst m))"

definition need :: "string \<Rightarrow> (value \<Rightarrow> 'a option) \<Rightarrow> (string \<times> value) list \<Rightarrow> (string, 'a) result" where
  "need name f m =
     (case map_of m name of
        None \<Rightarrow> Err (''missing field '' @ name)
      | Some v \<Rightarrow> (case f v of None \<Rightarrow> Err (''invalid type for '' @ name) | Some x \<Rightarrow> Ok x))"

definition opt :: "string \<Rightarrow> (value \<Rightarrow> 'a option) \<Rightarrow> (string \<times> value) list \<Rightarrow> (string, 'a option) result" where
  "opt name f m =
     (case map_of m name of
        None \<Rightarrow> Ok None
      | Some VNil \<Rightarrow> Ok None
      | Some v \<Rightarrow> (case f v of None \<Rightarrow> Err (''invalid type for '' @ name) | Some x \<Rightarrow> Ok (Some x)))"

definition as_code :: "value \<Rightarrow> int option" where
  "as_code v = (case v of VInteger i \<Rightarrow> if - (2 ^ 31) \<le> i \<and> i < 2 ^ 31 then Some i else None | _ \<Rightarrow> None)"

text \<open>Bytes in the place of a string are left to the package, as every value that is not a map with
  string keys.\<close>

definition bytes_at :: "string list \<Rightarrow> (string \<times> value) list \<Rightarrow> bool" where
  "bytes_at names m = list_ex (\<lambda>(k, v). k \<in> set names \<and> (case v of VBinary _ \<Rightarrow> True | _ \<Rightarrow> False)) m"

definition decode_error :: "Msgpack \<Rightarrow> value \<Rightarrow> WireError option" where
  "decode_error mp v =
     (case string_keys v of
        None \<Rightarrow> mp_other_error mp v
      | Some m \<Rightarrow>
          if bytes_at [''message''] m then mp_other_error mp v
          else if repeats [''code'', ''message'', ''data''] m then None
          else (case (need ''code'' as_code m, need ''message'' as_str m, opt ''data'' Some m) of
                  (Inr c, Inr t, Inr d) \<Rightarrow> Some \<lparr>we_code = c, we_message = t, we_data = d\<rparr>
                | _ \<Rightarrow> None))"

definition decode_request :: "Msgpack \<Rightarrow> value \<Rightarrow> (string, WireRequest) result" where
  "decode_request mp v =
     (case string_keys v of
        None \<Rightarrow> mp_other_request mp v
      | Some m \<Rightarrow>
          if bytes_at [''stream'', ''method''] m then mp_other_request mp v
          else if repeats [''stream'', ''id'', ''method'', ''params''] m then Err ''duplicate field''
          else (case (opt ''stream'' as_str m, need ''id'' Some m, need ''method'' as_str m, opt ''params'' Some m) of
                  (Inr s, Inr i, Inr n, Inr p) \<Rightarrow> Ok \<lparr>wq_stream = s, wq_id = i, wq_method = n, wq_params = p\<rparr>
                | _ \<Rightarrow> Err ''invalid request''))"

definition decode_response :: "Msgpack \<Rightarrow> value \<Rightarrow> (string, WireResponse) result" where
  "decode_response mp v =
     (case string_keys v of
        None \<Rightarrow> mp_other_response mp v
      | Some m \<Rightarrow>
          if bytes_at [''stream''] m then mp_other_response mp v
          else if repeats [''stream'', ''id'', ''result'', ''error''] m then Err ''duplicate field''
          else (case (opt ''stream'' as_str m, need ''id'' Some m, opt ''result'' Some m, opt ''error'' (decode_error mp) m) of
                  (Inr s, Inr i, Inr r, Inr e) \<Rightarrow> Ok \<lparr>wr_stream = s, wr_id = i, wr_result = r, wr_error = e\<rparr>
                | _ \<Rightarrow> Err ''invalid response''))"

definition decode_notification :: "Msgpack \<Rightarrow> value \<Rightarrow> (string, WireNotification) result" where
  "decode_notification mp v =
     (case string_keys v of
        None \<Rightarrow> mp_other_notification mp v
      | Some m \<Rightarrow>
          if bytes_at [''stream'', ''method''] m then mp_other_notification mp v
          else if repeats [''stream'', ''method'', ''params''] m then Err ''duplicate field''
          else (case (opt ''stream'' as_str m, need ''method'' as_str m, opt ''params'' Some m) of
                  (Inr s, Inr n, Inr p) \<Rightarrow> Ok \<lparr>wn_stream = s, wn_method = n, wn_params = p\<rparr>
                | _ \<Rightarrow> Err ''invalid notification''))"

definition wire_codec :: "Msgpack \<Rightarrow> Codec" where
  "wire_codec mp = \<lparr>cd_encode = encode_frame mp, cd_decode = mp_read mp, cd_request = decode_request mp,
     cd_response = decode_response mp, cd_notification = decode_notification mp, cd_display = mp_show mp\<rparr>"

definition decode_wire_message :: "Msgpack \<Rightarrow> byte list \<Rightarrow> (string, WireMessage) result run" where
  "decode_wire_message mp bytes =
     (case mp_read mp bytes of
        Inl e \<Rightarrow> Returns (Err e)
      | Inr v \<Rightarrow> map_run Ok (value_to_wire_message (wire_codec mp) v))"

definition wire_response_ok :: "value \<Rightarrow> value \<Rightarrow> WireResponse" where
  "wire_response_ok i result = \<lparr>wr_stream = None, wr_id = i, wr_result = Some result, wr_error = None\<rparr>"

definition wire_response_err :: "value \<Rightarrow> int \<Rightarrow> string \<Rightarrow> WireResponse" where
  "wire_response_err i code message =
     \<lparr>wr_stream = None, wr_id = i, wr_result = None, wr_error = Some (wire_error code message)\<rparr>"

definition notification_of :: "string \<Rightarrow> value option \<Rightarrow> WireNotification" where
  "notification_of method params = \<lparr>wn_stream = None, wn_method = method, wn_params = params\<rparr>"

section \<open>What arrives\<close>

text \<open>A nil value of an optional field reads as absent.\<close>

definition settle :: "value option \<Rightarrow> value option" where
  "settle x = (if x = Some VNil then None else x)"

fun arrives :: "WireMessage \<Rightarrow> WireMessage" where
  "arrives (WRequest r) = WRequest (r\<lparr>wq_params := settle (wq_params r)\<rparr>)"
| "arrives (WResponse r) = WResponse (r\<lparr>wr_result := settle (wr_result r),
     wr_error := map_option (\<lambda>e. e\<lparr>we_data := settle (we_data e)\<rparr>) (wr_error r)\<rparr>)"
| "arrives (WNotification n) = WNotification (n\<lparr>wn_params := settle (wn_params n)\<rparr>)"

text \<open>Messages that the code builds: a response has a result or an error, whose code fits.\<close>

fun sendable :: "WireMessage \<Rightarrow> bool" where
  "sendable (WResponse r) \<longleftrightarrow> (wr_result r \<noteq> None \<or> wr_error r \<noteq> None) \<and>
     (case wr_error r of None \<Rightarrow> True | Some e \<Rightarrow> - (2 ^ 31) \<le> we_code e \<and> we_code e < 2 ^ 31)"
| "sendable _ \<longleftrightarrow> True"

lemma string_keys_mp_map [simp]: "string_keys (mp_map m) = Some m"
  by (induction m) (auto simp: string_keys_def mp_map_def as_map_def)

lemma opt_entry_simps [simp]: "opt_entry n f None = []" "opt_entry n f (Some x) = [(n, f x)]"
  by (simp_all add: opt_entry_def)

lemma settle_simps [simp]: "settle None = None" "settle (Some VNil) = None" "v \<noteq> VNil \<Longrightarrow> settle (Some v) = Some v"
  by (simp_all add: settle_def)

lemma opt_at: "opt name f m = (case map_of m name of None \<Rightarrow> Ok None | Some v \<Rightarrow> if v = VNil then Ok None
     else (case f v of None \<Rightarrow> Err (''invalid type for '' @ name) | Some x \<Rightarrow> Ok (Some x)))"
proof (cases "map_of m name")
  case (Some v)
  then show ?thesis by (cases v) (simp_all add: opt_def)
qed (simp add: opt_def)

lemmas decode_defs = need_def opt_at repeats_def bytes_at_def as_code_def settle_def

lemma decode_error_value:
  "- (2 ^ 31) \<le> we_code e \<Longrightarrow> we_code e < 2 ^ 31 \<Longrightarrow>
     decode_error mp (error_value e) = Some (e\<lparr>we_data := settle (we_data e)\<rparr>)"
  by (cases "we_data e"; cases "we_data e = Some VNil")
    (auto simp: decode_error_def error_value_def decode_defs)

lemma decode_request_value: "decode_request mp (request_value r) = Ok (r\<lparr>wq_params := settle (wq_params r)\<rparr>)"
  by (cases "wq_stream r"; cases "wq_params r"; cases "wq_params r = Some VNil")
    (auto simp: decode_request_def request_value_def decode_defs)

lemma decode_notification_value:
  "decode_notification mp (notification_value n) = Ok (n\<lparr>wn_params := settle (wn_params n)\<rparr>)"
  by (cases "wn_stream n"; cases "wn_params n"; cases "wn_params n = Some VNil")
    (auto simp: decode_notification_def notification_value_def decode_defs)

lemma error_value_not_nil [simp]: "error_value e \<noteq> VNil"
  by (simp add: error_value_def mp_map_def)

lemma decode_response_value:
  assumes "sendable (WResponse r)"
  shows "WResponse (case decode_response mp (response_value r) of Inr x \<Rightarrow> x | Inl _ \<Rightarrow> r) = arrives (WResponse r) \<and>
    (\<exists>x. decode_response mp (response_value r) = Ok x)"
proof -
  let ?m = "opt_entry ''stream'' VString (wr_stream r) @ [(''id'', wr_id r)] @
     opt_entry ''result'' (\<lambda>v. v) (wr_result r) @ opt_entry ''error'' error_value (wr_error r)"
  have e: "opt ''error'' (decode_error mp) ?m = Ok (map_option (\<lambda>e. e\<lparr>we_data := settle (we_data e)\<rparr>) (wr_error r))"
    using assms decode_error_value
    by (cases "wr_error r"; cases "wr_stream r"; cases "wr_result r") (auto simp: opt_at)
  have s: "opt ''stream'' as_str ?m = Ok (wr_stream r)" "need ''id'' Some ?m = Ok (wr_id r)"
    "opt ''result'' Some ?m = Ok (settle (wr_result r))" "\<not> repeats [''stream'', ''id'', ''result'', ''error''] ?m"
    "\<not> bytes_at [''stream''] ?m"
    by (cases "wr_error r"; cases "wr_stream r"; cases "wr_result r"; simp add: opt_at need_def settle_def repeats_def bytes_at_def)+
  have "decode_response mp (response_value r) = Ok \<lparr>wr_stream = wr_stream r, wr_id = wr_id r, wr_result = settle (wr_result r),
      wr_error = map_option (\<lambda>e. e\<lparr>we_data := settle (we_data e)\<rparr>) (wr_error r)\<rparr>"
    using e s by (simp add: decode_response_def response_value_def)
  then show ?thesis by simp
qed

definition message_stream :: "WireMessage \<Rightarrow> string option" where
  "message_stream m = (case m of WRequest r \<Rightarrow> wq_stream r | WResponse r \<Rightarrow> wr_stream r | WNotification n \<Rightarrow> wn_stream n)"

lemma stream_tag_wire: "stream_tag (wire_value m) = message_stream m"
proof (cases m)
  case (WRequest r)
  then show ?thesis
    by (cases "wq_stream r"; cases "wq_params r")
      (simp_all add: request_value_def stream_tag_def mp_map_def as_map_def message_stream_def)
next
  case (WResponse r)
  then show ?thesis
    by (cases "wr_stream r"; cases "wr_result r"; cases "wr_error r")
      (simp_all add: response_value_def stream_tag_def mp_map_def as_map_def message_stream_def)
next
  case (WNotification n)
  then show ?thesis
    by (cases "wn_stream n"; cases "wn_params n")
      (simp_all add: notification_value_def stream_tag_def mp_map_def as_map_def message_stream_def)
qed

text \<open>Every message that the code sends is read as the same message.\<close>

lemma wire_roundtrip:
  assumes "sendable m"
  shows "value_to_wire_message (wire_codec mp) (wire_value m) = Returns (arrives m)"
proof (cases m)
  case (WRequest r)
  have "map_get (request_value r) ''id'' \<noteq> None" "map_get (request_value r) ''method'' \<noteq> None"
    by (cases "wq_stream r"; simp add: request_value_def)+
  then show ?thesis
    using WRequest by (simp add: value_to_wire_message_def wire_codec_def decode_request_value expect_def map_run_def)
next
  case (WResponse r)
  have k: "map_get (response_value r) ''id'' \<noteq> None" "map_get (response_value r) ''method'' = None"
    "map_get (response_value r) ''result'' \<noteq> None \<or> map_get (response_value r) ''error'' \<noteq> None"
    using assms WResponse
    by (cases "wr_stream r"; cases "wr_result r"; cases "wr_error r"; simp add: response_value_def)+
  obtain x where "decode_response mp (response_value r) = Ok x" "WResponse x = arrives (WResponse r)"
    using decode_response_value [OF assms [unfolded WResponse], of mp] by auto
  then show ?thesis
    using WResponse k by (simp add: value_to_wire_message_def wire_codec_def expect_def map_run_def)
next
  case (WNotification n)
  have "map_get (notification_value n) ''id'' = None"
    by (cases "wn_stream n"; cases "wn_params n") (simp_all add: notification_value_def)
  then show ?thesis
    using WNotification by (simp add: value_to_wire_message_def wire_codec_def decode_notification_value expect_def map_run_def)
qed

text \<open>What the MessagePack package promises for a message: its value is read back.\<close>

definition travels :: "Msgpack \<Rightarrow> WireMessage \<Rightarrow> bool" where
  "travels mp m \<longleftrightarrow>
     (case encode_frame mp m of Inl _ \<Rightarrow> False | Inr bytes \<Rightarrow> mp_read mp bytes = Ok (wire_value m))"

lemma encode_frame_ok:
  assumes "travels mp m"
  obtains bytes where "encode_frame mp m = Ok bytes" "mp_read mp bytes = Ok (wire_value m)"
  using assms by (auto simp: travels_def split: sum.splits)

lemma frame_dispatched:
  assumes "sendable m" "mp_read mp bytes = Ok (wire_value m)"
  shows "handle_frame (wire_codec mp) h bytes cn =
    (case channel_of cn (message_stream m) of
       None \<Rightarrow> Returns cn
     | Some a \<Rightarrow> Returns (dispatch_message (wire_codec mp) h a (arrives m) cn))"
proof -
  have "cd_decode (wire_codec mp) = mp_read mp" by (simp add: wire_codec_def)
  then show ?thesis
    using wire_roundtrip [OF assms(1), of mp] assms(2)
    by (simp add: handle_frame_def stream_tag_wire channel_of_def split: option.split)
qed

section \<open>Stream handles and typed notifications\<close>

definition stream_async :: "string \<Rightarrow> Connection \<Rightarrow> Connection \<times> Stream" where
  "stream_async i cn = open_stream i cn"

definition stream_on :: "Stream \<Rightarrow> string \<Rightarrow> nat \<Rightarrow> Connection \<Rightarrow> Connection" where
  "stream_on st method handler cn = on_notification (st_state st) method handler cn"

definition stream_handle_request :: "Stream \<Rightarrow> string \<Rightarrow> nat \<Rightarrow> Connection \<Rightarrow> Connection" where
  "stream_handle_request st method handler cn = handle_request (st_state st) method handler cn"

text \<open>Closing a handle removes whatever stream has its id.\<close>

definition stream_close :: "Stream \<Rightarrow> Connection \<Rightarrow> Connection" where
  "stream_close st cn = close_stream (st_id st) cn"

definition conn_notify_typed :: "SerdeCodec \<Rightarrow> Codec \<Rightarrow> string \<Rightarrow> wty \<Rightarrow> rval \<Rightarrow> Connection \<Rightarrow> Connection" where
  "conn_notify_typed sc cd method t v cn =
     (case to_msgpack_value sc t v of Inl _ \<Rightarrow> cn | Inr x \<Rightarrow> conn_notify cd method (Some x) cn)"

definition stream_notify_typed :: "SerdeCodec \<Rightarrow> Codec \<Rightarrow> Stream \<Rightarrow> string \<Rightarrow> wty \<Rightarrow> rval \<Rightarrow> Connection \<Rightarrow> Connection" where
  "stream_notify_typed sc cd st method t v cn =
     (case to_msgpack_value sc t v of Inl _ \<Rightarrow> cn | Inr x \<Rightarrow> stream_notify cd st method (Some x) cn)"

text \<open>The wrapper that \<^verbatim>\<open>on_typed\<close> installs: the typed handler runs on what decodes.\<close>

definition typed_listener :: "SerdeCodec \<Rightarrow> wty \<Rightarrow> value \<Rightarrow> rval list" where
  "typed_listener sc t v = (case from_msgpack_value sc t v of Inl _ \<Rightarrow> [] | Inr x \<Rightarrow> [x])"

definition typed_calls :: "SerdeCodec \<Rightarrow> wty \<Rightarrow> nat \<Rightarrow> Connection \<Rightarrow> rval list" where
  "typed_calls sc t handler cn = concat (map (\<lambda>(h, v). if h = handler then typed_listener sc t v else []) (cn_called cn))"

text \<open>A typed request on a stream, given the untyped request and its answer.\<close>

definition stream_request_typed ::
  "SerdeCodec \<Rightarrow> (string \<Rightarrow> value option \<Rightarrow> (WireError, value) result) \<Rightarrow> string \<Rightarrow> wty \<Rightarrow> wty \<Rightarrow> rval \<Rightarrow> (TypedRequestError, rval) result" where
  "stream_request_typed sc request method pt rt p =
     (case to_msgpack_value sc pt p of
        Inl e \<Rightarrow> Err (EncodeParams e)
      | Inr v \<Rightarrow> typed_result (from_msgpack_value sc rt) (request method (Some v)))"

section \<open>Connections over a WebSocket\<close>

definition tr_is_closed :: "Transport \<Rightarrow> bool" where
  "tr_is_closed tr = tr_closed tr"

record WebSocketConnection =
  wc_transport :: Transport
  wc_connection :: Connection

definition accepted_websocket_transport :: "TransportOptions \<Rightarrow> nat \<Rightarrow> Transport \<times> Driver" where
  "accepted_websocket_transport opts now = (\<lparr>tr_cmds = [], tr_open = True, tr_closed = False\<rparr>, driver_new opts now)"

definition create_websocket_connection ::
  "string \<Rightarrow> TransportOptions \<Rightarrow> dial \<Rightarrow> nat \<Rightarrow> (ClientTransportError, WebSocketConnection \<times> Client) result" where
  "create_websocket_connection url opts first now =
     (case connect_websocket_transport url opts first now of
        Inl e \<Rightarrow> Err e
      | Inr (tr, c) \<Rightarrow> Ok (\<lparr>wc_transport = tr, wc_connection = connection_new\<rparr>, c))"

definition create_accepted_websocket_connection :: "TransportOptions \<Rightarrow> nat \<Rightarrow> WebSocketConnection \<times> Driver" where
  "create_accepted_websocket_connection opts now =
     (case accepted_websocket_transport opts now of
        (tr, d) \<Rightarrow> (\<lparr>wc_transport = tr, wc_connection = connection_new\<rparr>, d))"

section \<open>Two connections\<close>

text \<open>What a caller learns of an error: a nil \<^verbatim>\<open>data\<close> is lost.\<close>

definition told :: "(WireError, value) result \<Rightarrow> (WireError, value) result" where
  "told r = (case r of Inl e \<Rightarrow> Err (e\<lparr>we_data := settle (we_data e)\<rparr>) | Inr v \<Rightarrow> Ok v)"

definition param_value :: "value option \<Rightarrow> value" where
  "param_value p = (case p of None \<Rightarrow> VNil | Some v \<Rightarrow> v)"

lemma param_value_settle [simp]: "param_value (settle p) = param_value p"
  by (simp add: param_value_def settle_def)

lemma request_served:
  assumes "travels mp (WResponse (answer_message req (h k (param_value (wq_params req)))))"
    and "mp_read mp bytes = Ok (wire_value (WRequest req))" "channel_of cn (wq_stream req) = Some b"
      "hm_get (cs_request_handlers (state_at cn b)) (wq_method req) = Some k"
  obtains resp where "handle_frame (wire_codec mp) h bytes cn = Returns (cn\<lparr>cn_sent := cn_sent cn @ [resp]\<rparr>)"
    "mp_read mp resp = Ok (wire_value (WResponse (answer_message req (h k (param_value (wq_params req))))))"
proof -
  let ?req = "req\<lparr>wq_params := settle (wq_params req)\<rparr>"
  let ?m = "WResponse (answer_message req (h k (param_value (wq_params req))))"
  obtain resp where r: "encode_frame mp ?m = Ok resp" "mp_read mp resp = Ok (wire_value ?m)"
    by (rule encode_frame_ok [OF assms(1)])
  have "dispatch_message (wire_codec mp) h b (WRequest ?req) cn = cn\<lparr>cn_sent := cn_sent cn @ [resp]\<rparr>"
    using assms(4) r(1) by (simp add: dispatch_message_def param_value_def [symmetric] send_response_def wire_codec_def
        transport_send_def answer_message_def cong: sum.case_cong)
  then have "handle_frame (wire_codec mp) h bytes cn = Returns (cn\<lparr>cn_sent := cn_sent cn @ [resp]\<rparr>)"
    using frame_dispatched [of "WRequest req", OF _ assms(2)] assms(3) by (simp add: message_stream_def)
  then show thesis using that r(2) by blast
qed

lemma answer_stream [simp]: "wr_stream (answer_message req r) = wq_stream req"
  by (simp add: answer_message_def split: sum.split)

text \<open>C14. A request crosses two connections: sent on a connection or on a stream, it runs exactly the
  handler that the peer has installed for the method on the channel of the same name, with the
  given parameters; the peer's only reaction is one response frame; and that frame resolves
  exactly this request at the caller with the handler's result or error, whatever else is pending.\<close>

theorem request_crosses_connections:
  fixes uuid m :: string and tag :: "string option" and params :: "value option"
  defines "req \<equiv> \<lparr>wq_stream = tag, wq_id = VString uuid, wq_method = m, wq_params = params\<rparr>"
  assumes mp: "travels mp (WRequest req)" "travels mp (WResponse (answer_message req (h k (param_value params))))"
    and cn: "mux_reach cn" "fresh_id cn uuid" "channel_of cn tag = Some a"
    and peer: "channel_of cn' tag = Some b" "hm_get (cs_request_handlers (state_at cn' b)) m = Some k"
    and code: "\<And>e. h k (param_value params) = Err e \<Longrightarrow> - (2 ^ 31) \<le> we_code e \<and> we_code e < 2 ^ 31"
  shows "\<exists>sent reply cn1 cn2.
    send_request (wire_codec mp) uuid a tag m params cn = (cn1, Ok uuid) \<and> cn_sent cn1 = cn_sent cn @ [sent] \<and>
    handle_frame (wire_codec mp) h sent cn' = Returns (cn'\<lparr>cn_sent := cn_sent cn' @ [reply]\<rparr>) \<and>
    handle_frame (wire_codec mp) h' reply cn1 = Returns cn2 \<and>
    cn_results cn2 = cn_results cn @ [(uuid, told (h k (param_value params)))] \<and> pend cn2 = pend cn"
proof -
  let ?ans = "answer_message req (h k (param_value params))"
  obtain sent where s: "encode_frame mp (WRequest req) = Ok sent" "mp_read mp sent = Ok (wire_value (WRequest req))"
    by (rule encode_frame_ok [OF mp(1)])
  let ?cn1 = "fst (send_request (wire_codec mp) uuid a tag m params cn)"
  have sr: "send_request (wire_codec mp) uuid a tag m params cn = (?cn1, Ok uuid)" "cn_sent ?cn1 = cn_sent cn @ [sent]"
    using s(1) by (simp_all add: send_request_def Let_def wire_codec_def transport_send_def upd_state_def req_def)
  have inv: "mux_inv cn" by (rule mux_reach_inv [OF cn(1)])
  have "a < cn_next cn"
    using cn(3) inv by (auto simp: channel_of_def mux_inv_def root_addr_def split: option.splits)
  then have r: "pend ?cn1 = (pend cn)(a := pend cn a @ [uuid])" "cn_results ?cn1 = cn_results cn" "cn_streams ?cn1 = cn_streams cn"
    using mux_inv_request [OF inv cn(2)] by auto
  obtain reply where p: "handle_frame (wire_codec mp) h sent cn' = Returns (cn'\<lparr>cn_sent := cn_sent cn' @ [reply]\<rparr>)"
    "mp_read mp reply = Ok (wire_value (WResponse ?ans))"
    using request_served [of mp req h k sent cn' b] mp(2) s(2) peer by (auto simp: req_def)
  have ok: "sendable (WResponse ?ans)" using code by (cases "h k (param_value params)") (auto simp: answer_message_def)
  obtain resp where resp: "arrives (WResponse ?ans) = WResponse resp" by simp
  have rf: "wr_id resp = VString uuid" "response_outcome resp = told (h k (param_value params))"
    using resp by (cases "h k (param_value params)"; auto simp: answer_message_def response_outcome_def told_def settle_def req_def)+
  have key: "id_to_key (wire_codec mp) (wr_id resp) = uuid" by (simp add: rf(1) id_to_key_def)
  then have slot: "id_to_key (wire_codec mp) (wr_id resp) \<in> set (pend ?cn1 a)" using r(1) by simp
  have "filter (\<lambda>x. x \<noteq> uuid) (pend cn a @ [uuid]) = pend cn a"
    using cn(2) by (auto simp: fresh_id_def intro: filter_True)
  then have d: "cn_results (dispatch_message (wire_codec mp) h' a (WResponse resp) ?cn1) = cn_results cn @ [(uuid, told (h k (param_value params)))]"
    "pend (dispatch_message (wire_codec mp) h' a (WResponse resp) ?cn1) = pend cn"
    using dispatch_response [OF slot, of h'] r(1,2) key rf(2) by simp_all
  have "channel_of ?cn1 tag = Some a" using cn(3) r(3) by (cases tag) (simp_all add: channel_of_def)
  then have "handle_frame (wire_codec mp) h' reply ?cn1 = Returns (dispatch_message (wire_codec mp) h' a (WResponse resp) ?cn1)"
    using frame_dispatched [OF ok p(2), unfolded resp] by (simp add: message_stream_def answer_stream req_def)
  then show ?thesis using sr p(1) d by blast
qed

text \<open>A notification reaches the handlers of its channel and method, all of them, in the order in which
  they were installed, and nothing else happens.\<close>

lemma notification_crosses_connections:
  assumes mp: "travels mp (WNotification \<lparr>wn_stream = tag, wn_method = m, wn_params = params\<rparr>)"
    and peer: "channel_of cn' tag = Some b" "hm_get (cs_notification_handlers (state_at cn' b)) m = Some hs"
  shows "\<exists>sent. send_notification (wire_codec mp) tag m params cn = cn\<lparr>cn_sent := cn_sent cn @ [sent]\<rparr> \<and>
    handle_frame (wire_codec mp) h sent cn' = Returns (cn'\<lparr>cn_called := cn_called cn' @ map (\<lambda>k. (k, param_value params)) hs\<rparr>)"
proof -
  let ?m = "WNotification \<lparr>wn_stream = tag, wn_method = m, wn_params = params\<rparr>"
  obtain sent where s: "encode_frame mp ?m = Ok sent" "mp_read mp sent = Ok (wire_value ?m)"
    by (rule encode_frame_ok [OF mp])
  have "handle_frame (wire_codec mp) h sent cn' =
      Returns (cn'\<lparr>cn_called := cn_called cn' @ map (\<lambda>k. (k, param_value (settle params))) hs\<rparr>)"
    using frame_dispatched [OF _ s(2), of h cn'] peer
    by (simp add: message_stream_def dispatch_message_def param_value_def [symmetric])
  then show ?thesis using s(1) by (auto simp: send_notification_def wire_codec_def transport_send_def)
qed

text \<open>A request for a method without a handler, or on a stream that the peer does not have, leaves the
  peer as it is: no response is sent, and the request stays pending.\<close>

lemma unhandled_request_unanswered:
  assumes "mp_read mp bytes = Ok (wire_value (WRequest req))"
    and "case channel_of cn (wq_stream req) of
           None \<Rightarrow> True | Some b \<Rightarrow> hm_get (cs_request_handlers (state_at cn b)) (wq_method req) = None"
  shows "handle_frame (wire_codec mp) h bytes cn = Returns cn"
  using frame_dispatched [of "WRequest req", OF _ assms(1), of h cn] assms(2)
  by (auto simp: message_stream_def dispatch_message_def split: option.splits)

text \<open>The transport takes a frame for a heartbeat exactly when it is a notification of the connection
  itself that is named \<^verbatim>\<open>ping\<close> or \<^verbatim>\<open>pong\<close> and has no parameters: such a
  notification of an application never reaches the peer's handlers.\<close>

lemma heartbeat_lookalikes:
  assumes "te_decode env bytes = Ok (wire_value m)"
  shows "classify_ping_pong env bytes =
    (case m of
       WNotification n \<Rightarrow>
         if wn_stream n = None \<and> wn_params n = None
         then (if wn_method n = ''ping'' then Some True else if wn_method n = ''pong'' then Some False else None)
         else None
     | _ \<Rightarrow> None)"
proof (cases m)
  case (WNotification n)
  then show ?thesis
    using assms by (cases "wn_stream n"; cases "wn_params n")
      (simp_all add: classify_ping_pong_def notification_value_def mp_map_def as_map_def)
next
  case (WRequest r)
  then show ?thesis
    using assms by (cases "wq_stream r"; cases "wq_params r")
      (simp_all add: classify_ping_pong_def request_value_def mp_map_def as_map_def)
next
  case (WResponse r)
  then show ?thesis
    using assms by (cases "wr_stream r"; cases "wr_result r"; cases "wr_error r")
      (simp_all add: classify_ping_pong_def response_value_def mp_map_def as_map_def)
qed

text \<open>Closing a stale handle closes the stream that was opened under its id afterwards, with the
  requests that wait there.\<close>

lemma stale_close_hits_successor:
  assumes "open_stream i cn = (cn1, old)" "open_stream i (stream_close old cn1) = (cn2, new)"
    and "pend cn3 (st_state new) = ids" "hm_get (cn_streams cn3) i = Some (st_state new)"
  shows "pend (stream_close old cn3) (st_state new) = []"
    and "hm_get (cn_streams (stream_close old cn3)) i = None"
    and "answered (stream_close old cn3) = answered cn3 @ ids"
proof -
  have "st_id old = i" using assms(1) by (auto simp: open_stream_def Let_def split: option.splits)
  then have c: "stream_close old cn3 =
      reject_all_pending ''stream closed'' (st_state new) (cn3\<lparr>cn_streams := hm_remove i (cn_streams cn3)\<rparr>)"
    using assms(4) by (simp add: stream_close_def close_stream_def)
  show "pend (stream_close old cn3) (st_state new) = []" "hm_get (cn_streams (stream_close old cn3)) i = None"
    by (simp_all add: c reject_effect)
  show "answered (stream_close old cn3) = answered cn3 @ ids"
    using assms(3) by (simp add: c answered_reject) (simp add: answered_def)
qed

section \<open>Witness\<close>

definition sample_wire_request :: WireRequest where
  "sample_wire_request = \<lparr>wq_stream = Some ''s'', wq_id = VString ''u1'', wq_method = ''m'', wq_params = Some (VInteger 3)\<rparr>"

definition sample_wire_response :: WireResponse where
  "sample_wire_response = \<lparr>wr_stream = Some ''s'', wr_id = VString ''u1'', wr_result = Some (VInteger 4), wr_error = None\<rparr>"

definition sample_msgpack :: Msgpack where
  "sample_msgpack = \<lparr>mp_write = (\<lambda>v. if v = request_value sample_wire_request then Ok [1]
       else if v = response_value sample_wire_response then Ok [2] else Err ''unknown''),
     mp_read = (\<lambda>b. if b = [1] then Ok (request_value sample_wire_request)
       else if b = [2] then Ok (response_value sample_wire_response) else Err ''unknown''),
     mp_other_request = (\<lambda>_. Err ''no''), mp_other_response = (\<lambda>_. Err ''no''), mp_other_notification = (\<lambda>_. Err ''no''), mp_other_error = (\<lambda>_. None),
     mp_show = (\<lambda>_. [])\<rparr>"

definition sample_peer :: Connection where
  "sample_peer = handle_request 1 ''m'' 7 sample_mux"

lemma sample_peer_serves: "channel_of sample_peer (Some ''s'') = Some 1"
  "hm_get (cs_request_handlers (state_at sample_peer 1)) ''m'' = Some 7"
  using sample_mux_facts(1) by (simp_all add: sample_peer_def handle_request_def channel_of_def)

theorem request_crosses_connections_witness:
  "\<exists>sent reply cn1 cn2.
    send_request (wire_codec sample_msgpack) ''u1'' 1 (Some ''s'') ''m'' (Some (VInteger 3)) sample_mux = (cn1, Ok ''u1'') \<and>
    cn_sent cn1 = cn_sent sample_mux @ [sent] \<and>
    handle_frame (wire_codec sample_msgpack) (\<lambda>_ _. Ok (VInteger 4)) sent sample_peer =
      Returns (sample_peer\<lparr>cn_sent := cn_sent sample_peer @ [reply]\<rparr>) \<and>
    handle_frame (wire_codec sample_msgpack) (\<lambda>_ _. Ok VNil) reply cn1 = Returns cn2 \<and>
    cn_results cn2 = cn_results sample_mux @ [(''u1'', told (Ok (VInteger 4)))] \<and> pend cn2 = pend sample_mux"
proof (rule request_crosses_connections [where h = "\<lambda>_ _. Ok (VInteger 4)" and k = 7, OF _ _ sample_mux_reach sample_fresh
      sample_mux_facts(1) sample_peer_serves])
  show "travels sample_msgpack
     (WRequest \<lparr>wq_stream = Some ''s'', wq_id = VString ''u1'', wq_method = ''m'', wq_params = Some (VInteger 3)\<rparr>)"
    by (simp add: travels_def encode_frame_def sample_msgpack_def sample_wire_request_def)
  show "travels sample_msgpack
     (WResponse (answer_message \<lparr>wq_stream = Some ''s'', wq_id = VString ''u1'', wq_method = ''m'', wq_params = Some (VInteger 3)\<rparr>
       (Ok (VInteger 4))))"
    by (simp add: travels_def encode_frame_def sample_msgpack_def sample_wire_request_def sample_wire_response_def
        answer_message_def request_value_def response_value_def mp_map_def)
qed simp

end
