(* ===== verification/Transport_Fixtures.thy ===== *)
theory Transport_Fixtures
  imports Wire_Codec
begin

text \<open>
  The three programs of \<^verbatim>\<open>utils/transport/src/bin\<close> that the tests of the TypeScript package
  run: \<^verbatim>\<open>transport-codec-fixture\<close> prints frames as JSON and hexadecimal,
  \<^verbatim>\<open>transport-method-server\<close> answers every method with a sample result, and
  \<^verbatim>\<open>transport-method-client\<close> calls every method with sample parameters and checks the
  answers.  The socket's messages, the MessagePack package, the text of a JSON value and JSON's view
  of floats are arguments; objects of \<^verbatim>\<open>serde_json\<close> keep their keys in order.
\<close>

section \<open>JSON\<close>

datatype sjson = SNull | SBool bool | SNumber int | SString string | SArray "sjson list" | SObject "(string \<times> sjson) list"

fun key_less :: "string \<Rightarrow> string \<Rightarrow> bool" where
  "key_less [] t = (t \<noteq> [])"
| "key_less (c # s) [] = False"
| "key_less (c # s) (d # t) = ((of_char c :: nat) < of_char d \<or> c = d \<and> key_less s t)"

fun obj_put :: "string \<Rightarrow> sjson \<Rightarrow> (string \<times> sjson) list \<Rightarrow> (string \<times> sjson) list" where
  "obj_put k v [] = [(k, v)]"
| "obj_put k v ((k', v') # m) =
     (if k = k' then (k, v) # m else if key_less k k' then (k, v) # (k', v') # m else (k', v') # obj_put k v m)"

definition sobject :: "(string \<times> sjson) list \<Rightarrow> sjson" where
  "sobject kvs = SObject (foldl (\<lambda>m (k, v). obj_put k v m) [] kvs)"

definition snull_or :: "('a \<Rightarrow> sjson) \<Rightarrow> 'a option \<Rightarrow> sjson" where
  "snull_or f x = (case x of None \<Rightarrow> SNull | Some v \<Rightarrow> f v)"

text \<open>How MessagePack writes a JSON value.\<close>

function json_mp :: "sjson \<Rightarrow> value" where
  "json_mp SNull = VNil"
| "json_mp (SBool b) = VBoolean b"
| "json_mp (SNumber n) = VInteger n"
| "json_mp (SString s) = VString s"
| "json_mp (SArray xs) = VArray (map json_mp xs)"
| "json_mp (SObject m) = VMap (map (\<lambda>kv. (VString (fst kv), json_mp (snd kv))) m)"
  by pat_completeness auto

lemma size_snd_less [termination_simp]: "kv \<in> set m \<Longrightarrow> f (snd kv) < Suc (size_list (size_prod g f) m)"
proof -
  assume "kv \<in> set m"
  then have "size_prod g f kv \<le> size_list (size_prod g f) m" by (simp add: size_list_estimation')
  moreover have "f (snd kv) \<le> size_prod g f kv" by (cases kv) simp
  ultimately show ?thesis by simp
qed

termination json_mp by (relation "measure size") (auto simp: termination_simp)

definition json_value :: "Msgpack \<Rightarrow> sjson \<Rightarrow> value run" where
  "json_value mp j =
     (case mp_write mp (json_mp j) of
        Inl _ \<Rightarrow> Panics
      | Inr bytes \<Rightarrow> (case mp_read mp bytes of Inl _ \<Rightarrow> Panics | Inr v \<Rightarrow> Returns v))"

section \<open>The codec program\<close>

datatype program_end = Prints string | Exits nat string

definition hex_value :: "byte \<Rightarrow> byte option" where
  "hex_value b =
     (if 48 \<le> b \<and> b \<le> 57 then Some (b - 48)
      else if 97 \<le> b \<and> b \<le> 102 then Some (b - 97 + 10)
      else if 65 \<le> b \<and> b \<le> 70 then Some (b - 65 + 10)
      else None)"

unbundle bit_operations_syntax

fun decode_hex_from :: "nat \<Rightarrow> byte list \<Rightarrow> (string, byte list) result" where
  "decode_hex_from i (a # b # rest) =
     (case hex_value a of
        None \<Rightarrow> Err (''invalid hex at '' @ dec i)
      | Some hi \<Rightarrow>
          (case hex_value b of
             None \<Rightarrow> Err (''invalid hex at '' @ dec (i + 1))
           | Some lo \<Rightarrow>
               (case decode_hex_from (i + 2) rest of
                  Inl e \<Rightarrow> Err e
                | Inr out \<Rightarrow> Ok ((push_bit 4 hi OR lo) # out))))"
| "decode_hex_from i _ = Ok []"

definition decode_hex :: "byte list \<Rightarrow> (string, byte list) result" where
  "decode_hex s = (if length s mod 2 \<noteq> 0 then Err ''hex length must be even'' else decode_hex_from 0 s)"

definition HEX :: "byte list" where
  "HEX = [48, 49, 50, 51, 52, 53, 54, 55, 56, 57, 97, 98, 99, 100, 101, 102]"

definition encode_hex :: "byte list \<Rightarrow> byte list" where
  "encode_hex bytes = concat (map (\<lambda>b. [HEX ! unat (drop_bit 4 b), HEX ! unat (b AND 15)]) bytes)"

text \<open>Floats print as JSON numbers or null; that is left to the package.\<close>

function value_to_json :: "(value \<Rightarrow> sjson) \<Rightarrow> value \<Rightarrow> sjson" where
  "value_to_json fl VNil = SNull"
| "value_to_json fl (VBoolean b) = SBool b"
| "value_to_json fl (VInteger n) =
     (if as_i64 (VInteger n) \<noteq> None then SNumber n
      else if as_u64 (VInteger n) \<noteq> None then SNumber n
      else SString (dec_int n))"
| "value_to_json fl (VF32 w) = fl (VF32 w)"
| "value_to_json fl (VF64 w) = fl (VF64 w)"
| "value_to_json fl (VString s) = SString s"
| "value_to_json fl (VBinary bs) = SArray (map (\<lambda>b. SNumber (uint b)) bs)"
| "value_to_json fl (VArray xs) = SArray (map (value_to_json fl) xs)"
| "value_to_json fl (VMap m) =
     sobject (map (\<lambda>kv. (case as_str (fst kv) of None \<Rightarrow> [] | Some k \<Rightarrow> k, value_to_json fl (snd kv))) m)"
| "value_to_json fl (VExt t bs) = SNull"
  by pat_completeness auto

termination value_to_json by (relation "measure (size \<circ> snd)") (auto simp: termination_simp)

definition error_json :: "(value \<Rightarrow> sjson) \<Rightarrow> WireError \<Rightarrow> sjson" where
  "error_json fl e = sobject [(''code'', SNumber (we_code e)), (''message'', SString (we_message e)),
     (''data'', snull_or (value_to_json fl) (we_data e))]"

definition message_json :: "(value \<Rightarrow> sjson) \<Rightarrow> WireMessage \<Rightarrow> sjson" where
  "message_json fl m =
     (case m of
        WRequest req \<Rightarrow>
          sobject [(''kind'', SString ''request''), (''stream'', snull_or SString (wq_stream req)),
            (''id'', value_to_json fl (wq_id req)), (''method'', SString (wq_method req)),
            (''params'', snull_or (value_to_json fl) (wq_params req))]
      | WResponse resp \<Rightarrow>
          sobject [(''kind'', SString ''response''), (''stream'', snull_or SString (wr_stream resp)),
            (''id'', value_to_json fl (wr_id resp)), (''result'', snull_or (value_to_json fl) (wr_result resp)),
            (''error'', snull_or (error_json fl) (wr_error resp))]
      | WNotification notif \<Rightarrow>
          sobject [(''kind'', SString ''notification''), (''stream'', snull_or SString (wn_stream notif)),
            (''method'', SString (wn_method notif)), (''params'', snull_or (value_to_json fl) (wn_params notif))])"

definition fixture_response :: WireResponse where
  "fixture_response = wire_response_ok (VString ''req-1'') (VMap [(VString ''ok'', VBoolean True)])"

definition codec_fixture ::
  "Msgpack \<Rightarrow> (value \<Rightarrow> sjson) \<Rightarrow> (sjson \<Rightarrow> (string, string) result) \<Rightarrow> string list \<Rightarrow> program_end run" where
  "codec_fixture mp fl to_string args =
     (case args of
        [] \<Rightarrow> Returns (Exits 2 ''usage: transport-codec-fixture <decode-request HEX|encode-response>'')
      | cmd # args \<Rightarrow>
          if cmd = ''decode-request'' then
            (case args of
               [] \<Rightarrow> Returns (Exits 2 ''decode-request requires HEX'')
             | hex # _ \<Rightarrow>
                 (case decode_hex (map (\<lambda>c. of_nat (of_char c)) hex) of
                    Inl err \<Rightarrow> Returns (Exits 2 err)
                  | Inr bytes \<Rightarrow>
                      (case decode_wire_message mp bytes of
                         Panics \<Rightarrow> Panics
                       | Returns (Inl err) \<Rightarrow> Returns (Exits 1 (''decode failed: '' @ err))
                       | Returns (Inr m) \<Rightarrow>
                           Returns (Prints (case to_string (message_json fl m) of Inl _ \<Rightarrow> ''{}'' | Inr s \<Rightarrow> s)))))
          else if cmd = ''encode-response'' then
            (case encode_frame mp (WResponse fixture_response) of
               Inl err \<Rightarrow> Returns (Exits 1 (''encode failed: '' @ err))
             | Inr bytes \<Rightarrow> Returns (Prints (map (\<lambda>b. char_of (unat b)) (encode_hex bytes))))
          else Returns (Exits 2 (''unknown command: '' @ cmd)))"

lemma nibble_digit: "n < 16 \<Longrightarrow> hex_value (HEX ! n) = Some (word_of_nat n)"
proof -
  assume "n < 16"
  moreover have "list_all (\<lambda>n. hex_value (HEX ! n) = Some (word_of_nat n)) [0..<16]" by code_simp
  ultimately show ?thesis by (simp add: list_all_iff)
qed

lemma low_nibble: "b AND 15 = take_bit 4 (b :: byte)"
  by (simp add: take_bit_eq_mask mask_eq_exp_minus_1)

lemma hex_byte:
  "hex_value (HEX ! unat (drop_bit 4 b)) = Some (drop_bit 4 b) \<and> hex_value (HEX ! unat (b AND 15)) = Some (b AND 15) \<and>
     push_bit 4 (drop_bit 4 b) OR (b AND 15) = (b :: byte)"
proof (intro conjI)
  have "unat (drop_bit 4 b) < 16" using byte_less [of b] unfolding unat_drop_bit_eq by (simp add: drop_bit_eq_div)
  then show "hex_value (HEX ! unat (drop_bit 4 b)) = Some (drop_bit 4 b)" using nibble_digit by simp
  have "unat (b AND 15) < 16" by (simp only: low_nibble unsigned_take_bit_eq) (simp add: take_bit_eq_mod)
  then show "hex_value (HEX ! unat (b AND 15)) = Some (b AND 15)" using nibble_digit by simp
  show "push_bit 4 (drop_bit 4 b) OR (b AND 15) = b"
    unfolding low_nibble by (rule bit_word_eqI) (auto simp: bit_simps)
qed

lemma decode_encode_hex: "decode_hex (encode_hex bs) = Ok bs"
proof -
  have "length (encode_hex bs) mod 2 = 0" by (induction bs) (simp_all add: encode_hex_def)
  moreover have "decode_hex_from i (encode_hex bs) = Ok bs" for i
    by (induction bs arbitrary: i) (simp_all add: encode_hex_def hex_byte)
  ultimately show ?thesis by (simp add: decode_hex_def)
qed

text \<open>The codec program reads its own response: what \<^verbatim>\<open>encode-response\<close> prints is shown by
  \<^verbatim>\<open>decode-request\<close> as the response that was encoded.\<close>

lemma codec_fixture_reads_itself:
  assumes "travels mp (WResponse fixture_response)"
  shows "\<exists>hex. codec_fixture mp fl to_string [''encode-response''] = Returns (Prints hex) \<and>
    codec_fixture mp fl to_string [''decode-request'', hex] =
      Returns (Prints (case to_string (message_json fl (WResponse fixture_response)) of Inl _ \<Rightarrow> ''{}'' | Inr s \<Rightarrow> s))"
proof -
  obtain bytes where b: "encode_frame mp (WResponse fixture_response) = Ok bytes"
      "mp_read mp bytes = Ok (wire_value (WResponse fixture_response))"
    by (rule encode_frame_ok [OF assms])
  have "value_to_wire_message (wire_codec mp) (wire_value (WResponse fixture_response)) = Returns (WResponse fixture_response)"
    by (subst wire_roundtrip) (simp_all add: fixture_response_def wire_response_ok_def)
  then have "decode_wire_message mp bytes = Returns (Ok (WResponse fixture_response))"
    using b(2) by (simp add: decode_wire_message_def map_run_def)
  moreover have "map (\<lambda>c. of_nat (of_char c)) (map (\<lambda>b. char_of (unat b)) (encode_hex bytes)) = encode_hex bytes"
    using byte_less by (simp add: comp_def map_idI)
  ultimately show ?thesis using b(1) decode_encode_hex [of bytes] by (simp add: codec_fixture_def)
qed

section \<open>Samples\<close>

definition METHODS :: "string list" where
  "METHODS = [''gateway/hello'', ''gateway/spawn_agent'', ''gateway/kill_agent'', ''gateway/detach_agent'',
     ''gateway/attach_agent'', ''gateway/list_agents'', ''gateway/register_proxy'', ''gateway/unregister_proxy'',
     ''gateway/register_stream_proxy'', ''gateway/unregister_stream_proxy'', ''agent/invoke'',
     ''initialize'', ''initialized'', ''process/start'', ''process/read'', ''process/write'', ''process/terminate'',
     ''fs/read_file'', ''fs/write_file'', ''fs/create_directory'', ''fs/get_metadata'', ''fs/read_directory'',
     ''fs/remove'', ''fs/copy'', ''proxy/register'', ''proxy/unregister'']"

definition sample_params_json :: "string \<Rightarrow> sjson" where
  "sample_params_json m =
     (if m = ''gateway/hello'' then
        sobject [(''access_key'', SString ''ak''), (''client_name'', SString ''rust-client''), (''ts'', SNumber 1),
          (''nonce'', SString ''n''), (''signature'', SString ''s'')]
      else if m = ''gateway/spawn_agent'' then
        sobject [(''name'', SString ''agent''), (''env'', sobject []), (''labels'', sobject []), (''extra_ports'', SArray [])]
      else if m \<in> {''gateway/kill_agent'', ''gateway/detach_agent''} then sobject [(''agent_id'', SString ''agent-1'')]
      else if m = ''gateway/attach_agent'' then sobject [(''container_name'', SString ''container-1'')]
      else if m \<in> {''gateway/list_agents'', ''initialized''} then sobject []
      else if m = ''gateway/register_proxy'' then
        sobject [(''agent_id'', SString ''agent-1''), (''name'', SString ''proxy''),
          (''upstream_url'', SString ''https://example.com''), (''headers'', sobject [])]
      else if m \<in> {''gateway/unregister_proxy'', ''gateway/unregister_stream_proxy''} then
        sobject [(''agent_id'', SString ''agent-1''), (''name'', SString ''proxy'')]
      else if m = ''gateway/register_stream_proxy'' then
        sobject [(''agent_id'', SString ''agent-1''), (''name'', SString ''tcp''), (''container_port'', SNumber 3000)]
      else if m = ''agent/invoke'' then
        sobject [(''agent_id'', SString ''agent-1''), (''method'', SString ''initialize''),
          (''params'', sobject [(''client_name'', SString ''rust-client'')])]
      else if m = ''initialize'' then sobject [(''client_name'', SString ''rust-client'')]
      else if m = ''process/start'' then
        sobject [(''process_id'', SString ''p1''), (''argv'', SArray [SString ''true'']), (''cwd'', SString ''/workspace''),
          (''env'', sobject []), (''tty'', SBool False), (''arg0'', SNull)]
      else if m = ''process/read'' then
        sobject [(''process_id'', SString ''p1''), (''after_seq'', SNumber 0), (''max_bytes'', SNumber 1024), (''wait_ms'', SNumber 0)]
      else if m = ''process/write'' then
        sobject [(''process_id'', SString ''p1''), (''chunk'', SArray [SNumber 104, SNumber 105])]
      else if m = ''process/terminate'' then sobject [(''process_id'', SString ''p1'')]
      else if m \<in> {''fs/read_file'', ''fs/get_metadata'', ''fs/read_directory''} then
        sobject [(''path'', SString ''/workspace/file.txt'')]
      else if m = ''fs/write_file'' then
        sobject [(''path'', SString ''/workspace/file.txt''), (''data'', SArray [SNumber 104, SNumber 105])]
      else if m = ''fs/create_directory'' then sobject [(''path'', SString ''/workspace/dir''), (''recursive'', SBool True)]
      else if m = ''fs/remove'' then
        sobject [(''path'', SString ''/workspace/file.txt''), (''recursive'', SBool True), (''force'', SBool True)]
      else if m = ''fs/copy'' then
        sobject [(''sourcePath'', SString ''/workspace/a''), (''destinationPath'', SString ''/workspace/b''), (''recursive'', SBool True)]
      else if m = ''proxy/register'' then
        sobject [(''socket_path'', SString ''/run/nexal/proxy/p.socket''), (''upstream_url'', SString ''https://example.com''),
          (''headers'', sobject [])]
      else if m = ''proxy/unregister'' then sobject [(''socket_path'', SString ''/run/nexal/proxy/p.socket'')]
      else sobject [])"

definition sample_params :: "Msgpack \<Rightarrow> string \<Rightarrow> value run" where
  "sample_params mp m = json_value mp (sample_params_json m)"

definition ok_json :: sjson where
  "ok_json = sobject [(''ok'', SBool True)]"

definition gateway_sample :: "GatewayMethod \<Rightarrow> sjson" where
  "gateway_sample m =
     (case m of
        Hello \<Rightarrow> sobject [(''ok'', SBool True), (''gateway_version'', SString ''test'')]
      | SpawnAgent \<Rightarrow> sobject [(''agent_id'', SString ''agent-1''), (''container_name'', SString ''container-1'')]
      | AttachAgent \<Rightarrow> sobject [(''agent_id'', SString ''agent-1''), (''container_name'', SString ''container-1'')]
      | KillAgent \<Rightarrow> ok_json | DetachAgent \<Rightarrow> ok_json | UnregisterProxy \<Rightarrow> ok_json | UnregisterStreamProxy \<Rightarrow> ok_json
      | ListAgents \<Rightarrow> sobject [(''agents'', SArray [sobject [(''agent_id'', SString ''agent-1''),
          (''container_name'', SString ''container-1''), (''created_at_unix_ms'', SNumber 1)]])]
      | RegisterProxy \<Rightarrow> sobject [(''token'', SString ''token-1''), (''socket_path'', SString ''/run/nexal/proxy/test.socket'')]
      | RegisterStreamProxy \<Rightarrow> sobject [(''listen_addr'', SString ''127.0.0.1:12345'')]
      | AgentInvoke \<Rightarrow> ok_json)"

definition agent_sample :: "AgentMethod \<Rightarrow> sjson" where
  "agent_sample m =
     (case m of
        Initialize \<Rightarrow> sobject [(''default_shell'', SString ''/bin/bash''), (''cwd'', SString ''/workspace'')]
      | Initialized \<Rightarrow> SNull
      | ProcessStart \<Rightarrow> sobject [(''process_id'', SString ''p1'')]
      | ProcessRead \<Rightarrow> sobject [(''chunks'', SArray []), (''next_seq'', SNumber 0), (''exited'', SBool True),
          (''exit_code'', SNumber 0), (''closed'', SBool True), (''failure'', SNull)]
      | ProcessWrite \<Rightarrow> sobject [(''status'', SString ''accepted'')]
      | ProcessTerminate \<Rightarrow> sobject [(''running'', SBool False)]
      | FsReadFile \<Rightarrow> sobject [(''data'', SArray [SNumber 104, SNumber 105])]
      | FsWriteFile \<Rightarrow> sobject [] | FsCreateDirectory \<Rightarrow> sobject [] | FsRemove \<Rightarrow> sobject [] | FsCopy \<Rightarrow> sobject []
      | FsGetMetadata \<Rightarrow> sobject [(''isDirectory'', SBool False), (''isFile'', SBool True), (''createdAtMs'', SNumber 1),
          (''modifiedAtMs'', SNumber 2)]
      | FsReadDirectory \<Rightarrow> sobject [(''entries'', SArray [sobject [(''fileName'', SString ''file.txt''),
          (''isDirectory'', SBool False), (''isFile'', SBool True)]])]
      | ProxyRegister \<Rightarrow> ok_json | ProxyUnregister \<Rightarrow> ok_json)"

definition sample_result_json :: "string \<Rightarrow> sjson" where
  "sample_result_json m =
     (case gateway_parse m of
        Some g \<Rightarrow> gateway_sample g
      | None \<Rightarrow>
          (case agent_parse m of
             Some a \<Rightarrow> agent_sample a
           | None \<Rightarrow> sobject [(''ok'', SBool False), (''unknown'', SString m)]))"

definition sample_result :: "Msgpack \<Rightarrow> string \<Rightarrow> value run" where
  "sample_result mp m = json_value mp (sample_result_json m)"

section \<open>The method server\<close>

definition request_id :: "value \<Rightarrow> value" where
  "request_id v = (case map_get v ''id'' of None \<Rightarrow> VNil | Some i \<Rightarrow> i)"

definition request_method :: "value \<Rightarrow> string" where
  "request_method v = (case Option.bind (map_get v ''method'') as_str of None \<Rightarrow> [] | Some m \<Rightarrow> m)"

definition method_response :: "value \<Rightarrow> value \<Rightarrow> value" where
  "method_response v result = VMap [(VString ''id'', request_id v), (VString ''result'', result)]"

text \<open>One message of the client: what is sent (nothing when the write fails) and whether the loop goes
  on.\<close>

definition server_turn :: "Msgpack \<Rightarrow> bool \<Rightarrow> ws_item \<Rightarrow> (ws_message list \<times> bool) run" where
  "server_turn mp write_ok item =
     (case item of
        Inl _ \<Rightarrow> Returns ([], False)
      | Inr WsClose \<Rightarrow> Returns ([], False)
      | Inr WsPing \<Rightarrow> Returns (if write_ok then [WsPong] else [], True)
      | Inr (WsBinary bytes) \<Rightarrow>
          (case mp_read mp bytes of
             Inl _ \<Rightarrow> Returns ([], True)
           | Inr v \<Rightarrow>
               (case sample_result mp (request_method v) of
                  Panics \<Rightarrow> Panics
                | Returns result \<Rightarrow>
                    (case mp_write mp (method_response v result) of
                       Inl _ \<Rightarrow> Panics
                     | Inr bytes \<Rightarrow> Returns (if write_ok then ([WsBinary bytes], True) else ([], False)))))
      | Inr _ \<Rightarrow> Returns ([], True))"

fun method_server :: "Msgpack \<Rightarrow> (ws_item \<times> bool) list \<Rightarrow> ws_message list run" where
  "method_server mp [] = Returns []"
| "method_server mp ((item, write_ok) # items) =
     (case server_turn mp write_ok item of
        Panics \<Rightarrow> Panics
      | Returns (sent, go_on) \<Rightarrow>
          if go_on then map_run (append sent) (method_server mp items) else Returns sent)"

section \<open>The method client\<close>

definition method_request :: "string \<Rightarrow> string \<Rightarrow> value \<Rightarrow> value" where
  "method_request i m params =
     VMap [(VString ''id'', VString i), (VString ''method'', VString m), (VString ''params'', params)]"

text \<open>The first binary message is the response; the end of the stream and an error panic.\<close>

fun await_response :: "Msgpack \<Rightarrow> ws_item list \<Rightarrow> value run" where
  "await_response mp [] = Panics"
| "await_response mp (Inl _ # items) = Panics"
| "await_response mp (Inr (WsBinary bytes) # items) = (case mp_read mp bytes of Inl _ \<Rightarrow> Panics | Inr v \<Rightarrow> Returns v)"
| "await_response mp (Inr _ # items) = await_response mp items"

definition check_response :: "(value \<Rightarrow> string) \<Rightarrow> string \<Rightarrow> string \<Rightarrow> value \<Rightarrow> program_end option" where
  "check_response dbg i m response =
     (let got_id = (case Option.bind (map_get response ''id'') as_str of None \<Rightarrow> [] | Some s \<Rightarrow> s)
      in if got_id \<noteq> i then Some (Exits 1 (''id mismatch for '' @ m @ '': expected '' @ i @ '', got '' @ got_id))
         else if map_get response ''error'' \<noteq> None \<or> map_get response ''result'' = None
         then Some (Exits 1 (''bad response for '' @ m @ '': '' @ dbg response))
         else None)"

text \<open>The loop over the methods.  \<open>peer\<close> is the other side: what arrives after a frame was sent,
  \<open>None\<close> when sending fails.\<close>

fun client_loop ::
  "Msgpack \<Rightarrow> (value \<Rightarrow> string) \<Rightarrow> (byte list \<Rightarrow> ws_item list option) \<Rightarrow> nat \<Rightarrow> string list \<Rightarrow> program_end run" where
  "client_loop mp dbg peer idx [] = Returns (Prints (''ok '' @ dec (length METHODS)))"
| "client_loop mp dbg peer idx (m # ms) =
     (case sample_params mp m of
        Panics \<Rightarrow> Panics
      | Returns params \<Rightarrow>
          (case mp_write mp (method_request (''req-'' @ dec idx) m params) of
             Inl _ \<Rightarrow> Panics
           | Inr bytes \<Rightarrow>
               (case peer bytes of
                  None \<Rightarrow> Panics
                | Some items \<Rightarrow>
                    (case await_response mp items of
                       Panics \<Rightarrow> Panics
                     | Returns response \<Rightarrow>
                         (case check_response dbg (''req-'' @ dec idx) m response of
                            Some e \<Rightarrow> Returns e
                          | None \<Rightarrow> client_loop mp dbg peer (idx + 1) ms)))))"

definition method_client ::
  "Msgpack \<Rightarrow> (value \<Rightarrow> string) \<Rightarrow> (string \<Rightarrow> (byte list \<Rightarrow> ws_item list option) option) \<Rightarrow> string list \<Rightarrow> program_end run" where
  "method_client mp dbg connect args =
     (case args of
        [] \<Rightarrow> Returns (Exits 2 ''usage: transport-method-client <ws-url>'')
      | url # _ \<Rightarrow>
          (case connect url of None \<Rightarrow> Panics | Some peer \<Rightarrow> client_loop mp dbg peer 0 METHODS))"

section \<open>The programs together\<close>

definition reads_back :: "Msgpack \<Rightarrow> value \<Rightarrow> bool" where
  "reads_back mp v \<longleftrightarrow> (case mp_write mp v of Inl _ \<Rightarrow> False | Inr bytes \<Rightarrow> mp_read mp bytes = Ok v)"

definition fixture_peer :: "Msgpack \<Rightarrow> byte list \<Rightarrow> ws_item list option" where
  "fixture_peer mp bytes =
     (case server_turn mp True (Ok (WsBinary bytes)) of Panics \<Rightarrow> None | Returns (sent, _) \<Rightarrow> Some (map Ok sent))"

definition call_values :: "nat \<Rightarrow> string \<Rightarrow> value list" where
  "call_values idx m =
     (let p = json_mp (sample_params_json m); r = json_mp (sample_result_json m);
          q = method_request (''req-'' @ dec idx) m p
      in [p, r, q, method_response q r])"

lemma json_value_reads_back: "reads_back mp (json_mp j) \<Longrightarrow> json_value mp j = Returns (json_mp j)"
  by (auto simp: reads_back_def json_value_def split: sum.splits)

lemma call_succeeds:
  assumes "\<forall>v \<in> set (call_values idx m). reads_back mp v"
  shows "client_loop mp dbg (fixture_peer mp) idx (m # ms) = client_loop mp dbg (fixture_peer mp) (idx + 1) ms"
proof -
  let ?p = "json_mp (sample_params_json m)" and ?r = "json_mp (sample_result_json m)" and ?i = "''req-'' @ dec idx"
  let ?q = "method_request ?i m ?p"
  have r: "reads_back mp ?p" "reads_back mp ?r" "reads_back mp ?q" "reads_back mp (method_response ?q ?r)"
    using assms by (simp_all add: call_values_def Let_def)
  obtain bq ba where b: "mp_write mp ?q = Ok bq" "mp_read mp bq = Ok ?q"
      "mp_write mp (method_response ?q ?r) = Ok ba" "mp_read mp ba = Ok (method_response ?q ?r)"
    using r(3,4) by (auto simp: reads_back_def split: sum.splits)
  have "request_method ?q = m" by (simp add: request_method_def method_request_def map_get_def as_map_def)
  then have "fixture_peer mp bq = Some [Ok (WsBinary ba)]"
    using b json_value_reads_back [OF r(2)] by (simp add: fixture_peer_def server_turn_def sample_result_def)
  moreover have "check_response dbg ?i m (method_response ?q ?r) = None"
    by (simp add: check_response_def method_response_def request_id_def method_request_def map_get_def as_map_def)
  ultimately show ?thesis
    using b json_value_reads_back [OF r(1)] by (simp add: sample_params_def)
qed

text \<open>The methods that the client calls are those of the two method tables, all of them; the client and the
  server succeed together.\<close>

lemma methods_are_tables: "METHODS = map gateway_as_str gateway_all @ map agent_as_str agent_all"
  by (simp add: METHODS_def gateway_all_def agent_all_def gateway_as_str_def agent_as_str_def)

lemma client_loop_succeeds:
  assumes "\<forall>(i, m) \<in> set (enumerate idx ms). \<forall>v \<in> set (call_values i m). reads_back mp v"
  shows "client_loop mp dbg (fixture_peer mp) idx ms = Returns (Prints (''ok '' @ dec (length METHODS)))"
  using assms
proof (induction ms arbitrary: idx)
  case (Cons m ms)
  then show ?case using call_succeeds [of idx m mp dbg ms] by simp
qed simp

lemma fixtures_agree:
  assumes "\<forall>(i, m) \<in> set (enumerate 0 METHODS). \<forall>v \<in> set (call_values i m). reads_back mp v"
  shows "method_client mp dbg (\<lambda>_. Some (fixture_peer mp)) [url] = Returns (Prints ''ok 26'')"
proof -
  have "''ok '' @ dec (length METHODS) = ''ok 26''" by code_simp
  then show ?thesis using client_loop_succeeds [OF assms, of dbg] by (simp add: method_client_def)
qed

section \<open>The samples against the types\<close>

text \<open>Which values a type accepts; bytes may also be an array of numbers.\<close>

function fits :: "wty \<Rightarrow> value \<Rightarrow> bool" where
  "fits (TyOption t) x = (x = VNil \<or> fits t x)"
| "fits (TyVec t) x = (case x of VArray xs \<Rightarrow> list_all (fits t) xs | _ \<Rightarrow> False)"
| "fits (TyStruct gs) x =
     (case string_keys x of
        None \<Rightarrow> False
      | Some m \<Rightarrow> list_all (\<lambda>g. case map_of m (fl_name g) of Some y \<Rightarrow> fits (fl_type g) y | None \<Rightarrow> missing g \<noteq> None) gs)"
| "fits TyString x = (as_str x \<noteq> None)"
| "fits TyPath x = (as_str x \<noteq> None)"
| "fits TyAbsPath x = (as_str x \<noteq> None)"
| "fits TyBool x = (case x of VBoolean _ \<Rightarrow> True | _ \<Rightarrow> False)"
| "fits (TyInt lo hi) x = (case x of VInteger i \<Rightarrow> lo \<le> i \<and> i \<le> hi | _ \<Rightarrow> False)"
| "fits TyBytes x =
     (case x of
        VBinary _ \<Rightarrow> True
      | VArray xs \<Rightarrow> list_all (\<lambda>y. case y of VInteger i \<Rightarrow> 0 \<le> i \<and> i < 256 | _ \<Rightarrow> False) xs
      | _ \<Rightarrow> False)"
| "fits TyValue x = True"
| "fits TyUnit x = (x = VNil)"
| "fits TyStringMap x = (case string_keys x of None \<Rightarrow> False | Some m \<Rightarrow> list_all (\<lambda>(_, y). as_str y \<noteq> None) m)"
| "fits (TyEnum ns) x = (case x of VString n \<Rightarrow> n \<in> set ns | _ \<Rightarrow> False)"
  by pat_completeness auto

termination fits by (relation "measure (size \<circ> fst)") (auto intro: fl_type_size)

text \<open>Every sample has the type of its method, except the parameters of the two methods without
  parameters, where the client sends an empty map and the types expect nil.\<close>

lemma gateway_samples_typed:
  "filter (\<lambda>m. \<not> fits (t_gateway_params m) (json_mp (sample_params_json (gateway_as_str m)))) gateway_all = [ListAgents]"
  "filter (\<lambda>m. \<not> fits (t_gateway_result m) (json_mp (gateway_sample m))) gateway_all = []"
  by code_simp+

lemma agent_samples_typed:
  "filter (\<lambda>m. \<not> fits (t_agent_params m) (json_mp (sample_params_json (agent_as_str m)))) agent_all = [Initialized]"
  "filter (\<lambda>m. \<not> fits (t_agent_result m) (json_mp (agent_sample m))) agent_all = []"
  by code_simp+

end
