(* ===== verification/Exec_Handles.thy ===== *)
theory Exec_Handles
  imports Agent_Listener
begin

text \<open>
  Processes as objects: the traits \<^verbatim>\<open>ExecBackend\<close> and \<^verbatim>\<open>ExecProcess\<close> of
  \<^verbatim>\<open>nexal-agent/src/process/mod.rs\<close> and their implementation by the local process
  service, which an \<^verbatim>\<open>Environment\<close> hands out.  A handle keeps the id of its process, the
  shared service and the sending end of the process's wake channel; the wake channel belongs to one
  spawned session, so it is named by the session.
\<close>

section \<open>Handles\<close>

record LocalExecProcess =
  le_process_id :: ProcessId
  le_wake :: nat

text \<open>\<^verbatim>\<open>LocalProcess::default\<close>: a service whose notifications nobody reads.\<close>

definition local_process_default :: LocalProcess where
  "local_process_default = lp_new"

definition backend_start ::
  "ExecParams \<Rightarrow> (string, nat) result \<Rightarrow> LocalProcess \<Rightarrow> LocalProcess \<times> (ExecServerError, LocalExecProcess) result" where
  "backend_start params spawned_result s =
     (case start_process params spawned_result s of
        (s, Inl e) \<Rightarrow> (s, Err (map_handler_error e))
      | (s, Inr process_id) \<Rightarrow>
          (s, case spawned_result of
                Inl err \<Rightarrow> Err (map_handler_error (internal_error err))
              | Inr session \<Rightarrow> Ok \<lparr>le_process_id = process_id, le_wake = session\<rparr>))"

definition exec_handle_process_id :: "LocalExecProcess \<Rightarrow> ProcessId" where
  "exec_handle_process_id h = le_process_id h"

definition subscribe_wake :: "LocalExecProcess \<Rightarrow> nat" where
  "subscribe_wake h = le_wake h"

definition local_read ::
  "ProcessId \<Rightarrow> nat option \<Rightarrow> nat option \<Rightarrow> nat option \<Rightarrow> nat \<Rightarrow> LocalProcess \<Rightarrow> (LocalProcess \<times> nat \<times> nat) list \<Rightarrow>
     (ExecServerError, ReadResponse) result option" where
  "local_read process_id after_seq max_bytes wait_ms now s observations =
     map_option (\<lambda>r. case r of Inl e \<Rightarrow> Err (map_handler_error e) | Inr resp \<Rightarrow> Ok resp)
       (exec_read \<lparr>rd_process_id = process_id, rd_after_seq = after_seq, rd_max_bytes = max_bytes, rd_wait_ms = wait_ms\<rparr>
          now s observations)"

definition local_write :: "ProcessId \<Rightarrow> byte list \<Rightarrow> bool \<Rightarrow> LocalProcess \<Rightarrow> LocalProcess \<times> (ExecServerError, WriteStatus) result" where
  "local_write process_id chunk send_ok s =
     (case exec_write \<lparr>wp_process_id = process_id, wp_chunk = chunk\<rparr> send_ok s of
        (s, Inl e) \<Rightarrow> (s, Err (map_handler_error e))
      | (s, Inr r) \<Rightarrow> (s, Ok r))"

definition local_terminate :: "ProcessId \<Rightarrow> LocalProcess \<Rightarrow> LocalProcess \<times> (ExecServerError, unit) result" where
  "local_terminate process_id s =
     (case terminate_process process_id s of
        (s, Inl e) \<Rightarrow> (s, Err (map_handler_error e))
      | (s, Inr _) \<Rightarrow> (s, Ok ()))"

definition exec_handle_read where
  "exec_handle_read h after_seq max_bytes wait_ms = local_read (le_process_id h) after_seq max_bytes wait_ms"

definition exec_handle_write where
  "exec_handle_write h chunk = local_write (le_process_id h) chunk"

definition exec_handle_terminate where
  "exec_handle_terminate h = local_terminate (le_process_id h)"

section \<open>What a handle gives\<close>

definition ready :: "LocalProcess \<Rightarrow> bool" where
  "ready s \<longleftrightarrow> lp_initialize_requested s \<and> lp_initialized s"

lemma environment_handshake:
  "environment_create shell cwd = Ok p \<longleftrightarrow>
     p = fst (initialized (fst (initialize shell cwd local_process_default)))"
  by (auto simp: environment_create_def initialize_def initialized_def lp_new_def local_process_default_def)

lemma environment_is_ready: "environment_create shell cwd = Ok p \<Longrightarrow> ready p"
  by (auto simp: environment_create_def initialize_def initialized_def lp_new_def ready_def)

lemma ready_gate: "ready s \<Longrightarrow> require_initialized_for fam s = Ok ()"
  by (simp add: ready_def require_initialized_for_def)

text \<open>On the service of an environment a handle is obtained exactly when the arguments name a program, the
  id is free and the spawn succeeds; the handle then belongs to the process under this id.\<close>

lemma backend_start_iff:
  assumes "ready s"
  shows "(\<exists>s'. backend_start params spawned s = (s', Ok h)) \<longleftrightarrow>
    xp_argv params \<noteq> [] \<and> hm_get (lp_processes s) (xp_process_id params) = None \<and>
    (\<exists>session. spawned = Ok session \<and> h = \<lparr>le_process_id = xp_process_id params, le_wake = session\<rparr>)"
  by (auto simp: backend_start_def start_process_def start_reserve_def start_finish_def ready_gate [OF assms]
      split: list.splits option.splits sum.splits)

lemma backend_start_owns:
  assumes "backend_start params spawned s = (s', Ok h)"
  shows "\<exists>p. hm_get (lp_processes s') (le_process_id h) = Some (Running p) \<and> rp_session p = le_wake h \<and> rp_wake p = 0 \<and>
    rp_output p = [] \<and> rp_exit_code p = None"
  using assms
  by (auto simp: backend_start_def start_process_def start_reserve_def start_finish_def fresh_process_def
      split: list.splits option.splits sum.splits prod.splits if_splits)

text \<open>Operations on the process that the table has under the handle's id never fail, but for a writer that
  is gone; without an entry, reading fails and the other two report nothing.\<close>

lemma handle_operations:
  assumes r: "ready s" and e: "hm_get (lp_processes s) (le_process_id h) = Some (Running p)"
  shows "exec_handle_read h after_seq max_bytes None now s ((s, now, now') # obs) =
      Some (Ok (read_snapshot (option_or after_seq 0) (option_or max_bytes USIZE_MAX) p))"
    and "\<not> rp_tty p \<Longrightarrow> exec_handle_write h chunk ok s = (s, Ok StatusStdinClosed)"
    and "rp_tty p \<Longrightarrow> exec_handle_write h chunk True s = (s\<lparr>lp_stdin := lp_stdin s @ [(rp_session p, chunk)]\<rparr>, Ok StatusAccepted)"
    and "exec_handle_terminate h s =
      (if rp_exit_code p = None then s\<lparr>lp_terminated := lp_terminated s @ [rp_session p]\<rparr> else s, Ok ())"
  using e by (simp_all add: exec_handle_read_def local_read_def exec_read_def exec_handle_write_def local_write_def exec_write_def
      exec_handle_terminate_def local_terminate_def terminate_process_def read_once_def option_or_def ready_gate [OF r])

lemma handle_without_process:
  assumes r: "ready s" and e: "hm_get (lp_processes s) (le_process_id h) = None"
  shows "exec_handle_read h after_seq max_bytes wait_ms now s ((s, now1, now2) # obs) =
      Some (Err (map_handler_error (invalid_request (''unknown process id '' @ le_process_id h))))"
    and "exec_handle_write h chunk ok s = (s, Ok StatusUnknownProcess)"
    and "exec_handle_terminate h s = (s, Ok ())"
  using e by (simp_all add: exec_handle_read_def local_read_def exec_read_def exec_handle_write_def local_write_def exec_write_def
      exec_handle_terminate_def local_terminate_def terminate_process_def read_once_def ready_gate [OF r] split: prod.splits)

section \<open>The wake channel\<close>

text \<open>The value of the wake channel is the number of the last event, so it rises with every event and a
  subscriber that compares it misses none.\<close>

definition wake_ok :: "RunningProcess \<Rightarrow> bool" where
  "wake_ok p \<longleftrightarrow> rp_wake p < rp_next_seq p"

definition woken :: "RunningProcess \<Rightarrow> RunningProcess \<Rightarrow> bool" where
  "woken p p' \<longleftrightarrow> wake_ok p' \<and> rp_wake p < rp_wake p' \<and> rp_next_seq p' = rp_wake p' + 1"

lemma push_chunk_wakes: "wake_ok p \<Longrightarrow> woken p (fst (push_chunk stream chunk p))"
  by (simp add: push_chunk_def Let_def woken_def wake_ok_def split: prod.split)

lemma wakes:
  assumes "wake_ok p"
  shows "woken p (fst (push_chunk stream chunk p))" "woken p (fst (record_exit code p))"
    "snd (close_if_done p) = Some seq \<Longrightarrow> woken p (fst (close_if_done p))"
    "snd (close_if_done p) = None \<Longrightarrow> fst (close_if_done p) = p"
    "rp_wake (close_stream p) = rp_wake p \<and> wake_ok (close_stream p)"
  using assms push_chunk_wakes [OF assms]
  by (auto simp: record_exit_def close_if_done_def close_stream_def woken_def wake_ok_def split: if_splits)

lemma fresh_process_wake_ok: "wake_ok (fresh_process session tty)"
  by (simp add: wake_ok_def fresh_process_def)

section \<open>Handles that outlive their process\<close>

text \<open>A handle addresses its process by id.  When the process has exited and was removed and the id is
  started again, the old handle reads, feeds and terminates the new process, while its wake channel
  is still that of the old one.\<close>

lemma stale_handle_controls_successor:
  assumes "ready s" "backend_start params (Ok session) s = (s1, Ok old)"
    and "ready s2" "backend_start params (Ok session') s2 = (s3, Ok new)" "ready s3"
  shows "exec_handle_terminate old s3 = (s3\<lparr>lp_terminated := lp_terminated s3 @ [session']\<rparr>, Ok ())"
    and "subscribe_wake old = session"
proof -
  have o: "old = \<lparr>le_process_id = xp_process_id params, le_wake = session\<rparr>"
    using assms(2) backend_start_iff [OF assms(1)] by (metis sum.inject(2))
  have n: "new = \<lparr>le_process_id = xp_process_id params, le_wake = session'\<rparr>"
    using assms(4) backend_start_iff [OF assms(3)] by (metis sum.inject(2))
  obtain p where p: "hm_get (lp_processes s3) (xp_process_id params) = Some (Running p)" "rp_session p = session'" "rp_exit_code p = None"
    using backend_start_owns [OF assms(4)] n by auto
  show "exec_handle_terminate old s3 = (s3\<lparr>lp_terminated := lp_terminated s3 @ [session']\<rparr>, Ok ())"
    using handle_operations(4) [OF assms(5), of old p] p o by simp
  show "subscribe_wake old = session" by (simp add: subscribe_wake_def o)
qed

end
