(* ===== verification/Registry_Containers.thy ===== *)
theory Registry_Containers
  imports Agent_Registry Podman
begin

text \<open>
  The registry of \<^verbatim>\<open>registry.rs\<close> on the Podman backend: histories of its operations,
  with the pool's background task, against the containers that the engine has.  Under an engine that
  behaves as documented the containers of the registered agents and of the pool are present, as
  long as no agent is killed whose container another one uses.
\<close>

section \<open>Histories\<close>

type_synonym dialler = "string \<Rightarrow> string \<Rightarrow> (AgentConnError, AgentConn) result"

datatype registry_event =
    RSpawn string nat dialler SpawnAgentParams | RAttach string nat dialler string
  | RDetach string | RKill string | RWarm | RDetachAll

text \<open>A creation by the task that keeps the pool filled.  An operation of the registry is one event here:
  its awaits are not interleaved with other operations.\<close>

definition registry_warm :: "'w ContainerBackend \<Rightarrow> 'w AgentRegistry \<Rightarrow> 'w AgentRegistry" where
  "registry_warm be r =
     (case ar_warm_pool r of
        None \<Rightarrow> r
      | Some pool \<Rightarrow>
          (case pool_create_one be pool (ar_world r) of
             (pool, w, _) \<Rightarrow> r\<lparr>ar_warm_pool := Some pool, ar_world := w\<rparr>))"

fun registry_step :: "'w ContainerBackend \<Rightarrow> registry_event \<Rightarrow> 'w AgentRegistry \<Rightarrow> 'w AgentRegistry" where
  "registry_step be (RSpawn i t dial p) r = fst (spawn be i t dial p r)"
| "registry_step be (RAttach i t dial n) r = fst (attach be i t dial n r)"
| "registry_step be (RDetach i) r = fst (detach i r)"
| "registry_step be (RKill i) r = fst (kill be i r)"
| "registry_step be RWarm r = registry_warm be r"
| "registry_step be RDetachAll r = detach_all be r"

fun registry_history :: "'w ContainerBackend \<Rightarrow> registry_event list \<Rightarrow> 'w AgentRegistry \<Rightarrow> 'w AgentRegistry" where
  "registry_history be [] r = r"
| "registry_history be (ev # evs) r = registry_history be evs (registry_step be ev r)"

section \<open>Containers in use\<close>

definition agent_containers :: "'w AgentRegistry \<Rightarrow> string set" where
  "agent_containers r = {n. \<exists>i e. hm_get (ar_inner r) i = Some e \<and> ae_container_name e = n}"

definition idle_containers :: "'w AgentRegistry \<Rightarrow> string set" where
  "idle_containers r = (case ar_warm_pool r of None \<Rightarrow> {} | Some pool \<Rightarrow> ch_name ` set (wp_available pool))"

definition in_use :: "'w AgentRegistry \<Rightarrow> string set" where
  "in_use r = agent_containers r \<union> idle_containers r"

text \<open>A kill is shared when somebody else uses the container that it destroys.\<close>

definition shared_kill :: "registry_event \<Rightarrow> 'w AgentRegistry \<Rightarrow> bool" where
  "shared_kill ev r =
     (case ev of
        RKill i \<Rightarrow>
          (case hm_get (ar_inner r) i of
             None \<Rightarrow> False
           | Some e \<Rightarrow> ae_container_name e \<in> in_use (r\<lparr>ar_inner := hm_remove i (ar_inner r)\<rparr>))
      | _ \<Rightarrow> False)"

fun no_shared_kill :: "'w ContainerBackend \<Rightarrow> registry_event list \<Rightarrow> 'w AgentRegistry \<Rightarrow> bool" where
  "no_shared_kill be [] r \<longleftrightarrow> True"
| "no_shared_kill be (ev # evs) r \<longleftrightarrow> \<not> shared_kill ev r \<and> no_shared_kill be evs (registry_step be ev r)"

lemma in_use_world [simp]: "in_use (r\<lparr>ar_world := w\<rparr>) = in_use r"
  by (simp add: in_use_def agent_containers_def idle_containers_def)

lemma dial_uses:
  "in_use (fst (dial_and_register i t dial h r)) \<subseteq> insert (ch_name h) (in_use r)"
  "ar_world (fst (dial_and_register i t dial h r)) = ar_world r"
  by (auto simp: dial_and_register_def Let_def in_use_def agent_containers_def idle_containers_def
      split: sum.splits if_splits)

lemma agent_containers_pool [simp]: "agent_containers (r\<lparr>ar_warm_pool := p\<rparr>) = agent_containers r"
  by (simp add: agent_containers_def)

lemma take_warm_cases:
  assumes "take_warm p r = (r', h)"
  shows "r' = r \<and> h = None \<or> (\<exists>pool hs y. ar_warm_pool r = Some pool \<and> wp_available pool = hs @ [y] \<and> h = Some y \<and>
    r' = r\<lparr>ar_warm_pool := Some (pool\<lparr>wp_available := hs\<rparr>)\<rparr>)"
proof (cases "ar_warm_pool r")
  case None
  then show ?thesis using assms by (auto simp: take_warm_def split: if_splits)
next
  case (Some pool)
  then have "r\<lparr>ar_warm_pool := Some pool\<rparr> = r" by simp
  then show ?thesis
    using assms Some by (cases "wp_available pool" rule: rev_cases)
      (auto simp: take_warm_def pool_take_Nil pool_take_snoc split: if_splits)
qed

lemma take_warm_uses:
  assumes "take_warm p r = (r', h)"
  shows "in_use r' \<subseteq> in_use r" "h = Some x \<Longrightarrow> ch_name x \<in> in_use r" "ar_world r' = ar_world r"
  using take_warm_cases [OF assms] by (auto simp: in_use_def idle_containers_def)

section \<open>On Podman\<close>

definition containers_present :: "('w \<Rightarrow> string \<Rightarrow> bool) \<Rightarrow> 'w AgentRegistry \<Rightarrow> bool" where
  "containers_present has r \<longleftrightarrow> (\<forall>n \<in> in_use r. has (ar_world r) n)"

lemma ensure_present:
  assumes "podman_engine has host self" "podman_ensure host self spec w = (w', res)" "has w n"
  shows "has w' n"
  using podman_ensure_life(1,2) [OF assms(1,2)] assms(3) by (cases "n = cs_name spec") auto

lemma spawn_present:
  assumes eng: "podman_engine has host self" and p: "containers_present has r"
  shows "containers_present has (fst (spawn (podman_backend host self) i t dial sp r))"
proof -
  obtain r1 h where tw: "take_warm sp r = (r1, h)" by force
  note u = take_warm_uses [OF tw]
  show ?thesis
  proof (cases h)
    case (Some x)
    then show ?thesis
      using p u dial_uses [of i t dial x r1] by (fastforce simp: spawn_def tw containers_present_def)
  next
    case None
    let ?spec = "spawn_spec (ar_spawn_defaults r1) sp"
    obtain w res where e: "podman_ensure host self ?spec (ar_world r1) = (w, res)" by force
    have keep: "\<forall>n \<in> in_use r1. has w n" using ensure_present [OF eng e] p u by (auto simp: containers_present_def)
    show ?thesis
    proof (cases res)
      case (Inl err)
      then show ?thesis using e None keep by (simp add: spawn_def tw podman_backend_def containers_present_def)
    next
      case (Inr x)
      have "has w (ch_name x)"
        using podman_ensure_life(3) [OF eng e] podman_ensure_name [of host self ?spec "ar_world r1" w x] e Inr by simp
      then show ?thesis
        using e None keep Inr dial_uses [of i t dial x "r1\<lparr>ar_world := w\<rparr>"]
        by (fastforce simp: spawn_def tw podman_backend_def containers_present_def)
    qed
  qed
qed

lemma attach_present:
  assumes eng: "podman_engine has host self" and p: "containers_present has r"
  shows "containers_present has (fst (attach (podman_backend host self) i t dial n r))"
proof -
  let ?spec = "attach_spec (ar_spawn_defaults r) n"
  obtain w1 f where f: "container_exists host self n (ar_world r) = (w1, f)" by force
  obtain w2 g where g: "podman_ensure host self ?spec w1 = (w2, g)" by force
  obtain w3 u where u: "discover_url host self n w2 = (w3, u)" by force
  have 1: "has w1 = has (ar_world r)" using container_exists_reports(1) [OF eng, of n "ar_world r"] f by simp
  have 2: "\<forall>m \<in> in_use r. has w2 m" using ensure_present [OF eng g] p 1 by (auto simp: containers_present_def)
  have 3: "has w3 = has w2" using discover_url_keeps [OF eng, of n w2] u by simp
  have n: "cs_name ?spec = n" by (simp add: attach_spec_def)
  have up: "g = Ok x \<Longrightarrow> has w3 n" for x using podman_ensure_life(3) [OF eng g, of x] n 3 by simp
  show ?thesis
    using p 1 2 3 up f g u dial_uses [of i t dial _ "r\<lparr>ar_world := w3\<rparr>"]
    by (fastforce simp: attach_def podman_backend_def containers_present_def split: sum.split bool.split)
qed

lemma detach_present: "containers_present has r \<Longrightarrow> containers_present has (fst (detach i r))"
  by (auto simp: detach_def containers_present_def in_use_def agent_containers_def idle_containers_def
      split: option.splits if_splits)

lemma warm_present:
  assumes eng: "podman_engine has host self" and p: "containers_present has r"
  shows "containers_present has (registry_warm (podman_backend host self) r)"
proof (cases "ar_warm_pool r")
  case None
  then show ?thesis using p by (simp add: registry_warm_def)
next
  case (Some pool)
  let ?spec = "pool_spec (wp_counter pool) (pool\<lparr>wp_counter := wp_counter pool + 1\<rparr>)"
  obtain w res where e: "podman_ensure host self ?spec (ar_world r) = (w, res)" by force
  have keep: "\<forall>n \<in> in_use r. has w n" using ensure_present [OF eng e] p by (auto simp: containers_present_def)
  have new: "res = Ok x \<Longrightarrow> has w (ch_name x)" for x
    using podman_ensure_life(3) [OF eng e, of x] podman_ensure_name [of host self ?spec "ar_world r" w x] e by simp
  show ?thesis
    using Some e keep new
    by (cases res) (auto simp: registry_warm_def pool_create_one_def Let_def podman_backend_def containers_present_def
        in_use_def agent_containers_def idle_containers_def)
qed

lemma kill_present:
  assumes eng: "podman_engine has host self" and p: "containers_present has r" and s: "\<not> shared_kill (RKill i) r"
  shows "containers_present has (fst (kill (podman_backend host self) i r))"
proof -
  let ?r = "fst (kill (podman_backend host self) i r)"
  have u: "in_use ?r = in_use (r\<lparr>ar_inner := hm_remove i (ar_inner r)\<rparr>)"
    by (auto simp: in_use_def agent_containers_def idle_containers_def kill_def Let_def split: option.splits prod.splits sum.splits)
  have sub: "in_use (r\<lparr>ar_inner := hm_remove i (ar_inner r)\<rparr>) \<subseteq> in_use r"
    by (auto simp: in_use_def agent_containers_def idle_containers_def split: if_splits)
  show ?thesis
  proof (cases "hm_get (ar_inner r) i")
    case None
    then have "ar_world ?r = ar_world r" by (simp add: kill_def Let_def)
    then show ?thesis using p u sub by (auto simp: containers_present_def)
  next
    case (Some e)
    have "ar_world ?r = fst (podman_destroy host self (ae_container_name e) (ar_world r))"
      using Some by (simp add: kill_def Let_def podman_backend_def podman_destroy_def)
    then have "has (ar_world ?r) n = has (ar_world r) n" if "n \<noteq> ae_container_name e" for n
      using eng that by (simp add: podman_destroy_def fst_podman podman_engine_def)
    moreover have "n \<noteq> ae_container_name e" if "n \<in> in_use ?r" for n
      using s Some that u by (auto simp: shared_kill_def)
    ultimately show ?thesis using p u sub unfolding containers_present_def by blast
  qed
qed

lemma detach_all_present: "containers_present has (detach_all be r)"
  by (auto simp: containers_present_def in_use_def agent_containers_def idle_containers_def detach_all_def Let_def
      pool_drain_def hm_get_def split: option.splits)

lemma step_present:
  assumes "podman_engine has host self" "containers_present has r" "\<not> shared_kill ev r"
  shows "containers_present has (registry_step (podman_backend host self) ev r)"
  using assms spawn_present attach_present detach_present kill_present warm_present detach_all_present
  by (cases ev) auto

lemma history_present:
  assumes eng: "podman_engine has host self"
  shows "containers_present has r \<Longrightarrow> no_shared_kill (podman_backend host self) evs r \<Longrightarrow>
    containers_present has (registry_history (podman_backend host self) evs r)"
  by (induction evs arbitrary: r) (simp_all add: step_present [OF eng])


text \<open>An agent that cannot be dialled is not registered, but its container stays: nobody knows it any more.\<close>

lemma failed_dial_leaves_container:
  assumes eng: "podman_engine has host self" and "take_warm p r = (r, None)"
    and "podman_ensure host self (spawn_spec (ar_spawn_defaults r) p) (ar_world r) = (w, Ok h)"
    and "dial (ch_url h) (''nexal-gateway/'' @ i) = Err err"
  shows "spawn (podman_backend host self) i t dial p r = (r\<lparr>ar_world := w\<rparr>, Err (RegAgentConn err))"
    and "has w (derive_container_name (ar_spawn_defaults r) (sp_name p))"
  using assms(2-) podman_ensure_life(3) [OF eng assms(3)]
  by (auto simp: spawn_def podman_backend_def dial_and_register_def spawn_spec_def)

section \<open>Witness\<close>

definition sample_dial :: dialler where
  "sample_dial url name = Ok conn_new"

definition sample_defaults :: SpawnDefaults where
  "sample_defaults = \<lparr>sd_image = ''img'', sd_agent_bin = ''/bin/agent'', sd_memory = None, sd_cpus = None, sd_pids_limit = None,
     sd_network = True, sd_container_name_prefix = ''nexal-'', sd_workspace_volume = None\<rparr>"

definition sample_spawn :: "string \<Rightarrow> SpawnAgentParams" where
  "sample_spawn name = \<lparr>sp_name = name, sp_image = None, sp_env = [], sp_labels = [], sp_workspace = None, sp_extra_ports = []\<rparr>"

definition sample_registry_events :: "registry_event list" where
  "sample_registry_events = [RWarm, RSpawn ''i1'' 0 sample_dial (sample_spawn ''a''), RSpawn ''i2'' 1 sample_dial (sample_spawn ''b''),
     RKill ''i1'']"

definition sample_registry_end :: "string list AgentRegistry" where
  "sample_registry_end = registry_history (podman_backend sample_host (podman_new None None)) sample_registry_events
     (registry_new sample_defaults (Some sample_pool) [''other''])"

lemma sample_ensure_new:
  assumes "cs_name spec \<notin> set w" "cs_extra_ports spec = []" "cs_agent_bin spec = ''/bin/agent''"
  shows "podman_ensure sample_host (podman_new None None) spec w =
    (cs_name spec # w, Ok \<lparr>ch_name = cs_name spec, ch_url = ''ws://127.0.0.1:4000'', ch_port_map = []\<rparr>)"
proof -
  have "utf8_valid (map of_char ''/bin/agent'')" by code_simp
  then show ?thesis
    using assms by (simp add: podman_ensure_def podman_create_def copy_agent_binary_def ensure_handle_def discover_url_def
        sample_port container_exists_def podman_def sample_podman_def sample_out_def create_args_def)
qed

lemma sample_names: "derive_container_name sample_defaults ''b'' = ''nexal-b''" "sd_agent_bin sample_defaults = ''/bin/agent''"
  by code_simp+

lemmas sample_run_defs = sample_registry_end_def sample_registry_events_def registry_new_def registry_warm_def podman_backend_def
  sample_pool_def pool_new_def pool_create_one_def pool_spec_def sample_ensure_new dec_0 spawn_def take_warm_def pool_take_def
  sample_spawn_def dial_and_register_def sample_dial_def spawn_spec_def sample_names kill_def podman_destroy_def podman_def
  sample_podman_def sample_out_def hm_insert_def hm_remove_def hm_get_def Let_def

lemma sample_registry_run:
  "ar_world sample_registry_end = [''nexal-b'', ''other'']" "map fst (ar_inner sample_registry_end) = [''i2'']"
  "map_option ae_container_name (registry_get ''i2'' sample_registry_end) = Some ''nexal-b''"
  by (simp_all add: sample_run_defs registry_get_def)

lemma sample_no_shared_kill:
  "no_shared_kill (podman_backend sample_host (podman_new None None)) sample_registry_events
     (registry_new sample_defaults (Some sample_pool) [''other''])"
  by (auto simp: sample_run_defs shared_kill_def in_use_def agent_containers_def idle_containers_def split: if_splits)


end
