(* ===== verification/Spec2Isabelle.thy ===== *)
theory Spec2Isabelle
  imports Gateway_Listener Proxy_Server Gateway_Skills Agent_Start Transport_Runs Local_Copy Skills_Fuse Gateway_Config
    Process_Output Build_Helpers Remote_Files Transport_Fixtures Exec_Handles Registry_Containers
begin

text \<open>
  Verification of the Rust core of nexal: the gateway (\<^verbatim>\<open>crates/nexal-gateway\<close>), the agent
  that runs inside a container (\<^verbatim>\<open>crates/nexal-agent\<close>), the transport crate both use
  (\<^verbatim>\<open>crates/utils/transport\<close>), the crates for processes and paths that the agent uses
  (\<^verbatim>\<open>crates/utils/pty\<close>, \<^verbatim>\<open>crates/utils/absolute-path\<close>), and the helpers for
  certificates and tests (\<^verbatim>\<open>crates/utils/certs\<close>, \<^verbatim>\<open>crates/utils/cargo-bin\<close>).

  \<^bold>\<open>The program.\<close>  A frontend opens a session with the gateway and authenticates with a signed
  hello.  It then asks the gateway to spawn agents: the registry obtains a container from a
  backend or from the warm pool, dials the agent in it over a WebSocket and keeps the connection.
  Calls of the frontend are relayed to the agent, which runs processes, serves files and opens
  proxy sockets; the agent's process events come back as notifications.  The gateway also runs
  an HTTP proxy (tokens to upstream URLs), TCP stream proxies, and a skills service that agents
  query over the same connection.

  \<^bold>\<open>Method.\<close>  Every component is a shallow embedding: one definition per function or critical
  section of the source, with its early returns; state is passed explicitly; errors are values of
  a sum type, a Rust panic is the value \<open>Panics\<close>.  What is outside the repository (serde,
  the operating system, sockets, clocks, UUIDs, HMAC, container engines) enters as arguments of
  the definitions: records of functions (\<open>Env\<close>, \<open>AgentEnv\<close>, \<open>Codec\<close>,
  \<open>ContainerBackend\<close>, \<open>ExecutorFileSystem\<close>) or results of single calls.
  Concurrency is interleaving of critical sections: step relations with reachable states
  (\<open>inc_step\<close>, \<open>conn_step\<close>, \<open>chan_step\<close>, \<open>mux_reach\<close>,
  \<open>pm_reach\<close>) or sequences of operations (\<open>lp_run\<close>).

  \<^bold>\<open>Theories.\<close>
  \<^item> \<open>Prelude\<close>: results, panics, hash maps, i64 arithmetic, strings, decimal printing.
    \<open>Text\<close>: splitting, searching, trimming, UTF-8.  \<open>Paths\<close>: components of
    Unix paths and joining.  \<open>Values\<close>: MessagePack values and map access.
  \<^item> \<open>Registry_Spec\<close>: locales for a registry of entries per agent and name; interpreted in
    \<open>Proxy_Registry\<close> (\<^verbatim>\<open>proxy/registry.rs\<close>: tokens resolve exactly to current
    registrations, rotate on re-registration, vanish with their agent) and \<open>Tcp_Proxy\<close>
    (\<^verbatim>\<open>proxy/tcp.rs\<close>: a running listener belongs to exactly one entry).
  \<^item> \<open>Call_Table\<close>: locale for a table of outstanding calls; interpreted in
    \<open>Agent_Conn\<close> (\<^verbatim>\<open>agent_conn.rs\<close>) and \<open>Agent_Dispatch\<close>
    (\<^verbatim>\<open>dispatch.rs\<close>): no id is used twice, no call has two results.
  \<^item> \<open>Agent_Protocol\<close>, \<open>Gateway_Protocol\<close>: wire structures, method tables, error
    codes.  \<open>Message_Channel\<close> (\<^verbatim>\<open>message_channel.rs\<close>): framing, with the round
    trip of length-prefixed frames, and the reader and writer as two tasks over one queue.  \<open>Connection\<close> (\<^verbatim>\<open>lib.rs\<close>,
    \<^verbatim>\<open>connection.rs\<close>): virtual streams over one transport, with channel states in an
    explicit store because stream handles alias them.  \<open>Wire_Codec\<close>: the envelope as
    MessagePack maps, so that two connections can be put against each other: a request on a stream
    runs the peer's handler and resolves exactly this request.  \<open>Transport_Fixtures\<close>: the three
    programs of \<^verbatim>\<open>transport/src/bin\<close>, which call every method of both tables.
  \<^item> \<open>Local_Process\<close> (\<^verbatim>\<open>process/local.rs\<close>): the process table, the bounded output
    buffer, reads that resume without loss, the order of events under every interleaving of the
    three tasks of a process.  \<open>Exec_Handles\<close>: the same service as the backend and
    process objects that an environment hands out.
  \<^item> \<open>Process_Group\<close>, \<open>Pty_Handle\<close>, \<open>Pty_Spawn\<close> (the pty crate): the calls
    to libc are a record of functions, with a table of POSIX processes as its instance; a child leads
    a group of its own, killing the group reaches every descendant in it and never the agent; the
    handle kills at most once and delivers the exit code consistently.  \<open>Process_Output\<close>
    composes the tasks of the crate with \<open>Local_Process\<close>: from the reads of the child's
    output to the events nothing is lost or reordered.
  \<^item> \<open>Absolute_Path\<close> (\<^verbatim>\<open>absolute-path/src/lib.rs\<close>): the paths of requests; the
    locale \<open>absolutizer\<close> says what the third-party crate promises.
  \<^item> \<open>Wire_Schema\<close>: types as serde sees them, when two types understand each other and which
    value arrives, in the locale \<open>serde\<close> of documented laws, interpreted on a reference codec.
    \<open>Wire_Types\<close>: the types of the three crates.  \<open>Typed_Rpc\<close>: the typed clients
    and servers; a typed call runs the handler on the parameters passed and gives its result.
    \<open>Typed_Agent\<close>: the same client against the agent's own types and through the gateway.
    \<open>Agent_Link\<close>: the two ends of the connection between gateway and agent.
    \<open>Remote_Files\<close>: a typed file call through a gateway session has exactly the effect and
    the result of the agent's local operation.
  \<^item> \<open>F64\<close>: doubles as rationals with IEEE rounding, for the back-off and the sizes of
    machines.  \<open>Transport\<close>, \<open>Transport_Runs\<close> (\<^verbatim>\<open>transport.rs\<close>): both driver
    loops turn by turn, heartbeat, reconnection with back-off, and the pump of
    \<open>Connection\<close> over their events.
  \<^item> \<open>Local_Fs\<close>, \<open>Local_Copy\<close> (\<^verbatim>\<open>fs/local.rs\<close>): the agent's file
    operations over a model of \<^verbatim>\<open>std::fs\<close> with symbolic links, with the recursive copy.
    \<open>Skills_Fuse\<close> (\<^verbatim>\<open>fs/skills.rs\<close>): the read-only tree an agent mounts.
  \<^item> \<open>Agent_Fs\<close> (\<^verbatim>\<open>fs/mod.rs\<close>, \<^verbatim>\<open>services/file_system.rs\<close>),
    \<open>Agent_Proxy\<close> (\<^verbatim>\<open>proxy.rs\<close>): proxy sockets, URL parsing, request rewriting;
    \<open>Agent_Dispatch\<close> (\<^verbatim>\<open>dispatch.rs\<close>, \<^verbatim>\<open>exec_server.rs\<close>): the agent's
    message loop over all of them, behind the initialization handshake.  \<open>Socket_Addr\<close>: the
    parser of \<^verbatim>\<open>std::net::SocketAddr\<close>.  \<open>Agent_Listener\<close>
    (\<^verbatim>\<open>server/transport.rs\<close>): sessions of the agent do not interfere before their
    handshake.  \<open>Agent_Start\<close>: the agent accepts the listen URL of every backend.
  \<^item> \<open>Backend\<close> (\<^verbatim>\<open>backend.rs\<close>, \<^verbatim>\<open>pool.rs\<close>), \<open>Agent_Registry\<close>
    (\<^verbatim>\<open>registry.rs\<close>): spawn, attach, detach, kill.  \<open>Hello\<close>,
    \<open>Session\<close> (\<^verbatim>\<open>session.rs\<close>): authentication without replay, the gate in front
    of all methods, answers in order.  \<open>Gateway_Config\<close> (\<^verbatim>\<open>config.rs\<close>,
    \<^verbatim>\<open>bin/nexal-gateway.rs\<close>): what a gateway is built from.  \<open>Gateway_Server\<close> and
    \<open>Gateway_Listener\<close> (\<^verbatim>\<open>server.rs\<close>): the sessions of all connections over one
    gateway, where authentication is per session and a hello admits one session;
    \<open>Proxy_Server\<close> (\<^verbatim>\<open>proxy/server.rs\<close>): requests interleaved with
    registrations reach the live ones only; \<open>Gateway_Skills\<close> (\<^verbatim>\<open>skills.rs\<close>).
  \<^item> The locale \<open>container_backend\<close> of \<open>Backend\<close> says what a backend promises; it is
    interpreted on \<open>Podman\<close>, \<open>Fly\<close>, \<open>Kubernetes\<close> and \<open>Sprites\<close>
    (\<^verbatim>\<open>backend/*.rs\<close>), of which \<open>Fly\<close> and \<open>Sprites\<close> share
    \<open>Http_Api\<close>.  \<open>Backends\<close> has what the pool gains from them, \<open>Calendar\<close> the
    dates of the labels.  \<open>Registry_Containers\<close> runs the registry on Podman: the containers of
    registered agents are present.
  \<^item> \<open>Certs\<close> (\<^verbatim>\<open>certs/src/lib.rs\<close>): certificates are generated once and then
    read back.  \<open>Build_Helpers\<close> (\<^verbatim>\<open>cargo-bin/src/lib.rs\<close>): finding compiled
    programs.  Both run on the file system of \<open>Local_Fs\<close>.
  \<^item> This theory: properties that span the gateway and the agent.

  \<^bold>\<open>Bounds.\<close>  Sequence numbers, call ids and byte counts are natural numbers; theorems that depend
  on 64 bits say so (\<open>ac_next_id c < 2 ^ 64\<close>).  Time differences of the hello check are
  64-bit and wrap.  The head of a proxied request is bounded by 1 MiB as in the code.  Loops are
  structural or come with a measure; a waiting read is a function of the observations it makes,
  and its theorem gives the observation at which it returns.  Fuel occurs twice: \<open>pool_replenish\<close>,
  a loop that runs for ever when creation keeps failing, whose theorem gives the iterations that are
  enough; and the recursive copy, whose fuel is the depth it descends, where \<open>local_copy_directory\<close>
  shows that the depth of the tree is enough.  Symbolic links are followed up to 40 times, as Linux
  does.  The waiting loops of the backends have the bounds of the code.

  \<^bold>\<open>Not modelled.\<close>  The TypeScript server and packages, the web client, the Python skills, which
  are other programs; the unit and integration tests; command line parsing and logging of the
  binaries; derived trait implementations and the conversions of \<^verbatim>\<open>ProcessId\<close>, a string in
  the model; wrappers that only pass a call on (\<^verbatim>\<open>services/process.rs\<close>).  Permissions, hard
  links and concurrent changes of the file system; the terminal's line discipline; the container
  engines and cloud APIs themselves.  MessagePack and serde enter with the laws of the locale
  \<open>serde\<close> and, for frames, with the hypothesis that a written value is read back.  The theory
  \<open>Paths\<close>, used by the skills service, knows no symbolic links.

  \<^bold>\<open>What is left.\<close>  Operations of the registry are single events in its histories; their awaits
  could be interleaved with each other.  The registry is composed with Podman only: the other
  backends have the contract of \<open>container_backend\<close>, but not yet hypotheses on which machines
  their services keep.  The gateway's listener and the agent's listener are each closed over
  arbitrary peers; the theorem on calls below joins them for one call at a time.
\<close>

section \<open>Both ends of an agent connection\<close>

text \<open>C2. A call through the gateway reaches the agent and comes back: the frame that
  \<^verbatim>\<open>invoke\<close> writes makes the agent run exactly that method on exactly those
  parameters, and the agent's answer resolves exactly that call, with the result on success and
  with the JSON-RPC code of the agent's error kind on failure.\<close>

theorem invoke_end_to_end:
  assumes "conn_reach c" "\<not> ac_closed c" "ac_next_id c < 2 ^ 64"
    and "agent_dispatch env m (unwrap_positional p) (ar_handler a) = Some (h', r)"
  shows "\<exists>c1 a' frame.
     invoke True m (Some p) c = (c1, Ok (ac_next_id c)) \<and>
     handle_event env True (Message (last (ac_sent c1))) a = Some (a', True) \<and>
     ar_handler a' = h' \<and> ar_out a' = ar_out a @ [frame] \<and>
     ac_results (fst (dispatch_frame handler frame c1)) = ac_results c @ [(ac_next_id c, gateway_view r)] \<and>
     pending_ids (fst (dispatch_frame handler frame c1)) = pending_ids c"
proof -
  let ?i = "ac_next_id c"
  let ?c1 = "fst (invoke True m (Some p) c)"
  let ?req = "build_rpc_request ?i m p"
  let ?frame = "reply_frame (VInteger (int ?i)) r"
  have new: "?i \<notin> set (pending_ids c)" using conn_calls.next_call_unused [OF assms(1)] by simp
  have inv: "invoke True m (Some p) c = (?c1, Ok ?i)" "ac_sent ?c1 = ac_sent c @ [?req]"
    "ac_results ?c1 = ac_results c" "pending_ids ?c1 = pending_ids c @ [?i]"
    using assms(2) new by (simp_all add: invoke_def invoke_send_def Let_def pending_ids_def hm_keys_insert_new)
  have "try_resolve_pending ?req (ar_chan a) = (ar_chan a, False)"
    by (simp add: try_resolve_pending_def pending_response_def build_rpc_request_map)
  then have agent: "handle_event env True (Message ?req) a =
      Some (a\<lparr>ar_handler := h', ar_out := ar_out a @ [?frame]\<rparr>, True)"
    using assms(4) by (simp add: handle_event_def build_rpc_request_map send_frame_def Let_def)
  have "map_get ?frame ''id'' = Some (VInteger (int ?i))" "map_get ?frame ''method'' = None"
    using reply_frame_shape [of "VInteger (int ?i)" r] by (simp_all add: is_reply_def)
  moreover have "?i \<in> set (hm_keys (ac_pending ?c1))" using inv(4) by (simp add: pending_ids_def)
  ultimately have answered: "dispatch_frame handler ?frame ?c1 =
      (?c1\<lparr>ac_pending := hm_remove ?i (ac_pending ?c1), ac_results := ac_results ?c1 @ [(?i, gateway_view r)]\<rparr>, Ok ())"
    using dispatch_frame_resolves [OF _ assms(3)] by (simp add: response_result_reply)
  have "filter (\<lambda>x. x \<noteq> ?i) (pending_ids c @ [?i]) = pending_ids c" using new by (auto intro: filter_True)
  then have "pending_ids (fst (dispatch_frame handler ?frame ?c1)) = pending_ids c"
    using inv(4) by (simp add: answered pending_ids_def hm_keys_remove)
  then show ?thesis
    using inv agent answered by (intro exI [of _ ?c1] exI [of _ "a\<lparr>ar_handler := h', ar_out := ar_out a @ [?frame]\<rparr>"]
        exI [of _ ?frame]) simp
qed

definition sample_ready :: "nat ExecServerHandler" where
  "sample_ready = (handler_new 5)\<lparr>eh_process := lp_new\<lparr>lp_initialize_requested := True, lp_initialized := True\<rparr>\<rparr>"

theorem invoke_end_to_end_witness:
  "\<exists>c1 a' frame.
     invoke True ''fs/write_file'' (Some VNil) conn_new = (c1, Ok 1) \<and>
     handle_event sample_agent_env True (Message (last (ac_sent c1))) (run_new sample_ready) = Some (a', True) \<and>
     eh_world (ar_handler a') = 6 \<and> ar_out a' = [frame] \<and>
     ac_results (fst (dispatch_frame None frame c1)) = [(1, Ok (VBoolean True))]"
proof -
  let ?a = "run_new sample_ready"
  have d: "agent_dispatch sample_agent_env ''fs/write_file'' (unwrap_positional VNil) (ar_handler ?a) =
      Some ((ar_handler ?a)\<lparr>eh_world := 6\<rparr>, Ok (VBoolean True))"
    by (simp add: agent_dispatch_def agent_parse_def arm_def agent_parse_params_def encode_result_def handle_fs_def
        write_file_def lift_fs_def sample_agent_env_def sample_files_def sample_ready_def run_new_def
        handler_new_def require_initialized_for_def)
  have c: "\<not> ac_closed conn_new" "ac_next_id conn_new < 2 ^ 64" by (simp_all add: conn_new_def)
  have s: "ar_out ?a = []" "ac_results conn_new = []" "ac_next_id conn_new = 1"
    by (simp_all add: run_new_def conn_new_def)
  from invoke_end_to_end [OF conn_calls.calls_reach.start c d, of None] obtain c1 a' frame where
    "invoke True ''fs/write_file'' (Some VNil) conn_new = (c1, Ok 1)"
    "handle_event sample_agent_env True (Message (last (ac_sent c1))) ?a = Some (a', True)"
    "ar_handler a' = (ar_handler ?a)\<lparr>eh_world := 6\<rparr>" "ar_out a' = [frame]"
    "ac_results (fst (dispatch_frame None frame c1)) = [(1, gateway_view (Ok (VBoolean True)))]"
    unfolding s append_Nil by blast
  then show ?thesis by (intro exI [of _ c1] exI [of _ a'] exI [of _ frame]) (simp add: gateway_view_def)
qed

text \<open>A skills request of an agent is answered by the skills service: the frame the agent writes
  makes the gateway run the service and write one frame back, which resolves exactly that
  request; a file it returns lies below the skills directory.\<close>

theorem skills_request_end_to_end:
  fixes c :: AgentConn and fs_read :: "component list \<Rightarrow> (string, byte list) result"
    and to_value :: "SkillInfo list + byte list \<Rightarrow> (string, value) result"
  assumes "agent_calls.calls_reach ch" "mc_next_id ch < 2 ^ 64"
    and "answer = handle_agent_request (skills_list listing) (skills_read fs_read dir) to_value from_value"
    and "request True m params ch = (ch1, Ok (i, frame))"
  shows "i = mc_next_id ch \<and>
     dispatch_frame (Some answer) frame c =
       (c\<lparr>ac_sent := ac_sent c @ [handler_response (VInteger (int i)) (answer m (Some params))]\<rparr>, Ok ()) \<and>
     (let (ch2, taken) = try_resolve_pending (handler_response (VInteger (int i)) (answer m (Some params))) ch1
      in taken \<and> mc_results ch2 = mc_results ch @ [(i, answer m (Some params))] \<and> chan_pending ch2 = chan_pending ch) \<and>
     (m = ''skills/read'' \<longrightarrow> (\<forall>v. answer m (Some params) = Ok v \<longrightarrow>
        (\<exists>data names. to_value (Inr data) = Ok v \<and> (\<forall>n \<in> set names. seg_ok n) \<and>
           fs_read (components dir @ map Normal names) = Ok data)))"
proof (intro conjI impI allI)
  show i: "i = mc_next_id ch" using assms(4) by (auto simp: request_def Let_def)
  have frame: "frame = request_frame i m params" using assms(4) by (auto simp: request_def Let_def)
  have "matched_id c frame = None"
    by (simp add: matched_id_def response_id_def frame request_frame_def)
  then show "dispatch_frame (Some answer) frame c =
       (c\<lparr>ac_sent := ac_sent c @ [handler_response (VInteger (int i)) (answer m (Some params))]\<rparr>, Ok ())"
    by (simp add: dispatch_frame_def frame request_frame_def Let_def)
  let ?resp = "handler_response (VInteger (int i)) (answer m (Some params))"
  have ch1: "mc_pending ch1 = hm_insert i () (mc_pending ch)" "mc_results ch1 = mc_results ch"
    using assms(4) by (auto simp: request_def Let_def)
  have "map_get ?resp ''method'' = None" "map_get ?resp ''id'' = Some (VInteger (int i))"
    by (simp_all add: handler_response_def map_get_def as_map_def split: sum.split)
  then have "pending_response ch1 ?resp = Some i"
    using assms(2) i ch1 as_u64_VInteger [of i] by (simp add: pending_response_def)
  moreover have "i \<notin> set (chan_pending ch)" using agent_calls.next_call_unused [OF assms(1)] i by simp
  then have "filter (\<lambda>x. x \<noteq> i) (hm_keys (mc_pending ch) @ [i]) = chan_pending ch"
    "i \<notin> set (hm_keys (mc_pending ch))"
    by (auto simp: chan_pending_def intro: filter_True)
  ultimately show "let (ch2, taken) = try_resolve_pending ?resp ch1
      in taken \<and> mc_results ch2 = mc_results ch @ [(i, answer m (Some params))] \<and> chan_pending ch2 = chan_pending ch"
    using ch1 by (simp add: try_resolve_pending_def gateway_answer_response chan_pending_def hm_keys_remove hm_keys_insert_new)
next
  fix v assume "m = ''skills/read''" "answer m (Some params) = Ok v"
  then obtain p data where "skills_read fs_read dir p = Ok data" "to_value (Inr data) = Ok v"
    unfolding assms(3) by (auto simp: handle_agent_request_def split: option.splits sum.splits)
  then show "\<exists>data names. to_value (Inr data) = Ok v \<and> (\<forall>n \<in> set names. seg_ok n) \<and>
      fs_read (components dir @ map Normal names) = Ok data"
    using skills_read_names [of fs_read dir p data] by blast
qed

definition sample_answer_fn :: "string \<Rightarrow> value option \<Rightarrow> (string, value) result" where
  "sample_answer_fn =
     handle_agent_request (skills_list (Ok sample_tree)) (skills_read sample_fs ''/skills'')
       (\<lambda>r. case r of Inl _ \<Rightarrow> Ok VNil | Inr bs \<Rightarrow> Ok (VBinary bs)) as_str"

theorem skills_request_end_to_end_witness:
  "\<exists>ch1 frame. request True ''skills/read'' (VString ''jina/scripts/read.py'') channel_new = (ch1, Ok (1, frame)) \<and>
     (let (ch2, taken) = try_resolve_pending (handler_response (VInteger 1) (Ok (VBinary [1, 2, 3]))) ch1
      in taken \<and> mc_results ch2 = [(1, Ok (VBinary [1, 2, 3]))])"
proof -
  let ?p = "VString ''jina/scripts/read.py''"
  obtain ch1 frame where r: "request True ''skills/read'' ?p channel_new = (ch1, Ok (1, frame))"
    by (simp add: request_def channel_new_def Let_def)
  have rd: "skills_read sample_fs ''/skills'' ''jina/scripts/read.py'' = Ok [1, 2, 3]" by code_simp
  then have ans: "sample_answer_fn ''skills/read'' (Some ?p) = Ok (VBinary [1, 2, 3])"
    by (simp add: sample_answer_fn_def handle_agent_request_def)
  have n: "mc_next_id channel_new < 2 ^ 64" by (simp add: channel_new_def)
  have z: "mc_results channel_new = []" by (simp add: channel_new_def)
  show ?thesis
    using skills_request_end_to_end [OF agent_calls.calls_reach.start n sample_answer_fn_def r] r
    unfolding ans z by (auto simp: case_prod_unfold Let_def)
qed

section \<open>Skills from the gateway's disk to the agent's mount\<close>

text \<open>The agent's view of an entry of the listing.\<close>

definition fuse_skill :: "SkillInfo \<Rightarrow> FuseSkill" where
  "fuse_skill info =
     \<lparr>fk_name = si_name info, fk_files = map (\<lambda>f. \<lparr>fi_path = sf_path f, fi_size = sf_size f\<rparr>) (si_files info)\<rparr>"



section \<open>Stray answers\<close>

text \<open>A frame that has an id but no method and matches no pending call is taken for a request by
  either end, and each end answers it with another such frame.  One undecodable message to the
  agent is enough: its answer carries the id \<^verbatim>\<open>nil\<close>, which no call has.  From then on
  the two ends send each other error frames without end.\<close>

definition stray :: "value \<Rightarrow> bool" where
  "stray f \<longleftrightarrow> map_get f ''id'' = Some VNil \<and> map_get f ''method'' = None"

fun bounces ::
  "nat \<Rightarrow> (string \<Rightarrow> value option \<Rightarrow> (string, value) result) \<Rightarrow> 'w AgentEnv \<Rightarrow> AgentConn \<times> 'w AgentRun \<Rightarrow>
     (AgentConn \<times> 'w AgentRun) option" where
  "bounces 0 answer env s = Some s"
| "bounces (Suc n) answer env (c, a) =
     (let c = fst (dispatch_frame (Some answer) (last (ar_out a)) c)
      in case handle_event env True (Message (last (ac_sent c))) a of
           Some (a, True) \<Rightarrow> bounces n answer env (c, a)
         | _ \<Rightarrow> None)"

lemma stray_unmatched: "stray f \<Longrightarrow> matched_id c f = None \<and> pending_response ch f = None"
  by (simp add: stray_def matched_id_def response_id_def pending_response_def as_u64_def)

lemma stray_handler_response: "stray (handler_response VNil r)"
  by (simp add: stray_def handler_response_def map_get_def as_map_def split: sum.split)

lemma stray_gateway:
  assumes "stray f"
  shows "\<exists>g. dispatch_frame (Some answer) f c = (c\<lparr>ac_sent := ac_sent c @ [g]\<rparr>, Ok ()) \<and> stray g"
  using stray_unmatched [OF assms] assms stray_handler_response
  by (auto simp: dispatch_frame_def stray_def Let_def)

lemma stray_agent:
  assumes "stray g"
  shows "\<exists>f. handle_event env True (Message g) a = Some (a\<lparr>ar_out := ar_out a @ [f]\<rparr>, True) \<and> stray f"
proof -
  have "agent_parse [] = None" by (simp add: agent_parse_def)
  moreover have "map_str g ''method'' = None" using assms by (simp add: map_str_map_get stray_def)
  moreover have "stray (reply_frame VNil r)" for r
    using reply_frame_shape [of VNil r] by (simp add: stray_def is_reply_def)
  ultimately show ?thesis
    using stray_unmatched [OF assms] assms
    by (auto simp: handle_event_def try_resolve_pending_def agent_dispatch_def send_frame_def stray_def Let_def)
qed

lemma stray_answers_never_end:
  assumes "ar_out a \<noteq> []" "stray (last (ar_out a))"
  shows "\<exists>c' a'. bounces n answer env (c, a) = Some (c', a') \<and>
     length (ac_sent c') = length (ac_sent c) + n \<and> length (ar_out a') = length (ar_out a) + n"
  using assms
proof (induction n arbitrary: c a)
  case (Suc n)
  obtain g where g: "fst (dispatch_frame (Some answer) (last (ar_out a)) c) = c\<lparr>ac_sent := ac_sent c @ [g]\<rparr>" "stray g"
    using stray_gateway [OF Suc.prems(2), of answer c] by auto
  obtain f where f: "handle_event env True (Message g) a = Some (a\<lparr>ar_out := ar_out a @ [f]\<rparr>, True)" "stray f"
    using stray_agent [OF g(2), of env a] by auto
  from Suc.IH [of "a\<lparr>ar_out := ar_out a @ [f]\<rparr>" "c\<lparr>ac_sent := ac_sent c @ [g]\<rparr>"] show ?case
    using f g by simp
qed simp

lemma malformed_message_starts_bouncing:
  "\<exists>a'. handle_event env True (MalformedMessage reason) a = Some (a', True) \<and> ar_out a' \<noteq> [] \<and> stray (last (ar_out a'))"
  using parse_error_shape [of reason] by (simp add: handle_event_def send_frame_def stray_def is_reply_def)

end
